(* ===== verification/Prelude.thy ===== *)
theory Prelude
  imports Main "HOL-Library.List_Lexorder" "HOL-Library.Char_ord"
begin

text \<open>
  The vocabulary every component shares.

  A Python \<open>str\<close> is modelled by its UTF-8 encoding, as an Isabelle \<^typ>\<open>string\<close>
  (a list of \<^typ>\<open>char\<close>, one per byte). So \<open>len(text.encode("utf-8"))\<close> is
  \<^const>\<open>length\<close>, and the byte-wise lexicographic order of \<open>HOL-Library.List_Lexorder\<close>
  is Python's code-point order on strings (UTF-8 preserves it). A raised exception is the
  \<^const>\<open>Inl\<close> of a sum, a returned value its \<^const>\<open>Inr\<close>.

  Besides that: keyed update-or-append on lists (the \<open>for ... break ... else: append\<close>
  loops of the accounting code), order-preserving union, and the lemmas about them that
  several components use.
\<close>

named_theorems result_simps "inversion of sequenced fallible computations"
named_theorems contract_defs "definitions of the closed contracts' validators"

section \<open>Fallible computations\<close>

fun bind_result :: "'e + 'a \<Rightarrow> ('a \<Rightarrow> 'e + 'b) \<Rightarrow> 'e + 'b" where
  "bind_result (Inl e) f = Inl e"
| "bind_result (Inr x) f = f x"

definition require :: "bool \<Rightarrow> 'e \<Rightarrow> 'e + unit" where
  "require ok e = (if ok then Inr () else Inl e)"

fun map_result :: "('a \<Rightarrow> 'e + 'b) \<Rightarrow> 'a list \<Rightarrow> 'e + 'b list" where
  "map_result f [] = Inr []"
| "map_result f (x # xs) =
     bind_result (f x) (\<lambda>y. bind_result (map_result f xs) (\<lambda>ys. Inr (y # ys)))"

lemma bind_result_Inr [result_simps]:
  "bind_result m f = Inr y \<longleftrightarrow> (\<exists>x. m = Inr x \<and> f x = Inr y)"
  by (cases m) auto

lemma bind_result_Inl [result_simps]:
  "bind_result m f = Inl e \<longleftrightarrow> m = Inl e \<or> (\<exists>x. m = Inr x \<and> f x = Inl e)"
  by (cases m) auto

lemma require_Inr [result_simps]: "require ok e = Inr u \<longleftrightarrow> ok"
  by (cases u) (simp add: require_def)

lemma require_Inl [result_simps]: "require ok e = Inl e' \<longleftrightarrow> \<not> ok \<and> e' = e"
  by (auto simp: require_def)

lemma require_True [simp]: "require True e = Inr ()"
  by (simp add: require_def)

lemma require_False [simp]: "require False e = Inl e"
  by (simp add: require_def)

lemma bind_result_cong [fundef_cong]:
  "m = m' \<Longrightarrow> (\<And>x. m' = Inr x \<Longrightarrow> f x = g x) \<Longrightarrow> bind_result m f = bind_result m' g"
  by (cases m') auto

lemma map_result_Inr_all2:
  "map_result f xs = Inr ys \<longleftrightarrow> list_all2 (\<lambda>x y. f x = Inr y) xs ys"
proof (induction xs arbitrary: ys)
  case Nil
  then show ?case by auto
next
  case (Cons x xs)
  then show ?case by (cases ys) (auto simp: result_simps)
qed

lemma map_result_Inl:
  "map_result f xs = Inl e \<Longrightarrow> \<exists>x \<in> set xs. f x = Inl e"
  by (induction xs) (auto simp: result_simps)

section \<open>Keyed update-or-append\<close>

fun upsert :: "('a \<Rightarrow> bool) \<Rightarrow> ('a \<Rightarrow> 'a) \<Rightarrow> 'a \<Rightarrow> 'a list \<Rightarrow> 'a list" where
  "upsert p f d [] = [d]"
| "upsert p f d (x # xs) = (if p x then f x # xs else x # upsert p f d xs)"

fun upsert_result ::
  "('a \<Rightarrow> bool) \<Rightarrow> ('a \<Rightarrow> 'e + 'a) \<Rightarrow> 'e + 'a \<Rightarrow> 'a list \<Rightarrow> 'e + 'a list" where
  "upsert_result p f d [] = bind_result d (\<lambda>y. Inr [y])"
| "upsert_result p f d (x # xs) =
     (if p x then bind_result (f x) (\<lambda>y. Inr (y # xs))
      else bind_result (upsert_result p f d xs) (\<lambda>ys. Inr (x # ys)))"

lemma set_upsert:
  "y \<in> set (upsert p f d xs) \<Longrightarrow> y = d \<or> y \<in> set xs \<or> (\<exists>x \<in> set xs. p x \<and> y = f x)"
  by (induction xs) (auto split: if_splits)

lemma list_all_upsert:
  "\<lbrakk> \<forall>x \<in> set xs. P x; P d; \<And>x. x \<in> set xs \<Longrightarrow> p x \<Longrightarrow> P (f x) \<rbrakk>
    \<Longrightarrow> \<forall>y \<in> set (upsert p f d xs). P y"
  by (induction xs) auto

lemma set_upsert_result:
  "\<lbrakk> upsert_result p f d xs = Inr ys; y \<in> set ys \<rbrakk>
    \<Longrightarrow> y \<in> set xs \<or> d = Inr y \<or> (\<exists>x \<in> set xs. p x \<and> f x = Inr y)"
proof (induction xs arbitrary: ys)
  case Nil
  then show ?case by (auto simp: result_simps)
next
  case (Cons x xs)
  show ?case
  proof (cases "p x")
    case True
    with Cons.prems show ?thesis by (auto simp: result_simps)
  next
    case False
    with Cons.prems obtain zs where "upsert_result p f d xs = Inr zs" "ys = x # zs"
      by (auto simp: result_simps)
    with Cons.IH [of zs] Cons.prems(2) show ?thesis by auto
  qed
qed

lemma list_all_upsert_result:
  "\<lbrakk> upsert_result p f d xs = Inr ys; \<forall>x \<in> set xs. P x; \<And>y. d = Inr y \<Longrightarrow> P y;
     \<And>x y. x \<in> set xs \<Longrightarrow> p x \<Longrightarrow> f x = Inr y \<Longrightarrow> P y \<rbrakk>
    \<Longrightarrow> \<forall>y \<in> set ys. P y"
  by (blast dest: set_upsert_result)

text \<open>The account an upsert writes, wherever it stands in the list.\<close>

lemma upsert_result_hit:
  "upsert_result p f d xs = Inr ys \<Longrightarrow>
    \<exists>y \<in> set ys. d = Inr y \<or> (\<exists>x \<in> set xs. p x \<and> f x = Inr y)"
  by (induction xs arbitrary: ys) (auto simp: result_simps split: if_splits)

lemma upsert_result_Inl:
  "upsert_result p f d xs = Inl e \<Longrightarrow> d = Inl e \<or> (\<exists>x \<in> set xs. p x \<and> f x = Inl e)"
  by (induction xs) (auto simp: result_simps split: if_splits)

lemma upsert_keys:
  assumes "\<And>x. key (f x) = key x" and "key d = k"
  shows "map key (upsert (\<lambda>x. key x = k) f d xs) =
    (if k \<in> key ` set xs then map key xs else map key xs @ [k])"
  using assms by (induction xs) auto

lemma upsert_result_keys:
  assumes "upsert_result (\<lambda>x. key x = k) f d xs = Inr ys"
    and "\<And>x y. f x = Inr y \<Longrightarrow> key y = key x" and "\<And>y. d = Inr y \<Longrightarrow> key y = k"
  shows "map key ys = (if k \<in> key ` set xs then map key xs else map key xs @ [k])"
  using assms(1)
proof (induction xs arbitrary: ys)
  case Nil
  with assms(3) show ?case by (auto simp: result_simps)
next
  case (Cons x xs)
  show ?case
  proof (cases "key x = k")
    case True
    with Cons.prems assms(2) show ?thesis by (auto simp: result_simps)
  next
    case False
    with Cons.prems obtain zs where zs: "upsert_result (\<lambda>x. key x = k) f d xs = Inr zs"
      "ys = x # zs" by (auto simp: result_simps)
    from Cons.IH [OF zs(1)] zs(2) False show ?thesis by auto
  qed
qed

text \<open>One upsert adds one increment to a total over the list.\<close>

lemma sum_list_upsert:
  fixes g :: "'a \<Rightarrow> nat"
  assumes "\<And>x. g (f x) = g x + c" and "g d = c"
  shows "(\<Sum>x\<leftarrow>upsert p f d xs. g x) = (\<Sum>x\<leftarrow>xs. g x) + c"
  using assms by (induction xs) auto

lemma sum_list_upsert_result:
  fixes g :: "'a \<Rightarrow> nat"
  assumes "upsert_result p f d xs = Inr ys"
    and "\<And>x y. f x = Inr y \<Longrightarrow> g y = g x + c" and "\<And>y. d = Inr y \<Longrightarrow> g y = c"
  shows "(\<Sum>x\<leftarrow>ys. g x) = (\<Sum>x\<leftarrow>xs. g x) + c"
  using assms(1)
proof (induction xs arbitrary: ys)
  case Nil
  with assms(3) show ?case by (auto simp: result_simps)
next
  case (Cons x xs)
  show ?case
  proof (cases "p x")
    case True
    with Cons.prems obtain y where "f x = Inr y" "ys = y # xs" by (auto simp: result_simps)
    with assms(2) [of x y] show ?thesis by simp
  next
    case False
    with Cons.prems obtain zs where "upsert_result p f d xs = Inr zs" "ys = x # zs"
      by (auto simp: result_simps)
    with Cons.IH [of zs] show ?thesis by simp
  qed
qed

section \<open>Order-preserving union\<close>

fun ordered_union :: "'a list \<Rightarrow> 'a list \<Rightarrow> 'a list" where
  "ordered_union xs [] = xs"
| "ordered_union xs (y # ys) =
     (if y \<in> set xs then ordered_union xs ys else ordered_union (xs @ [y]) ys)"

lemma set_ordered_union [simp]: "set (ordered_union xs ys) = set xs \<union> set ys"
  by (induction xs ys rule: ordered_union.induct) auto

lemma distinct_ordered_union [simp]: "distinct (ordered_union xs ys) \<longleftrightarrow> distinct xs"
  by (induction xs ys rule: ordered_union.induct) auto

lemma ordered_union_prefix: "\<exists>zs. ordered_union xs ys = xs @ zs"
proof (induction xs ys rule: ordered_union.induct)
  case (2 xs y ys)
  then show ?case by (cases "y \<in> set xs") auto
qed auto

lemma ordered_union_idem: "set ys \<subseteq> set xs \<Longrightarrow> ordered_union xs ys = xs"
  by (induction ys arbitrary: xs) auto

lemma length_ordered_union_mono: "length xs \<le> length (ordered_union xs ys)"
  using ordered_union_prefix [of xs ys] by auto

lemma ordered_union_twice: "ordered_union (ordered_union xs ys) ys = ordered_union xs ys"
  by (rule ordered_union_idem) simp

section \<open>Sums over identified items\<close>

text \<open>
  Totals over a duplicate-free list of identifiers are sums over its set, so they do not
  depend on the order in which identifiers were first seen.
\<close>

lemma sum_list_ordered_union:
  fixes g :: "'a \<Rightarrow> nat"
  assumes "distinct xs"
  shows "(\<Sum>x\<leftarrow>ordered_union xs ys. g x) = (\<Sum>x\<in>set xs \<union> set ys. g x)"
proof -
  have "distinct (ordered_union xs ys)" using assms by simp
  then have "(\<Sum>x\<leftarrow>ordered_union xs ys. g x) = (\<Sum>x\<in>set (ordered_union xs ys). g x)"
    by (rule sum_list_distinct_conv_sum_set)
  then show ?thesis by simp
qed

lemma sum_list_mono_cong:
  fixes f g :: "'a \<Rightarrow> nat"
  assumes "\<And>x. x \<in> set xs \<Longrightarrow> f x = g x"
  shows "(\<Sum>x\<leftarrow>xs. f x) = (\<Sum>x\<leftarrow>xs. g x)"
  using assms by (metis (no_types, lifting) map_eq_conv)

lemma map_of_key_distinct:
  "distinct (map key xs) \<Longrightarrow> x \<in> set xs \<Longrightarrow> map_of (map (\<lambda>y. (key y, y)) xs) (key x) = Some x"
  by (induction xs) (auto simp: image_iff dest: sym)

lemma map_of_key_SomeD:
  "map_of (map (\<lambda>y. (key y, y)) xs) k = Some x \<Longrightarrow> x \<in> set xs \<and> key x = k"
  by (induction xs) (auto split: if_splits)

lemma map_of_key_None:
  "map_of (map (\<lambda>y. (key y, y)) xs) k = None \<longleftrightarrow> k \<notin> key ` set xs"
  by (simp add: map_of_eq_None_iff image_comp)

section \<open>State machines\<close>

text \<open>
  One contract for every store of the program: an initial-state predicate, a step relation
  and a predicate that the initial states satisfy and every step keeps. What it gives is the
  invariant in every reachable state.
\<close>

inductive reachable_from :: "('s \<Rightarrow> bool) \<Rightarrow> ('s \<Rightarrow> 's \<Rightarrow> bool) \<Rightarrow> 's \<Rightarrow> bool"
  for init step where
  start: "init s \<Longrightarrow> reachable_from init step s"
| advance: "reachable_from init step s \<Longrightarrow> step s t \<Longrightarrow> reachable_from init step t"

locale invariant_system =
  fixes init :: "'s \<Rightarrow> bool" and step :: "'s \<Rightarrow> 's \<Rightarrow> bool" and inv :: "'s \<Rightarrow> bool"
  assumes init_inv: "init s \<Longrightarrow> inv s"
    and step_inv: "step s t \<Longrightarrow> inv s \<Longrightarrow> inv t"
begin

lemma reachable_inv: "reachable_from init step s \<Longrightarrow> inv s"
  by (induction rule: reachable_from.induct) (auto intro: init_inv step_inv)

lemma steps_inv: "step\<^sup>*\<^sup>* s t \<Longrightarrow> inv s \<Longrightarrow> inv t"
  by (induction rule: rtranclp_induct) (auto intro: step_inv)

end

end
