(* ===== verification/CanonicalJson.thy ===== *)
theory CanonicalJson
  imports Prelude
begin

text \<open>
  Canonical JSON, \<open>manifests/canonical.py\<close> and the two \<open>json.dumps\<close> calls of
  \<open>egress/policy.py\<close>: no spaces, \<open>ensure_ascii=False\<close>, keys sorted where the code
  says \<open>sort_keys=True\<close>. Everything content-addressed in the program is the hash of
  such a text, so what identifies a record is the text; the lemmas show that two values with
  one text are equal (unique readability). SHA-256 itself is an argument of the definitions
  that hash.
\<close>

datatype json =
    JNull
  | JBool bool
  | JInt int
  | JStr string
  | JArr "json list"
  | JObj "(string \<times> json) list"

section \<open>Numbers\<close>

definition digit_char :: "nat \<Rightarrow> char" where
  "digit_char n = char_of (48 + n)"

definition is_digit :: "char \<Rightarrow> bool" where
  "is_digit c \<longleftrightarrow> 48 \<le> (of_char c :: nat) \<and> (of_char c :: nat) \<le> 57"

fun show_nat :: "nat \<Rightarrow> string" where
  "show_nat n = (if n < 10 then [digit_char n] else show_nat (n div 10) @ [digit_char (n mod 10)])"

declare show_nat.simps [simp del]

definition show_int :: "int \<Rightarrow> string" where
  "show_int i = (if i < 0 then CHR ''-'' # show_nat (nat (- i)) else show_nat (nat i))"

fun read_nat :: "string \<Rightarrow> nat" where
  "read_nat cs = foldl (\<lambda>n c. n * 10 + (of_char c - 48)) 0 cs"

lemma of_digit_char [simp]: "n < 10 \<Longrightarrow> of_char (digit_char n) = 48 + n"
  by (simp add: digit_char_def)

lemma is_digit_digit_char [simp]: "n < 10 \<Longrightarrow> is_digit (digit_char n)"
  by (simp add: is_digit_def)

lemma show_nat_digits: "\<forall>c \<in> set (show_nat n). is_digit c"
proof (induction n rule: show_nat.induct)
  case (1 n)
  then show ?case by (subst show_nat.simps) auto
qed

lemma show_nat_nonempty [simp]: "show_nat n \<noteq> []"
  by (subst show_nat.simps) simp

lemma read_show_nat [simp]: "read_nat (show_nat n) = n"
proof (induction n rule: show_nat.induct)
  case (1 n)
  show ?case
  proof (cases "n < 10")
    case True
    then show ?thesis by (subst show_nat.simps) simp
  next
    case False
    with 1 have "read_nat (show_nat (n div 10)) = n div 10" by simp
    with False show ?thesis by (subst show_nat.simps) simp
  qed
qed

definition no_digit :: "string \<Rightarrow> bool" where
  "no_digit r \<longleftrightarrow> (case r of [] \<Rightarrow> True | c # _ \<Rightarrow> \<not> is_digit c)"

lemma no_digit_simps [simp]:
  "no_digit []" "no_digit (CHR '','' # r)" "no_digit (CHR '']'' # r)" "no_digit (CHR ''}'' # r)"
  by (simp_all add: no_digit_def is_digit_def)

lemma takeWhile_show_nat: "no_digit r \<Longrightarrow> takeWhile is_digit (show_nat n @ r) = show_nat n"
  using show_nat_digits [of n]
  by (cases r) (auto simp: takeWhile_append no_digit_def)

lemma show_nat_readable:
  assumes "show_nat n @ r = show_nat m @ r'" and "no_digit r" and "no_digit r'"
  shows "n = m \<and> r = r'"
proof -
  from assms(1) have "takeWhile is_digit (show_nat n @ r) = takeWhile is_digit (show_nat m @ r')"
    by simp
  with assms(2,3) have eq: "show_nat n = show_nat m" by (simp add: takeWhile_show_nat)
  then have "read_nat (show_nat n) = read_nat (show_nat m)" by (rule arg_cong)
  then have "n = m" by (simp only: read_show_nat)
  with assms(1) show ?thesis by simp
qed

lemma hd_show_nat: "\<exists>c cs. show_nat n = c # cs \<and> is_digit c"
proof -
  obtain c cs where "show_nat n = c # cs" by (cases "show_nat n") auto
  with show_nat_digits [of n] show ?thesis by auto
qed

lemma minus_no_digit [simp]: "\<not> is_digit (CHR ''-'')"
  by (simp add: is_digit_def)

lemma show_int_readable:
  assumes eq: "show_int i @ r = show_int j @ r'" and "no_digit r" and "no_digit r'"
  shows "i = j \<and> r = r'"
proof -
  obtain c cs d ds where c: "show_nat (nat i) = c # cs" "is_digit c"
      and d: "show_nat (nat j) = d # ds" "is_digit d"
    using hd_show_nat by metis
  have "c \<noteq> CHR ''-''" "d \<noteq> CHR ''-''"
    using c(2) d(2) minus_no_digit by metis+
  then have same: "i < 0 \<longleftrightarrow> j < 0"
    using eq c(1) d(1) by (auto simp: show_int_def split: if_splits)
  show ?thesis
  proof (cases "i < 0")
    case True
    with same eq have "show_nat (nat (- i)) @ r = show_nat (nat (- j)) @ r'"
      by (simp add: show_int_def)
    from show_nat_readable [OF this assms(2,3)] True same show ?thesis by auto
  next
    case False
    with same eq have "show_nat (nat i) @ r = show_nat (nat j) @ r'"
      by (simp add: show_int_def)
    from show_nat_readable [OF this assms(2,3)] False same show ?thesis by auto
  qed
qed

section \<open>Strings\<close>

definition hex_char :: "nat \<Rightarrow> char" where
  "hex_char n = (if n < 10 then char_of (48 + n) else char_of (87 + n))"

definition short_escape :: "char \<Rightarrow> char option" where
  "short_escape = map_of
     [(CHR 0x22, CHR 0x22), (CHR 0x5C, CHR 0x5C), (CHR 0x0A, CHR ''n''), (CHR 0x0D, CHR ''r''),
      (CHR 0x09, CHR ''t''), (CHR 0x0C, CHR ''f''), (CHR 0x08, CHR ''b'')]"

definition escape_char :: "char \<Rightarrow> string" where
  "escape_char c =
     (case short_escape c of
        Some d \<Rightarrow> [CHR 0x5C, d]
      | None \<Rightarrow>
          if (of_char c :: nat) < 32
          then [CHR 0x5C, CHR ''u'', CHR ''0'', CHR ''0'',
                hex_char (of_char c div 16), hex_char (of_char c mod 16)]
          else [c])"

definition show_string :: "string \<Rightarrow> string" where
  "show_string s = CHR 0x22 # concat (map escape_char s) @ [CHR 0x22]"

lemma hex_char_inj: "n < 16 \<Longrightarrow> m < 16 \<Longrightarrow> hex_char n = hex_char m \<Longrightarrow> n = m"
proof -
  assume "n < 16" "m < 16" "hex_char n = hex_char m"
  then have "(of_char (hex_char n) :: nat) = of_char (hex_char m)" by simp
  with \<open>n < 16\<close> \<open>m < 16\<close> show ?thesis by (auto simp: hex_char_def split: if_splits)
qed

lemma hex_pair_inj:
  fixes n m :: nat
  assumes "n < 32" "m < 32" "hex_char (n div 16) = hex_char (m div 16)"
    and "hex_char (n mod 16) = hex_char (m mod 16)"
  shows "n = m"
proof -
  have "n div 16 = m div 16" using assms by (intro hex_char_inj) auto
  moreover have "n mod 16 = m mod 16" using assms(4) by (intro hex_char_inj) auto
  ultimately show ?thesis by (metis div_mult_mod_eq)
qed

definition short_unescape :: "char \<Rightarrow> char option" where
  "short_unescape = map_of
     [(CHR 0x22, CHR 0x22), (CHR 0x5C, CHR 0x5C), (CHR ''n'', CHR 0x0A), (CHR ''r'', CHR 0x0D),
      (CHR ''t'', CHR 0x09), (CHR ''f'', CHR 0x0C), (CHR ''b'', CHR 0x08)]"

lemma short_unescape: "short_escape c = Some d \<Longrightarrow> short_unescape d = Some c"
  by (auto simp: short_escape_def short_unescape_def split: if_split_asm)

lemma short_unescape_u: "short_unescape (CHR ''u'') = None"
  by (simp add: short_unescape_def)

lemma short_escape_None: "short_escape c = None \<Longrightarrow> c \<noteq> CHR 0x22 \<and> c \<noteq> CHR 0x5C"
  by (auto simp: short_escape_def split: if_split_asm)

lemma escape_cases:
  obtains (plain) "escape_char c = [c]" "c \<noteq> CHR 0x22" "c \<noteq> CHR 0x5C"
  | (short) d where "escape_char c = [CHR 0x5C, d]" "short_unescape d = Some c"
  | (long) "(of_char c :: nat) < 32"
      "escape_char c = [CHR 0x5C, CHR ''u'', CHR ''0'', CHR ''0'',
         hex_char (of_char c div 16), hex_char (of_char c mod 16)]"
proof (cases "short_escape c")
  case None
  then show ?thesis
    using plain long short_escape_None [OF None] by (cases "(of_char c :: nat) < 32")
      (simp_all add: escape_char_def)
next
  case (Some d)
  then show ?thesis using short short_unescape by (simp add: escape_char_def)
qed

lemma escape_char_readable:
  assumes "escape_char c @ x = escape_char d @ y"
  shows "c = d \<and> x = y"
proof (cases c rule: escape_cases)
  case plain
  then show ?thesis using assms by (cases d rule: escape_cases) simp_all
next
  case (short e)
  then show ?thesis using assms short_unescape_u by (cases d rule: escape_cases) simp_all
next
  case long
  then show ?thesis
  proof (cases d rule: escape_cases)
    case plain
    with long assms show ?thesis by simp
  next
    case (short e)
    with long assms short_unescape_u show ?thesis by simp
  next
    case d: long
    with long assms have "(of_char c :: nat) = of_char d \<and> x = y"
      using hex_pair_inj [of "of_char c" "of_char d"] by simp
    then show ?thesis using of_char_eq_iff by blast
  qed
qed

lemma escape_char_nonempty: "\<exists>e es. escape_char c = e # es \<and> e \<noteq> CHR 0x22"
  by (cases c rule: escape_cases) simp_all

lemma escaped_readable:
  "concat (map escape_char s) @ CHR 0x22 # r = concat (map escape_char t) @ CHR 0x22 # r' \<Longrightarrow>
    s = t \<and> r = r'"
proof (induction s arbitrary: t)
  case Nil
  then show ?case
  proof (cases t)
    case (Cons d t')
    with Nil.prems escape_char_nonempty [of d] show ?thesis by auto
  qed simp
next
  case (Cons c s)
  show ?case
  proof (cases t)
    case Nil
    with Cons.prems escape_char_nonempty [of c] show ?thesis by auto
  next
    case (Cons d t')
    with Cons.prems have
      "escape_char c @ (concat (map escape_char s) @ CHR 0x22 # r) =
       escape_char d @ (concat (map escape_char t') @ CHR 0x22 # r')" by simp
    from escape_char_readable [OF this] Cons Cons.IH show ?thesis by auto
  qed
qed

lemma show_string_readable: "show_string s @ r = show_string t @ r' \<Longrightarrow> s = t \<and> r = r'"
  using escaped_readable [of s r t r'] by (simp add: show_string_def)

lemma show_string_Cons: "\<exists>cs. show_string s = CHR 0x22 # cs"
  by (simp add: show_string_def)

section \<open>Documents\<close>

fun commas :: "string list \<Rightarrow> string" where
  "commas [] = []"
| "commas [x] = x"
| "commas (x # y # ys) = x @ CHR '','' # commas (y # ys)"

primrec dumps :: "json \<Rightarrow> string" where
  "dumps JNull = ''null''"
| "dumps (JBool b) = (if b then ''true'' else ''false'')"
| "dumps (JInt i) = show_int i"
| "dumps (JStr s) = show_string s"
| "dumps (JArr xs) = CHR ''['' # commas (map dumps xs) @ [CHR '']'']"
| "dumps (JObj kvs) =
     CHR ''{'' #
       commas (map (\<lambda>kv. show_string (fst kv) @ CHR '':'' # snd kv) (map (map_prod id dumps) kvs)) @
     [CHR ''}'']"

primrec sort_keys :: "json \<Rightarrow> json" where
  "sort_keys JNull = JNull"
| "sort_keys (JBool b) = JBool b"
| "sort_keys (JInt i) = JInt i"
| "sort_keys (JStr s) = JStr s"
| "sort_keys (JArr xs) = JArr (map sort_keys xs)"
| "sort_keys (JObj kvs) = JObj (sort_key fst (map (map_prod id sort_keys) kvs))"

definition canonical_json :: "json \<Rightarrow> string" where
  "canonical_json j = dumps (sort_keys j)"

definition canonical_sha256 :: "(string \<Rightarrow> string) \<Rightarrow> json \<Rightarrow> string" where
  "canonical_sha256 sha256 j = sha256 (canonical_json j)"

section \<open>Unique readability\<close>

lemma commas_Cons: "commas (x # xs) = x @ concat (map (\<lambda>y. CHR '','' # y) xs)"
  by (induction xs arbitrary: x) simp_all

text \<open>
  \<open>enc\<close> reads back \<open>x\<close>: from a text that starts with its encoding, the value and the rest
  are determined, whenever the rest does not continue a number.
\<close>

definition readable :: "('a \<Rightarrow> string) \<Rightarrow> 'a \<Rightarrow> bool" where
  "readable enc x \<longleftrightarrow> (\<forall>y r s. enc x @ r = enc y @ s \<longrightarrow> no_digit r \<longrightarrow> no_digit s \<longrightarrow> x = y \<and> r = s)"

lemma readableD:
  "\<lbrakk> readable enc x; enc x @ r = enc y @ s; no_digit r; no_digit s \<rbrakk> \<Longrightarrow> x = y \<and> r = s"
  by (simp add: readable_def)

lemma rest_no_digit:
  "c = CHR '']'' \<or> c = CHR ''}'' \<Longrightarrow> no_digit (concat (map (\<lambda>y. CHR '','' # enc y) ys) @ c # s)"
  by (cases ys) auto

lemma tail_readable:
  assumes c: "c = CHR '']'' \<or> c = CHR ''}''" and all: "\<forall>x \<in> set xs. readable enc x"
    and eq: "concat (map (\<lambda>y. CHR '','' # enc y) xs) @ c # r =
      concat (map (\<lambda>y. CHR '','' # enc y) ys) @ c # s"
  shows "xs = ys \<and> r = s"
  using all eq
proof (induction xs arbitrary: ys)
  case Nil
  then show ?case using c by (cases ys) auto
next
  case (Cons x xs)
  show ?case
  proof (cases ys)
    case Nil
    with Cons.prems c show ?thesis by auto
  next
    case (Cons y ys')
    let ?r = "concat (map (\<lambda>y. CHR '','' # enc y) xs) @ c # r"
    let ?s = "concat (map (\<lambda>y. CHR '','' # enc y) ys') @ c # s"
    have "enc x @ ?r = enc y @ ?s" using Cons.prems(2) Cons by simp
    moreover have "readable enc x" using Cons.prems(1) by simp
    ultimately have "x = y \<and> ?r = ?s" using rest_no_digit [OF c] by (intro readableD)
    with Cons Cons.IH [of ys'] Cons.prems(1) show ?thesis by simp
  qed
qed

lemma commas_readable:
  assumes c: "c = CHR '']'' \<or> c = CHR ''}''" and all: "\<forall>x \<in> set xs. readable enc x"
    and first: "\<And>x. \<exists>d ds. enc x = d # ds \<and> d \<noteq> c"
    and eq: "commas (map enc xs) @ c # r = commas (map enc ys) @ c # s"
  shows "xs = ys \<and> r = s"
proof (cases xs)
  case Nil
  then show ?thesis
  proof (cases ys)
    case (Cons y ys')
    with Nil eq first [of y] show ?thesis by (auto simp: commas_Cons)
  qed (use eq in simp)
next
  case xs: (Cons x xs')
  show ?thesis
  proof (cases ys)
    case Nil
    with xs eq first [of x] show ?thesis by (auto simp: commas_Cons)
  next
    case (Cons y ys')
    let ?f = "\<lambda>xs. concat (map (\<lambda>y. CHR '','' # enc y) xs)"
    have "enc x @ ?f xs' @ c # r = enc y @ ?f ys' @ c # s"
      using eq xs Cons by (simp add: commas_Cons comp_def)
    moreover have "readable enc x" using all xs by simp
    ultimately have "x = y \<and> ?f xs' @ c # r = ?f ys' @ c # s"
      using rest_no_digit [OF c] by (intro readableD)
    with tail_readable [OF c, of xs' enc r ys' s] all xs Cons show ?thesis by simp
  qed
qed

definition member_text :: "string \<times> json \<Rightarrow> string" where
  "member_text kv = show_string (fst kv) @ CHR '':'' # dumps (snd kv)"

lemma dumps_JObj: "dumps (JObj kvs) = CHR ''{'' # commas (map member_text kvs) @ [CHR ''}'']"
proof -
  have "map (\<lambda>kv. show_string (fst kv) @ CHR '':'' # snd kv) (map (map_prod id dumps) kvs) =
      map member_text kvs"
    by (simp add: member_text_def)
  then show ?thesis by (simp only: dumps.simps)
qed

lemma member_readable: "readable dumps (snd kv) \<Longrightarrow> readable member_text kv"
proof -
  assume v: "readable dumps (snd kv)"
  {
    fix y r s
    assume eq: "member_text kv @ r = member_text y @ s" and nd: "no_digit r" "no_digit s"
    then have "fst kv = fst y" "dumps (snd kv) @ r = dumps (snd y) @ s"
      using show_string_readable [of "fst kv" "CHR '':'' # dumps (snd kv) @ r" "fst y"
          "CHR '':'' # dumps (snd y) @ s"] by (simp_all add: member_text_def)
    with readableD [OF v _ nd] have "kv = y \<and> r = s" by (metis prod.collapse)
  }
  then show ?thesis by (simp add: readable_def)
qed

lemma show_int_Cons: "\<exists>c cs. show_int i = c # cs \<and> (c = CHR ''-'' \<or> is_digit c)"
  using hd_show_nat [of "nat i"] by (auto simp: show_int_def)

text \<open>The first byte of a document tells its kind.\<close>

fun json_kind :: "json \<Rightarrow> nat" where
  "json_kind JNull = 0"
| "json_kind (JBool b) = (if b then 1 else 2)"
| "json_kind (JInt i) = 3"
| "json_kind (JStr s) = 4"
| "json_kind (JArr xs) = 5"
| "json_kind (JObj kvs) = 6"

definition byte_kind :: "char \<Rightarrow> nat" where
  "byte_kind c =
     (if c = CHR ''n'' then 0 else if c = CHR ''t'' then 1 else if c = CHR ''f'' then 2
      else if c = CHR ''-'' \<or> is_digit c then 3 else if c = CHR 0x22 then 4
      else if c = CHR ''['' then 5 else if c = CHR ''{'' then 6 else 7)"

lemma byte_kind_number: "c = CHR ''-'' \<or> is_digit c \<Longrightarrow> byte_kind c = 3"
  by (auto simp: byte_kind_def is_digit_def)

lemma byte_kind_bytes:
  "byte_kind (CHR ''n'') = 0" "byte_kind (CHR ''t'') = 1" "byte_kind (CHR ''f'') = 2"
  "byte_kind (CHR 0x22) = 4" "byte_kind (CHR ''['') = 5" "byte_kind (CHR ''{'') = 6"
  "byte_kind (CHR '']'') = 7" "byte_kind (CHR ''}'') = 7"
  by (simp_all add: byte_kind_def is_digit_def)

lemma hd_dumps: "\<exists>c cs. dumps j = c # cs \<and> byte_kind c = json_kind j"
proof (cases j)
  case (JInt i)
  then show ?thesis using show_int_Cons [of i] byte_kind_number by auto
next
  case (JStr s)
  then show ?thesis using show_string_Cons [of s] byte_kind_bytes by auto
qed (simp_all add: byte_kind_bytes)

lemma dumps_same_kind: "dumps j @ r = dumps k @ s \<Longrightarrow> json_kind j = json_kind k"
  using hd_dumps [of j] hd_dumps [of k] by auto

lemma json_kind_le: "json_kind j \<le> 6"
  by (cases j) simp_all

lemma hd_dumps_not_close: "c = CHR '']'' \<or> c = CHR ''}'' \<Longrightarrow> \<exists>d ds. dumps j = d # ds \<and> d \<noteq> c"
  using hd_dumps [of j] json_kind_le [of j] byte_kind_bytes(7,8) by (metis Suc_n_not_le_n eval_nat_numeral(3))

lemma hd_member_not_close: "\<exists>d ds. member_text kv = d # ds \<and> d \<noteq> CHR ''}''"
  by (simp add: member_text_def show_string_def)

lemma dumps_readable: "readable dumps j"
proof (induction j)
  case (JArr xs)
  {
    fix k r s
    assume eq: "dumps (JArr xs) @ r = dumps k @ s"
    from dumps_same_kind [OF eq] obtain ys where k: "k = JArr ys"
      by (cases k) (simp_all split: if_splits)
    have "xs = ys \<and> r = s"
      using eq k JArr hd_dumps_not_close
      by (intro commas_readable [where c = "CHR '']''" and enc = dumps]) auto
    with k have "JArr xs = k \<and> r = s" by simp
  }
  then show ?case unfolding readable_def by blast
next
  case (JObj kvs)
  {
    fix k r s
    assume eq: "dumps (JObj kvs) @ r = dumps k @ s"
    from dumps_same_kind [OF eq] obtain ys where k: "k = JObj ys"
      by (cases k) (simp_all split: if_splits)
    have "\<forall>x \<in> set kvs. readable member_text x"
      using JObj member_readable by (auto simp: snds.simps)
    moreover have "commas (map member_text kvs) @ CHR ''}'' # r =
        commas (map member_text ys) @ CHR ''}'' # s"
      using eq unfolding k dumps_JObj by simp
    ultimately have "kvs = ys \<and> r = s"
      using hd_member_not_close
      by (intro commas_readable [where c = "CHR ''}''" and enc = member_text]) auto
    with k have "JObj kvs = k \<and> r = s" by simp
  }
  then show ?case unfolding readable_def by blast
next
  case (JInt i)
  {
    fix k r s
    assume eq: "dumps (JInt i) @ r = dumps k @ s" and nd: "no_digit r" "no_digit s"
    from dumps_same_kind [OF eq] obtain l where k: "k = JInt l"
      by (cases k) (simp_all split: if_splits)
    with show_int_readable [OF _ nd] eq have "JInt i = k \<and> r = s" by simp
  }
  then show ?case unfolding readable_def by blast
next
  case (JStr t)
  {
    fix k r s
    assume eq: "dumps (JStr t) @ r = dumps k @ s"
    from dumps_same_kind [OF eq] obtain u where k: "k = JStr u"
      by (cases k) (simp_all split: if_splits)
    with show_string_readable [of t r u s] eq have "JStr t = k \<and> r = s" by simp
  }
  then show ?case unfolding readable_def by blast
next
  case JNull
  {
    fix k r s
    assume eq: "dumps JNull @ r = dumps k @ s"
    from dumps_same_kind [OF eq] have k: "k = JNull"
      by (cases k) (simp_all split: if_splits)
    from eq have "r = s" unfolding k by simp
    with k have "JNull = k \<and> r = s" by simp
  }
  then show ?case unfolding readable_def by blast
next
  case (JBool b)
  {
    fix k r s
    assume eq: "dumps (JBool b) @ r = dumps k @ s"
    from dumps_same_kind [OF eq] have k: "k = JBool b"
      by (cases k) (simp_all split: if_splits)
    from eq have "r = s" unfolding k by simp
    with k have "JBool b = k \<and> r = s" by simp
  }
  then show ?case unfolding readable_def by blast
qed

theorem dumps_inj: "dumps j = dumps k \<Longrightarrow> j = k"
  using readableD [OF dumps_readable, of j "[]" k "[]"] by (simp del: dumps.simps)

end
