(* ===== verification/SourceManifests.thy ===== *)
theory SourceManifests
  imports CanonicalJson
begin

text \<open>
  Source manifests and the recorded authorization decision, \<open>contracts/manifests.py\<close>.

  A manifest of either family (DOCX archive or RFC) is one record: the shared fields, and a
  \<open>manifest_body\<close> with what differs. Times are UTC microseconds (the code converts every
  aware datetime to UTC on entry). The model validators are Boolean functions; \<open>authorizes\<close>
  is the decision the egress enforcer asks for.
\<close>

datatype provider_use = OnlineMain | OfflineJudge

record provider_route_binding =
  rb_provider_id :: string
  rb_endpoint_purpose :: string
  rb_use :: provider_use

record any_url =
  url_scheme :: string
  url_text :: string

record evidence_snapshot =
  es_snapshot_url :: any_url
  es_snapshot_sha256 :: string
  es_captured_at :: int

record source_terms_assessment =
  st_terms_snapshot :: evidence_snapshot
  st_summary :: string
  st_uncertainty :: "string list"

record provider_policy_assessment =
  pp_policy_snapshot :: evidence_snapshot
  pp_retention_summary :: string
  pp_training_summary :: string
  pp_region_summary :: string
  pp_subprocessor_summary :: string
  pp_uncertainty :: "string list"

record outbound_limit_assessment =
  ol_premise :: string
  ol_premise_sha256 :: string

record authorization_conclusion =
  ac_authorized :: bool
  ac_authorization_statement :: string
  ac_author_id :: string
  ac_provider_id :: string
  ac_endpoint_purpose :: string
  ac_authored_at :: int
  ac_expires_at :: int

record compliance_assessment =
  ca_source_terms :: source_terms_assessment
  ca_provider_policy :: provider_policy_assessment
  ca_outbound_limit :: outbound_limit_assessment
  ca_author_conclusion :: authorization_conclusion

datatype manifest_body =
    DocxBody any_url string string            \<comment> \<open>download URL, archive and DOCX hashes\<close>
  | RfcBody any_url any_url string string     \<comment> \<open>text and XML URLs, text and XML hashes\<close>

record source_manifest =
  sm_document_id :: string
  sm_document_version :: string
  sm_body :: manifest_body
  sm_downloaded_at :: int
  sm_created_at :: int
  sm_predecessor :: "string option"
  sm_cloud_egress_authorized :: bool
  sm_assessment :: "compliance_assessment option"
  sm_route_binding :: "provider_route_binding option"
  sm_manifest_id :: string

section \<open>Validators\<close>

definition is_https :: "any_url \<Rightarrow> bool" where
  "is_https u \<longleftrightarrow> url_scheme u = ''https''"

definition evidence_snapshot_valid :: "evidence_snapshot \<Rightarrow> bool" where
  [contract_defs]: "evidence_snapshot_valid e \<longleftrightarrow> is_https (es_snapshot_url e)"

definition source_terms_valid :: "source_terms_assessment \<Rightarrow> bool" where
  [contract_defs]: "source_terms_valid t \<longleftrightarrow> evidence_snapshot_valid (st_terms_snapshot t) \<and>
     1 \<le> length (st_uncertainty t) \<and> length (st_uncertainty t) \<le> 16"

definition provider_policy_valid :: "provider_policy_assessment \<Rightarrow> bool" where
  [contract_defs]: "provider_policy_valid p \<longleftrightarrow> evidence_snapshot_valid (pp_policy_snapshot p) \<and>
     1 \<le> length (pp_uncertainty p) \<and> length (pp_uncertainty p) \<le> 16"

definition outbound_limit_valid :: "(string \<Rightarrow> string) \<Rightarrow> outbound_limit_assessment \<Rightarrow> bool" where
  [contract_defs]: "outbound_limit_valid sha256 o' \<longleftrightarrow> ol_premise_sha256 o' = sha256 (ol_premise o')"

definition conclusion_valid :: "authorization_conclusion \<Rightarrow> bool" where
  [contract_defs]: "conclusion_valid c \<longleftrightarrow> ac_authored_at c < ac_expires_at c"

definition assessment_valid :: "(string \<Rightarrow> string) \<Rightarrow> compliance_assessment \<Rightarrow> bool" where
  [contract_defs]: "assessment_valid sha256 a \<longleftrightarrow>
     source_terms_valid (ca_source_terms a) \<and> provider_policy_valid (ca_provider_policy a) \<and>
     outbound_limit_valid sha256 (ca_outbound_limit a) \<and> conclusion_valid (ca_author_conclusion a)"

fun body_urls :: "manifest_body \<Rightarrow> any_url list" where
  "body_urls (DocxBody u _ _) = [u]"
| "body_urls (RfcBody u v _ _) = [u, v]"

text \<open>
  \<open>_enforce_manifest_state\<close>: a first manifest denies egress; a successor carries the whole
  decision, and the decision names its route and its time.
\<close>

definition enforce_manifest_state :: "source_manifest \<Rightarrow> bool" where
  "enforce_manifest_state m =
     (case sm_predecessor m of
        None \<Rightarrow>
          \<not> (sm_cloud_egress_authorized m \<or> sm_assessment m \<noteq> None \<or> sm_route_binding m \<noteq> None)
      | Some _ \<Rightarrow>
          (if \<not> sm_cloud_egress_authorized m then False
           else case sm_assessment m of
             None \<Rightarrow> False
           | Some a \<Rightarrow>
             (case sm_route_binding m of
                None \<Rightarrow> False
              | Some route \<Rightarrow>
                  let conclusion = ca_author_conclusion a in
                  if \<not> ac_authorized conclusion then False
                  else if ac_provider_id conclusion \<noteq> rb_provider_id route \<or>
                    ac_endpoint_purpose conclusion \<noteq> rb_endpoint_purpose route then False
                  else if sm_created_at m < ac_authored_at conclusion then False
                  else if ac_expires_at conclusion \<le> sm_created_at m then False
                  else True)))"

section \<open>Content identity\<close>

text \<open>
  \<open>model_dump(mode="json")\<close> of each model, the content-ID field left out as
  \<open>canonical_json\<close> does. \<open>show_time\<close> is pydantic's rendering of a UTC datetime.
\<close>

definition opt_json :: "('a \<Rightarrow> json) \<Rightarrow> 'a option \<Rightarrow> json" where
  "opt_json f v = (case v of None \<Rightarrow> JNull | Some x \<Rightarrow> f x)"

fun use_text :: "provider_use \<Rightarrow> string" where
  "use_text OnlineMain = ''online_main''"
| "use_text OfflineJudge = ''offline_judge''"

definition route_json :: "provider_route_binding \<Rightarrow> json" where
  "route_json r = JObj
     [(''provider_id'', JStr (rb_provider_id r)),
      (''endpoint_purpose'', JStr (rb_endpoint_purpose r)),
      (''use'', JStr (use_text (rb_use r)))]"

definition snapshot_json :: "(int \<Rightarrow> string) \<Rightarrow> evidence_snapshot \<Rightarrow> json" where
  "snapshot_json show_time e = JObj
     [(''snapshot_url'', JStr (url_text (es_snapshot_url e))),
      (''snapshot_sha256'', JStr (es_snapshot_sha256 e)),
      (''captured_at'', JStr (show_time (es_captured_at e)))]"

definition assessment_json :: "(int \<Rightarrow> string) \<Rightarrow> compliance_assessment \<Rightarrow> json" where
  "assessment_json show_time a =
     (let t = ca_source_terms a; p = ca_provider_policy a;
          o' = ca_outbound_limit a; c = ca_author_conclusion a
      in JObj
       [(''source_terms'', JObj
          [(''terms_snapshot'', snapshot_json show_time (st_terms_snapshot t)),
           (''summary'', JStr (st_summary t)),
           (''uncertainty'', JArr (map JStr (st_uncertainty t)))]),
        (''provider_policy'', JObj
          [(''policy_snapshot'', snapshot_json show_time (pp_policy_snapshot p)),
           (''retention_summary'', JStr (pp_retention_summary p)),
           (''training_summary'', JStr (pp_training_summary p)),
           (''region_summary'', JStr (pp_region_summary p)),
           (''subprocessor_summary'', JStr (pp_subprocessor_summary p)),
           (''uncertainty'', JArr (map JStr (pp_uncertainty p)))]),
        (''outbound_limit'', JObj
          [(''premise'', JStr (ol_premise o')),
           (''premise_sha256'', JStr (ol_premise_sha256 o'))]),
        (''author_conclusion'', JObj
          [(''authorized'', JBool (ac_authorized c)),
           (''authorization_statement'', JStr (ac_authorization_statement c)),
           (''author_id'', JStr (ac_author_id c)),
           (''provider_id'', JStr (ac_provider_id c)),
           (''endpoint_purpose'', JStr (ac_endpoint_purpose c)),
           (''authored_at'', JStr (show_time (ac_authored_at c))),
           (''expires_at'', JStr (show_time (ac_expires_at c)))])])"

fun body_json :: "manifest_body \<Rightarrow> (string \<times> json) list" where
  "body_json (DocxBody u a d) =
     [(''schema_version'', JStr ''source-manifest/v1''), (''download_url'', JStr (url_text u)),
      (''archive_sha256'', JStr a), (''docx_sha256'', JStr d)]"
| "body_json (RfcBody u v t x) =
     [(''schema_version'', JStr ''source-manifest/v2''), (''text_url'', JStr (url_text u)),
      (''xml_url'', JStr (url_text v)), (''text_sha256'', JStr t), (''xml_sha256'', JStr x)]"

definition manifest_json :: "(int \<Rightarrow> string) \<Rightarrow> source_manifest \<Rightarrow> json" where
  "manifest_json show_time m = JObj
     (body_json (sm_body m) @
      [(''document_id'', JStr (sm_document_id m)),
       (''document_version'', JStr (sm_document_version m)),
       (''downloaded_at'', JStr (show_time (sm_downloaded_at m))),
       (''created_at'', JStr (show_time (sm_created_at m))),
       (''predecessor_manifest_id'', opt_json JStr (sm_predecessor m)),
       (''cloud_egress_authorized'', JBool (sm_cloud_egress_authorized m)),
       (''compliance_assessment'', opt_json (assessment_json show_time) (sm_assessment m)),
       (''provider_route_binding'', opt_json route_json (sm_route_binding m))])"

definition manifest_valid ::
  "(string \<Rightarrow> string) \<Rightarrow> (int \<Rightarrow> string) \<Rightarrow> source_manifest \<Rightarrow> bool" where
  "manifest_valid sha256 show_time m \<longleftrightarrow>
     list_all is_https (body_urls (sm_body m)) \<and>
     (case sm_assessment m of None \<Rightarrow> True | Some a \<Rightarrow> assessment_valid sha256 a) \<and>
     enforce_manifest_state m \<and>
     sm_manifest_id m = canonical_sha256 sha256 (manifest_json show_time m)"

definition from_draft ::
  "(string \<Rightarrow> string) \<Rightarrow> (int \<Rightarrow> string) \<Rightarrow> source_manifest \<Rightarrow> source_manifest" where
  "from_draft sha256 show_time d =
     d\<lparr>sm_manifest_id := canonical_sha256 sha256 (manifest_json show_time d)\<rparr>"

section \<open>Authorization\<close>

definition authorizes :: "source_manifest \<Rightarrow> provider_route_binding \<Rightarrow> int \<Rightarrow> bool" where
  "authorizes m route checked_at =
     (case sm_assessment m of
        None \<Rightarrow> False
      | Some assessment \<Rightarrow>
          if \<not> sm_cloud_egress_authorized m \<or> sm_route_binding m \<noteq> Some route then False
          else let conclusion = ca_author_conclusion assessment in
            ac_authorized conclusion \<and>
            ac_provider_id conclusion = rb_provider_id route \<and>
            ac_endpoint_purpose conclusion = rb_endpoint_purpose route \<and>
            ac_authored_at conclusion \<le> checked_at \<and> checked_at < ac_expires_at conclusion)"

lemma authorizesD:
  assumes "authorizes m route at"
  obtains a where "sm_assessment m = Some a" "sm_cloud_egress_authorized m"
    "sm_route_binding m = Some route" "ac_authorized (ca_author_conclusion a)"
    "ac_authored_at (ca_author_conclusion a) \<le> at" "at < ac_expires_at (ca_author_conclusion a)"
  using assms by (auto simp: authorizes_def Let_def split: option.splits if_splits)

lemma enforce_successor:
  assumes "enforce_manifest_state m" and "sm_assessment m = Some a"
  obtains p route where "sm_predecessor m = Some p" "sm_route_binding m = Some route"
    "sm_cloud_egress_authorized m" "ac_authorized (ca_author_conclusion a)"
    "ac_provider_id (ca_author_conclusion a) = rb_provider_id route"
    "ac_endpoint_purpose (ca_author_conclusion a) = rb_endpoint_purpose route"
    "ac_authored_at (ca_author_conclusion a) \<le> sm_created_at m"
    "sm_created_at m < ac_expires_at (ca_author_conclusion a)"
  using assms
  by (auto simp: enforce_manifest_state_def Let_def split: option.splits if_splits)

lemma from_draft_frame:
  "manifest_json show_time (from_draft sha256 show_time d) = manifest_json show_time d"
  "enforce_manifest_state (from_draft sha256 show_time d) = enforce_manifest_state d"
  "sm_body (from_draft sha256 show_time d) = sm_body d"
  "sm_assessment (from_draft sha256 show_time d) = sm_assessment d"
  by (simp_all add: from_draft_def manifest_json_def enforce_manifest_state_def
      cong: option.case_cong)

text \<open>A draft that passes its validators becomes a manifest that passes them.\<close>

lemma from_draft_valid:
  assumes "list_all is_https (body_urls (sm_body d))" and "enforce_manifest_state d"
    and "\<And>a. sm_assessment d = Some a \<Longrightarrow> assessment_valid sha256 a"
  shows "manifest_valid sha256 show_time (from_draft sha256 show_time d)"
  using assms unfolding manifest_valid_def from_draft_frame
  by (auto simp: from_draft_def split: option.splits)

text \<open>
  An authorization is always a recorded decision: a stored manifest that passed its
  validators and authorizes a route at some time is a successor of another manifest, its
  author's conclusion says yes to exactly this provider and purpose, and the time lies in the
  window between authorship and expiry. First manifests authorize nothing.
\<close>

theorem authorization_is_recorded:
  assumes valid: "manifest_valid sha256 show_time m" and auth: "authorizes m route at"
  shows "sm_predecessor m \<noteq> None \<and> sm_route_binding m = Some route \<and>
    (\<exists>a. sm_assessment m = Some a \<and> ac_authorized (ca_author_conclusion a) \<and>
      ac_provider_id (ca_author_conclusion a) = rb_provider_id route \<and>
      ac_endpoint_purpose (ca_author_conclusion a) = rb_endpoint_purpose route \<and>
      ac_authored_at (ca_author_conclusion a) \<le> min at (sm_created_at m) \<and>
      max at (sm_created_at m) < ac_expires_at (ca_author_conclusion a))"
proof -
  from auth obtain a where a: "sm_assessment m = Some a" "sm_route_binding m = Some route"
    "ac_authored_at (ca_author_conclusion a) \<le> at" "at < ac_expires_at (ca_author_conclusion a)"
    by (rule authorizesD)
  from valid have "enforce_manifest_state m" by (simp add: manifest_valid_def)
  from this a(1) show ?thesis by (rule enforce_successor) (use a in simp)
qed

definition sample_conclusion :: authorization_conclusion where
  "sample_conclusion = \<lparr>ac_authorized = True, ac_authorization_statement = ''author approves'',
     ac_author_id = ''author'', ac_provider_id = ''provider'', ac_endpoint_purpose = ''chat'',
     ac_authored_at = 10, ac_expires_at = 1000\<rparr>"

definition sample_url :: any_url where
  "sample_url = \<lparr>url_scheme = ''https'', url_text = ''https://example.org/rfc''\<rparr>"

definition sample_snapshot :: evidence_snapshot where
  "sample_snapshot = \<lparr>es_snapshot_url = sample_url, es_snapshot_sha256 = ''00'',
     es_captured_at = 5\<rparr>"

definition sample_assessment :: "(string \<Rightarrow> string) \<Rightarrow> compliance_assessment" where
  "sample_assessment sha256 = \<lparr>
     ca_source_terms = \<lparr>st_terms_snapshot = sample_snapshot, st_summary = ''terms'',
       st_uncertainty = [''some'']\<rparr>,
     ca_provider_policy = \<lparr>pp_policy_snapshot = sample_snapshot, pp_retention_summary = ''r'',
       pp_training_summary = ''t'', pp_region_summary = ''g'', pp_subprocessor_summary = ''s'',
       pp_uncertainty = [''some'']\<rparr>,
     ca_outbound_limit = \<lparr>ol_premise = ''one fifth'', ol_premise_sha256 = sha256 ''one fifth''\<rparr>,
     ca_author_conclusion = sample_conclusion\<rparr>"

definition sample_route :: provider_route_binding where
  "sample_route = \<lparr>rb_provider_id = ''provider'', rb_endpoint_purpose = ''chat'',
     rb_use = OnlineMain\<rparr>"

definition sample_draft :: "(string \<Rightarrow> string) \<Rightarrow> source_manifest" where
  "sample_draft sha256 = \<lparr>sm_document_id = ''ietf-rfc-9110'', sm_document_version = ''2022-06'',
     sm_body = RfcBody sample_url sample_url ''00'' ''11'', sm_downloaded_at = 1,
     sm_created_at = 20, sm_predecessor = Some ''22'', sm_cloud_egress_authorized = True,
     sm_assessment = Some (sample_assessment sha256), sm_route_binding = Some sample_route,
     sm_manifest_id = []\<rparr>"

definition sample_manifest ::
  "(string \<Rightarrow> string) \<Rightarrow> (int \<Rightarrow> string) \<Rightarrow> source_manifest" where
  "sample_manifest sha256 show_time = from_draft sha256 show_time (sample_draft sha256)"

lemmas sample_manifest_defs = sample_manifest_def sample_draft_def sample_assessment_def
  sample_conclusion_def sample_url_def sample_snapshot_def sample_route_def from_draft_def

lemma sample_manifest_valid: "manifest_valid sha256 show_time (sample_manifest sha256 show_time)"
  unfolding sample_manifest_def
  by (rule from_draft_valid)
    (auto simp: contract_defs sample_draft_def sample_assessment_def sample_conclusion_def
      sample_url_def sample_snapshot_def sample_route_def is_https_def enforce_manifest_state_def
      Let_def)

lemma sample_manifest_authorizes:
  "authorizes (sample_manifest sha256 show_time) sample_route 100"
  by (simp add: authorizes_def sample_manifest_defs Let_def)

theorem authorization_is_recorded_witness:
  "sm_predecessor (sample_manifest rev (\<lambda>t. ''t'')) \<noteq> None"
  using authorization_is_recorded [OF sample_manifest_valid sample_manifest_authorizes] by blast

end
