(* ===== verification/EgressContracts.thy ===== *)
theory EgressContracts
  imports SourceManifests
begin

text \<open>
  The egress boundary's data, \<open>contracts/egress.py\<close>: what a request carries, what a
  disclosure is, what each budget scope has spent. Field bounds that hold of every natural
  number (\<open>ge=0\<close>) are the type \<^typ>\<open>nat\<close>; the remaining validators are Boolean functions.
\<close>

datatype task_level = L1 | L2

datatype egress_stage = Planning | EvidenceStage | ComplianceStage | VerifierStage | JudgeStage

fun stage_value :: "egress_stage \<Rightarrow> string" where
  "stage_value Planning = ''planning''"
| "stage_value EvidenceStage = ''evidence''"
| "stage_value ComplianceStage = ''compliance''"
| "stage_value VerifierStage = ''verifier''"
| "stage_value JudgeStage = ''judge''"

record version_metadata =
  vm_source_manifest_id :: string
  vm_corpus_manifest_id :: string
  vm_document_id :: string
  vm_document_version :: string

record toc_node =
  tn_node_id :: string
  tn_title :: string

record excerpt_span =
  paragraph_start :: nat
  paragraph_end :: nat
  token_start :: nat
  token_end :: nat

definition require_ordered_coordinates :: "excerpt_span \<Rightarrow> bool" where
  [contract_defs]: "require_ordered_coordinates s \<longleftrightarrow>
     \<not> paragraph_end s < paragraph_start s \<and> \<not> token_end s \<le> token_start s"

record evidence_excerpt =
  ee_corpus_manifest_id :: string
  ee_content_hash :: string
  ee_quote :: string
  ee_quote_hash :: string
  ee_span :: excerpt_span

definition verify_exact_quote_hash :: "(string \<Rightarrow> string) \<Rightarrow> evidence_excerpt \<Rightarrow> bool" where
  [contract_defs]: "verify_exact_quote_hash sha256 e \<longleftrightarrow> ee_quote_hash e = sha256 (ee_quote e)"

record l1_online_payload =
  lo_query :: string
  lo_version :: version_metadata
  lo_toc_nodes :: "toc_node list"
  lo_evidence_excerpts :: "evidence_excerpt list"

record tool_schema =
  ts_name :: string
  ts_description :: string
  ts_input_schema :: json

record l1_plan_payload =
  lp_query :: string
  lp_version :: version_metadata
  lp_tool_catalog_version :: string
  lp_tool_catalog_hash :: string
  lp_tools :: "tool_schema list"
  lp_max_steps :: nat
  lp_max_tool_calls :: nat

record l2_design_payload =
  ld_design_description :: string
  ld_version :: version_metadata
  ld_toc_nodes :: "toc_node list"
  ld_evidence_excerpts :: "evidence_excerpt list"

record l2_atomic_claim_payload =
  lc_atomic_claim_id :: string
  lc_atomic_claim :: string
  lc_version :: version_metadata
  lc_toc_nodes :: "toc_node list"
  lc_evidence_excerpts :: "evidence_excerpt list"

record scoring_point =
  sp_point_id :: string
  sp_text :: string

record judge_payload =
  jp_final_answer :: string
  jp_scoring_points :: "scoring_point list"
  jp_gold_excerpts :: "evidence_excerpt list"

datatype egress_payload =
    L1Online l1_online_payload
  | L1Plan l1_plan_payload
  | L2Design l2_design_payload
  | L2AtomicClaim l2_atomic_claim_payload
  | Judge judge_payload

fun payload_kind :: "egress_payload \<Rightarrow> string" where
  "payload_kind (L1Online _) = ''l1_query''"
| "payload_kind (L1Plan _) = ''l1_plan''"
| "payload_kind (L2Design _) = ''l2_design''"
| "payload_kind (L2AtomicClaim _) = ''l2_atomic_claim''"
| "payload_kind (Judge _) = ''judge''"

record egress_request =
  er_evaluation_root_id :: string
  er_run_id :: string
  er_task_level :: task_level
  er_version :: version_metadata
  er_stage :: egress_stage
  er_route :: provider_route_binding
  er_model_id :: string
  er_source_manifest :: source_manifest
  er_payload :: egress_payload

text \<open>
  A \<open>TokenCounter\<close> is an object the caller hands in. Python lets it be \<open>None\<close>, lack an
  attribute, raise, or return something that is not an integer; each is a case here.
\<close>

datatype count_outcome = CountRaises | CountNotInt | CountInt int

record token_counter =
  tc_provider_id :: string
  tc_model_id :: string
  tc_count_tokens :: "string \<Rightarrow> count_outcome"

datatype counter_object = NoCounter | MalformedCounter | Counter token_counter

record disclosure_fact =
  df_disclosure_id :: string
  df_corpus_manifest_id :: string
  df_content_hash :: string
  df_quote_hash :: string
  df_span :: excerpt_span
  df_token_count :: nat
  df_byte_count :: nat

definition disclosure_fact_valid :: "disclosure_fact \<Rightarrow> bool" where
  [contract_defs]: "disclosure_fact_valid f \<longleftrightarrow> 0 < df_token_count f \<and> 0 < df_byte_count f"

record cap_vector =
  cap_excerpts :: nat
  cap_tokens :: nat
  cap_bytes :: nat

record cap_snapshot =
  cs_excerpt :: cap_vector
  cs_online_unique :: "cap_vector option"
  cs_online_transmitted :: "cap_vector option"
  cs_claim_unique :: "cap_vector option"
  cs_judge_unique :: cap_vector
  cs_judge_transmitted :: cap_vector
  cs_root_unique :: cap_vector
  cs_root_transmitted :: cap_vector
  cs_corpus_unique :: cap_vector
  cs_corpus_document_unique :: cap_vector
  cs_toc_per_call :: nat
  cs_toc_per_run :: nat
  cs_max_claims_per_run :: nat
  cs_projected_text_tokens :: "nat option"

text \<open>
  \<open>rr_attributes\<close> is the request object's \<open>__dict__\<close> key set: Python lets code plant
  attributes that the contract does not name, and \<open>apply_reservation\<close> checks for that.
\<close>

record reservation_request =
  rr_evaluation_root_id :: string
  rr_run_id :: string
  rr_task_level :: task_level
  rr_version :: version_metadata
  rr_stage :: egress_stage
  rr_route :: provider_route_binding
  rr_model_id :: string
  rr_source_manifest :: source_manifest
  rr_projected_payload :: egress_payload
  rr_disclosures :: "disclosure_fact list"
  rr_attributes :: "string list"

definition reservation_request_fields :: "string list" where
  "reservation_request_fields =
     [''schema_version'', ''evaluation_root_id'', ''run_id'', ''task_level'', ''version'',
      ''stage'', ''route'', ''model_id'', ''source_manifest'', ''projected_payload'',
      ''disclosures'']"

section \<open>Usage\<close>

record stage_usage =
  su_stage :: egress_stage
  su_transmitted_tokens :: nat
  su_transmitted_bytes :: nat
  su_transmissions :: nat

record route_usage =
  ru_route :: provider_route_binding
  ru_disclosure_ids :: "string list"
  ru_unique_tokens :: nat
  ru_unique_bytes :: nat

record claim_usage =
  cu_atomic_claim_id :: string
  cu_disclosure_ids :: "string list"
  cu_unique_tokens :: nat
  cu_unique_bytes :: nat

record run_usage =
  nu_run_id :: string
  nu_disclosure_ids :: "string list"
  nu_unique_tokens :: nat
  nu_unique_bytes :: nat
  nu_transmitted_tokens :: nat
  nu_transmitted_bytes :: nat
  nu_toc_nodes :: nat
  nu_claim_usage :: "claim_usage list"

record corpus_document_usage =
  du_document_id :: string
  du_disclosure_ids :: "string list"
  du_unique_tokens :: nat
  du_unique_bytes :: nat

record corpus_usage =
  co_corpus_manifest_id :: string
  co_policy_hash :: string
  co_disclosure_ids :: "string list"
  co_unique_tokens :: nat
  co_unique_bytes :: nat
  co_document_usage :: "corpus_document_usage list"

record usage_snapshot =
  us_evaluation_root_id :: string
  us_task_level :: task_level
  us_policy_hash :: string
  us_disclosures :: "disclosure_fact list"
  us_route_usage :: "route_usage list"
  us_stage_usage :: "stage_usage list"
  us_run_usage :: "run_usage list"
  us_judge_disclosure_ids :: "string list"
  us_judge_unique_tokens :: nat
  us_judge_unique_bytes :: nat
  us_judge_transmitted_tokens :: nat
  us_judge_transmitted_bytes :: nat
  us_root_unique_tokens :: nat
  us_root_unique_bytes :: nat
  us_root_transmitted_tokens :: nat
  us_root_transmitted_bytes :: nat

record reservation_outcome =
  ro_usage :: usage_snapshot
  ro_corpus_usage :: corpus_usage

text \<open>The values the constructors give when only the required fields are passed.\<close>

definition empty_run_usage :: "string \<Rightarrow> run_usage" where
  "empty_run_usage run_id = \<lparr>nu_run_id = run_id, nu_disclosure_ids = [], nu_unique_tokens = 0,
     nu_unique_bytes = 0, nu_transmitted_tokens = 0, nu_transmitted_bytes = 0, nu_toc_nodes = 0,
     nu_claim_usage = []\<rparr>"

definition empty_document_usage :: "string \<Rightarrow> corpus_document_usage" where
  "empty_document_usage document_id = \<lparr>du_document_id = document_id, du_disclosure_ids = [],
     du_unique_tokens = 0, du_unique_bytes = 0\<rparr>"

definition empty_corpus_usage :: "string \<Rightarrow> string \<Rightarrow> corpus_usage" where
  "empty_corpus_usage corpus policy_hash = \<lparr>co_corpus_manifest_id = corpus,
     co_policy_hash = policy_hash, co_disclosure_ids = [], co_unique_tokens = 0,
     co_unique_bytes = 0, co_document_usage = []\<rparr>"

definition empty_usage_snapshot :: "string \<Rightarrow> task_level \<Rightarrow> string \<Rightarrow> usage_snapshot" where
  "empty_usage_snapshot root level policy_hash = \<lparr>us_evaluation_root_id = root,
     us_task_level = level, us_policy_hash = policy_hash, us_disclosures = [],
     us_route_usage = [], us_stage_usage = [], us_run_usage = [], us_judge_disclosure_ids = [],
     us_judge_unique_tokens = 0, us_judge_unique_bytes = 0, us_judge_transmitted_tokens = 0,
     us_judge_transmitted_bytes = 0, us_root_unique_tokens = 0, us_root_unique_bytes = 0,
     us_root_transmitted_tokens = 0, us_root_transmitted_bytes = 0\<rparr>"

end
