(* ===== verification/PyText.thy ===== *)
theory PyText
  imports Prelude
begin

text \<open>
  What the program uses of Python's \<open>str\<close> beyond comparison, on the UTF-8 bytes of the text:
  \<open>len\<close> (code points), \<open>strip()\<close>, \<open>len(text.split())\<close>, \<open>lower()\<close> on ASCII, and the character
  classes of the contracts' patterns. White space is the set of \<open>str.isspace\<close>.
\<close>

section \<open>Code points and white space\<close>

definition byte :: "char \<Rightarrow> nat" where
  "byte c = of_char c"

definition continuation :: "char \<Rightarrow> bool" where
  "continuation c \<longleftrightarrow> 128 \<le> byte c \<and> byte c < 192"

text \<open>A text's first byte always begins a code point.\<close>

fun char_count :: "string \<Rightarrow> nat" where
  "char_count [] = 0"
| "char_count (c # cs) = Suc (length (filter (\<lambda>c. \<not> continuation c) cs))"

lemma char_count_append: "char_count t \<le> char_count (t @ u) \<and> char_count u \<le> char_count (t @ u)"
  by (cases t; cases u) (auto simp: le_SucI)

lemma char_count_pos: "0 < char_count s \<longleftrightarrow> s \<noteq> []"
  by (cases s) auto

definition space_chars :: "nat list list" where
  "space_chars = map (\<lambda>n. [n]) [9, 10, 11, 12, 13, 28, 29, 30, 31, 32] @
     map (\<lambda>n. [194, n]) [133, 160] @ [[225, 154, 128]] @
     map (\<lambda>n. [226, 128, n]) [128, 129, 130, 131, 132, 133, 134, 135, 136, 137, 138, 168, 169, 175] @
     [[226, 129, 159], [227, 128, 128]]"

definition starts :: "string \<Rightarrow> nat list \<Rightarrow> bool" where
  "starts s w \<longleftrightarrow> w \<noteq> [] \<and> map byte (take (length w) s) = w"

lemma starts_shortens: "starts s w \<Longrightarrow> length s - length w < length s"
  by (cases s; cases w) (auto simp: starts_def)

function drop_words :: "nat list list \<Rightarrow> string \<Rightarrow> string" where
  "drop_words ws s =
     (case find (starts s) ws of None \<Rightarrow> s | Some w \<Rightarrow> drop_words ws (drop (length w) s))"
  by pat_completeness auto
termination
  by (relation "measure (\<lambda>(ws, s). length s)") (auto simp: find_Some_iff starts_shortens)

declare drop_words.simps [simp del]

definition lstrip :: "string \<Rightarrow> string" where
  "lstrip s = drop_words space_chars s"

definition rstrip :: "string \<Rightarrow> string" where
  "rstrip s = rev (drop_words (map rev space_chars) (rev s))"

definition strip :: "string \<Rightarrow> string" where
  "strip s = rstrip (lstrip s)"

lemma drop_words_suffix: "\<exists>t. s = t @ drop_words ws s"
proof (induction ws s rule: drop_words.induct)
  case (1 ws s)
  show ?case
  proof (cases "find (starts s) ws")
    case None
    then show ?thesis by (simp add: drop_words.simps [of ws s])
  next
    case (Some w)
    then obtain t where "drop (length w) s = t @ drop_words ws (drop (length w) s)"
      using 1 by blast
    then have "s = (take (length w) s @ t) @ drop_words ws (drop (length w) s)"
      by (metis append.assoc append_take_drop_id)
    then have "\<exists>u. s = u @ drop_words ws (drop (length w) s)" ..
    with Some show ?thesis by (simp add: drop_words.simps [of ws s])
  qed
qed

lemma length_drop_words: "length (drop_words ws s) \<le> length s"
  by (metis drop_words_suffix length_append le_add2)

lemma drop_words_stops: "find (starts (drop_words ws s)) ws = None"
proof (induction ws s rule: drop_words.induct)
  case (1 ws s)
  then show ?case by (cases "find (starts s) ws") (simp_all add: drop_words.simps [of ws s])
qed

lemma drop_words_idem: "drop_words ws (drop_words ws s) = drop_words ws s"
  using drop_words_stops [of ws s] by (simp add: drop_words.simps [of ws "drop_words ws s"])

lemma starts_append: "starts p w \<Longrightarrow> starts (p @ q) w"
  unfolding starts_def by (cases "length w \<le> length p") auto

lemma strip_fixed:
  "lstrip (strip s) = strip s" "rstrip (strip s) = strip s"
proof -
  show "rstrip (strip s) = strip s" by (simp add: strip_def rstrip_def drop_words_idem)
  obtain q where q: "lstrip s = strip s @ q"
    unfolding strip_def rstrip_def using drop_words_suffix [of "rev (lstrip s)" "map rev space_chars"]
    by (metis rev_append rev_rev_ident)
  have "find (starts (lstrip s)) space_chars = None"
    unfolding lstrip_def by (rule drop_words_stops)
  then have "find (starts (strip s)) space_chars = None"
    unfolding find_None_iff q using starts_append by blast
  then show "lstrip (strip s) = strip s" by (simp add: lstrip_def drop_words.simps [of space_chars "strip s"])
qed

lemma char_count_strip: "char_count (strip s) \<le> char_count s"
proof -
  obtain t where t: "s = t @ lstrip s" using drop_words_suffix unfolding lstrip_def by blast
  obtain q where q: "lstrip s = strip s @ q"
    unfolding strip_def rstrip_def using drop_words_suffix [of "rev (lstrip s)" "map rev space_chars"]
    by (metis rev_append rev_rev_ident)
  from t q show ?thesis by (metis char_count_append le_trans)
qed

lemma strip_idem [simp]: "strip (strip s) = strip s"
  by (simp add: strip_def [of "strip s"] strip_fixed)

section \<open>Words\<close>

definition at_space :: "string \<Rightarrow> bool" where
  "at_space s \<longleftrightarrow> find (starts s) space_chars \<noteq> None"

fun skip_word :: "string \<Rightarrow> string" where
  "skip_word [] = []"
| "skip_word (c # cs) = (if at_space (c # cs) then c # cs else skip_word cs)"

lemma length_skip_word: "length (skip_word s) \<le> length s"
  by (induction s) auto

function word_count :: "string \<Rightarrow> nat" where
  "word_count s = (case lstrip s of [] \<Rightarrow> 0 | c # cs \<Rightarrow> Suc (word_count (skip_word cs)))"
  by pat_completeness auto
termination
proof (relation "measure length")
  fix s :: string and c cs
  assume "lstrip s = c # cs"
  then have "length (c # cs) \<le> length s" using length_drop_words [of space_chars s] by (simp add: lstrip_def)
  then show "(skip_word cs, s) \<in> measure length" using length_skip_word [of cs] by simp
qed simp

declare word_count.simps [simp del]

section \<open>Patterns\<close>

definition is_lower :: "char \<Rightarrow> bool" where "is_lower c \<longleftrightarrow> 97 \<le> byte c \<and> byte c \<le> 122"
definition is_upper :: "char \<Rightarrow> bool" where "is_upper c \<longleftrightarrow> 65 \<le> byte c \<and> byte c \<le> 90"
definition is_decimal :: "char \<Rightarrow> bool" where "is_decimal c \<longleftrightarrow> 48 \<le> byte c \<and> byte c \<le> 57"
definition is_hex :: "char \<Rightarrow> bool" where "is_hex c \<longleftrightarrow> is_decimal c \<or> 97 \<le> byte c \<and> byte c \<le> 102"
definition is_alnum :: "char \<Rightarrow> bool" where "is_alnum c \<longleftrightarrow> is_lower c \<or> is_upper c \<or> is_decimal c"

definition lower :: "string \<Rightarrow> string" where
  "lower s = map (\<lambda>c. if is_upper c then char_of (byte c + 32) else c) s"

definition sha256_text :: "string \<Rightarrow> bool" where
  "sha256_text s \<longleftrightarrow> length s = 64 \<and> list_all is_hex s"

end
