(* ===== verification/AnswerContracts.thy ===== *)
theory AnswerContracts
  imports EgressContracts PyText
begin

text \<open>
  \<open>contracts/answer.py\<close> and \<open>contracts/verdict.py\<close>: citations, verified answers, and the
  candidates, decisions and results of the two L2 model stages. A pydantic model is a record
  and its validator a Boolean function; building a model that its validator refuses raises
  \<open>ValidationError\<close>, the \<^const>\<open>Inl\<close> of the \<open>make_\<close> functions.
\<close>

section \<open>Answers\<close>

datatype validation_error = ValidationError

record citation =
  ci_clause_id :: string
  ci_corpus_manifest_id :: string
  ci_document_id :: string
  ci_document_version :: string
  ci_section_number :: "string option"
  ci_content_hash :: string

datatype answer_verdict = Answered | Refused

datatype refusal_reason = NoEvidenceRetrieved | EvidenceInsufficient | UnverifiableCitation

fun refusal_value :: "refusal_reason \<Rightarrow> string" where
  "refusal_value NoEvidenceRetrieved = ''no_evidence_retrieved''"
| "refusal_value EvidenceInsufficient = ''evidence_insufficient''"
| "refusal_value UnverifiableCitation = ''unverifiable_citation''"

record verified_answer =
  va_verdict :: answer_verdict
  va_answer :: "string option"
  va_citations :: "citation list"
  va_refusal_reason :: "refusal_reason option"
  va_citation_faults :: "string list"

text \<open>
  A text is the UTF-8 of a \<open>str\<close>. A lone surrogate, which a \<open>str\<close> can hold and \<open>json.loads\<close>
  builds from its escape, is the three bytes that Python's surrogatepass writes for it; pydantic
  refuses a \<open>str\<close> that has one.
\<close>

fun unicode_text :: "string \<Rightarrow> bool" where
  "unicode_text (a # b # cs) = (\<not> (byte a = 237 \<and> 160 \<le> byte b) \<and> unicode_text (b # cs))"
| "unicode_text s = True"

definition bounded_text :: "nat \<Rightarrow> string \<Rightarrow> bool" where
  "bounded_text n s \<longleftrightarrow> unicode_text s \<and> 1 \<le> char_count s \<and> char_count s \<le> n"

text \<open>
  The fields of a \<open>Citation\<close> once their white space is stripped: \<open>Sha256\<close>, \<open>Identifier\<close> and
  \<open>SectionNumber\<close>.
\<close>

definition citation_valid :: "citation \<Rightarrow> bool" where
  "citation_valid c \<longleftrightarrow>
     list_all sha256_text [ci_clause_id c, ci_corpus_manifest_id c, ci_content_hash c] \<and>
     list_all (bounded_text 128) [ci_document_id c, ci_document_version c] \<and>
     (case ci_section_number c of None \<Rightarrow> True | Some s \<Rightarrow> bounded_text 64 s)"

text \<open>\<open>AnswerText\<close> strips its text and bounds what is left.\<close>

definition answer_text :: "string \<Rightarrow> string option" where
  "answer_text s = (let t = strip s in if bounded_text 4096 t then Some t else None)"

definition cited_answer_uncited_refusal :: "verified_answer \<Rightarrow> bool" where
  [contract_defs]: "cited_answer_uncited_refusal v \<longleftrightarrow>
     (if va_verdict v = Answered
      then va_answer v \<noteq> None \<and> va_answer v \<noteq> Some [] \<and> va_citations v \<noteq> [] \<and> va_refusal_reason v = None
      else va_answer v = None \<and> va_citations v = [] \<and> va_refusal_reason v \<noteq> None)"

definition citations_within_one_corpus :: "verified_answer \<Rightarrow> bool" where
  [contract_defs]: "citations_within_one_corpus v \<longleftrightarrow>
     length (remdups (map ci_corpus_manifest_id (va_citations v))) \<le> 1"

definition one_clause_cited_once :: "verified_answer \<Rightarrow> bool" where
  [contract_defs]: "one_clause_cited_once v \<longleftrightarrow> distinct (map ci_clause_id (va_citations v))"

definition verified_answer_valid :: "verified_answer \<Rightarrow> bool" where
  "verified_answer_valid v \<longleftrightarrow>
     cited_answer_uncited_refusal v \<and> citations_within_one_corpus v \<and> one_clause_cited_once v"

definition make_refusal :: "refusal_reason \<Rightarrow> string list \<Rightarrow> verified_answer" where
  "make_refusal reason faults = \<lparr>va_verdict = Refused, va_answer = None, va_citations = [],
     va_refusal_reason = Some reason, va_citation_faults = faults\<rparr>"

definition make_answer :: "string \<Rightarrow> citation list \<Rightarrow> validation_error + verified_answer" where
  "make_answer text cs =
     (case answer_text text of
        None \<Rightarrow> Inl ValidationError
      | Some t \<Rightarrow>
          let v = \<lparr>va_verdict = Answered, va_answer = Some t, va_citations = cs,
            va_refusal_reason = None, va_citation_faults = []\<rparr> in
          if verified_answer_valid v then Inr v else Inl ValidationError)"

lemma make_refusal_valid: "verified_answer_valid (make_refusal r fs)"
  by (simp add: make_refusal_def verified_answer_valid_def contract_defs)

lemma make_answer_Inr:
  "make_answer text cs = Inr v \<Longrightarrow> verified_answer_valid v \<and> va_verdict v = Answered \<and>
    va_citations v = cs \<and> va_answer v = answer_text text"
  by (auto simp: make_answer_def Let_def split: option.splits if_splits)

section \<open>Compliance candidates and results\<close>

datatype compliance_verdict = Compliant | Violating | InsufficientEvidence

datatype verification_status = Verified | DeterministicFailed | SemanticFailed | Insufficient

datatype semantic_reason = Supported | Unsupported | ConditionMismatch | ExceptionMissing | PolarityMismatch

fun semantic_value :: "semantic_reason \<Rightarrow> string" where
  "semantic_value Supported = ''supported''"
| "semantic_value Unsupported = ''unsupported''"
| "semantic_value ConditionMismatch = ''condition_mismatch''"
| "semantic_value ExceptionMissing = ''exception_missing''"
| "semantic_value PolarityMismatch = ''polarity_mismatch''"

record compliance_candidate =
  cc_claim :: string
  cc_proposed_verdict :: compliance_verdict
  cc_evidence_ids :: "string list"
  cc_rationale :: string

definition candidate_valid :: "compliance_candidate \<Rightarrow> bool" where
  [contract_defs]: "candidate_valid c \<longleftrightarrow> length (cc_evidence_ids c) \<le> 4 \<and>
     distinct (cc_evidence_ids c) \<and>
     (if cc_proposed_verdict c = InsufficientEvidence then cc_evidence_ids c = []
      else cc_evidence_ids c \<noteq> [])"

definition normalized_claim_id :: "(string \<Rightarrow> string) \<Rightarrow> string \<Rightarrow> string" where
  "normalized_claim_id sha256 claim = sha256 (strip claim)"

definition batch_valid :: "(string \<Rightarrow> string) \<Rightarrow> compliance_candidate list \<Rightarrow> bool" where
  [contract_defs]: "batch_valid sha256 cs \<longleftrightarrow> 1 \<le> length cs \<and> length cs \<le> 3 \<and>
     list_all candidate_valid cs \<and> distinct (map (\<lambda>c. normalized_claim_id sha256 (cc_claim c)) cs)"

record identified_candidate =
  ic_claim_id :: string
  ic_candidate :: compliance_candidate

definition identified_valid :: "(string \<Rightarrow> string) \<Rightarrow> identified_candidate \<Rightarrow> bool" where
  [contract_defs]: "identified_valid sha256 i \<longleftrightarrow>
     ic_claim_id i = normalized_claim_id sha256 (cc_claim (ic_candidate i))"

record semantic_evidence_decision =
  sd_evidence_id :: string
  sd_supports :: bool

record semantic_decision =
  sn_supports_verdict :: bool
  sn_evidence :: "semantic_evidence_decision list"
  sn_reason :: semantic_reason
  sn_rationale :: string

definition semantic_decision_valid :: "semantic_decision \<Rightarrow> bool" where
  [contract_defs]: "semantic_decision_valid d \<longleftrightarrow>
     1 \<le> length (sn_evidence d) \<and> length (sn_evidence d) \<le> 4 \<and>
     distinct (map sd_evidence_id (sn_evidence d)) \<and>
     \<not> (\<not> sn_supports_verdict d \<and> sn_reason d = Supported)"

record compliance_result =
  cr_claim_id :: string
  cr_verdict :: compliance_verdict
  cr_verification_status :: verification_status
  cr_citations :: "citation list"
  cr_reason_code :: "string option"

definition compliance_result_valid :: "compliance_result \<Rightarrow> bool" where
  [contract_defs]: "compliance_result_valid r \<longleftrightarrow>
     (if cr_verdict r = InsufficientEvidence then cr_citations r = []
      else cr_verification_status r = Verified \<and> cr_citations r \<noteq> [])"

end
