(* ===== verification/Answer.thy ===== *)
theory Answer
  imports AnswerContracts
begin

text \<open>
  The answer path around one provider reply: \<open>answer/evidence.py\<close> builds what may be disclosed
  and the record of it, \<open>answer/reply.py\<close> reads the shape of the reply, \<open>answer/verify.py\<close>
  checks its citations against that record and \<open>answer/chain.py\<close> puts them together.
  \<open>hashlib.sha256\<close> and \<open>json.loads\<close> are arguments; the latter returns a value, refuses the text
  (\<open>ValueError\<close>), or runs out of stack on deep nesting (\<open>RecursionError\<close>).
\<close>

section \<open>Evidence\<close>

record index_unit =
  iu_unit_id :: string
  iu_kind :: string
  iu_document_id :: string
  iu_document_version :: string
  iu_section_number :: "string option"
  iu_section_path :: string
  iu_ordinal :: nat
  iu_text :: string
  iu_indexed :: string

record disclosed_clause =
  dc_clause_id :: string
  dc_corpus_manifest_id :: string
  dc_document_id :: string
  dc_document_version :: string
  dc_content_hash :: string
  dc_section_number :: "string option"
  dc_quote_hash :: "string option"
  dc_span :: "excerpt_span option"

record evidence =
  ev_excerpt :: evidence_excerpt
  ev_disclosed :: disclosed_clause

datatype answer_error = AnswerValueError string | AnswerValidationError | AnswerRecursionError

definition whole_text_span :: "nat \<Rightarrow> string \<Rightarrow> excerpt_span" where
  "whole_text_span ordinal text = \<lparr>paragraph_start = ordinal, paragraph_end = ordinal,
     token_start = 0, token_end = max (word_count text) 1\<rparr>"

definition build_evidence_record ::
  "(string \<Rightarrow> string) \<Rightarrow> string \<Rightarrow> string \<Rightarrow> string \<Rightarrow> string option \<Rightarrow> nat \<Rightarrow> string \<Rightarrow> string \<Rightarrow>
   answer_error + evidence" where
  "build_evidence_record sha256 clause_id document_id document_version section ordinal text corpus =
     (if text = [] then Inl (AnswerValueError ''an excerpt needs text'')
      else
        let content_hash = sha256 text; span = whole_text_span ordinal text in
        Inr \<lparr>ev_excerpt = \<lparr>ee_corpus_manifest_id = corpus, ee_content_hash = content_hash,
               ee_quote = text, ee_quote_hash = content_hash, ee_span = span\<rparr>,
             ev_disclosed = \<lparr>dc_clause_id = clause_id, dc_corpus_manifest_id = corpus,
               dc_document_id = document_id, dc_document_version = document_version,
               dc_content_hash = content_hash, dc_section_number = section,
               dc_quote_hash = Some content_hash, dc_span = Some span\<rparr>\<rparr>)"

definition build_evidence_from_unit ::
  "(string \<Rightarrow> string) \<Rightarrow> string \<Rightarrow> index_unit \<Rightarrow> answer_error + evidence" where
  "build_evidence_from_unit sha256 corpus u =
     build_evidence_record sha256 (iu_unit_id u) (iu_document_id u) (iu_document_version u)
       (iu_section_number u) (iu_ordinal u) (iu_text u) corpus"

record clause =
  cl_clause_id :: string
  cl_document_id :: string
  cl_document_version :: string
  cl_section_number :: "string option"
  cl_ordinal :: nat

definition build_evidence ::
  "(string \<Rightarrow> string) \<Rightarrow> string \<Rightarrow> clause \<times> string \<Rightarrow> answer_error + evidence" where
  "build_evidence sha256 corpus = (\<lambda>(c, text).
     build_evidence_record sha256 (cl_clause_id c) (cl_document_id c) (cl_document_version c)
       (cl_section_number c) (cl_ordinal c) text corpus)"

fun check_distinct_clauses ::
  "(string \<Rightarrow> string) \<Rightarrow> string list \<Rightarrow> string list \<Rightarrow> (clause \<times> string) list \<Rightarrow> answer_error + unit" where
  "check_distinct_clauses sha256 seen seen_text [] = Inr ()"
| "check_distinct_clauses sha256 seen seen_text ((c, text) # rest) =
     (if cl_clause_id c \<in> set seen
      then Inl (AnswerValueError ''the same clause appears twice in one evidence set'')
      else if sha256 text \<in> set seen_text
      then Inl (AnswerValueError ''two clauses in one evidence set have identical text and would share an evidence id'')
      else check_distinct_clauses sha256 (cl_clause_id c # seen) (sha256 text # seen_text) rest)"

definition build_evidence_set ::
  "(string \<Rightarrow> string) \<Rightarrow> string \<Rightarrow> (clause \<times> string) list \<Rightarrow> answer_error + evidence list" where
  "build_evidence_set sha256 corpus clauses =
     bind_result (check_distinct_clauses sha256 [] [] clauses) (\<lambda>_.
     map_result (build_evidence sha256 corpus) clauses)"

section \<open>Reading a reply\<close>

text \<open>A Python value that \<open>json.loads\<close> builds; what it does with numbers is not read.\<close>

datatype reply_value =
    RNone
  | RBool bool
  | RNumber
  | RStr string
  | RList "reply_value list"
  | RDict "(string \<times> reply_value) list"

datatype loads_result = Loaded reply_value | LoadsValueError | LoadsRecursionError

record parsed_reply =
  pa_sufficient :: bool
  pa_answer :: "string option"
  pa_citations :: "string list"
  pa_parse_fault :: "string option"

definition unparseable :: "string \<Rightarrow> parsed_reply" where
  "unparseable fault = \<lparr>pa_sufficient = False, pa_answer = None, pa_citations = [],
     pa_parse_fault = Some fault\<rparr>"

fun starts_with :: "string \<Rightarrow> string \<Rightarrow> bool" where
  "starts_with [] s = True"
| "starts_with (p # ps) [] = False"
| "starts_with (p # ps) (c # cs) = (p = c \<and> starts_with ps cs)"

fun before_last :: "string \<Rightarrow> string \<Rightarrow> string option" where
  "before_last sep [] = None"
| "before_last sep (c # cs) =
     (case before_last sep cs of
        Some t \<Rightarrow> Some (c # t)
      | None \<Rightarrow> if starts_with sep (c # cs) then Some [] else None)"

fun after_newline :: "string \<Rightarrow> string" where
  "after_newline [] = []"
| "after_newline (c # cs) = (if byte c = 10 then cs else after_newline cs)"

text \<open>\<open>_extract_object\<close> up to the call of \<open>json.loads\<close>: a fenced block loses its fence.\<close>

definition unfenced :: "string \<Rightarrow> string" where
  "unfenced content =
     (let text = strip content in
      if starts_with ''```'' text
      then let rest = after_newline text;
               inner = strip (case before_last ''```'' rest of None \<Rightarrow> [] | Some t \<Rightarrow> t) in
           if inner \<noteq> [] then inner else strip rest
      else text)"

definition extract_object :: "(string \<Rightarrow> loads_result) \<Rightarrow> string \<Rightarrow> answer_error + reply_value option" where
  "extract_object loads content =
     (case loads (unfenced content) of
        Loaded RNone \<Rightarrow> Inr None
      | Loaded v \<Rightarrow> Inr (Some v)
      | LoadsValueError \<Rightarrow> Inr None
      | LoadsRecursionError \<Rightarrow> Inl AnswerRecursionError)"

definition cited_text :: "reply_value \<Rightarrow> string option" where
  "cited_text entry =
     (case entry of
        RDict d \<Rightarrow> (case map_of (rev d) ''evidence_id'' of Some (RStr s) \<Rightarrow> Some s | _ \<Rightarrow> None)
      | RStr s \<Rightarrow> Some s
      | _ \<Rightarrow> None)"

fun read_citations :: "reply_value list \<Rightarrow> string + string list" where
  "read_citations [] = Inr []"
| "read_citations (entry # rest) =
     (case cited_text entry of
        None \<Rightarrow> Inl ''reply_citation_not_a_string''
      | Some s \<Rightarrow>
          let i = lower (strip s) in
          if char_count i \<noteq> 64 \<or> \<not> list_all is_hex i then Inl ''reply_citation_malformed''
          else bind_result (read_citations rest) (\<lambda>is. Inr (i # is)))"

text \<open>The fields of a reply that is an object; a repeated key keeps its last value.\<close>

definition read_object :: "(string \<times> reply_value) list \<Rightarrow> parsed_reply" where
  "read_object body =
     (let field = map_of (rev body) in
      case field ''sufficient'' of
        Some (RBool sufficient) \<Rightarrow>
          if \<not> sufficient
          then \<lparr>pa_sufficient = False, pa_answer = None, pa_citations = [], pa_parse_fault = None\<rparr>
          else (case field ''answer'' of
            Some (RStr answer) \<Rightarrow>
              if strip answer = [] then unparseable ''reply_missing_answer''
              else if 4096 < char_count answer then unparseable ''reply_answer_too_long''
              else (case field ''citations'' of
                Some (RList raw) \<Rightarrow>
                  if 32 < length raw then unparseable ''reply_too_many_citations''
                  else (case read_citations raw of
                    Inl fault \<Rightarrow> unparseable fault
                  | Inr cs \<Rightarrow> \<lparr>pa_sufficient = True, pa_answer = Some (strip answer),
                      pa_citations = cs, pa_parse_fault = None\<rparr>)
              | _ \<Rightarrow> unparseable ''reply_missing_citations'')
          | _ \<Rightarrow> unparseable ''reply_missing_answer'')
      | _ \<Rightarrow> unparseable ''reply_missing_sufficient'')"

definition parse_reply :: "(string \<Rightarrow> loads_result) \<Rightarrow> string \<Rightarrow> answer_error + parsed_reply" where
  "parse_reply loads content =
     (if 32 * 1024 < length content then Inr (unparseable ''reply_too_large'')
      else bind_result (extract_object loads content) (\<lambda>body.
        case body of
          None \<Rightarrow> Inr (unparseable ''reply_not_json'')
        | Some (RDict d) \<Rightarrow> Inr (read_object d)
        | Some _ \<Rightarrow> Inr (unparseable ''reply_not_an_object'')))"

section \<open>Checking citations\<close>

datatype citation_fault = NotDisclosed | CrossManifest

fun citation_fault_value :: "citation_fault \<Rightarrow> string" where
  "citation_fault_value NotDisclosed = ''not_disclosed''"
| "citation_fault_value CrossManifest = ''cross_manifest''"

record citation_check =
  ck_evidence_id :: string
  ck_fault :: "citation_fault option"
  ck_citation :: "citation option"

text \<open>The citation of a clause, as its model holds it: identifiers and section stripped.\<close>

definition citation_of :: "disclosed_clause \<Rightarrow> citation" where
  "citation_of d = \<lparr>ci_clause_id = dc_clause_id d, ci_corpus_manifest_id = dc_corpus_manifest_id d,
     ci_document_id = strip (dc_document_id d), ci_document_version = strip (dc_document_version d),
     ci_section_number = map_option strip (dc_section_number d), ci_content_hash = dc_content_hash d\<rparr>"

text \<open>A clause whose fields the model of a citation refuses raises \<open>ValidationError\<close>.\<close>

definition check_citation ::
  "(string \<rightharpoonup> disclosed_clause) \<Rightarrow> string \<Rightarrow> string \<Rightarrow> answer_error + citation_check" where
  "check_citation disclosed corpus claimed =
     (case disclosed claimed of
        None \<Rightarrow> Inr \<lparr>ck_evidence_id = claimed, ck_fault = Some NotDisclosed, ck_citation = None\<rparr>
      | Some found \<Rightarrow>
          if dc_corpus_manifest_id found \<noteq> corpus
          then Inr \<lparr>ck_evidence_id = claimed, ck_fault = Some CrossManifest, ck_citation = None\<rparr>
          else if \<not> citation_valid (citation_of found) then Inl AnswerValidationError
          else Inr \<lparr>ck_evidence_id = claimed, ck_fault = None, ck_citation = Some (citation_of found)\<rparr>)"

fun deduplicate :: "string list \<Rightarrow> string list \<Rightarrow> string list" where
  "deduplicate seen [] = []"
| "deduplicate seen (c # cs) =
     (if c \<in> set seen then deduplicate seen cs else c # deduplicate (c # seen) cs)"

text \<open>A dictionary comprehension: the last clause with a hash wins.\<close>

definition by_evidence_id :: "disclosed_clause list \<Rightarrow> string \<rightharpoonup> disclosed_clause" where
  "by_evidence_id disclosed = map_of (rev (map (\<lambda>d. (dc_content_hash d, d)) disclosed))"

definition fault_texts :: "citation_check list \<Rightarrow> string list" where
  "fault_texts checks = List.map_filter (\<lambda>c. map_option (\<lambda>f.
     take 16 (ck_evidence_id c) @ '':'' @ citation_fault_value f) (ck_fault c)) checks"

definition verify_answer ::
  "string option \<Rightarrow> string list \<Rightarrow> disclosed_clause list \<Rightarrow> string \<Rightarrow> bool \<Rightarrow>
   answer_error + verified_answer" where
  "verify_answer text claimed disclosed corpus model_refused =
     (if disclosed = [] then Inr (make_refusal NoEvidenceRetrieved [])
      else if model_refused \<or> text = None \<or> text = Some []
      then Inr (make_refusal EvidenceInsufficient [])
      else
        bind_result (map_result (check_citation (by_evidence_id disclosed) corpus) (deduplicate [] claimed))
          (\<lambda>checks.
        let faults = fault_texts checks;
            verified = List.map_filter ck_citation checks in
        if faults \<noteq> [] \<or> verified = []
        then Inr (make_refusal UnverifiableCitation (if faults \<noteq> [] then faults else [''no_citation'']))
        else case make_answer (the text) verified of
            Inl _ \<Rightarrow> Inl AnswerValidationError
          | Inr v \<Rightarrow> Inr v))"

definition verify_response ::
  "(string \<Rightarrow> loads_result) \<Rightarrow> string \<Rightarrow> evidence list \<Rightarrow> string \<Rightarrow>
   answer_error + verified_answer \<times> string option" where
  "verify_response loads content evidence corpus =
     bind_result (parse_reply loads content) (\<lambda>parsed.
     case pa_parse_fault parsed of
       Some fault \<Rightarrow> Inr (make_refusal EvidenceInsufficient [fault], Some fault)
     | None \<Rightarrow>
         bind_result (verify_answer (pa_answer parsed) (pa_citations parsed)
           (map ev_disclosed evidence) corpus (\<not> pa_sufficient parsed)) (\<lambda>v. Inr (v, None)))"

end
