(* ===== verification/AnswerTheorems.thy ===== *)
theory AnswerTheorems
  imports Answer
begin

text \<open>
  What a verified answer can be: every determinate answer cites clauses that were disclosed to
  the model in the run's corpus, and every reply the reader can parse becomes an answer or a
  refusal that satisfies the contract.
\<close>

section \<open>Evidence sets\<close>

lemma check_distinct_Inr:
  "check_distinct_clauses sha256 seen seen_text clauses = Inr u \<longleftrightarrow>
     distinct (map (cl_clause_id \<circ> fst) clauses) \<and> distinct (map (sha256 \<circ> snd) clauses) \<and>
     set (map (cl_clause_id \<circ> fst) clauses) \<inter> set seen = {} \<and>
     set (map (sha256 \<circ> snd) clauses) \<inter> set seen_text = {}"
  by (induction sha256 seen seen_text clauses rule: check_distinct_clauses.induct) auto

lemma build_evidence_Inr:
  "build_evidence sha256 corpus (c, text) = Inr e \<longleftrightarrow> text \<noteq> [] \<and>
     e = \<lparr>ev_excerpt = \<lparr>ee_corpus_manifest_id = corpus, ee_content_hash = sha256 text,
            ee_quote = text, ee_quote_hash = sha256 text,
            ee_span = whole_text_span (cl_ordinal c) text\<rparr>,
          ev_disclosed = \<lparr>dc_clause_id = cl_clause_id c, dc_corpus_manifest_id = corpus,
            dc_document_id = cl_document_id c, dc_document_version = cl_document_version c,
            dc_content_hash = sha256 text, dc_section_number = cl_section_number c,
            dc_quote_hash = Some (sha256 text), dc_span = Some (whole_text_span (cl_ordinal c) text)\<rparr>\<rparr>"
  by (auto simp: build_evidence_def build_evidence_record_def Let_def)

lemma build_evidence_set_Inr:
  assumes "build_evidence_set sha256 corpus clauses = Inr ev"
  shows "map (dc_clause_id \<circ> ev_disclosed) ev = map (cl_clause_id \<circ> fst) clauses"
    and "map (dc_content_hash \<circ> ev_disclosed) ev = map (sha256 \<circ> snd) clauses"
    and "map (ee_quote \<circ> ev_excerpt) ev = map snd clauses"
    and "distinct (map (cl_clause_id \<circ> fst) clauses)" and "distinct (map (sha256 \<circ> snd) clauses)"
    and "list_all2 (\<lambda>c e. build_evidence sha256 corpus c = Inr e) clauses ev"
proof -
  from assms have A: "list_all2 (\<lambda>c e. build_evidence sha256 corpus c = Inr e) clauses ev"
    and D: "check_distinct_clauses sha256 [] [] clauses = Inr ()"
    by (auto simp: build_evidence_set_def result_simps map_result_Inr_all2)
  show "list_all2 (\<lambda>c e. build_evidence sha256 corpus c = Inr e) clauses ev" by (rule A)
  from A show "map (dc_clause_id \<circ> ev_disclosed) ev = map (cl_clause_id \<circ> fst) clauses"
    "map (dc_content_hash \<circ> ev_disclosed) ev = map (sha256 \<circ> snd) clauses"
    "map (ee_quote \<circ> ev_excerpt) ev = map snd clauses"
    by (induction rule: list_all2_induct) (auto simp: build_evidence_Inr)
  from D show "distinct (map (cl_clause_id \<circ> fst) clauses)" "distinct (map (sha256 \<circ> snd) clauses)"
    by (simp_all add: check_distinct_Inr)
qed

text \<open>
  What an evidence set discloses is what its clauses say. Each excerpt quotes its clause's
  whole text under the hash of that text, satisfies the excerpt contract and agrees with the
  local disclosure record, which names the clause; and no two records share a clause or an
  evidence identifier.
\<close>

theorem evidence_set_is_faithful:
  assumes "build_evidence_set sha256 corpus clauses = Inr ev"
  shows "distinct (map (dc_clause_id \<circ> ev_disclosed) ev) \<and>
    distinct (map (ee_content_hash \<circ> ev_excerpt) ev) \<and>
    list_all2 (\<lambda>(c, text) e. ee_quote (ev_excerpt e) = text \<and> ee_content_hash (ev_excerpt e) = sha256 text \<and>
      verify_exact_quote_hash sha256 (ev_excerpt e) \<and> require_ordered_coordinates (ee_span (ev_excerpt e)) \<and>
      dc_clause_id (ev_disclosed e) = cl_clause_id c \<and> dc_content_hash (ev_disclosed e) = sha256 text \<and>
      dc_quote_hash (ev_disclosed e) = Some (ee_quote_hash (ev_excerpt e)) \<and>
      dc_span (ev_disclosed e) = Some (ee_span (ev_excerpt e))) clauses ev"
proof -
  note B = build_evidence_set_Inr [OF assms]
  have "map (ee_content_hash \<circ> ev_excerpt) ev = map (dc_content_hash \<circ> ev_disclosed) ev"
    using B(6) by (induction rule: list_all2_induct) (auto simp: build_evidence_Inr)
  moreover have "list_all2 (\<lambda>(c, text) e. ee_quote (ev_excerpt e) = text \<and>
      ee_content_hash (ev_excerpt e) = sha256 text \<and>
      verify_exact_quote_hash sha256 (ev_excerpt e) \<and> require_ordered_coordinates (ee_span (ev_excerpt e)) \<and>
      dc_clause_id (ev_disclosed e) = cl_clause_id c \<and> dc_content_hash (ev_disclosed e) = sha256 text \<and>
      dc_quote_hash (ev_disclosed e) = Some (ee_quote_hash (ev_excerpt e)) \<and>
      dc_span (ev_disclosed e) = Some (ee_span (ev_excerpt e))) clauses ev"
    using B(6)
    by (rule list_all2_mono) (auto simp: build_evidence_Inr contract_defs whole_text_span_def)
  ultimately show ?thesis using B(1,2,4,5) by simp
qed

section \<open>Replies\<close>





lemma parse_reply_total:
  "loads (unfenced content) \<noteq> LoadsRecursionError \<Longrightarrow> \<exists>p. parse_reply loads content = Inr p"
  by (auto simp: parse_reply_def extract_object_def split: loads_result.splits reply_value.splits)

section \<open>Citations\<close>

lemma set_deduplicate: "set (deduplicate seen cs) = set cs - set seen"
  by (induction seen cs rule: deduplicate.induct) auto


lemma by_evidence_id_Some:
  "by_evidence_id disclosed i = Some d \<Longrightarrow> d \<in> set disclosed \<and> dc_content_hash d = i"
  by (auto simp: by_evidence_id_def dest!: map_of_SomeD)

lemma check_citation_cases:
  "check_citation m corpus i = Inr k \<Longrightarrow> ck_evidence_id k = i \<and>
   (ck_fault k = None \<longleftrightarrow> (\<exists>d. m i = Some d \<and> dc_corpus_manifest_id d = corpus)) \<and>
   ck_citation k = (if ck_fault k = None then map_option citation_of (m i) else None)"
  by (auto simp: check_citation_def split: option.splits if_splits)


lemma fault_texts_Nil: "fault_texts checks = [] \<longleftrightarrow> (\<forall>c \<in> set checks. ck_fault c = None)"
  by (induction checks) (auto simp: fault_texts_def List.map_filter_def)

text \<open>An answer comes from checks without a fault.\<close>

lemma verified_citations:
  assumes "map_result (check_citation m corpus) is = Inr checks" and "fault_texts checks = []"
  shows "List.map_filter ck_citation checks = map (citation_of \<circ> the \<circ> m) is \<and>
    (\<forall>i \<in> set is. \<exists>d. m i = Some d \<and> dc_corpus_manifest_id d = corpus)"
  using assms
proof (induction "is" arbitrary: checks)
  case (Cons i js)
  then obtain k ks where k: "checks = k # ks" "check_citation m corpus i = Inr k"
    "map_result (check_citation m corpus) js = Inr ks" by (auto simp: result_simps)
  with Cons.prems(2) have "ck_fault k = None" "fault_texts ks = []" by (simp_all add: fault_texts_Nil)
  with k Cons.IH [of ks] check_citation_cases [OF k(2)] show ?case by (auto simp: List.map_filter_def)
qed (simp add: List.map_filter_def)

lemma verify_answer_Answered:
  assumes "verify_answer text claimed disclosed corpus refused = Inr v" and "va_verdict v = Answered"
  obtains t where "text = Some t" "\<not> refused" "make_answer t (va_citations v) = Inr v"
    "va_citations v = map (citation_of \<circ> the \<circ> by_evidence_id disclosed) (deduplicate [] claimed)"
    "\<forall>i \<in> set claimed. \<exists>d \<in> set disclosed. dc_content_hash d = i \<and> dc_corpus_manifest_id d = corpus \<and>
      by_evidence_id disclosed i = Some d"
proof -
  from assms obtain t checks where t: "text = Some t" "\<not> refused" "fault_texts checks = []"
    "make_answer t (List.map_filter ck_citation checks) = Inr v"
    and checks: "map_result (check_citation (by_evidence_id disclosed) corpus) (deduplicate [] claimed) = Inr checks"
    by (auto simp: verify_answer_def Let_def make_refusal_def result_simps split: if_splits sum.splits)
  from verified_citations [OF checks t(3)]
  have V: "List.map_filter ck_citation checks = map (citation_of \<circ> the \<circ> by_evidence_id disclosed) (deduplicate [] claimed)"
    "\<forall>i \<in> set (deduplicate [] claimed). \<exists>d. by_evidence_id disclosed i = Some d \<and> dc_corpus_manifest_id d = corpus"
    by auto
  have cs: "va_citations v = List.map_filter ck_citation checks" using make_answer_Inr [OF t(4)] by simp
  have "\<forall>i \<in> set claimed. \<exists>d \<in> set disclosed. dc_content_hash d = i \<and> dc_corpus_manifest_id d = corpus \<and>
      by_evidence_id disclosed i = Some d"
    using V(2) by (fastforce simp: set_deduplicate dest: by_evidence_id_Some)
  with t cs V(1) show thesis by (intro that [of t]) simp_all
qed

text \<open>
  C24. A determinate answer cites only what the model was shown. If a reply becomes an answer,
  the answer satisfies the contract, it has a citation, every identifier the reply cited was
  disclosed to this request in the run's corpus, and every citation names the clause of one of
  those disclosures.
\<close>

theorem answer_cites_disclosures:
  assumes "verify_response loads content ev corpus = Inr (v, fault)" and "va_verdict v = Answered"
  shows "verified_answer_valid v \<and> va_citations v \<noteq> [] \<and>
    (\<exists>p. parse_reply loads content = Inr p \<and>
      (\<forall>i \<in> set (pa_citations p). \<exists>e \<in> set ev. dc_content_hash (ev_disclosed e) = i) \<and>
      (\<forall>c \<in> set (va_citations v). ci_corpus_manifest_id c = corpus \<and>
        (\<exists>e \<in> set ev. c = citation_of (ev_disclosed e) \<and> ci_content_hash c \<in> set (pa_citations p))))"
proof -
  from assms obtain p where p: "parse_reply loads content = Inr p" "pa_parse_fault p = None"
    "verify_answer (pa_answer p) (pa_citations p) (map ev_disclosed ev) corpus (\<not> pa_sufficient p) = Inr v"
    by (auto simp: verify_response_def result_simps make_refusal_def split: option.splits)
  from verify_answer_Answered [OF p(3) assms(2)] obtain t where t: "make_answer t (va_citations v) = Inr v"
    "va_citations v = map (citation_of \<circ> the \<circ> by_evidence_id (map ev_disclosed ev)) (deduplicate [] (pa_citations p))"
    and shown: "\<forall>i \<in> set (pa_citations p). \<exists>d \<in> set (map ev_disclosed ev). dc_content_hash d = i \<and>
      dc_corpus_manifest_id d = corpus \<and> by_evidence_id (map ev_disclosed ev) i = Some d" by blast
  have "ci_corpus_manifest_id c = corpus \<and>
      (\<exists>e \<in> set ev. c = citation_of (ev_disclosed e) \<and> ci_content_hash c \<in> set (pa_citations p))"
    if c: "c \<in> set (va_citations v)" for c
  proof -
    from c t(2) obtain i where i: "i \<in> set (pa_citations p)"
      "c = citation_of (the (by_evidence_id (map ev_disclosed ev) i))" by (auto simp: set_deduplicate)
    with shown obtain e where "e \<in> set ev" "dc_content_hash (ev_disclosed e) = i"
      "dc_corpus_manifest_id (ev_disclosed e) = corpus" "c = citation_of (ev_disclosed e)" by force
    with i(1) show ?thesis by (auto simp: citation_of_def)
  qed
  moreover have "\<forall>i \<in> set (pa_citations p). \<exists>e \<in> set ev. dc_content_hash (ev_disclosed e) = i"
    using shown by auto
  moreover have "verified_answer_valid v" using make_answer_Inr [OF t(1)] by simp
  ultimately show ?thesis using p(1) assms(2)
    by (auto simp: verified_answer_valid_def cited_answer_uncited_refusal_def)
qed





text \<open>
  One text is an error all the same: if the JSON reader runs out of stack on a reply of
  acceptable size, the answer path raises instead of refusing, whatever was disclosed.
\<close>

theorem deep_reply_escapes:
  assumes "length content \<le> 32 * 1024" and "loads (unfenced content) = LoadsRecursionError"
  shows "verify_response loads content ev corpus = Inl AnswerRecursionError"
  using assms by (simp add: verify_response_def parse_reply_def extract_object_def)

section \<open>A concrete reply\<close>

definition cited_corpus :: string where "cited_corpus = replicate 64 (CHR ''4'')"

definition cited_clause :: string where "cited_clause = replicate 64 (CHR ''c'')"

definition sample_clauses :: "(clause \<times> string) list" where
  "sample_clauses = [(\<lparr>cl_clause_id = cited_clause, cl_document_id = ''rfc'', cl_document_version = ''1'',
     cl_section_number = Some ''9.2'', cl_ordinal = 4\<rparr>, ''GET is safe'')]"

definition digest :: "string \<Rightarrow> string" where
  "digest s = replicate 64 (CHR ''a'')"

definition sample_loads :: "string \<Rightarrow> loads_result" where
  "sample_loads s = (if s = ''{}'' then Loaded (RDict [(''sufficient'', RBool True), (''answer'', RStr '' yes''),
       (''citations'', RList [RStr (replicate 64 (CHR ''A''))])])
     else if s = ''['' then LoadsRecursionError else LoadsValueError)"

definition sample_evidence :: "evidence list" where
  "sample_evidence = projr (build_evidence_set digest cited_corpus sample_clauses)"

lemma sample_evidence_built: "build_evidence_set digest cited_corpus sample_clauses = Inr sample_evidence"
  unfolding sample_evidence_def
  by (simp add: build_evidence_set_def sample_clauses_def build_evidence_def build_evidence_record_def Let_def)

definition cited :: citation where
  "cited = \<lparr>ci_clause_id = cited_clause, ci_corpus_manifest_id = cited_corpus, ci_document_id = ''rfc'',
     ci_document_version = ''1'', ci_section_number = Some ''9.2'', ci_content_hash = replicate 64 (CHR ''a'')\<rparr>"

definition sample_verified :: verified_answer where
  "sample_verified = \<lparr>va_verdict = Answered, va_answer = Some ''yes'',
     va_citations = [cited],
     va_refusal_reason = None, va_citation_faults = []\<rparr>"

lemma sample_unfenced: "unfenced '' ```
{}
``` '' = ''{}''"
  by code_simp

lemma sample_citation: "read_citations [RStr (replicate 64 (CHR ''A''))] = Inr [replicate 64 (CHR ''a'')]"
proof -
  have s: "strip (replicate 64 (CHR ''A'')) = replicate 64 (CHR ''A'')" by code_simp
  have "lower ''A'' = ''a''" by code_simp
  then have l: "lower (replicate 64 (CHR ''A'')) = replicate 64 (CHR ''a'')"
    by (simp add: lower_def split: if_splits)
  have h: "is_hex (CHR ''a'')" "\<not> continuation (CHR ''a'')"
    by (simp_all add: is_hex_def is_decimal_def continuation_def byte_def)
  have "char_count (replicate (Suc n) (CHR ''a'')) = Suc n" for n
    using h(2) by simp
  from this [of 63] have "char_count (replicate 64 (CHR ''a'')) = 64" by simp
  then show ?thesis using h(1) by (simp add: s l Let_def cited_text_def list_all_iff)
qed

lemma cited_valid: "citation_valid cited"
  by code_simp

lemma sample_disclosure:
  "sample_evidence = [\<lparr>ev_excerpt = \<lparr>ee_corpus_manifest_id = cited_corpus,
      ee_content_hash = digest ''GET is safe'', ee_quote = ''GET is safe'',
      ee_quote_hash = digest ''GET is safe'', ee_span = whole_text_span 4 ''GET is safe''\<rparr>,
    ev_disclosed = \<lparr>dc_clause_id = cited_clause, dc_corpus_manifest_id = cited_corpus, dc_document_id = ''rfc'',
      dc_document_version = ''1'', dc_content_hash = digest ''GET is safe'',
      dc_section_number = Some ''9.2'', dc_quote_hash = Some (digest ''GET is safe''),
      dc_span = Some (whole_text_span 4 ''GET is safe'')\<rparr>\<rparr>]"
  using build_evidence_set_Inr(6) [OF sample_evidence_built]
  by (simp add: sample_clauses_def list_all2_Cons1 build_evidence_Inr)

lemma sample_cites: "citation_of (ev_disclosed (hd sample_evidence)) = cited"
proof -
  have "strip ''rfc'' = ''rfc''" "strip ''1'' = ''1''" "strip ''9.2'' = ''9.2''" by code_simp+
  then show ?thesis by (simp add: sample_disclosure citation_of_def cited_def digest_def)
qed


lemma sample_verify:
  "verify_response sample_loads '' ```
{}
``` '' sample_evidence cited_corpus = Inr (sample_verified, None)"
proof -
  have strips: "strip '' yes'' = ''yes''" "strip ''yes'' = ''yes''" "char_count '' yes'' = 4"
    "char_count ''yes'' = 3"
    by code_simp+
  have parsed: "parse_reply sample_loads '' ```
{}
``` '' = Inr \<lparr>pa_sufficient = True, pa_answer = Some ''yes'', pa_citations = [replicate 64 (CHR ''a'')],
      pa_parse_fault = None\<rparr>"
    by (simp add: strips sample_citation parse_reply_def extract_object_def sample_unfenced
        sample_loads_def read_object_def del: char_count.simps read_citations.simps)
  have found: "citation_of (\<lparr>dc_clause_id = cited_clause, dc_corpus_manifest_id = cited_corpus, dc_document_id = ''rfc'',
      dc_document_version = ''1'', dc_content_hash = replicate 64 (CHR ''a''), dc_section_number = Some ''9.2'',
      dc_quote_hash = Some (replicate 64 (CHR ''a'')), dc_span = Some (whole_text_span 4 ''GET is safe'')\<rparr>) = cited"
    using sample_cites by (simp add: sample_disclosure digest_def)
  have "answer_text ''yes'' = Some ''yes''" by code_simp
  then show ?thesis
    by (simp add: verify_response_def parsed sample_disclosure verify_answer_def Let_def check_citation_def by_evidence_id_def
        digest_def fault_texts_def List.map_filter_def found cited_valid make_answer_def
        verified_answer_valid_def contract_defs sample_verified_def
        del: char_count.simps)
qed

theorem evidence_set_is_faithful_witness:
  "map (dc_clause_id \<circ> ev_disclosed) sample_evidence = [cited_clause] \<and>
   distinct (map (ee_content_hash \<circ> ev_excerpt) sample_evidence)"
  using evidence_set_is_faithful [OF sample_evidence_built] build_evidence_set_Inr(1) [OF sample_evidence_built]
  by (simp add: sample_clauses_def)

theorem answer_cites_disclosures_witness:
  "verified_answer_valid sample_verified \<and> va_citations sample_verified \<noteq> []"
  using answer_cites_disclosures [OF sample_verify] by (simp add: sample_verified_def)


theorem deep_reply_escapes_witness:
  "verify_response sample_loads ''['' sample_evidence cited_corpus = Inl AnswerRecursionError"
proof -
  have "sample_loads (unfenced ''['') = LoadsRecursionError" by code_simp
  from deep_reply_escapes [of "''[''" sample_loads, OF _ this] show ?thesis by simp
qed

end
