(* ===== verification/Deterministic.thy ===== *)
theory Deterministic
  imports AnswerTheorems
begin

text \<open>
  \<open>verifier/deterministic.py\<close> over the in-memory corpus of \<open>retrieval/local.py\<close>: each evidence
  handle of a candidate is turned back into the one disclosure it names, and the disclosure is
  compared with the frozen unit, field by field, before any semantic model is asked.
\<close>

section \<open>The frozen corpus\<close>

text \<open>
  A dictionary in insertion order. \<open>load\<close> refuses two units with one id; what it reads them from
  is the ingestion. The table of contents keeps (document, number, path).
\<close>

record local_corpus =
  lc_units :: "index_unit list"
  lc_toc :: "(string \<times> string option \<times> string) list"
  lc_source_hashes :: "(string \<times> string) list"

definition corpus_ok :: "local_corpus \<Rightarrow> bool" where
  "corpus_ok c \<longleftrightarrow> distinct (map iu_unit_id (lc_units c)) \<and> distinct (map fst (lc_source_hashes c))"

definition resolve_unit :: "local_corpus \<Rightarrow> string \<Rightarrow> index_unit option" where
  "resolve_unit c = map_of (map (\<lambda>u. (iu_unit_id u, u)) (lc_units c))"

fun load_units ::
  "local_corpus \<Rightarrow> (string \<times> string \<times> index_unit list \<times> (string option \<times> string) list) list \<Rightarrow>
   answer_error + local_corpus" where
  "load_units c [] = Inr c"
| "load_units c ((document, source_hash, units, toc) # rest) =
     (if document \<in> fst ` set (lc_source_hashes c) then Inl (AnswerValueError ''duplicate document id'')
      else if \<not> distinct (map iu_unit_id (lc_units c @ units))
      then Inl (AnswerValueError ''duplicate unit id'')
      else load_units (c\<lparr>lc_units := lc_units c @ units,
        lc_toc := lc_toc c @ map (Pair document) toc,
        lc_source_hashes := lc_source_hashes c @ [(document, source_hash)]\<rparr>) rest)"

definition load_corpus ::
  "(string \<times> string \<times> index_unit list \<times> (string option \<times> string) list) list \<Rightarrow> answer_error + local_corpus" where
  "load_corpus documents = load_units \<lparr>lc_units = [], lc_toc = [], lc_source_hashes = []\<rparr> documents"

section \<open>Checks\<close>

datatype deterministic_fault =
    FaultNotDisclosed
  | AmbiguousEvidence
  | CorpusManifestMismatch
  | DocumentScopeMismatch
  | ClauseNotFound
  | DocumentIdMismatch
  | DocumentVersionMismatch
  | SectionMismatch
  | ContentHashMismatch
  | QuoteHashMismatch
  | SpanMismatch
  | NoVerifiedEvidence

record deterministic_check =
  dk_evidence_id :: "string option"
  dk_fault :: "deterministic_fault option"

record deterministic_result =
  dr_checks :: "deterministic_check list"
  dr_citations :: "citation list"

definition result_passed :: "deterministic_result \<Rightarrow> bool" where
  "result_passed r \<longleftrightarrow> dr_citations r \<noteq> [] \<and> list_all (\<lambda>c. dk_fault c = None) (dr_checks r)"

definition whole_unit_span :: "index_unit \<Rightarrow> excerpt_span" where
  "whole_unit_span u = \<lparr>paragraph_start = iu_ordinal u, paragraph_end = iu_ordinal u,
     token_start = 0, token_end = max (word_count (iu_text u)) 1\<rparr>"

text \<open>
  The unit's fields are taken as they are: the units of a frozen corpus carry identifiers without
  white space around them and within the patterns of a citation, which is not checked here.
\<close>

definition unit_citation :: "(string \<Rightarrow> string) \<Rightarrow> index_unit \<Rightarrow> string \<Rightarrow> citation" where
  "unit_citation sha256 u corpus = \<lparr>ci_clause_id = iu_unit_id u, ci_corpus_manifest_id = corpus,
     ci_document_id = iu_document_id u, ci_document_version = iu_document_version u,
     ci_section_number = iu_section_number u, ci_content_hash = sha256 (iu_text u)\<rparr>"

definition verify_disclosure ::
  "(string \<Rightarrow> string) \<Rightarrow> local_corpus \<Rightarrow> string \<Rightarrow> string set \<Rightarrow> evidence \<Rightarrow>
   deterministic_fault + index_unit" where
  "verify_disclosure sha256 corpus manifest allowed e =
     (let disclosed = ev_disclosed e; excerpt = ev_excerpt e in
      if dc_corpus_manifest_id disclosed \<noteq> manifest then Inl CorpusManifestMismatch
      else if dc_document_id disclosed \<notin> allowed then Inl DocumentScopeMismatch
      else case resolve_unit corpus (dc_clause_id disclosed) of
        None \<Rightarrow> Inl ClauseNotFound
      | Some u \<Rightarrow>
          if dc_document_id disclosed \<noteq> iu_document_id u then Inl DocumentIdMismatch
          else if dc_document_version disclosed \<noteq> iu_document_version u then Inl DocumentVersionMismatch
          else if dc_section_number disclosed \<noteq> iu_section_number u then Inl SectionMismatch
          else
            let text_hash = sha256 (iu_text u) in
            if ee_content_hash excerpt \<noteq> dc_content_hash disclosed \<or> ee_content_hash excerpt \<noteq> text_hash
            then Inl ContentHashMismatch
            else if ee_quote excerpt \<noteq> iu_text u \<or> ee_quote_hash excerpt \<noteq> sha256 (ee_quote excerpt) \<or>
              Some (ee_quote_hash excerpt) \<noteq> dc_quote_hash disclosed \<or> ee_quote_hash excerpt \<noteq> text_hash
            then Inl QuoteHashMismatch
            else if Some (ee_span excerpt) \<noteq> dc_span disclosed \<or> ee_span excerpt \<noteq> whole_unit_span u
            then Inl SpanMismatch
            else Inr u)"

text \<open>The outcome of one handle: its check, and the citation it earns.\<close>

definition verify_handle ::
  "(string \<Rightarrow> string) \<Rightarrow> local_corpus \<Rightarrow> string \<Rightarrow> string set \<Rightarrow> evidence list \<Rightarrow> string \<Rightarrow>
   deterministic_check \<times> citation list" where
  "verify_handle sha256 corpus manifest allowed disclosed i =
     (case filter (\<lambda>e. ee_content_hash (ev_excerpt e) = i) disclosed of
        [] \<Rightarrow> (\<lparr>dk_evidence_id = Some i, dk_fault = Some FaultNotDisclosed\<rparr>, [])
      | [e] \<Rightarrow>
          (case verify_disclosure sha256 corpus manifest allowed e of
             Inl fault \<Rightarrow> (\<lparr>dk_evidence_id = Some i, dk_fault = Some fault\<rparr>, [])
           | Inr u \<Rightarrow> (\<lparr>dk_evidence_id = Some i, dk_fault = None\<rparr>, [unit_citation sha256 u manifest]))
      | _ \<Rightarrow> (\<lparr>dk_evidence_id = Some i, dk_fault = Some AmbiguousEvidence\<rparr>, []))"

definition verify_candidate ::
  "(string \<Rightarrow> string) \<Rightarrow> local_corpus \<Rightarrow> string \<Rightarrow> string set \<Rightarrow> evidence list \<Rightarrow>
   compliance_candidate \<Rightarrow> deterministic_result" where
  "verify_candidate sha256 corpus manifest allowed disclosed candidate =
     (let outcomes = map (verify_handle sha256 corpus manifest allowed disclosed) (cc_evidence_ids candidate);
          checks = (if outcomes = [] then [\<lparr>dk_evidence_id = None, dk_fault = Some NoVerifiedEvidence\<rparr>]
            else map fst outcomes) in
      \<lparr>dr_checks = checks,
       dr_citations = (if list_ex (\<lambda>c. dk_fault c \<noteq> None) checks then [] else concat (map snd outcomes))\<rparr>)"

section \<open>What passing means\<close>

lemma load_units_ok:
  "load_units c ds = Inr c' \<Longrightarrow> corpus_ok c \<Longrightarrow> corpus_ok c'"
  by (induction c ds rule: load_units.induct) (auto simp: corpus_ok_def split: if_splits)

lemma load_corpus_ok: "load_corpus ds = Inr c \<Longrightarrow> corpus_ok c"
  using load_units_ok [of "\<lparr>lc_units = [], lc_toc = [], lc_source_hashes = []\<rparr>" ds c]
  by (simp add: load_corpus_def corpus_ok_def)

lemma resolve_unit_Some:
  "resolve_unit c i = Some u \<Longrightarrow> u \<in> set (lc_units c) \<and> iu_unit_id u = i"
  unfolding resolve_unit_def by (rule map_of_key_SomeD)

lemma resolve_unit_member:
  "corpus_ok c \<Longrightarrow> u \<in> set (lc_units c) \<Longrightarrow> resolve_unit c (iu_unit_id u) = Some u"
  unfolding resolve_unit_def corpus_ok_def by (simp add: map_of_key_distinct)

text \<open>The one disclosure a verified unit allows: the one the evidence builder makes from it.\<close>

lemma verify_disclosure_iff:
  "verify_disclosure sha256 corpus manifest allowed e = Inr u \<longleftrightarrow>
     resolve_unit corpus (dc_clause_id (ev_disclosed e)) = Some u \<and> iu_document_id u \<in> allowed \<and>
     ev_excerpt e = \<lparr>ee_corpus_manifest_id = ee_corpus_manifest_id (ev_excerpt e),
       ee_content_hash = sha256 (iu_text u), ee_quote = iu_text u, ee_quote_hash = sha256 (iu_text u),
       ee_span = whole_unit_span u\<rparr> \<and>
     ev_disclosed e = \<lparr>dc_clause_id = iu_unit_id u, dc_corpus_manifest_id = manifest,
       dc_document_id = iu_document_id u, dc_document_version = iu_document_version u,
       dc_content_hash = sha256 (iu_text u), dc_section_number = iu_section_number u,
       dc_quote_hash = Some (sha256 (iu_text u)), dc_span = Some (whole_unit_span u)\<rparr>"
  (is "?L \<longleftrightarrow> ?R")
proof
  assume L: ?L
  then obtain r: "resolve_unit corpus (dc_clause_id (ev_disclosed e)) = Some u"
    by (auto simp: verify_disclosure_def Let_def split: if_splits option.splits)
  with L resolve_unit_Some [OF r] show ?R
    by (cases "ev_disclosed e"; cases "ev_excerpt e")
      (auto simp: verify_disclosure_def Let_def split: if_splits)
next
  assume ?R
  then obtain r: "resolve_unit corpus (iu_unit_id u) = Some u" and a: "iu_document_id u \<in> allowed"
    and x: "ev_excerpt e = \<lparr>ee_corpus_manifest_id = ee_corpus_manifest_id (ev_excerpt e),
       ee_content_hash = sha256 (iu_text u), ee_quote = iu_text u, ee_quote_hash = sha256 (iu_text u),
       ee_span = whole_unit_span u\<rparr>"
    and d: "ev_disclosed e = \<lparr>dc_clause_id = iu_unit_id u, dc_corpus_manifest_id = manifest,
       dc_document_id = iu_document_id u, dc_document_version = iu_document_version u,
       dc_content_hash = sha256 (iu_text u), dc_section_number = iu_section_number u,
       dc_quote_hash = Some (sha256 (iu_text u)), dc_span = Some (whole_unit_span u)\<rparr>"
    by (metis disclosed_clause.select_convs(1))
  show ?L
    unfolding verify_disclosure_def d Let_def using r a
    by (subst (1 2 3 4 5 6 7 8 9) x) simp
qed

text \<open>What is built from a unit of the corpus always verifies, and cites that unit.\<close>

lemma built_evidence_verifies:
  assumes "corpus_ok corpus" and "u \<in> set (lc_units corpus)" and "iu_document_id u \<in> allowed"
    and "build_evidence_from_unit sha256 manifest u = Inr e"
  shows "verify_disclosure sha256 corpus manifest allowed e = Inr u"
  using assms resolve_unit_member [OF assms(1,2)]
  by (auto simp: verify_disclosure_iff build_evidence_from_unit_def build_evidence_record_def Let_def
      whole_unit_span_def whole_text_span_def split: if_splits)

lemma verify_handle_passed:
  assumes "dk_fault (fst (verify_handle sha256 corpus manifest allowed disclosed i)) = None"
  obtains e u where "filter (\<lambda>e. ee_content_hash (ev_excerpt e) = i) disclosed = [e]"
    "verify_disclosure sha256 corpus manifest allowed e = Inr u"
    "snd (verify_handle sha256 corpus manifest allowed disclosed i) = [unit_citation sha256 u manifest]"
  using assms unfolding verify_handle_def
  by (auto split: list.splits sum.splits)

lemma concat_verified:
  assumes "\<forall>i \<in> set ids. dk_fault (fst (verify_handle sha256 corpus manifest allowed disclosed i)) = None"
  shows "list_all2 (\<lambda>i c. snd (verify_handle sha256 corpus manifest allowed disclosed i) = [c]) ids
    (concat (map (snd \<circ> verify_handle sha256 corpus manifest allowed disclosed) ids))"
  using assms
proof (induction ids)
  case (Cons i ids)
  have "dk_fault (fst (verify_handle sha256 corpus manifest allowed disclosed i)) = None"
    using Cons.prems by simp
  then obtain c where "snd (verify_handle sha256 corpus manifest allowed disclosed i) = [c]"
    by (rule verify_handle_passed)
  with Cons show ?case by simp
qed simp

lemma result_passed_iff:
  "result_passed (verify_candidate sha256 corpus manifest allowed disclosed candidate) \<longleftrightarrow>
     cc_evidence_ids candidate \<noteq> [] \<and>
     (\<forall>i \<in> set (cc_evidence_ids candidate).
       dk_fault (fst (verify_handle sha256 corpus manifest allowed disclosed i)) = None)"
proof -
  let ?h = "verify_handle sha256 corpus manifest allowed disclosed" and ?ids = "cc_evidence_ids candidate"
  have "concat (map (snd \<circ> ?h) ?ids) \<noteq> []" if "?ids \<noteq> []" "\<forall>i \<in> set ?ids. dk_fault (fst (?h i)) = None"
    using concat_verified [OF that(2)] that(1) by (metis list_all2_Nil2)
  then show ?thesis
    by (auto simp: result_passed_def verify_candidate_def Let_def list_ex_iff list_all_iff)
qed

lemma passed_citations:
  assumes "result_passed (verify_candidate sha256 corpus manifest allowed disclosed candidate)"
  shows "dr_citations (verify_candidate sha256 corpus manifest allowed disclosed candidate) =
    concat (map (snd \<circ> verify_handle sha256 corpus manifest allowed disclosed) (cc_evidence_ids candidate))"
  using assms unfolding result_passed_iff
  by (auto simp: verify_candidate_def Let_def list_ex_iff)

text \<open>
  C26. A candidate that passes is backed by the frozen corpus. Every identifier it names is the
  hash of exactly one excerpt this run disclosed; that excerpt quotes the whole text of a unit
  of the corpus, in a document of the run's scope, at that unit's coordinates; and the citation
  in its place names that unit under the run's manifest.
\<close>

theorem passed_candidate_is_backed:
  assumes "result_passed (verify_candidate sha256 corpus manifest allowed disclosed candidate)"
  shows "list_all2 (\<lambda>i c. \<exists>e u. filter (\<lambda>e. ee_content_hash (ev_excerpt e) = i) disclosed = [e] \<and>
      u \<in> set (lc_units corpus) \<and> iu_document_id u \<in> allowed \<and>
      i = sha256 (iu_text u) \<and> ee_quote (ev_excerpt e) = iu_text u \<and>
      ee_span (ev_excerpt e) = whole_unit_span u \<and> dc_clause_id (ev_disclosed e) = iu_unit_id u \<and>
      c = unit_citation sha256 u manifest)
    (cc_evidence_ids candidate)
    (dr_citations (verify_candidate sha256 corpus manifest allowed disclosed candidate))"
proof -
  let ?h = "verify_handle sha256 corpus manifest allowed disclosed"
  from assms have ok: "\<forall>i \<in> set (cc_evidence_ids candidate). dk_fault (fst (?h i)) = None"
    by (simp add: result_passed_iff)
  have one: "\<exists>e u. filter (\<lambda>e. ee_content_hash (ev_excerpt e) = i) disclosed = [e] \<and>
      u \<in> set (lc_units corpus) \<and> iu_document_id u \<in> allowed \<and>
      i = sha256 (iu_text u) \<and> ee_quote (ev_excerpt e) = iu_text u \<and>
      ee_span (ev_excerpt e) = whole_unit_span u \<and> dc_clause_id (ev_disclosed e) = iu_unit_id u \<and>
      c = unit_citation sha256 u manifest"
    if i: "dk_fault (fst (?h i)) = None" and c: "snd (?h i) = [c]" for i c
  proof -
    from i obtain e u where e: "filter (\<lambda>e. ee_content_hash (ev_excerpt e) = i) disclosed = [e]"
      "verify_disclosure sha256 corpus manifest allowed e = Inr u" "snd (?h i) = [unit_citation sha256 u manifest]"
      by (rule verify_handle_passed)
    from e(2) obtain x d where "ev_excerpt e = x" "ev_disclosed e = d"
      "resolve_unit corpus (dc_clause_id d) = Some u" "iu_document_id u \<in> allowed"
      "ee_content_hash x = sha256 (iu_text u)" "ee_quote x = iu_text u" "ee_span x = whole_unit_span u"
      "dc_clause_id d = iu_unit_id u"
      unfolding verify_disclosure_iff
      by (metis disclosed_clause.select_convs(1) evidence_excerpt.select_convs(2,3,5))
    moreover have "ee_content_hash (ev_excerpt e) = i"
      using e(1) by (metis (mono_tags, lifting) filter_eq_Cons_iff)
    ultimately show ?thesis using e(1,3) c by (auto dest: resolve_unit_Some)
  qed
  have "list_all2 (\<lambda>i c. dk_fault (fst (?h i)) = None \<and> snd (?h i) = [c]) (cc_evidence_ids candidate)
      (concat (map (snd \<circ> ?h) (cc_evidence_ids candidate)))"
    using concat_verified [OF ok] ok by (auto simp: list_all2_conv_all_nth)
  then show ?thesis
    unfolding passed_citations [OF assms] by (rule list_all2_mono) (blast intro: one)
qed

text \<open>
  C27. Verification is exact on honest evidence. If everything disclosed was built from units of the
  corpus in scope, a candidate passes if and only if it names at least one identifier, and each
  identifier it names is the hash of exactly one of the disclosed units' texts (the same text
  disclosed twice is ambiguous and fails); and one that does not pass has no citations at all.
\<close>

theorem verification_is_exact:
  assumes ok: "corpus_ok corpus" and us: "set us \<subseteq> set (lc_units corpus)"
    and scope: "iu_document_id ` set us \<subseteq> allowed"
    and built: "list_all2 (\<lambda>u e. build_evidence_from_unit sha256 manifest u = Inr e) us ev"
  shows "(result_passed (verify_candidate sha256 corpus manifest allowed ev candidate) \<longleftrightarrow>
      cc_evidence_ids candidate \<noteq> [] \<and>
      (\<forall>i \<in> set (cc_evidence_ids candidate). length (filter (\<lambda>u. sha256 (iu_text u) = i) us) = 1)) \<and>
    (result_passed (verify_candidate sha256 corpus manifest allowed ev candidate) \<or>
      dr_citations (verify_candidate sha256 corpus manifest allowed ev candidate) = [])"
proof -
  let ?pick = "\<lambda>i. filter (\<lambda>e. ee_content_hash (ev_excerpt e) = i) ev"
  have picked: "length (?pick i) = length (filter (\<lambda>u. sha256 (iu_text u) = i) us)" for i
    using built by (induction rule: list_all2_induct)
      (auto simp: build_evidence_from_unit_def build_evidence_record_def Let_def split: if_splits)
  have verified: "\<exists>u. verify_disclosure sha256 corpus manifest allowed e = Inr u" if "e \<in> set ev" for e
  proof -
    from that obtain k where k: "k < length ev" "e = ev ! k" by (auto simp: in_set_conv_nth)
    with built have "us ! k \<in> set us" "build_evidence_from_unit sha256 manifest (us ! k) = Inr e"
      by (simp_all add: list_all2_conv_all_nth)
    then obtain u where "u \<in> set us" "build_evidence_from_unit sha256 manifest u = Inr e" by blast
    then have "u \<in> set (lc_units corpus)" "iu_document_id u \<in> allowed" using us scope by auto
    from built_evidence_verifies [OF ok this] show ?thesis
      using \<open>build_evidence_from_unit sha256 manifest u = Inr e\<close> by blast
  qed
  have handle: "dk_fault (fst (verify_handle sha256 corpus manifest allowed ev i)) = None \<longleftrightarrow>
      length (?pick i) = 1" for i
  proof (cases "length (?pick i) = 1")
    case True
    then obtain e where e: "?pick i = [e]" by (auto simp: length_Suc_conv)
    then have "e \<in> set (?pick i)" by simp
    then obtain u where "verify_disclosure sha256 corpus manifest allowed e = Inr u" using verified by auto
    with True e show ?thesis by (simp add: verify_handle_def)
  next
    case False
    then have "?pick i = [] \<or> (\<exists>e e' es. ?pick i = e # e' # es)"
      by (metis length_Cons list.exhaust list.size(3) One_nat_def)
    with False show ?thesis by (auto simp: verify_handle_def)
  qed
  have "dr_citations (verify_candidate sha256 corpus manifest allowed ev candidate) = []"
    if "\<not> result_passed (verify_candidate sha256 corpus manifest allowed ev candidate)"
    using that unfolding result_passed_iff
    by (auto simp: verify_candidate_def Let_def list_ex_iff)
  then show ?thesis by (auto simp: result_passed_iff handle picked)
qed

definition sample_unit :: index_unit where
  "sample_unit = \<lparr>iu_unit_id = ''c1'', iu_kind = ''clause'', iu_document_id = ''rfc'',
     iu_document_version = ''1'', iu_section_number = Some ''9.2'', iu_section_path = ''Methods'',
     iu_ordinal = 4, iu_text = ''GET is safe'', iu_indexed = ''9.2 Methods''\<rparr>"

definition sample_corpus :: local_corpus where
  "sample_corpus = projr (load_corpus [(''rfc'', ''h'', [sample_unit], [(Some ''9.2'', ''Methods'')])])"

definition sample_unit_evidence :: evidence where
  "sample_unit_evidence = projr (build_evidence_from_unit digest ''44'' sample_unit)"

definition sample_candidate :: compliance_candidate where
  "sample_candidate = \<lparr>cc_claim = ''GET has no side effects'', cc_proposed_verdict = Compliant,
     cc_evidence_ids = [replicate 64 (CHR ''a'')], cc_rationale = ''r''\<rparr>"

lemma sample_corpus_loaded:
  "load_corpus [(''rfc'', ''h'', [sample_unit], [(Some ''9.2'', ''Methods'')])] = Inr sample_corpus"
  by (simp add: sample_corpus_def load_corpus_def)

lemma sample_corpus_units: "lc_units sample_corpus = [sample_unit]"
  by (simp add: sample_corpus_def load_corpus_def)

lemma sample_unit_built:
  "build_evidence_from_unit digest ''44'' sample_unit = Inr sample_unit_evidence"
  by (simp add: sample_unit_evidence_def build_evidence_from_unit_def build_evidence_record_def
      sample_unit_def Let_def)

theorem verification_is_exact_witness:
  "result_passed (verify_candidate digest sample_corpus ''44'' {''rfc''} [sample_unit_evidence] sample_candidate)"
  using verification_is_exact [of sample_corpus "[sample_unit]" "{''rfc''}" digest "''44''"
      "[sample_unit_evidence]" sample_candidate]
    load_corpus_ok [OF sample_corpus_loaded]
  by (simp add: sample_corpus_units sample_unit_built)
    (simp add: sample_unit_def sample_candidate_def digest_def)

lemma sample_candidate_passes:
  "result_passed (verify_candidate digest sample_corpus ''44'' {''rfc''} [sample_unit_evidence] sample_candidate)"
proof -
  have "verify_disclosure digest sample_corpus ''44'' {''rfc''} sample_unit_evidence = Inr sample_unit"
    by (rule built_evidence_verifies [OF load_corpus_ok [OF sample_corpus_loaded] _ _ sample_unit_built])
      (simp_all add: sample_corpus_units, simp add: sample_unit_def)
  moreover have "ee_content_hash (ev_excerpt sample_unit_evidence) = replicate 64 (CHR ''a'')"
    unfolding sample_unit_evidence_def
    by (simp add: build_evidence_from_unit_def build_evidence_record_def Let_def digest_def sample_unit_def)
  ultimately show ?thesis
    by (simp add: result_passed_iff sample_candidate_def verify_handle_def)
qed

theorem passed_candidate_is_backed_witness:
  "\<exists>c. dr_citations (verify_candidate digest sample_corpus ''44'' {''rfc''} [sample_unit_evidence]
     sample_candidate) = [c] \<and> c = unit_citation digest sample_unit ''44''"
  using passed_candidate_is_backed [OF sample_candidate_passes]
  by (auto simp: sample_candidate_def list_all2_Cons1 sample_corpus_units)

end
