(* ===== verification/ToolPlans.thy ===== *)
theory ToolPlans
  imports Deterministic
begin

text \<open>
  \<open>agents/contracts.py\<close> and \<open>agents/evidence.py\<close>: the plan a model may author over the five local
  tools, its validation, and its execution within a budget of calls. The MCP client is an
  argument: what it answers may depend on every call made so far, and the calls made are kept
  in a log. Every answer is checked against the frozen corpus before it becomes evidence.
\<close>

section \<open>Plans\<close>

datatype tool_name = SearchClauses | GetClause | GetToc | ExpandReferences | LookupTerm

datatype clause_ids = DirectClauseIds "string list" | StepResultRef string nat

datatype step_args =
    SearchClausesArgs string string "string list" "string list" nat
  | GetClauseArgs string string clause_ids
  | GetTocArgs string string nat
  | ExpandReferencesArgs string string clause_ids
  | LookupTermArgs string string string

record tool_step =
  ts_step_id :: string
  ts_args :: step_args
  ts_depends_on :: "string list"

record tool_plan =
  tp_plan_id :: string
  tp_steps :: "tool_step list"

fun step_tool :: "step_args \<Rightarrow> tool_name" where
  "step_tool (SearchClausesArgs _ _ _ _ _) = SearchClauses"
| "step_tool (GetClauseArgs _ _ _) = GetClause"
| "step_tool (GetTocArgs _ _ _) = GetToc"
| "step_tool (ExpandReferencesArgs _ _ _) = ExpandReferences"
| "step_tool (LookupTermArgs _ _ _) = LookupTerm"

fun step_corpus :: "step_args \<Rightarrow> string" where
  "step_corpus (SearchClausesArgs _ c _ _ _) = c"
| "step_corpus (GetClauseArgs c _ _) = c"
| "step_corpus (GetTocArgs c _ _) = c"
| "step_corpus (ExpandReferencesArgs c _ _) = c"
| "step_corpus (LookupTermArgs c _ _) = c"

fun step_clauses :: "step_args \<Rightarrow> clause_ids option" where
  "step_clauses (GetClauseArgs _ _ cs) = Some cs"
| "step_clauses (ExpandReferencesArgs _ _ cs) = Some cs"
| "step_clauses _ = None"

fun clause_ids_valid :: "clause_ids \<Rightarrow> bool" where
  "clause_ids_valid (DirectClauseIds ids) = (1 \<le> length ids \<and> length ids \<le> 3)"
| "clause_ids_valid (StepResultRef _ take_n) = (1 \<le> take_n \<and> take_n \<le> 3)"

fun step_args_valid :: "step_args \<Rightarrow> bool" where
  "step_args_valid (SearchClausesArgs _ _ documents levels limit) =
     (1 \<le> length documents \<and> length documents \<le> 12 \<and> length levels \<le> 5 \<and> 1 \<le> limit \<and> limit \<le> 20)"
| "step_args_valid (GetClauseArgs _ _ cs) = clause_ids_valid cs"
| "step_args_valid (GetTocArgs _ _ limit) = (1 \<le> limit \<and> limit \<le> 12)"
| "step_args_valid (ExpandReferencesArgs _ _ cs) = clause_ids_valid cs"
| "step_args_valid (LookupTermArgs _ _ _) = True"

fun clauses_cost :: "clause_ids \<Rightarrow> nat" where
  "clauses_cost (DirectClauseIds ids) = length ids"
| "clauses_cost (StepResultRef _ take_n) = take_n"

definition call_cost :: "tool_step \<Rightarrow> nat" where
  "call_cost s = (case step_clauses (ts_args s) of None \<Rightarrow> 1 | Some cs \<Rightarrow> clauses_cost cs)"

definition base_call_cost :: "tool_plan \<Rightarrow> nat" where
  "base_call_cost p = (\<Sum>s\<leftarrow>tp_steps p. call_cost s)"

text \<open>One step against the identifiers of the steps before it.\<close>

definition step_dependencies_valid :: "string list \<Rightarrow> tool_step \<Rightarrow> bool" where
  "step_dependencies_valid before s \<longleftrightarrow>
     distinct (ts_depends_on s) \<and> list_all (\<lambda>d. d \<in> set before) (ts_depends_on s) \<and>
     (case step_clauses (ts_args s) of
        Some (StepResultRef r _) \<Rightarrow> r \<in> set (ts_depends_on s) \<and> r \<in> set before
      | _ \<Rightarrow> True)"

fun dependencies_valid :: "string list \<Rightarrow> tool_step list \<Rightarrow> bool" where
  "dependencies_valid before [] = True"
| "dependencies_valid before (s # ss) =
     (step_dependencies_valid before s \<and> dependencies_valid (before @ [ts_step_id s]) ss)"

definition tool_plan_valid :: "tool_plan \<Rightarrow> bool" where
  "tool_plan_valid p \<longleftrightarrow> 1 \<le> length (tp_steps p) \<and> length (tp_steps p) \<le> 4 \<and>
     list_all (\<lambda>s. step_args_valid (ts_args s)) (tp_steps p) \<and>
     distinct (map ts_step_id (tp_steps p)) \<and> dependencies_valid [] (tp_steps p)"

definition validate_tool_plan :: "nat \<Rightarrow> tool_plan \<Rightarrow> string + tool_plan" where
  "validate_tool_plan max_call_cost p =
     (if max_call_cost < base_call_cost p
      then Inl (if max_call_cost = 6 then ''tool plan may not exceed six calls''
        else ''tool plan may not exceed eight calls'')
      else Inr p)"

section \<open>Tool calls\<close>

datatype tool_args =
    SearchCall string string "string list" "string list" nat
  | ClauseCall string string string
  | TocCall string string nat
  | ReferencesCall string string "string list"
  | TermCall string string string

datatype mcp_error_code = InvalidArgument | NotFound | InvalidReference | ToolTimeout | BackendUnavailable

fun mcp_error_value :: "mcp_error_code \<Rightarrow> string" where
  "mcp_error_value InvalidArgument = ''invalid_argument''"
| "mcp_error_value NotFound = ''not_found''"
| "mcp_error_value InvalidReference = ''invalid_reference''"
| "mcp_error_value ToolTimeout = ''tool_timeout''"
| "mcp_error_value BackendUnavailable = ''backend_unavailable''"

record clause_hit =
  hit_corpus_manifest_id :: string
  hit_document_id :: string
  hit_clause_id :: string

record clause_reply =
  gc_corpus_manifest_id :: string
  gc_document_id :: string
  gc_clause_id :: string
  gc_section_number :: "string option"
  gc_section_path :: string
  gc_content_hash :: string
  gc_text :: string

text \<open>Structured content, by the result model that accepts it; \<open>Unstructured\<close> is none of them.\<close>

datatype structured =
    SearchHits "clause_hit list"
  | ClauseFound clause_reply
  | TocNodes nat
  | ReferenceIds "string list"
  | DefinitionIds "string list"
  | Unstructured

text \<open>An error without one readable detail counts as \<open>backend_unavailable\<close>.\<close>

datatype call_result = CallError "mcp_error_code option" | CallOk structured

definition call_error_code :: "call_result \<Rightarrow> string option" where
  "call_error_code r = (case r of
     CallOk _ \<Rightarrow> None
   | CallError None \<Rightarrow> Some (mcp_error_value BackendUnavailable)
   | CallError (Some c) \<Rightarrow> Some (mcp_error_value c))"

type_synonym call_log = "(tool_name \<times> tool_args) list"

record mcp_client =
  mc_reply :: "call_log \<Rightarrow> tool_name \<Rightarrow> tool_args \<Rightarrow> call_result"
  mc_duration :: "call_log \<Rightarrow> nat"

fun argument_keys :: "tool_args \<Rightarrow> string list" where
  "argument_keys (SearchCall _ _ _ _ _) =
     [''corpus_manifest_id'', ''document_ids'', ''limit'', ''normative_levels'', ''query'']"
| "argument_keys (ClauseCall _ _ _) = [''clause_id'', ''corpus_manifest_id'', ''document_id'']"
| "argument_keys (TocCall _ _ _) = [''corpus_manifest_id'', ''document_id'', ''limit'']"
| "argument_keys (ReferencesCall _ _ _) = [''clause_ids'', ''corpus_manifest_id'', ''document_id'']"
| "argument_keys (TermCall _ _ _) = [''corpus_manifest_id'', ''document_id'', ''term'']"

record tool_call_summary =
  tc_step_id :: string
  tc_tool :: tool_name
  tc_argument_keys :: "string list"
  tc_result_count :: nat
  tc_duration_ms :: nat
  tc_retry_count :: nat
  tc_error_code :: "string option"

record decoded_result =
  de_ids :: "string list"
  de_count :: nat
  de_evidence :: "evidence option"

definition dedupe_ids :: "string list \<Rightarrow> string list" where
  "dedupe_ids ids = deduplicate [] ids"

definition evidence_from_clause ::
  "(string \<Rightarrow> string) \<Rightarrow> local_corpus \<Rightarrow> string \<Rightarrow> tool_args \<Rightarrow> clause_reply \<Rightarrow> string + evidence" where
  "evidence_from_clause sha256 units corpus args r =
     (if gc_corpus_manifest_id r \<noteq> corpus \<or>
        (case args of ClauseCall _ d c \<Rightarrow> gc_document_id r \<noteq> d \<or> gc_clause_id r \<noteq> c | _ \<Rightarrow> True)
      then Inl ''invalid_tool_result_scope''
      else case resolve_unit units (gc_clause_id r) of
        None \<Rightarrow> Inl ''invalid_tool_result_scope''
      | Some u \<Rightarrow>
          if iu_document_id u \<noteq> gc_document_id r \<or> iu_section_number u \<noteq> gc_section_number r \<or>
            iu_section_path u \<noteq> gc_section_path r \<or> iu_text u \<noteq> gc_text r \<or>
            sha256 (iu_text u) \<noteq> gc_content_hash r
          then Inl ''invalid_tool_result''
          else (case build_evidence_from_unit sha256 corpus u of
              Inl _ \<Rightarrow> Inl ''value_error''
            | Inr e \<Rightarrow> Inr e))"

definition decode_success ::
  "(string \<Rightarrow> string) \<Rightarrow> local_corpus \<Rightarrow> string \<Rightarrow> tool_name \<Rightarrow> tool_args \<Rightarrow> structured \<Rightarrow>
   string + decoded_result" where
  "decode_success sha256 units corpus tool args s =
     (case (tool, s) of
        (SearchClauses, SearchHits hits) \<Rightarrow>
          if list_ex (\<lambda>h. hit_corpus_manifest_id h \<noteq> corpus \<or>
            (case args of SearchCall _ _ documents _ _ \<Rightarrow> hit_document_id h \<notin> set documents
             | _ \<Rightarrow> True)) hits
          then Inl ''invalid_tool_result_scope''
          else Inr \<lparr>de_ids = dedupe_ids (map hit_clause_id hits), de_count = length hits, de_evidence = None\<rparr>
      | (GetClause, ClauseFound r) \<Rightarrow>
          bind_result (evidence_from_clause sha256 units corpus args r) (\<lambda>e.
            Inr \<lparr>de_ids = [gc_clause_id r], de_count = 1, de_evidence = Some e\<rparr>)
      | (GetToc, TocNodes n) \<Rightarrow> Inr \<lparr>de_ids = [], de_count = n, de_evidence = None\<rparr>
      | (ExpandReferences, ReferenceIds ids) \<Rightarrow>
          Inr \<lparr>de_ids = dedupe_ids ids, de_count = length ids, de_evidence = None\<rparr>
      | (LookupTerm, DefinitionIds ids) \<Rightarrow>
          Inr \<lparr>de_ids = dedupe_ids ids, de_count = length ids, de_evidence = None\<rparr>
      | _ \<Rightarrow> Inl ''invalid_tool_result'')"

text \<open>\<open>_dedupe_evidence\<close>: the first of each clause and of each text.\<close>

fun dedupe_evidence_from :: "string list \<Rightarrow> string list \<Rightarrow> evidence list \<Rightarrow> evidence list" where
  "dedupe_evidence_from clauses texts [] = []"
| "dedupe_evidence_from clauses texts (e # es) =
     (let d = ev_disclosed e in
      if dc_clause_id d \<in> set clauses \<or> dc_content_hash d \<in> set texts
      then dedupe_evidence_from clauses texts es
      else e # dedupe_evidence_from (dc_clause_id d # clauses) (dc_content_hash d # texts) es)"

definition dedupe_evidence :: "evidence list \<Rightarrow> evidence list" where
  "dedupe_evidence es = dedupe_evidence_from [] [] es"

section \<open>Execution\<close>

definition invocations ::
  "tool_step \<Rightarrow> (string \<rightharpoonup> string list) \<Rightarrow> tool_args list option" where
  "invocations s outputs =
     (let ids = (\<lambda>cs. case cs of
          DirectClauseIds ids \<Rightarrow> Some (dedupe_ids ids)
        | StepResultRef r n \<Rightarrow>
            (case take n (case outputs r of None \<Rightarrow> [] | Some is \<Rightarrow> is) of
               [] \<Rightarrow> None | is \<Rightarrow> Some is)) in
      case ts_args s of
        SearchClausesArgs q c ds ls n \<Rightarrow> Some [SearchCall q c ds ls n]
      | GetTocArgs c d n \<Rightarrow> Some [TocCall c d n]
      | LookupTermArgs c d t \<Rightarrow> Some [TermCall c d t]
      | GetClauseArgs c d cs \<Rightarrow> map_option (map (ClauseCall c d)) (ids cs)
      | ExpandReferencesArgs c d cs \<Rightarrow> map_option (map (\<lambda>i. ReferencesCall c d [i])) (ids cs))"

text \<open>
  The \<open>while\<close> around one invocation: an answer ends it, a first timeout repeats it while the
  budget lasts. The result is what was decoded or the terminal error, the retries and the calls
  made; \<open>Inl\<close> is the integrity failure that leaves \<open>collect\<close>.
\<close>

function call_loop ::
  "(structured \<Rightarrow> string + decoded_result) \<Rightarrow> mcp_client \<Rightarrow> nat \<Rightarrow> tool_name \<Rightarrow> tool_args \<Rightarrow>
   nat \<Rightarrow> string \<Rightarrow> nat \<Rightarrow> call_log \<Rightarrow>
   (string + (string + decoded_result) \<times> nat) \<times> nat \<times> call_log" where
  "call_loop decode client budget tool args retries terminal attempts calls =
     (if attempts < budget
      then
        let result = mc_reply client calls tool args; calls' = calls @ [(tool, args)] in
        (case (call_error_code result, result) of
           (None, CallOk s) \<Rightarrow>
             (case decode s of
                Inl e \<Rightarrow> (Inl e, Suc attempts, calls')
              | Inr d \<Rightarrow> (Inr (Inr d, retries), Suc attempts, calls'))
         | (Some e, _) \<Rightarrow>
             if e = mcp_error_value ToolTimeout \<and> retries = 0 \<and> Suc attempts < budget
             then call_loop decode client budget tool args 1 e (Suc attempts) calls'
             else (Inr (Inl e, retries), Suc attempts, calls')
         | _ \<Rightarrow> (Inr (Inl terminal, retries), Suc attempts, calls'))
      else (Inr (Inl terminal, retries), attempts, calls))"
  by pat_completeness auto
termination
  by (relation "measure (\<lambda>(d, c, budget, t, a, r, m, attempts, l). budget - attempts)") auto

declare call_loop.simps [simp del]

record agent_state =
  as_evidence :: "evidence list"
  as_calls :: "tool_call_summary list"
  as_attempts :: nat
  as_log :: call_log

text \<open>
  The inner \<open>for\<close>: the invocations of one step. \<open>Some ids\<close> is what the step found; \<open>None\<close> ends the
  collection with what there is.
\<close>

fun run_invocations ::
  "(tool_args \<Rightarrow> structured \<Rightarrow> string + decoded_result) \<Rightarrow> mcp_client \<Rightarrow> nat \<Rightarrow> tool_step \<Rightarrow>
   tool_args list \<Rightarrow> string list \<Rightarrow> agent_state \<Rightarrow> (string + string list option) \<times> agent_state" where
  "run_invocations decode client budget s [] step_ids st = (Inr (Some step_ids), st)"
| "run_invocations decode client budget s (args # rest) step_ids st =
     (let tool = step_tool (ts_args s) in
      case call_loop (decode args) client budget tool args 0
          (if budget \<le> as_attempts st then ''tool_call_budget_exceeded'' else [])
          (as_attempts st) (as_log st) of
        (Inl e, attempts, calls) \<Rightarrow> (Inl e, st\<lparr>as_attempts := attempts, as_log := calls\<rparr>)
      | (Inr (outcome, retries), attempts, calls) \<Rightarrow>
          let summary = \<lparr>tc_step_id = ts_step_id s, tc_tool = tool, tc_argument_keys = argument_keys args,
                tc_result_count = (case outcome of Inl _ \<Rightarrow> 0 | Inr d \<Rightarrow> de_count d),
                tc_duration_ms = mc_duration client calls, tc_retry_count = retries,
                tc_error_code = (case outcome of Inl e \<Rightarrow> Some e | Inr _ \<Rightarrow> None)\<rparr>;
              st1 = st\<lparr>as_calls := as_calls st @ [summary], as_attempts := attempts, as_log := calls\<rparr> in
          (case outcome of
             Inl _ \<Rightarrow> (Inr None, st1)
           | Inr d \<Rightarrow>
               run_invocations decode client budget s rest (step_ids @ de_ids d)
                 (st1\<lparr>as_evidence := as_evidence st1 @
                   (case de_evidence d of None \<Rightarrow> [] | Some e \<Rightarrow> [e])\<rparr>)))"

definition unresolved_summary :: "tool_step \<Rightarrow> tool_call_summary" where
  "unresolved_summary s = \<lparr>tc_step_id = ts_step_id s, tc_tool = step_tool (ts_args s),
     tc_argument_keys = (case ts_args s of
         SearchClausesArgs _ _ _ _ _ \<Rightarrow>
           [''corpus_manifest_id'', ''document_ids'', ''limit'', ''normative_levels'', ''query'']
       | GetClauseArgs _ _ _ \<Rightarrow> [''clauses'', ''corpus_manifest_id'', ''document_id'']
       | GetTocArgs _ _ _ \<Rightarrow> [''corpus_manifest_id'', ''document_id'', ''limit'']
       | ExpandReferencesArgs _ _ _ \<Rightarrow> [''clauses'', ''corpus_manifest_id'', ''document_id'']
       | LookupTermArgs _ _ _ \<Rightarrow> [''corpus_manifest_id'', ''document_id'', ''term'']),
     tc_result_count = 0, tc_duration_ms = 0, tc_retry_count = 0,
     tc_error_code = Some ''invalid_reference''\<rparr>"

fun run_steps ::
  "(tool_step \<Rightarrow> tool_args \<Rightarrow> structured \<Rightarrow> string + decoded_result) \<Rightarrow> mcp_client \<Rightarrow> nat \<Rightarrow>
   tool_step list \<Rightarrow> (string \<rightharpoonup> string list) \<Rightarrow> agent_state \<Rightarrow> (string + unit) \<times> agent_state" where
  "run_steps decode client budget [] outputs st = (Inr (), st)"
| "run_steps decode client budget (s # ss) outputs st =
     (case invocations s outputs of
        None \<Rightarrow> (Inr (), st\<lparr>as_calls := as_calls st @ [unresolved_summary s]\<rparr>)
      | Some argss \<Rightarrow>
          (case run_invocations (decode s) client budget s argss [] st of
             (Inl e, st1) \<Rightarrow> (Inl e, st1)
           | (Inr None, st1) \<Rightarrow> (Inr (), st1)
           | (Inr (Some ids), st1) \<Rightarrow>
               run_steps decode client budget ss (outputs(ts_step_id s \<mapsto> dedupe_ids ids)) st1))"

record evidence_result =
  er_evidence :: "evidence list"
  er_calls :: "tool_call_summary list"
  er_attempts_used :: nat

text \<open>\<open>EvidenceAgent.collect\<close>: its result or its exception, and the calls that were made.\<close>

definition collect_evidence ::
  "(string \<Rightarrow> string) \<Rightarrow> mcp_client \<Rightarrow> local_corpus \<Rightarrow> tool_plan \<Rightarrow> string \<Rightarrow> nat \<Rightarrow> nat \<Rightarrow>
   (string + evidence_result) \<times> call_log" where
  "collect_evidence sha256 client units plan corpus budget used =
     (if budget < used then (Inl ''tool_call_budget_exceeded'', [])
      else case validate_tool_plan budget plan of
        Inl e \<Rightarrow> (Inl e, [])
      | Inr bounded \<Rightarrow>
          if budget - used < base_call_cost bounded then (Inl ''tool_call_budget_exceeded'', [])
          else if list_ex (\<lambda>s. step_corpus (ts_args s) \<noteq> corpus) (tp_steps bounded)
          then (Inl ''invalid_corpus_scope'', [])
          else case run_steps (\<lambda>s. decode_success sha256 units corpus (step_tool (ts_args s))) client budget
              (tp_steps bounded) Map.empty
              \<lparr>as_evidence = [], as_calls = [], as_attempts = used, as_log = []\<rparr> of
            (Inl e, st) \<Rightarrow> (Inl e, as_log st)
          | (Inr _, st) \<Rightarrow> (Inr \<lparr>er_evidence = dedupe_evidence (as_evidence st), er_calls = as_calls st,
              er_attempts_used = as_attempts st\<rparr>, as_log st))"

end
