(* ===== verification/EvidenceAgent.thy ===== *)
theory EvidenceAgent
  imports ToolPlans
begin

text \<open>
  What a collection guarantees: it never makes more calls than its budget, whatever the tools
  answer, and what it returns is evidence that the deterministic verifier accepts.
\<close>

section \<open>Plans\<close>

lemma validate_tool_plan_Inr:
  "validate_tool_plan n p = Inr q \<longleftrightarrow> q = p \<and> base_call_cost p \<le> n"
  by (auto simp: validate_tool_plan_def)

lemma dependencies_valid_nth:
  "dependencies_valid before ss \<Longrightarrow> i < length ss \<Longrightarrow>
    step_dependencies_valid (before @ map ts_step_id (take i ss)) (ss ! i)"
proof (induction before ss arbitrary: i rule: dependencies_valid.induct)
  case (2 before s ss)
  then show ?case by (cases i) auto
qed simp

text \<open>
  A valid plan can be run in order: at most four steps, each drawing at most three clauses,
  every dependency and every result it draws from belongs to an earlier step, and its cost is
  at most twelve calls before the budget of six or eight is applied.
\<close>

theorem valid_plan_is_ordered:
  assumes "tool_plan_valid p"
  shows "length (tp_steps p) \<le> 4 \<and> base_call_cost p \<le> 12 \<and>
    (\<forall>i < length (tp_steps p). \<forall>d \<in> set (ts_depends_on (tp_steps p ! i)).
      \<exists>j < i. ts_step_id (tp_steps p ! j) = d) \<and>
    (\<forall>i < length (tp_steps p). \<forall>r n. step_clauses (ts_args (tp_steps p ! i)) = Some (StepResultRef r n) \<longrightarrow>
      (\<exists>j < i. ts_step_id (tp_steps p ! j) = r))"
proof -
  from assms have steps: "length (tp_steps p) \<le> 4" "\<forall>s \<in> set (tp_steps p). step_args_valid (ts_args s)"
    "dependencies_valid [] (tp_steps p)" by (simp_all add: tool_plan_valid_def list_all_iff)
  have "call_cost s \<le> 3" if "step_args_valid (ts_args s)" for s
  proof -
    have "clauses_cost cs \<le> 3" if "clause_ids_valid cs" for cs using that by (cases cs) auto
    with that show ?thesis by (cases "ts_args s") (simp_all add: call_cost_def)
  qed
  with steps(2) have "\<And>c. c \<in> set (map call_cost (tp_steps p)) \<Longrightarrow> c \<le> 3" by auto
  from sum_list_mono [of "tp_steps p" call_cost "\<lambda>_. 3"] this
  have "base_call_cost p \<le> length (tp_steps p) * 3"
    by (simp add: base_call_cost_def sum_list_triv)
  with steps(1) have cost: "base_call_cost p \<le> 12" by linarith
  have prior: "\<exists>j < i. ts_step_id (tp_steps p ! j) = d"
    if "i < length (tp_steps p)" "d \<in> set (map ts_step_id (take i (tp_steps p)))" for i d
  proof -
    from that obtain j where "j < i" "ts_step_id (tp_steps p ! j) = d" by (auto simp: in_set_conv_nth)
    then show ?thesis by blast
  qed
  have dep: "step_dependencies_valid (map ts_step_id (take i (tp_steps p))) (tp_steps p ! i)"
    if "i < length (tp_steps p)" for i
    using dependencies_valid_nth [OF steps(3) that] by simp
  have "\<exists>j < i. ts_step_id (tp_steps p ! j) = d"
    if "i < length (tp_steps p)" "d \<in> set (ts_depends_on (tp_steps p ! i))" for i d
    using dep [OF that(1)] that by (intro prior) (auto simp: step_dependencies_valid_def list_all_iff)
  moreover have "\<exists>j < i. ts_step_id (tp_steps p ! j) = r"
    if "i < length (tp_steps p)" "step_clauses (ts_args (tp_steps p ! i)) = Some (StepResultRef r n)" for i r n
    using dep [OF that(1)] that by (intro prior) (auto simp: step_dependencies_valid_def)
  ultimately show ?thesis using steps(1) cost by blast
qed

section \<open>Calls\<close>

text \<open>One invocation makes at most two calls, never past the budget, and logs each.\<close>

lemma call_loop_calls:
  assumes "call_loop decode client budget tool args retries terminal attempts calls = (r, attempts', calls')"
    and "attempts \<le> budget"
  shows "attempts \<le> attempts' \<and> attempts' \<le> budget \<and>
    attempts' \<le> attempts + (if retries = 0 then 2 else 1) \<and>
    calls' = calls @ replicate (attempts' - attempts) (tool, args)"
  using assms
proof (induction decode client budget tool args retries terminal attempts calls rule: call_loop.induct)
  case (1 decode client budget tool args retries terminal attempts calls)
  let ?result = "mc_reply client calls tool args"
  show ?case
  proof (cases "attempts < budget")
    case False
    with 1(2,3) show ?thesis by (simp add: call_loop.simps)
  next
    case True
    consider (again) e where "call_error_code ?result = Some e"
        "e = mcp_error_value ToolTimeout \<and> retries = 0 \<and> Suc attempts < budget"
      | (ended) "attempts' = Suc attempts" "calls' = calls @ [(tool, args)]"
      using 1(2) True
      by (subst (asm) call_loop.simps)
        (auto simp: Let_def split: option.splits call_result.splits sum.splits if_splits)
    then show ?thesis
    proof cases
      case again
      then have "call_loop decode client budget tool args 1 e (Suc attempts) (calls @ [(tool, args)]) =
          (r, attempts', calls')"
        using 1(2) True by (subst (asm) call_loop.simps) (simp add: Let_def)
      with 1(1) [OF True refl refl refl again] again(2) True
      have "Suc attempts \<le> attempts' \<and> attempts' \<le> budget \<and> attempts' \<le> Suc attempts + 1 \<and>
          calls' = (calls @ [(tool, args)]) @ replicate (attempts' - Suc attempts) (tool, args)" by auto
      with again(2) show ?thesis
        by (auto simp: Suc_diff_Suc less_eq_Suc_le replicate_append_same
            simp flip: replicate_Suc)
    next
      case ended
      with True show ?thesis by simp
    qed
  qed
qed

lemma call_loop_decoded:
  assumes "call_loop decode client budget tool args retries terminal attempts calls =
      (Inr (Inr d, n), attempts', calls')"
  shows "\<exists>s. decode s = Inr d"
  using assms
proof (induction decode client budget tool args retries terminal attempts calls rule: call_loop.induct)
  case (1 decode client budget tool args retries terminal attempts calls)
  let ?result = "mc_reply client calls tool args"
  show ?case
  proof (cases "\<exists>s. decode s = Inr d")
    case False
    with 1(2) obtain e where "attempts < budget" and again: "call_error_code ?result = Some e"
      "e = mcp_error_value ToolTimeout \<and> retries = 0 \<and> Suc attempts < budget"
      by (subst (asm) call_loop.simps)
        (auto simp: Let_def split: option.splits call_result.splits sum.splits if_splits)
    from 1(2) this have "call_loop decode client budget tool args 1 e (Suc attempts) (calls @ [(tool, args)]) =
        (Inr (Inr d, n), attempts', calls')"
      by (subst (asm) call_loop.simps) (simp add: Let_def)
    from 1(1) [OF \<open>attempts < budget\<close> refl refl refl again this] show ?thesis .
  qed
qed

section \<open>Runs\<close>

fun tool_args_corpus :: "tool_args \<Rightarrow> string" where
  "tool_args_corpus (SearchCall _ c _ _ _) = c"
| "tool_args_corpus (ClauseCall c _ _) = c"
| "tool_args_corpus (TocCall c _ _) = c"
| "tool_args_corpus (ReferencesCall c _ _) = c"
| "tool_args_corpus (TermCall c _ _) = c"

fun fetched_documents :: "step_args \<Rightarrow> string list" where
  "fetched_documents (GetClauseArgs _ d _) = [d]"
| "fetched_documents _ = []"

definition plan_documents :: "tool_plan \<Rightarrow> string list" where
  "plan_documents p = concat (map (\<lambda>s. fetched_documents (ts_args s)) (tp_steps p))"

fun call_documents :: "tool_args \<Rightarrow> string list" where
  "call_documents (ClauseCall _ d _) = [d]"
| "call_documents _ = []"

text \<open>What every state of a collection satisfies, given the documents its plan fetches from.\<close>

definition collection_inv ::
  "(string \<Rightarrow> string) \<Rightarrow> local_corpus \<Rightarrow> string \<Rightarrow> string list \<Rightarrow> nat \<Rightarrow> nat \<Rightarrow> agent_state \<Rightarrow> bool" where
  "collection_inv sha256 units corpus documents budget used st \<longleftrightarrow>
     as_attempts st \<le> budget \<and> as_attempts st = used + length (as_log st) \<and>
     (\<forall>c \<in> set (as_log st). tool_args_corpus (snd c) = corpus) \<and>
     (\<forall>e \<in> set (as_evidence st). \<exists>u \<in> set (lc_units units). iu_document_id u \<in> set documents \<and>
       build_evidence_from_unit sha256 corpus u = Inr e)"

lemma evidence_from_clause_built:
  assumes "evidence_from_clause sha256 units corpus args r = Inr e"
  shows "\<exists>u \<in> set (lc_units units). iu_document_id u \<in> set (call_documents args) \<and>
    build_evidence_from_unit sha256 corpus u = Inr e"
  using assms
  by (cases args) (auto simp: evidence_from_clause_def split: if_splits option.splits sum.splits
      dest: resolve_unit_Some)

lemma decode_success_built:
  assumes "decode_success sha256 units corpus tool args s = Inr d" and "de_evidence d = Some e"
  shows "\<exists>u \<in> set (lc_units units). iu_document_id u \<in> set (call_documents args) \<and>
    build_evidence_from_unit sha256 corpus u = Inr e"
  using assms evidence_from_clause_built [of sha256 units corpus args]
  by (cases tool; cases s) (auto simp: decode_success_def bind_result_Inr split: if_splits sum.splits)

lemma invocations_scope:
  assumes "invocations s outputs = Some argss" and "args \<in> set argss"
  shows "tool_args_corpus args = step_corpus (ts_args s) \<and>
    set (call_documents args) \<subseteq> set (fetched_documents (ts_args s))"
  using assms by (cases "ts_args s") (auto simp: invocations_def Let_def)

lemma run_invocations_inv:
  assumes "run_invocations (decode_success sha256 units corpus tool) client budget s argss ids st = (r, st')"
    and "collection_inv sha256 units corpus documents budget used st"
    and "\<And>args. args \<in> set argss \<Longrightarrow> tool_args_corpus args = corpus \<and> set (call_documents args) \<subseteq> set documents"
  shows "collection_inv sha256 units corpus documents budget used st'"
  using assms
proof (induction argss arbitrary: ids st)
  case Nil
  then show ?case by simp
next
  case (Cons args argss)
  let ?decode = "decode_success sha256 units corpus tool"
  obtain outcome attempts calls where loop:
    "call_loop (?decode args) client budget (step_tool (ts_args s)) args 0
      (if budget \<le> as_attempts st then ''tool_call_budget_exceeded'' else [])
      (as_attempts st) (as_log st) = (outcome, attempts, calls)" by (metis prod_cases3)
  from Cons.prems(2) have inv: "as_attempts st \<le> budget" "as_attempts st = used + length (as_log st)"
    "\<forall>c \<in> set (as_log st). tool_args_corpus (snd c) = corpus"
    "\<forall>e \<in> set (as_evidence st). \<exists>u \<in> set (lc_units units). iu_document_id u \<in> set documents \<and>
       build_evidence_from_unit sha256 corpus u = Inr e" by (auto simp: collection_inv_def)
  have scope: "tool_args_corpus args = corpus" "set (call_documents args) \<subseteq> set documents"
    using Cons.prems(3) by auto
  from call_loop_calls [OF loop inv(1)]
  have counts: "as_attempts st \<le> attempts" "attempts \<le> budget"
    "calls = as_log st @ replicate (attempts - as_attempts st) (step_tool (ts_args s), args)" by auto
  then have counted: "attempts = used + length calls" "\<forall>c \<in> set calls. tool_args_corpus (snd c) = corpus"
    using inv(2,3) scope(1) by auto
  show ?case
  proof (cases outcome)
    case (Inl e)
    with Cons.prems(1) loop have "st' = st\<lparr>as_attempts := attempts, as_log := calls\<rparr>" by simp
    with inv(4) counts(2) counted show ?thesis by (simp add: collection_inv_def)
  next
    case (Inr answer)
    then obtain decoded n where outcome: "outcome = Inr (decoded, n)" by (cases answer) auto
    show ?thesis
    proof (cases decoded)
      case (Inl e)
      with Cons.prems(1) loop outcome counts(2) counted inv(4) show ?thesis
        by (auto simp: collection_inv_def)
    next
      case (Inr d)
      from call_loop_decoded [of "?decode args"] loop outcome Inr
      obtain x where "?decode args x = Inr d" by metis
      then have new: "\<exists>u \<in> set (lc_units units). iu_document_id u \<in> set documents \<and>
          build_evidence_from_unit sha256 corpus u = Inr e" if "de_evidence d = Some e" for e
        using decode_success_built [OF _ that] scope(2) by blast
      from Cons.prems(1) loop outcome Inr obtain ids2 st2
        where st2: "run_invocations ?decode client budget s argss ids2 st2 = (r, st')"
          "as_attempts st2 = attempts" "as_log st2 = calls"
          "as_evidence st2 = as_evidence st @ (case de_evidence d of None \<Rightarrow> [] | Some e \<Rightarrow> [e])"
        by (auto simp: Let_def)
      with inv(4) new counts(2) counted
      have "collection_inv sha256 units corpus documents budget used st2"
        by (auto simp: collection_inv_def split: option.splits)
      from Cons.IH [OF st2(1) this] Cons.prems(3) show ?thesis by simp
    qed
  qed
qed

lemma run_steps_inv:
  assumes "run_steps (\<lambda>s. decode_success sha256 units corpus (step_tool (ts_args s))) client budget ss outputs st =
      (r, st')"
    and "collection_inv sha256 units corpus documents budget used st"
    and "\<And>s. s \<in> set ss \<Longrightarrow> step_corpus (ts_args s) = corpus \<and> set (fetched_documents (ts_args s)) \<subseteq> set documents"
  shows "collection_inv sha256 units corpus documents budget used st'"
  using assms
proof (induction ss arbitrary: outputs st)
  case Nil
  then show ?case by simp
next
  case (Cons s ss)
  let ?decode = "\<lambda>s. decode_success sha256 units corpus (step_tool (ts_args s))"
  show ?case
  proof (cases "invocations s outputs")
    case None
    with Cons.prems show ?thesis by (auto simp: collection_inv_def)
  next
    case (Some argss)
    obtain found st1 where run: "run_invocations (?decode s) client budget s argss [] st = (found, st1)"
      by fastforce
    have scope: "tool_args_corpus args = corpus \<and> set (call_documents args) \<subseteq> set documents"
      if "args \<in> set argss" for args
      using invocations_scope [OF Some that] Cons.prems(3) [of s] by auto
    have inv: "collection_inv sha256 units corpus documents budget used st1"
      by (rule run_invocations_inv [OF run Cons.prems(2) scope])
    show ?thesis
      using Cons.prems(1,3) Some run inv
      by (auto split: sum.splits option.splits intro: Cons.IH [OF _ inv])
  qed
qed

section \<open>Collections\<close>

lemma dedupe_evidence_from_set:
  "x \<in> set (dedupe_evidence_from cs ts es) \<Longrightarrow>
    x \<in> set es \<and> dc_clause_id (ev_disclosed x) \<notin> set cs \<and> dc_content_hash (ev_disclosed x) \<notin> set ts"
  by (induction cs ts es rule: dedupe_evidence_from.induct) (auto simp: Let_def split: if_splits)

lemma dedupe_evidence_from_distinct:
  "distinct (map (dc_clause_id \<circ> ev_disclosed) (dedupe_evidence_from cs ts es)) \<and>
   distinct (map (dc_content_hash \<circ> ev_disclosed) (dedupe_evidence_from cs ts es))"
  by (induction cs ts es rule: dedupe_evidence_from.induct)
    (auto simp: Let_def dest: dedupe_evidence_from_set)

lemma dedupe_evidence_subset: "set (dedupe_evidence es) \<subseteq> set es"
  unfolding dedupe_evidence_def using dedupe_evidence_from_set by blast

lemma collect_evidence_run:
  assumes "collect_evidence sha256 client units plan corpus budget used = (outcome, calls)"
  obtains (refused) e where "outcome = Inl e" "calls = []"
  | (ran) r :: "string + unit" and st where "used \<le> budget" "collection_inv sha256 units corpus (plan_documents plan) budget used st"
      "calls = as_log st" "outcome = (case r of Inl e \<Rightarrow> Inl e | Inr _ \<Rightarrow>
        Inr \<lparr>er_evidence = dedupe_evidence (as_evidence st), er_calls = as_calls st,
          er_attempts_used = as_attempts st\<rparr>)"
proof -
  let ?s0 = "\<lparr>as_evidence = [], as_calls = [], as_attempts = used, as_log = []\<rparr>"
  let ?run = "run_steps (\<lambda>s. decode_success sha256 units corpus (step_tool (ts_args s))) client budget
      (tp_steps plan) Map.empty ?s0"
  obtain r st where run: "?run = (r, st)" by fastforce
  show thesis
  proof (cases "used \<le> budget \<and> base_call_cost plan \<le> budget \<and> base_call_cost plan \<le> budget - used \<and>
      (\<forall>s \<in> set (tp_steps plan). step_corpus (ts_args s) = corpus)")
    case False
    with assms refused show thesis
      by (auto simp: collect_evidence_def validate_tool_plan_def list_ex_iff split: if_splits)
  next
    case True
    then have "collection_inv sha256 units corpus (plan_documents plan) budget used ?s0"
      by (simp add: collection_inv_def)
    from run_steps_inv [OF run this] True
    have "collection_inv sha256 units corpus (plan_documents plan) budget used st"
      by (auto simp: plan_documents_def)
    with True show thesis
      by (intro ran [of st r])
        (use assms run in \<open>auto simp: collect_evidence_def validate_tool_plan_def list_ex_iff split: sum.splits\<close>)
  qed
qed

text \<open>
  A collection keeps to its budget whatever the tools answer. The calls it makes, retries
  included, never exceed what was left of the budget; the number it reports is exactly what was
  used before plus the calls it made; every call carries the run's corpus identifier; and when
  it is refused before the first step, or fails, nothing it could return is kept.
\<close>

theorem collection_stays_in_budget:
  assumes "collect_evidence sha256 client units plan corpus budget used = (outcome, calls)"
  shows "length calls \<le> budget - used \<and>
    list_all (\<lambda>(tool, args). tool_args_corpus args = corpus) calls \<and>
    (case outcome of Inl _ \<Rightarrow> True
     | Inr r \<Rightarrow> er_attempts_used r = used + length calls \<and> er_attempts_used r \<le> budget)"
  using assms
proof (cases rule: collect_evidence_run)
  case (ran r st)
  from ran(1-3) have "length calls \<le> budget - used" "as_attempts st = used + length calls" "as_attempts st \<le> budget"
    "\<forall>c \<in> set calls. tool_args_corpus (snd c) = corpus" by (auto simp: collection_inv_def)
  with ran(4) show ?thesis by (auto simp: list_all_iff split: sum.splits)
qed simp

text \<open>
  What a collection returns can always be cited. Whatever the tools answered, every piece
  of evidence is the one that a unit of the frozen corpus yields, in a document the plan
  fetched from; the deterministic verifier accepts it under that scope; and no two share a
  clause or a text, so no candidate over them is ambiguous.
\<close>

theorem collected_evidence_verifies:
  assumes ok: "corpus_ok units"
    and run: "collect_evidence sha256 client units plan corpus budget used = (Inr r, calls)"
  shows "list_all (\<lambda>e. \<exists>u \<in> set (lc_units units).
      verify_disclosure sha256 units corpus (set (plan_documents plan)) e = Inr u) (er_evidence r) \<and>
    distinct (map (dc_clause_id \<circ> ev_disclosed) (er_evidence r)) \<and>
    distinct (map (dc_content_hash \<circ> ev_disclosed) (er_evidence r))"
  using run
proof (cases rule: collect_evidence_run)
  case (ran x st)
  then have r: "er_evidence r = dedupe_evidence (as_evidence st)" by (auto split: sum.splits)
  have "\<exists>u \<in> set (lc_units units).
      verify_disclosure sha256 units corpus (set (plan_documents plan)) e = Inr u"
    if "e \<in> set (er_evidence r)" for e
  proof -
    from that r dedupe_evidence_subset have "e \<in> set (as_evidence st)" by auto
    with ran(2) obtain u where "u \<in> set (lc_units units)" "iu_document_id u \<in> set (plan_documents plan)"
      "build_evidence_from_unit sha256 corpus u = Inr e" by (auto simp: collection_inv_def)
    with ok show ?thesis by (blast intro: built_evidence_verifies)
  qed
  then show ?thesis
    using dedupe_evidence_from_distinct [of "[]" "[]" "as_evidence st"]
    by (simp add: list_all_iff r dedupe_evidence_def)
qed simp

section \<open>A concrete collection\<close>

text \<open>A search and the clause it finds, from a server whose first answer is a timeout.\<close>

definition sample_plan :: tool_plan where
  "sample_plan = \<lparr>tp_plan_id = ''p1'', tp_steps = [
     \<lparr>ts_step_id = ''s1'', ts_args = SearchClausesArgs ''safe methods'' ''44'' [''rfc''] [] 5, ts_depends_on = []\<rparr>,
     \<lparr>ts_step_id = ''s2'', ts_args = GetClauseArgs ''44'' ''rfc'' (StepResultRef ''s1'' 2),
       ts_depends_on = [''s1'']\<rparr>]\<rparr>"

definition sample_client :: mcp_client where
  "sample_client = \<lparr>mc_reply = (\<lambda>calls tool args. if calls = [] then CallError (Some ToolTimeout)
     else if tool = SearchClauses then CallOk (SearchHits
       [\<lparr>hit_corpus_manifest_id = ''44'', hit_document_id = ''rfc'', hit_clause_id = ''c1''\<rparr>])
     else CallOk (ClauseFound \<lparr>gc_corpus_manifest_id = ''44'', gc_document_id = ''rfc'', gc_clause_id = ''c1'',
       gc_section_number = iu_section_number sample_unit, gc_section_path = iu_section_path sample_unit,
       gc_content_hash = digest (iu_text sample_unit), gc_text = iu_text sample_unit\<rparr>)),
     mc_duration = (\<lambda>_. 0)\<rparr>"

lemma sample_resolve: "resolve_unit sample_corpus ''c1'' = Some sample_unit"
  by (simp add: resolve_unit_def sample_corpus_units sample_unit_def)

lemma sample_clause_decodes:
  "evidence_from_clause digest sample_corpus ''44'' (ClauseCall ''44'' ''rfc'' ''c1'')
     \<lparr>gc_corpus_manifest_id = ''44'', gc_document_id = ''rfc'', gc_clause_id = ''c1'',
       gc_section_number = iu_section_number sample_unit, gc_section_path = iu_section_path sample_unit,
       gc_content_hash = digest (iu_text sample_unit), gc_text = iu_text sample_unit\<rparr> =
   Inr sample_unit_evidence"
  unfolding evidence_from_clause_def
  by (simp add: sample_resolve sample_unit_built) (simp add: sample_unit_def)

lemma sample_collection:
  "\<exists>r. collect_evidence digest sample_client sample_corpus sample_plan ''44'' 6 0 =
     (Inr r, [(SearchClauses, SearchCall ''safe methods'' ''44'' [''rfc''] [] 5),
       (SearchClauses, SearchCall ''safe methods'' ''44'' [''rfc''] [] 5),
       (GetClause, ClauseCall ''44'' ''rfc'' ''c1'')]) \<and> er_evidence r = [sample_unit_evidence]"
  by (simp add: collect_evidence_def validate_tool_plan_def sample_plan_def base_call_cost_def call_cost_def
      invocations_def call_loop.simps sample_client_def call_error_code_def decode_success_def dedupe_ids_def
      sample_clause_decodes dedupe_evidence_def del: mcp_error_value.simps(5))

theorem valid_plan_is_ordered_witness:
  "\<exists>j < 1. ts_step_id (tp_steps sample_plan ! j) = ''s1''"
proof -
  have "tool_plan_valid sample_plan"
    by (simp add: sample_plan_def tool_plan_valid_def step_dependencies_valid_def)
  from valid_plan_is_ordered [OF this] show ?thesis
    by (simp add: sample_plan_def)
qed

theorem collection_stays_in_budget_witness:
  "length (snd (collect_evidence digest sample_client sample_corpus sample_plan ''44'' 6 0)) \<le> 6"
  using collection_stays_in_budget [of digest sample_client sample_corpus sample_plan "''44''" 6 0]
    sample_collection by auto

theorem collected_evidence_verifies_witness:
  "\<exists>u. verify_disclosure digest sample_corpus ''44'' {''rfc''} sample_unit_evidence = Inr u"
  using sample_collection
    collected_evidence_verifies [OF load_corpus_ok [OF sample_corpus_loaded],
      of digest sample_client sample_plan "''44''" 6 0]
  by (auto simp: plan_documents_def sample_plan_def)

end
