(* ===== verification/Recovery.thy ===== *)
theory Recovery
  imports EvidenceAgent
begin

text \<open>
  \<open>verifier/recovery.py\<close>: the one evidence recovery that a closed verifier fault may cause, as
  \<open>api/runtime.py\<close> builds it for a run. It makes at most two calls, against the same budget of
  eight as the collection before it, and takes back only clauses of the frozen corpus in the
  documents of the run.
\<close>

section \<open>Reasons and requests\<close>

fun fault_value :: "deterministic_fault \<Rightarrow> string" where
  "fault_value FaultNotDisclosed = ''not_disclosed''"
| "fault_value AmbiguousEvidence = ''ambiguous_evidence''"
| "fault_value CorpusManifestMismatch = ''corpus_manifest_mismatch''"
| "fault_value DocumentScopeMismatch = ''document_scope_mismatch''"
| "fault_value ClauseNotFound = ''clause_not_found''"
| "fault_value DocumentIdMismatch = ''document_id_mismatch''"
| "fault_value DocumentVersionMismatch = ''document_version_mismatch''"
| "fault_value SectionMismatch = ''section_mismatch''"
| "fault_value ContentHashMismatch = ''content_hash_mismatch''"
| "fault_value QuoteHashMismatch = ''quote_hash_mismatch''"
| "fault_value SpanMismatch = ''span_mismatch''"
| "fault_value NoVerifiedEvidence = ''no_verified_evidence''"

datatype recovery_kind = ScopedSearch | RecoverClause | RecoverReferences

datatype recovery_reason = FaultReason deterministic_fault | MeaningReason semantic_reason

record recovery_selection =
  sl_kind :: recovery_kind
  sl_reason_code :: string

record recovery_request =
  rq_kind :: recovery_kind
  rq_claim_id :: string
  rq_reason_code :: string
  rq_source_clause_id :: "string option"
  rq_corpus_manifest_id :: string
  rq_allowed_document_ids :: "string list"
  rq_remaining_attempts :: nat

definition recovery_kind_by_reason :: "string \<Rightarrow> recovery_kind option" where
  "recovery_kind_by_reason reason = map_of
     [(fault_value FaultNotDisclosed, ScopedSearch), (fault_value DocumentScopeMismatch, ScopedSearch),
      (fault_value ContentHashMismatch, RecoverClause), (semantic_value ExceptionMissing, RecoverReferences)]
     reason"

definition recovery_request_valid :: "recovery_request \<Rightarrow> bool" where
  [contract_defs]: "recovery_request_valid r \<longleftrightarrow>
     rq_allowed_document_ids r \<noteq> [] \<and> rq_remaining_attempts r \<le> 8 \<and>
     recovery_kind_by_reason (rq_reason_code r) = Some (rq_kind r) \<and>
     \<not> (rq_kind r \<in> {RecoverClause, RecoverReferences} \<and> rq_source_clause_id r = None) \<and>
     \<not> (rq_kind r = ScopedSearch \<and> rq_source_clause_id r \<noteq> None)"

definition select_recovery ::
  "recovery_reason list \<Rightarrow> string option \<Rightarrow> bool \<Rightarrow> nat \<Rightarrow> recovery_selection option" where
  "select_recovery reasons source attempted remaining =
     (if attempted \<or> remaining = 0 then None
      else if FaultReason FaultNotDisclosed \<in> set reasons
      then Some \<lparr>sl_kind = ScopedSearch, sl_reason_code = fault_value FaultNotDisclosed\<rparr>
      else if FaultReason DocumentScopeMismatch \<in> set reasons
      then Some \<lparr>sl_kind = ScopedSearch, sl_reason_code = fault_value DocumentScopeMismatch\<rparr>
      else if source \<noteq> None \<and> FaultReason ContentHashMismatch \<in> set reasons
      then Some \<lparr>sl_kind = RecoverClause, sl_reason_code = fault_value ContentHashMismatch\<rparr>
      else if source \<noteq> None \<and> MeaningReason ExceptionMissing \<in> set reasons
      then Some \<lparr>sl_kind = RecoverReferences, sl_reason_code = semantic_value ExceptionMissing\<rparr>
      else None)"

section \<open>One call\<close>

definition recovery_summary ::
  "string \<Rightarrow> tool_name \<Rightarrow> string list \<Rightarrow> nat \<Rightarrow> nat \<Rightarrow> string option \<Rightarrow> tool_call_summary" where
  "recovery_summary step tool keys duration n code = \<lparr>tc_step_id = step, tc_tool = tool,
     tc_argument_keys = keys, tc_result_count = n, tc_duration_ms = duration, tc_retry_count = 0,
     tc_error_code = code\<rparr>"

record invocation =
  in_ids :: "string list"
  in_evidence :: "evidence option"
  in_summary :: tool_call_summary

text \<open>
  \<open>_invoke\<close>, with the number of attempts and the log of calls after it. An answer that cannot be
  decoded is a failed call; a \<open>ValueError\<close> from building the evidence leaves as an exception.
\<close>

definition invoke ::
  "(string \<Rightarrow> string) \<Rightarrow> mcp_client \<Rightarrow> tool_name \<Rightarrow> string \<Rightarrow> tool_args \<Rightarrow> string \<Rightarrow> local_corpus \<Rightarrow>
   nat \<times> call_log \<Rightarrow> (string + invocation) \<times> nat \<times> call_log" where
  "invoke sha256 client tool step args manifest corpus = (\<lambda>(used, log).
     let failed = (\<lambda>duration code. Inr \<lparr>in_ids = [], in_evidence = None,
           in_summary = recovery_summary step tool (argument_keys args) duration 0 (Some code)\<rparr>) in
     if 8 \<le> used then (failed 0 ''tool_call_budget_exceeded'', used, log)
     else
       let result = mc_reply client log tool args; log1 = log @ [(tool, args)];
           duration = mc_duration client log1 in
       (case (call_error_code result, result) of
          (None, CallOk s) \<Rightarrow>
            (case decode_success sha256 corpus manifest tool args s of
               Inl code \<Rightarrow> (if code = ''value_error'' then Inl code else failed duration code, Suc used, log1)
             | Inr d \<Rightarrow> (Inr \<lparr>in_ids = de_ids d, in_evidence = de_evidence d,
                 in_summary = recovery_summary step tool (argument_keys args) duration (de_count d) None\<rparr>,
                 Suc used, log1))
        | (code, _) \<Rightarrow>
            (failed duration (case code of None \<Rightarrow> [] | Some c \<Rightarrow> c), Suc used, log1)))"

definition in_scope :: "recovery_request \<Rightarrow> local_corpus \<Rightarrow> string \<Rightarrow> index_unit option" where
  "in_scope r corpus i =
     (case resolve_unit corpus i of
        None \<Rightarrow> None
      | Some u \<Rightarrow> if iu_document_id u \<in> set (rq_allowed_document_ids r) then Some u else None)"

definition verified_source :: "recovery_request \<Rightarrow> local_corpus \<Rightarrow> index_unit option" where
  "verified_source r corpus =
     (case rq_source_clause_id r of None \<Rightarrow> None | Some i \<Rightarrow> in_scope r corpus i)"

fun first_verified_clause :: "recovery_request \<Rightarrow> local_corpus \<Rightarrow> string list \<Rightarrow> index_unit option" where
  "first_verified_clause r corpus [] = None"
| "first_verified_clause r corpus (i # ids) =
     (case in_scope r corpus i of
        None \<Rightarrow> first_verified_clause r corpus ids
      | Some u \<Rightarrow> Some u)"

definition get_clause_args :: "recovery_request \<Rightarrow> index_unit \<Rightarrow> tool_args" where
  "get_clause_args r u = ClauseCall (rq_corpus_manifest_id r) (iu_document_id u) (iu_unit_id u)"

section \<open>The recovery\<close>

record recovery_outcome =
  ro_evidence :: "evidence list"
  ro_calls :: "tool_call_summary list"
  ro_attempts_used :: nat
  ro_kind :: "recovery_kind option"
  ro_reason_code :: "string option"

definition invalid_outcome ::
  "recovery_request \<Rightarrow> evidence list \<Rightarrow> tool_call_summary list \<Rightarrow> nat \<Rightarrow> recovery_outcome" where
  "invalid_outcome r evidence calls used = \<lparr>ro_evidence = dedupe_evidence evidence,
     ro_calls = calls @ [recovery_summary ''recovery_refused'' GetClause [''corpus_manifest_id''] 0 0
       (Some ''invalid_recovery_clause'')],
     ro_attempts_used = used, ro_kind = Some (rq_kind r), ro_reason_code = Some (rq_reason_code r)\<rparr>"

definition recovered ::
  "recovery_request \<Rightarrow> evidence list \<Rightarrow> tool_call_summary list \<Rightarrow> nat \<Rightarrow> recovery_outcome" where
  "recovered r evidence calls used = \<lparr>ro_evidence = dedupe_evidence evidence, ro_calls = calls,
     ro_attempts_used = used, ro_kind = Some (rq_kind r), ro_reason_code = Some (rq_reason_code r)\<rparr>"

text \<open>The fetch that ends each chain, of a clause the corpus has resolved.\<close>

definition fetch_clause ::
  "(string \<Rightarrow> string) \<Rightarrow> mcp_client \<Rightarrow> local_corpus \<Rightarrow> recovery_request \<Rightarrow> index_unit \<Rightarrow>
   evidence list \<Rightarrow> tool_call_summary list \<Rightarrow> nat \<times> call_log \<Rightarrow> (string + recovery_outcome) \<times> call_log" where
  "fetch_clause sha256 client corpus r u evidence calls s =
     (case invoke sha256 client GetClause ''recovery_get_clause'' (get_clause_args r u)
         (rq_corpus_manifest_id r) corpus s of
        (Inl e, _, log) \<Rightarrow> (Inl e, log)
      | (Inr i, used, log) \<Rightarrow>
          (Inr (recovered r (evidence @ (case in_evidence i of None \<Rightarrow> [] | Some e \<Rightarrow> [e]))
            (calls @ [in_summary i]) used), log))"

text \<open>The search or the expansion before it, and the first of its clauses that is in scope.\<close>

definition locate_then_fetch ::
  "(string \<Rightarrow> string) \<Rightarrow> mcp_client \<Rightarrow> local_corpus \<Rightarrow> recovery_request \<Rightarrow> tool_name \<Rightarrow> string \<Rightarrow>
   tool_args \<Rightarrow> evidence list \<Rightarrow> tool_call_summary list \<Rightarrow> nat \<Rightarrow>
   (string + recovery_outcome) \<times> call_log" where
  "locate_then_fetch sha256 client corpus r tool step args evidence calls used =
     (case invoke sha256 client tool step args (rq_corpus_manifest_id r) corpus (used, []) of
        (Inl e, _, log) \<Rightarrow> (Inl e, log)
      | (Inr i, used1, log) \<Rightarrow>
          (case first_verified_clause r corpus (in_ids i) of
             Some u \<Rightarrow>
               if 8 \<le> used1 then (Inr (recovered r evidence (calls @ [in_summary i]) used1), log)
               else fetch_clause sha256 client corpus r u evidence (calls @ [in_summary i]) (used1, log)
           | None \<Rightarrow> (Inr (recovered r evidence (calls @ [in_summary i]) used1), log)))"

definition execute_recovery ::
  "(string \<Rightarrow> string) \<Rightarrow> mcp_client \<Rightarrow> local_corpus \<Rightarrow> recovery_request \<Rightarrow> string \<Rightarrow> evidence list \<Rightarrow>
   tool_call_summary list \<Rightarrow> nat \<Rightarrow> (string + recovery_outcome) \<times> call_log" where
  "execute_recovery sha256 client corpus r claim_text evidence calls used =
     (let refused = (Inr (invalid_outcome r evidence calls used), []) in
      if 8 < used then refused
      else if rq_remaining_attempts r \<noteq> 8 - used \<or> 8 - used = 0 then refused
      else case rq_kind r of
        ScopedSearch \<Rightarrow>
          locate_then_fetch sha256 client corpus r SearchClauses ''recovery_scoped_search''
            (SearchCall claim_text (rq_corpus_manifest_id r) (rq_allowed_document_ids r) [] 1)
            evidence calls used
      | RecoverClause \<Rightarrow>
          (case verified_source r corpus of
             None \<Rightarrow> refused
           | Some u \<Rightarrow> fetch_clause sha256 client corpus r u evidence calls (used, []))
      | RecoverReferences \<Rightarrow>
          (case verified_source r corpus of
             None \<Rightarrow> refused
           | Some u \<Rightarrow>
               locate_then_fetch sha256 client corpus r ExpandReferences ''recovery_expand_references''
                 (ReferencesCall (rq_corpus_manifest_id r) (iu_document_id u) [iu_unit_id u])
                 evidence calls used))"

section \<open>The recovery of a run\<close>

definition closed_reason :: "string \<Rightarrow> recovery_reason option" where
  "closed_reason reason =
     (case find (\<lambda>f. fault_value f = reason)
         [FaultNotDisclosed, AmbiguousEvidence, CorpusManifestMismatch, DocumentScopeMismatch, ClauseNotFound,
          DocumentIdMismatch, DocumentVersionMismatch, SectionMismatch, ContentHashMismatch, QuoteHashMismatch,
          SpanMismatch, NoVerifiedEvidence] of
        Some f \<Rightarrow> Some (FaultReason f)
      | None \<Rightarrow> map_option MeaningReason (find (\<lambda>m. semantic_value m = reason)
          [Supported, Unsupported, ConditionMismatch, ExceptionMissing, PolarityMismatch]))"

definition clause_source :: "identified_candidate \<Rightarrow> evidence list \<Rightarrow> string option" where
  "clause_source c evidence = map_option (\<lambda>e. dc_clause_id (ev_disclosed e))
     (find (\<lambda>e. ee_content_hash (ev_excerpt e) \<in> set (cc_evidence_ids (ic_candidate c))) evidence)"

definition recovery_request_for ::
  "recovery_selection \<Rightarrow> identified_candidate \<Rightarrow> string option \<Rightarrow> string \<Rightarrow> string \<Rightarrow> nat \<Rightarrow> recovery_request" where
  "recovery_request_for sl c source manifest document used =
     \<lparr>rq_kind = sl_kind sl, rq_claim_id = ic_claim_id c, rq_reason_code = sl_reason_code sl,
      rq_source_clause_id = (if sl_kind sl \<noteq> ScopedSearch then source else None),
      rq_corpus_manifest_id = manifest, rq_allowed_document_ids = [document],
      rq_remaining_attempts = 8 - used\<rparr>"

definition recover ::
  "(string \<Rightarrow> string) \<Rightarrow> mcp_client \<Rightarrow> local_corpus \<Rightarrow> string \<Rightarrow> string \<Rightarrow> identified_candidate \<Rightarrow>
   evidence list \<Rightarrow> string list \<Rightarrow> nat \<Rightarrow> (string + recovery_outcome) \<times> call_log" where
  "recover sha256 client corpus manifest document c evidence reasons used =
     (let source = clause_source c evidence in
      case select_recovery (List.map_filter closed_reason reasons) source False (8 - used) of
        None \<Rightarrow> (Inr \<lparr>ro_evidence = evidence, ro_calls = [], ro_attempts_used = used, ro_kind = None,
          ro_reason_code = None\<rparr>, [])
      | Some sl \<Rightarrow>
          let r = recovery_request_for sl c source manifest document used in
          if \<not> recovery_request_valid r then (Inl ''validation_error'', [])
          else execute_recovery sha256 client corpus r (cc_claim (ic_candidate c)) evidence [] used)"

text \<open>\<open>_reserve_recovery_attempts\<close> of \<open>runtime/l2.py\<close>: what a run writes down before a recovery.\<close>

definition reserve_recovery_attempts :: "nat \<Rightarrow> string list \<Rightarrow> nat" where
  "reserve_recovery_attempts attempts reasons =
     (let maximum_calls =
        (if list_ex (\<lambda>s. s \<in> {''not_disclosed'', ''document_scope_mismatch''}) reasons then 2
         else if ''content_hash_mismatch'' \<in> set reasons then 1
         else if ''exception_missing'' \<in> set reasons then 2
         else 0) in
      min 8 (attempts + maximum_calls))"

section \<open>Bounds\<close>

lemma find_SomeD: "find P xs = Some x \<Longrightarrow> P x"
  by (induction xs) (auto split: if_splits)

lemma closed_reason_value:
  "closed_reason s = Some r \<Longrightarrow>
    s = (case r of FaultReason f \<Rightarrow> fault_value f | MeaningReason m \<Rightarrow> semantic_value m)"
  by (auto simp: closed_reason_def simp del: find.simps split: option.splits dest!: find_SomeD)

lemma closed_reason_of_fault: "closed_reason (fault_value f) = Some (FaultReason f)"
  by (cases f) (simp_all add: closed_reason_def)

lemma closed_reason_of_meaning: "closed_reason (semantic_value m) = Some (MeaningReason m)"
  by (cases m) (simp_all add: closed_reason_def)

lemma closed_reason_fault: "closed_reason s = Some (FaultReason f) \<longleftrightarrow> s = fault_value f"
  using closed_reason_of_fault closed_reason_value by fastforce

lemma closed_reason_meaning: "closed_reason s = Some (MeaningReason m) \<longleftrightarrow> s = semantic_value m"
  using closed_reason_of_meaning closed_reason_value by fastforce

lemma in_map_filter: "y \<in> set (List.map_filter f xs) \<longleftrightarrow> (\<exists>x \<in> set xs. f x = Some y)"
  by (induction xs) (auto simp: List.map_filter_simps split: option.splits)

lemma closed_reasons_fault:
  "FaultReason f \<in> set (List.map_filter closed_reason reasons) \<longleftrightarrow> fault_value f \<in> set reasons"
  by (simp add: in_map_filter closed_reason_fault Bex_def)

lemma closed_reasons_meaning:
  "MeaningReason m \<in> set (List.map_filter closed_reason reasons) \<longleftrightarrow> semantic_value m \<in> set reasons"
  by (simp add: in_map_filter closed_reason_meaning Bex_def)

lemmas closed_reasons = closed_reasons_fault closed_reasons_meaning

lemma invoke_spent:
  "8 \<le> used \<Longrightarrow> invoke sha256 client tool step args manifest corpus (used, log) = (i, used', log') \<Longrightarrow>
    used' = used \<and> log' = log \<and> (\<exists>x. i = Inr x \<and> in_ids x = [] \<and> in_evidence x = None)"
  by (auto simp: invoke_def Let_def)

lemma invoke_call:
  assumes "used < 8" and "invoke sha256 client tool step args manifest corpus (used, log) = (i, used', log')"
  shows "used' = Suc used \<and> log' = log @ [(tool, args)]"
  using assms by (auto simp: invoke_def Let_def split: option.splits call_result.splits sum.splits if_splits)

lemma invoke_evidence:
  assumes "invoke sha256 client tool step args manifest corpus s = (Inr x, s')" and "in_evidence x = Some e"
  shows "\<exists>u \<in> set (lc_units corpus). iu_document_id u \<in> set (call_documents args) \<and>
    build_evidence_from_unit sha256 manifest u = Inr e"
  using assms decode_success_built [of sha256 corpus manifest tool args]
  by (cases s) (auto simp: invoke_def Let_def split: option.splits call_result.splits sum.splits if_splits)

lemma in_scope_Some:
  "in_scope r corpus i = Some u \<Longrightarrow>
    u \<in> set (lc_units corpus) \<and> iu_unit_id u = i \<and> iu_document_id u \<in> set (rq_allowed_document_ids r)"
  by (auto simp: in_scope_def split: option.splits if_splits dest: resolve_unit_Some)

lemma verified_source_Some:
  "verified_source r corpus = Some u \<Longrightarrow>
    u \<in> set (lc_units corpus) \<and> iu_document_id u \<in> set (rq_allowed_document_ids r)"
  by (auto simp: verified_source_def split: option.splits dest: in_scope_Some)

lemma first_verified_clause_Some:
  "first_verified_clause r corpus ids = Some u \<Longrightarrow>
    u \<in> set (lc_units corpus) \<and> iu_document_id u \<in> set (rq_allowed_document_ids r)"
  by (induction ids) (auto split: option.splits dest: in_scope_Some)

text \<open>What a chain may add: calls in scope, and at most one piece of evidence from the corpus.\<close>

fun call_in_scope :: "local_corpus \<Rightarrow> recovery_request \<Rightarrow> string \<Rightarrow> tool_args \<Rightarrow> bool" where
  "call_in_scope corpus r claim (SearchCall q m ds ls n) =
     (q = claim \<and> m = rq_corpus_manifest_id r \<and> ds = rq_allowed_document_ids r)"
| "call_in_scope corpus r claim (ClauseCall m d c) =
     (m = rq_corpus_manifest_id r \<and> d \<in> set (rq_allowed_document_ids r) \<and>
      list_ex (\<lambda>u. iu_document_id u = d \<and> iu_unit_id u = c) (lc_units corpus))"
| "call_in_scope corpus r claim (ReferencesCall m d cs) =
     (m = rq_corpus_manifest_id r \<and> d \<in> set (rq_allowed_document_ids r) \<and>
      list_ex (\<lambda>u. iu_document_id u = d \<and> [iu_unit_id u] = cs) (lc_units corpus))"
| "call_in_scope corpus r claim _ = False"

definition recovery_step ::
  "(string \<Rightarrow> string) \<Rightarrow> local_corpus \<Rightarrow> recovery_request \<Rightarrow> evidence list \<Rightarrow> nat \<Rightarrow> nat \<Rightarrow>
   string \<Rightarrow> recovery_outcome \<times> call_log \<Rightarrow> bool" where
  "recovery_step sha256 corpus r evidence used most claim = (\<lambda>(ro, log).
     length log \<le> most \<and> ro_attempts_used ro = used + length log \<and> ro_attempts_used ro \<le> 8 \<and>
     (\<forall>c \<in> set log. call_in_scope corpus r claim (snd c)) \<and>
     (\<exists>new. ro_evidence ro = dedupe_evidence (evidence @ new) \<and> length new \<le> 1 \<and>
       (\<forall>e \<in> set new. \<exists>u \<in> set (lc_units corpus). iu_document_id u \<in> set (rq_allowed_document_ids r) \<and>
         build_evidence_from_unit sha256 (rq_corpus_manifest_id r) u = Inr e)))"

lemma fetch_clause_step:
  assumes run: "fetch_clause sha256 client corpus r u evidence calls (used, log) = (Inr ro, log')"
    and u: "u \<in> set (lc_units corpus)" "iu_document_id u \<in> set (rq_allowed_document_ids r)"
    and used: "used < 8" and log: "used = start + length log" "\<forall>c \<in> set log. call_in_scope corpus r claim (snd c)"
  shows "recovery_step sha256 corpus r evidence start (Suc (length log)) claim (ro, log') \<and> length log' = Suc (length log)"
proof -
  from run obtain x used1 where i: "invoke sha256 client GetClause ''recovery_get_clause'' (get_clause_args r u)
      (rq_corpus_manifest_id r) corpus (used, log) = (Inr x, used1, log')"
    and ro: "ro = recovered r (evidence @ (case in_evidence x of None \<Rightarrow> [] | Some e \<Rightarrow> [e])) (calls @ [in_summary x]) used1"
    by (auto simp: fetch_clause_def split: prod.splits sum.splits)
  from invoke_call [OF used i] have "used1 = Suc used" "log' = log @ [(GetClause, get_clause_args r u)]" by simp_all
  moreover have "call_in_scope corpus r claim (get_clause_args r u)"
    using u by (auto simp: get_clause_args_def list_ex_iff)
  moreover have "\<exists>new. evidence @ (case in_evidence x of None \<Rightarrow> [] | Some e \<Rightarrow> [e]) = evidence @ new \<and> length new \<le> 1 \<and>
      (\<forall>e \<in> set new. \<exists>u \<in> set (lc_units corpus). iu_document_id u \<in> set (rq_allowed_document_ids r) \<and>
        build_evidence_from_unit sha256 (rq_corpus_manifest_id r) u = Inr e)"
  proof (cases "in_evidence x")
    case (Some e)
    from invoke_evidence [OF i this] obtain v where "v \<in> set (lc_units corpus)" "iu_document_id v = iu_document_id u"
      "build_evidence_from_unit sha256 (rq_corpus_manifest_id r) v = Inr e" by (auto simp: get_clause_args_def)
    with u(2) show ?thesis by (intro exI [of _ "[e]"]) (auto simp: Some intro!: bexI [of _ v])
  qed simp
  ultimately show ?thesis
    using log used by (auto simp: recovery_step_def ro recovered_def)
qed

lemma locate_then_fetch_step:
  assumes run: "locate_then_fetch sha256 client corpus r tool step args evidence calls used = (Inr ro, log)"
    and used: "used < 8" and args: "call_in_scope corpus r claim args"
  shows "recovery_step sha256 corpus r evidence used 2 claim (ro, log)"
proof -
  obtain i used1 log1 where i: "invoke sha256 client tool step args (rq_corpus_manifest_id r) corpus (used, []) =
      (i, used1, log1)" by (metis prod_cases3)
  from invoke_call [OF used i] have one: "used1 = Suc used" "log1 = [(tool, args)]" by simp_all
  show ?thesis
  proof (cases "\<exists>x u. i = Inr x \<and> first_verified_clause r corpus (in_ids x) = Some u \<and> used1 < 8")
    case True
    then obtain x u where x: "i = Inr x" "first_verified_clause r corpus (in_ids x) = Some u" "used1 < 8" by blast
    with run i have "fetch_clause sha256 client corpus r u evidence (calls @ [in_summary x]) (used1, log1) = (Inr ro, log)"
      by (simp add: locate_then_fetch_def)
    from fetch_clause_step [OF this _ _ x(3), of used claim] first_verified_clause_Some [OF x(2)] one args
    show ?thesis by (simp add: recovery_step_def numeral_2_eq_2)
  next
    case False
    with run i have "\<exists>x :: invocation. ro = recovered r evidence (calls @ [in_summary x]) used1 \<and> log = log1"
      by (cases i) (auto simp: locate_then_fetch_def split: option.splits if_splits)
    then obtain x :: invocation where "ro = recovered r evidence (calls @ [in_summary x]) used1" "log = log1" by blast
    with one used args show ?thesis
      by (auto simp: recovery_step_def recovered_def intro!: exI [of _ "[]"])
  qed
qed

lemma execute_recovery_step:
  assumes run: "execute_recovery sha256 client corpus r claim evidence calls used = (Inr ro, log)"
    and used: "used \<le> 8"
  shows "recovery_step sha256 corpus r evidence used (if rq_kind r = RecoverClause then 1 else 2) claim (ro, log)"
proof (cases "rq_remaining_attempts r \<noteq> 8 - used \<or> 8 - used = 0 \<or>
    rq_kind r \<noteq> ScopedSearch \<and> verified_source r corpus = None")
  case True
  then have "execute_recovery sha256 client corpus r claim evidence calls used =
      (Inr (invalid_outcome r evidence calls used), [])"
    unfolding execute_recovery_def Let_def by (cases "rq_kind r"; elim disjE; simp)
  with run have "ro = invalid_outcome r evidence calls used \<and> log = []" by simp
  with used show ?thesis
    by (auto simp: recovery_step_def invalid_outcome_def intro!: exI [of _ "[]"])
next
  case False
  then have fresh: "used < 8" "rq_remaining_attempts r = 8 - used" by auto
  show ?thesis
  proof (cases "rq_kind r")
    case ScopedSearch
    with run fresh used have "locate_then_fetch sha256 client corpus r SearchClauses ''recovery_scoped_search''
        (SearchCall claim (rq_corpus_manifest_id r) (rq_allowed_document_ids r) [] 1) evidence calls used = (Inr ro, log)"
      by (simp add: execute_recovery_def Let_def)
    from locate_then_fetch_step [OF this fresh(1)] ScopedSearch show ?thesis by simp
  next
    case RecoverClause
    with False obtain u where u: "verified_source r corpus = Some u" by auto
    with RecoverClause run fresh used
    have "fetch_clause sha256 client corpus r u evidence calls (used, []) = (Inr ro, log)"
      by (simp add: execute_recovery_def Let_def)
    from fetch_clause_step [OF this _ _ fresh(1), of used] verified_source_Some [OF u] RecoverClause
    show ?thesis by simp
  next
    case RecoverReferences
    with False obtain u where u: "verified_source r corpus = Some u" by auto
    with RecoverReferences run fresh used
    have "locate_then_fetch sha256 client corpus r ExpandReferences ''recovery_expand_references''
        (ReferencesCall (rq_corpus_manifest_id r) (iu_document_id u) [iu_unit_id u]) evidence calls used = (Inr ro, log)"
      by (simp add: execute_recovery_def Let_def)
    from locate_then_fetch_step [OF this fresh(1), of claim] verified_source_Some [OF u] RecoverReferences
    show ?thesis by (auto simp: list_ex_iff)
  qed
qed

lemma select_recovery_request:
  assumes "select_recovery reasons source False (8 - used) = Some sl"
  shows "recovery_request_valid (recovery_request_for sl c source manifest document used) \<and> used < 8"
  using assms
  by (auto simp: select_recovery_def recovery_request_for_def recovery_request_valid_def
      recovery_kind_by_reason_def split: if_splits)

text \<open>What a recovery of a run did: nothing, or one chain for a valid request.\<close>

lemma recover_cases:
  assumes "recover sha256 client corpus manifest document c evidence reasons used = (outcome, log)"
  obtains (idle) "log = []" "outcome = Inr \<lparr>ro_evidence = evidence, ro_calls = [], ro_attempts_used = used,
      ro_kind = None, ro_reason_code = None\<rparr>"
  | (chain) sl where "select_recovery (List.map_filter closed_reason reasons) (clause_source c evidence) False (8 - used) = Some sl"
      "used < 8" "recovery_request_valid (recovery_request_for sl c (clause_source c evidence) manifest document used)"
      "execute_recovery sha256 client corpus (recovery_request_for sl c (clause_source c evidence) manifest document used)
        (cc_claim (ic_candidate c)) evidence [] used = (outcome, log)"
proof (cases "select_recovery (List.map_filter closed_reason reasons) (clause_source c evidence) False (8 - used)")
  case None
  with assms idle show ?thesis by (simp add: recover_def)
next
  case (Some sl)
  with select_recovery_request [OF this] assms chain show ?thesis by (simp add: recover_def Let_def)
qed

lemma chain_fits_reservation:
  assumes "select_recovery (List.map_filter closed_reason reasons) source False (8 - used) = Some sl" "used < 8"
  shows "used + (if sl_kind sl = RecoverClause then 1 else 2) \<le> reserve_recovery_attempts used reasons \<or>
    reserve_recovery_attempts used reasons = 8"
proof -
  let ?missing = "''not_disclosed'' \<in> set reasons \<or> ''document_scope_mismatch'' \<in> set reasons"
  have reserved: "reserve_recovery_attempts used reasons = min 8 (used +
      (if ?missing then 2 else if ''content_hash_mismatch'' \<in> set reasons then 1
       else if ''exception_missing'' \<in> set reasons then 2 else 0))"
    unfolding reserve_recovery_attempts_def Let_def list_ex_iff by (rule arg_cong2 [of _ _ _ _ min]) auto
  have "?missing \<or> sl_kind sl = RecoverClause \<and> ''content_hash_mismatch'' \<in> set reasons \<or>
      ''content_hash_mismatch'' \<notin> set reasons \<and> ''exception_missing'' \<in> set reasons"
    using assms unfolding select_recovery_def closed_reasons by (auto split: if_split_asm)
  then show ?thesis unfolding reserved by (elim disjE) (simp_all split: if_split, auto simp: min_def)
qed

text \<open>
  A recovery stays inside what the run wrote down for it beforehand. Whatever the tools
  answer, it makes at most two calls; the attempts it reports are those used before plus the
  calls it made; they exceed neither the reservation nor the run's eight; and every call is the
  claim's own search in the run's document, or names a clause the frozen corpus has there, never
  an identifier a tool returned unchecked.
\<close>

theorem recovery_fits_reservation:
  assumes run: "recover sha256 client corpus manifest document c evidence reasons used = (Inr ro, log)"
    and used: "used \<le> 8"
  shows "length log \<le> 2 \<and> ro_attempts_used ro = used + length log \<and>
    ro_attempts_used ro \<le> reserve_recovery_attempts used reasons \<and>
    reserve_recovery_attempts used reasons \<le> 8 \<and>
    list_all (\<lambda>(tool, args). case args of
        SearchCall q m ds ls n \<Rightarrow> q = cc_claim (ic_candidate c) \<and> m = manifest \<and> ds = [document]
      | ClauseCall m d i \<Rightarrow> m = manifest \<and> d = document \<and>
          list_ex (\<lambda>u. iu_document_id u = document \<and> iu_unit_id u = i) (lc_units corpus)
      | ReferencesCall m d is \<Rightarrow> m = manifest \<and> d = document \<and>
          list_ex (\<lambda>u. iu_document_id u = document \<and> [iu_unit_id u] = is) (lc_units corpus)
      | _ \<Rightarrow> False) log"
  using run
proof (cases rule: recover_cases)
  case idle
  with used show ?thesis by (auto simp: reserve_recovery_attempts_def)
next
  case (chain sl)
  let ?r = "recovery_request_for sl c (clause_source c evidence) manifest document used"
  from execute_recovery_step [OF chain(4) used]
  have step: "length log \<le> (if sl_kind sl = RecoverClause then 1 else 2)" "ro_attempts_used ro = used + length log"
    "ro_attempts_used ro \<le> 8" "\<forall>x \<in> set log. call_in_scope corpus ?r (cc_claim (ic_candidate c)) (snd x)"
    by (auto simp: recovery_step_def recovery_request_for_def split: if_splits)
  have "list_all (\<lambda>(tool, args). case args of
        SearchCall q m ds ls n \<Rightarrow> q = cc_claim (ic_candidate c) \<and> m = manifest \<and> ds = [document]
      | ClauseCall m d i \<Rightarrow> m = manifest \<and> d = document \<and>
          list_ex (\<lambda>u. iu_document_id u = document \<and> iu_unit_id u = i) (lc_units corpus)
      | ReferencesCall m d is \<Rightarrow> m = manifest \<and> d = document \<and>
          list_ex (\<lambda>u. iu_document_id u = document \<and> [iu_unit_id u] = is) (lc_units corpus)
      | _ \<Rightarrow> False) log"
    unfolding list_all_iff
  proof
    fix x assume "x \<in> set log"
    with step(4) have "call_in_scope corpus ?r (cc_claim (ic_candidate c)) (snd x)" by blast
    then show "case x of (tool, args) \<Rightarrow> (case args of
        SearchCall q m ds ls n \<Rightarrow> q = cc_claim (ic_candidate c) \<and> m = manifest \<and> ds = [document]
      | ClauseCall m d i \<Rightarrow> m = manifest \<and> d = document \<and>
          list_ex (\<lambda>u. iu_document_id u = document \<and> iu_unit_id u = i) (lc_units corpus)
      | ReferencesCall m d is \<Rightarrow> m = manifest \<and> d = document \<and>
          list_ex (\<lambda>u. iu_document_id u = document \<and> [iu_unit_id u] = is) (lc_units corpus)
      | _ \<Rightarrow> False)"
      by (cases x; cases "snd x") (simp_all add: recovery_request_for_def)
  qed
  moreover have "reserve_recovery_attempts used reasons \<le> 8" by (simp add: reserve_recovery_attempts_def)
  ultimately show ?thesis
    using chain_fits_reservation [OF chain(1,2)] step(1-3) by (auto split: if_splits)
qed

text \<open>
  Recovery only adds what verifies. The evidence after it is that before it, and at most one
  more piece, which the deterministic verifier accepts for the run's document; and no request
  the recovery makes of itself is refused by its own validator.
\<close>

theorem recovery_adds_verified_evidence:
  assumes ok: "corpus_ok corpus"
    and run: "recover sha256 client corpus manifest document c evidence reasons used = (outcome, log)"
    and used: "used \<le> 8"
  shows "(case outcome of
      Inl e \<Rightarrow> e \<noteq> ''validation_error''
    | Inr ro \<Rightarrow> ro_evidence ro = evidence \<or>
        (\<exists>new. ro_evidence ro = dedupe_evidence (evidence @ new) \<and> length new \<le> 1 \<and>
          list_all (\<lambda>e. \<exists>u \<in> set (lc_units corpus).
            verify_disclosure sha256 corpus manifest {document} e = Inr u) new))"
  using run
proof (cases rule: recover_cases)
  case (chain sl)
  show ?thesis
  proof (cases outcome)
    case (Inl e)
    have invoked: "e = ''value_error''" if "invoke sha256 client tool step args m corpus s = (Inl e, s')" for tool step args m s s'
      using that by (cases s) (auto simp: invoke_def Let_def split: if_splits option.splits call_result.splits sum.splits)
    have fetched: "e = ''value_error''" if "fetch_clause sha256 client corpus r u ev calls s = (Inl e, s')" for r u ev calls s s'
      using that invoked by (auto simp: fetch_clause_def split: prod.splits sum.splits)
    have "e = ''value_error''"
      using chain(4) Inl fetched invoked
      by (auto simp: execute_recovery_def locate_then_fetch_def Let_def
          split: if_splits recovery_kind.splits option.splits prod.splits sum.splits)
    with Inl show ?thesis by simp
  next
    case (Inr ro)
    from execute_recovery_step [of sha256 client corpus, OF _ used] chain(4) Inr
    obtain new where new: "ro_evidence ro = dedupe_evidence (evidence @ new)" "length new \<le> 1"
      "\<And>e. e \<in> set new \<Longrightarrow> \<exists>u \<in> set (lc_units corpus). iu_document_id u = document \<and>
        build_evidence_from_unit sha256 manifest u = Inr e"
      by (fastforce simp: recovery_step_def recovery_request_for_def)
    have "\<exists>u \<in> set (lc_units corpus). verify_disclosure sha256 corpus manifest {document} e = Inr u"
      if "e \<in> set new" for e
      using new(3) [OF that] built_evidence_verifies [OF ok] by blast
    with new(1,2) Inr show ?thesis by (auto simp: list_all_iff)
  qed
qed simp

section \<open>A concrete recovery\<close>

text \<open>The clause was not disclosed: a search in scope finds it, and it is fetched.\<close>

definition sample_recovery_client :: mcp_client where
  "sample_recovery_client = sample_client\<lparr>mc_reply := (\<lambda>calls. mc_reply sample_client (undefined # calls))\<rparr>"

definition sample_identified :: identified_candidate where
  "sample_identified = \<lparr>ic_claim_id = ''claim'', ic_candidate = sample_candidate\<rparr>"

lemma sample_recovery:
  "\<exists>ro. recover digest sample_recovery_client sample_corpus ''44'' ''rfc'' sample_identified [] [''not_disclosed''] 6 =
    (Inr ro, [(SearchClauses, SearchCall (cc_claim sample_candidate) ''44'' [''rfc''] [] 1),
      (GetClause, ClauseCall ''44'' ''rfc'' ''c1'')]) \<and> ro_evidence ro = [sample_unit_evidence]"
proof -
  have "clause_source sample_identified [] = None" by (simp add: clause_source_def)
  moreover have "select_recovery (List.map_filter closed_reason [''not_disclosed'']) None False (8 - 6) =
      Some \<lparr>sl_kind = ScopedSearch, sl_reason_code = ''not_disclosed''\<rparr>"
    by (simp add: select_recovery_def closed_reason_def map_filter_simps)
  moreover have "iu_unit_id sample_unit = ''c1''" "iu_document_id sample_unit = ''rfc''"
    by (simp_all add: sample_unit_def)
  ultimately show ?thesis
    by (simp add: recover_def recovery_request_for_def recovery_request_valid_def recovery_kind_by_reason_def
        execute_recovery_def locate_then_fetch_def fetch_clause_def invoke_def sample_recovery_client_def
        sample_client_def call_error_code_def decode_success_def dedupe_ids_def in_scope_def sample_resolve
        get_clause_args_def sample_clause_decodes recovered_def dedupe_evidence_def sample_identified_def)
qed

theorem recovery_fits_reservation_witness:
  "\<exists>ro log. recover digest sample_recovery_client sample_corpus ''44'' ''rfc'' sample_identified [] [''not_disclosed''] 6 =
    (Inr ro, log) \<and> length log = 2 \<and> ro_attempts_used ro = 8 \<and>
    ro_attempts_used ro \<le> reserve_recovery_attempts 6 [''not_disclosed'']"
proof -
  from sample_recovery obtain ro where ro: "recover digest sample_recovery_client sample_corpus ''44'' ''rfc''
      sample_identified [] [''not_disclosed''] 6 =
    (Inr ro, [(SearchClauses, SearchCall (cc_claim sample_candidate) ''44'' [''rfc''] [] 1),
      (GetClause, ClauseCall ''44'' ''rfc'' ''c1'')])" by blast
  from recovery_fits_reservation [OF this] ro show ?thesis by simp
qed

theorem recovery_adds_verified_evidence_witness:
  "\<exists>ro log u. recover digest sample_recovery_client sample_corpus ''44'' ''rfc'' sample_identified [] [''not_disclosed''] 6 =
    (Inr ro, log) \<and> length (ro_evidence ro) = 1 \<and>
    verify_disclosure digest sample_corpus ''44'' {''rfc''} (hd (ro_evidence ro)) = Inr u"
proof -
  from sample_recovery obtain ro log where run: "recover digest sample_recovery_client sample_corpus ''44'' ''rfc''
      sample_identified [] [''not_disclosed''] 6 = (Inr ro, log)" and ro: "ro_evidence ro = [sample_unit_evidence]"
    by blast
  from recovery_adds_verified_evidence [OF load_corpus_ok [OF sample_corpus_loaded] run] ro
  obtain new where "ro_evidence ro = dedupe_evidence new" "length new \<le> 1"
    "list_all (\<lambda>e. \<exists>u \<in> set (lc_units sample_corpus). verify_disclosure digest sample_corpus ''44'' {''rfc''} e = Inr u) new"
    by auto
  moreover from this ro have "sample_unit_evidence \<in> set new" by (metis dedupe_evidence_subset list.set_intros(1) subsetD)
  ultimately obtain u where "verify_disclosure digest sample_corpus ''44'' {''rfc''} sample_unit_evidence = Inr u"
    by (auto simp: list_all_iff)
  with run ro show ?thesis by auto
qed

end
