(* ===== verification/EgressPolicy.thy ===== *)
theory EgressPolicy
  imports EgressContracts
begin

text \<open>
  The versioned cap policy, \<open>egress/policy.py\<close>: the caps of one request, and the identity of
  a disclosure. A document the policy does not price has no caps at all.
\<close>

record egress_policy =
  ep_schema_version :: string
  ep_stage_payload_allowlist :: "(string \<times> string list) list"
  ep_excerpt :: cap_vector
  ep_l1_online_unique :: cap_vector
  ep_l1_online_transmitted :: cap_vector
  ep_l2_online_unique :: cap_vector
  ep_l2_claim_unique :: cap_vector
  ep_l2_online_transmitted :: cap_vector
  ep_judge_unique :: cap_vector
  ep_judge_transmitted :: cap_vector
  ep_l1_root_unique :: cap_vector
  ep_l1_root_transmitted :: cap_vector
  ep_l2_root_unique :: cap_vector
  ep_l2_root_transmitted :: cap_vector
  ep_corpus_unique :: cap_vector
  ep_corpus_document_unique :: "(string \<times> cap_vector) list"
  ep_toc_per_call :: nat
  ep_toc_per_run :: nat
  ep_l1_query_tokens :: nat
  ep_l1_plan_tokens :: nat
  ep_l2_design_tokens :: nat
  ep_max_l2_claims_per_run :: nat

section \<open>Caps of one request\<close>

definition policy_text_tokens :: "egress_policy \<Rightarrow> string \<Rightarrow> nat option" where
  "policy_text_tokens p kind =
     (if kind = ''l1_query'' then Some (ep_l1_query_tokens p)
      else if kind = ''l1_plan'' then Some (ep_l1_plan_tokens p)
      else if kind \<in> {''l2_design'', ''l2_atomic_claim''} then Some (ep_l2_design_tokens p)
      else None)"

text \<open>\<open>None\<close> is the raised \<open>MissingDocumentCap\<close>.\<close>

definition policy_snapshot ::
  "egress_policy \<Rightarrow> task_level \<Rightarrow> string \<Rightarrow> string \<Rightarrow> cap_snapshot option" where
  "policy_snapshot p level kind document_id =
     (let is_l1 = (level = L1); is_judge = (kind = ''judge'') in
      case map_of (ep_corpus_document_unique p) document_id of
        None \<Rightarrow> None
      | Some document_cap \<Rightarrow> Some \<lparr>
          cs_excerpt = ep_excerpt p,
          cs_online_unique = (if is_judge then None
            else Some (if is_l1 then ep_l1_online_unique p else ep_l2_online_unique p)),
          cs_online_transmitted = (if is_judge then None
            else Some (if is_l1 then ep_l1_online_transmitted p else ep_l2_online_transmitted p)),
          cs_claim_unique =
            (if kind = ''l2_atomic_claim'' then Some (ep_l2_claim_unique p) else None),
          cs_judge_unique = ep_judge_unique p,
          cs_judge_transmitted = ep_judge_transmitted p,
          cs_root_unique = (if is_l1 then ep_l1_root_unique p else ep_l2_root_unique p),
          cs_root_transmitted =
            (if is_l1 then ep_l1_root_transmitted p else ep_l2_root_transmitted p),
          cs_corpus_unique = ep_corpus_unique p,
          cs_corpus_document_unique = document_cap,
          cs_toc_per_call = ep_toc_per_call p,
          cs_toc_per_run = ep_toc_per_run p,
          cs_max_claims_per_run = ep_max_l2_claims_per_run p,
          cs_projected_text_tokens = policy_text_tokens p kind\<rparr>)"

section \<open>Identities\<close>

definition nat_json :: "nat \<Rightarrow> json" where
  "nat_json n = JInt (int n)"

definition cap_json :: "cap_vector \<Rightarrow> json" where
  "cap_json c = JObj [(''excerpts'', nat_json (cap_excerpts c)),
     (''tokens'', nat_json (cap_tokens c)), (''bytes'', nat_json (cap_bytes c))]"

definition policy_json :: "egress_policy \<Rightarrow> json" where
  "policy_json p = JObj
     [(''schema_version'', JStr (ep_schema_version p)),
      (''stage_payload_allowlist'',
        JObj (map (map_prod id (\<lambda>ks. JArr (map JStr ks))) (ep_stage_payload_allowlist p))),
      (''excerpt'', cap_json (ep_excerpt p)),
      (''l1_online_unique'', cap_json (ep_l1_online_unique p)),
      (''l1_online_transmitted'', cap_json (ep_l1_online_transmitted p)),
      (''l2_online_unique'', cap_json (ep_l2_online_unique p)),
      (''l2_claim_unique'', cap_json (ep_l2_claim_unique p)),
      (''l2_online_transmitted'', cap_json (ep_l2_online_transmitted p)),
      (''judge_unique'', cap_json (ep_judge_unique p)),
      (''judge_transmitted'', cap_json (ep_judge_transmitted p)),
      (''l1_root_unique'', cap_json (ep_l1_root_unique p)),
      (''l1_root_transmitted'', cap_json (ep_l1_root_transmitted p)),
      (''l2_root_unique'', cap_json (ep_l2_root_unique p)),
      (''l2_root_transmitted'', cap_json (ep_l2_root_transmitted p)),
      (''corpus_unique'', cap_json (ep_corpus_unique p)),
      (''corpus_document_unique'',
        JObj (map (map_prod id cap_json) (ep_corpus_document_unique p))),
      (''toc_per_call'', nat_json (ep_toc_per_call p)),
      (''toc_per_run'', nat_json (ep_toc_per_run p)),
      (''l1_query_tokens'', nat_json (ep_l1_query_tokens p)),
      (''l1_plan_tokens'', nat_json (ep_l1_plan_tokens p)),
      (''l2_design_tokens'', nat_json (ep_l2_design_tokens p)),
      (''max_l2_claims_per_run'', nat_json (ep_max_l2_claims_per_run p))]"

definition policy_hash :: "(string \<Rightarrow> string) \<Rightarrow> egress_policy \<Rightarrow> string" where
  "policy_hash sha256 p = canonical_sha256 sha256 (policy_json p)"

definition span_json :: "excerpt_span \<Rightarrow> json" where
  "span_json s = JObj
     [(''paragraph_start'', nat_json (paragraph_start s)),
      (''paragraph_end'', nat_json (paragraph_end s)),
      (''token_start'', nat_json (token_start s)),
      (''token_end'', nat_json (token_end s))]"

text \<open>The tuple is dumped without \<open>sort_keys\<close>, so the span's fields keep their order.\<close>

definition disclosure_preimage ::
  "string \<Rightarrow> string \<Rightarrow> string \<Rightarrow> excerpt_span \<Rightarrow> string" where
  "disclosure_preimage corpus_manifest_id content_hash quote_hash span =
     dumps (JArr [JStr corpus_manifest_id, JStr content_hash, JStr quote_hash, span_json span])"

definition disclosure_id ::
  "(string \<Rightarrow> string) \<Rightarrow> string \<Rightarrow> string \<Rightarrow> string \<Rightarrow> excerpt_span \<Rightarrow> string" where
  "disclosure_id sha256 corpus_manifest_id content_hash quote_hash span =
     sha256 (disclosure_preimage corpus_manifest_id content_hash quote_hash span)"

lemma nat_json_inj [simp]: "nat_json n = nat_json m \<longleftrightarrow> n = m"
  by (simp add: nat_json_def)

lemma span_json_inj [simp]: "span_json s = span_json t \<longleftrightarrow> s = t"
  by (cases s; cases t) (auto simp: span_json_def)

lemma policy_snapshot_Some:
  assumes "policy_snapshot p level kind doc = Some cs"
  shows "map_of (ep_corpus_document_unique p) doc = Some (cs_corpus_document_unique cs)"
    and "cs_corpus_unique cs = ep_corpus_unique p"
    and "cs_excerpt cs = ep_excerpt p"
    and "cs_online_unique cs = None \<longleftrightarrow> kind = ''judge''"
    and "cs_online_transmitted cs = None \<longleftrightarrow> kind = ''judge''"
    and "cs_claim_unique cs = None \<longleftrightarrow> kind \<noteq> ''l2_atomic_claim''"
  using assms by (auto simp: policy_snapshot_def Let_def split: option.splits if_splits)

text \<open>
  A disclosure identifier names its disclosure: the text that is hashed determines corpus,
  content hash, quote hash and span, so two different disclosures can only share an identifier
  by a collision of SHA-256 on two different texts.
\<close>

theorem disclosure_id_names_disclosure:
  "disclosure_id sha256 c h q s = disclosure_id sha256 c' h' q' s' \<longleftrightarrow>
     (c = c' \<and> h = h' \<and> q = q' \<and> s = s') \<or>
     (disclosure_preimage c h q s \<noteq> disclosure_preimage c' h' q' s' \<and>
      sha256 (disclosure_preimage c h q s) = sha256 (disclosure_preimage c' h' q' s'))"
proof -
  have "disclosure_preimage c h q s = disclosure_preimage c' h' q' s' \<longleftrightarrow>
      c = c' \<and> h = h' \<and> q = q' \<and> s = s'"
    unfolding disclosure_preimage_def by (auto dest!: dumps_inj simp del: dumps.simps)
  then show ?thesis by (auto simp: disclosure_id_def)
qed

end
