(* ===== verification/EnforcerDerive.thy ===== *)
theory EnforcerDerive
  imports EgressPolicy
begin

text \<open>
  The first half of \<open>egress/enforcer.py\<close>: \<open>_derive\<close> re-derives everything a reservation
  is charged for from the request itself, behind every guard, in the code's order.

  The enforcer's collaborators are its record: the policy, the manifest store (\<open>None\<close> is a
  store that raised), the clock (which may raise or return something unusable), and SHA-256.
  An error is the exception raised: an \<open>EgressPolicyViolation\<close> with its code, its subclass
  \<open>TokenAccountingUnavailable\<close> with its code, the \<open>ValidationError\<close> of a contract model, or
  the \<open>KeyError\<close> of a usage snapshot that lists an identifier it has no fact for.
\<close>

datatype egress_error =
    EgressPolicyViolation string
  | TokenAccountingUnavailable string
  | ContractError
  | PyKeyError

fun error_code :: "egress_error \<Rightarrow> string option" where
  "error_code (EgressPolicyViolation c) = Some c"
| "error_code (TokenAccountingUnavailable c) = Some c"
| "error_code ContractError = None"
| "error_code PyKeyError = None"

datatype clock_outcome = ClockRaises | ClockNotAware | ClockAt int

record enforcer =
  en_sha256 :: "string \<Rightarrow> string"
  en_policy :: egress_policy
  en_read_source :: "string \<Rightarrow> source_manifest option"
  en_clock :: clock_outcome

record derived_reservation =
  dr_cap_snapshot :: cap_snapshot
  dr_disclosures :: "disclosure_fact list"
  dr_transmitted_tokens :: nat
  dr_transmitted_bytes :: nat
  dr_toc_delta :: nat
  dr_atomic_claim_id :: "string option"

abbreviation reject :: "string \<Rightarrow> egress_error + 'a" where
  "reject code \<equiv> Inl (EgressPolicyViolation code)"

abbreviation check :: "bool \<Rightarrow> string \<Rightarrow> egress_error + unit" where
  "check ok code \<equiv> require ok (EgressPolicyViolation code)"

section \<open>What a payload says\<close>

fun payload_task_level :: "egress_payload \<Rightarrow> task_level option" where
  "payload_task_level (L1Online _) = Some L1"
| "payload_task_level (L1Plan p) = Some (if lp_max_tool_calls p = 6 then L1 else L2)"
| "payload_task_level (Judge _) = None"
| "payload_task_level _ = Some L2"

fun payload_excerpts :: "egress_payload \<Rightarrow> evidence_excerpt list" where
  "payload_excerpts (Judge p) = jp_gold_excerpts p"
| "payload_excerpts (L1Plan _) = []"
| "payload_excerpts (L1Online p) = lo_evidence_excerpts p"
| "payload_excerpts (L2Design p) = ld_evidence_excerpts p"
| "payload_excerpts (L2AtomicClaim p) = lc_evidence_excerpts p"

fun projected_text :: "egress_payload \<Rightarrow> string option" where
  "projected_text (L1Online p) = Some (lo_query p)"
| "projected_text (L1Plan p) = Some (lp_query p)"
| "projected_text (L2Design p) = Some (ld_design_description p)"
| "projected_text (L2AtomicClaim p) = Some (lc_atomic_claim p)"
| "projected_text (Judge _) = None"

fun payload_toc_nodes :: "egress_payload \<Rightarrow> toc_node list" where
  "payload_toc_nodes (Judge _) = []"
| "payload_toc_nodes (L1Plan _) = []"
| "payload_toc_nodes (L1Online p) = lo_toc_nodes p"
| "payload_toc_nodes (L2Design p) = ld_toc_nodes p"
| "payload_toc_nodes (L2AtomicClaim p) = lc_toc_nodes p"

fun payload_version :: "egress_payload \<Rightarrow> version_metadata option" where
  "payload_version (L1Online p) = Some (lo_version p)"
| "payload_version (L1Plan p) = Some (lp_version p)"
| "payload_version (L2Design p) = Some (ld_version p)"
| "payload_version (L2AtomicClaim p) = Some (lc_version p)"
| "payload_version (Judge _) = None"

fun payload_claim_id :: "egress_payload \<Rightarrow> string option" where
  "payload_claim_id (L2AtomicClaim p) = Some (lc_atomic_claim_id p)"
| "payload_claim_id _ = None"

fun expected_use :: "egress_payload \<Rightarrow> provider_use" where
  "expected_use (Judge _) = OfflineJudge"
| "expected_use _ = OnlineMain"

section \<open>Guards\<close>

definition validate_version_binding :: "egress_request \<Rightarrow> egress_error + unit" where
  "validate_version_binding r =
     (let version = er_version r; source = er_source_manifest r in
      bind_result (check (vm_source_manifest_id version = sm_manifest_id source)
        ''source_manifest_mismatch'') (\<lambda>_.
      bind_result (check (vm_document_id version = sm_document_id source)
        ''document_id_mismatch'') (\<lambda>_.
      bind_result (check (vm_document_version version = sm_document_version source)
        ''document_version_mismatch'') (\<lambda>_.
      bind_result (check (case payload_version (er_payload r) of
          None \<Rightarrow> True | Some v \<Rightarrow> v = version) ''payload_version_mismatch'') (\<lambda>_.
      check (list_all (\<lambda>e. ee_corpus_manifest_id e = vm_corpus_manifest_id version)
        (payload_excerpts (er_payload r))) ''corpus_manifest_mismatch'')))))"

definition stored_source_manifest ::
  "enforcer \<Rightarrow> egress_request \<Rightarrow> egress_error + source_manifest" where
  "stored_source_manifest en r =
     (case en_read_source en (vm_source_manifest_id (er_version r)) of
        None \<Rightarrow> reject ''source_manifest_unresolvable''
      | Some stored \<Rightarrow>
          if stored \<noteq> er_source_manifest r then reject ''source_manifest_untrusted''
          else Inr stored)"

definition authorization_time :: "enforcer \<Rightarrow> egress_error + int" where
  "authorization_time en =
     (case en_clock en of
        ClockRaises \<Rightarrow> reject ''authorization_clock_invalid''
      | ClockNotAware \<Rightarrow> reject ''authorization_clock_invalid''
      | ClockAt t \<Rightarrow> Inr t)"

definition verify_counter :: "counter_object \<Rightarrow> egress_request \<Rightarrow> egress_error + token_counter" where
  "verify_counter counter r =
     (case counter of
        NoCounter \<Rightarrow> Inl (TokenAccountingUnavailable ''token_accounting_unavailable'')
      | MalformedCounter \<Rightarrow> Inl (TokenAccountingUnavailable ''token_accounting_unavailable'')
      | Counter tc \<Rightarrow>
          if tc_provider_id tc \<noteq> rb_provider_id (er_route r) \<or> tc_model_id tc \<noteq> er_model_id r
          then Inl (TokenAccountingUnavailable ''token_counter_incompatible'')
          else Inr tc)"

definition count :: "token_counter \<Rightarrow> string \<Rightarrow> egress_error + nat" where
  "count tc text =
     (case tc_count_tokens tc text of
        CountRaises \<Rightarrow> Inl (TokenAccountingUnavailable ''token_accounting_unavailable'')
      | CountNotInt \<Rightarrow> Inl (TokenAccountingUnavailable ''token_accounting_unavailable'')
      | CountInt n \<Rightarrow>
          if n \<le> 0 then Inl (TokenAccountingUnavailable ''token_accounting_unavailable'')
          else Inr (nat n))"

section \<open>Derivation\<close>

definition fact_of ::
  "(string \<Rightarrow> string) \<Rightarrow> evidence_excerpt \<Rightarrow> nat \<Rightarrow> disclosure_fact" where
  "fact_of sha256 e tokens = \<lparr>
     df_disclosure_id = disclosure_id sha256 (ee_corpus_manifest_id e) (ee_content_hash e)
       (ee_quote_hash e) (ee_span e),
     df_corpus_manifest_id = ee_corpus_manifest_id e,
     df_content_hash = ee_content_hash e,
     df_quote_hash = ee_quote_hash e,
     df_span = ee_span e,
     df_token_count = tokens,
     df_byte_count = length (ee_quote e)\<rparr>"

fun derive_excerpts ::
  "(string \<Rightarrow> string) \<Rightarrow> token_counter \<Rightarrow> cap_vector \<Rightarrow> evidence_excerpt list \<Rightarrow>
   disclosure_fact list \<Rightarrow> nat \<Rightarrow> nat \<Rightarrow> egress_error + disclosure_fact list \<times> nat \<times> nat" where
  "derive_excerpts sha256 tc cap [] ds tokens nbytes = Inr (ds, tokens, nbytes)"
| "derive_excerpts sha256 tc cap (e # es) ds tokens nbytes =
     bind_result (count tc (ee_quote e)) (\<lambda>token_count.
       let byte_count = length (ee_quote e); fact = fact_of sha256 e token_count in
       if token_count > cap_tokens cap then reject ''excerpt_tokens_exceeded''
       else if byte_count > cap_bytes cap then reject ''excerpt_bytes_exceeded''
       else if \<not> disclosure_fact_valid fact then Inl ContractError
       else derive_excerpts sha256 tc cap es (ds @ [fact]) (tokens + token_count)
         (nbytes + byte_count))"

definition check_projected_text ::
  "token_counter \<Rightarrow> cap_snapshot \<Rightarrow> egress_payload \<Rightarrow> egress_error + unit" where
  "check_projected_text tc snapshot payload =
     (case (projected_text payload, cs_projected_text_tokens snapshot) of
        (Some text, Some limit) \<Rightarrow>
          bind_result (count tc text) (\<lambda>n.
            check (n \<le> limit) ''projected_text_tokens_exceeded'')
      | _ \<Rightarrow> Inr ())"

definition derive :: "enforcer \<Rightarrow> egress_request \<Rightarrow> counter_object \<Rightarrow>
    egress_error + derived_reservation" where
  "derive en r counter =
     (let payload = er_payload r; kind = payload_kind payload in
      bind_result (check (case payload_task_level payload of
          None \<Rightarrow> True | Some level \<Rightarrow> level = er_task_level r) ''task_level_mismatch'') (\<lambda>_.
      bind_result (check
        (case map_of (ep_stage_payload_allowlist (en_policy en)) (stage_value (er_stage r)) of
          None \<Rightarrow> False | Some allowed \<Rightarrow> kind \<in> set allowed) ''stage_payload_mismatch'') (\<lambda>_.
      bind_result (check (rb_use (er_route r) = expected_use payload) ''stage_route_mismatch'') (\<lambda>_.
      bind_result (validate_version_binding r) (\<lambda>_.
      bind_result (stored_source_manifest en r) (\<lambda>stored.
      bind_result (authorization_time en) (\<lambda>at.
      bind_result (check (authorizes stored (er_route r) at) ''route_unauthorized'') (\<lambda>_.
      bind_result (verify_counter counter r) (\<lambda>tc.
      bind_result
        (case policy_snapshot (en_policy en) (er_task_level r) kind
            (vm_document_id (er_version r)) of
          None \<Rightarrow> reject ''corpus_document_cap_missing'' | Some cs \<Rightarrow> Inr cs) (\<lambda>snapshot.
      bind_result (check_projected_text tc snapshot payload) (\<lambda>_.
      bind_result (derive_excerpts (en_sha256 en) tc (cs_excerpt snapshot)
          (payload_excerpts payload) [] 0 0) (\<lambda>(disclosures, tokens, nbytes).
      bind_result (check (length (payload_toc_nodes payload) \<le> cs_toc_per_call snapshot)
        ''toc_call_exceeded'') (\<lambda>_.
      Inr \<lparr>dr_cap_snapshot = snapshot, dr_disclosures = disclosures,
        dr_transmitted_tokens = tokens, dr_transmitted_bytes = nbytes,
        dr_toc_delta = length (payload_toc_nodes payload),
        dr_atomic_claim_id = payload_claim_id payload\<rparr>)))))))))))))"

definition prepare :: "enforcer \<Rightarrow> egress_request \<Rightarrow> counter_object \<Rightarrow>
    egress_error + reservation_request" where
  "prepare en r counter =
     bind_result (derive en r counter) (\<lambda>derived. Inr \<lparr>
       rr_evaluation_root_id = er_evaluation_root_id r, rr_run_id = er_run_id r,
       rr_task_level = er_task_level r, rr_version = er_version r, rr_stage = er_stage r,
       rr_route = er_route r, rr_model_id = er_model_id r,
       rr_source_manifest = er_source_manifest r, rr_projected_payload = er_payload r,
       rr_disclosures = dr_disclosures derived, rr_attributes = reservation_request_fields\<rparr>)"

definition canonical_request :: "reservation_request \<Rightarrow> egress_request" where
  "canonical_request rr = \<lparr>
     er_evaluation_root_id = rr_evaluation_root_id rr, er_run_id = rr_run_id rr,
     er_task_level = rr_task_level rr, er_version = rr_version rr, er_stage = rr_stage rr,
     er_route = rr_route rr, er_model_id = rr_model_id rr,
     er_source_manifest = rr_source_manifest rr, er_payload = rr_projected_payload rr\<rparr>"

section \<open>What a derivation guarantees\<close>

definition priced ::
  "(string \<Rightarrow> string) \<Rightarrow> token_counter \<Rightarrow> cap_vector \<Rightarrow> evidence_excerpt \<Rightarrow> disclosure_fact \<Rightarrow> bool" where
  "priced sha256 tc cap e f \<longleftrightarrow>
     f = fact_of sha256 e (df_token_count f) \<and> count tc (ee_quote e) = Inr (df_token_count f) \<and>
     df_token_count f \<le> cap_tokens cap \<and> df_byte_count f \<le> cap_bytes cap \<and>
     disclosure_fact_valid f"

lemma count_positive: "count tc text = Inr n \<Longrightarrow> 0 < n"
  by (auto simp: count_def split: count_outcome.splits if_splits)

lemma derive_excerpts_Inr:
  "derive_excerpts sha256 tc cap es ds t b = Inr (ds', t', b') \<Longrightarrow>
    \<exists>fs. ds' = ds @ fs \<and> list_all2 (priced sha256 tc cap) es fs \<and>
      t' = t + (\<Sum>f\<leftarrow>fs. df_token_count f) \<and> b' = b + (\<Sum>f\<leftarrow>fs. df_byte_count f)"
proof (induction es arbitrary: ds t b)
  case Nil
  then show ?case by simp
next
  case (Cons e es)
  from Cons.prems obtain n where n: "count tc (ee_quote e) = Inr n"
    "n \<le> cap_tokens cap" "length (ee_quote e) \<le> cap_bytes cap"
    "disclosure_fact_valid (fact_of sha256 e n)"
    "derive_excerpts sha256 tc cap es (ds @ [fact_of sha256 e n]) (t + n)
       (b + length (ee_quote e)) = Inr (ds', t', b')"
    by (auto simp: result_simps Let_def split: if_splits)
  from Cons.IH [OF n(5)] obtain fs where fs: "ds' = ds @ fact_of sha256 e n # fs"
    "list_all2 (priced sha256 tc cap) es fs"
    "t' = t + n + (\<Sum>f\<leftarrow>fs. df_token_count f)"
    "b' = b + length (ee_quote e) + (\<Sum>f\<leftarrow>fs. df_byte_count f)" by auto
  have "priced sha256 tc cap e (fact_of sha256 e n)"
    using n by (simp add: priced_def fact_of_def)
  with fs show ?case
    by (intro exI [of _ "fact_of sha256 e n # fs"]) (simp add: fact_of_def)
qed

lemma derive_excerpts_Inl:
  "derive_excerpts sha256 tc cap es ds t b = Inl e \<Longrightarrow>
    e \<in> {EgressPolicyViolation ''excerpt_tokens_exceeded'',
         EgressPolicyViolation ''excerpt_bytes_exceeded'',
         TokenAccountingUnavailable ''token_accounting_unavailable'', ContractError}"
  by (induction es arbitrary: ds t b)
    (auto simp: result_simps Let_def count_def split: if_splits count_outcome.splits)

text \<open>Everything a successful derivation has checked, and what it computed.\<close>

lemma derive_Inr:
  assumes "derive en r counter = Inr d"
  obtains stored at tc where
    "payload_task_level (er_payload r) \<in> {None, Some (er_task_level r)}"
    "\<exists>allowed. map_of (ep_stage_payload_allowlist (en_policy en)) (stage_value (er_stage r)) =
       Some allowed \<and> payload_kind (er_payload r) \<in> set allowed"
    "rb_use (er_route r) = expected_use (er_payload r)"
    "validate_version_binding r = Inr ()"
    "en_read_source en (vm_source_manifest_id (er_version r)) = Some stored"
    "stored = er_source_manifest r" "en_clock en = ClockAt at"
    "authorizes stored (er_route r) at" "counter = Counter tc"
    "tc_provider_id tc = rb_provider_id (er_route r)" "tc_model_id tc = er_model_id r"
    "policy_snapshot (en_policy en) (er_task_level r) (payload_kind (er_payload r))
       (vm_document_id (er_version r)) = Some (dr_cap_snapshot d)"
    "check_projected_text tc (dr_cap_snapshot d) (er_payload r) = Inr ()"
    "list_all2 (priced (en_sha256 en) tc (cs_excerpt (dr_cap_snapshot d)))
       (payload_excerpts (er_payload r)) (dr_disclosures d)"
    "dr_transmitted_tokens d = (\<Sum>f\<leftarrow>dr_disclosures d. df_token_count f)"
    "dr_transmitted_bytes d = (\<Sum>f\<leftarrow>dr_disclosures d. df_byte_count f)"
    "dr_toc_delta d = length (payload_toc_nodes (er_payload r))"
    "dr_toc_delta d \<le> cs_toc_per_call (dr_cap_snapshot d)"
    "dr_atomic_claim_id d = payload_claim_id (er_payload r)"
proof -
  note D = assms [unfolded derive_def Let_def, simplified result_simps]
  from D obtain stored at tc cs ds t b where
    1: "case payload_task_level (er_payload r) of None \<Rightarrow> True | Some l \<Rightarrow> l = er_task_level r"
    and 2: "case map_of (ep_stage_payload_allowlist (en_policy en)) (stage_value (er_stage r)) of
      None \<Rightarrow> False | Some allowed \<Rightarrow> payload_kind (er_payload r) \<in> set allowed"
    and 3: "rb_use (er_route r) = expected_use (er_payload r)"
      "validate_version_binding r = Inr ()"
    and 4: "stored_source_manifest en r = Inr stored" and 5: "authorization_time en = Inr at"
    and 6: "authorizes stored (er_route r) at" and 7: "verify_counter counter r = Inr tc"
    and 8: "policy_snapshot (en_policy en) (er_task_level r) (payload_kind (er_payload r))
       (vm_document_id (er_version r)) = Some cs"
    and 9: "check_projected_text tc cs (er_payload r) = Inr ()"
    and 10: "derive_excerpts (en_sha256 en) tc (cs_excerpt cs) (payload_excerpts (er_payload r))
       [] 0 0 = Inr (ds, t, b)"
    and 11: "length (payload_toc_nodes (er_payload r)) \<le> cs_toc_per_call cs"
    and d: "d = \<lparr>dr_cap_snapshot = cs, dr_disclosures = ds, dr_transmitted_tokens = t,
      dr_transmitted_bytes = b, dr_toc_delta = length (payload_toc_nodes (er_payload r)),
      dr_atomic_claim_id = payload_claim_id (er_payload r)\<rparr>"
    by (auto simp: result_simps split: option.splits prod.splits)
  from derive_excerpts_Inr [OF 10] have facts:
    "list_all2 (priced (en_sha256 en) tc (cs_excerpt cs)) (payload_excerpts (er_payload r)) ds"
    "t = (\<Sum>f\<leftarrow>ds. df_token_count f)" "b = (\<Sum>f\<leftarrow>ds. df_byte_count f)" by auto
  from 4 have s: "en_read_source en (vm_source_manifest_id (er_version r)) = Some stored"
    "stored = er_source_manifest r"
    by (auto simp: stored_source_manifest_def split: option.splits if_splits)
  from 5 have c: "en_clock en = ClockAt at"
    by (auto simp: authorization_time_def split: clock_outcome.splits)
  from 7 have v: "counter = Counter tc" "tc_provider_id tc = rb_provider_id (er_route r)"
    "tc_model_id tc = er_model_id r"
    by (auto simp: verify_counter_def split: counter_object.splits if_splits)
  show ?thesis
    by (rule that [of stored at tc]) (use 1 2 3 6 8 9 11 d facts s c v in \<open>auto split: option.splits\<close>)
qed

lemma priced_ids:
  assumes "list_all2 (priced sha256 tc cap) es fs"
  shows "map df_disclosure_id fs = map (\<lambda>e. disclosure_id sha256 (ee_corpus_manifest_id e)
    (ee_content_hash e) (ee_quote_hash e) (ee_span e)) es"
  using assms
proof (induction rule: list_all2_induct)
  case (Cons e es f fs)
  then have "f = fact_of sha256 e (df_token_count f)" by (simp add: priced_def)
  then have "df_disclosure_id f = disclosure_id sha256 (ee_corpus_manifest_id e)
    (ee_content_hash e) (ee_quote_hash e) (ee_span e)"
    by (metis disclosure_fact.select_convs(1) fact_of_def)
  with Cons show ?case by simp
qed simp

lemma prepare_Inr:
  assumes "prepare en r counter = Inr rr"
  obtains d where "derive en r counter = Inr d" "canonical_request rr = r"
    "rr_disclosures rr = dr_disclosures d" "rr_attributes rr = reservation_request_fields"
  using assms by (cases r) (auto simp: prepare_def canonical_request_def result_simps)

end
