(* ===== verification/EnforcerAccounting.thy ===== *)
theory EnforcerAccounting
  imports EnforcerDerive
begin

text \<open>
  The second half of \<open>egress/enforcer.py\<close>: applying a derived reservation to the two budget
  scopes it moves, the evaluation root's usage snapshot and the corpus usage with its
  per-document shares. Every cap is checked on the totals after the reservation, before
  anything is returned.
\<close>

section \<open>Small helpers\<close>

text \<open>A dict comprehension keeps the last value of a repeated key.\<close>

definition facts_by_id :: "disclosure_fact list \<Rightarrow> string \<Rightarrow> disclosure_fact option" where
  "facts_by_id fs = map_of (rev (map (\<lambda>f. (df_disclosure_id f, f)) fs))"

definition unique_sizes ::
  "string list \<Rightarrow> (string \<Rightarrow> disclosure_fact option) \<Rightarrow> egress_error + nat \<times> nat" where
  "unique_sizes ids facts =
     (if list_ex (\<lambda>i. facts i = None) ids then Inl PyKeyError
      else Inr (\<Sum>i\<leftarrow>ids. df_token_count (the (facts i)),
                \<Sum>i\<leftarrow>ids. df_byte_count (the (facts i))))"

definition check_unique_cap ::
  "string list \<Rightarrow> nat \<Rightarrow> nat \<Rightarrow> cap_vector \<Rightarrow> string \<Rightarrow> egress_error + unit" where
  "check_unique_cap ids tokens byte_count cap prefix =
     bind_result (check (length ids \<le> cap_excerpts cap) (prefix @ ''_excerpts_exceeded'')) (\<lambda>_.
     bind_result (check (tokens \<le> cap_tokens cap) (prefix @ ''_tokens_exceeded'')) (\<lambda>_.
     check (byte_count \<le> cap_bytes cap) (prefix @ ''_bytes_exceeded'')))"

definition check_transmitted_cap ::
  "nat \<Rightarrow> nat \<Rightarrow> cap_vector \<Rightarrow> string \<Rightarrow> egress_error + unit" where
  "check_transmitted_cap tokens byte_count cap prefix =
     bind_result (check (tokens \<le> cap_tokens cap) (prefix @ ''_tokens_exceeded'')) (\<lambda>_.
     check (byte_count \<le> cap_bytes cap) (prefix @ ''_bytes_exceeded''))"

definition request_ids :: "derived_reservation \<Rightarrow> string list" where
  "request_ids d = map df_disclosure_id (dr_disclosures d)"

section \<open>Corpus and document shares\<close>

fun charge_facts :: "string list \<Rightarrow> nat \<Rightarrow> nat \<Rightarrow> disclosure_fact list \<Rightarrow> nat \<times> nat" where
  "charge_facts known tokens nbytes [] = (tokens, nbytes)"
| "charge_facts known tokens nbytes (f # fs) =
     (if df_disclosure_id f \<in> set known then charge_facts known tokens nbytes fs
      else charge_facts (df_disclosure_id f # known) (tokens + df_token_count f)
        (nbytes + df_byte_count f) fs)"

definition document_account :: "corpus_usage \<Rightarrow> string \<Rightarrow> corpus_document_usage option" where
  "document_account u document_id =
     map_of (rev (map (\<lambda>a. (du_document_id a, a)) (co_document_usage u))) document_id"

definition apply_document_usage ::
  "corpus_usage \<Rightarrow> string \<Rightarrow> derived_reservation \<Rightarrow>
   egress_error + corpus_document_usage list" where
  "apply_document_usage existing document_id d =
     (let current = (case document_account existing document_id of
            None \<Rightarrow> empty_document_usage document_id | Some a \<Rightarrow> a);
          (tokens, nbytes) = charge_facts (du_disclosure_ids current) (du_unique_tokens current)
            (du_unique_bytes current) (dr_disclosures d);
          ids = ordered_union (du_disclosure_ids current) (request_ids d);
          new = \<lparr>du_document_id = document_id, du_disclosure_ids = ids,
            du_unique_tokens = tokens, du_unique_bytes = nbytes\<rparr>
      in bind_result (check_unique_cap ids tokens nbytes
           (cs_corpus_document_unique (dr_cap_snapshot d)) ''corpus_document_unique'') (\<lambda>_.
         Inr (map (\<lambda>k. if k = document_id then new else the (document_account existing k))
           (sort (remdups (document_id # map du_document_id (co_document_usage existing)))))))"

definition apply_corpus_usage ::
  "corpus_usage option \<Rightarrow> reservation_request \<Rightarrow> derived_reservation \<Rightarrow> string \<Rightarrow>
   egress_error + corpus_usage" where
  "apply_corpus_usage existing0 rr d phash =
     (let corpus_manifest_id = vm_corpus_manifest_id (rr_version rr);
          existing = (case existing0 of
            None \<Rightarrow> empty_corpus_usage corpus_manifest_id phash | Some u \<Rightarrow> u)
      in
      bind_result (check (co_corpus_manifest_id existing = corpus_manifest_id)
        ''corpus_usage_mismatch'') (\<lambda>_.
      bind_result (check (co_policy_hash existing = phash) ''policy_snapshot_mismatch'') (\<lambda>_.
      let (tokens, nbytes) = charge_facts (co_disclosure_ids existing) (co_unique_tokens existing)
            (co_unique_bytes existing) (dr_disclosures d);
          ids = ordered_union (co_disclosure_ids existing) (request_ids d)
      in
      bind_result (check_unique_cap ids tokens nbytes
        (cs_corpus_unique (dr_cap_snapshot d)) ''corpus_unique'') (\<lambda>_.
      bind_result (apply_document_usage existing (vm_document_id (rr_version rr)) d) (\<lambda>docs.
      Inr \<lparr>co_corpus_manifest_id = corpus_manifest_id, co_policy_hash = phash,
        co_disclosure_ids = ids, co_unique_tokens = tokens, co_unique_bytes = nbytes,
        co_document_usage = docs\<rparr>)))))"

section \<open>Routes, stages, claims and runs\<close>

definition updated_route_usage ::
  "route_usage list \<Rightarrow> reservation_request \<Rightarrow> derived_reservation \<Rightarrow>
   (string \<Rightarrow> disclosure_fact option) \<Rightarrow> egress_error + route_usage list" where
  "updated_route_usage usages rr d facts =
     upsert_result (\<lambda>u. ru_route u = rr_route rr)
       (\<lambda>u. let ids = ordered_union (ru_disclosure_ids u) (request_ids d) in
         bind_result (unique_sizes ids facts) (\<lambda>(tokens, nbytes).
           Inr (u\<lparr>ru_disclosure_ids := ids, ru_unique_tokens := tokens,
             ru_unique_bytes := nbytes\<rparr>)))
       (let ids = ordered_union [] (request_ids d) in
         bind_result (unique_sizes ids facts) (\<lambda>(tokens, nbytes).
           Inr \<lparr>ru_route = rr_route rr, ru_disclosure_ids = ids, ru_unique_tokens = tokens,
             ru_unique_bytes = nbytes\<rparr>))
       usages"

definition updated_stage_usage ::
  "stage_usage list \<Rightarrow> reservation_request \<Rightarrow> derived_reservation \<Rightarrow> stage_usage list" where
  "updated_stage_usage usages rr d =
     upsert (\<lambda>u. su_stage u = rr_stage rr)
       (\<lambda>u. u\<lparr>su_transmitted_tokens := su_transmitted_tokens u + dr_transmitted_tokens d,
         su_transmitted_bytes := su_transmitted_bytes u + dr_transmitted_bytes d,
         su_transmissions := su_transmissions u + 1\<rparr>)
       \<lparr>su_stage = rr_stage rr, su_transmitted_tokens = dr_transmitted_tokens d,
         su_transmitted_bytes = dr_transmitted_bytes d, su_transmissions = 1\<rparr>
       usages"

definition updated_claim_usage ::
  "claim_usage list \<Rightarrow> string \<Rightarrow> (string \<Rightarrow> disclosure_fact option) \<Rightarrow>
   derived_reservation \<Rightarrow> egress_error + claim_usage list" where
  "updated_claim_usage usages claim_id facts d =
     (case cs_claim_unique (dr_cap_snapshot d) of
        None \<Rightarrow> reject ''claim_payload_mismatch''
      | Some cap \<Rightarrow>
          upsert_result (\<lambda>u. cu_atomic_claim_id u = claim_id)
            (\<lambda>u. let ids = ordered_union (cu_disclosure_ids u) (request_ids d) in
              bind_result (unique_sizes ids facts) (\<lambda>(tokens, nbytes).
              bind_result (check_unique_cap ids tokens nbytes cap ''claim_unique'') (\<lambda>_.
                Inr (u\<lparr>cu_disclosure_ids := ids, cu_unique_tokens := tokens,
                  cu_unique_bytes := nbytes\<rparr>))))
            (let ids = ordered_union [] (request_ids d) in
              bind_result (unique_sizes ids facts) (\<lambda>(tokens, nbytes).
              bind_result (check_unique_cap ids tokens nbytes cap ''claim_unique'') (\<lambda>_.
                Inr \<lparr>cu_atomic_claim_id = claim_id, cu_disclosure_ids = ids,
                  cu_unique_tokens = tokens, cu_unique_bytes = nbytes\<rparr>)))
            usages)"

definition apply_to_run ::
  "run_usage \<Rightarrow> derived_reservation \<Rightarrow> (string \<Rightarrow> disclosure_fact option) \<Rightarrow>
   egress_error + run_usage" where
  "apply_to_run usage d facts =
     bind_result
       (case dr_atomic_claim_id d of
          None \<Rightarrow> Inr (nu_claim_usage usage)
        | Some claim_id \<Rightarrow>
            bind_result (updated_claim_usage (nu_claim_usage usage) claim_id facts d) (\<lambda>claims.
            bind_result (check (length claims \<le> cs_max_claims_per_run (dr_cap_snapshot d))
              ''claim_count_exceeded'') (\<lambda>_. Inr claims))) (\<lambda>claims.
     let ids = ordered_union (nu_disclosure_ids usage) (request_ids d) in
     bind_result (unique_sizes ids facts) (\<lambda>(tokens, nbytes).
     case (cs_online_unique (dr_cap_snapshot d), cs_online_transmitted (dr_cap_snapshot d)) of
       (Some online_cap, Some transmitted_cap) \<Rightarrow>
         bind_result (check_unique_cap ids tokens nbytes online_cap ''online_unique'') (\<lambda>_.
         let sent_tokens = nu_transmitted_tokens usage + dr_transmitted_tokens d;
             sent_bytes = nu_transmitted_bytes usage + dr_transmitted_bytes d in
         bind_result (check_transmitted_cap sent_tokens sent_bytes transmitted_cap
           ''online_transmitted'') (\<lambda>_.
         let toc = nu_toc_nodes usage + dr_toc_delta d in
         bind_result (check (toc \<le> cs_toc_per_run (dr_cap_snapshot d)) ''toc_run_exceeded'') (\<lambda>_.
         Inr \<lparr>nu_run_id = nu_run_id usage, nu_disclosure_ids = ids, nu_unique_tokens = tokens,
           nu_unique_bytes = nbytes, nu_transmitted_tokens = sent_tokens,
           nu_transmitted_bytes = sent_bytes, nu_toc_nodes = toc, nu_claim_usage = claims\<rparr>)))
     | _ \<Rightarrow> reject ''stage_payload_mismatch''))"

definition updated_online_run_usage ::
  "run_usage list \<Rightarrow> reservation_request \<Rightarrow> derived_reservation \<Rightarrow>
   (string \<Rightarrow> disclosure_fact option) \<Rightarrow> egress_error + run_usage list" where
  "updated_online_run_usage usages rr d facts =
     upsert_result (\<lambda>u. nu_run_id u = rr_run_id rr) (\<lambda>u. apply_to_run u d facts)
       (apply_to_run (empty_run_usage (rr_run_id rr)) d facts) usages"

section \<open>The evaluation root\<close>

text \<open>
  The loop over the request's facts: \<open>seen\<close> is \<open>request_by_id.values()\<close> so far. A repeated
  identifier is accepted only with equal metadata, so overwriting it changes nothing.
\<close>

fun collect_request ::
  "(string \<Rightarrow> disclosure_fact option) \<Rightarrow> disclosure_fact list \<Rightarrow> disclosure_fact list \<Rightarrow>
   egress_error + disclosure_fact list" where
  "collect_request existing seen [] = Inr seen"
| "collect_request existing seen (f # fs) =
     (let known = existing (df_disclosure_id f);
          within_request = facts_by_id seen (df_disclosure_id f) in
      if (known \<noteq> None \<and> known \<noteq> Some f) \<or> (within_request \<noteq> None \<and> within_request \<noteq> Some f)
      then reject ''disclosure_fact_mismatch''
      else collect_request existing (if within_request = None then seen @ [f] else seen) fs)"

definition judge_update ::
  "usage_snapshot \<Rightarrow> derived_reservation \<Rightarrow> disclosure_fact list \<Rightarrow>
   (string \<Rightarrow> disclosure_fact option) \<Rightarrow> egress_error + usage_snapshot" where
  "judge_update u d requested facts =
     (let ids = ordered_union (us_judge_disclosure_ids u) (map df_disclosure_id requested) in
      bind_result (unique_sizes ids facts) (\<lambda>(tokens, nbytes).
      bind_result (check_unique_cap ids tokens nbytes
        (cs_judge_unique (dr_cap_snapshot d)) ''judge_unique'') (\<lambda>_.
      let sent_tokens = us_judge_transmitted_tokens u + dr_transmitted_tokens d;
          sent_bytes = us_judge_transmitted_bytes u + dr_transmitted_bytes d in
      bind_result (check_transmitted_cap sent_tokens sent_bytes
        (cs_judge_transmitted (dr_cap_snapshot d)) ''judge_transmitted'') (\<lambda>_.
      Inr (u\<lparr>us_judge_disclosure_ids := ids, us_judge_unique_tokens := tokens,
        us_judge_unique_bytes := nbytes, us_judge_transmitted_tokens := sent_tokens,
        us_judge_transmitted_bytes := sent_bytes\<rparr>)))))"

definition apply_usage ::
  "usage_snapshot option \<Rightarrow> reservation_request \<Rightarrow> derived_reservation \<Rightarrow> string \<Rightarrow>
   egress_error + usage_snapshot" where
  "apply_usage existing0 rr d phash =
     (let existing = (case existing0 of
            None \<Rightarrow> empty_usage_snapshot (rr_evaluation_root_id rr) (rr_task_level rr) phash
          | Some u \<Rightarrow> u)
      in
      bind_result (check (us_evaluation_root_id existing = rr_evaluation_root_id rr)
        ''evaluation_root_mismatch'') (\<lambda>_.
      bind_result (check (us_task_level existing = rr_task_level rr) ''task_level_mismatch'') (\<lambda>_.
      bind_result (check (us_policy_hash existing = phash) ''policy_snapshot_mismatch'') (\<lambda>_.
      bind_result (collect_request (facts_by_id (us_disclosures existing)) []
        (dr_disclosures d)) (\<lambda>requested.
      let merged = us_disclosures existing @
            filter (\<lambda>f. facts_by_id (us_disclosures existing) (df_disclosure_id f) = None) requested;
          facts = facts_by_id merged; root_ids = map df_disclosure_id merged in
      bind_result (unique_sizes root_ids facts) (\<lambda>(root_tokens, root_bytes).
      bind_result (check_unique_cap root_ids root_tokens root_bytes
        (cs_root_unique (dr_cap_snapshot d)) ''root_unique'') (\<lambda>_.
      let sent_tokens = us_root_transmitted_tokens existing + dr_transmitted_tokens d;
          sent_bytes = us_root_transmitted_bytes existing + dr_transmitted_bytes d in
      bind_result (check_transmitted_cap sent_tokens sent_bytes
        (cs_root_transmitted (dr_cap_snapshot d)) ''root_transmitted'') (\<lambda>_.
      bind_result (updated_route_usage (us_route_usage existing) rr d facts) (\<lambda>routes.
      let stages = updated_stage_usage (us_stage_usage existing) rr d;
          u = existing\<lparr>us_disclosures := merged, us_route_usage := routes,
            us_stage_usage := stages, us_root_unique_tokens := root_tokens,
            us_root_unique_bytes := root_bytes, us_root_transmitted_tokens := sent_tokens,
            us_root_transmitted_bytes := sent_bytes\<rparr> in
      if rr_stage rr = JudgeStage then judge_update u d requested facts
      else bind_result (updated_online_run_usage (us_run_usage existing) rr d facts) (\<lambda>runs.
        Inr (u\<lparr>us_run_usage := runs\<rparr>)))))))))))"

section \<open>Both scopes at once\<close>

definition apply_reservation ::
  "enforcer \<Rightarrow> usage_snapshot option \<Rightarrow> corpus_usage option \<Rightarrow> reservation_request \<Rightarrow>
   counter_object \<Rightarrow> egress_error + reservation_outcome" where
  "apply_reservation en existing_usage existing_corpus rr counter =
     bind_result (check (set (rr_attributes rr) = set reservation_request_fields)
       ''reservation_primitive_invalid'') (\<lambda>_.
     bind_result (derive en (canonical_request rr) counter) (\<lambda>d.
     bind_result (check (rr_disclosures rr = dr_disclosures d)
       ''reservation_accounting_mismatch'') (\<lambda>_.
     let phash = policy_hash (en_sha256 en) (en_policy en) in
     bind_result (apply_usage existing_usage rr d phash) (\<lambda>usage.
     bind_result (apply_corpus_usage existing_corpus rr d phash) (\<lambda>corpus.
     Inr \<lparr>ro_usage = usage, ro_corpus_usage = corpus\<rparr>)))))"

end
