(* ===== verification/UsageInvariants.thy ===== *)
theory UsageInvariants
  imports EnforcerAccounting
begin

text \<open>
  What holds of every usage snapshot the enforcer writes. An account (a root, a route, a run,
  a claim, the judge) lists identifiers once each, lists only identifiers the snapshot has a
  fact for, and its totals are the sizes of exactly those facts; the transmitted totals of the
  root are what its stages, and what its runs and its judge, have sent.
\<close>

section \<open>Facts by identifier\<close>

lemma facts_by_id_None: "facts_by_id fs i = None \<longleftrightarrow> i \<notin> df_disclosure_id ` set fs"
  by (simp add: facts_by_id_def map_of_eq_None_iff image_comp)

lemma facts_by_id_SomeD: "facts_by_id fs i = Some f \<Longrightarrow> f \<in> set fs \<and> df_disclosure_id f = i"
  by (auto simp: facts_by_id_def dest!: map_of_SomeD)

lemma facts_by_id_member:
  assumes "distinct (map df_disclosure_id fs)" and "f \<in> set fs"
  shows "facts_by_id fs (df_disclosure_id f) = Some f"
proof (cases "facts_by_id fs (df_disclosure_id f)")
  case None
  with assms(2) show ?thesis by (simp add: facts_by_id_None)
next
  case (Some g)
  from facts_by_id_SomeD [OF this] have "g \<in> set fs" "df_disclosure_id g = df_disclosure_id f"
    by auto
  with assms have "g = f" by (metis distinct_map inj_onD)
  with Some show ?thesis by simp
qed

lemma facts_by_id_append:
  "facts_by_id (xs @ ys) i =
    (case facts_by_id ys i of None \<Rightarrow> facts_by_id xs i | Some f \<Rightarrow> Some f)"
  unfolding facts_by_id_def by (simp add: map_add_def split: option.split)

lemma facts_by_id_keep:
  assumes "i \<notin> df_disclosure_id ` set ys"
  shows "facts_by_id (xs @ ys) i = facts_by_id xs i"
proof -
  from assms have "facts_by_id ys i = None" by (simp add: facts_by_id_None)
  then show ?thesis by (simp add: facts_by_id_append)
qed

definition agrees :: "(string \<Rightarrow> disclosure_fact option) \<Rightarrow> disclosure_fact \<Rightarrow> bool" where
  "agrees ex f \<longleftrightarrow> ex (df_disclosure_id f) \<in> {None, Some f}"

lemma collect_request_Cons:
  assumes "collect_request ex seen (f # fs) = Inr out"
  obtains "agrees ex f" "f \<in> set seen" "collect_request ex seen fs = Inr out"
  | "agrees ex f" "df_disclosure_id f \<notin> df_disclosure_id ` set seen"
    "collect_request ex (seen @ [f]) fs = Inr out"
proof (cases "facts_by_id seen (df_disclosure_id f)")
  case None
  with assms show ?thesis
    by (intro that(2)) (auto simp: Let_def agrees_def facts_by_id_None [symmetric] split: if_splits)
next
  case (Some g)
  with assms have "g = f" by (auto simp: Let_def split: if_splits)
  with facts_by_id_SomeD [OF Some] have "f \<in> set seen" by simp
  with assms Some show ?thesis
    by (intro that(1)) (auto simp: Let_def agrees_def split: if_splits)
qed

lemma collect_request_Inr:
  assumes "collect_request ex seen fs = Inr out" and "distinct (map df_disclosure_id seen)"
    and "\<forall>f \<in> set seen. agrees ex f"
  shows "distinct (map df_disclosure_id out) \<and> set out = set seen \<union> set fs \<and>
    map df_disclosure_id out =
      ordered_union (map df_disclosure_id seen) (map df_disclosure_id fs) \<and>
    (\<forall>f \<in> set out. agrees ex f)"
  using assms
proof (induction fs arbitrary: seen)
  case Nil
  then show ?case by simp
next
  case (Cons f fs)
  from Cons.prems(1) show ?case
  proof (cases rule: collect_request_Cons)
    case 1
    with Cons.IH [OF 1(3) Cons.prems(2,3)] show ?thesis by (auto simp: insert_absorb)
  next
    case 2
    with Cons.prems have "distinct (map df_disclosure_id (seen @ [f]))"
      "\<forall>g \<in> set (seen @ [f]). agrees ex g" by auto
    from Cons.IH [OF 2(3) this] 2(2) Cons.prems(2) show ?thesis by simp
  qed
qed

lemma collect_request_Inl:
  "collect_request ex seen fs = Inl e \<Longrightarrow>
    e = EgressPolicyViolation ''disclosure_fact_mismatch''"
  by (induction fs arbitrary: seen) (auto simp: Let_def split: if_splits)

section \<open>Accounts\<close>

definition account_wf :: "disclosure_fact list \<Rightarrow> string list \<Rightarrow> nat \<Rightarrow> nat \<Rightarrow> bool" where
  "account_wf fs ids tokens nbytes \<longleftrightarrow>
     distinct ids \<and> unique_sizes ids (facts_by_id fs) = Inr (tokens, nbytes)"

lemma unique_sizes_Inr:
  "unique_sizes ids facts = Inr (t, b) \<longleftrightarrow>
    (\<forall>i \<in> set ids. facts i \<noteq> None) \<and> t = (\<Sum>i\<leftarrow>ids. df_token_count (the (facts i))) \<and>
    b = (\<Sum>i\<leftarrow>ids. df_byte_count (the (facts i)))"
  by (auto simp: unique_sizes_def list_ex_iff)

lemma unique_sizes_Inl:
  "unique_sizes ids facts = Inl e \<longleftrightarrow> e = PyKeyError \<and> (\<exists>i \<in> set ids. facts i = None)"
  by (auto simp: unique_sizes_def list_ex_iff)

lemma account_wf_ids:
  "account_wf fs ids t b \<Longrightarrow> distinct ids \<and> set ids \<subseteq> df_disclosure_id ` set fs"
  by (auto simp: account_wf_def unique_sizes_Inr facts_by_id_None)

lemma unique_sizes_cong:
  "(\<And>i. i \<in> set ids \<Longrightarrow> f i = g i) \<Longrightarrow> unique_sizes ids f = unique_sizes ids g"
  unfolding unique_sizes_def list_ex_iff by (auto cong: sum_list_mono_cong map_cong)

lemma account_wf_extend:
  assumes "account_wf fs ids t b"
    and "df_disclosure_id ` set fs \<inter> df_disclosure_id ` set new = {}"
  shows "account_wf (fs @ new) ids t b"
proof -
  have "facts_by_id (fs @ new) i = facts_by_id fs i" if "i \<in> set ids" for i
    using that assms account_wf_ids [OF assms(1)]
    by (intro facts_by_id_keep) (auto simp: facts_by_id_None)
  then have "unique_sizes ids (facts_by_id (fs @ new)) = unique_sizes ids (facts_by_id fs)"
    by (rule unique_sizes_cong)
  with assms(1) show ?thesis by (simp add: account_wf_def)
qed

lemma account_wf_union:
  assumes "distinct ids" "unique_sizes (ordered_union ids new) (facts_by_id fs) = Inr (t, b)"
  shows "account_wf fs (ordered_union ids new) t b"
  using assms by (simp add: account_wf_def)

lemma account_wf_all:
  assumes "distinct (map df_disclosure_id fs)"
  shows "account_wf fs (map df_disclosure_id fs) t b \<longleftrightarrow>
    t = (\<Sum>f\<leftarrow>fs. df_token_count f) \<and> b = (\<Sum>f\<leftarrow>fs. df_byte_count f)"
proof -
  have "(\<Sum>i\<leftarrow>map df_disclosure_id fs. g (the (facts_by_id fs i))) = (\<Sum>f\<leftarrow>fs. g f)"
    for g :: "disclosure_fact \<Rightarrow> nat"
    using facts_by_id_member [OF assms]
    by (auto intro!: arg_cong [of _ _ sum_list] simp: comp_def)
  then show ?thesis using assms
    by (auto simp: account_wf_def unique_sizes_Inr facts_by_id_None)
qed

section \<open>Well-formed usage\<close>

definition route_wf :: "disclosure_fact list \<Rightarrow> route_usage \<Rightarrow> bool" where
  "route_wf fs u \<longleftrightarrow> account_wf fs (ru_disclosure_ids u) (ru_unique_tokens u) (ru_unique_bytes u)"

definition claim_wf :: "disclosure_fact list \<Rightarrow> claim_usage \<Rightarrow> bool" where
  "claim_wf fs u \<longleftrightarrow> account_wf fs (cu_disclosure_ids u) (cu_unique_tokens u) (cu_unique_bytes u)"

definition run_wf :: "disclosure_fact list \<Rightarrow> run_usage \<Rightarrow> bool" where
  "run_wf fs u \<longleftrightarrow>
     account_wf fs (nu_disclosure_ids u) (nu_unique_tokens u) (nu_unique_bytes u) \<and>
     distinct (map cu_atomic_claim_id (nu_claim_usage u)) \<and>
     (\<forall>c \<in> set (nu_claim_usage u). claim_wf fs c)"

definition transmitted_balanced :: "usage_snapshot \<Rightarrow> bool" where
  "transmitted_balanced u \<longleftrightarrow>
     us_root_transmitted_tokens u = (\<Sum>s\<leftarrow>us_stage_usage u. su_transmitted_tokens s) \<and>
     us_root_transmitted_bytes u = (\<Sum>s\<leftarrow>us_stage_usage u. su_transmitted_bytes s) \<and>
     us_root_transmitted_tokens u =
       (\<Sum>r\<leftarrow>us_run_usage u. nu_transmitted_tokens r) + us_judge_transmitted_tokens u \<and>
     us_root_transmitted_bytes u =
       (\<Sum>r\<leftarrow>us_run_usage u. nu_transmitted_bytes r) + us_judge_transmitted_bytes u \<and>
     us_root_unique_tokens u \<le> us_root_transmitted_tokens u \<and>
     us_root_unique_bytes u \<le> us_root_transmitted_bytes u"

definition usage_wf :: "usage_snapshot \<Rightarrow> bool" where
  "usage_wf u \<longleftrightarrow>
     (let fs = us_disclosures u in
       distinct (map df_disclosure_id fs) \<and>
       account_wf fs (map df_disclosure_id fs) (us_root_unique_tokens u)
         (us_root_unique_bytes u) \<and>
       account_wf fs (us_judge_disclosure_ids u) (us_judge_unique_tokens u)
         (us_judge_unique_bytes u) \<and>
       distinct (map ru_route (us_route_usage u)) \<and>
       (\<forall>r \<in> set (us_route_usage u). route_wf fs r) \<and>
       distinct (map su_stage (us_stage_usage u)) \<and>
       distinct (map nu_run_id (us_run_usage u)) \<and>
       (\<forall>r \<in> set (us_run_usage u). run_wf fs r)) \<and>
     transmitted_balanced u"

lemmas usage_wf_defs = usage_wf_def transmitted_balanced_def route_wf_def run_wf_def claim_wf_def

lemma usage_wf_empty: "usage_wf (empty_usage_snapshot root level ph)"
  by (simp add: usage_wf_defs account_wf_def unique_sizes_def empty_usage_snapshot_def)

lemma run_wf_empty: "run_wf fs (empty_run_usage rid)"
  by (simp add: usage_wf_defs account_wf_def unique_sizes_def empty_run_usage_def)

lemma run_wf_extend:
  "run_wf fs u \<Longrightarrow> df_disclosure_id ` set fs \<inter> df_disclosure_id ` set new = {} \<Longrightarrow>
    run_wf (fs @ new) u"
  by (auto simp: run_wf_def claim_wf_def account_wf_extend)

section \<open>What the update of each scope writes\<close>

lemma check_unique_cap_Inr:
  "check_unique_cap ids t b cap prefix = Inr u \<longleftrightarrow>
    length ids \<le> cap_excerpts cap \<and> t \<le> cap_tokens cap \<and> b \<le> cap_bytes cap"
  by (auto simp: check_unique_cap_def result_simps)

lemma check_transmitted_cap_Inr:
  "check_transmitted_cap t b cap prefix = Inr u \<longleftrightarrow> t \<le> cap_tokens cap \<and> b \<le> cap_bytes cap"
  by (auto simp: check_transmitted_cap_def result_simps)

lemmas cap_checks = check_unique_cap_Inr check_transmitted_cap_Inr

lemma updated_route_usage_wf:
  assumes "updated_route_usage us rr d (facts_by_id fs) = Inr vs"
    and "\<forall>r \<in> set us. route_wf fs r" and "distinct (map ru_route us)"
  shows "(\<forall>r \<in> set vs. route_wf fs r) \<and> distinct (map ru_route vs)"
proof
  note U = assms(1) [unfolded updated_route_usage_def]
  show "\<forall>r \<in> set vs. route_wf fs r"
    using assms(2) by (intro list_all_upsert_result [OF U])
      (auto simp: Let_def result_simps route_wf_def account_wf_def)
  have "map ru_route vs = (if rr_route rr \<in> ru_route ` set us then map ru_route us
      else map ru_route us @ [rr_route rr])"
    by (intro upsert_result_keys [OF U]) (auto simp: Let_def result_simps)
  then show "distinct (map ru_route vs)" using assms(3) by auto
qed

lemma updated_claim_usage_wf:
  assumes "updated_claim_usage us cid (facts_by_id fs) d = Inr vs"
    and "\<forall>r \<in> set us. claim_wf fs r" and "distinct (map cu_atomic_claim_id us)"
  shows "(\<forall>r \<in> set vs. claim_wf fs r) \<and> distinct (map cu_atomic_claim_id vs)"
proof
  from assms(1) obtain cap where "cs_claim_unique (dr_cap_snapshot d) = Some cap"
    by (auto simp: updated_claim_usage_def split: option.splits)
  note U = assms(1) [unfolded updated_claim_usage_def this option.case]
  show "\<forall>r \<in> set vs. claim_wf fs r"
    using assms(2) by (intro list_all_upsert_result [OF U])
      (auto simp: Let_def result_simps claim_wf_def account_wf_def)
  have "map cu_atomic_claim_id vs = (if cid \<in> cu_atomic_claim_id ` set us
      then map cu_atomic_claim_id us else map cu_atomic_claim_id us @ [cid])"
    by (intro upsert_result_keys [OF U]) (auto simp: Let_def result_simps)
  then show "distinct (map cu_atomic_claim_id vs)" using assms(3) by auto
qed

lemma apply_to_run_Inr:
  assumes "apply_to_run u d facts = Inr v"
  obtains claims online sent where
    "claims = nu_claim_usage u \<and> dr_atomic_claim_id d = None \<or>
      (\<exists>cid. dr_atomic_claim_id d = Some cid \<and>
        updated_claim_usage (nu_claim_usage u) cid facts d = Inr claims \<and>
        length claims \<le> cs_max_claims_per_run (dr_cap_snapshot d))"
    "nu_claim_usage v = claims" "nu_run_id v = nu_run_id u"
    "nu_disclosure_ids v = ordered_union (nu_disclosure_ids u) (request_ids d)"
    "unique_sizes (nu_disclosure_ids v) facts = Inr (nu_unique_tokens v, nu_unique_bytes v)"
    "nu_transmitted_tokens v = nu_transmitted_tokens u + dr_transmitted_tokens d"
    "nu_transmitted_bytes v = nu_transmitted_bytes u + dr_transmitted_bytes d"
    "nu_toc_nodes v = nu_toc_nodes u + dr_toc_delta d"
    "nu_toc_nodes v \<le> cs_toc_per_run (dr_cap_snapshot d)"
    "cs_online_unique (dr_cap_snapshot d) = Some online"
    "cs_online_transmitted (dr_cap_snapshot d) = Some sent"
    "length (nu_disclosure_ids v) \<le> cap_excerpts online"
    "nu_unique_tokens v \<le> cap_tokens online" "nu_unique_bytes v \<le> cap_bytes online"
    "nu_transmitted_tokens v \<le> cap_tokens sent" "nu_transmitted_bytes v \<le> cap_bytes sent"
proof -
  let ?ids = "ordered_union (nu_disclosure_ids u) (request_ids d)"
  from assms obtain claims t b where C: "claims = nu_claim_usage u \<and> dr_atomic_claim_id d = None \<or>
      (\<exists>cid. dr_atomic_claim_id d = Some cid \<and>
        updated_claim_usage (nu_claim_usage u) cid facts d = Inr claims \<and>
        length claims \<le> cs_max_claims_per_run (dr_cap_snapshot d))"
    and S: "unique_sizes ?ids facts = Inr (t, b)"
    and R: "(case (cs_online_unique (dr_cap_snapshot d), cs_online_transmitted (dr_cap_snapshot d)) of
       (Some online_cap, Some transmitted_cap) \<Rightarrow>
         bind_result (check_unique_cap ?ids t b online_cap ''online_unique'') (\<lambda>_.
         bind_result (check_transmitted_cap (nu_transmitted_tokens u + dr_transmitted_tokens d)
           (nu_transmitted_bytes u + dr_transmitted_bytes d) transmitted_cap
           ''online_transmitted'') (\<lambda>_.
         bind_result (check (nu_toc_nodes u + dr_toc_delta d \<le> cs_toc_per_run (dr_cap_snapshot d))
           ''toc_run_exceeded'') (\<lambda>_.
         Inr \<lparr>nu_run_id = nu_run_id u, nu_disclosure_ids = ?ids, nu_unique_tokens = t,
           nu_unique_bytes = b,
           nu_transmitted_tokens = nu_transmitted_tokens u + dr_transmitted_tokens d,
           nu_transmitted_bytes = nu_transmitted_bytes u + dr_transmitted_bytes d,
           nu_toc_nodes = nu_toc_nodes u + dr_toc_delta d, nu_claim_usage = claims\<rparr>)))
     | _ \<Rightarrow> reject ''stage_payload_mismatch'') = Inr v"
    unfolding apply_to_run_def Let_def by (fastforce simp: result_simps split: option.splits)
  from R obtain online sent where "cs_online_unique (dr_cap_snapshot d) = Some online"
    "cs_online_transmitted (dr_cap_snapshot d) = Some sent" by (auto split: option.splits)
  with C S R show ?thesis by (intro that [of claims online sent]) (auto simp: result_simps cap_checks)
qed

lemma apply_to_run_wf:
  assumes "apply_to_run u d (facts_by_id fs) = Inr v" and "run_wf fs u"
  shows "run_wf fs v"
proof -
  from assms(1) show ?thesis
  proof (rule apply_to_run_Inr)
    fix claims online sent
    assume A: "claims = nu_claim_usage u \<and> dr_atomic_claim_id d = None \<or>
      (\<exists>cid. dr_atomic_claim_id d = Some cid \<and>
        updated_claim_usage (nu_claim_usage u) cid (facts_by_id fs) d = Inr claims \<and>
        length claims \<le> cs_max_claims_per_run (dr_cap_snapshot d))"
      and v: "nu_claim_usage v = claims"
        "nu_disclosure_ids v = ordered_union (nu_disclosure_ids u) (request_ids d)"
        "unique_sizes (nu_disclosure_ids v) (facts_by_id fs) =
          Inr (nu_unique_tokens v, nu_unique_bytes v)"
    from assms(2) have "distinct (nu_disclosure_ids v)"
      by (simp add: v(2) run_wf_def account_wf_def)
    moreover have "(\<forall>c \<in> set claims. claim_wf fs c) \<and> distinct (map cu_atomic_claim_id claims)"
      using A assms(2) updated_claim_usage_wf [of "nu_claim_usage u" _ fs d claims]
      by (auto simp: run_wf_def)
    ultimately show "run_wf fs v" using v(1,3) by (simp add: run_wf_def account_wf_def)
  qed
qed

lemma apply_to_run_run_id: "apply_to_run u d facts = Inr v \<Longrightarrow> nu_run_id v = nu_run_id u"
  by (erule apply_to_run_Inr) simp

lemma apply_to_run_sent:
  assumes "apply_to_run u d facts = Inr v"
  shows "nu_transmitted_tokens v = nu_transmitted_tokens u + dr_transmitted_tokens d"
    and "nu_transmitted_bytes v = nu_transmitted_bytes u + dr_transmitted_bytes d"
  using assms by (auto elim: apply_to_run_Inr)

lemma updated_online_run_usage_wf:
  assumes "updated_online_run_usage us rr d (facts_by_id fs) = Inr vs"
    and "\<forall>r \<in> set us. run_wf fs r" and "distinct (map nu_run_id us)"
  shows "(\<forall>r \<in> set vs. run_wf fs r) \<and> distinct (map nu_run_id vs)"
proof
  note U = assms(1) [unfolded updated_online_run_usage_def]
  show "\<forall>r \<in> set vs. run_wf fs r"
    using assms(2) by (intro list_all_upsert_result [OF U])
      (auto intro: apply_to_run_wf run_wf_empty)
  have "map nu_run_id vs = (if rr_run_id rr \<in> nu_run_id ` set us then map nu_run_id us
      else map nu_run_id us @ [rr_run_id rr])"
    by (intro upsert_result_keys [OF U])
      (auto simp: empty_run_usage_def dest: apply_to_run_run_id)
  then show "distinct (map nu_run_id vs)" using assms(3) by auto
qed

lemma updated_online_run_usage_sent:
  assumes "updated_online_run_usage us rr d facts = Inr vs"
  shows "(\<Sum>r\<leftarrow>vs. nu_transmitted_tokens r) =
      (\<Sum>r\<leftarrow>us. nu_transmitted_tokens r) + dr_transmitted_tokens d"
    and "(\<Sum>r\<leftarrow>vs. nu_transmitted_bytes r) =
      (\<Sum>r\<leftarrow>us. nu_transmitted_bytes r) + dr_transmitted_bytes d"
proof -
  note U = assms [unfolded updated_online_run_usage_def]
  show "(\<Sum>r\<leftarrow>vs. nu_transmitted_tokens r) =
      (\<Sum>r\<leftarrow>us. nu_transmitted_tokens r) + dr_transmitted_tokens d"
    by (rule sum_list_upsert_result [OF U]) (auto simp: empty_run_usage_def dest: apply_to_run_sent)
  show "(\<Sum>r\<leftarrow>vs. nu_transmitted_bytes r) =
      (\<Sum>r\<leftarrow>us. nu_transmitted_bytes r) + dr_transmitted_bytes d"
    by (rule sum_list_upsert_result [OF U]) (auto simp: empty_run_usage_def dest: apply_to_run_sent)
qed

lemma updated_stage_usage_keys:
  "distinct (map su_stage us) \<Longrightarrow> distinct (map su_stage (updated_stage_usage us rr d))"
  unfolding updated_stage_usage_def by (subst upsert_keys) auto

lemma updated_stage_usage_sent:
  "(\<Sum>s\<leftarrow>updated_stage_usage us rr d. su_transmitted_tokens s) =
    (\<Sum>s\<leftarrow>us. su_transmitted_tokens s) + dr_transmitted_tokens d"
  "(\<Sum>s\<leftarrow>updated_stage_usage us rr d. su_transmitted_bytes s) =
    (\<Sum>s\<leftarrow>us. su_transmitted_bytes s) + dr_transmitted_bytes d"
  "(\<Sum>s\<leftarrow>updated_stage_usage us rr d. su_transmissions s) =
    (\<Sum>s\<leftarrow>us. su_transmissions s) + 1"
  unfolding updated_stage_usage_def by (rule sum_list_upsert; simp)+

section \<open>What one reservation writes at the root\<close>

text \<open>\<open>usage_step\<close> names every quantity a successful \<open>_apply_usage\<close> computes.\<close>

definition existing_usage ::
  "usage_snapshot option \<Rightarrow> reservation_request \<Rightarrow> string \<Rightarrow> usage_snapshot" where
  "existing_usage ex rr ph = (case ex of
     None \<Rightarrow> empty_usage_snapshot (rr_evaluation_root_id rr) (rr_task_level rr) ph | Some u \<Rightarrow> u)"

definition fresh_facts :: "usage_snapshot \<Rightarrow> disclosure_fact list \<Rightarrow> disclosure_fact list" where
  "fresh_facts u requested =
     filter (\<lambda>f. facts_by_id (us_disclosures u) (df_disclosure_id f) = None) requested"

lemma apply_usage_Inr:
  assumes "apply_usage ex rr d ph = Inr v"
  obtains u requested merged where
    "u = existing_usage ex rr ph" "merged = us_disclosures u @ fresh_facts u requested"
    "us_evaluation_root_id u = rr_evaluation_root_id rr" "us_task_level u = rr_task_level rr"
    "us_policy_hash u = ph"
    "collect_request (facts_by_id (us_disclosures u)) [] (dr_disclosures d) = Inr requested"
    "us_evaluation_root_id v = rr_evaluation_root_id rr" "us_task_level v = rr_task_level rr"
    "us_policy_hash v = ph" "us_disclosures v = merged"
    "unique_sizes (map df_disclosure_id merged) (facts_by_id merged) =
       Inr (us_root_unique_tokens v, us_root_unique_bytes v)"
    "us_root_transmitted_tokens v = us_root_transmitted_tokens u + dr_transmitted_tokens d"
    "us_root_transmitted_bytes v = us_root_transmitted_bytes u + dr_transmitted_bytes d"
    "updated_route_usage (us_route_usage u) rr d (facts_by_id merged) = Inr (us_route_usage v)"
    "us_stage_usage v = updated_stage_usage (us_stage_usage u) rr d"
    "check_unique_cap (map df_disclosure_id merged) (us_root_unique_tokens v)
       (us_root_unique_bytes v) (cs_root_unique (dr_cap_snapshot d)) ''root_unique'' = Inr ()"
    "check_transmitted_cap (us_root_transmitted_tokens v) (us_root_transmitted_bytes v)
       (cs_root_transmitted (dr_cap_snapshot d)) ''root_transmitted'' = Inr ()"
    "rr_stage rr = JudgeStage \<Longrightarrow> us_run_usage v = us_run_usage u \<and>
       us_judge_disclosure_ids v =
         ordered_union (us_judge_disclosure_ids u) (map df_disclosure_id requested) \<and>
       unique_sizes (us_judge_disclosure_ids v) (facts_by_id merged) =
         Inr (us_judge_unique_tokens v, us_judge_unique_bytes v) \<and>
       us_judge_transmitted_tokens v = us_judge_transmitted_tokens u + dr_transmitted_tokens d \<and>
       us_judge_transmitted_bytes v = us_judge_transmitted_bytes u + dr_transmitted_bytes d \<and>
       check_unique_cap (us_judge_disclosure_ids v) (us_judge_unique_tokens v)
         (us_judge_unique_bytes v) (cs_judge_unique (dr_cap_snapshot d)) ''judge_unique'' = Inr () \<and>
       check_transmitted_cap (us_judge_transmitted_tokens v) (us_judge_transmitted_bytes v)
         (cs_judge_transmitted (dr_cap_snapshot d)) ''judge_transmitted'' = Inr ()"
    "rr_stage rr \<noteq> JudgeStage \<Longrightarrow>
       us_judge_disclosure_ids v = us_judge_disclosure_ids u \<and>
       us_judge_unique_tokens v = us_judge_unique_tokens u \<and>
       us_judge_unique_bytes v = us_judge_unique_bytes u \<and>
       us_judge_transmitted_tokens v = us_judge_transmitted_tokens u \<and>
       us_judge_transmitted_bytes v = us_judge_transmitted_bytes u \<and>
       updated_online_run_usage (us_run_usage u) rr d (facts_by_id merged) = Inr (us_run_usage v)"
proof -
  define u where "u = existing_usage ex rr ph"
  note A = assms [unfolded apply_usage_def existing_usage_def [symmetric] Let_def,
      folded u_def fresh_facts_def]
  from A obtain requested where
    R: "collect_request (facts_by_id (us_disclosures u)) [] (dr_disclosures d) = Inr requested"
    by (auto simp: result_simps)
  define merged where "merged = us_disclosures u @ fresh_facts u requested"
  from A R show ?thesis
    by (intro that [OF u_def merged_def _ _ _ R])
      (auto simp: result_simps merged_def judge_update_def Let_def split: if_splits)
qed

lemma collect_request_sum:
  fixes g :: "disclosure_fact \<Rightarrow> nat"
  assumes "collect_request ex seen fs = Inr out"
  shows "(\<Sum>f\<leftarrow>out. g f) \<le> (\<Sum>f\<leftarrow>seen. g f) + (\<Sum>f\<leftarrow>fs. g f)"
  using assms
proof (induction fs arbitrary: seen)
  case (Cons f fs)
  from Cons.prems show ?case
    by (cases rule: collect_request_Cons) (auto dest!: Cons.IH)
qed simp

lemma sum_list_filter_le:
  fixes g :: "'a \<Rightarrow> nat"
  shows "(\<Sum>x\<leftarrow>filter p xs. g x) \<le> (\<Sum>x\<leftarrow>xs. g x)"
  by (induction xs) auto

lemma fresh_facts_disjoint:
  "df_disclosure_id ` set (us_disclosures u) \<inter> df_disclosure_id ` set (fresh_facts u fs) = {}"
proof -
  have "df_disclosure_id f \<notin> df_disclosure_id ` set (us_disclosures u)"
    if "f \<in> set (fresh_facts u fs)" for f
    using that by (simp add: fresh_facts_def facts_by_id_None)
  then have "\<forall>i \<in> df_disclosure_id ` set (fresh_facts u fs).
      i \<notin> df_disclosure_id ` set (us_disclosures u)" by (simp only: ball_simps) simp
  then show ?thesis by (simp only: disjoint_iff) meson
qed

lemma merged_ids:
  "df_disclosure_id ` set (us_disclosures u @ fresh_facts u fs) =
    df_disclosure_id ` set (us_disclosures u) \<union> df_disclosure_id ` set fs"
  by (auto simp: fresh_facts_def facts_by_id_None)

lemma merged_distinct:
  "distinct (map df_disclosure_id (us_disclosures u)) \<Longrightarrow> distinct (map df_disclosure_id fs) \<Longrightarrow>
    distinct (map df_disclosure_id (us_disclosures u @ fresh_facts u fs))"
  using fresh_facts_disjoint [of u fs] by (auto simp: fresh_facts_def distinct_map_filter)

lemma requested_ids:
  assumes "collect_request (facts_by_id fs) [] (dr_disclosures d) = Inr requested"
  shows "distinct (map df_disclosure_id requested)" and "set requested = set (dr_disclosures d)"
    and "set (request_ids d) = df_disclosure_id ` set requested"
  using collect_request_Inr [OF assms] by (auto simp: request_ids_def)

lemma existing_usage_wf: "(\<And>u. ex = Some u \<Longrightarrow> usage_wf u) \<Longrightarrow> usage_wf (existing_usage ex rr ph)"
  by (auto simp: existing_usage_def usage_wf_empty split: option.split)

definition totals_of_facts :: "derived_reservation \<Rightarrow> bool" where
  "totals_of_facts d \<longleftrightarrow>
     dr_transmitted_tokens d = (\<Sum>f\<leftarrow>dr_disclosures d. df_token_count f) \<and>
     dr_transmitted_bytes d = (\<Sum>f\<leftarrow>dr_disclosures d. df_byte_count f)"

lemma derive_totals: "derive en r counter = Inr d \<Longrightarrow> totals_of_facts d"
  by (erule derive_Inr) (simp add: totals_of_facts_def)

lemma apply_usage_balanced:
  assumes "apply_usage ex rr d ph = Inr v" and "\<And>u. ex = Some u \<Longrightarrow> usage_wf u"
    and "totals_of_facts d"
  shows "transmitted_balanced v"
  using assms(1)
proof (rule apply_usage_Inr)
  fix u requested merged
  assume u: "u = existing_usage ex rr ph" and m: "merged = us_disclosures u @ fresh_facts u requested"
    and R: "collect_request (facts_by_id (us_disclosures u)) [] (dr_disclosures d) = Inr requested"
    and S: "unique_sizes (map df_disclosure_id merged) (facts_by_id merged) =
       Inr (us_root_unique_tokens v, us_root_unique_bytes v)"
    and T: "us_root_transmitted_tokens v = us_root_transmitted_tokens u + dr_transmitted_tokens d"
      "us_root_transmitted_bytes v = us_root_transmitted_bytes u + dr_transmitted_bytes d"
    and G: "us_stage_usage v = updated_stage_usage (us_stage_usage u) rr d"
    and J: "rr_stage rr = JudgeStage \<Longrightarrow> us_run_usage v = us_run_usage u \<and>
       us_judge_disclosure_ids v =
         ordered_union (us_judge_disclosure_ids u) (map df_disclosure_id requested) \<and>
       unique_sizes (us_judge_disclosure_ids v) (facts_by_id merged) =
         Inr (us_judge_unique_tokens v, us_judge_unique_bytes v) \<and>
       us_judge_transmitted_tokens v = us_judge_transmitted_tokens u + dr_transmitted_tokens d \<and>
       us_judge_transmitted_bytes v = us_judge_transmitted_bytes u + dr_transmitted_bytes d \<and>
       check_unique_cap (us_judge_disclosure_ids v) (us_judge_unique_tokens v)
         (us_judge_unique_bytes v) (cs_judge_unique (dr_cap_snapshot d)) ''judge_unique'' = Inr () \<and>
       check_transmitted_cap (us_judge_transmitted_tokens v) (us_judge_transmitted_bytes v)
         (cs_judge_transmitted (dr_cap_snapshot d)) ''judge_transmitted'' = Inr ()"
    and N: "rr_stage rr \<noteq> JudgeStage \<Longrightarrow>
       us_judge_disclosure_ids v = us_judge_disclosure_ids u \<and>
       us_judge_unique_tokens v = us_judge_unique_tokens u \<and>
       us_judge_unique_bytes v = us_judge_unique_bytes u \<and>
       us_judge_transmitted_tokens v = us_judge_transmitted_tokens u \<and>
       us_judge_transmitted_bytes v = us_judge_transmitted_bytes u \<and>
       updated_online_run_usage (us_run_usage u) rr d (facts_by_id merged) = Inr (us_run_usage v)"
  have wf: "usage_wf u" using assms(2) by (simp add: u existing_usage_wf)
  then have bal: "transmitted_balanced u" and dist: "distinct (map df_disclosure_id (us_disclosures u))"
    by (simp_all add: usage_wf_def Let_def)
  have old: "us_root_unique_tokens u = (\<Sum>f\<leftarrow>us_disclosures u. df_token_count f)"
    "us_root_unique_bytes u = (\<Sum>f\<leftarrow>us_disclosures u. df_byte_count f)"
    using wf account_wf_all [OF dist] by (auto simp: usage_wf_def Let_def)
  have "account_wf merged (map df_disclosure_id merged) (us_root_unique_tokens v)
      (us_root_unique_bytes v)"
    unfolding account_wf_def using S merged_distinct [OF dist requested_ids(1) [OF R]] by (simp add: m)
  then have new: "us_root_unique_tokens v = (\<Sum>f\<leftarrow>merged. df_token_count f)"
    "us_root_unique_bytes v = (\<Sum>f\<leftarrow>merged. df_byte_count f)"
    using account_wf_all [OF merged_distinct [OF dist requested_ids(1) [OF R]]] by (auto simp: m)
  have le: "(\<Sum>f\<leftarrow>fresh_facts u requested. g f) \<le> (\<Sum>f\<leftarrow>dr_disclosures d. g f)"
    for g :: "disclosure_fact \<Rightarrow> nat"
    using collect_request_sum [OF R, of g] sum_list_filter_le [of g _ requested]
    by (auto simp: fresh_facts_def intro: order_trans)
  show ?thesis
  proof (cases "rr_stage rr = JudgeStage")
    case True
    with J T G bal old new le [of df_token_count] le [of df_byte_count] assms(3) show ?thesis
      by (simp add: transmitted_balanced_def updated_stage_usage_sent totals_of_facts_def m)
  next
    case False
    with N have "updated_online_run_usage (us_run_usage u) rr d (facts_by_id merged) =
      Inr (us_run_usage v)" by simp
    from updated_online_run_usage_sent [OF this] False N T G bal old new le [of df_token_count]
      le [of df_byte_count] assms(3) show ?thesis
      by (simp add: transmitted_balanced_def updated_stage_usage_sent totals_of_facts_def m)
  qed
qed

section \<open>Preservation\<close>

lemma apply_usage_wf:
  assumes "apply_usage ex rr d ph = Inr v" and ex: "\<And>u. ex = Some u \<Longrightarrow> usage_wf u"
    and "totals_of_facts d"
  shows "usage_wf v"
  using assms(1)
proof (rule apply_usage_Inr)
  fix u requested merged
  assume u: "u = existing_usage ex rr ph" and m: "merged = us_disclosures u @ fresh_facts u requested"
    and R: "collect_request (facts_by_id (us_disclosures u)) [] (dr_disclosures d) = Inr requested"
    and D: "us_disclosures v = merged"
    and S: "unique_sizes (map df_disclosure_id merged) (facts_by_id merged) =
       Inr (us_root_unique_tokens v, us_root_unique_bytes v)"
    and T: "updated_route_usage (us_route_usage u) rr d (facts_by_id merged) = Inr (us_route_usage v)"
    and G: "us_stage_usage v = updated_stage_usage (us_stage_usage u) rr d"
    and J: "rr_stage rr = JudgeStage \<Longrightarrow> us_run_usage v = us_run_usage u \<and>
       us_judge_disclosure_ids v =
         ordered_union (us_judge_disclosure_ids u) (map df_disclosure_id requested) \<and>
       unique_sizes (us_judge_disclosure_ids v) (facts_by_id merged) =
         Inr (us_judge_unique_tokens v, us_judge_unique_bytes v) \<and>
       us_judge_transmitted_tokens v = us_judge_transmitted_tokens u + dr_transmitted_tokens d \<and>
       us_judge_transmitted_bytes v = us_judge_transmitted_bytes u + dr_transmitted_bytes d \<and>
       check_unique_cap (us_judge_disclosure_ids v) (us_judge_unique_tokens v)
         (us_judge_unique_bytes v) (cs_judge_unique (dr_cap_snapshot d)) ''judge_unique'' = Inr () \<and>
       check_transmitted_cap (us_judge_transmitted_tokens v) (us_judge_transmitted_bytes v)
         (cs_judge_transmitted (dr_cap_snapshot d)) ''judge_transmitted'' = Inr ()"
    and N: "rr_stage rr \<noteq> JudgeStage \<Longrightarrow>
       us_judge_disclosure_ids v = us_judge_disclosure_ids u \<and>
       us_judge_unique_tokens v = us_judge_unique_tokens u \<and>
       us_judge_unique_bytes v = us_judge_unique_bytes u \<and>
       us_judge_transmitted_tokens v = us_judge_transmitted_tokens u \<and>
       us_judge_transmitted_bytes v = us_judge_transmitted_bytes u \<and>
       updated_online_run_usage (us_run_usage u) rr d (facts_by_id merged) = Inr (us_run_usage v)"
  have wf: "usage_wf u" using ex by (simp add: u existing_usage_wf)
  then have dist: "distinct (map df_disclosure_id (us_disclosures u))"
    by (simp add: usage_wf_def Let_def)
  note dist' = merged_distinct [OF dist requested_ids(1) [OF R], folded m]
  note ext = fresh_facts_disjoint [of u requested]
  have root: "account_wf merged (map df_disclosure_id merged) (us_root_unique_tokens v)
      (us_root_unique_bytes v)"
    using S dist' by (simp add: account_wf_def)
  have routes: "(\<forall>r \<in> set (us_route_usage v). route_wf merged r) \<and> distinct (map ru_route (us_route_usage v))"
    using wf ext by (intro updated_route_usage_wf [OF T])
      (auto simp: m usage_wf_def Let_def route_wf_def intro: account_wf_extend)
  have stages: "distinct (map su_stage (us_stage_usage v))"
    using wf by (simp add: G updated_stage_usage_keys usage_wf_def Let_def)
  have old_runs: "(\<forall>r \<in> set (us_run_usage u). run_wf merged r) \<and> distinct (map nu_run_id (us_run_usage u))"
    using wf ext by (auto simp: m usage_wf_def Let_def intro: run_wf_extend)
  have old_judge: "account_wf merged (us_judge_disclosure_ids u) (us_judge_unique_tokens u)
      (us_judge_unique_bytes u)"
    using wf ext by (auto simp: m usage_wf_def Let_def intro: account_wf_extend)
  have runs: "(\<forall>r \<in> set (us_run_usage v). run_wf merged r) \<and> distinct (map nu_run_id (us_run_usage v))"
    using J N old_runs updated_online_run_usage_wf [of "us_run_usage u" rr d merged "us_run_usage v"]
    by (cases "rr_stage rr = JudgeStage") simp_all
  have judge: "account_wf merged (us_judge_disclosure_ids v) (us_judge_unique_tokens v)
      (us_judge_unique_bytes v)"
    using J N old_judge by (cases "rr_stage rr = JudgeStage"; clarsimp simp: account_wf_def)
  show ?thesis
    using apply_usage_balanced [OF assms] dist' root routes stages runs judge
    by (simp add: usage_wf_def D)
qed

section \<open>No reservation reads a fact that is not there\<close>

definition is_policy_error :: "egress_error \<Rightarrow> bool" where
  "is_policy_error e \<longleftrightarrow> (\<exists>c. e = EgressPolicyViolation c)"

lemma is_policy_error_simps [simp]:
  "is_policy_error (EgressPolicyViolation c)" "\<not> is_policy_error PyKeyError"
  "\<not> is_policy_error ContractError" "\<not> is_policy_error (TokenAccountingUnavailable c)"
  by (auto simp: is_policy_error_def)

lemma check_cap_Inl:
  "check_unique_cap ids t b cap p = Inl e \<Longrightarrow> is_policy_error e"
  "check_transmitted_cap t b cap p = Inl e \<Longrightarrow> is_policy_error e"
  by (auto simp: check_unique_cap_def check_transmitted_cap_def result_simps)

lemma unique_sizes_known:
  assumes "set ids \<subseteq> df_disclosure_id ` set fs"
  shows "unique_sizes ids (facts_by_id fs) \<noteq> Inl e"
proof -
  have "facts_by_id fs i \<noteq> None" if "i \<in> set ids" for i
    using that assms by (auto simp: facts_by_id_None)
  then show ?thesis by (auto simp: unique_sizes_Inl)
qed

lemma updated_route_usage_Inl:
  assumes "updated_route_usage us rr d (facts_by_id fs) = Inl e"
    and "\<forall>r \<in> set us. set (ru_disclosure_ids r) \<subseteq> df_disclosure_id ` set fs"
    and "set (request_ids d) \<subseteq> df_disclosure_id ` set fs"
  shows False
proof -
  have "unique_sizes (ordered_union (ru_disclosure_ids r) (request_ids d)) (facts_by_id fs) \<noteq> Inl e"
    if "r \<in> set us" for r using that assms(2,3) by (intro unique_sizes_known) simp
  moreover have "unique_sizes (ordered_union [] (request_ids d)) (facts_by_id fs) \<noteq> Inl e"
    using assms(3) by (intro unique_sizes_known) simp
  ultimately show False
    using upsert_result_Inl [OF assms(1) [unfolded updated_route_usage_def]]
    by (auto simp: Let_def result_simps)
qed

lemma updated_claim_usage_Inl:
  assumes "updated_claim_usage us cid (facts_by_id fs) d = Inl e"
    and "\<forall>r \<in> set us. set (cu_disclosure_ids r) \<subseteq> df_disclosure_id ` set fs"
    and "set (request_ids d) \<subseteq> df_disclosure_id ` set fs"
  shows "is_policy_error e"
proof (cases "cs_claim_unique (dr_cap_snapshot d)")
  case None
  with assms(1) show ?thesis by (auto simp: updated_claim_usage_def)
next
  case (Some cap)
  have "unique_sizes (ordered_union (cu_disclosure_ids r) (request_ids d)) (facts_by_id fs) \<noteq> Inl e"
    if "r \<in> set us" for r using that assms(2,3) by (intro unique_sizes_known) simp
  moreover have "unique_sizes (ordered_union [] (request_ids d)) (facts_by_id fs) \<noteq> Inl e"
    using assms(3) by (intro unique_sizes_known) simp
  ultimately show ?thesis
    using upsert_result_Inl [OF assms(1) [unfolded updated_claim_usage_def Some option.case]]
    by (auto simp: Let_def result_simps dest: check_cap_Inl)
qed

lemma apply_to_run_Inl:
  assumes "apply_to_run u d (facts_by_id fs) = Inl e" and "run_wf fs u"
    and ids: "set (request_ids d) \<subseteq> df_disclosure_id ` set fs"
  shows "is_policy_error e"
proof -
  from assms(2) have claims: "\<forall>c \<in> set (nu_claim_usage u).
      set (cu_disclosure_ids c) \<subseteq> df_disclosure_id ` set fs"
    by (auto simp: run_wf_def claim_wf_def dest: account_wf_ids)
  have "unique_sizes (ordered_union (nu_disclosure_ids u) (request_ids d)) (facts_by_id fs) \<noteq> Inl e"
    using assms(2) ids by (intro unique_sizes_known) (auto simp: run_wf_def dest: account_wf_ids)
  with assms(1) show ?thesis
    unfolding apply_to_run_def Let_def
    by (cases "cs_online_unique (dr_cap_snapshot d)";
        cases "cs_online_transmitted (dr_cap_snapshot d)"; cases "dr_atomic_claim_id d")
      (auto simp: result_simps dest: check_cap_Inl updated_claim_usage_Inl [OF _ claims ids])
qed

text \<open>
  On a well-formed snapshot the only errors left are the cap and consistency violations:
  no \<open>KeyError\<close>.
\<close>

lemma apply_usage_Inl:
  assumes "apply_usage ex rr d ph = Inl e" and ex: "\<And>u. ex = Some u \<Longrightarrow> usage_wf u"
  shows "is_policy_error e"
proof -
  define u where "u = existing_usage ex rr ph"
  have wf: "usage_wf u" using ex by (simp add: u_def existing_usage_wf)
  note A = assms(1) [unfolded apply_usage_def existing_usage_def [symmetric] Let_def,
      folded u_def fresh_facts_def]
  show ?thesis
  proof (cases "collect_request (facts_by_id (us_disclosures u)) [] (dr_disclosures d)")
    case (Inl e')
    with A collect_request_Inl [OF Inl] show ?thesis by (auto simp: result_simps)
  next
    case (Inr requested)
    define merged where "merged = us_disclosures u @ fresh_facts u requested"
    note ext = fresh_facts_disjoint [of u requested]
    have ids: "set (request_ids d) \<subseteq> df_disclosure_id ` set merged"
      using requested_ids(3) [OF Inr] merged_ids [of u requested] by (simp add: merged_def)
    have root: "unique_sizes (map df_disclosure_id merged) (facts_by_id merged) \<noteq> Inl e"
      by (rule unique_sizes_known) simp
    have routes: "updated_route_usage (us_route_usage u) rr d (facts_by_id merged) \<noteq> Inl e"
    proof -
      have "\<forall>r \<in> set (us_route_usage u). set (ru_disclosure_ids r) \<subseteq> df_disclosure_id ` set merged"
        using wf merged_ids [of u requested]
        by (fastforce simp: usage_wf_def Let_def route_wf_def merged_def dest: account_wf_ids)
      with ids show ?thesis by (blast dest: updated_route_usage_Inl)
    qed
    have runs: "is_policy_error e"
      if "updated_online_run_usage (us_run_usage u) rr d (facts_by_id merged) = Inl e"
    proof -
      have "\<forall>r \<in> set (us_run_usage u). run_wf merged r"
        using wf ext by (auto simp: merged_def usage_wf_def Let_def intro: run_wf_extend)
      with upsert_result_Inl [OF that [unfolded updated_online_run_usage_def]] ids show ?thesis
        by (auto intro: apply_to_run_Inl run_wf_empty)
    qed
    have judge: "unique_sizes (ordered_union (us_judge_disclosure_ids u)
        (map df_disclosure_id requested)) (facts_by_id merged) \<noteq> Inl e"
      using wf merged_ids [of u requested]
      by (intro unique_sizes_known) (auto simp: merged_def usage_wf_def Let_def dest: account_wf_ids)
    from A Inr root routes runs judge show ?thesis
      by (auto simp: result_simps merged_def [symmetric] judge_update_def Let_def
          simp del: map_append split: if_splits dest: check_cap_Inl)
  qed
qed

end
