(* ===== verification/CorpusShares.thy ===== *)
theory CorpusShares
  imports EnforcerAccounting
begin

text \<open>
  The two accounts that outlive an evaluation root: what a frozen corpus has disclosed, and
  what each of its documents has. Both charge an identifier the first time they see it and
  never again; that law is a locale, and the corpus and the document account of
  \<open>_apply_corpus_usage\<close> and \<open>_apply_document_usage\<close> are its two interpretations.
\<close>

section \<open>Charging new facts once\<close>

fun new_facts :: "string list \<Rightarrow> disclosure_fact list \<Rightarrow> disclosure_fact list" where
  "new_facts known [] = []"
| "new_facts known (f # fs) =
     (if df_disclosure_id f \<in> set known then new_facts known fs
      else f # new_facts (df_disclosure_id f # known) fs)"

lemma charge_facts_eq:
  "charge_facts known t b fs =
    (t + (\<Sum>f\<leftarrow>new_facts known fs. df_token_count f),
     b + (\<Sum>f\<leftarrow>new_facts known fs. df_byte_count f))"
  by (induction known t b fs rule: charge_facts.induct) auto

lemma new_facts_known: "df_disclosure_id ` set fs \<subseteq> set known \<Longrightarrow> new_facts known fs = []"
  by (induction fs) auto

lemma new_facts_distinct:
  "distinct (map df_disclosure_id (new_facts known fs)) \<and>
    df_disclosure_id ` set (new_facts known fs) = df_disclosure_id ` set fs - set known"
  by (induction known fs rule: new_facts.induct) auto

lemma new_facts_antimono:
  fixes g :: "disclosure_fact \<Rightarrow> nat"
  assumes "set known \<subseteq> set known'"
  shows "(\<Sum>f\<leftarrow>new_facts known' fs. g f) \<le> (\<Sum>f\<leftarrow>new_facts known fs. g f)"
  using assms
proof (induction fs arbitrary: known known')
  case (Cons f fs)
  show ?case
  proof (cases "df_disclosure_id f \<in> set known")
    case True
    with Cons show ?thesis by auto
  next
    case False
    have "(\<Sum>f\<leftarrow>new_facts (if df_disclosure_id f \<in> set known' then known'
        else df_disclosure_id f # known') fs. g f)
      \<le> (\<Sum>f\<leftarrow>new_facts (df_disclosure_id f # known) fs. g f)"
      using Cons.prems by (intro Cons.IH) auto
    with False show ?thesis by auto
  qed
qed simp

locale share_account =
  fixes ids :: "'a \<Rightarrow> string list" and tokens :: "'a \<Rightarrow> nat" and nbytes :: "'a \<Rightarrow> nat"
    and charge :: "'a \<Rightarrow> disclosure_fact list \<Rightarrow> 'a"
  assumes charge_ids: "ids (charge a fs) = ordered_union (ids a) (map df_disclosure_id fs)"
    and charge_totals:
      "(tokens (charge a fs), nbytes (charge a fs)) = charge_facts (ids a) (tokens a) (nbytes a) fs"
begin

lemma charge_tokens: "tokens (charge a fs) = tokens a + (\<Sum>f\<leftarrow>new_facts (ids a) fs. df_token_count f)"
  and charge_bytes: "nbytes (charge a fs) = nbytes a + (\<Sum>f\<leftarrow>new_facts (ids a) fs. df_byte_count f)"
  using charge_totals [of a fs] by (simp_all add: charge_facts_eq)

lemma charge_mono: "tokens a \<le> tokens (charge a fs)" "nbytes a \<le> nbytes (charge a fs)"
  "length (ids a) \<le> length (ids (charge a fs))"
  by (simp_all add: charge_tokens charge_bytes charge_ids length_ordered_union_mono)

lemma charge_known:
  assumes "df_disclosure_id ` set fs \<subseteq> set (ids a)"
  shows "ids (charge a fs) = ids a \<and> tokens (charge a fs) = tokens a \<and>
    nbytes (charge a fs) = nbytes a"
  using assms by (simp add: charge_ids charge_tokens charge_bytes new_facts_known ordered_union_idem)

lemma charge_again:
  "ids (charge (charge a fs) fs) = ids (charge a fs) \<and>
   tokens (charge (charge a fs) fs) = tokens (charge a fs) \<and>
   nbytes (charge (charge a fs) fs) = nbytes (charge a fs)"
  by (rule charge_known) (simp add: charge_ids)

end

section \<open>The two accounts\<close>

definition charge_document ::
  "corpus_document_usage \<Rightarrow> disclosure_fact list \<Rightarrow> corpus_document_usage" where
  "charge_document a fs =
     (let (tokens, nbytes) = charge_facts (du_disclosure_ids a) (du_unique_tokens a)
        (du_unique_bytes a) fs in
      \<lparr>du_document_id = du_document_id a,
       du_disclosure_ids = ordered_union (du_disclosure_ids a) (map df_disclosure_id fs),
       du_unique_tokens = tokens, du_unique_bytes = nbytes\<rparr>)"

definition charge_corpus :: "corpus_usage \<Rightarrow> disclosure_fact list \<Rightarrow> corpus_usage" where
  "charge_corpus u fs =
     (let (tokens, nbytes) = charge_facts (co_disclosure_ids u) (co_unique_tokens u)
        (co_unique_bytes u) fs in
      u\<lparr>co_disclosure_ids := ordered_union (co_disclosure_ids u) (map df_disclosure_id fs),
        co_unique_tokens := tokens, co_unique_bytes := nbytes\<rparr>)"

interpretation doc: share_account du_disclosure_ids du_unique_tokens du_unique_bytes charge_document
  by unfold_locales (simp_all add: charge_document_def Let_def split: prod.split)

interpretation corp: share_account co_disclosure_ids co_unique_tokens co_unique_bytes charge_corpus
  by unfold_locales (simp_all add: charge_corpus_def Let_def split: prod.split)

lemma charge_document_id [simp]: "du_document_id (charge_document a fs) = du_document_id a"
  by (simp add: charge_document_def Let_def split: prod.split)

definition current_document :: "corpus_usage \<Rightarrow> string \<Rightarrow> corpus_document_usage" where
  "current_document u k = (case document_account u k of
     None \<Rightarrow> empty_document_usage k | Some a \<Rightarrow> a)"

definition document_keys :: "corpus_usage \<Rightarrow> string \<Rightarrow> string list" where
  "document_keys u k = sort (remdups (k # map du_document_id (co_document_usage u)))"

lemma document_account_None:
  "document_account u k = None \<longleftrightarrow> k \<notin> du_document_id ` set (co_document_usage u)"
  by (simp add: document_account_def map_of_eq_None_iff image_comp)

lemma document_account_SomeD:
  "document_account u k = Some a \<Longrightarrow> a \<in> set (co_document_usage u) \<and> du_document_id a = k"
  by (auto simp: document_account_def dest!: map_of_SomeD)

lemma document_account_member:
  assumes "distinct (map du_document_id (co_document_usage u))" "a \<in> set (co_document_usage u)"
  shows "document_account u (du_document_id a) = Some a"
proof (cases "document_account u (du_document_id a)")
  case None
  with assms(2) show ?thesis by (simp add: document_account_None)
next
  case (Some b)
  from document_account_SomeD [OF this] have "b \<in> set (co_document_usage u)"
    "du_document_id b = du_document_id a" by auto
  with assms have "b = a" by (metis distinct_map inj_onD)
  with Some show ?thesis by simp
qed

lemma current_document_id: "du_document_id (current_document u k) = k"
  by (auto simp: current_document_def empty_document_usage_def split: option.split
      dest: document_account_SomeD)

lemma set_document_keys: "set (document_keys u k) = insert k (du_document_id ` set (co_document_usage u))"
  by (auto simp: document_keys_def)

lemma document_keys_sorted: "sorted (document_keys u k)" "distinct (document_keys u k)"
  by (simp_all add: document_keys_def)

lemma apply_document_usage_Inr:
  assumes "apply_document_usage u k d = Inr docs"
  shows "docs = map (\<lambda>j. if j = k then charge_document (current_document u k) (dr_disclosures d)
      else the (document_account u j)) (document_keys u k)"
    and "length (du_disclosure_ids (charge_document (current_document u k) (dr_disclosures d)))
      \<le> cap_excerpts (cs_corpus_document_unique (dr_cap_snapshot d))"
    and "du_unique_tokens (charge_document (current_document u k) (dr_disclosures d))
      \<le> cap_tokens (cs_corpus_document_unique (dr_cap_snapshot d))"
    and "du_unique_bytes (charge_document (current_document u k) (dr_disclosures d))
      \<le> cap_bytes (cs_corpus_document_unique (dr_cap_snapshot d))"
proof -
  have id: "du_document_id (current_document u k) = k" by (rule current_document_id)
  note A = assms [unfolded apply_document_usage_def, folded current_document_def document_keys_def]
  from A id show "docs = map (\<lambda>j. if j = k
      then charge_document (current_document u k) (dr_disclosures d)
      else the (document_account u j)) (document_keys u k)"
    by (auto simp: Let_def result_simps charge_document_def request_ids_def split: prod.splits)
  from A show "length (du_disclosure_ids (charge_document (current_document u k) (dr_disclosures d)))
      \<le> cap_excerpts (cs_corpus_document_unique (dr_cap_snapshot d))"
    "du_unique_tokens (charge_document (current_document u k) (dr_disclosures d))
      \<le> cap_tokens (cs_corpus_document_unique (dr_cap_snapshot d))"
    "du_unique_bytes (charge_document (current_document u k) (dr_disclosures d))
      \<le> cap_bytes (cs_corpus_document_unique (dr_cap_snapshot d))"
    by (auto simp: Let_def result_simps charge_document_def request_ids_def check_unique_cap_def
        split: prod.splits)
qed

section \<open>Well-formed corpus usage\<close>

definition existing_corpus :: "corpus_usage option \<Rightarrow> reservation_request \<Rightarrow> string \<Rightarrow> corpus_usage" where
  "existing_corpus ex rr ph = (case ex of
     None \<Rightarrow> empty_corpus_usage (vm_corpus_manifest_id (rr_version rr)) ph | Some u \<Rightarrow> u)"

definition corpus_wf :: "corpus_usage \<Rightarrow> bool" where
  "corpus_wf u \<longleftrightarrow>
     distinct (co_disclosure_ids u) \<and>
     sorted (map du_document_id (co_document_usage u)) \<and>
     distinct (map du_document_id (co_document_usage u)) \<and>
     (\<forall>a \<in> set (co_document_usage u). distinct (du_disclosure_ids a)) \<and>
     set (co_disclosure_ids u) = (\<Union>a \<in> set (co_document_usage u). set (du_disclosure_ids a)) \<and>
     co_unique_tokens u \<le> (\<Sum>a\<leftarrow>co_document_usage u. du_unique_tokens a) \<and>
     co_unique_bytes u \<le> (\<Sum>a\<leftarrow>co_document_usage u. du_unique_bytes a)"

lemma corpus_wf_empty: "corpus_wf (empty_corpus_usage c ph)"
  by (simp add: corpus_wf_def empty_corpus_usage_def)

lemma existing_corpus_wf: "(\<And>u. ex = Some u \<Longrightarrow> corpus_wf u) \<Longrightarrow> corpus_wf (existing_corpus ex rr ph)"
  by (auto simp: existing_corpus_def corpus_wf_empty split: option.split)

lemma apply_corpus_usage_Inr:
  assumes "apply_corpus_usage ex rr d ph = Inr v"
  obtains u where "u = existing_corpus ex rr ph"
    "co_corpus_manifest_id u = vm_corpus_manifest_id (rr_version rr)" "co_policy_hash u = ph"
    "apply_document_usage u (vm_document_id (rr_version rr)) d = Inr (co_document_usage v)"
    "v = (charge_corpus u (dr_disclosures d))\<lparr>co_document_usage := co_document_usage v\<rparr>"
    "length (co_disclosure_ids v) \<le> cap_excerpts (cs_corpus_unique (dr_cap_snapshot d))"
    "co_unique_tokens v \<le> cap_tokens (cs_corpus_unique (dr_cap_snapshot d))"
    "co_unique_bytes v \<le> cap_bytes (cs_corpus_unique (dr_cap_snapshot d))"
proof -
  define u where "u = existing_corpus ex rr ph"
  note A = assms [unfolded apply_corpus_usage_def existing_corpus_def [symmetric] Let_def
      request_ids_def, folded u_def, unfolded charge_facts_eq prod.case]
  from A obtain docs where D: "co_corpus_manifest_id u = vm_corpus_manifest_id (rr_version rr)"
    "co_policy_hash u = ph" "apply_document_usage u (vm_document_id (rr_version rr)) d = Inr docs"
    and V: "v = \<lparr>co_corpus_manifest_id = vm_corpus_manifest_id (rr_version rr), co_policy_hash = ph,
      co_disclosure_ids = ordered_union (co_disclosure_ids u) (map df_disclosure_id (dr_disclosures d)),
      co_unique_tokens = co_unique_tokens u +
        (\<Sum>f\<leftarrow>new_facts (co_disclosure_ids u) (dr_disclosures d). df_token_count f),
      co_unique_bytes = co_unique_bytes u +
        (\<Sum>f\<leftarrow>new_facts (co_disclosure_ids u) (dr_disclosures d). df_byte_count f),
      co_document_usage = docs\<rparr>"
    and C: "check_unique_cap (co_disclosure_ids v) (co_unique_tokens v) (co_unique_bytes v)
      (cs_corpus_unique (dr_cap_snapshot d)) ''corpus_unique'' = Inr ()"
    by (auto simp: result_simps)
  from V have docs: "co_document_usage v = docs" by simp
  from C have caps: "length (co_disclosure_ids v) \<le> cap_excerpts (cs_corpus_unique (dr_cap_snapshot d))"
    "co_unique_tokens v \<le> cap_tokens (cs_corpus_unique (dr_cap_snapshot d))"
    "co_unique_bytes v \<le> cap_bytes (cs_corpus_unique (dr_cap_snapshot d))"
    by (simp_all add: check_unique_cap_def result_simps)
  from D(1,2) have "v = (charge_corpus u (dr_disclosures d))\<lparr>co_document_usage := co_document_usage v\<rparr>"
    unfolding V charge_corpus_def charge_facts_eq Let_def prod.case by simp
  from that [OF u_def D(1,2) _ this caps] D(3) docs show ?thesis by simp
qed

text \<open>Replacing one document's account changes the total by that document's charge.\<close>

lemma document_total:
  fixes g :: "corpus_document_usage \<Rightarrow> nat"
  assumes dist: "distinct (map du_document_id (co_document_usage u))"
    and docs: "docs = map (\<lambda>j. if j = k then new else the (document_account u j)) (document_keys u k)"
    and zero: "g (empty_document_usage k) = 0"
  shows "(\<Sum>a\<leftarrow>docs. g a) + g (current_document u k) = (\<Sum>a\<leftarrow>co_document_usage u. g a) + g new"
proof -
  let ?K = "du_document_id ` set (co_document_usage u)"
  let ?old = "\<lambda>j. g (the (document_account u j))"
  have old: "(\<Sum>a\<leftarrow>co_document_usage u. g a) = (\<Sum>j\<in>?K. ?old j)"
  proof -
    have "(\<Sum>a\<leftarrow>co_document_usage u. g a) = (\<Sum>j\<leftarrow>map du_document_id (co_document_usage u). ?old j)"
      using document_account_member [OF dist] by (auto intro!: arg_cong [of _ _ sum_list] simp: comp_def)
    also have "\<dots> = (\<Sum>j\<in>?K. ?old j)"
      using sum_list_distinct_conv_sum_set [OF dist] by simp
    finally show ?thesis .
  qed
  have "(\<Sum>a\<leftarrow>docs. g a) = (\<Sum>j\<leftarrow>document_keys u k. if j = k then g new else ?old j)"
    by (auto simp: docs comp_def intro!: arg_cong [of _ _ sum_list])
  also have "\<dots> = (\<Sum>j\<in>insert k ?K. if j = k then g new else ?old j)"
    using sum_list_distinct_conv_sum_set [OF document_keys_sorted(2)]
    by (simp add: set_document_keys)
  also have "\<dots> = g new + (\<Sum>j\<in>?K - {k}. if j = k then g new else ?old j)"
    by (simp add: sum.insert_remove)
  also have "\<dots> = g new + (\<Sum>j\<in>?K - {k}. ?old j)"
    by (intro arg_cong2 [of _ _ _ _ "(+)"] sum.cong) auto
  finally have new: "(\<Sum>a\<leftarrow>docs. g a) = g new + (\<Sum>j\<in>?K - {k}. ?old j)" .
  show ?thesis
  proof (cases "k \<in> ?K")
    case True
    then obtain a where "document_account u k = Some a"
      by (cases "document_account u k") (simp_all add: document_account_None)
    then have "g (current_document u k) = ?old k" by (simp add: current_document_def)
    moreover have "(\<Sum>j\<in>?K. ?old j) = ?old k + (\<Sum>j\<in>?K - {k}. ?old j)"
      by (rule sum.remove [OF _ True]) simp
    ultimately show ?thesis using new old by linarith
  next
    case False
    then have "document_account u k = None" by (simp add: document_account_None)
    then have "current_document u k = empty_document_usage k" by (simp add: current_document_def)
    with zero have "g (current_document u k) = 0" by simp
    moreover have "?K - {k} = ?K" using False by simp
    ultimately show ?thesis using new old by simp
  qed
qed

lemma apply_document_usage_accounts:
  assumes "apply_document_usage u k d = Inr docs"
  shows "map du_document_id docs = document_keys u k"
    and "a \<in> set docs \<Longrightarrow> a = charge_document (current_document u k) (dr_disclosures d) \<or>
      a \<in> set (co_document_usage u) \<and> du_document_id a \<noteq> k"
    and "charge_document (current_document u k) (dr_disclosures d) \<in> set docs"
proof -
  note docs = apply_document_usage_Inr(1) [OF assms]
  have known: "j \<noteq> k \<Longrightarrow> j \<in> set (document_keys u k) \<Longrightarrow>
      the (document_account u j) \<in> set (co_document_usage u) \<and>
      du_document_id (the (document_account u j)) = j" for j
  proof -
    assume "j \<noteq> k" "j \<in> set (document_keys u k)"
    then have "document_account u j \<noteq> None" by (simp add: set_document_keys document_account_None)
    then obtain a where "document_account u j = Some a" by blast
    with document_account_SomeD [OF this] show ?thesis by simp
  qed
  then show "map du_document_id docs = document_keys u k"
    unfolding docs map_map by (intro map_idI) (simp add: current_document_id)
  show "a \<in> set docs \<Longrightarrow> a = charge_document (current_document u k) (dr_disclosures d) \<or>
      a \<in> set (co_document_usage u) \<and> du_document_id a \<noteq> k"
  proof -
    assume "a \<in> set docs"
    then obtain j where j: "j \<in> set (document_keys u k)"
      "a = (if j = k then charge_document (current_document u k) (dr_disclosures d)
        else the (document_account u j))" by (auto simp: docs)
    with known [of j] show ?thesis by (cases "j = k") simp_all
  qed
  show "charge_document (current_document u k) (dr_disclosures d) \<in> set docs"
    unfolding docs set_map by (rule image_eqI [of _ _ k]) (simp_all add: set_document_keys)
qed

lemma charge_corpus_keeps [simp]:
  "co_corpus_manifest_id (charge_corpus u fs) = co_corpus_manifest_id u"
  "co_policy_hash (charge_corpus u fs) = co_policy_hash u"
  "co_document_usage (charge_corpus u fs) = co_document_usage u"
  by (simp_all add: charge_corpus_def charge_facts_eq)

lemma current_document_ids:
  assumes "corpus_wf u"
  shows "set (du_disclosure_ids (current_document u k)) \<subseteq> set (co_disclosure_ids u)"
    and "distinct (du_disclosure_ids (current_document u k))"
proof -
  consider "current_document u k = empty_document_usage k"
    | "current_document u k \<in> set (co_document_usage u)"
    by (cases "document_account u k") (auto simp: current_document_def dest: document_account_SomeD)
  then show "set (du_disclosure_ids (current_document u k)) \<subseteq> set (co_disclosure_ids u)"
    "distinct (du_disclosure_ids (current_document u k))"
    using assms by (cases; fastforce simp: empty_document_usage_def corpus_wf_def)+
qed

lemma document_ids_union:
  assumes "corpus_wf u" and docs: "apply_document_usage u k d = Inr docs"
  shows "(\<Union>a \<in> set docs. set (du_disclosure_ids a)) =
    set (co_disclosure_ids u) \<union> set (request_ids d)"
proof -
  let ?new = "charge_document (current_document u k) (dr_disclosures d)"
  have new: "set (du_disclosure_ids ?new) =
      set (du_disclosure_ids (current_document u k)) \<union> set (request_ids d)"
    by (simp add: doc.charge_ids request_ids_def)
  have old: "set (co_disclosure_ids u) = (\<Union>a \<in> set (co_document_usage u). set (du_disclosure_ids a))"
    using assms(1) by (simp add: corpus_wf_def)
  have dist: "distinct (map du_document_id (co_document_usage u))"
    using assms(1) by (simp add: corpus_wf_def)
  show ?thesis
  proof
    show "(\<Union>a \<in> set docs. set (du_disclosure_ids a)) \<subseteq> set (co_disclosure_ids u) \<union> set (request_ids d)"
    proof (rule UN_least)
      fix a assume "a \<in> set docs"
      from apply_document_usage_accounts(2) [OF docs this]
      show "set (du_disclosure_ids a) \<subseteq> set (co_disclosure_ids u) \<union> set (request_ids d)"
        using new current_document_ids(1) [OF assms(1), of k] old by auto
    qed
    have "set (du_disclosure_ids a) \<subseteq> (\<Union>a \<in> set docs. set (du_disclosure_ids a))"
      if a: "a \<in> set (co_document_usage u)" for a
    proof (cases "du_document_id a = k")
      case True
      with document_account_member [OF dist a] have "current_document u k = a"
        by (simp add: current_document_def)
      with new apply_document_usage_accounts(3) [OF docs] show ?thesis by auto
    next
      case False
      have "du_document_id a \<in> set (document_keys u k)" using a by (simp add: set_document_keys)
      with False document_account_member [OF dist a]
      have "a \<in> set docs"
        unfolding apply_document_usage_Inr(1) [OF docs] set_map
        by (intro image_eqI [of _ _ "du_document_id a"]) simp_all
      then show ?thesis by blast
    qed
    moreover have "set (request_ids d) \<subseteq> (\<Union>a \<in> set docs. set (du_disclosure_ids a))"
      using new apply_document_usage_accounts(3) [OF docs] by auto
    ultimately show "set (co_disclosure_ids u) \<union> set (request_ids d) \<subseteq>
        (\<Union>a \<in> set docs. set (du_disclosure_ids a))"
      unfolding old by (intro Un_least UN_least)
  qed
qed

lemma corpus_covered:
  assumes "corpus_wf u" and docs: "apply_document_usage u k d = Inr docs"
  shows "co_unique_tokens (charge_corpus u (dr_disclosures d)) \<le> (\<Sum>a\<leftarrow>docs. du_unique_tokens a)"
    and "co_unique_bytes (charge_corpus u (dr_disclosures d)) \<le> (\<Sum>a\<leftarrow>docs. du_unique_bytes a)"
proof -
  have dist: "distinct (map du_document_id (co_document_usage u))"
    and t: "co_unique_tokens u \<le> (\<Sum>a\<leftarrow>co_document_usage u. du_unique_tokens a)"
    and b: "co_unique_bytes u \<le> (\<Sum>a\<leftarrow>co_document_usage u. du_unique_bytes a)"
    using assms(1) by (simp_all add: corpus_wf_def)
  note less = new_facts_antimono [OF current_document_ids(1) [OF assms(1), of k],
      where fs = "dr_disclosures d"]
  note total = document_total [OF dist apply_document_usage_Inr(1) [OF docs]]
  show "co_unique_tokens (charge_corpus u (dr_disclosures d)) \<le> (\<Sum>a\<leftarrow>docs. du_unique_tokens a)"
    using total [of du_unique_tokens] t less [of df_token_count]
    by (simp add: corp.charge_tokens doc.charge_tokens empty_document_usage_def)
  show "co_unique_bytes (charge_corpus u (dr_disclosures d)) \<le> (\<Sum>a\<leftarrow>docs. du_unique_bytes a)"
    using total [of du_unique_bytes] b less [of df_byte_count]
    by (simp add: corp.charge_bytes doc.charge_bytes empty_document_usage_def)
qed

lemma apply_corpus_usage_wf:
  assumes "apply_corpus_usage ex rr d ph = Inr v" and "\<And>u. ex = Some u \<Longrightarrow> corpus_wf u"
  shows "corpus_wf v"
  using assms(1)
proof (rule apply_corpus_usage_Inr)
  fix u assume u: "u = existing_corpus ex rr ph"
    and docs: "apply_document_usage u (vm_document_id (rr_version rr)) d = Inr (co_document_usage v)"
    and v: "v = (charge_corpus u (dr_disclosures d))\<lparr>co_document_usage := co_document_usage v\<rparr>"
  from assms(2) have wf: "corpus_wf u" by (simp add: u existing_corpus_wf)
  let ?w = "charge_corpus u (dr_disclosures d)"
  have eqs: "co_disclosure_ids v = co_disclosure_ids ?w" "co_unique_tokens v = co_unique_tokens ?w"
    "co_unique_bytes v = co_unique_bytes ?w" by (subst v; simp)+
  have ids: "distinct (co_disclosure_ids ?w)"
    "set (co_disclosure_ids ?w) = set (co_disclosure_ids u) \<union> set (request_ids d)"
    using wf by (simp_all add: corp.charge_ids corpus_wf_def request_ids_def)
  have each: "distinct (du_disclosure_ids a)" if "a \<in> set (co_document_usage v)" for a
    using apply_document_usage_accounts(2) [OF docs that] wf current_document_ids(2) [OF wf]
    by (auto simp: doc.charge_ids corpus_wf_def)
  show ?thesis
    unfolding corpus_wf_def eqs document_ids_union [OF wf docs] apply_document_usage_accounts(1) [OF docs]
    using ids each corpus_covered [OF wf docs] document_keys_sorted by simp
qed

lemma apply_corpus_usage_Inl:
  assumes "apply_corpus_usage ex rr d ph = Inl e"
  shows "\<exists>c. e = EgressPolicyViolation c"
  using assms
  by (auto simp: apply_corpus_usage_def apply_document_usage_def check_unique_cap_def Let_def
      result_simps split: prod.splits)

end
