(* ===== verification/EnforcerTheorems.thy ===== *)
theory EnforcerTheorems
  imports UsageInvariants CorpusShares
begin

text \<open>
  What the enforcer as a whole promises: which requests it prepares, that no sequence of
  reservations under one policy ever exceeds a cap of that policy, that facts are charged
  once, and which errors it can raise.
\<close>

section \<open>Caps of a policy over whole snapshots\<close>

definition within :: "cap_vector \<Rightarrow> nat \<Rightarrow> nat \<Rightarrow> nat \<Rightarrow> bool" where
  "within cap n t b \<longleftrightarrow> n \<le> cap_excerpts cap \<and> t \<le> cap_tokens cap \<and> b \<le> cap_bytes cap"

definition sent_within :: "cap_vector \<Rightarrow> nat \<Rightarrow> nat \<Rightarrow> bool" where
  "sent_within cap t b \<longleftrightarrow> t \<le> cap_tokens cap \<and> b \<le> cap_bytes cap"

definition claim_within :: "egress_policy \<Rightarrow> claim_usage \<Rightarrow> bool" where
  "claim_within p c \<longleftrightarrow> within (ep_l2_claim_unique p) (length (cu_disclosure_ids c))
     (cu_unique_tokens c) (cu_unique_bytes c)"

definition run_within :: "egress_policy \<Rightarrow> task_level \<Rightarrow> run_usage \<Rightarrow> bool" where
  "run_within p level r \<longleftrightarrow>
     within (if level = L1 then ep_l1_online_unique p else ep_l2_online_unique p)
       (length (nu_disclosure_ids r)) (nu_unique_tokens r) (nu_unique_bytes r) \<and>
     sent_within (if level = L1 then ep_l1_online_transmitted p else ep_l2_online_transmitted p)
       (nu_transmitted_tokens r) (nu_transmitted_bytes r) \<and>
     nu_toc_nodes r \<le> ep_toc_per_run p \<and>
     length (nu_claim_usage r) \<le> ep_max_l2_claims_per_run p \<and>
     (\<forall>c \<in> set (nu_claim_usage r). claim_within p c)"

definition usage_within :: "egress_policy \<Rightarrow> usage_snapshot \<Rightarrow> bool" where
  "usage_within p u \<longleftrightarrow>
     within (if us_task_level u = L1 then ep_l1_root_unique p else ep_l2_root_unique p)
       (length (us_disclosures u)) (us_root_unique_tokens u) (us_root_unique_bytes u) \<and>
     sent_within (if us_task_level u = L1 then ep_l1_root_transmitted p else ep_l2_root_transmitted p)
       (us_root_transmitted_tokens u) (us_root_transmitted_bytes u) \<and>
     within (ep_judge_unique p) (length (us_judge_disclosure_ids u)) (us_judge_unique_tokens u)
       (us_judge_unique_bytes u) \<and>
     sent_within (ep_judge_transmitted p) (us_judge_transmitted_tokens u)
       (us_judge_transmitted_bytes u) \<and>
     (\<forall>r \<in> set (us_run_usage u). run_within p (us_task_level u) r)"

definition document_within :: "egress_policy \<Rightarrow> corpus_document_usage \<Rightarrow> bool" where
  "document_within p a \<longleftrightarrow>
     (case map_of (ep_corpus_document_unique p) (du_document_id a) of
        None \<Rightarrow> False
      | Some cap \<Rightarrow> within cap (length (du_disclosure_ids a)) (du_unique_tokens a) (du_unique_bytes a))"

definition corpus_within :: "egress_policy \<Rightarrow> corpus_usage \<Rightarrow> bool" where
  "corpus_within p c \<longleftrightarrow>
     within (ep_corpus_unique p) (length (co_disclosure_ids c)) (co_unique_tokens c)
       (co_unique_bytes c) \<and>
     (\<forall>a \<in> set (co_document_usage c). document_within p a)"

lemma usage_within_empty: "usage_within p (empty_usage_snapshot root level ph)"
  by (simp add: usage_within_def within_def sent_within_def empty_usage_snapshot_def)

lemma corpus_within_empty: "corpus_within p (empty_corpus_usage c ph)"
  by (simp add: corpus_within_def within_def empty_corpus_usage_def)

lemma existing_usage_within:
  "(\<And>u. ex = Some u \<Longrightarrow> usage_within p u) \<Longrightarrow> usage_within p (existing_usage ex rr ph)"
  by (auto simp: existing_usage_def usage_within_empty split: option.split)

lemma existing_corpus_within:
  "(\<And>u. ex = Some u \<Longrightarrow> corpus_within p u) \<Longrightarrow> corpus_within p (existing_corpus ex rr ph)"
  by (auto simp: existing_corpus_def corpus_within_empty split: option.split)

lemma policy_snapshot_fields:
  assumes "policy_snapshot p level kind doc = Some cs"
  shows "cs_root_unique cs = (if level = L1 then ep_l1_root_unique p else ep_l2_root_unique p)"
    and "cs_root_transmitted cs =
      (if level = L1 then ep_l1_root_transmitted p else ep_l2_root_transmitted p)"
    and "cs_judge_unique cs = ep_judge_unique p"
    and "cs_judge_transmitted cs = ep_judge_transmitted p"
    and "cs_toc_per_run cs = ep_toc_per_run p"
    and "cs_max_claims_per_run cs = ep_max_l2_claims_per_run p"
    and "cs_online_unique cs = Some c1 \<Longrightarrow>
      c1 = (if level = L1 then ep_l1_online_unique p else ep_l2_online_unique p)"
    and "cs_online_transmitted cs = Some c2 \<Longrightarrow>
      c2 = (if level = L1 then ep_l1_online_transmitted p else ep_l2_online_transmitted p)"
    and "cs_claim_unique cs = Some c3 \<Longrightarrow> c3 = ep_l2_claim_unique p"
    and "cs_toc_per_call cs = ep_toc_per_call p"
  using assms by (auto simp: policy_snapshot_def Let_def split: option.splits if_splits)

lemma updated_claim_usage_within:
  assumes "updated_claim_usage us cid facts d = Inr vs"
    and cap: "\<And>c. cs_claim_unique (dr_cap_snapshot d) = Some c \<Longrightarrow> c = ep_l2_claim_unique p"
    and "\<forall>c \<in> set us. claim_within p c"
  shows "\<forall>c \<in> set vs. claim_within p c"
proof -
  from assms(1) have C: "cs_claim_unique (dr_cap_snapshot d) = Some (ep_l2_claim_unique p)"
    using cap by (auto simp: updated_claim_usage_def split: option.splits)
  note U = assms(1) [unfolded updated_claim_usage_def C option.case]
  show ?thesis using assms(3)
    by (intro list_all_upsert_result [OF U])
      (auto simp: Let_def result_simps claim_within_def within_def check_unique_cap_Inr)
qed

lemma apply_to_run_within:
  assumes "apply_to_run u d facts = Inr v"
    and snap: "policy_snapshot p level kind doc = Some (dr_cap_snapshot d)"
    and "\<forall>c \<in> set (nu_claim_usage u). claim_within p c"
    and "length (nu_claim_usage u) \<le> ep_max_l2_claims_per_run p"
  shows "run_within p level v"
  using assms(1)
proof (rule apply_to_run_Inr)
  note F = policy_snapshot_fields [OF snap]
  fix claims online sent
  assume A: "claims = nu_claim_usage u \<and> dr_atomic_claim_id d = None \<or>
      (\<exists>cid. dr_atomic_claim_id d = Some cid \<and>
        updated_claim_usage (nu_claim_usage u) cid facts d = Inr claims \<and>
        length claims \<le> cs_max_claims_per_run (dr_cap_snapshot d))"
    and v: "nu_claim_usage v = claims"
      "nu_toc_nodes v \<le> cs_toc_per_run (dr_cap_snapshot d)"
      "cs_online_unique (dr_cap_snapshot d) = Some online"
      "cs_online_transmitted (dr_cap_snapshot d) = Some sent"
      "length (nu_disclosure_ids v) \<le> cap_excerpts online"
      "nu_unique_tokens v \<le> cap_tokens online" "nu_unique_bytes v \<le> cap_bytes online"
      "nu_transmitted_tokens v \<le> cap_tokens sent" "nu_transmitted_bytes v \<le> cap_bytes sent"
  have "length claims \<le> ep_max_l2_claims_per_run p \<and> (\<forall>c \<in> set claims. claim_within p c)"
    using A assms(3,4) updated_claim_usage_within [OF _ F(9) assms(3)] F(6)
    by fastforce
  with v F(5) F(7) [OF v(3)] F(8) [OF v(4)] show ?thesis
    by (simp add: run_within_def within_def sent_within_def)
qed

lemma apply_usage_within:
  assumes "apply_usage ex rr d ph = Inr v" and ex: "\<And>u. ex = Some u \<Longrightarrow> usage_within p u"
    and snap: "policy_snapshot p (rr_task_level rr) kind doc = Some (dr_cap_snapshot d)"
  shows "usage_within p v"
  using assms(1)
proof (rule apply_usage_Inr)
  note F = policy_snapshot_fields [OF snap]
  fix u requested merged
  assume u: "u = existing_usage ex rr ph"
    and K: "us_task_level u = rr_task_level rr" "us_task_level v = rr_task_level rr"
      "us_disclosures v = merged"
    and C1: "check_unique_cap (map df_disclosure_id merged) (us_root_unique_tokens v)
       (us_root_unique_bytes v) (cs_root_unique (dr_cap_snapshot d)) ''root_unique'' = Inr ()"
    and C2: "check_transmitted_cap (us_root_transmitted_tokens v) (us_root_transmitted_bytes v)
       (cs_root_transmitted (dr_cap_snapshot d)) ''root_transmitted'' = Inr ()"
    and J: "rr_stage rr = JudgeStage \<Longrightarrow> us_run_usage v = us_run_usage u \<and>
       us_judge_disclosure_ids v =
         ordered_union (us_judge_disclosure_ids u) (map df_disclosure_id requested) \<and>
       unique_sizes (us_judge_disclosure_ids v) (facts_by_id merged) =
         Inr (us_judge_unique_tokens v, us_judge_unique_bytes v) \<and>
       us_judge_transmitted_tokens v = us_judge_transmitted_tokens u + dr_transmitted_tokens d \<and>
       us_judge_transmitted_bytes v = us_judge_transmitted_bytes u + dr_transmitted_bytes d \<and>
       check_unique_cap (us_judge_disclosure_ids v) (us_judge_unique_tokens v)
         (us_judge_unique_bytes v) (cs_judge_unique (dr_cap_snapshot d)) ''judge_unique'' = Inr () \<and>
       check_transmitted_cap (us_judge_transmitted_tokens v) (us_judge_transmitted_bytes v)
         (cs_judge_transmitted (dr_cap_snapshot d)) ''judge_transmitted'' = Inr ()"
    and N: "rr_stage rr \<noteq> JudgeStage \<Longrightarrow>
       us_judge_disclosure_ids v = us_judge_disclosure_ids u \<and>
       us_judge_unique_tokens v = us_judge_unique_tokens u \<and>
       us_judge_unique_bytes v = us_judge_unique_bytes u \<and>
       us_judge_transmitted_tokens v = us_judge_transmitted_tokens u \<and>
       us_judge_transmitted_bytes v = us_judge_transmitted_bytes u \<and>
       updated_online_run_usage (us_run_usage u) rr d (facts_by_id merged) = Inr (us_run_usage v)"
  have old: "usage_within p u" using ex by (simp add: u existing_usage_within)
  have runs: "\<forall>r \<in> set (us_run_usage v). run_within p (rr_task_level rr) r"
  proof (cases "rr_stage rr = JudgeStage")
    case True
    with J old K(1) show ?thesis by (simp add: usage_within_def)
  next
    case False
    with N have U: "updated_online_run_usage (us_run_usage u) rr d (facts_by_id merged) =
      Inr (us_run_usage v)" by simp
    show ?thesis
    proof (rule list_all_upsert_result [OF U [unfolded updated_online_run_usage_def]])
      show "\<forall>r \<in> set (us_run_usage u). run_within p (rr_task_level rr) r"
        using old K(1) by (simp add: usage_within_def)
    next
      fix r assume "apply_to_run (empty_run_usage (rr_run_id rr)) d (facts_by_id merged) = Inr r"
      then show "run_within p (rr_task_level rr) r"
        by (rule apply_to_run_within [OF _ snap]) (simp_all add: empty_run_usage_def)
    next
      fix q r assume "q \<in> set (us_run_usage u)" "apply_to_run q d (facts_by_id merged) = Inr r"
      with old show "run_within p (rr_task_level rr) r"
        by (intro apply_to_run_within [OF _ snap]) (auto simp: usage_within_def run_within_def)
    qed
  qed
  have judge: "within (ep_judge_unique p) (length (us_judge_disclosure_ids v))
      (us_judge_unique_tokens v) (us_judge_unique_bytes v) \<and>
    sent_within (ep_judge_transmitted p) (us_judge_transmitted_tokens v)
      (us_judge_transmitted_bytes v)"
  proof (cases "rr_stage rr = JudgeStage")
    case True
    from J [OF True] F(3,4) show ?thesis
      by (auto simp: cap_checks within_def sent_within_def simp del: ordered_union.simps)
  next
    case False
    with N old show ?thesis by (simp add: usage_within_def)
  qed
  show ?thesis
    unfolding usage_within_def using runs judge C1 C2 F(1,2) K
    by (simp add: within_def sent_within_def cap_checks)
qed

lemma apply_corpus_usage_within:
  assumes "apply_corpus_usage ex rr d ph = Inr v" and ex: "\<And>u. ex = Some u \<Longrightarrow> corpus_within p u"
    and snap: "policy_snapshot p level kind (vm_document_id (rr_version rr)) = Some (dr_cap_snapshot d)"
  shows "corpus_within p v"
  using assms(1)
proof (rule apply_corpus_usage_Inr)
  let ?k = "vm_document_id (rr_version rr)"
  note S = policy_snapshot_Some [OF snap]
  fix u
  assume u: "u = existing_corpus ex rr ph"
    and docs: "apply_document_usage u ?k d = Inr (co_document_usage v)"
    and C: "length (co_disclosure_ids v) \<le> cap_excerpts (cs_corpus_unique (dr_cap_snapshot d))"
      "co_unique_tokens v \<le> cap_tokens (cs_corpus_unique (dr_cap_snapshot d))"
      "co_unique_bytes v \<le> cap_bytes (cs_corpus_unique (dr_cap_snapshot d))"
  have old: "corpus_within p u" using ex by (simp add: u existing_corpus_within)
  let ?new = "charge_document (current_document u ?k) (dr_disclosures d)"
  have "document_within p ?new"
    unfolding document_within_def
    by (simp add: current_document_id S(1) within_def apply_document_usage_Inr(2-4) [OF docs])
  then have "\<forall>a \<in> set (co_document_usage v). document_within p a"
    using apply_document_usage_accounts(2) [OF docs] old by (auto simp: corpus_within_def)
  with C S(2) show ?thesis by (simp add: corpus_within_def within_def)
qed

section \<open>One reservation\<close>

lemma apply_reservation_Inr:
  assumes "apply_reservation en ex co rr counter = Inr out"
  obtains d where "derive en (canonical_request rr) counter = Inr d"
    "rr_disclosures rr = dr_disclosures d"
    "apply_usage ex rr d (policy_hash (en_sha256 en) (en_policy en)) = Inr (ro_usage out)"
    "apply_corpus_usage co rr d (policy_hash (en_sha256 en) (en_policy en)) =
       Inr (ro_corpus_usage out)"
    "policy_snapshot (en_policy en) (rr_task_level rr) (payload_kind (rr_projected_payload rr))
       (vm_document_id (rr_version rr)) = Some (dr_cap_snapshot d)"
    "totals_of_facts d"
proof -
  from assms obtain d where d: "derive en (canonical_request rr) counter = Inr d"
    "rr_disclosures rr = dr_disclosures d"
    "apply_usage ex rr d (policy_hash (en_sha256 en) (en_policy en)) = Inr (ro_usage out)"
    "apply_corpus_usage co rr d (policy_hash (en_sha256 en) (en_policy en)) =
       Inr (ro_corpus_usage out)"
    by (auto simp: apply_reservation_def result_simps Let_def)
  from d(1) have "policy_snapshot (en_policy en) (rr_task_level rr)
      (payload_kind (rr_projected_payload rr)) (vm_document_id (rr_version rr)) =
      Some (dr_cap_snapshot d)"
    by (rule derive_Inr) (simp add: canonical_request_def)
  with d derive_totals [OF d(1)] that show ?thesis by blast
qed

definition accounts_ok ::
  "egress_policy \<Rightarrow> usage_snapshot option \<times> corpus_usage option \<Rightarrow> bool" where
  "accounts_ok p = (\<lambda>(ex, co).
     (case ex of None \<Rightarrow> True | Some u \<Rightarrow> usage_wf u \<and> usage_within p u) \<and>
     (case co of None \<Rightarrow> True | Some c \<Rightarrow> corpus_wf c \<and> corpus_within p c))"

lemma apply_reservation_accounts_ok:
  assumes R: "apply_reservation en ex co rr counter = Inr out"
    and ok: "accounts_ok (en_policy en) (ex, co)"
  shows "accounts_ok (en_policy en) (Some (ro_usage out), Some (ro_corpus_usage out))"
  using R
proof (rule apply_reservation_Inr)
  fix d
  let ?ph = "policy_hash (en_sha256 en) (en_policy en)"
  assume U: "apply_usage ex rr d ?ph = Inr (ro_usage out)"
    and C: "apply_corpus_usage co rr d ?ph = Inr (ro_corpus_usage out)"
    and S: "policy_snapshot (en_policy en) (rr_task_level rr) (payload_kind (rr_projected_payload rr))
       (vm_document_id (rr_version rr)) = Some (dr_cap_snapshot d)"
    and T: "totals_of_facts d"
  have ex: "\<And>u. ex = Some u \<Longrightarrow> usage_wf u \<and> usage_within (en_policy en) u"
    and co: "\<And>c. co = Some c \<Longrightarrow> corpus_wf c \<and> corpus_within (en_policy en) c"
    using ok by (auto simp: accounts_ok_def)
  show ?thesis
    using apply_usage_wf [OF U _ T] apply_usage_within [OF U _ S] apply_corpus_usage_wf [OF C]
      apply_corpus_usage_within [OF C _ S] ex co
    by (simp add: accounts_ok_def)
qed

section \<open>Sequences of reservations\<close>

text \<open>
  Any number of reservations against one root and one corpus, each with its own request, clock,
  manifest store and token counter, under one policy.
\<close>

inductive reservation_step ::
  "egress_policy \<Rightarrow> usage_snapshot option \<times> corpus_usage option \<Rightarrow>
   usage_snapshot option \<times> corpus_usage option \<Rightarrow> bool" for p where
  reserve: "en_policy en = p \<Longrightarrow> apply_reservation en ex co rr counter = Inr out \<Longrightarrow>
    reservation_step p (ex, co) (Some (ro_usage out), Some (ro_corpus_usage out))"

inductive_cases reservation_stepE: "reservation_step p s t"

interpretation accounts: invariant_system "\<lambda>s. s = (None, None)" "reservation_step p"
  "accounts_ok p" for p
proof unfold_locales
  fix s :: "usage_snapshot option \<times> corpus_usage option"
  assume "s = (None, None)"
  then show "accounts_ok p s" by (simp add: accounts_ok_def)
next
  fix s t assume "reservation_step p s t" and ok: "accounts_ok p s"
  then show "accounts_ok p t"
    by (cases rule: reservation_step.cases) (auto intro: apply_reservation_accounts_ok)
qed

section \<open>A concrete enforcer\<close>

text \<open>
  A small policy, a request with two excerpts and a counter that charges one token per four
  bytes: what the witnesses of this development evaluate. A short tail of the text stands in for
  the hash.
\<close>

definition sample_hash :: "string \<Rightarrow> string" where
  "sample_hash s = take 4 (rev s)"

definition sample_policy :: egress_policy where
  "sample_policy = \<lparr>ep_schema_version = ''egress-policy/v4'',
     ep_stage_payload_allowlist = [(''evidence'', [''l1_query'']), (''judge'', [''judge''])],
     ep_excerpt = \<lparr>cap_excerpts = 1, cap_tokens = 10, cap_bytes = 40\<rparr>,
     ep_l1_online_unique = \<lparr>cap_excerpts = 3, cap_tokens = 20, cap_bytes = 80\<rparr>,
     ep_l1_online_transmitted = \<lparr>cap_excerpts = 6, cap_tokens = 40, cap_bytes = 160\<rparr>,
     ep_l2_online_unique = \<lparr>cap_excerpts = 3, cap_tokens = 20, cap_bytes = 80\<rparr>,
     ep_l2_claim_unique = \<lparr>cap_excerpts = 2, cap_tokens = 20, cap_bytes = 80\<rparr>,
     ep_l2_online_transmitted = \<lparr>cap_excerpts = 6, cap_tokens = 40, cap_bytes = 160\<rparr>,
     ep_judge_unique = \<lparr>cap_excerpts = 3, cap_tokens = 20, cap_bytes = 80\<rparr>,
     ep_judge_transmitted = \<lparr>cap_excerpts = 6, cap_tokens = 40, cap_bytes = 160\<rparr>,
     ep_l1_root_unique = \<lparr>cap_excerpts = 4, cap_tokens = 30, cap_bytes = 120\<rparr>,
     ep_l1_root_transmitted = \<lparr>cap_excerpts = 8, cap_tokens = 60, cap_bytes = 240\<rparr>,
     ep_l2_root_unique = \<lparr>cap_excerpts = 4, cap_tokens = 30, cap_bytes = 120\<rparr>,
     ep_l2_root_transmitted = \<lparr>cap_excerpts = 8, cap_tokens = 60, cap_bytes = 240\<rparr>,
     ep_corpus_unique = \<lparr>cap_excerpts = 9, cap_tokens = 90, cap_bytes = 360\<rparr>,
     ep_corpus_document_unique =
       [(''ietf-rfc-9110'', \<lparr>cap_excerpts = 5, cap_tokens = 50, cap_bytes = 200\<rparr>)],
     ep_toc_per_call = 2, ep_toc_per_run = 4, ep_l1_query_tokens = 10, ep_l1_plan_tokens = 10,
     ep_l2_design_tokens = 20, ep_max_l2_claims_per_run = 2\<rparr>"

definition sample_time :: "int \<Rightarrow> string" where
  "sample_time t = ''t''"

definition sample_source :: source_manifest where
  "sample_source = sample_manifest (\<lambda>s. ''33'') sample_time"

definition sample_enforcer :: enforcer where
  "sample_enforcer = \<lparr>en_sha256 = sample_hash, en_policy = sample_policy,
     en_read_source = (\<lambda>i. if i = ''33'' then Some sample_source else None),
     en_clock = ClockAt 100\<rparr>"

definition sample_counter :: token_counter where
  "sample_counter = \<lparr>tc_provider_id = ''provider'', tc_model_id = ''model'',
     tc_count_tokens = (\<lambda>s. CountInt (1 + int (length s) div 4))\<rparr>"

definition sample_version :: version_metadata where
  "sample_version = \<lparr>vm_source_manifest_id = ''33'', vm_corpus_manifest_id = ''44'',
     vm_document_id = ''ietf-rfc-9110'', vm_document_version = ''2022-06''\<rparr>"

definition sample_excerpt :: "nat \<Rightarrow> string \<Rightarrow> evidence_excerpt" where
  "sample_excerpt n quote = \<lparr>ee_corpus_manifest_id = ''44'', ee_content_hash = ''55'',
     ee_quote = quote, ee_quote_hash = sample_hash quote,
     ee_span = \<lparr>paragraph_start = 1, paragraph_end = 1, token_start = 0, token_end = n\<rparr>\<rparr>"

definition sample_request :: egress_request where
  "sample_request = \<lparr>er_evaluation_root_id = ''root'', er_run_id = ''run'', er_task_level = L1,
     er_version = sample_version, er_stage = EvidenceStage, er_route = sample_route,
     er_model_id = ''model'', er_source_manifest = sample_source,
     er_payload = L1Online \<lparr>lo_query = ''what is a safe method?'', lo_version = sample_version,
       lo_toc_nodes = [\<lparr>tn_node_id = ''n1'', tn_title = ''Methods''\<rparr>],
       lo_evidence_excerpts =
         [sample_excerpt 6 ''safe methods are read-only'', sample_excerpt 3 ''GET is safe'',
          sample_excerpt 3 ''GET is safe'']\<rparr>\<rparr>"

definition sample_reservation :: reservation_request where
  "sample_reservation = \<lparr>
     rr_evaluation_root_id = ''root'', rr_run_id = ''run'', rr_task_level = L1,
     rr_version = sample_version, rr_stage = EvidenceStage, rr_route = sample_route,
     rr_model_id = ''model'', rr_source_manifest = sample_source,
     rr_projected_payload = er_payload sample_request,
     rr_disclosures = [fact_of sample_hash (sample_excerpt 6 ''safe methods are read-only'') 7,
       fact_of sample_hash (sample_excerpt 3 ''GET is safe'') 3, fact_of sample_hash (sample_excerpt 3 ''GET is safe'') 3],
     rr_attributes = reservation_request_fields\<rparr>"

lemma sample_prepare: "prepare sample_enforcer sample_request (Counter sample_counter) =
    Inr sample_reservation"
  by code_simp

text \<open>Three excerpts are sent, two of them the same: ten tokens are charged, thirteen leave.\<close>

definition sample_outcome :: reservation_outcome where
  "sample_outcome = (let ids = ['']}6:'', '']}3:'']; ph = [CHR 0x7D, CHR 0x34, CHR 0x3A, CHR 0x22];
       span = \<lambda>n. \<lparr>paragraph_start = 1, paragraph_end = 1, token_start = 0, token_end = n\<rparr> in
     \<lparr>ro_usage = \<lparr>us_evaluation_root_id = ''root'', us_task_level = L1, us_policy_hash = ph,
       us_disclosures =
         [\<lparr>df_disclosure_id = '']}6:'', df_corpus_manifest_id = ''44'', df_content_hash = ''55'',
            df_quote_hash = ''ylno'', df_span = span 6, df_token_count = 7, df_byte_count = 26\<rparr>,
          \<lparr>df_disclosure_id = '']}3:'', df_corpus_manifest_id = ''44'', df_content_hash = ''55'',
            df_quote_hash = ''efas'', df_span = span 3, df_token_count = 3, df_byte_count = 11\<rparr>],
       us_route_usage = [\<lparr>ru_route = sample_route, ru_disclosure_ids = ids,
         ru_unique_tokens = 10, ru_unique_bytes = 37\<rparr>],
       us_stage_usage = [\<lparr>su_stage = EvidenceStage, su_transmitted_tokens = 13,
         su_transmitted_bytes = 48, su_transmissions = 1\<rparr>],
       us_run_usage = [\<lparr>nu_run_id = ''run'', nu_disclosure_ids = ids, nu_unique_tokens = 10,
         nu_unique_bytes = 37, nu_transmitted_tokens = 13, nu_transmitted_bytes = 48,
         nu_toc_nodes = 1, nu_claim_usage = []\<rparr>],
       us_judge_disclosure_ids = [], us_judge_unique_tokens = 0, us_judge_unique_bytes = 0,
       us_judge_transmitted_tokens = 0, us_judge_transmitted_bytes = 0,
       us_root_unique_tokens = 10, us_root_unique_bytes = 37,
       us_root_transmitted_tokens = 13, us_root_transmitted_bytes = 48\<rparr>,
     ro_corpus_usage = \<lparr>co_corpus_manifest_id = ''44'', co_policy_hash = ph,
       co_disclosure_ids = ids, co_unique_tokens = 10, co_unique_bytes = 37,
       co_document_usage = [\<lparr>du_document_id = ''ietf-rfc-9110'', du_disclosure_ids = ids,
         du_unique_tokens = 10, du_unique_bytes = 37\<rparr>]\<rparr>\<rparr>)"

lemma sample_apply:
  "apply_reservation sample_enforcer None None sample_reservation (Counter sample_counter) =
    Inr sample_outcome"
  by code_simp

lemma sample_policy_of_enforcer: "en_policy sample_enforcer = sample_policy"
  by (simp add: sample_enforcer_def)

section \<open>Properties\<close>

text \<open>
  C23. Nothing is prepared for sending unless a recorded decision allows it: the manifest the
  enforcer read from its own store under the request's manifest identifier is the request's
  manifest and authorizes the request's route at the enforcer's clock time, the stage may send
  this kind of payload, the route's use fits it, and the counter is the route's own.
\<close>

theorem prepared_request_is_authorized:
  assumes "prepare en r counter = Inr rr"
  shows "\<exists>stored at tc.
    en_read_source en (vm_source_manifest_id (er_version r)) = Some stored \<and>
    stored = er_source_manifest r \<and> sm_manifest_id stored = vm_source_manifest_id (er_version r) \<and>
    sm_document_id stored = vm_document_id (er_version r) \<and>
    en_clock en = ClockAt at \<and> authorizes stored (er_route r) at \<and>
    rb_use (er_route r) = expected_use (er_payload r) \<and>
    (\<exists>kinds. map_of (ep_stage_payload_allowlist (en_policy en)) (stage_value (er_stage r)) =
       Some kinds \<and> payload_kind (er_payload r) \<in> set kinds) \<and>
    counter = Counter tc \<and> tc_provider_id tc = rb_provider_id (er_route r) \<and>
    tc_model_id tc = er_model_id r \<and> canonical_request rr = r"
proof -
  from assms obtain d where d: "derive en r counter = Inr d" "canonical_request rr = r"
    by (rule prepare_Inr)
  from d(1) show ?thesis
  proof (rule derive_Inr)
    fix stored at tc
    assume V: "validate_version_binding r = Inr ()" and A: "stored = er_source_manifest r"
      "rb_use (er_route r) = expected_use (er_payload r)"
      "\<exists>allowed. map_of (ep_stage_payload_allowlist (en_policy en)) (stage_value (er_stage r)) =
         Some allowed \<and> payload_kind (er_payload r) \<in> set allowed"
      "en_read_source en (vm_source_manifest_id (er_version r)) = Some stored"
      "en_clock en = ClockAt at" "authorizes stored (er_route r) at" "counter = Counter tc"
      "tc_provider_id tc = rb_provider_id (er_route r)" "tc_model_id tc = er_model_id r"
    from V have "sm_manifest_id (er_source_manifest r) = vm_source_manifest_id (er_version r)"
      "sm_document_id (er_source_manifest r) = vm_document_id (er_version r)"
      by (auto simp: validate_version_binding_def Let_def result_simps)
    with A d(2) show ?thesis by auto
  qed
qed

theorem prepared_request_is_authorized_witness:
  "\<exists>stored at. en_read_source sample_enforcer ''33'' = Some stored \<and>
    authorizes stored sample_route at"
  using prepared_request_is_authorized [OF sample_prepare]
  by (auto simp: sample_request_def sample_version_def)

text \<open>
  What is prepared is priced excerpt by excerpt: the facts are those of the payload's
  excerpts, in order, each of the request's corpus, each with the counter's positive token
  count and the UTF-8 length of the quote, each inside the policy's per-excerpt cap; the text
  that is projected and the table of contents are inside theirs.
\<close>

theorem prepared_request_is_priced:
  assumes "prepare en r counter = Inr rr"
  shows "\<exists>tc. counter = Counter tc \<and>
    list_all2 (\<lambda>e f. f = fact_of (en_sha256 en) e (df_token_count f) \<and>
        tc_count_tokens tc (ee_quote e) = CountInt (int (df_token_count f)) \<and>
        0 < df_token_count f \<and> df_token_count f \<le> cap_tokens (ep_excerpt (en_policy en)) \<and>
        df_byte_count f = length (ee_quote e) \<and>
        df_byte_count f \<le> cap_bytes (ep_excerpt (en_policy en)) \<and>
        ee_corpus_manifest_id e = vm_corpus_manifest_id (er_version r))
      (payload_excerpts (er_payload r)) (rr_disclosures rr) \<and>
    length (payload_toc_nodes (er_payload r)) \<le> ep_toc_per_call (en_policy en)"
proof -
  from assms obtain d where d: "derive en r counter = Inr d" "rr_disclosures rr = dr_disclosures d"
    by (rule prepare_Inr)
  from d(1) show ?thesis
  proof (rule derive_Inr)
    fix tc
    assume tc: "counter = Counter tc" and V: "validate_version_binding r = Inr ()"
      and S: "policy_snapshot (en_policy en) (er_task_level r) (payload_kind (er_payload r))
       (vm_document_id (er_version r)) = Some (dr_cap_snapshot d)"
      and P: "list_all2 (priced (en_sha256 en) tc (cs_excerpt (dr_cap_snapshot d)))
       (payload_excerpts (er_payload r)) (dr_disclosures d)"
      and T: "dr_toc_delta d = length (payload_toc_nodes (er_payload r))"
        "dr_toc_delta d \<le> cs_toc_per_call (dr_cap_snapshot d)"
    from V have corpus: "\<forall>e \<in> set (payload_excerpts (er_payload r)).
        ee_corpus_manifest_id e = vm_corpus_manifest_id (er_version r)"
      by (auto simp: validate_version_binding_def Let_def result_simps list_all_iff)
    have cap: "cs_excerpt (dr_cap_snapshot d) = ep_excerpt (en_policy en)"
      "cs_toc_per_call (dr_cap_snapshot d) = ep_toc_per_call (en_policy en)"
      using policy_snapshot_Some(3) [OF S] policy_snapshot_fields(10) [OF S] by simp_all
    have "list_all2 (\<lambda>e f. f = fact_of (en_sha256 en) e (df_token_count f) \<and>
        tc_count_tokens tc (ee_quote e) = CountInt (int (df_token_count f)) \<and>
        0 < df_token_count f \<and> df_token_count f \<le> cap_tokens (ep_excerpt (en_policy en)) \<and>
        df_byte_count f = length (ee_quote e) \<and>
        df_byte_count f \<le> cap_bytes (ep_excerpt (en_policy en)) \<and>
        ee_corpus_manifest_id e = vm_corpus_manifest_id (er_version r))
      (payload_excerpts (er_payload r)) (dr_disclosures d)"
    proof (rule list.rel_mono_strong [OF P])
      fix e f
      assume e: "e \<in> set (payload_excerpts (er_payload r))"
        and p: "priced (en_sha256 en) tc (cs_excerpt (dr_cap_snapshot d)) e f"
      from p have f: "f = fact_of (en_sha256 en) e (df_token_count f)"
        and n: "count tc (ee_quote e) = Inr (df_token_count f)" by (simp_all add: priced_def)
      from f have "df_byte_count f = length (ee_quote e)"
        by (metis disclosure_fact.select_convs(7) fact_of_def)
      moreover have "tc_count_tokens tc (ee_quote e) = CountInt (int (df_token_count f))"
        using n by (auto simp: count_def split: count_outcome.splits if_splits)
      ultimately show "f = fact_of (en_sha256 en) e (df_token_count f) \<and>
        tc_count_tokens tc (ee_quote e) = CountInt (int (df_token_count f)) \<and>
        0 < df_token_count f \<and> df_token_count f \<le> cap_tokens (ep_excerpt (en_policy en)) \<and>
        df_byte_count f = length (ee_quote e) \<and>
        df_byte_count f \<le> cap_bytes (ep_excerpt (en_policy en)) \<and>
        ee_corpus_manifest_id e = vm_corpus_manifest_id (er_version r)"
        using f p corpus e count_positive [OF n] cap by (simp add: priced_def)
    qed
    with tc T cap d(2) show ?thesis by auto
  qed
qed

theorem prepared_request_is_priced_witness:
  "\<exists>tc. Counter sample_counter = Counter tc \<and> length (rr_disclosures sample_reservation) = 3"
  using prepared_request_is_priced [OF sample_prepare] by (auto simp: sample_reservation_def)

text \<open>
  No sequence of reservations exceeds the policy: whatever requests, clocks, manifest
  stores and counters an enforcer with policy \<open>p\<close> meets, in any order and number, the usage of
  the root, of every run and claim in it, of the judge, of the corpus and of every document
  stays within the caps of \<open>p\<close>, and every account's totals are exactly the sizes of the facts
  it lists.
\<close>

theorem caps_never_exceeded:
  assumes "reachable_from (\<lambda>s. s = (None, None)) (reservation_step p) (Some u, Some c)"
  shows "usage_wf u \<and> usage_within p u \<and> corpus_wf c \<and> corpus_within p c"
  using accounts.reachable_inv [OF assms] by (simp add: accounts_ok_def)

theorem caps_never_exceeded_witness:
  "usage_within sample_policy (ro_usage sample_outcome) \<and>
   corpus_within sample_policy (ro_corpus_usage sample_outcome)"
proof -
  have "reachable_from (\<lambda>s. s = (None, None)) (reservation_step sample_policy)
      (Some (ro_usage sample_outcome), Some (ro_corpus_usage sample_outcome))"
    by (rule reachable_from.advance [OF reachable_from.start])
      (auto intro: reservation_step.reserve [OF sample_policy_of_enforcer sample_apply])
  from caps_never_exceeded [OF this] show ?thesis by simp
qed

text \<open>
  A caller cannot choose what it is charged: a reservation that is applied carries exactly
  the facts the enforcer derives from the request it names, and no attribute of its own.
\<close>

theorem applied_facts_are_derived:
  assumes "apply_reservation en ex co rr counter = Inr out"
  shows "\<exists>d. derive en (canonical_request rr) counter = Inr d \<and>
    rr_disclosures rr = dr_disclosures d \<and>
    set (rr_attributes rr) = set reservation_request_fields \<and>
    map df_disclosure_id (rr_disclosures rr) =
      map (\<lambda>e. disclosure_id (en_sha256 en) (ee_corpus_manifest_id e) (ee_content_hash e)
        (ee_quote_hash e) (ee_span e)) (payload_excerpts (rr_projected_payload rr))"
proof -
  from assms obtain d where d: "derive en (canonical_request rr) counter = Inr d"
    "rr_disclosures rr = dr_disclosures d" by (rule apply_reservation_Inr)
  have attrs: "set (rr_attributes rr) = set reservation_request_fields"
    using assms by (simp add: apply_reservation_def result_simps)
  have "map df_disclosure_id (dr_disclosures d) =
      map (\<lambda>e. disclosure_id (en_sha256 en) (ee_corpus_manifest_id e) (ee_content_hash e)
        (ee_quote_hash e) (ee_span e)) (payload_excerpts (er_payload (canonical_request rr)))"
    using d(1) by (rule derive_Inr) (rule priced_ids)
  with d attrs show ?thesis by (simp add: canonical_request_def)
qed

theorem applied_facts_are_derived_witness:
  "\<exists>d. derive sample_enforcer (canonical_request sample_reservation) (Counter sample_counter) =
    Inr d \<and> length (dr_disclosures d) = 3"
  using applied_facts_are_derived [OF sample_apply] by (auto simp: sample_reservation_def dest: sym)

text \<open>
  Preparing and applying agree: what an enforcer prepared, the same enforcer (same store,
  clock and counter) never rejects as malformed or misaccounted; only the accounts can.
\<close>

theorem prepared_request_applies:
  assumes "prepare en r counter = Inr rr"
  shows "\<exists>d. derive en r counter = Inr d \<and>
    apply_reservation en ex co rr counter =
      bind_result (apply_usage ex rr d (policy_hash (en_sha256 en) (en_policy en))) (\<lambda>usage.
      bind_result (apply_corpus_usage co rr d (policy_hash (en_sha256 en) (en_policy en)))
        (\<lambda>corpus. Inr \<lparr>ro_usage = usage, ro_corpus_usage = corpus\<rparr>))"
proof -
  from assms obtain d where "derive en r counter = Inr d" "canonical_request rr = r"
    "rr_disclosures rr = dr_disclosures d" "rr_attributes rr = reservation_request_fields"
    by (rule prepare_Inr)
  then show ?thesis by (simp add: apply_reservation_def Let_def)
qed

theorem prepared_request_applies_witness:
  "\<exists>d. derive sample_enforcer sample_request (Counter sample_counter) = Inr d \<and>
    apply_usage None sample_reservation d
      (policy_hash (en_sha256 sample_enforcer) (en_policy sample_enforcer)) =
    Inr (ro_usage sample_outcome)"
proof -
  from prepared_request_applies [OF sample_prepare, of None None] obtain d where
    d: "derive sample_enforcer sample_request (Counter sample_counter) = Inr d"
    and A: "Inr sample_outcome = bind_result (apply_usage None sample_reservation d
        (policy_hash (en_sha256 sample_enforcer) (en_policy sample_enforcer))) (\<lambda>usage.
      bind_result (apply_corpus_usage None sample_reservation d
        (policy_hash (en_sha256 sample_enforcer) (en_policy sample_enforcer)))
        (\<lambda>corpus. Inr \<lparr>ro_usage = usage, ro_corpus_usage = corpus\<rparr>))"
    unfolding sample_apply by blast
  from A [symmetric] obtain usage corpus where "apply_usage None sample_reservation d
      (policy_hash (en_sha256 sample_enforcer) (en_policy sample_enforcer)) = Inr usage"
    "\<lparr>ro_usage = usage, ro_corpus_usage = corpus\<rparr> = sample_outcome"
    by (auto simp: result_simps)
  with d show ?thesis by (metis reservation_outcome.select_convs(1))
qed

text \<open>What an account has seen it keeps.\<close>

lemma apply_usage_knows:
  assumes "apply_usage ex rr d ph = Inr v"
  shows "df_disclosure_id ` set (dr_disclosures d) \<subseteq> df_disclosure_id ` set (us_disclosures v)"
  using assms
proof (rule apply_usage_Inr)
  fix u requested merged
  assume m: "merged = us_disclosures u @ fresh_facts u requested" "us_disclosures v = merged"
    and R: "collect_request (facts_by_id (us_disclosures u)) [] (dr_disclosures d) = Inr requested"
  from requested_ids(2) [OF R] merged_ids [of u requested] m show ?thesis by simp
qed

lemma apply_usage_again:
  assumes "apply_usage (Some u) rr d ph = Inr v"
    and "df_disclosure_id ` set (dr_disclosures d) \<subseteq> df_disclosure_id ` set (us_disclosures u)"
  shows "us_disclosures v = us_disclosures u"
  using assms(1)
proof (rule apply_usage_Inr)
  fix u' requested merged
  assume u': "u' = existing_usage (Some u) rr ph"
    and m: "merged = us_disclosures u' @ fresh_facts u' requested" "us_disclosures v = merged"
    and R: "collect_request (facts_by_id (us_disclosures u')) [] (dr_disclosures d) = Inr requested"
  have "u' = u" by (simp add: u' existing_usage_def)
  moreover have "facts_by_id (us_disclosures u) (df_disclosure_id f) \<noteq> None"
    if "f \<in> set requested" for f
    using that requested_ids(2) [OF R] assms(2) by (auto simp: facts_by_id_None)
  ultimately show ?thesis using m by (simp add: fresh_facts_def)
qed

lemma apply_usage_sent:
  "apply_usage (Some u) rr d ph = Inr v \<Longrightarrow>
    us_root_transmitted_tokens v = us_root_transmitted_tokens u + dr_transmitted_tokens d \<and>
    us_root_transmitted_bytes v = us_root_transmitted_bytes u + dr_transmitted_bytes d"
  by (erule apply_usage_Inr) (simp add: existing_usage_def)

lemma apply_corpus_usage_knows:
  assumes "apply_corpus_usage ex rr d ph = Inr v"
  shows "df_disclosure_id ` set (dr_disclosures d) \<subseteq> set (co_disclosure_ids v)"
  using assms
proof (rule apply_corpus_usage_Inr)
  fix u assume v: "v = (charge_corpus u (dr_disclosures d))\<lparr>co_document_usage := co_document_usage v\<rparr>"
  have "co_disclosure_ids v = co_disclosure_ids (charge_corpus u (dr_disclosures d))"
    by (subst v) simp
  then show ?thesis by (simp add: corp.charge_ids)
qed

lemma apply_corpus_usage_again:
  assumes "apply_corpus_usage (Some u) rr d ph = Inr v"
    and known: "df_disclosure_id ` set (dr_disclosures d) \<subseteq> set (co_disclosure_ids u)"
  shows "co_disclosure_ids v = co_disclosure_ids u \<and> co_unique_tokens v = co_unique_tokens u \<and>
    co_unique_bytes v = co_unique_bytes u"
  using assms(1)
proof (rule apply_corpus_usage_Inr)
  fix u' assume u': "u' = existing_corpus (Some u) rr ph"
    and v: "v = (charge_corpus u' (dr_disclosures d))\<lparr>co_document_usage := co_document_usage v\<rparr>"
  have "u' = u" by (simp add: u' existing_corpus_def)
  with corp.charge_known [OF known] show ?thesis by (subst (1 2 3) v) simp
qed

text \<open>
  Disclosures are charged once. When a reservation is applied to the accounts another one
  with the same facts just produced, nothing unique is charged again, at the root, the corpus
  or the document, while everything transmitted is.
\<close>

theorem repeated_disclosures_are_free:
  assumes first: "apply_reservation en ex co rr counter = Inr out"
    and second: "apply_reservation en' (Some (ro_usage out)) (Some (ro_corpus_usage out)) rr' counter'
      = Inr out'"
    and same: "rr_disclosures rr' = rr_disclosures rr"
  shows "us_disclosures (ro_usage out') = us_disclosures (ro_usage out) \<and>
    co_disclosure_ids (ro_corpus_usage out') = co_disclosure_ids (ro_corpus_usage out) \<and>
    co_unique_tokens (ro_corpus_usage out') = co_unique_tokens (ro_corpus_usage out) \<and>
    co_unique_bytes (ro_corpus_usage out') = co_unique_bytes (ro_corpus_usage out) \<and>
    us_root_transmitted_tokens (ro_usage out') = us_root_transmitted_tokens (ro_usage out) +
      (\<Sum>f\<leftarrow>rr_disclosures rr. df_token_count f) \<and>
    us_root_transmitted_bytes (ro_usage out') = us_root_transmitted_bytes (ro_usage out) +
      (\<Sum>f\<leftarrow>rr_disclosures rr. df_byte_count f)"
proof -
  from first obtain d where d: "rr_disclosures rr = dr_disclosures d"
    "apply_usage ex rr d (policy_hash (en_sha256 en) (en_policy en)) = Inr (ro_usage out)"
    "apply_corpus_usage co rr d (policy_hash (en_sha256 en) (en_policy en)) =
      Inr (ro_corpus_usage out)" by (rule apply_reservation_Inr)
  from second obtain d' where d': "rr_disclosures rr' = dr_disclosures d'"
    "apply_usage (Some (ro_usage out)) rr' d' (policy_hash (en_sha256 en') (en_policy en')) =
      Inr (ro_usage out')"
    "apply_corpus_usage (Some (ro_corpus_usage out)) rr' d'
      (policy_hash (en_sha256 en') (en_policy en')) = Inr (ro_corpus_usage out')"
    "totals_of_facts d'" by (rule apply_reservation_Inr)
  have eq: "dr_disclosures d' = dr_disclosures d" using d(1) d'(1) same by simp
  from apply_usage_again [OF d'(2)] apply_usage_sent [OF d'(2)] apply_usage_knows [OF d(2)]
    apply_corpus_usage_again [OF d'(3)] apply_corpus_usage_knows [OF d(3)] d(1) d'(4) eq
  show ?thesis by (simp add: totals_of_facts_def)
qed

definition sample_repeat :: reservation_outcome where
  "sample_repeat = projr (apply_reservation sample_enforcer (Some (ro_usage sample_outcome))
     (Some (ro_corpus_usage sample_outcome)) sample_reservation (Counter sample_counter))"

lemma sample_apply_again:
  "apply_reservation sample_enforcer (Some (ro_usage sample_outcome))
    (Some (ro_corpus_usage sample_outcome)) sample_reservation (Counter sample_counter) =
   Inr sample_repeat"
proof -
  have "map_sum id (\<lambda>out. us_root_transmitted_tokens (ro_usage out))
      (apply_reservation sample_enforcer (Some (ro_usage sample_outcome))
        (Some (ro_corpus_usage sample_outcome)) sample_reservation (Counter sample_counter)) =
      Inr 26"
    by code_simp
  then show ?thesis unfolding sample_repeat_def
    by (cases "apply_reservation sample_enforcer (Some (ro_usage sample_outcome))
      (Some (ro_corpus_usage sample_outcome)) sample_reservation (Counter sample_counter)") simp_all
qed

theorem repeated_disclosures_are_free_witness:
  "us_disclosures (ro_usage sample_repeat) = us_disclosures (ro_usage sample_outcome) \<and>
   us_root_transmitted_tokens (ro_usage sample_repeat) = 26"
  using repeated_disclosures_are_free [OF sample_apply sample_apply_again]
  by (simp add: sample_reservation_def fact_of_def sample_outcome_def Let_def)

lemma sample_rejected:
  "apply_reservation (sample_enforcer\<lparr>en_clock := ClockRaises\<rparr>) None None sample_reservation (Counter sample_counter) =
    Inl (EgressPolicyViolation ''authorization_clock_invalid'')"
  by code_simp

definition coded :: "egress_error + 'a \<Rightarrow> bool" where
  "coded m \<longleftrightarrow> (case m of Inl e \<Rightarrow> error_code e \<noteq> None | Inr _ \<Rightarrow> True)"

lemma coded_simps [simp]:
  "coded (Inr x)" "coded (reject c)" "coded (Inl (TokenAccountingUnavailable c))"
  "coded (check ok c)"
  by (simp_all add: coded_def require_def)

lemma coded_bind: "coded m \<Longrightarrow> (\<And>x. coded (f x)) \<Longrightarrow> coded (bind_result m f)"
  by (cases m) (simp_all add: coded_def)

lemma coded_Inl: "coded m \<Longrightarrow> m = Inl e \<Longrightarrow> error_code e \<noteq> None"
  by (simp add: coded_def)

lemma coded_count: "coded (count tc text)"
  by (auto simp: count_def split: count_outcome.split)

lemma coded_guards:
  "coded (validate_version_binding r)" "coded (stored_source_manifest en r)"
  "coded (authorization_time en)" "coded (verify_counter counter r)"
  "coded (check_projected_text tc cs payload)"
  by (auto simp: validate_version_binding_def stored_source_manifest_def authorization_time_def
      verify_counter_def check_projected_text_def Let_def
      intro!: coded_bind coded_count split: option.split clock_outcome.split counter_object.split)

lemma coded_derive_excerpts:
  "\<forall>x \<in> set es. ee_quote x \<noteq> [] \<Longrightarrow> coded (derive_excerpts sha tc cap es ds t b)"
proof (induction es arbitrary: ds t b)
  case (Cons e es)
  have step: "coded (let byte_count = length (ee_quote e); fact = fact_of sha e n in
       if n > cap_tokens cap then reject ''excerpt_tokens_exceeded''
       else if byte_count > cap_bytes cap then reject ''excerpt_bytes_exceeded''
       else if \<not> disclosure_fact_valid fact then Inl ContractError
       else derive_excerpts sha tc cap es (ds @ [fact]) (t + n) (b + byte_count))"
    if "count tc (ee_quote e) = Inr n" for n
    using Cons count_positive [OF that]
    by (simp add: Let_def disclosure_fact_valid_def fact_of_def)
  show ?case
  proof (cases "count tc (ee_quote e)")
    case (Inl err)
    with coded_count [of tc "ee_quote e"] show ?thesis by (simp add: coded_def)
  next
    case (Inr n)
    with step [OF Inr] show ?thesis by simp
  qed
qed simp

lemma coded_derive:
  assumes "\<forall>x \<in> set (payload_excerpts (er_payload r)). ee_quote x \<noteq> []"
  shows "coded (derive en r counter)"
  unfolding derive_def Let_def
  by (intro coded_bind coded_guards coded_simps coded_derive_excerpts assms)
    (auto intro!: coded_bind split: option.split prod.split)

text \<open>
  The enforcer fails with a code. On accounts it has written itself, a rejected
  reservation raises a policy violation or a token-accounting failure, each with its public
  code: never the \<open>KeyError\<close> of an account that lists an identifier without a fact, and no
  contract error while the excerpts have the non-empty quotes their contract demands.
\<close>

theorem rejection_has_a_code:
  assumes rejected: "apply_reservation en ex co rr counter = Inl e"
    and ok: "accounts_ok p (ex, co)"
    and quotes: "\<forall>x \<in> set (payload_excerpts (rr_projected_payload rr)). ee_quote x \<noteq> []"
  shows "error_code e \<noteq> None"
proof -
  have derives: "coded (derive en (canonical_request rr) counter)"
    by (rule coded_derive) (use quotes in \<open>simp add: canonical_request_def\<close>)
  have usage: "coded (apply_usage ex rr d ph)" for d ph
  proof (cases "apply_usage ex rr d ph")
    case (Inl err)
    have "is_policy_error err"
      using ok by (intro apply_usage_Inl [OF Inl]) (auto simp: accounts_ok_def)
    with Inl show ?thesis by (auto simp: is_policy_error_def)
  qed simp
  have corpus: "coded (apply_corpus_usage co rr d ph)" for d ph
    using apply_corpus_usage_Inl [of co rr d ph]
    by (cases "apply_corpus_usage co rr d ph") auto
  have "coded (apply_reservation en ex co rr counter)"
    unfolding apply_reservation_def Let_def
    by (intro coded_bind coded_simps derives usage corpus)
  from coded_Inl [OF this rejected] show ?thesis .
qed

theorem rejection_has_a_code_witness:
  "error_code (projl (apply_reservation (sample_enforcer\<lparr>en_clock := ClockRaises\<rparr>) None None
     sample_reservation (Counter sample_counter))) \<noteq> None"
proof -
  have "accounts_ok sample_policy (None, None)" by (simp add: accounts_ok_def)
  from rejection_has_a_code [OF sample_rejected this] sample_rejected show ?thesis
    by (simp add: sample_reservation_def sample_request_def sample_excerpt_def)
qed

end
