(* ===== verification/LedgerStore.thy ===== *)
theory LedgerStore
  imports EnforcerTheorems
begin

text \<open>
  The durable ledger: \<open>egress/ledger.py\<close> and \<open>egress/postgres.py\<close>, over the tables of
  \<open>migrations/001\<close> to \<open>003\<close>. A table is a map from its primary key (the reservation and
  attempt tables keep insertion order as lists). A transaction runs its statements on the
  database it started from and commits or vanishes; what the connection does to it, including
  the drop at commit that leaves the caller not knowing which, is its \<open>fault\<close>. The row locks
  serialize the transactions of one corpus, so a run of the ledger is a sequence of them.
  Fresh UUIDs are arguments.
\<close>

section \<open>Contracts\<close>

datatype ledger_error =
    LedgerUnavailable
  | LedgerIntegrityError
  | ReservationAmbiguous
  | RunSealed
  | PolicyRebindConflict
  | PolicyRebindAmbiguous
  | SuccessorValueError
  | EnforcerError egress_error

datatype reservation_state = Reserved | Sending | Succeeded | FailedKnown

datatype attempt_outcome = AttemptSucceeded | AttemptFailedKnown

record request_size =
  rs_request_tokens :: nat
  rs_request_bytes :: nat

record reservation =
  rv_reservation_id :: string
  rv_idempotency_key :: string
  rv_evaluation_root_id :: string
  rv_run_id :: string
  rv_policy_hash :: string
  rv_corpus_manifest_id :: string
  rv_route :: provider_route_binding
  rv_state :: reservation_state
  rv_usage :: usage_snapshot
  rv_corpus_usage :: corpus_usage
  rv_replayed :: bool

record policy_rebind_result =
  pr_corpus_manifest_id :: string
  pr_predecessor_ledger_id :: string
  pr_successor_ledger_id :: string
  pr_old_policy_hash :: string
  pr_new_policy_hash :: string
  pr_inherited_unique_excerpts :: nat
  pr_inherited_unique_tokens :: nat
  pr_inherited_unique_bytes :: nat
  pr_rebound :: bool

definition successor_corpus_usage :: "corpus_usage \<Rightarrow> string \<Rightarrow> ledger_error + corpus_usage" where
  "successor_corpus_usage existing new_policy_hash =
     (if co_policy_hash existing = new_policy_hash then Inl SuccessorValueError
      else Inr (existing\<lparr>co_policy_hash := new_policy_hash\<rparr>))"

section \<open>Tables\<close>

text \<open>
  \<open>ce_corpus_usage\<close> is \<^const>\<open>None\<close> when the JSON in the row does not validate;
  \<open>root_usage\<close> keeps the JSON \<open>null\<close> of a fresh root apart from JSON that does not validate.
\<close>

record corpus_epoch =
  ce_corpus_manifest_id :: string
  ce_policy_hash :: string
  ce_corpus_usage :: "corpus_usage option"
  ce_unique_excerpts :: nat
  ce_unique_tokens :: nat
  ce_unique_bytes :: nat
  ce_predecessor_ledger_id :: "string option"

datatype root_usage = NullUsage | InvalidUsage | StoredUsage usage_snapshot

record evaluation_root =
  rt_policy_hash :: string
  rt_task_level :: task_level
  rt_corpus_manifest_id :: string
  rt_corpus_ledger_id :: string
  rt_usage_snapshot :: root_usage

record reservation_row =
  rw_reservation_id :: string
  rw_idempotency_key :: string
  rw_evaluation_root_id :: string
  rw_run_id :: string
  rw_policy_hash :: string
  rw_corpus_manifest_id :: string
  rw_corpus_ledger_id :: string
  rw_stage :: egress_stage
  rw_route :: provider_route_binding
  rw_model_id :: string
  rw_state :: reservation_state

record attempt =
  at_attempt_id :: string
  at_reservation_id :: string
  at_route :: provider_route_binding
  at_outcome :: attempt_outcome
  at_request_size :: request_size
  at_duration_ms :: nat
  at_public_error_code :: "string option"

record ledger_db =
  db_policies :: "string \<rightharpoonup> string"
  db_heads :: "string \<rightharpoonup> string option"
  db_epochs :: "string \<rightharpoonup> corpus_epoch"
  db_roots :: "string \<rightharpoonup> evaluation_root"
  db_reservations :: "reservation_row list"
  db_reservation_disclosures :: "string \<times> string \<rightharpoonup> nat \<times> nat"
  db_route_disclosures :: "string \<times> string \<times> string \<times> string \<rightharpoonup> unit"
  db_attempts :: "attempt list"
  db_seals :: "string \<times> string \<rightharpoonup> string"

definition empty_ledger :: ledger_db where
  "empty_ledger = \<lparr>db_policies = Map.empty, db_heads = Map.empty, db_epochs = Map.empty,
     db_roots = Map.empty, db_reservations = [], db_reservation_disclosures = Map.empty,
     db_route_disclosures = Map.empty, db_attempts = [], db_seals = Map.empty\<rparr>"

text \<open>\<open>INSERT ... ON CONFLICT DO NOTHING\<close>, and an \<open>INSERT\<close> that a used key makes fail.\<close>

definition insert_absent :: "'k \<Rightarrow> 'v \<Rightarrow> ('k \<rightharpoonup> 'v) \<Rightarrow> 'k \<rightharpoonup> 'v" where
  "insert_absent k v m = (case m k of None \<Rightarrow> m(k \<mapsto> v) | Some _ \<Rightarrow> m)"

definition insert_unique :: "'k \<Rightarrow> 'v \<Rightarrow> ('k \<rightharpoonup> 'v) \<Rightarrow> ledger_error + ('k \<rightharpoonup> 'v)" where
  "insert_unique k v m =
     (case m k of None \<Rightarrow> Inr (m(k \<mapsto> v)) | Some _ \<Rightarrow> Inl LedgerUnavailable)"

section \<open>Connections and transactions\<close>

text \<open>
  \<open>StatementFails\<close> is a \<open>psycopg.Error\<close> that is not an \<open>OperationalError\<close>; \<open>StatementDrops\<close>
  is a connection lost before the commit, \<open>CommitDrops c\<close> one lost during it, the server
  having committed iff \<open>c\<close>.
\<close>

datatype fault = NoFault | ConnectFails | StatementFails | StatementDrops | CommitDrops bool

definition transact ::
  "fault \<Rightarrow> ledger_error \<Rightarrow> (ledger_db \<Rightarrow> ledger_error + 'a \<times> ledger_db) \<Rightarrow> ledger_db \<Rightarrow>
   (ledger_error + 'a) \<times> ledger_db" where
  "transact fault lost body db =
     (case fault of
        ConnectFails \<Rightarrow> (Inl LedgerUnavailable, db)
      | StatementFails \<Rightarrow> (Inl LedgerUnavailable, db)
      | StatementDrops \<Rightarrow> (Inl lost, db)
      | NoFault \<Rightarrow> (case body db of Inl e \<Rightarrow> (Inl e, db) | Inr (x, db') \<Rightarrow> (Inr x, db'))
      | CommitDrops committed \<Rightarrow>
          (case body db of
             Inl e \<Rightarrow> (Inl e, db)
           | Inr (x, db') \<Rightarrow> (Inl lost, if committed then db' else db)))"

section \<open>Reserving\<close>

definition record_policy :: "egress_policy \<Rightarrow> string \<Rightarrow> ledger_db \<Rightarrow> ledger_db" where
  "record_policy policy phash db =
     db\<lparr>db_policies := insert_absent phash (ep_schema_version policy) (db_policies db)\<rparr>"

definition require_unsealed :: "reservation_request \<Rightarrow> ledger_db \<Rightarrow> ledger_error + unit" where
  "require_unsealed rr db =
     (case db_seals db (rr_evaluation_root_id rr, rr_run_id rr) of
        None \<Rightarrow> Inr () | Some _ \<Rightarrow> Inl RunSealed)"

definition reconciled_corpus_usage :: "string \<Rightarrow> corpus_epoch \<Rightarrow> ledger_error + corpus_usage" where
  "reconciled_corpus_usage corpus row =
     (case ce_corpus_usage row of
        None \<Rightarrow> Inl LedgerIntegrityError
      | Some usage \<Rightarrow>
          if ce_corpus_manifest_id row \<noteq> corpus \<or> co_corpus_manifest_id usage \<noteq> corpus \<or>
            ce_policy_hash row \<noteq> co_policy_hash usage \<or>
            ce_unique_excerpts row \<noteq> length (co_disclosure_ids usage) \<or>
            ce_unique_tokens row \<noteq> co_unique_tokens usage \<or>
            ce_unique_bytes row \<noteq> co_unique_bytes usage
          then Inl LedgerIntegrityError else Inr usage)"

definition first_epoch :: "string \<Rightarrow> string \<Rightarrow> corpus_epoch" where
  "first_epoch corpus phash = \<lparr>ce_corpus_manifest_id = corpus, ce_policy_hash = phash,
     ce_corpus_usage = Some (empty_corpus_usage corpus phash), ce_unique_excerpts = 0,
     ce_unique_tokens = 0, ce_unique_bytes = 0, ce_predecessor_ledger_id = None\<rparr>"

definition lock_corpus ::
  "string \<Rightarrow> string \<Rightarrow> string \<Rightarrow> ledger_db \<Rightarrow>
   ledger_error + (string \<times> corpus_usage) \<times> ledger_db" where
  "lock_corpus fresh_ledger_id corpus phash db =
     (let db1 = db\<lparr>db_heads := insert_absent corpus None (db_heads db)\<rparr> in
      case db_heads db1 corpus of
        None \<Rightarrow> Inl LedgerUnavailable
      | Some head \<Rightarrow>
          let ledger_id = (case head of None \<Rightarrow> fresh_ledger_id | Some i \<Rightarrow> i) in
          bind_result
            (case head of
               Some _ \<Rightarrow> Inr db1
             | None \<Rightarrow>
                 bind_result (insert_unique ledger_id (first_epoch corpus phash) (db_epochs db1))
                   (\<lambda>epochs. Inr (db1\<lparr>db_epochs := epochs,
                      db_heads := (db_heads db1)(corpus \<mapsto> Some ledger_id)\<rparr>))) (\<lambda>db2.
          case db_epochs db2 ledger_id of
            None \<Rightarrow> Inl LedgerUnavailable
          | Some epoch \<Rightarrow>
              bind_result (reconciled_corpus_usage corpus epoch) (\<lambda>usage.
                Inr ((ledger_id, usage), db2))))"

definition lock_root ::
  "reservation_request \<Rightarrow> string \<Rightarrow> string \<Rightarrow> string \<Rightarrow> ledger_db \<Rightarrow>
   ledger_error + usage_snapshot option \<times> ledger_db" where
  "lock_root rr phash corpus ledger_id db =
     (let root = rr_evaluation_root_id rr;
          db1 = db\<lparr>db_roots := insert_absent root \<lparr>rt_policy_hash = phash,
            rt_task_level = rr_task_level rr, rt_corpus_manifest_id = corpus,
            rt_corpus_ledger_id = ledger_id, rt_usage_snapshot = NullUsage\<rparr> (db_roots db)\<rparr> in
      case db_roots db1 root of
        None \<Rightarrow> Inr (None, db1)
      | Some row \<Rightarrow>
          if rt_corpus_ledger_id row \<noteq> ledger_id
          then Inl (EnforcerError (EgressPolicyViolation ''policy_snapshot_mismatch''))
          else case rt_usage_snapshot row of
            NullUsage \<Rightarrow> Inr (None, db1)
          | InvalidUsage \<Rightarrow> Inl (EnforcerError ContractError)
          | StoredUsage u \<Rightarrow> Inr (Some u, db1))"

definition find_replay ::
  "reservation_request \<Rightarrow> string \<Rightarrow> string \<Rightarrow> string \<Rightarrow> usage_snapshot option \<Rightarrow> corpus_usage \<Rightarrow>
   ledger_db \<Rightarrow> ledger_error + reservation option" where
  "find_replay rr phash key ledger_id usage corpus_usage db =
     (case find (\<lambda>r. rw_evaluation_root_id r = rr_evaluation_root_id rr \<and>
          rw_run_id r = rr_run_id rr \<and> rw_policy_hash r = phash \<and> rw_idempotency_key r = key)
          (db_reservations db) of
        None \<Rightarrow> Inr None
      | Some row \<Rightarrow>
          if rw_corpus_manifest_id row \<noteq> vm_corpus_manifest_id (rr_version rr) \<or>
            rw_corpus_ledger_id row \<noteq> ledger_id \<or> usage = None
          then Inl LedgerIntegrityError
          else Inr (Some \<lparr>rv_reservation_id = rw_reservation_id row, rv_idempotency_key = key,
            rv_evaluation_root_id = rr_evaluation_root_id rr, rv_run_id = rr_run_id rr,
            rv_policy_hash = phash,
            rv_corpus_manifest_id = vm_corpus_manifest_id (rr_version rr),
            rv_route = rr_route rr, rv_state = rw_state row, rv_usage = the usage,
            rv_corpus_usage = corpus_usage, rv_replayed = True\<rparr>))"

definition update_epoch :: "string \<Rightarrow> corpus_usage \<Rightarrow> ledger_db \<Rightarrow> ledger_db" where
  "update_epoch ledger_id usage db =
     db\<lparr>db_epochs := (case db_epochs db ledger_id of
        None \<Rightarrow> db_epochs db
      | Some e \<Rightarrow> (db_epochs db)(ledger_id \<mapsto> e\<lparr>ce_corpus_usage := Some usage,
          ce_unique_excerpts := length (co_disclosure_ids usage),
          ce_unique_tokens := co_unique_tokens usage, ce_unique_bytes := co_unique_bytes usage\<rparr>))\<rparr>"

definition update_root :: "string \<Rightarrow> usage_snapshot \<Rightarrow> ledger_db \<Rightarrow> ledger_db" where
  "update_root root usage db =
     db\<lparr>db_roots := (case db_roots db root of
        None \<Rightarrow> db_roots db
      | Some r \<Rightarrow> (db_roots db)(root \<mapsto> r\<lparr>rt_usage_snapshot := StoredUsage usage\<rparr>))\<rparr>"

definition write_scopes ::
  "reservation_request \<Rightarrow> reservation_outcome \<Rightarrow> string \<Rightarrow> string \<Rightarrow> ledger_db \<Rightarrow> ledger_db" where
  "write_scopes rr outcome corpus ledger_id db =
     (let db1 = update_epoch ledger_id (ro_corpus_usage outcome) db;
          db2 = update_root (rr_evaluation_root_id rr) (ro_usage outcome) db1 in
      db2\<lparr>db_route_disclosures := fold (\<lambda>f. insert_absent
          (corpus, rb_provider_id (rr_route rr), rb_endpoint_purpose (rr_route rr),
           df_disclosure_id f) ()) (rr_disclosures rr) (db_route_disclosures db2)\<rparr>)"

definition write_reservation ::
  "string \<Rightarrow> reservation_request \<Rightarrow> string \<Rightarrow> string \<Rightarrow> string \<Rightarrow> string \<Rightarrow> ledger_db \<Rightarrow>
   ledger_error + ledger_db" where
  "write_reservation reservation_id rr phash corpus ledger_id key db =
     (let row = \<lparr>rw_reservation_id = reservation_id, rw_idempotency_key = key,
        rw_evaluation_root_id = rr_evaluation_root_id rr, rw_run_id = rr_run_id rr,
        rw_policy_hash = phash, rw_corpus_manifest_id = corpus, rw_corpus_ledger_id = ledger_id,
        rw_stage = rr_stage rr, rw_route = rr_route rr, rw_model_id = rr_model_id rr,
        rw_state = Reserved\<rparr> in
      if reservation_id \<in> rw_reservation_id ` set (db_reservations db) then Inl LedgerUnavailable
      else Inr (db\<lparr>db_reservations := db_reservations db @ [row],
        db_reservation_disclosures := fold (\<lambda>f. insert_absent
          (reservation_id, df_disclosure_id f) (df_token_count f, df_byte_count f))
          (rr_disclosures rr) (db_reservation_disclosures db)\<rparr>))"

text \<open>The fresh identifiers of one call.\<close>

record fresh_ids =
  fresh_ledger_id :: string
  fresh_reservation_id :: string

definition reserve_body ::
  "enforcer \<Rightarrow> fresh_ids \<Rightarrow> reservation_request \<Rightarrow> counter_object \<Rightarrow> string \<Rightarrow> ledger_db \<Rightarrow>
   ledger_error + reservation \<times> ledger_db" where
  "reserve_body en ids rr counter key db =
     (let corpus = vm_corpus_manifest_id (rr_version rr);
          phash = policy_hash (en_sha256 en) (en_policy en);
          db1 = record_policy (en_policy en) phash db in
      bind_result (lock_corpus (fresh_ledger_id ids) corpus phash db1) (\<lambda>((ledger_id, corpus_usage), db2).
      bind_result (lock_root rr phash corpus ledger_id db2) (\<lambda>(usage, db3).
      bind_result (require_unsealed rr db3) (\<lambda>_.
      bind_result (find_replay rr phash key ledger_id usage corpus_usage db3) (\<lambda>replay.
      case replay of
        Some stored \<Rightarrow> Inr (stored, db3)
      | None \<Rightarrow>
          (case apply_reservation en usage (Some corpus_usage) rr counter of
             Inl e \<Rightarrow> Inl (EnforcerError e)
           | Inr outcome \<Rightarrow>
               bind_result (write_reservation (fresh_reservation_id ids) rr phash corpus ledger_id key
                 (write_scopes rr outcome corpus ledger_id db3)) (\<lambda>db4.
               Inr (\<lparr>rv_reservation_id = fresh_reservation_id ids, rv_idempotency_key = key,
                 rv_evaluation_root_id = rr_evaluation_root_id rr, rv_run_id = rr_run_id rr,
                 rv_policy_hash = phash, rv_corpus_manifest_id = corpus, rv_route = rr_route rr,
                 rv_state = Reserved, rv_usage = ro_usage outcome,
                 rv_corpus_usage = ro_corpus_usage outcome, rv_replayed = False\<rparr>, db4))))))))"

definition check_and_reserve ::
  "fault \<Rightarrow> enforcer \<Rightarrow> fresh_ids \<Rightarrow> reservation_request \<Rightarrow> counter_object \<Rightarrow> string \<Rightarrow> ledger_db \<Rightarrow>
   (ledger_error + reservation) \<times> ledger_db" where
  "check_and_reserve fault en ids rr counter key =
     transact fault ReservationAmbiguous (reserve_body en ids rr counter key)"

section \<open>Attempts and seals\<close>

definition attempt_state :: "attempt_outcome \<Rightarrow> reservation_state" where
  "attempt_state out = (case out of AttemptSucceeded \<Rightarrow> Succeeded | AttemptFailedKnown \<Rightarrow> FailedKnown)"

definition record_attempt_body :: "attempt \<Rightarrow> ledger_db \<Rightarrow> ledger_error + attempt \<times> ledger_db" where
  "record_attempt_body a db =
     (if at_attempt_id a \<in> at_attempt_id ` set (db_attempts db) \<or>
        at_reservation_id a \<notin> rw_reservation_id ` set (db_reservations db)
      then Inl LedgerUnavailable
      else Inr (a, db\<lparr>db_attempts := db_attempts db @ [a],
        db_reservations := map (\<lambda>r. if rw_reservation_id r = at_reservation_id a
          then r\<lparr>rw_state := attempt_state (at_outcome a)\<rparr> else r) (db_reservations db)\<rparr>))"

definition record_attempt ::
  "fault \<Rightarrow> attempt \<Rightarrow> ledger_db \<Rightarrow> (ledger_error + attempt) \<times> ledger_db" where
  "record_attempt fault a = transact fault ReservationAmbiguous (record_attempt_body a)"

definition seal_run ::
  "fault \<Rightarrow> string \<Rightarrow> string \<Rightarrow> string \<Rightarrow> ledger_db \<Rightarrow> (ledger_error + unit) \<times> ledger_db" where
  "seal_run fault root run reason =
     transact fault LedgerUnavailable (\<lambda>db.
       Inr ((), db\<lparr>db_seals := insert_absent (root, run) reason (db_seals db)\<rparr>))"

section \<open>Rebinding a corpus to another policy\<close>

definition rebind_result ::
  "string \<Rightarrow> string \<Rightarrow> string \<Rightarrow> string \<Rightarrow> string \<Rightarrow> corpus_usage \<Rightarrow> bool \<Rightarrow> policy_rebind_result" where
  "rebind_result corpus pred succ old new usage rebound = \<lparr>pr_corpus_manifest_id = corpus,
     pr_predecessor_ledger_id = pred, pr_successor_ledger_id = succ, pr_old_policy_hash = old,
     pr_new_policy_hash = new, pr_inherited_unique_excerpts = length (co_disclosure_ids usage),
     pr_inherited_unique_tokens = co_unique_tokens usage,
     pr_inherited_unique_bytes = co_unique_bytes usage, pr_rebound = rebound\<rparr>"

text \<open>The retry branch: the head has moved to the successor an earlier call created.\<close>

definition rebind_retry ::
  "string \<Rightarrow> string \<Rightarrow> string \<Rightarrow> string \<Rightarrow> string \<Rightarrow> corpus_epoch \<Rightarrow> ledger_db \<Rightarrow>
   ledger_error + policy_rebind_result" where
  "rebind_retry corpus expected_ledger_id expected_policy_hash new_policy_hash active_ledger_id
     active db =
     (if ce_policy_hash active \<noteq> new_policy_hash \<or>
        ce_predecessor_ledger_id active \<noteq> Some expected_ledger_id
      then Inl PolicyRebindConflict
      else case db_epochs db expected_ledger_id of
        None \<Rightarrow> Inl PolicyRebindConflict
      | Some predecessor \<Rightarrow>
          if ce_corpus_manifest_id predecessor \<noteq> corpus then Inl PolicyRebindConflict
          else bind_result (reconciled_corpus_usage corpus predecessor) (\<lambda>usage.
            if co_policy_hash usage \<noteq> expected_policy_hash then Inl PolicyRebindConflict
            else Inr (rebind_result corpus expected_ledger_id active_ledger_id
              expected_policy_hash (ce_policy_hash active) usage False)))"

definition rebind_body ::
  "string \<Rightarrow> string \<Rightarrow> string \<Rightarrow> string \<Rightarrow> string \<Rightarrow> ledger_db \<Rightarrow>
   ledger_error + policy_rebind_result \<times> ledger_db" where
  "rebind_body successor_ledger_id corpus expected_ledger_id expected_policy_hash new_policy_hash db =
     (case db_heads db corpus of
        None \<Rightarrow> Inl PolicyRebindConflict
      | Some None \<Rightarrow> Inl PolicyRebindConflict
      | Some (Some active_ledger_id) \<Rightarrow>
          (case db_epochs db active_ledger_id of
             None \<Rightarrow> Inl PolicyRebindConflict
           | Some active \<Rightarrow>
               bind_result (reconciled_corpus_usage corpus active) (\<lambda>active_usage.
               if active_ledger_id = expected_ledger_id \<and>
                 ce_policy_hash active = expected_policy_hash \<and>
                 expected_policy_hash = new_policy_hash
               then Inr (rebind_result corpus active_ledger_id active_ledger_id
                 (ce_policy_hash active) (ce_policy_hash active) active_usage False, db)
               else if active_ledger_id \<noteq> expected_ledger_id
               then bind_result (rebind_retry corpus expected_ledger_id expected_policy_hash
                 new_policy_hash active_ledger_id active db) (\<lambda>result. Inr (result, db))
               else if ce_policy_hash active \<noteq> expected_policy_hash then Inl PolicyRebindConflict
               else
                 bind_result (successor_corpus_usage active_usage new_policy_hash) (\<lambda>successor.
                 bind_result (insert_unique successor_ledger_id
                   \<lparr>ce_corpus_manifest_id = corpus, ce_policy_hash = new_policy_hash,
                    ce_corpus_usage = Some successor,
                    ce_unique_excerpts = length (co_disclosure_ids successor),
                    ce_unique_tokens = co_unique_tokens successor,
                    ce_unique_bytes = co_unique_bytes successor,
                    ce_predecessor_ledger_id = Some active_ledger_id\<rparr> (db_epochs db)) (\<lambda>epochs.
                 Inr (rebind_result corpus active_ledger_id successor_ledger_id
                   (ce_policy_hash active) new_policy_hash successor True,
                   db\<lparr>db_epochs := epochs,
                     db_heads := (db_heads db)(corpus \<mapsto> Some successor_ledger_id)\<rparr>))))))"

definition rebind_policy ::
  "fault \<Rightarrow> enforcer \<Rightarrow> string \<Rightarrow> string \<Rightarrow> string \<Rightarrow> string \<Rightarrow> ledger_db \<Rightarrow>
   (ledger_error + policy_rebind_result) \<times> ledger_db" where
  "rebind_policy fault en successor_ledger_id corpus expected_ledger_id expected_policy_hash =
     transact fault PolicyRebindAmbiguous (\<lambda>db.
       let phash = policy_hash (en_sha256 en) (en_policy en) in
       rebind_body successor_ledger_id corpus expected_ledger_id expected_policy_hash phash
         (record_policy (en_policy en) phash db))"

end
