(* ===== verification/LedgerInvariants.thy ===== *)
theory LedgerInvariants
  imports LedgerStore
begin

text \<open>
  What every reachable ledger satisfies, whatever connections did: rows that name each other
  exist, the JSON of every epoch agrees with its columns, every root's usage is exact and
  within the caps of the policy its epoch is bound to, and where an epoch is beyond its own
  policy's caps it is so only by what it inherited from the epoch before.
\<close>

section \<open>Transactions\<close>

lemma transact_cases:
  assumes "transact fault lost body db = (res, db')"
  obtains (rolled_back) e where "res = Inl e" "db' = db"
  | (committed) x where "body db = Inr (x, db')" "res = Inr x \<or> res = Inl lost"
  using assms
  by (cases fault) (auto simp: transact_def split: sum.splits prod.splits if_splits)

lemma transact_Inr:
  "transact fault lost body db = (Inr x, db') \<longleftrightarrow> fault = NoFault \<and> body db = Inr (x, db')"
  by (cases fault) (auto simp: transact_def split: sum.splits prod.splits)

lemma transact_db:
  "snd (transact fault lost body db) = db \<or> (\<exists>x. body db = Inr (x, snd (transact fault lost body db)))"
  by (cases fault) (auto simp: transact_def split: sum.split prod.split)

section \<open>Table operations\<close>

lemma insert_absent_hit: "m k = Some v' \<Longrightarrow> insert_absent k v m = m"
  by (simp add: insert_absent_def)

lemma insert_absent_miss: "m k = None \<Longrightarrow> insert_absent k v m = m(k \<mapsto> v)"
  by (simp add: insert_absent_def)

lemma insert_absent_apply:
  "insert_absent k v m j = (if j = k \<and> m k = None then Some v else m j)"
  by (simp add: insert_absent_def split: option.split)

lemma insert_unique_Inr: "insert_unique k v m = Inr m' \<longleftrightarrow> m k = None \<and> m' = m(k \<mapsto> v)"
  by (auto simp: insert_unique_def split: option.split)

lemma insert_unique_Inl: "insert_unique k v m = Inl e \<longleftrightarrow> m k \<noteq> None \<and> e = LedgerUnavailable"
  by (auto simp: insert_unique_def split: option.split)

lemma fold_insert_absent_apply:
  "fold (\<lambda>f. insert_absent (key f) (val f)) fs m j =
    (case m j of Some v \<Rightarrow> Some v | None \<Rightarrow> map_option val (find (\<lambda>f. key f = j) fs))"
proof (induction fs arbitrary: m)
  case (Cons f fs)
  show ?case unfolding fold_Cons comp_def Cons.IH
    by (simp add: insert_absent_apply split: option.split)
qed (simp split: option.split)

lemma reconciled_Inr:
  "reconciled_corpus_usage corpus row = Inr u \<longleftrightarrow>
    ce_corpus_usage row = Some u \<and> ce_corpus_manifest_id row = corpus \<and>
    co_corpus_manifest_id u = corpus \<and> ce_policy_hash row = co_policy_hash u \<and>
    ce_unique_excerpts row = length (co_disclosure_ids u) \<and>
    ce_unique_tokens row = co_unique_tokens u \<and> ce_unique_bytes row = co_unique_bytes u"
  by (auto simp: reconciled_corpus_usage_def split: option.split)

lemma reconciled_first: "reconciled_corpus_usage corpus (first_epoch corpus ph) =
    Inr (empty_corpus_usage corpus ph)"
  by (simp add: reconciled_Inr first_epoch_def empty_corpus_usage_def)

section \<open>The invariant\<close>

definition epoch_ok :: "corpus_epoch \<Rightarrow> bool" where
  "epoch_ok e \<longleftrightarrow>
     (\<exists>u. reconciled_corpus_usage (ce_corpus_manifest_id e) e = Inr u \<and> corpus_wf u)"

definition heads_ok :: "ledger_db \<Rightarrow> bool" where
  "heads_ok db \<longleftrightarrow> (\<forall>c i. db_heads db c = Some (Some i) \<longrightarrow>
     (\<exists>e. db_epochs db i = Some e \<and> ce_corpus_manifest_id e = c))"

definition epochs_ok :: "ledger_db \<Rightarrow> bool" where
  "epochs_ok db \<longleftrightarrow> (\<forall>i e. db_epochs db i = Some e \<longrightarrow> epoch_ok e)"

text \<open>An epoch with a successor is frozen: it is no corpus's head any more.\<close>

definition predecessors_ok :: "ledger_db \<Rightarrow> bool" where
  "predecessors_ok db \<longleftrightarrow> (\<forall>i e p. db_epochs db i = Some e \<longrightarrow>
     ce_predecessor_ledger_id e = Some p \<longrightarrow>
     (\<exists>pe. db_epochs db p = Some pe \<and> ce_corpus_manifest_id pe = ce_corpus_manifest_id e) \<and>
     (\<forall>c. db_heads db c \<noteq> Some (Some p)))"

definition pred_usage :: "ledger_db \<Rightarrow> corpus_epoch \<Rightarrow> corpus_usage option" where
  "pred_usage db e = (case ce_predecessor_ledger_id e of
     None \<Rightarrow> None
   | Some p \<Rightarrow> (case db_epochs db p of None \<Rightarrow> None | Some pe \<Rightarrow> ce_corpus_usage pe))"

text \<open>
  What an epoch has spent is within its policy's caps, or is what it inherited: the totals and
  each document's account may also be the predecessor's own.
\<close>

definition corpus_bounded :: "egress_policy \<Rightarrow> corpus_usage option \<Rightarrow> corpus_usage \<Rightarrow> bool" where
  "corpus_bounded p pred u \<longleftrightarrow>
     (within (ep_corpus_unique p) (length (co_disclosure_ids u)) (co_unique_tokens u)
        (co_unique_bytes u) \<or>
      (\<exists>pu. pred = Some pu \<and> co_disclosure_ids u = co_disclosure_ids pu \<and>
        co_unique_tokens u = co_unique_tokens pu \<and> co_unique_bytes u = co_unique_bytes pu)) \<and>
     (\<forall>a \<in> set (co_document_usage u). document_within p a \<or>
        (\<exists>pu. pred = Some pu \<and> a \<in> set (co_document_usage pu)))"

definition corpus_caps_ok :: "(string \<Rightarrow> egress_policy) \<Rightarrow> ledger_db \<Rightarrow> bool" where
  "corpus_caps_ok pol db \<longleftrightarrow> (\<forall>i e u. db_epochs db i = Some e \<longrightarrow> ce_corpus_usage e = Some u \<longrightarrow>
     corpus_bounded (pol (ce_policy_hash e)) (pred_usage db e) u)"

definition root_ok :: "(string \<Rightarrow> egress_policy) \<Rightarrow> ledger_db \<Rightarrow> string \<Rightarrow> evaluation_root \<Rightarrow> bool" where
  "root_ok pol db k r \<longleftrightarrow> (\<exists>e u. db_epochs db (rt_corpus_ledger_id r) = Some e \<and>
     rt_usage_snapshot r = StoredUsage u \<and> us_evaluation_root_id u = k \<and>
     us_task_level u = rt_task_level r \<and> us_policy_hash u = ce_policy_hash e \<and>
     rt_policy_hash r = ce_policy_hash e \<and> rt_corpus_manifest_id r = ce_corpus_manifest_id e \<and>
     usage_wf u \<and> usage_within (pol (ce_policy_hash e)) u)"

definition roots_ok :: "(string \<Rightarrow> egress_policy) \<Rightarrow> ledger_db \<Rightarrow> bool" where
  "roots_ok pol db \<longleftrightarrow> (\<forall>k r. db_roots db k = Some r \<longrightarrow> root_ok pol db k r)"

definition row_key :: "reservation_row \<Rightarrow> string \<times> string \<times> string \<times> string" where
  "row_key r = (rw_evaluation_root_id r, rw_run_id r, rw_policy_hash r, rw_idempotency_key r)"

definition row_ok :: "ledger_db \<Rightarrow> reservation_row \<Rightarrow> bool" where
  "row_ok db r \<longleftrightarrow> (\<exists>root. db_roots db (rw_evaluation_root_id r) = Some root \<and>
     rw_corpus_ledger_id r = rt_corpus_ledger_id root \<and>
     rw_corpus_manifest_id r = rt_corpus_manifest_id root \<and>
     rw_policy_hash r = rt_policy_hash root)"

definition reservations_ok :: "ledger_db \<Rightarrow> bool" where
  "reservations_ok db \<longleftrightarrow> distinct (map rw_reservation_id (db_reservations db)) \<and>
     distinct (map row_key (db_reservations db)) \<and>
     (\<forall>r \<in> set (db_reservations db). row_ok db r)"

definition ledger_inv :: "(string \<Rightarrow> egress_policy) \<Rightarrow> ledger_db \<Rightarrow> bool" where
  "ledger_inv pol db \<longleftrightarrow> heads_ok db \<and> epochs_ok db \<and> predecessors_ok db \<and>
     corpus_caps_ok pol db \<and> roots_ok pol db \<and> reservations_ok db"

lemmas ledger_inv_parts = heads_ok_def epochs_ok_def predecessors_ok_def corpus_caps_ok_def
  pred_usage_def roots_ok_def root_ok_def reservations_ok_def row_ok_def

lemma ledger_inv_empty: "ledger_inv pol empty_ledger"
  by (simp add: ledger_inv_def ledger_inv_parts empty_ledger_def)

text \<open>The invariant reads heads, epochs, roots and reservations only.\<close>

lemma ledger_inv_cong:
  assumes "db_heads db' = db_heads db" "db_epochs db' = db_epochs db" "db_roots db' = db_roots db"
    "db_reservations db' = db_reservations db"
  shows "ledger_inv pol db' \<longleftrightarrow> ledger_inv pol db"
  unfolding ledger_inv_def ledger_inv_parts assms ..

section \<open>Locking\<close>

lemma lock_corpus_Inr:
  assumes "lock_corpus fresh corpus ph db = Inr ((i, u), db2)"
  obtains (found) e where "db_heads db corpus = Some (Some i)" "db2 = db"
      "db_epochs db i = Some e" "reconciled_corpus_usage corpus e = Inr u"
  | (opened) "db_heads db corpus \<in> {None, Some None}" "i = fresh" "db_epochs db i = None"
      "u = empty_corpus_usage corpus ph"
      "db2 = db\<lparr>db_epochs := (db_epochs db)(i \<mapsto> first_epoch corpus ph),
        db_heads := (db_heads db)(corpus \<mapsto> Some i)\<rparr>"
proof (cases "db_heads db corpus")
  case None
  have "insert_absent corpus None (db_heads db) = (db_heads db)(corpus \<mapsto> None)"
    using None by (rule insert_absent_miss)
  with None assms show ?thesis
    by (intro opened) (auto simp: lock_corpus_def Let_def result_simps insert_unique_Inr
        reconciled_first)
next
  case (Some head)
  have same: "db\<lparr>db_heads := insert_absent corpus None (db_heads db)\<rparr> = db"
    using insert_absent_hit [of "db_heads db" corpus, OF Some] by simp
  show ?thesis
  proof (cases head)
    case None
    with Some assms show ?thesis
      by (intro opened) (auto simp: lock_corpus_def Let_def same result_simps insert_unique_Inr
          reconciled_first)
  next
    case (Some j)
    with \<open>db_heads db corpus = Some head\<close> assms show ?thesis
      by (auto simp: lock_corpus_def Let_def same result_simps split: option.splits intro!: found)
  qed
qed

text \<open>Adding an epoch keeps what names the older ones.\<close>

lemma map_leD: "m \<subseteq>\<^sub>m m' \<Longrightarrow> m k = Some v \<Longrightarrow> m' k = Some v"
  by (auto simp: map_le_def dom_def)

lemma pred_usage_mono:
  "db_epochs db \<subseteq>\<^sub>m db_epochs db' \<Longrightarrow> pred_usage db e = Some pu \<Longrightarrow> pred_usage db' e = Some pu"
  by (auto simp: pred_usage_def split: option.splits dest: map_leD)

lemma corpus_bounded_mono:
  "db_epochs db \<subseteq>\<^sub>m db_epochs db' \<Longrightarrow> corpus_bounded p (pred_usage db e) u \<Longrightarrow>
    corpus_bounded p (pred_usage db' e) u"
  unfolding corpus_bounded_def by (meson pred_usage_mono)

lemma root_ok_mono:
  "db_epochs db \<subseteq>\<^sub>m db_epochs db' \<Longrightarrow> root_ok pol db k r \<Longrightarrow> root_ok pol db' k r"
  unfolding root_ok_def using map_leD [of "db_epochs db" "db_epochs db'"] by fastforce

lemma map_le_new: "m k = None \<Longrightarrow> m \<subseteq>\<^sub>m m(k \<mapsto> v)"
  by (simp add: map_le_def dom_def)

lemma add_epoch_inv:
  assumes inv: "ledger_inv pol db" and fresh: "db_epochs db i = None"
    and e: "epoch_ok e" "ce_corpus_manifest_id e = corpus"
    and db': "db_epochs db' = (db_epochs db)(i \<mapsto> e)"
      "db_heads db' = (db_heads db)(corpus \<mapsto> Some i)"
      "db_roots db' = db_roots db" "db_reservations db' = db_reservations db"
    and pred: "\<And>p. ce_predecessor_ledger_id e = Some p \<Longrightarrow> db_heads db corpus = Some (Some p)"
    and caps: "\<And>u. ce_corpus_usage e = Some u \<Longrightarrow> 
      corpus_bounded (pol (ce_policy_hash e)) (pred_usage db e) u"
  shows "ledger_inv pol db'"
  unfolding ledger_inv_def
proof (intro conjI)
  have le: "db_epochs db \<subseteq>\<^sub>m db_epochs db'" unfolding db' by (rule map_le_new) (rule fresh)
  have heads: "\<exists>e. db_epochs db j = Some e \<and> ce_corpus_manifest_id e = c"
    if "db_heads db c = Some (Some j)" for c j
    using inv that by (simp add: ledger_inv_def heads_ok_def)
  show "heads_ok db'"
    unfolding heads_ok_def
  proof (intro allI impI)
    fix c j assume h: "db_heads db' c = Some (Some j)"
    show "\<exists>e. db_epochs db' j = Some e \<and> ce_corpus_manifest_id e = c"
    proof (cases "c = corpus")
      case True with h e(2) show ?thesis by (simp add: db')
    next
      case False
      with h have "db_heads db c = Some (Some j)" by (simp add: db')
      with heads le show ?thesis by (meson map_leD)
    qed
  qed
  show "epochs_ok db'" using inv e(1) by (simp add: ledger_inv_def epochs_ok_def db')
  show "predecessors_ok db'"
    unfolding predecessors_ok_def
  proof (intro allI impI)
    fix j e' p assume E: "db_epochs db' j = Some e'" and P: "ce_predecessor_ledger_id e' = Some p"
    show "(\<exists>pe. db_epochs db' p = Some pe \<and> ce_corpus_manifest_id pe = ce_corpus_manifest_id e') \<and>
      (\<forall>c. db_heads db' c \<noteq> Some (Some p))"
    proof (cases "j = i")
      case True
      with E P have e': "e' = e" and h: "db_heads db corpus = Some (Some p)"
        using pred by (simp_all add: db')
      from heads [OF h] obtain pe where pe: "db_epochs db p = Some pe" "ce_corpus_manifest_id pe = corpus"
        by blast
      have "db_heads db c \<noteq> Some (Some p)" if "c \<noteq> corpus" for c
        using heads [of c p] pe that by auto
      moreover have "p \<noteq> i" using pe(1) fresh by auto
      ultimately show ?thesis using pe e' e(2) map_leD [OF le pe(1)] by (auto simp: db')
    next
      case False
      with E have "db_epochs db j = Some e'" by (simp add: db')
      with P inv have "(\<exists>pe. db_epochs db p = Some pe \<and>
          ce_corpus_manifest_id pe = ce_corpus_manifest_id e') \<and>
        (\<forall>c. db_heads db c \<noteq> Some (Some p))"
        unfolding ledger_inv_def predecessors_ok_def by blast
      then obtain pe where pe: "db_epochs db p = Some pe"
        "ce_corpus_manifest_id pe = ce_corpus_manifest_id e'" "\<forall>c. db_heads db c \<noteq> Some (Some p)"
        by blast
      moreover have "p \<noteq> i" using pe(1) fresh by auto
      ultimately show ?thesis using map_leD [OF le pe(1)] by (auto simp: db')
    qed
  qed
  show "corpus_caps_ok pol db'"
    unfolding corpus_caps_ok_def
  proof (intro allI impI)
    fix j e' u assume E: "db_epochs db' j = Some e'" and U: "ce_corpus_usage e' = Some u"
    have "corpus_bounded (pol (ce_policy_hash e')) (pred_usage db e') u"
      using inv E U caps by (cases "j = i") (auto simp: ledger_inv_def corpus_caps_ok_def db')
    with corpus_bounded_mono [OF le]
    show "corpus_bounded (pol (ce_policy_hash e')) (pred_usage db' e') u" by blast
  qed
  show "roots_ok pol db'" using inv root_ok_mono [OF le]
    by (simp add: ledger_inv_def roots_ok_def db')
  show "reservations_ok db'" using inv
    by (simp add: ledger_inv_def reservations_ok_def row_ok_def db')
qed

lemma first_epoch_ok: "epoch_ok (first_epoch corpus ph)"
  using reconciled_first [of corpus ph] corpus_wf_empty
  by (auto simp: epoch_ok_def first_epoch_def)

lemma open_epoch_inv:
  assumes "ledger_inv pol db" and "db_epochs db i = None"
  shows "ledger_inv pol (db\<lparr>db_epochs := (db_epochs db)(i \<mapsto> first_epoch corpus ph),
    db_heads := (db_heads db)(corpus \<mapsto> Some i)\<rparr>)"
  using assms first_epoch_ok
  by (rule add_epoch_inv)
    (auto simp: first_epoch_def corpus_bounded_def within_def empty_corpus_usage_def)

lemma lock_corpus_inv:
  assumes "lock_corpus fresh corpus ph db = Inr ((i, u), db2)" and inv: "ledger_inv pol db"
  shows "ledger_inv pol db2 \<and> db_heads db2 corpus = Some (Some i) \<and>
    (\<exists>e. db_epochs db2 i = Some e \<and> reconciled_corpus_usage corpus e = Inr u) \<and>
    db_roots db2 = db_roots db \<and> db_reservations db2 = db_reservations db \<and>
    db_seals db2 = db_seals db \<and> corpus_wf u"
  using assms(1)
proof (cases rule: lock_corpus_Inr)
  case (found e)
  with inv have "epoch_ok e" by (simp add: ledger_inv_def epochs_ok_def)
  with found(4) have "corpus_wf u" by (auto simp: epoch_ok_def reconciled_Inr)
  with found inv show ?thesis by simp
next
  case opened
  with open_epoch_inv [OF inv opened(3)] reconciled_first corpus_wf_empty show ?thesis
    by simp
qed

section \<open>A new reservation\<close>

text \<open>
  What a reservation that is not a replay has found and written: \<open>db2\<close> is the database after
  the locks, \<open>usage\<close> what the root row held.
\<close>

lemma lock_root_Inr:
  assumes "lock_root rr ph corpus i db2 = Inr (usage, db3)"
  obtains row where "db_roots db3 (rr_evaluation_root_id rr) = Some row"
    "rt_corpus_ledger_id row = i"
    "db3 = db2\<lparr>db_roots := (db_roots db2)(rr_evaluation_root_id rr \<mapsto> row)\<rparr>"
    "(db_roots db2 (rr_evaluation_root_id rr) = None \<and> usage = None \<and>
       row = \<lparr>rt_policy_hash = ph, rt_task_level = rr_task_level rr, rt_corpus_manifest_id = corpus,
         rt_corpus_ledger_id = i, rt_usage_snapshot = NullUsage\<rparr>) \<or>
     (db_roots db2 (rr_evaluation_root_id rr) = Some row \<and> db3 = db2 \<and>
       (usage = None \<and> rt_usage_snapshot row = NullUsage \<or>
        (\<exists>u. usage = Some u \<and> rt_usage_snapshot row = StoredUsage u)))"
proof (cases "db_roots db2 (rr_evaluation_root_id rr)")
  case None
  note miss = insert_absent_miss [of "db_roots db2", OF None]
  from assms show ?thesis
    by (intro that [of "\<lparr>rt_policy_hash = ph, rt_task_level = rr_task_level rr,
        rt_corpus_manifest_id = corpus, rt_corpus_ledger_id = i, rt_usage_snapshot = NullUsage\<rparr>"])
      (auto simp: lock_root_def Let_def miss None)
next
  case (Some row)
  have same: "insert_absent (rr_evaluation_root_id rr) v (db_roots db2) = db_roots db2" for v
    by (rule insert_absent_hit) (rule Some)
  have "(db_roots db2)(rr_evaluation_root_id rr \<mapsto> row) = db_roots db2"
    using Some by (simp add: fun_upd_idem)
  with assms Some show ?thesis
    by (intro that [of row])
      (auto simp: lock_root_def Let_def same split: if_splits root_usage.splits)
qed

lemma write_reservation_Inr:
  assumes "write_reservation rid rr ph corpus i key (write_scopes rr out corpus i db3) = Inr db4"
    and "db_epochs db3 i = Some e" and "db_roots db3 (rr_evaluation_root_id rr) = Some row"
  shows "rid \<notin> rw_reservation_id ` set (db_reservations db3)"
    and "db_heads db4 = db_heads db3"
    and "db_epochs db4 = (db_epochs db3)(i \<mapsto> e\<lparr>ce_corpus_usage := Some (ro_corpus_usage out),
      ce_unique_excerpts := length (co_disclosure_ids (ro_corpus_usage out)),
      ce_unique_tokens := co_unique_tokens (ro_corpus_usage out),
      ce_unique_bytes := co_unique_bytes (ro_corpus_usage out)\<rparr>)"
    and "db_roots db4 = (db_roots db3)(rr_evaluation_root_id rr \<mapsto>
      row\<lparr>rt_usage_snapshot := StoredUsage (ro_usage out)\<rparr>)"
    and "db_reservations db4 = db_reservations db3 @ [\<lparr>rw_reservation_id = rid,
      rw_idempotency_key = key, rw_evaluation_root_id = rr_evaluation_root_id rr,
      rw_run_id = rr_run_id rr, rw_policy_hash = ph, rw_corpus_manifest_id = corpus,
      rw_corpus_ledger_id = i, rw_stage = rr_stage rr, rw_route = rr_route rr,
      rw_model_id = rr_model_id rr, rw_state = Reserved\<rparr>]"
    and "db_seals db4 = db_seals db3" and "db_attempts db4 = db_attempts db3"
    and "db_policies db4 = db_policies db3"
  using assms by (auto simp: write_reservation_def write_scopes_def update_epoch_def
      update_root_def Let_def split: if_splits)

lemma find_replay_None:
  "find_replay rr ph key i usage cu db = Inr None \<longleftrightarrow>
    (rr_evaluation_root_id rr, rr_run_id rr, ph, key) \<notin> row_key ` set (db_reservations db)"
proof
  assume "find_replay rr ph key i usage cu db = Inr None"
  then have "find (\<lambda>r. rw_evaluation_root_id r = rr_evaluation_root_id rr \<and>
      rw_run_id r = rr_run_id rr \<and> rw_policy_hash r = ph \<and> rw_idempotency_key r = key)
      (db_reservations db) = None"
    by (auto simp: find_replay_def split: option.splits if_splits)
  then show "(rr_evaluation_root_id rr, rr_run_id rr, ph, key) \<notin> row_key ` set (db_reservations db)"
    by (auto simp: find_None_iff row_key_def)
next
  assume "(rr_evaluation_root_id rr, rr_run_id rr, ph, key) \<notin> row_key ` set (db_reservations db)"
  then have "find (\<lambda>r. rw_evaluation_root_id r = rr_evaluation_root_id rr \<and>
      rw_run_id r = rr_run_id rr \<and> rw_policy_hash r = ph \<and> rw_idempotency_key r = key)
      (db_reservations db) = None"
    by (auto simp: find_None_iff row_key_def image_iff)
  then show "find_replay rr ph key i usage cu db = Inr None" by (simp add: find_replay_def)
qed

lemma find_replay_Some:
  assumes "find_replay rr ph key i usage cu db = Inr (Some v)"
  obtains row u where "row \<in> set (db_reservations db)"
    "row_key row = (rr_evaluation_root_id rr, rr_run_id rr, ph, key)"
    "usage = Some u" "rw_corpus_ledger_id row = i"
    "rw_corpus_manifest_id row = vm_corpus_manifest_id (rr_version rr)"
    "rv_reservation_id v = rw_reservation_id row" "rv_replayed v" "rv_usage v = u"
    "rv_corpus_usage v = cu" "rv_idempotency_key v = key" "rv_state v = rw_state row"
proof -
  from assms obtain row where F: "find (\<lambda>r. rw_evaluation_root_id r = rr_evaluation_root_id rr \<and>
      rw_run_id r = rr_run_id rr \<and> rw_policy_hash r = ph \<and> rw_idempotency_key r = key)
      (db_reservations db) = Some row"
    by (auto simp: find_replay_def split: option.splits if_splits)
  then have "row \<in> set (db_reservations db)"
    "row_key row = (rr_evaluation_root_id rr, rr_run_id rr, ph, key)"
    by (auto simp: find_Some_iff row_key_def)
  with F assms show ?thesis
    by (intro that [of row "the usage"]) (auto simp: find_replay_def split: if_splits)
qed

lemma reserve_body_Inr:
  assumes "reserve_body en ids rr counter key db = Inr (v, db4)"
  obtains (replay) ph corpus i cu usage db2 db3 where
    "ph = policy_hash (en_sha256 en) (en_policy en)" "corpus = vm_corpus_manifest_id (rr_version rr)"
    "lock_corpus (fresh_ledger_id ids) corpus ph (record_policy (en_policy en) ph db) = Inr ((i, cu), db2)"
    "lock_root rr ph corpus i db2 = Inr (usage, db3)" "require_unsealed rr db3 = Inr ()"
    "find_replay rr ph key i usage cu db3 = Inr (Some v)" "db4 = db3"
  | (new) ph corpus i cu usage db2 db3 out where
    "ph = policy_hash (en_sha256 en) (en_policy en)" "corpus = vm_corpus_manifest_id (rr_version rr)"
    "lock_corpus (fresh_ledger_id ids) corpus ph (record_policy (en_policy en) ph db) = Inr ((i, cu), db2)"
    "lock_root rr ph corpus i db2 = Inr (usage, db3)" "require_unsealed rr db3 = Inr ()"
    "find_replay rr ph key i usage cu db3 = Inr None"
    "apply_reservation en usage (Some cu) rr counter = Inr out"
    "write_reservation (fresh_reservation_id ids) rr ph corpus i key
      (write_scopes rr out corpus i db3) = Inr db4"
    "\<not> rv_replayed v" "rv_reservation_id v = fresh_reservation_id ids" "rv_usage v = ro_usage out"
    "rv_corpus_usage v = ro_corpus_usage out" "rv_idempotency_key v = key"
    "rv_corpus_manifest_id v = corpus" "rv_policy_hash v = ph"
proof -
  let ?ph = "policy_hash (en_sha256 en) (en_policy en)"
  let ?c = "vm_corpus_manifest_id (rr_version rr)"
  note A = assms [unfolded reserve_body_def Let_def]
  from A obtain i cu db2 usage db3 replay where
    1: "lock_corpus (fresh_ledger_id ids) ?c ?ph (record_policy (en_policy en) ?ph db) = Inr ((i, cu), db2)"
    "lock_root rr ?ph ?c i db2 = Inr (usage, db3)" "require_unsealed rr db3 = Inr ()"
    "find_replay rr ?ph key i usage cu db3 = Inr replay"
    by (auto simp: result_simps)
  show ?thesis
  proof (cases replay)
    case (Some stored)
    with A 1 show ?thesis by (intro replay [OF refl refl 1(1-3)]) auto
  next
    case None
    with A 1 obtain out where 2: "apply_reservation en usage (Some cu) rr counter = Inr out"
      "write_reservation (fresh_reservation_id ids) rr ?ph ?c i key
        (write_scopes rr out ?c i db3) = Inr db4"
      by (auto simp: result_simps split: sum.splits)
    with A 1 None show ?thesis by (intro new [OF refl refl 1(1-3)]) auto
  qed
qed

section \<open>Every operation keeps the invariant\<close>

definition known_enforcer :: "(string \<Rightarrow> string) \<Rightarrow> (string \<Rightarrow> egress_policy) \<Rightarrow> enforcer \<Rightarrow> bool" where
  "known_enforcer sha pol en \<longleftrightarrow>
     en_sha256 en = sha \<and> pol (policy_hash sha (en_policy en)) = en_policy en"

lemma apply_corpus_usage_bounded:
  assumes "apply_corpus_usage (Some cu) rr d ph = Inr v" and "corpus_bounded p pred cu"
    and snap: "policy_snapshot p level kind (vm_document_id (rr_version rr)) = Some (dr_cap_snapshot d)"
  shows "corpus_bounded p pred v"
  using assms(1)
proof (rule apply_corpus_usage_Inr)
  let ?k = "vm_document_id (rr_version rr)"
  note S = policy_snapshot_Some [OF snap]
  fix u
  assume u: "u = existing_corpus (Some cu) rr ph"
    and docs: "apply_document_usage u ?k d = Inr (co_document_usage v)"
    and C: "length (co_disclosure_ids v) \<le> cap_excerpts (cs_corpus_unique (dr_cap_snapshot d))"
      "co_unique_tokens v \<le> cap_tokens (cs_corpus_unique (dr_cap_snapshot d))"
      "co_unique_bytes v \<le> cap_bytes (cs_corpus_unique (dr_cap_snapshot d))"
  have "u = cu" by (simp add: u existing_corpus_def)
  let ?new = "charge_document (current_document u ?k) (dr_disclosures d)"
  have "document_within p ?new"
    unfolding document_within_def
    by (simp add: current_document_id S(1) within_def apply_document_usage_Inr(2-4) [OF docs])
  then have "\<forall>a \<in> set (co_document_usage v). document_within p a \<or>
      (\<exists>pu. pred = Some pu \<and> a \<in> set (co_document_usage pu))"
    using apply_document_usage_accounts(2) [OF docs] assms(2) \<open>u = cu\<close>
    by (auto simp: corpus_bounded_def)
  with C S(2) show ?thesis by (simp add: corpus_bounded_def within_def)
qed

lemma apply_usage_header:
  assumes "apply_usage ex rr d ph = Inr v"
  shows "us_evaluation_root_id v = rr_evaluation_root_id rr \<and> us_task_level v = rr_task_level rr \<and>
    us_policy_hash v = ph \<and>
    (\<forall>u. ex = Some u \<longrightarrow> us_policy_hash u = ph \<and> us_task_level u = rr_task_level rr)"
  using assms
proof (rule apply_usage_Inr)
  fix u assume "u = existing_usage ex rr ph" "us_task_level u = rr_task_level rr" "us_policy_hash u = ph"
    "us_evaluation_root_id v = rr_evaluation_root_id rr" "us_task_level v = rr_task_level rr"
    "us_policy_hash v = ph"
  then show ?thesis by (auto simp: existing_usage_def)
qed

lemma apply_corpus_usage_header:
  assumes "apply_corpus_usage (Some cu) rr d ph = Inr v"
  shows "co_corpus_manifest_id v = vm_corpus_manifest_id (rr_version rr) \<and> co_policy_hash v = ph \<and>
    co_policy_hash cu = ph"
  using assms
proof (rule apply_corpus_usage_Inr)
  fix u assume "u = existing_corpus (Some cu) rr ph" "co_policy_hash u = ph"
    "co_corpus_manifest_id u = vm_corpus_manifest_id (rr_version rr)"
    "v = (charge_corpus u (dr_disclosures d))\<lparr>co_document_usage := co_document_usage v\<rparr>"
  then show ?thesis by (metis charge_corpus_keeps(1,2) corpus_usage.ext_inject
      corpus_usage.surjective corpus_usage.update_convs(6) existing_corpus_def option.simps(5)
      corpus_usage.select_convs(1,2))
qed

text \<open>The reservation's effect on the rows it touches.\<close>

lemma applied_rows:
  assumes en: "known_enforcer sha pol en"
    and R: "apply_reservation en usage (Some cu) rr counter = Inr out"
    and E: "reconciled_corpus_usage corpus e = Inr cu" "corpus_wf cu"
      "corpus_bounded (pol (ce_policy_hash e)) pred cu"
    and corpus: "corpus = vm_corpus_manifest_id (rr_version rr)"
    and U: "\<And>u. usage = Some u \<Longrightarrow> usage_wf u \<and> usage_within (pol (us_policy_hash u)) u"
  shows "ce_policy_hash e = policy_hash sha (en_policy en) \<and> us_policy_hash (ro_usage out) = ce_policy_hash e \<and>
    us_evaluation_root_id (ro_usage out) = rr_evaluation_root_id rr \<and>
    us_task_level (ro_usage out) = rr_task_level rr \<and>
    (\<forall>u. usage = Some u \<longrightarrow> us_policy_hash u = ce_policy_hash e \<and> us_task_level u = rr_task_level rr) \<and>
    usage_wf (ro_usage out) \<and> usage_within (pol (ce_policy_hash e)) (ro_usage out) \<and>
    co_corpus_manifest_id (ro_corpus_usage out) = corpus \<and>
    co_policy_hash (ro_corpus_usage out) = ce_policy_hash e \<and> corpus_wf (ro_corpus_usage out) \<and>
    corpus_bounded (pol (ce_policy_hash e)) pred (ro_corpus_usage out)"
  using R
proof (rule apply_reservation_Inr)
  fix d
  let ?ph = "policy_hash (en_sha256 en) (en_policy en)"
  assume AU: "apply_usage usage rr d ?ph = Inr (ro_usage out)"
    and AC: "apply_corpus_usage (Some cu) rr d ?ph = Inr (ro_corpus_usage out)"
    and S: "policy_snapshot (en_policy en) (rr_task_level rr) (payload_kind (rr_projected_payload rr))
       (vm_document_id (rr_version rr)) = Some (dr_cap_snapshot d)"
    and T: "totals_of_facts d"
  note HU = apply_usage_header [OF AU] and HC = apply_corpus_usage_header [OF AC]
  have ph: "ce_policy_hash e = ?ph" "pol ?ph = en_policy en" "en_sha256 en = sha"
    using HC E(1) en by (auto simp: reconciled_Inr known_enforcer_def)
  have "usage_wf (ro_usage out)" using U by (intro apply_usage_wf [OF AU _ T]) auto
  moreover have "usage_within (en_policy en) (ro_usage out)"
    using U HU ph(2) by (intro apply_usage_within [OF AU _ S]) auto
  moreover have "corpus_wf (ro_corpus_usage out)"
    using E(2) by (intro apply_corpus_usage_wf [OF AC]) simp
  moreover have "corpus_bounded (en_policy en) pred (ro_corpus_usage out)"
    using E(3) ph by (intro apply_corpus_usage_bounded [OF AC _ S]) simp
  ultimately show ?thesis using HU HC ph corpus by simp
qed

lemma charge_epoch_inv:
  assumes inv: "ledger_inv pol db" and head: "db_heads db corpus = Some (Some i)"
    and e: "db_epochs db i = Some e" and e': "epoch_ok e'"
    "ce_corpus_manifest_id e' = ce_corpus_manifest_id e" "ce_policy_hash e' = ce_policy_hash e"
    "ce_predecessor_ledger_id e' = ce_predecessor_ledger_id e"
    and caps: "\<And>u. ce_corpus_usage e' = Some u \<Longrightarrow>
      corpus_bounded (pol (ce_policy_hash e')) (pred_usage db e') u"
    and root: "root_ok pol (db\<lparr>db_epochs := (db_epochs db)(i \<mapsto> e')\<rparr>) k row"
    and frame: "\<And>old. db_roots db k = Some old \<Longrightarrow> rt_corpus_ledger_id row = rt_corpus_ledger_id old \<and>
      rt_corpus_manifest_id row = rt_corpus_manifest_id old \<and> rt_policy_hash row = rt_policy_hash old"
    and new: "rw_evaluation_root_id r = k" "rw_corpus_ledger_id r = rt_corpus_ledger_id row"
      "rw_corpus_manifest_id r = rt_corpus_manifest_id row" "rw_policy_hash r = rt_policy_hash row"
      "rw_reservation_id r \<notin> rw_reservation_id ` set (db_reservations db)"
      "row_key r \<notin> row_key ` set (db_reservations db)"
    and db': "db_heads db' = db_heads db" "db_epochs db' = (db_epochs db)(i \<mapsto> e')"
      "db_roots db' = (db_roots db)(k \<mapsto> row)" "db_reservations db' = db_reservations db @ [r]"
  shows "ledger_inv pol db'"
  unfolding ledger_inv_def
proof (intro conjI)
  have no_pred: "ce_predecessor_ledger_id x \<noteq> Some i" if "db_epochs db j = Some x" for j x
    using inv head that unfolding ledger_inv_def predecessors_ok_def by blast
  show "heads_ok db'"
    unfolding heads_ok_def
  proof (intro allI impI)
    fix c j assume "db_heads db' c = Some (Some j)"
    then have "\<exists>x. db_epochs db j = Some x \<and> ce_corpus_manifest_id x = c"
      using inv by (simp add: ledger_inv_def heads_ok_def db')
    with e e'(2) show "\<exists>x. db_epochs db' j = Some x \<and> ce_corpus_manifest_id x = c"
      by (cases "j = i") (simp_all add: db')
  qed
  show "epochs_ok db'" using inv e'(1) by (simp add: ledger_inv_def epochs_ok_def db')
  show "predecessors_ok db'"
    unfolding predecessors_ok_def
  proof (intro allI impI)
    fix j x p assume E: "db_epochs db' j = Some x" and P: "ce_predecessor_ledger_id x = Some p"
    obtain y where y: "db_epochs db j = Some y" "ce_predecessor_ledger_id y = Some p"
      "ce_corpus_manifest_id y = ce_corpus_manifest_id x"
      using E P e e'(2,4) by (cases "j = i") (auto simp: db')
    then have "(\<exists>pe. db_epochs db p = Some pe \<and> ce_corpus_manifest_id pe = ce_corpus_manifest_id y) \<and>
      (\<forall>c. db_heads db c \<noteq> Some (Some p))"
      using inv unfolding ledger_inv_def predecessors_ok_def by blast
    moreover have "p \<noteq> i" using no_pred [OF y(1)] y(2) by auto
    ultimately show "(\<exists>pe. db_epochs db' p = Some pe \<and>
        ce_corpus_manifest_id pe = ce_corpus_manifest_id x) \<and> (\<forall>c. db_heads db' c \<noteq> Some (Some p))"
      using y(3) by (simp add: db')
  qed
  have pred: "pred_usage db' x = pred_usage db x"
    if "ce_predecessor_ledger_id x \<noteq> Some i" for x
    using that by (auto simp: pred_usage_def db' split: option.split)
  show "corpus_caps_ok pol db'"
    unfolding corpus_caps_ok_def
  proof (intro allI impI)
    fix j x u assume E: "db_epochs db' j = Some x" and U: "ce_corpus_usage x = Some u"
    show "corpus_bounded (pol (ce_policy_hash x)) (pred_usage db' x) u"
    proof (cases "j = i")
      case True
      with E have "x = e'" by (simp add: db')
      with caps U no_pred [OF e] e'(4) show ?thesis by (simp add: pred)
    next
      case False
      with E have "db_epochs db j = Some x" by (simp add: db')
      with inv U no_pred [OF this] show ?thesis
        by (simp add: ledger_inv_def corpus_caps_ok_def pred)
    qed
  qed
  have other: "root_ok pol db' q x" if x: "root_ok pol db q x" for q x
  proof -
    from x obtain y u where y: "db_epochs db (rt_corpus_ledger_id x) = Some y"
      and u: "rt_usage_snapshot x = StoredUsage u \<and> us_evaluation_root_id u = q \<and>
        us_task_level u = rt_task_level x \<and> us_policy_hash u = ce_policy_hash y \<and>
        rt_policy_hash x = ce_policy_hash y \<and> rt_corpus_manifest_id x = ce_corpus_manifest_id y \<and>
        usage_wf u \<and> usage_within (pol (ce_policy_hash y)) u"
      unfolding root_ok_def by blast
    show ?thesis
    proof (cases "rt_corpus_ledger_id x = i")
      case True
      with y e u e'(2,3) show ?thesis by (auto simp: root_ok_def db')
    next
      case False
      with y u show ?thesis by (auto simp: root_ok_def db')
    qed
  qed
  show "roots_ok pol db'"
    unfolding roots_ok_def
  proof (intro allI impI)
    fix q x assume "db_roots db' q = Some x"
    then consider "q = k" "x = row" | "db_roots db q = Some x"
      by (cases "q = k") (simp_all add: db')
    then show "root_ok pol db' q x"
    proof cases
      case 1 with root show ?thesis by (simp add: root_ok_def db')
    next
      case 2 with inv other show ?thesis by (simp add: ledger_inv_def roots_ok_def)
    qed
  qed
  have rows: "row_ok db' x" if x: "row_ok db x" for x
    using x frame by (cases "rw_evaluation_root_id x = k") (auto simp: row_ok_def db')
  have "row_ok db' r" using new by (simp add: row_ok_def db')
  with inv rows new(5,6) show "reservations_ok db'"
    by (auto simp: ledger_inv_def reservations_ok_def db')
qed

lemma reserve_body_inv:
  assumes R: "reserve_body en ids rr counter key db = Inr (v, db4)" and inv: "ledger_inv pol db"
    and en: "known_enforcer sha pol en"
  shows "ledger_inv pol db4"
proof -
  have recorded: "ledger_inv pol (record_policy p ph db)" for p ph
    using inv by (subst ledger_inv_cong [of _ db]) (simp_all add: record_policy_def)
  from R show ?thesis
  proof (cases rule: reserve_body_Inr)
    case (replay ph corpus i cu usage db2 db3)
    note L = lock_corpus_inv [OF replay(3) recorded]
    from replay(6) obtain row u where row: "row \<in> set (db_reservations db3)"
      "row_key row = (rr_evaluation_root_id rr, rr_run_id rr, ph, key)" "usage = Some u"
      by (rule find_replay_Some)
    from replay(4) row(3) have "db3 = db2" by (auto elim: lock_root_Inr)
    with L replay(7) show ?thesis by simp
  next
    case (new ph corpus i cu usage db2 db3 out)
    note L = lock_corpus_inv [OF new(3) recorded]
    from L obtain e where e: "db_epochs db2 i = Some e" "reconciled_corpus_usage corpus e = Inr cu"
      by blast
    have ce: "ce_corpus_manifest_id e = corpus" using e(2) by (simp add: reconciled_Inr)
    from new(4) obtain row where row: "db_roots db3 (rr_evaluation_root_id rr) = Some row"
      "rt_corpus_ledger_id row = i" "db3 = db2\<lparr>db_roots := (db_roots db2)(rr_evaluation_root_id rr \<mapsto> row)\<rparr>"
      and cases: "(db_roots db2 (rr_evaluation_root_id rr) = None \<and> usage = None \<and>
         row = \<lparr>rt_policy_hash = ph, rt_task_level = rr_task_level rr, rt_corpus_manifest_id = corpus,
           rt_corpus_ledger_id = i, rt_usage_snapshot = NullUsage\<rparr>) \<or>
       (db_roots db2 (rr_evaluation_root_id rr) = Some row \<and> db3 = db2 \<and>
         (usage = None \<and> rt_usage_snapshot row = NullUsage \<or>
          (\<exists>u. usage = Some u \<and> rt_usage_snapshot row = StoredUsage u)))"
      by (rule lock_root_Inr)
    have old: "root_ok pol db2 (rr_evaluation_root_id rr) row"
      if "db_roots db2 (rr_evaluation_root_id rr) = Some row"
      using L that by (simp add: ledger_inv_def roots_ok_def)
    have U: "usage_wf u \<and> usage_within (pol (us_policy_hash u)) u" if "usage = Some u" for u
      using that cases old by (auto simp: root_ok_def)
    have "ce_corpus_usage e = Some cu" using e(2) by (simp add: reconciled_Inr)
    with L e(1) have bounded: "corpus_bounded (pol (ce_policy_hash e)) (pred_usage db2 e) cu"
      unfolding ledger_inv_def corpus_caps_ok_def by blast
    note A = applied_rows [OF en new(7) e(2) _ bounded new(2) U]
    have e3: "db_epochs db3 i = Some e" using e(1) row(3) by simp
    note W = write_reservation_Inr [OF new(8) e3 row(1)]
    let ?e' = "e\<lparr>ce_corpus_usage := Some (ro_corpus_usage out),
      ce_unique_excerpts := length (co_disclosure_ids (ro_corpus_usage out)),
      ce_unique_tokens := co_unique_tokens (ro_corpus_usage out),
      ce_unique_bytes := co_unique_bytes (ro_corpus_usage out)\<rparr>"
    let ?row = "row\<lparr>rt_usage_snapshot := StoredUsage (ro_usage out)\<rparr>"
    have hash: "ph = ce_policy_hash e" using A L new(1) en by (simp add: known_enforcer_def)
    have row_eqs: "rt_policy_hash row = ce_policy_hash e" "rt_corpus_manifest_id row = corpus"
      "rt_task_level row = rr_task_level rr"
    proof -
      have "rt_policy_hash row = ce_policy_hash e \<and> rt_corpus_manifest_id row = corpus \<and>
        rt_task_level row = rr_task_level rr"
      proof (cases "db_roots db2 (rr_evaluation_root_id rr)")
        case None
        with cases hash show ?thesis by auto
      next
        case (Some x)
        with cases have x: "x = row" by auto
        with old Some have ok: "root_ok pol db2 (rr_evaluation_root_id rr) row" by simp
        with cases Some x obtain u where "usage = Some u" "rt_usage_snapshot row = StoredUsage u"
          by (auto simp: root_ok_def)
        with ok A L e(1) ce row(2) show ?thesis by (auto simp: root_ok_def)
      qed
      then show "rt_policy_hash row = ce_policy_hash e" "rt_corpus_manifest_id row = corpus"
        "rt_task_level row = rr_task_level rr" by simp_all
    qed
    have B: "us_policy_hash (ro_usage out) = ce_policy_hash e"
      "us_evaluation_root_id (ro_usage out) = rr_evaluation_root_id rr"
      "us_task_level (ro_usage out) = rr_task_level rr" "usage_wf (ro_usage out)"
      "usage_within (pol (ce_policy_hash e)) (ro_usage out)"
      "co_corpus_manifest_id (ro_corpus_usage out) = corpus"
      "co_policy_hash (ro_corpus_usage out) = ce_policy_hash e" "corpus_wf (ro_corpus_usage out)"
      "corpus_bounded (pol (ce_policy_hash e)) (pred_usage db2 e) (ro_corpus_usage out)"
      using A L by blast+
    show ?thesis
    proof (rule charge_epoch_inv [where db = db2 and corpus = corpus and i = i and e = e and e' = ?e'
          and k = "rr_evaluation_root_id rr" and row = ?row])
      show "epoch_ok ?e'" using B ce by (auto simp: epoch_ok_def reconciled_Inr)
      show "root_ok pol (db2\<lparr>db_epochs := (db_epochs db2)(i \<mapsto> ?e')\<rparr>) (rr_evaluation_root_id rr) ?row"
        using B row_eqs row(2) ce by (simp add: root_ok_def)
      show "corpus_bounded (pol (ce_policy_hash ?e')) (pred_usage db2 ?e') u"
        if "ce_corpus_usage ?e' = Some u" for u
        using B that by (simp add: pred_usage_def)
      show "row_key \<lparr>rw_reservation_id = fresh_reservation_id ids, rw_idempotency_key = key,
          rw_evaluation_root_id = rr_evaluation_root_id rr, rw_run_id = rr_run_id rr,
          rw_policy_hash = ph, rw_corpus_manifest_id = corpus, rw_corpus_ledger_id = i,
          rw_stage = rr_stage rr, rw_route = rr_route rr, rw_model_id = rr_model_id rr,
          rw_state = Reserved\<rparr> \<notin> row_key ` set (db_reservations db2)"
        using new(6) row(3) by (simp add: find_replay_None row_key_def)
    qed (use L e W row row_eqs hash cases in auto)
  qed
qed

lemma record_attempt_inv:
  assumes "record_attempt_body a db = Inr (x, db')" and "ledger_inv pol db"
  shows "ledger_inv pol db'"
proof -
  let ?f = "\<lambda>r. if rw_reservation_id r = at_reservation_id a
    then r\<lparr>rw_state := attempt_state (at_outcome a)\<rparr> else r"
  have db': "db' = db\<lparr>db_attempts := db_attempts db @ [a], db_reservations := map ?f (db_reservations db)\<rparr>"
    using assms(1) by (auto simp: record_attempt_body_def split: if_splits)
  have keys: "map rw_reservation_id (map ?f rs) = map rw_reservation_id rs"
    "map row_key (map ?f rs) = map row_key rs" for rs
    by (simp_all add: comp_def row_key_def)
  have row: "row_ok db r \<Longrightarrow> row_ok db' (?f r)" for r
    by (simp add: row_ok_def db')
  have same: "db_reservations db' = map ?f (db_reservations db)" by (simp add: db')
  have old: "reservations_ok db" using assms(2) by (simp add: ledger_inv_def)
  have "\<forall>r \<in> set (map ?f (db_reservations db)). row_ok db' r"
    using old row unfolding reservations_ok_def set_map by blast
  with old have rows: "reservations_ok db'"
    unfolding reservations_ok_def same keys by blast
  have eqs: "db_heads db' = db_heads db" "db_epochs db' = db_epochs db" "db_roots db' = db_roots db"
    by (simp_all add: db')
  from assms(2) rows show ?thesis
    unfolding ledger_inv_def heads_ok_def epochs_ok_def predecessors_ok_def corpus_caps_ok_def
      pred_usage_def roots_ok_def root_ok_def eqs by blast
qed

lemma successor_corpus_usage_Inr:
  "successor_corpus_usage u ph = Inr v \<longleftrightarrow> co_policy_hash u \<noteq> ph \<and> v = u\<lparr>co_policy_hash := ph\<rparr>"
  by (auto simp: successor_corpus_usage_def)

text \<open>The three ways a rebind succeeds.\<close>

lemma rebind_body_Inr:
  assumes "rebind_body sid corpus xid xph nph db = Inr (res, db')"
  obtains (unchanged) active u where "db_heads db corpus = Some (Some xid)"
      "db_epochs db xid = Some active" "reconciled_corpus_usage corpus active = Inr u"
      "ce_policy_hash active = nph" "xph = nph" "db' = db"
      "res = rebind_result corpus xid xid nph nph u False"
  | (retry) aid active pe u where "db_heads db corpus = Some (Some aid)"
      "db_epochs db aid = Some active" "aid \<noteq> xid" "ce_policy_hash active = nph"
      "ce_predecessor_ledger_id active = Some xid" "db_epochs db xid = Some pe"
      "reconciled_corpus_usage corpus pe = Inr u" "co_policy_hash u = xph" "db' = db"
      "res = rebind_result corpus xid aid xph nph u False"
  | (rebound) active u where "db_heads db corpus = Some (Some xid)"
      "db_epochs db xid = Some active" "reconciled_corpus_usage corpus active = Inr u"
      "ce_policy_hash active = xph" "xph \<noteq> nph" "db_epochs db sid = None"
      "res = rebind_result corpus xid sid xph nph (u\<lparr>co_policy_hash := nph\<rparr>) True"
      "db' = db\<lparr>db_epochs := (db_epochs db)(sid \<mapsto> \<lparr>ce_corpus_manifest_id = corpus,
          ce_policy_hash = nph, ce_corpus_usage = Some (u\<lparr>co_policy_hash := nph\<rparr>),
          ce_unique_excerpts = length (co_disclosure_ids u),
          ce_unique_tokens = co_unique_tokens u, ce_unique_bytes = co_unique_bytes u,
          ce_predecessor_ledger_id = Some xid\<rparr>),
        db_heads := (db_heads db)(corpus \<mapsto> Some sid)\<rparr>"
proof -
  from assms obtain aid active u where A: "db_heads db corpus = Some (Some aid)"
    "db_epochs db aid = Some active" "reconciled_corpus_usage corpus active = Inr u"
    by (auto simp: rebind_body_def result_simps split: option.splits)
  note B = assms [unfolded rebind_body_def A option.case bind_result.simps]
  have hash: "ce_policy_hash active = co_policy_hash u" using A(3) by (simp add: reconciled_Inr)
  consider "aid = xid" "ce_policy_hash active = xph" "xph = nph" | "aid \<noteq> xid"
    | "aid = xid" "\<not> (ce_policy_hash active = xph \<and> xph = nph)" by blast
  then show ?thesis
  proof cases
    case 1
    with A B show ?thesis by (intro unchanged [of active u]) auto
  next
    case 2
    with B have R: "rebind_retry corpus xid xph nph aid active db = Inr res" "db' = db"
      by (auto simp: result_simps)
    from R(1) obtain pe pu where "ce_policy_hash active = nph"
      "ce_predecessor_ledger_id active = Some xid" "db_epochs db xid = Some pe"
      "reconciled_corpus_usage corpus pe = Inr pu" "co_policy_hash pu = xph"
      "res = rebind_result corpus xid aid xph nph pu False"
      by (auto simp: rebind_retry_def result_simps split: if_splits option.splits)
    with A 2 R(2) show ?thesis by (intro retry [of aid active pe pu]) auto
  next
    case 3
    with B hash have C: "ce_policy_hash active = xph" "xph \<noteq> nph" "db_epochs db sid = None"
      "res = rebind_result corpus xid sid xph nph (u\<lparr>co_policy_hash := nph\<rparr>) True"
      "db' = db\<lparr>db_epochs := (db_epochs db)(sid \<mapsto> \<lparr>ce_corpus_manifest_id = corpus,
          ce_policy_hash = nph, ce_corpus_usage = Some (u\<lparr>co_policy_hash := nph\<rparr>),
          ce_unique_excerpts = length (co_disclosure_ids u),
          ce_unique_tokens = co_unique_tokens u, ce_unique_bytes = co_unique_bytes u,
          ce_predecessor_ledger_id = Some xid\<rparr>),
        db_heads := (db_heads db)(corpus \<mapsto> Some sid)\<rparr>"
      by (auto simp: result_simps successor_corpus_usage_Inr insert_unique_Inr split: if_splits)
    from rebound [OF _ _ A(3) C] A(1,2) 3(1) show ?thesis by simp
  qed
qed

lemma corpus_wf_policy: "corpus_wf (u\<lparr>co_policy_hash := ph\<rparr>) \<longleftrightarrow> corpus_wf u"
  by (simp add: corpus_wf_def)

lemma rebind_body_inv:
  assumes "rebind_body sid corpus xid xph nph db = Inr (res, db')" and inv: "ledger_inv pol db"
  shows "ledger_inv pol db'"
  using assms(1)
proof (cases rule: rebind_body_Inr)
  case unchanged with inv show ?thesis by simp
next
  case retry with inv show ?thesis by simp
next
  case (rebound active u)
  have wf: "corpus_wf u"
  proof -
    have "epoch_ok active" using inv rebound(2) by (simp add: ledger_inv_def epochs_ok_def)
    with rebound(3) show ?thesis by (auto simp: epoch_ok_def reconciled_Inr)
  qed
  let ?e = "\<lparr>ce_corpus_manifest_id = corpus, ce_policy_hash = nph,
    ce_corpus_usage = Some (u\<lparr>co_policy_hash := nph\<rparr>),
    ce_unique_excerpts = length (co_disclosure_ids u), ce_unique_tokens = co_unique_tokens u,
    ce_unique_bytes = co_unique_bytes u, ce_predecessor_ledger_id = Some xid\<rparr>"
  have usage: "ce_corpus_usage active = Some u" "co_corpus_manifest_id u = corpus"
    using rebound(3) by (simp_all add: reconciled_Inr)
  show ?thesis
  proof (rule add_epoch_inv [where db = db and i = sid and e = ?e and corpus = corpus])
    show "epoch_ok ?e" using wf usage(2) by (simp add: epoch_ok_def reconciled_Inr corpus_wf_policy)
    show "corpus_bounded (pol (ce_policy_hash ?e)) (pred_usage db ?e) x"
      if "ce_corpus_usage ?e = Some x" for x
      using that usage(1) rebound(2) by (auto simp: corpus_bounded_def pred_usage_def)
  qed (use inv rebound in simp_all)
qed

section \<open>Reachable ledgers\<close>

inductive ledger_step ::
  "(string \<Rightarrow> string) \<Rightarrow> (string \<Rightarrow> egress_policy) \<Rightarrow> ledger_db \<Rightarrow> ledger_db \<Rightarrow> bool"
  for sha pol where
  reserve: "known_enforcer sha pol en \<Longrightarrow>
    ledger_step sha pol db (snd (check_and_reserve fault en ids rr counter key db))"
| attempt: "ledger_step sha pol db (snd (record_attempt fault a db))"
| seal: "ledger_step sha pol db (snd (seal_run fault root run reason db))"
| rebind: "known_enforcer sha pol en \<Longrightarrow>
    ledger_step sha pol db (snd (rebind_policy fault en sid corpus xid xph db))"

inductive_cases ledger_stepE: "ledger_step sha pol db db'"

lemma ledger_step_inv:
  assumes "ledger_step sha pol db db'" and inv: "ledger_inv pol db"
  shows "ledger_inv pol db'"
  using assms(1)
proof cases
  case (reserve en fault ids rr counter key)
  with transact_db [of fault ReservationAmbiguous "reserve_body en ids rr counter key" db] inv
  show ?thesis by (auto simp: check_and_reserve_def dest: reserve_body_inv)
next
  case (attempt fault a)
  with transact_db [of fault ReservationAmbiguous "record_attempt_body a" db] inv
  show ?thesis by (auto simp: record_attempt_def dest: record_attempt_inv)
next
  case (seal fault root run reason)
  have "ledger_inv pol (db\<lparr>db_seals := s\<rparr>)" for s
    using inv by (subst ledger_inv_cong [of _ db]) simp_all
  with seal inv show ?thesis by (cases fault) (simp_all add: seal_run_def transact_def)
next
  case (rebind en fault sid corpus xid xph)
  let ?ph = "policy_hash (en_sha256 en) (en_policy en)"
  let ?body = "\<lambda>db. rebind_body sid corpus xid xph ?ph (record_policy (en_policy en) ?ph db)"
  have recorded: "ledger_inv pol (record_policy (en_policy en) ?ph db)"
    using inv by (subst ledger_inv_cong [of _ db]) (simp_all add: record_policy_def)
  from rebind transact_db [of fault PolicyRebindAmbiguous ?body db] inv recorded
  show ?thesis by (auto simp: rebind_policy_def Let_def dest: rebind_body_inv)
qed

interpretation ledger: invariant_system "\<lambda>db. db = empty_ledger" "ledger_step sha pol"
  "ledger_inv pol" for sha pol
  by unfold_locales (auto simp: ledger_inv_empty intro: ledger_step_inv)

end
