(* ===== verification/LedgerTheorems.thy ===== *)
theory LedgerTheorems
  imports LedgerInvariants
begin

text \<open>
  What the ledger promises its callers: caps hold in every reachable state, failures change
  nothing, one idempotency key is charged once even across a commit whose outcome was lost,
  sealed runs stay closed, budget is never given back, and rebinding a corpus to another
  policy carries everything that was spent.
\<close>

section \<open>Frames of single operations\<close>

lemma record_policy_frame [simp]:
  "db_heads (record_policy p ph db) = db_heads db" "db_epochs (record_policy p ph db) = db_epochs db"
  "db_roots (record_policy p ph db) = db_roots db"
  "db_reservations (record_policy p ph db) = db_reservations db"
  "db_seals (record_policy p ph db) = db_seals db"
  by (simp_all add: record_policy_def)

lemma record_policy_hit: "db_policies db ph = Some x \<Longrightarrow> record_policy p ph db = db"
  by (simp add: record_policy_def insert_absent_hit)

lemma record_policy_known: "db_policies (record_policy p ph db) ph \<noteq> None"
  by (simp add: record_policy_def insert_absent_def split: option.split)

lemma lock_corpus_frame:
  assumes "lock_corpus fresh corpus ph db = Inr ((i, u), db2)"
  shows "db_policies db2 = db_policies db \<and> db_roots db2 = db_roots db \<and>
    db_reservations db2 = db_reservations db \<and> db_seals db2 = db_seals db \<and>
    db_attempts db2 = db_attempts db \<and>
    db_reservation_disclosures db2 = db_reservation_disclosures db \<and>
    db_epochs db \<subseteq>\<^sub>m db_epochs db2"
  using assms by (cases rule: lock_corpus_Inr) (simp_all add: map_le_new)

lemma lock_root_frame:
  assumes "lock_root rr ph corpus i db2 = Inr (usage, db3)"
  shows "db_policies db3 = db_policies db2 \<and> db_heads db3 = db_heads db2 \<and>
    db_epochs db3 = db_epochs db2 \<and> db_reservations db3 = db_reservations db2 \<and>
    db_seals db3 = db_seals db2 \<and> db_attempts db3 = db_attempts db2 \<and>
    db_reservation_disclosures db3 = db_reservation_disclosures db2"
  using assms
proof (rule lock_root_Inr)
  fix row
  assume "db3 = db2\<lparr>db_roots := (db_roots db2)(rr_evaluation_root_id rr \<mapsto> row)\<rparr>"
  then show ?thesis by simp
qed

lemma lock_corpus_found:
  assumes "db_heads db corpus = Some (Some i)" "db_epochs db i = Some e"
    "reconciled_corpus_usage corpus e = Inr u"
  shows "lock_corpus fresh corpus ph db = Inr ((i, u), db)"
proof -
  have "insert_absent corpus None (db_heads db) = db_heads db"
    by (rule insert_absent_hit) (rule assms(1))
  with assms show ?thesis by (simp add: lock_corpus_def Let_def)
qed

lemma lock_root_found:
  assumes "db_roots db (rr_evaluation_root_id rr) = Some row" "rt_corpus_ledger_id row = i"
    "rt_usage_snapshot row = StoredUsage u"
  shows "lock_root rr ph corpus i db = Inr (Some u, db)"
proof -
  have "insert_absent (rr_evaluation_root_id rr) x (db_roots db) = db_roots db" for x
    by (rule insert_absent_hit) (rule assms(1))
  with assms show ?thesis by (simp add: lock_root_def Let_def)
qed

lemma find_replay_hit:
  assumes "distinct (map row_key (db_reservations db))" "row \<in> set (db_reservations db)"
    "row_key row = (rr_evaluation_root_id rr, rr_run_id rr, ph, key)"
    "rw_corpus_manifest_id row = vm_corpus_manifest_id (rr_version rr)"
    "rw_corpus_ledger_id row = i"
  shows "\<exists>w. find_replay rr ph key i (Some u) cu db = Inr (Some w) \<and>
    rv_reservation_id w = rw_reservation_id row \<and> rv_replayed w \<and> rv_usage w = u \<and>
    rv_corpus_usage w = cu"
proof -
  have unique: "x = row" if "x \<in> set (db_reservations db)"
    "row_key x = (rr_evaluation_root_id rr, rr_run_id rr, ph, key)" for x
    using assms(1-3) that by (metis distinct_map inj_onD)
  have "\<exists>x. find (\<lambda>r. rw_evaluation_root_id r = rr_evaluation_root_id rr \<and>
      rw_run_id r = rr_run_id rr \<and> rw_policy_hash r = ph \<and> rw_idempotency_key r = key)
      (db_reservations db) = Some x"
    using assms(2,3) by (auto simp: find_None_iff row_key_def simp flip: not_None_eq)
  then obtain x where x: "find (\<lambda>r. rw_evaluation_root_id r = rr_evaluation_root_id rr \<and>
      rw_run_id r = rr_run_id rr \<and> rw_policy_hash r = ph \<and> rw_idempotency_key r = key)
      (db_reservations db) = Some x" by blast
  then have "x = row" by (intro unique) (auto simp: find_Some_iff row_key_def)
  with x assms show ?thesis by (simp add: find_replay_def)
qed

text \<open>A replay writes nothing but, at most, the policy's first sighting.\<close>

lemma reserve_body_replay_db:
  assumes "reserve_body en ids rr counter key db = Inr (v, db')" and "rv_replayed v"
    and inv: "ledger_inv pol db"
  shows "db' = record_policy (en_policy en) (policy_hash (en_sha256 en) (en_policy en)) db"
  using assms(1)
proof (cases rule: reserve_body_Inr)
  case (new ph corpus i cu usage db2 db3 out)
  with assms(2) show ?thesis by simp
next
  case (replay ph corpus i cu usage db2 db3)
  from replay(6) obtain row u where row: "row \<in> set (db_reservations db3)" "usage = Some u"
    "row_key row = (rr_evaluation_root_id rr, rr_run_id rr, ph, key)" "rw_corpus_ledger_id row = i"
    by (rule find_replay_Some)
  from replay(4) row(2) have "db3 = db2" by (auto elim: lock_root_Inr)
  note L = lock_corpus_frame [OF replay(3)] and R = lock_root_frame [OF replay(4)]
  from row(1) L R have "row \<in> set (db_reservations db)" by simp
  with inv have ok: "row_ok db row" by (simp add: ledger_inv_def reservations_ok_def)
  then obtain root where root: "db_roots db (rw_evaluation_root_id row) = Some root"
    "rt_corpus_ledger_id root = i" using row(4) by (auto simp: row_ok_def)
  with inv have "root_ok pol db (rw_evaluation_root_id row) root"
    by (simp add: ledger_inv_def roots_ok_def)
  with root(2) have "db_epochs db i \<noteq> None" by (auto simp: root_ok_def)
  with replay(3) have "db2 = record_policy (en_policy en) ph db"
    by (cases rule: lock_corpus_Inr) simp_all
  with \<open>db3 = db2\<close> replay(1,7) show ?thesis by simp
qed

lemma locked_usage_ok:
  assumes inv: "ledger_inv pol db2" and "lock_root rr ph corpus i db2 = Inr (Some u, db3)"
  shows "usage_wf u \<and> usage_within (pol (us_policy_hash u)) u"
  using assms(2)
proof (rule lock_root_Inr)
  fix row
  assume "(db_roots db2 (rr_evaluation_root_id rr) = None \<and> Some u = None \<and>
       row = \<lparr>rt_policy_hash = ph, rt_task_level = rr_task_level rr, rt_corpus_manifest_id = corpus,
         rt_corpus_ledger_id = i, rt_usage_snapshot = NullUsage\<rparr>) \<or>
     (db_roots db2 (rr_evaluation_root_id rr) = Some row \<and> db3 = db2 \<and>
       (Some u = None \<and> rt_usage_snapshot row = NullUsage \<or>
        (\<exists>v. Some u = Some v \<and> rt_usage_snapshot row = StoredUsage v)))"
  then have row: "db_roots db2 (rr_evaluation_root_id rr) = Some row"
    "rt_usage_snapshot row = StoredUsage u" by auto
  with inv have "root_ok pol db2 (rr_evaluation_root_id rr) row"
    by (simp add: ledger_inv_def roots_ok_def)
  with row(2) show ?thesis by (auto simp: root_ok_def)
qed

section \<open>Rows persist\<close>

definition reserved_as :: "ledger_db \<Rightarrow> string \<times> string \<times> string \<times> string \<Rightarrow> string \<Rightarrow> bool" where
  "reserved_as db key i \<longleftrightarrow>
     (\<exists>r \<in> set (db_reservations db). row_key r = key \<and> rw_reservation_id r = i)"

lemma reserve_body_keeps_rows:
  assumes "reserve_body en ids rr counter key db = Inr (v, db')"
  shows "\<exists>rows. db_reservations db' = db_reservations db @ rows"
  using assms
proof (cases rule: reserve_body_Inr)
  case (replay ph corpus i cu usage db2 db3)
  with lock_corpus_frame [OF replay(3)] lock_root_frame [OF replay(4)] show ?thesis by simp
next
  case (new ph corpus i cu usage db2 db3 out)
  with lock_corpus_frame [OF new(3)] lock_root_frame [OF new(4)] show ?thesis
    by (auto simp: write_reservation_def write_scopes_def update_epoch_def update_root_def Let_def
        split: if_splits)
qed

lemma record_attempt_keeps_rows:
  assumes "record_attempt_body a db = Inr (x, db')" and "reserved_as db k i"
  shows "reserved_as db' k i"
proof -
  let ?f = "\<lambda>r. if rw_reservation_id r = at_reservation_id a
    then r\<lparr>rw_state := attempt_state (at_outcome a)\<rparr> else r"
  from assms(2) obtain r where r: "r \<in> set (db_reservations db)" "row_key r = k"
    "rw_reservation_id r = i" by (auto simp: reserved_as_def)
  from assms(1) have "db_reservations db' = map ?f (db_reservations db)"
    by (auto simp: record_attempt_body_def split: if_splits)
  with r(1) have "?f r \<in> set (db_reservations db')" by simp
  moreover have "row_key (?f r) = k" "rw_reservation_id (?f r) = i"
    using r by (simp_all add: row_key_def)
  ultimately show ?thesis unfolding reserved_as_def by blast
qed

lemma rebind_body_keeps_rows:
  "rebind_body sid corpus xid xph nph db = Inr (res, db') \<Longrightarrow>
    db_reservations db' = db_reservations db \<and> db_seals db' = db_seals db \<and> db_roots db' = db_roots db"
  by (erule rebind_body_Inr) simp_all

lemma ledger_step_keeps_rows:
  assumes "ledger_step sha pol db db'" and "reserved_as db k i"
  shows "reserved_as db' k i"
  using assms(1)
proof cases
  case (reserve en fault ids rr counter key)
  with transact_db [of fault ReservationAmbiguous "reserve_body en ids rr counter key" db] assms(2)
  show ?thesis by (auto simp: check_and_reserve_def reserved_as_def dest!: reserve_body_keeps_rows)
next
  case (attempt fault a)
  with transact_db [of fault ReservationAmbiguous "record_attempt_body a" db] assms(2)
  show ?thesis by (auto simp: record_attempt_def dest: record_attempt_keeps_rows)
next
  case (seal fault root run reason)
  with assms(2) show ?thesis by (cases fault) (simp_all add: seal_run_def transact_def reserved_as_def)
next
  case (rebind en fault sid corpus xid xph)
  let ?ph = "policy_hash (en_sha256 en) (en_policy en)"
  from rebind transact_db [of fault PolicyRebindAmbiguous
      "\<lambda>db. rebind_body sid corpus xid xph ?ph (record_policy (en_policy en) ?ph db)" db] assms(2)
  show ?thesis by (auto simp: rebind_policy_def Let_def reserved_as_def dest!: rebind_body_keeps_rows)
qed

lemma ledger_steps_keep_rows:
  "(ledger_step sha pol)\<^sup>*\<^sup>* db db' \<Longrightarrow> reserved_as db k i \<Longrightarrow> reserved_as db' k i"
  by (induction rule: rtranclp_induct) (auto intro: ledger_step_keeps_rows)

section \<open>A concrete ledger\<close>

text \<open>The first reservation of an empty ledger, given what the enforcer makes of it.\<close>

lemma apply_reservation_first_epoch:
  "apply_reservation en ex (Some (empty_corpus_usage (vm_corpus_manifest_id (rr_version rr))
     (policy_hash (en_sha256 en) (en_policy en)))) rr counter =
   apply_reservation en ex None rr counter"
  by (simp add: apply_reservation_def Let_def apply_corpus_usage_def)

lemma first_reservation:
  fixes en rr
  defines "ph \<equiv> policy_hash (en_sha256 en) (en_policy en)"
    and "corpus \<equiv> vm_corpus_manifest_id (rr_version rr)"
  assumes A: "apply_reservation en None None rr counter = Inr out"
    and R: "check_and_reserve NoFault en ids rr counter key empty_ledger = (res, db)"
  shows "res = Inr \<lparr>rv_reservation_id = fresh_reservation_id ids, rv_idempotency_key = key,
      rv_evaluation_root_id = rr_evaluation_root_id rr, rv_run_id = rr_run_id rr,
      rv_policy_hash = ph, rv_corpus_manifest_id = corpus, rv_route = rr_route rr,
      rv_state = Reserved, rv_usage = ro_usage out, rv_corpus_usage = ro_corpus_usage out,
      rv_replayed = False\<rparr>"
    and "db_heads db = [corpus \<mapsto> Some (fresh_ledger_id ids)]"
    and "db_epochs db = [fresh_ledger_id ids \<mapsto> \<lparr>ce_corpus_manifest_id = corpus, ce_policy_hash = ph,
      ce_corpus_usage = Some (ro_corpus_usage out),
      ce_unique_excerpts = length (co_disclosure_ids (ro_corpus_usage out)),
      ce_unique_tokens = co_unique_tokens (ro_corpus_usage out),
      ce_unique_bytes = co_unique_bytes (ro_corpus_usage out),
      ce_predecessor_ledger_id = None\<rparr>]"
    and "db_roots db = [rr_evaluation_root_id rr \<mapsto> \<lparr>rt_policy_hash = ph, rt_task_level = rr_task_level rr,
      rt_corpus_manifest_id = corpus, rt_corpus_ledger_id = fresh_ledger_id ids,
      rt_usage_snapshot = StoredUsage (ro_usage out)\<rparr>]"
proof -
  have A': "apply_reservation en None (Some (empty_corpus_usage corpus ph)) rr counter = Inr out"
    unfolding ph_def corpus_def apply_reservation_first_epoch by (rule A)
  have L: "lock_corpus i corpus ph (record_policy p ph empty_ledger) = Inr ((i, empty_corpus_usage corpus ph),
      record_policy p ph empty_ledger\<lparr>db_heads := [corpus \<mapsto> Some i],
        db_epochs := [i \<mapsto> first_epoch corpus ph]\<rparr>)" for i p
    by (simp add: lock_corpus_def Let_def insert_absent_def insert_unique_def record_policy_def
        empty_ledger_def reconciled_corpus_usage_def first_epoch_def empty_corpus_usage_def)
  note eval = R [unfolded check_and_reserve_def transact_def fault.case reserve_body_def Let_def
      ph_def [symmetric] corpus_def [symmetric] L bind_result.simps prod.case]
  show "res = Inr \<lparr>rv_reservation_id = fresh_reservation_id ids, rv_idempotency_key = key,
      rv_evaluation_root_id = rr_evaluation_root_id rr, rv_run_id = rr_run_id rr,
      rv_policy_hash = ph, rv_corpus_manifest_id = corpus, rv_route = rr_route rr,
      rv_state = Reserved, rv_usage = ro_usage out, rv_corpus_usage = ro_corpus_usage out,
      rv_replayed = False\<rparr>"
    and "db_heads db = [corpus \<mapsto> Some (fresh_ledger_id ids)]"
    and "db_epochs db = [fresh_ledger_id ids \<mapsto> \<lparr>ce_corpus_manifest_id = corpus, ce_policy_hash = ph,
      ce_corpus_usage = Some (ro_corpus_usage out),
      ce_unique_excerpts = length (co_disclosure_ids (ro_corpus_usage out)),
      ce_unique_tokens = co_unique_tokens (ro_corpus_usage out),
      ce_unique_bytes = co_unique_bytes (ro_corpus_usage out),
      ce_predecessor_ledger_id = None\<rparr>]"
    and "db_roots db = [rr_evaluation_root_id rr \<mapsto> \<lparr>rt_policy_hash = ph, rt_task_level = rr_task_level rr,
      rt_corpus_manifest_id = corpus, rt_corpus_ledger_id = fresh_ledger_id ids,
      rt_usage_snapshot = StoredUsage (ro_usage out)\<rparr>]"
    using eval A'
    by (auto simp: lock_root_def Let_def insert_absent_def record_policy_def empty_ledger_def
        require_unsealed_def find_replay_def write_reservation_def write_scopes_def update_epoch_def
        update_root_def first_epoch_def)
qed

definition sample_ids :: fresh_ids where
  "sample_ids = \<lparr>fresh_ledger_id = ''epoch-1'', fresh_reservation_id = ''res-1''\<rparr>"

definition sample_reserved :: reservation where
  "sample_reserved = \<lparr>rv_reservation_id = ''res-1'', rv_idempotency_key = ''key'',
     rv_evaluation_root_id = ''root'', rv_run_id = ''run'',
     rv_policy_hash = us_policy_hash (ro_usage sample_outcome), rv_corpus_manifest_id = ''44'',
     rv_route = sample_route, rv_state = Reserved, rv_usage = ro_usage sample_outcome,
     rv_corpus_usage = ro_corpus_usage sample_outcome, rv_replayed = False\<rparr>"

definition sample_ledger :: ledger_db where
  "sample_ledger = snd (check_and_reserve NoFault sample_enforcer sample_ids sample_reservation
     (Counter sample_counter) ''key'' empty_ledger)"

lemma sample_policy_hash:
  "policy_hash sample_hash sample_policy = us_policy_hash (ro_usage sample_outcome)"
proof -
  have "us_policy_hash (ro_usage sample_outcome) = policy_hash (en_sha256 sample_enforcer)
      (en_policy sample_enforcer)"
    using sample_apply by (elim apply_reservation_Inr apply_usage_Inr) simp
  then show ?thesis by (simp add: sample_enforcer_def)
qed

lemmas sample_first = first_reservation [OF sample_apply, of sample_ids "''key''", OF prod.collapse [symmetric],
    folded sample_ledger_def]

lemma sample_reserve_result:
  "fst (check_and_reserve NoFault sample_enforcer sample_ids sample_reservation
     (Counter sample_counter) ''key'' empty_ledger) = Inr sample_reserved"
  unfolding sample_first(1) using sample_policy_hash
  by (simp add: sample_reserved_def sample_enforcer_def sample_ids_def
      sample_reservation_def sample_version_def)

lemma sample_tables:
  "db_heads sample_ledger = [''44'' \<mapsto> Some ''epoch-1'']"
  "db_epochs sample_ledger = [''epoch-1'' \<mapsto> \<lparr>ce_corpus_manifest_id = ''44'',
     ce_policy_hash = us_policy_hash (ro_usage sample_outcome),
     ce_corpus_usage = Some (ro_corpus_usage sample_outcome),
     ce_unique_excerpts = length (co_disclosure_ids (ro_corpus_usage sample_outcome)),
     ce_unique_tokens = co_unique_tokens (ro_corpus_usage sample_outcome),
     ce_unique_bytes = co_unique_bytes (ro_corpus_usage sample_outcome),
     ce_predecessor_ledger_id = None\<rparr>]"
  "db_roots sample_ledger = [''root'' \<mapsto> \<lparr>rt_policy_hash = us_policy_hash (ro_usage sample_outcome),
     rt_task_level = L1, rt_corpus_manifest_id = ''44'', rt_corpus_ledger_id = ''epoch-1'',
     rt_usage_snapshot = StoredUsage (ro_usage sample_outcome)\<rparr>]"
  unfolding sample_first(2-4) using sample_policy_hash
  by (simp_all add: sample_enforcer_def sample_ids_def sample_reservation_def sample_version_def)

lemma sample_reserve:
  "check_and_reserve NoFault sample_enforcer sample_ids sample_reservation
     (Counter sample_counter) ''key'' empty_ledger = (Inr sample_reserved, sample_ledger)"
  unfolding sample_ledger_def sample_reserve_result [symmetric] by simp

definition sample_registry :: "string \<Rightarrow> egress_policy" where
  "sample_registry ph = sample_policy"

lemma sample_known: "known_enforcer sample_hash sample_registry sample_enforcer"
  by (simp add: known_enforcer_def sample_enforcer_def sample_registry_def)

lemma sample_ledger_step: "ledger_step sample_hash sample_registry empty_ledger sample_ledger"
  unfolding sample_ledger_def by (rule ledger_step.reserve [OF sample_known])

lemma empty_ledger_reachable:
  "reachable_from (\<lambda>db. db = empty_ledger) (ledger_step sha pol) empty_ledger"
  by (rule reachable_from.start) simp

lemma sample_ledger_reachable:
  "reachable_from (\<lambda>db. db = empty_ledger) (ledger_step sample_hash sample_registry) sample_ledger"
  by (rule reachable_from.advance [OF empty_ledger_reachable sample_ledger_step])

section \<open>Properties\<close>

text \<open>
  C2. Caps hold in the database. Whatever sequence of reservations, attempts, seals and policy
  rebinds has run, with whatever connection faults, every root's stored usage is exact and
  within the caps of the policy its epoch is bound to, and every epoch's JSON agrees with its
  columns and has its totals and its document accounts each within its policy's caps, or exactly as
  it inherited them from its predecessor when the corpus was bound to a new policy, which checks no
  caps.
\<close>

theorem ledger_caps_hold:
  assumes "reachable_from (\<lambda>db. db = empty_ledger) (ledger_step sha pol) db"
  shows "(\<forall>k r. db_roots db k = Some r \<longrightarrow> (\<exists>u. rt_usage_snapshot r = StoredUsage u \<and>
      us_policy_hash u = rt_policy_hash r \<and> usage_wf u \<and> usage_within (pol (rt_policy_hash r)) u)) \<and>
    (\<forall>i e. db_epochs db i = Some e \<longrightarrow> (\<exists>u.
      reconciled_corpus_usage (ce_corpus_manifest_id e) e = Inr u \<and> corpus_wf u \<and>
      corpus_bounded (pol (ce_policy_hash e)) (pred_usage db e) u))"
proof -
  have inv: "ledger_inv pol db" using ledger.reachable_inv [OF assms] .
  have roots: "\<exists>u. rt_usage_snapshot r = StoredUsage u \<and> us_policy_hash u = rt_policy_hash r \<and>
      usage_wf u \<and> usage_within (pol (rt_policy_hash r)) u" if "db_roots db k = Some r" for k r
  proof -
    have "root_ok pol db k r" using inv that by (simp add: ledger_inv_def roots_ok_def)
    then show ?thesis by (auto simp: root_ok_def)
  qed
  have epochs: "\<exists>u. reconciled_corpus_usage (ce_corpus_manifest_id e) e = Inr u \<and> corpus_wf u \<and>
      corpus_bounded (pol (ce_policy_hash e)) (pred_usage db e) u" if e: "db_epochs db i = Some e" for i e
  proof -
    have "epoch_ok e" using inv e by (simp add: ledger_inv_def epochs_ok_def)
    then obtain u where u: "reconciled_corpus_usage (ce_corpus_manifest_id e) e = Inr u" "corpus_wf u"
      by (auto simp: epoch_ok_def)
    then have "ce_corpus_usage e = Some u" by (simp add: reconciled_Inr)
    with inv e have "corpus_bounded (pol (ce_policy_hash e)) (pred_usage db e) u"
      unfolding ledger_inv_def corpus_caps_ok_def by blast
    with u show ?thesis by blast
  qed
  from roots epochs show ?thesis by blast
qed

theorem ledger_caps_hold_witness:
  "db_roots sample_ledger ''root'' \<noteq> None \<and> usage_within sample_policy (ro_usage sample_outcome)"
proof -
  from ledger_caps_hold [OF sample_ledger_reachable]
  have "\<forall>k r. db_roots sample_ledger k = Some r \<longrightarrow> (\<exists>u. rt_usage_snapshot r = StoredUsage u \<and>
      usage_within sample_policy u)" unfolding sample_registry_def by blast
  from this [rule_format, of "''root''"] show ?thesis by (simp add: sample_tables)
qed

text \<open>
  A reservation that is granted fits: when a reachable ledger returns a reservation that is
  not a replay, the root's usage it stored is within the policy, and the corpus totals and the
  account of the request's document are within the policy's shares, even where an inherited
  epoch was not.
\<close>

theorem granted_reservation_fits:
  assumes "reachable_from (\<lambda>db. db = empty_ledger) (ledger_step sha pol) db"
    and en: "known_enforcer sha pol en"
    and granted: "check_and_reserve fault en ids rr counter key db = (Inr v, db')" "\<not> rv_replayed v"
  shows "usage_wf (rv_usage v) \<and> usage_within (en_policy en) (rv_usage v) \<and>
    within (ep_corpus_unique (en_policy en)) (length (co_disclosure_ids (rv_corpus_usage v)))
      (co_unique_tokens (rv_corpus_usage v)) (co_unique_bytes (rv_corpus_usage v)) \<and>
    (\<exists>a \<in> set (co_document_usage (rv_corpus_usage v)).
      du_document_id a = vm_document_id (rr_version rr) \<and> document_within (en_policy en) a)"
proof -
  have inv: "ledger_inv pol (record_policy p ph db)" for p ph
    using ledger.reachable_inv [OF assms(1)]
    by (subst ledger_inv_cong [of _ db]) simp_all
  from granted(1) have body: "reserve_body en ids rr counter key db = Inr (v, db')"
    by (simp add: check_and_reserve_def transact_Inr)
  then show ?thesis
  proof (cases rule: reserve_body_Inr)
    case (replay ph corpus i cu usage db2 db3)
    then have "rv_replayed v" by (auto elim: find_replay_Some)
    with granted(2) show ?thesis by simp
  next
    case (new ph corpus i cu usage db2 db3 out)
    note L = lock_corpus_inv [OF new(3) inv]
    have U: "usage_wf u \<and> usage_within (pol (us_policy_hash u)) u" if "usage = Some u" for u
      using locked_usage_ok [of pol db2 rr ph corpus i u db3] new(4) that L by simp
    from new(7) show ?thesis
    proof (rule apply_reservation_Inr)
      fix d
      let ?ph = "policy_hash (en_sha256 en) (en_policy en)"
      let ?k = "vm_document_id (rr_version rr)"
      assume AU: "apply_usage usage rr d ?ph = Inr (ro_usage out)"
        and AC: "apply_corpus_usage (Some cu) rr d ?ph = Inr (ro_corpus_usage out)"
        and S: "policy_snapshot (en_policy en) (rr_task_level rr)
          (payload_kind (rr_projected_payload rr)) ?k = Some (dr_cap_snapshot d)"
        and T: "totals_of_facts d"
      have ph: "pol ?ph = en_policy en" using en by (auto simp: known_enforcer_def)
      have u: "usage_wf (ro_usage out)" "usage_within (en_policy en) (ro_usage out)"
        using U apply_usage_header [OF AU] ph
        by (auto intro!: apply_usage_wf [OF AU _ T] apply_usage_within [OF AU _ S])
      have c: "within (ep_corpus_unique (en_policy en)) (length (co_disclosure_ids (ro_corpus_usage out)))
          (co_unique_tokens (ro_corpus_usage out)) (co_unique_bytes (ro_corpus_usage out)) \<and>
        (\<exists>a \<in> set (co_document_usage (ro_corpus_usage out)). du_document_id a = ?k \<and>
          document_within (en_policy en) a)"
        using AC
      proof (rule apply_corpus_usage_Inr)
        fix w
        assume docs: "apply_document_usage w ?k d = Inr (co_document_usage (ro_corpus_usage out))"
          and C: "length (co_disclosure_ids (ro_corpus_usage out)) \<le> cap_excerpts (cs_corpus_unique (dr_cap_snapshot d))"
            "co_unique_tokens (ro_corpus_usage out) \<le> cap_tokens (cs_corpus_unique (dr_cap_snapshot d))"
            "co_unique_bytes (ro_corpus_usage out) \<le> cap_bytes (cs_corpus_unique (dr_cap_snapshot d))"
        let ?new = "charge_document (current_document w ?k) (dr_disclosures d)"
        have "document_within (en_policy en) ?new"
          unfolding document_within_def
          by (simp add: current_document_id policy_snapshot_Some(1) [OF S] within_def
              apply_document_usage_Inr(2-4) [OF docs])
        moreover have "du_document_id ?new = ?k" by (simp add: current_document_id)
        ultimately have "\<exists>a \<in> set (co_document_usage (ro_corpus_usage out)).
            du_document_id a = ?k \<and> document_within (en_policy en) a"
          using apply_document_usage_accounts(3) [OF docs] by blast
        with C policy_snapshot_Some(2) [OF S] show ?thesis by (simp add: within_def)
      qed
      from u c new show ?thesis by simp
    qed
  qed
qed

theorem granted_reservation_fits_witness:
  "usage_within sample_policy (rv_usage sample_reserved) \<and>
   within (ep_corpus_unique sample_policy) (length (co_disclosure_ids (rv_corpus_usage sample_reserved)))
     (co_unique_tokens (rv_corpus_usage sample_reserved)) (co_unique_bytes (rv_corpus_usage sample_reserved))"
  using granted_reservation_fits [OF empty_ledger_reachable sample_known sample_reserve]
  by (simp add: sample_policy_of_enforcer sample_reserved_def)

lemma reserve_body_row:
  assumes "reserve_body en ids rr counter key db = Inr (v, db')"
  shows "reserved_as db' (rr_evaluation_root_id rr, rr_run_id rr,
    policy_hash (en_sha256 en) (en_policy en), key) (rv_reservation_id v)"
  using assms
proof (cases rule: reserve_body_Inr)
  case (replay ph corpus i cu usage db2 db3)
  then show ?thesis by (auto elim!: find_replay_Some simp: reserved_as_def)
next
  case (new ph corpus i cu usage db2 db3 out)
  then show ?thesis
    by (auto simp: write_reservation_def write_scopes_def update_epoch_def update_root_def Let_def
        reserved_as_def row_key_def split: if_splits)
qed

lemma reserved_replays:
  assumes inv: "ledger_inv pol db"
    and row: "reserved_as db (rr_evaluation_root_id rr, rr_run_id rr,
      policy_hash (en_sha256 en) (en_policy en), key) i"
    and R: "reserve_body en ids rr counter key db = Inr (w, db')"
  shows "rv_replayed w \<and> rv_reservation_id w = i"
proof -
  let ?key = "(rr_evaluation_root_id rr, rr_run_id rr, policy_hash (en_sha256 en) (en_policy en), key)"
  from row obtain r where r: "r \<in> set (db_reservations db)" "row_key r = ?key"
    "rw_reservation_id r = i" by (auto simp: reserved_as_def)
  from R show ?thesis
  proof (cases rule: reserve_body_Inr)
    case (new ph corpus j cu usage db2 db3 out)
    have "db_reservations db3 = db_reservations db"
      using lock_corpus_frame [OF new(3)] lock_root_frame [OF new(4)] by simp
    with new(1,6) have "?key \<notin> row_key ` set (db_reservations db)" by (simp add: find_replay_None)
    with r(1,2) show ?thesis by (metis image_eqI)
  next
    case (replay ph corpus j cu usage db2 db3)
    from replay(6) obtain r' where r': "r' \<in> set (db_reservations db3)" "row_key r' = ?key"
      "rv_reservation_id w = rw_reservation_id r'" "rv_replayed w"
      unfolding replay(1) by (rule find_replay_Some)
    have "db_reservations db3 = db_reservations db"
      using lock_corpus_frame [OF replay(3)] lock_root_frame [OF replay(4)] by simp
    with r'(1) have "r' \<in> set (db_reservations db)" by simp
    with r r'(2) inv have "r' = r"
      unfolding ledger_inv_def reservations_ok_def by (metis distinct_map inj_onD)
    with r(3) r'(3,4) show ?thesis by simp
  qed
qed

text \<open>
  C3. One key, one charge. Once a reservation was granted under a key, any later call with the
  same root, run, policy and key, after whatever happened in between, either fails or returns
  that reservation as a replay, and in both cases leaves every account, reservation and head
  as it found them.
\<close>

theorem idempotency_key_charges_once:
  assumes reach: "reachable_from (\<lambda>db. db = empty_ledger) (ledger_step sha pol) db"
    and en: "known_enforcer sha pol en"
    and granted: "check_and_reserve NoFault en ids rr counter key db = (Inr v, db1)"
    and later: "(ledger_step sha pol)\<^sup>*\<^sup>* db1 db2"
    and again: "check_and_reserve fault en ids' rr' counter' key db2 = (res, db3)"
    and same: "rr_evaluation_root_id rr' = rr_evaluation_root_id rr" "rr_run_id rr' = rr_run_id rr"
  shows "(\<forall>w. res = Inr w \<longrightarrow> rv_replayed w \<and> rv_reservation_id w = rv_reservation_id v) \<and>
    db_epochs db3 = db_epochs db2 \<and> db_roots db3 = db_roots db2 \<and> db_heads db3 = db_heads db2 \<and>
    db_reservations db3 = db_reservations db2"
proof -
  let ?ph = "policy_hash (en_sha256 en) (en_policy en)"
  have body: "reserve_body en ids rr counter key db = Inr (v, db1)"
    using granted by (simp add: check_and_reserve_def transact_Inr)
  have "ledger_step sha pol db db1"
    using ledger_step.reserve [OF en, of db NoFault ids rr counter key] granted by simp
  then have inv1: "ledger_inv pol db1"
    by (rule ledger_step_inv) (rule ledger.reachable_inv [OF reach])
  have inv2: "ledger_inv pol db2" using later inv1 by (rule ledger.steps_inv)
  have row: "reserved_as db2 (rr_evaluation_root_id rr', rr_run_id rr', ?ph, key) (rv_reservation_id v)"
    using ledger_steps_keep_rows [OF later reserve_body_row [OF body]] same by simp
  from again [unfolded check_and_reserve_def] show ?thesis
  proof (cases rule: transact_cases)
    case (rolled_back e)
    then show ?thesis by simp
  next
    case (committed w)
    from reserved_replays [OF inv2 row committed(1)]
    have w: "rv_replayed w" "rv_reservation_id w = rv_reservation_id v" by simp_all
    from reserve_body_replay_db [OF committed(1) w(1) inv2]
    have "db3 = record_policy (en_policy en) ?ph db2" .
    with w committed(2) show ?thesis by auto
  qed
qed

lemma replay_after_commit:
  assumes body: "reserve_body en ids rr counter key db = Inr (v, db1)" and new: "\<not> rv_replayed v"
    and inv: "ledger_inv pol db" and en: "known_enforcer sha pol en"
  shows "\<exists>w. reserve_body en ids' rr counter' key db1 = Inr (w, db1) \<and> rv_replayed w \<and>
    rv_reservation_id w = rv_reservation_id v \<and> rv_usage w = rv_usage v \<and>
    rv_corpus_usage w = rv_corpus_usage v"
  using body
proof (cases rule: reserve_body_Inr)
  case (replay ph corpus i cu usage db2 db3)
  then have "rv_replayed v" by (auto elim: find_replay_Some)
  with new show ?thesis by simp
next
  case (new ph corpus i cu usage db2 db3 out)
  have inv1: "ledger_inv pol db1" using reserve_body_inv [OF body inv en] .
  note L = lock_corpus_inv [OF new(3)] and F = lock_corpus_frame [OF new(3)]
    and G = lock_root_frame [OF new(4)]
  have recorded: "ledger_inv pol (record_policy (en_policy en) ph db)"
    using inv by (subst ledger_inv_cong [of _ db]) simp_all
  from L [OF recorded] obtain e where e: "db_epochs db2 i = Some e"
    "db_heads db2 corpus = Some (Some i)" by blast
  from new(4) obtain row where row: "db_roots db3 (rr_evaluation_root_id rr) = Some row"
    "rt_corpus_ledger_id row = i" by (rule lock_root_Inr)
  have e3: "db_epochs db3 i = Some e" using e(1) G by simp
  note W = write_reservation_Inr [OF new(8) e3 row(1)]
  have policy: "db_policies db1 ph \<noteq> None"
    using W(8) G F record_policy_known [of "en_policy en" ph db] by simp
  then obtain sv where sv: "db_policies db1 ph = Some sv" by blast
  note known = record_policy_hit [OF sv]
  have head: "db_heads db1 corpus = Some (Some i)" using W(2) G e(2) by simp
  let ?e = "e\<lparr>ce_corpus_usage := Some (ro_corpus_usage out),
      ce_unique_excerpts := length (co_disclosure_ids (ro_corpus_usage out)),
      ce_unique_tokens := co_unique_tokens (ro_corpus_usage out),
      ce_unique_bytes := co_unique_bytes (ro_corpus_usage out)\<rparr>"
  have at: "db_epochs db1 i = Some ?e" using W(3) by simp
  with inv1 have "epoch_ok ?e" unfolding ledger_inv_def epochs_ok_def by blast
  moreover have "ce_corpus_manifest_id e = corpus"
    using L [OF recorded] e(1) by (auto simp: reconciled_Inr)
  ultimately have rec: "reconciled_corpus_usage corpus ?e = Inr (ro_corpus_usage out)"
    by (auto simp: epoch_ok_def reconciled_Inr)
  have root: "db_roots db1 (rr_evaluation_root_id rr) =
      Some (row\<lparr>rt_usage_snapshot := StoredUsage (ro_usage out)\<rparr>)" using W(4) by simp
  let ?row = "\<lparr>rw_reservation_id = fresh_reservation_id ids, rw_idempotency_key = key,
    rw_evaluation_root_id = rr_evaluation_root_id rr, rw_run_id = rr_run_id rr, rw_policy_hash = ph,
    rw_corpus_manifest_id = corpus, rw_corpus_ledger_id = i, rw_stage = rr_stage rr,
    rw_route = rr_route rr, rw_model_id = rr_model_id rr, rw_state = Reserved\<rparr>"
  have "\<exists>w. find_replay rr ph key i (Some (ro_usage out)) (ro_corpus_usage out) db1 = Inr (Some w) \<and>
      rv_reservation_id w = rw_reservation_id ?row \<and> rv_replayed w \<and> rv_usage w = ro_usage out \<and>
      rv_corpus_usage w = ro_corpus_usage out"
    using inv1 W(5) new(2)
    by (intro find_replay_hit [where row = ?row]) (simp_all add: ledger_inv_def reservations_ok_def row_key_def)
  then obtain w where w: "find_replay rr ph key i (Some (ro_usage out)) (ro_corpus_usage out) db1 =
      Inr (Some w)" "rv_reservation_id w = fresh_reservation_id ids" "rv_replayed w"
      "rv_usage w = ro_usage out" "rv_corpus_usage w = ro_corpus_usage out" by auto
  have unsealed: "require_unsealed rr db1 = Inr ()"
    using new(5) W(6) by (simp add: require_unsealed_def)
  have "reserve_body en ids' rr counter' key db1 = Inr (w, db1)"
    unfolding reserve_body_def Let_def new(1) [symmetric] new(2) [symmetric] known
    using lock_corpus_found [OF head at rec] lock_root_found [OF root] row(2) unsealed w(1)
    by simp
  with w new(10-12) show ?thesis by auto
qed

text \<open>
  C4. A lost commit is charged exactly once. When the connection drops while a reservation
  commits, the caller is told only that the outcome is ambiguous; retrying with the same key
  ends, whether or not the server had committed, in the very database an undisturbed call
  would have produced, and returns the same reservation.
\<close>

theorem ambiguous_commit_charges_once:
  assumes reach: "reachable_from (\<lambda>db. db = empty_ledger) (ledger_step sha pol) db"
    and en: "known_enforcer sha pol en"
    and undisturbed: "check_and_reserve NoFault en ids rr counter key db = (Inr v, db')"
    and new: "\<not> rv_replayed v"
  shows "check_and_reserve (CommitDrops c) en ids rr counter key db =
      (Inl ReservationAmbiguous, if c then db' else db) \<and>
    (\<exists>w. check_and_reserve NoFault en ids rr counter key (if c then db' else db) = (Inr w, db') \<and>
      rv_reservation_id w = rv_reservation_id v \<and> rv_usage w = rv_usage v \<and>
      rv_corpus_usage w = rv_corpus_usage v)"
proof -
  have body: "reserve_body en ids rr counter key db = Inr (v, db')"
    using undisturbed by (simp add: check_and_reserve_def transact_Inr)
  from replay_after_commit [OF body new ledger.reachable_inv [OF reach] en] obtain w where
    "reserve_body en ids rr counter key db' = Inr (w, db')"
    "rv_reservation_id w = rv_reservation_id v" "rv_usage w = rv_usage v"
    "rv_corpus_usage w = rv_corpus_usage v" by blast
  with body show ?thesis by (cases c) (simp_all add: check_and_reserve_def transact_def)
qed

theorem ambiguous_commit_charges_once_witness:
  "check_and_reserve (CommitDrops True) sample_enforcer sample_ids sample_reservation
     (Counter sample_counter) ''key'' empty_ledger = (Inl ReservationAmbiguous, sample_ledger)"
  using ambiguous_commit_charges_once [OF empty_ledger_reachable sample_known sample_reserve, of True]
  by (simp add: sample_reserved_def)

theorem idempotency_key_charges_once_witness:
  "db_roots (snd (check_and_reserve NoFault sample_enforcer sample_ids sample_reservation
     (Counter sample_counter) ''key'' sample_ledger)) = db_roots sample_ledger"
  using idempotency_key_charges_once [OF empty_ledger_reachable sample_known sample_reserve
      rtranclp.rtrancl_refl _ refl refl]
  by (metis prod.collapse)

end
