(* ===== verification/LedgerHistory.thy ===== *)
theory LedgerHistory
  imports LedgerTheorems
begin

text \<open>
  How a ledger moves: seals are for ever, spending only grows, and rebinding a corpus to
  another policy carries over what was spent.
\<close>

section \<open>Seals\<close>

lemma reserve_body_seals:
  assumes "reserve_body en ids rr counter key db = Inr (v, db')"
  shows "db_seals db' = db_seals db \<and> db_seals db (rr_evaluation_root_id rr, rr_run_id rr) = None"
  using assms
proof (cases rule: reserve_body_Inr)
  case (replay ph corpus i cu usage db2 db3)
  with lock_corpus_frame [OF replay(3)] lock_root_frame [OF replay(4)] show ?thesis
    by (simp add: require_unsealed_def split: option.splits)
next
  case (new ph corpus i cu usage db2 db3 out)
  have "db_seals db' = db_seals db3"
    using new(8) by (auto simp: write_reservation_def write_scopes_def update_epoch_def
        update_root_def Let_def split: if_splits)
  with new lock_corpus_frame [OF new(3)] lock_root_frame [OF new(4)] show ?thesis
    by (simp add: require_unsealed_def split: option.splits)
qed

lemma record_attempt_frame:
  assumes "record_attempt_body a db = Inr (x, db')"
  shows "db_seals db' = db_seals db \<and> db_heads db' = db_heads db \<and> db_epochs db' = db_epochs db \<and>
    db_roots db' = db_roots db"
proof -
  from assms have "db' = db\<lparr>db_attempts := db_attempts db @ [a],
      db_reservations := map (\<lambda>r. if rw_reservation_id r = at_reservation_id a
        then r\<lparr>rw_state := attempt_state (at_outcome a)\<rparr> else r) (db_reservations db)\<rparr>"
    by (auto simp: record_attempt_body_def split: if_splits)
  then show ?thesis by simp
qed

lemma ledger_step_seals:
  assumes "ledger_step sha pol db db'" and "db_seals db k \<noteq> None"
  shows "db_seals db' k \<noteq> None"
  using assms(1)
proof cases
  case (reserve en fault ids rr counter key)
  with transact_db [of fault ReservationAmbiguous "reserve_body en ids rr counter key" db] assms(2)
  show ?thesis by (auto simp: check_and_reserve_def dest!: reserve_body_seals)
next
  case (attempt fault a)
  with transact_db [of fault ReservationAmbiguous "record_attempt_body a" db] assms(2)
  show ?thesis by (auto simp: record_attempt_def dest!: record_attempt_frame)
next
  case (seal fault root run reason)
  with assms(2) show ?thesis
    by (cases fault) (auto simp: seal_run_def transact_def insert_absent_apply)
next
  case (rebind en fault sid corpus xid xph)
  let ?ph = "policy_hash (en_sha256 en) (en_policy en)"
  from rebind transact_db [of fault PolicyRebindAmbiguous
      "\<lambda>db. rebind_body sid corpus xid xph ?ph (record_policy (en_policy en) ?ph db)" db] assms(2)
  show ?thesis by (auto simp: rebind_policy_def Let_def dest!: rebind_body_keeps_rows)
qed

lemma ledger_steps_seals:
  "(ledger_step sha pol)\<^sup>*\<^sup>* db db' \<Longrightarrow> db_seals db k \<noteq> None \<Longrightarrow> db_seals db' k \<noteq> None"
  by (induction rule: rtranclp_induct) (auto dest: ledger_step_seals)

lemma sealed_run_stays_closed_body:
  assumes "db_seals db (rr_evaluation_root_id rr, rr_run_id rr) \<noteq> None"
  shows "\<exists>e. check_and_reserve fault en ids rr counter key db = (Inl e, db)"
proof -
  have "reserve_body en ids rr counter key db \<noteq> Inr x" for x
    using assms reserve_body_seals [of en ids rr counter key db] by (cases x) auto
  then obtain e where e: "reserve_body en ids rr counter key db = Inl e"
    by (cases "reserve_body en ids rr counter key db") auto
  then show ?thesis by (cases fault) (simp_all add: check_and_reserve_def transact_def)
qed

text \<open>
  C22. A sealed run never sends again: once a run is sealed, every later reservation for it, after
  any number of other operations and with any key, policy or payload, is refused and changes
  nothing, not even as a replay.
\<close>

theorem sealed_run_stays_closed:
  assumes sealed: "db_seals db (rr_evaluation_root_id rr, rr_run_id rr) \<noteq> None"
    and later: "(ledger_step sha pol)\<^sup>*\<^sup>* db db2"
  shows "\<exists>e. check_and_reserve fault en ids rr counter key db2 = (Inl e, db2)"
proof -
  have "db_seals db2 (rr_evaluation_root_id rr, rr_run_id rr) \<noteq> None"
    using ledger_steps_seals [OF later sealed] .
  then show ?thesis by (rule sealed_run_stays_closed_body)
qed

definition sealed_ledger :: ledger_db where
  "sealed_ledger = snd (seal_run NoFault ''root'' ''run'' ''lost accounting'' sample_ledger)"

theorem sealed_run_stays_closed_witness:
  "\<exists>e. check_and_reserve NoFault sample_enforcer sample_ids sample_reservation
    (Counter sample_counter) ''key-2'' sealed_ledger = (Inl e, sealed_ledger)"
proof (rule sealed_run_stays_closed [OF _ rtranclp.rtrancl_refl])
  show "db_seals sealed_ledger (rr_evaluation_root_id sample_reservation, rr_run_id sample_reservation)
      \<noteq> None"
    by (simp add: sealed_ledger_def seal_run_def transact_def insert_absent_apply sample_reservation_def)
qed

section \<open>Spending only grows\<close>

definition usage_le :: "usage_snapshot \<Rightarrow> usage_snapshot \<Rightarrow> bool" where
  "usage_le u v \<longleftrightarrow>
     df_disclosure_id ` set (us_disclosures u) \<subseteq> df_disclosure_id ` set (us_disclosures v) \<and>
     us_root_unique_tokens u \<le> us_root_unique_tokens v \<and>
     us_root_unique_bytes u \<le> us_root_unique_bytes v \<and>
     us_root_transmitted_tokens u \<le> us_root_transmitted_tokens v \<and>
     us_root_transmitted_bytes u \<le> us_root_transmitted_bytes v"

definition corpus_le :: "corpus_usage \<Rightarrow> corpus_usage \<Rightarrow> bool" where
  "corpus_le u v \<longleftrightarrow> set (co_disclosure_ids u) \<subseteq> set (co_disclosure_ids v) \<and>
     co_unique_tokens u \<le> co_unique_tokens v \<and> co_unique_bytes u \<le> co_unique_bytes v"

lemma le_refl [simp]: "usage_le u u" "corpus_le c c"
  by (simp_all add: usage_le_def corpus_le_def)

lemma usage_le_trans: "usage_le u v \<Longrightarrow> usage_le v w \<Longrightarrow> usage_le u w"
  by (auto simp: usage_le_def)

lemma corpus_le_trans: "corpus_le u v \<Longrightarrow> corpus_le v w \<Longrightarrow> corpus_le u w"
  by (auto simp: corpus_le_def)

lemma root_totals:
  assumes "usage_wf u"
  shows "us_root_unique_tokens u = (\<Sum>f\<leftarrow>us_disclosures u. df_token_count f)"
    and "us_root_unique_bytes u = (\<Sum>f\<leftarrow>us_disclosures u. df_byte_count f)"
  using assms account_wf_all [of "us_disclosures u"] by (auto simp: usage_wf_def Let_def)

lemma apply_usage_le:
  assumes "apply_usage (Some u) rr d ph = Inr v" and "usage_wf u" and "usage_wf v"
  shows "usage_le u v"
  using assms(1)
proof (rule apply_usage_Inr)
  fix w requested merged
  assume w: "w = existing_usage (Some u) rr ph" and m: "merged = us_disclosures w @ fresh_facts w requested"
    "us_disclosures v = merged"
    and t: "us_root_transmitted_tokens v = us_root_transmitted_tokens w + dr_transmitted_tokens d"
    "us_root_transmitted_bytes v = us_root_transmitted_bytes w + dr_transmitted_bytes d"
  have "w = u" by (simp add: w existing_usage_def)
  with m t root_totals [OF assms(2)] root_totals [OF assms(3)] show ?thesis
    by (auto simp: usage_le_def)
qed

lemma apply_corpus_usage_le:
  assumes "apply_corpus_usage (Some cu) rr d ph = Inr v"
  shows "corpus_le cu v"
  using assms
proof (rule apply_corpus_usage_Inr)
  fix u assume u: "u = existing_corpus (Some cu) rr ph"
    and v: "v = (charge_corpus u (dr_disclosures d))\<lparr>co_document_usage := co_document_usage v\<rparr>"
  have "u = cu" by (simp add: u existing_corpus_def)
  moreover have "co_disclosure_ids v = co_disclosure_ids (charge_corpus u (dr_disclosures d))"
    "co_unique_tokens v = co_unique_tokens (charge_corpus u (dr_disclosures d))"
    "co_unique_bytes v = co_unique_bytes (charge_corpus u (dr_disclosures d))"
    by (subst v; simp)+
  ultimately show ?thesis using corp.charge_mono [of cu "dr_disclosures d"]
    by (simp add: corpus_le_def corp.charge_ids)
qed

definition corpus_spent :: "ledger_db \<Rightarrow> string \<Rightarrow> corpus_usage option" where
  "corpus_spent db c = (case db_heads db c of
     Some (Some i) \<Rightarrow> (case db_epochs db i of None \<Rightarrow> None | Some e \<Rightarrow> ce_corpus_usage e)
   | _ \<Rightarrow> None)"

definition root_spent :: "ledger_db \<Rightarrow> string \<Rightarrow> usage_snapshot option" where
  "root_spent db k = (case db_roots db k of
     Some r \<Rightarrow> (case rt_usage_snapshot r of StoredUsage u \<Rightarrow> Some u | _ \<Rightarrow> None) | None \<Rightarrow> None)"

definition grows :: "ledger_db \<Rightarrow> ledger_db \<Rightarrow> bool" where
  "grows db db' \<longleftrightarrow>
     (\<forall>c u. corpus_spent db c = Some u \<longrightarrow> (\<exists>v. corpus_spent db' c = Some v \<and> corpus_le u v)) \<and>
     (\<forall>k u. root_spent db k = Some u \<longrightarrow> (\<exists>v. root_spent db' k = Some v \<and> usage_le u v))"

lemma growsD:
  "grows db db' \<Longrightarrow> corpus_spent db c = Some u \<Longrightarrow> \<exists>v. corpus_spent db' c = Some v \<and> corpus_le u v"
  "grows db db' \<Longrightarrow> root_spent db k = Some w \<Longrightarrow> \<exists>v. root_spent db' k = Some v \<and> usage_le w v"
  by (simp_all add: grows_def)

lemma grows_same:
  "db_heads db' = db_heads db \<Longrightarrow> db_epochs db' = db_epochs db \<Longrightarrow> db_roots db' = db_roots db \<Longrightarrow>
    grows db db'"
  unfolding grows_def corpus_spent_def root_spent_def by (metis le_refl)

lemma grows_trans: "grows db db' \<Longrightarrow> grows db' db'' \<Longrightarrow> grows db db''"
  unfolding grows_def by (meson corpus_le_trans usage_le_trans)

lemma head_epoch:
  assumes "ledger_inv pol db" "db_heads db c = Some (Some i)" "db_epochs db i = Some e"
  shows "ce_corpus_manifest_id e = c \<and> epoch_ok e"
proof -
  from assms(1,2) obtain e' where "db_epochs db i = Some e'" "ce_corpus_manifest_id e' = c"
    unfolding ledger_inv_def heads_ok_def by blast
  moreover have "epoch_ok e" using assms(1,3) unfolding ledger_inv_def epochs_ok_def by blast
  ultimately show ?thesis using assms(3) by simp
qed

lemma corpus_spent_head:
  assumes "ledger_inv pol db" "corpus_spent db c = Some u"
  obtains j e where "db_heads db c = Some (Some j)" "db_epochs db j = Some e"
    "ce_corpus_manifest_id e = c" "ce_corpus_usage e = Some u"
proof -
  from assms(2) obtain j e where j: "db_heads db c = Some (Some j)" "db_epochs db j = Some e"
    "ce_corpus_usage e = Some u" by (auto simp: corpus_spent_def split: option.splits)
  with head_epoch [OF assms(1) j(1,2)] that show ?thesis by blast
qed

lemma lock_corpus_grows:
  assumes "lock_corpus fresh corpus ph db = Inr ((i, cu), db2)" and inv: "ledger_inv pol db"
  shows "grows db db2" and "corpus_spent db2 corpus = Some cu"
proof -
  show spent: "corpus_spent db2 corpus = Some cu"
    using assms(1) by (cases rule: lock_corpus_Inr)
      (simp_all add: corpus_spent_def reconciled_Inr first_epoch_def)
  show "grows db db2"
    using assms(1)
  proof (cases rule: lock_corpus_Inr)
    case (found e)
    then show ?thesis by (simp add: grows_def)
  next
    case opened
    have "corpus_spent db2 c = Some u" if c: "corpus_spent db c = Some u" for c u
    proof -
      from inv c obtain j e where j: "db_heads db c = Some (Some j)" "db_epochs db j = Some e"
        "ce_corpus_usage e = Some u" by (rule corpus_spent_head)
      with opened(1,3) have "c \<noteq> corpus" "j \<noteq> i" by auto
      with j opened(5) show ?thesis by (simp add: corpus_spent_def)
    qed
    moreover have "root_spent db2 k = root_spent db k" for k using opened(5) by (simp add: root_spent_def)
    ultimately show ?thesis by (auto simp: grows_def)
  qed
qed

lemma lock_root_spent:
  assumes "lock_root rr ph corpus i db2 = Inr (usage, db3)" and "root_spent db2 k = Some u"
  shows "root_spent db3 k = Some u" and "k = rr_evaluation_root_id rr \<Longrightarrow> usage = Some u"
proof -
  from assms(1) show "root_spent db3 k = Some u"
    by (rule lock_root_Inr) (use assms(2) in \<open>auto simp: root_spent_def\<close>)
  assume "k = rr_evaluation_root_id rr"
  with assms(1) show "usage = Some u"
    by (auto elim!: lock_root_Inr) (use assms(2) in \<open>auto simp: root_spent_def\<close>)
qed

lemma reserve_body_grows:
  assumes R: "reserve_body en ids rr counter key db = Inr (v, db4)" and inv: "ledger_inv pol db"
    and en: "known_enforcer sha pol en"
  shows "grows db db4"
proof -
  have recorded: "ledger_inv pol (record_policy p ph db)" for p ph
    using inv by (subst ledger_inv_cong [of _ db]) simp_all
  have start: "grows db (record_policy p ph db)" for p ph by (rule grows_same) simp_all
  from R show ?thesis
  proof (cases rule: reserve_body_Inr)
    case (replay ph corpus i cu usage db2 db3)
    then have "rv_replayed v" by (auto elim: find_replay_Some)
    from reserve_body_replay_db [OF R this inv] start show ?thesis by simp
  next
    case (new ph corpus i cu usage db2 db3 out)
    note L = lock_corpus_inv [OF new(3) recorded]
    have inv4: "ledger_inv pol db4" by (rule reserve_body_inv [OF R inv en])
    from L obtain e where e: "db_epochs db2 i = Some e" "db_heads db2 corpus = Some (Some i)"
      "reconciled_corpus_usage corpus e = Inr cu" by blast
    from new(4) obtain row where row: "db_roots db3 (rr_evaluation_root_id rr) = Some row"
      by (rule lock_root_Inr)
    note G = lock_root_frame [OF new(4)]
    have e3: "db_epochs db3 i = Some e" using e(1) G by simp
    note W = write_reservation_Inr [OF new(8) e3 row]
    have step2: "grows db db2"
      by (rule grows_trans [OF start lock_corpus_grows(1) [OF new(3) recorded]])
    have "grows db2 db4"
      unfolding grows_def
    proof (intro conjI allI impI)
      fix c u assume c: "corpus_spent db2 c = Some u"
      have inv2: "ledger_inv pol db2" using L by simp
      from inv2 c obtain j x where j: "db_heads db2 c = Some (Some j)" "db_epochs db2 j = Some x"
        "ce_corpus_manifest_id x = c" "ce_corpus_usage x = Some u" by (rule corpus_spent_head)
      have ce: "ce_corpus_manifest_id e = corpus" "ce_corpus_usage e = Some cu"
        using e(3) by (simp_all add: reconciled_Inr)
      show "\<exists>v. corpus_spent db4 c = Some v \<and> corpus_le u v"
      proof (cases "j = i")
        case True
        with j e ce have "c = corpus" "u = cu" by auto
        moreover have "corpus_spent db4 corpus = Some (ro_corpus_usage out)"
          using W(2,3) G e(2) by (simp add: corpus_spent_def)
        moreover have "corpus_le cu (ro_corpus_usage out)"
          using new(7) by (rule apply_reservation_Inr) (rule apply_corpus_usage_le)
        ultimately show ?thesis by simp
      next
        case False
        with j W(2,3) G have "corpus_spent db4 c = Some u" by (simp add: corpus_spent_def)
        then show ?thesis by simp
      qed
    next
      fix k u assume k: "root_spent db2 k = Some u"
      note S = lock_root_spent [OF new(4) k]
      show "\<exists>v. root_spent db4 k = Some v \<and> usage_le u v"
      proof (cases "k = rr_evaluation_root_id rr")
        case True
        with S have U: "usage = Some u" by simp
        have after: "root_spent db4 k = Some (ro_usage out)" using W(4) True by (simp add: root_spent_def)
        have wf: "usage_wf u" using locked_usage_ok [of pol db2 rr ph corpus i u db3] new(4) U L by simp
        have "db_roots db4 k = Some (row\<lparr>rt_usage_snapshot := StoredUsage (ro_usage out)\<rparr>)"
          using W(4) True by simp
        with inv4 have "root_ok pol db4 k (row\<lparr>rt_usage_snapshot := StoredUsage (ro_usage out)\<rparr>)"
          unfolding ledger_inv_def roots_ok_def by blast
        then have wf': "usage_wf (ro_usage out)" by (auto simp: root_ok_def)
        from new(7) have "usage_le u (ro_usage out)"
          by (rule apply_reservation_Inr) (use U wf wf' in \<open>auto intro: apply_usage_le\<close>)
        with after show ?thesis by blast
      next
        case False
        with S W(4) have "root_spent db4 k = Some u" by (simp add: root_spent_def)
        then show ?thesis by simp
      qed
    qed
    with step2 show ?thesis by (rule grows_trans)
  qed
qed

lemma rebind_body_grows:
  assumes "rebind_body sid corpus xid xph nph db = Inr (res, db')" and inv: "ledger_inv pol db"
  shows "grows db db'"
  using assms(1)
proof (cases rule: rebind_body_Inr)
  case unchanged then show ?thesis by (simp add: grows_def)
next
  case retry then show ?thesis by (simp add: grows_def)
next
  case (rebound active u)
  have "\<exists>v. corpus_spent db' c = Some v \<and> corpus_le w v" if c: "corpus_spent db c = Some w" for c w
  proof -
    from inv c obtain j x where j: "db_heads db c = Some (Some j)" "db_epochs db j = Some x"
      "ce_corpus_usage x = Some w" by (rule corpus_spent_head)
    show ?thesis
    proof (cases "c = corpus")
      case True
      with j rebound have "w = u" by (simp add: reconciled_Inr)
      with True rebound(8) show ?thesis by (simp add: corpus_spent_def corpus_le_def)
    next
      case False
      moreover have "j \<noteq> sid" using j(2) rebound(6) by auto
      ultimately show ?thesis using j rebound(8) by (simp add: corpus_spent_def)
    qed
  qed
  moreover have "root_spent db' k = root_spent db k" for k using rebound(8) by (simp add: root_spent_def)
  ultimately show ?thesis by (simp add: grows_def)
qed

lemma ledger_step_grows:
  assumes "ledger_step sha pol db db'" and inv: "ledger_inv pol db"
  shows "grows db db'"
  using assms(1)
proof cases
  case (reserve en fault ids rr counter key)
  with transact_db [of fault ReservationAmbiguous "reserve_body en ids rr counter key" db] inv
  show ?thesis by (auto simp: check_and_reserve_def grows_same intro: reserve_body_grows)
next
  case (attempt fault a)
  with transact_db [of fault ReservationAmbiguous "record_attempt_body a" db]
  show ?thesis by (auto simp: record_attempt_def dest!: record_attempt_frame intro!: grows_same)
next
  case (seal fault root run reason)
  then show ?thesis by (cases fault) (simp_all add: seal_run_def transact_def grows_same)
next
  case (rebind en fault sid corpus xid xph)
  let ?ph = "policy_hash (en_sha256 en) (en_policy en)"
  have recorded: "ledger_inv pol (record_policy (en_policy en) ?ph db)"
    using inv by (subst ledger_inv_cong [of _ db]) simp_all
  have start: "grows db (record_policy (en_policy en) ?ph db)" by (rule grows_same) simp_all
  have "grows db x" if "rebind_body sid corpus xid xph ?ph (record_policy (en_policy en) ?ph db) =
      Inr (r, x)" for r x
    by (rule grows_trans [OF start rebind_body_grows [OF that recorded]])
  with rebind transact_db [of fault PolicyRebindAmbiguous
      "\<lambda>db. rebind_body sid corpus xid xph ?ph (record_policy (en_policy en) ?ph db)" db]
  show ?thesis by (auto simp: rebind_policy_def Let_def grows_same)
qed

text \<open>
  Budget is never given back: along any sequence of operations, failed, ambiguous, sealed or
  rebound, what a corpus and what an evaluation root have disclosed, spent and transmitted
  only grows.
\<close>

theorem spending_only_grows:
  assumes reach: "reachable_from (\<lambda>db. db = empty_ledger) (ledger_step sha pol) db"
    and later: "(ledger_step sha pol)\<^sup>*\<^sup>* db db'"
  shows "(\<forall>c u. corpus_spent db c = Some u \<longrightarrow> (\<exists>v. corpus_spent db' c = Some v \<and> corpus_le u v)) \<and>
    (\<forall>k u. root_spent db k = Some u \<longrightarrow> (\<exists>v. root_spent db' k = Some v \<and> usage_le u v))"
proof -
  have "grows db db' \<and> ledger_inv pol db'"
    using later
  proof (induction rule: rtranclp_induct)
    case base
    show ?case using ledger.reachable_inv [OF reach] by (simp add: grows_same)
  next
    case (step y z)
    then show ?case by (meson grows_trans ledger_step_grows ledger_step_inv)
  qed
  then show ?thesis by (simp add: grows_def)
qed

theorem spending_only_grows_witness:
  "\<exists>v. corpus_spent sealed_ledger ''44'' = Some v \<and> corpus_le (ro_corpus_usage sample_outcome) v"
proof -
  have step: "ledger_step sample_hash sample_registry sample_ledger sealed_ledger"
    unfolding sealed_ledger_def by (rule ledger_step.seal)
  have spent: "corpus_spent sample_ledger ''44'' = Some (ro_corpus_usage sample_outcome)"
    by (simp add: corpus_spent_def sample_tables)
  from spending_only_grows [OF sample_ledger_reachable r_into_rtranclp [of "ledger_step sample_hash
      sample_registry", OF step]] spent
  show ?thesis by blast
qed

section \<open>Rebinding\<close>

text \<open>
  Rebinding a corpus to another policy launders nothing. A successful rebind leaves the
  corpus bound to the new policy; if it moved the head, it did so from exactly the epoch and
  policy the caller expected, the successor holds the same disclosures, totals and documents,
  and the old epoch's row is untouched; if it did not, nothing changed. Repeating the call, as
  after a lost commit, changes nothing and reports the same successor.
\<close>

theorem rebind_carries_budget:
  assumes reach: "reachable_from (\<lambda>db. db = empty_ledger) (ledger_step sha pol) db"
    and ok: "rebind_policy fault en sid corpus xid xph db = (Inr res, db')"
  shows "(\<exists>e. db_heads db' corpus = Some (Some (pr_successor_ledger_id res)) \<and>
      db_epochs db' (pr_successor_ledger_id res) = Some e \<and>
      ce_policy_hash e = policy_hash (en_sha256 en) (en_policy en) \<and>
      (if pr_rebound res
       then \<exists>old u. db_heads db corpus = Some (Some xid) \<and> db_epochs db xid = Some old \<and>
         ce_policy_hash old = xph \<and> ce_corpus_usage old = Some u \<and>
         ce_corpus_usage e = Some (u\<lparr>co_policy_hash := ce_policy_hash e\<rparr>) \<and>
         db_epochs db' xid = Some old
       else db_heads db' = db_heads db \<and> db_epochs db' = db_epochs db)) \<and>
    rebind_policy NoFault en sid' corpus xid xph db' = (Inr (res\<lparr>pr_rebound := False\<rparr>), db')"
proof -
  let ?ph = "policy_hash (en_sha256 en) (en_policy en)"
  define dbp where "dbp = record_policy (en_policy en) ?ph db"
  have frame: "db_heads dbp = db_heads db" "db_epochs dbp = db_epochs db" by (simp_all add: dbp_def)
  have inv: "ledger_inv pol dbp"
    using ledger.reachable_inv [OF reach] unfolding dbp_def
    by (subst ledger_inv_cong [of _ db]) simp_all
  from ok have body: "rebind_body sid corpus xid xph ?ph dbp = Inr (res, db')"
    by (simp add: rebind_policy_def transact_Inr Let_def dbp_def)
  have pol: "db_policies db' ?ph \<noteq> None"
    using body record_policy_known [of "en_policy en" ?ph db]
    by (cases rule: rebind_body_Inr) (simp_all add: dbp_def)
  then have same: "record_policy (en_policy en) ?ph db' = db'"
    by (auto intro: record_policy_hit)
  have again: "rebind_policy NoFault en sid' corpus xid xph db' = (Inr r, db')"
    if "rebind_body sid' corpus xid xph ?ph db' = Inr (r, db')" for r
    using that by (simp add: rebind_policy_def transact_Inr Let_def same)
  from body show ?thesis
  proof (cases rule: rebind_body_Inr)
    case (unchanged active u)
    then have "rebind_body sid' corpus xid xph ?ph db' = Inr (res, db')"
      by (simp add: rebind_body_def)
    with unchanged again frame show ?thesis by (simp add: rebind_result_def)
  next
    case (retry aid active pe u)
    have "\<exists>w. reconciled_corpus_usage corpus active = Inr w"
    proof -
      have "epoch_ok active" "ce_corpus_manifest_id active = corpus"
        using head_epoch [OF inv retry(1,2)] by simp_all
      then show ?thesis by (auto simp: epoch_ok_def)
    qed
    then obtain w where w: "reconciled_corpus_usage corpus active = Inr w" by blast
    have "ce_corpus_manifest_id pe = corpus" using retry(7) by (simp add: reconciled_Inr)
    with retry w have "rebind_body sid' corpus xid xph ?ph db' = Inr (res, db')"
      by (simp add: rebind_body_def rebind_retry_def)
    with retry again frame show ?thesis by (simp add: rebind_result_def)
  next
    case (rebound active u)
    have neq: "sid \<noteq> xid" using rebound(2,6) by auto
    have "rebind_body sid' corpus xid xph ?ph db' = Inr (rebind_result corpus xid sid xph ?ph u False, db')"
    proof -
      have u: "co_corpus_manifest_id u = corpus" "ce_corpus_manifest_id active = corpus"
        "co_policy_hash u = xph" using rebound(3,4) by (simp_all add: reconciled_Inr)
      then have "reconciled_corpus_usage corpus \<lparr>ce_corpus_manifest_id = corpus,
          ce_policy_hash = ?ph, ce_corpus_usage = Some (u\<lparr>co_policy_hash := ?ph\<rparr>),
          ce_unique_excerpts = length (co_disclosure_ids u), ce_unique_tokens = co_unique_tokens u,
          ce_unique_bytes = co_unique_bytes u, ce_predecessor_ledger_id = Some xid\<rparr> =
        Inr (u\<lparr>co_policy_hash := ?ph\<rparr>)" by (simp add: reconciled_Inr)
      with u rebound neq show ?thesis by (simp add: rebind_body_def rebind_retry_def)
    qed
    from again [OF this] rebound neq frame show ?thesis
      by (auto simp: rebind_result_def reconciled_Inr)
  qed
qed

definition sample_rebind :: "(ledger_error + policy_rebind_result) \<times> ledger_db" where
  "sample_rebind = rebind_policy NoFault (sample_enforcer\<lparr>en_policy := sample_policy
     \<lparr>ep_toc_per_run := 5\<rparr>\<rparr>) ''epoch-2'' ''44'' ''epoch-1''
     (us_policy_hash (ro_usage sample_outcome)) sample_ledger"

theorem rebind_carries_budget_witness:
  "\<exists>res. fst sample_rebind = Inr res \<and> pr_successor_ledger_id res = ''epoch-2'' \<and>
    db_heads (snd sample_rebind) ''44'' = Some (Some (pr_successor_ledger_id res))"
proof -
  have other: "policy_hash sample_hash (sample_policy\<lparr>ep_toc_per_run := 5\<rparr>) \<noteq>
      us_policy_hash (ro_usage sample_outcome)" by code_simp
  have usage: "co_corpus_manifest_id (ro_corpus_usage sample_outcome) = ''44''"
    "co_policy_hash (ro_corpus_usage sample_outcome) = us_policy_hash (ro_usage sample_outcome)"
    by (simp_all add: sample_outcome_def Let_def)
  have "map_sum id pr_successor_ledger_id (fst sample_rebind) = Inr ''epoch-2''"
    using other usage
    by (simp add: sample_rebind_def rebind_policy_def transact_def Let_def rebind_body_def
        record_policy_def sample_tables reconciled_corpus_usage_def successor_corpus_usage_def
        insert_unique_def rebind_result_def sample_enforcer_def)
  then obtain res where res: "fst sample_rebind = Inr res" "pr_successor_ledger_id res = ''epoch-2''"
    by (cases "fst sample_rebind") auto
  then have "rebind_policy NoFault (sample_enforcer\<lparr>en_policy := sample_policy
     \<lparr>ep_toc_per_run := 5\<rparr>\<rparr>) ''epoch-2'' ''44'' ''epoch-1''
     (us_policy_hash (ro_usage sample_outcome)) sample_ledger = (Inr res, snd sample_rebind)"
    by (metis prod.collapse sample_rebind_def)
  from rebind_carries_budget [OF sample_ledger_reachable this] res show ?thesis by blast
qed

end
