(* ===== verification/Transport.thy ===== *)
theory Transport
  imports LedgerHistory
begin

text \<open>
  \<open>providers/transport.py\<close>: the only path from a payload to a provider. The ledger is the
  \<open>EgressLedger\<close> protocol of \<open>egress/ledger.py\<close>, three operations that are arguments of the
  model; the contract they promise is the locale \<open>egress_ledger\<close>, and the Postgres ledger is
  its interpretation. The adapter's reply, the cancellations and how the ledger's calls go are
  the environment of one call. What reaches the network is a log.
\<close>

section \<open>One call and its environment\<close>

record response_metadata =
  md_prompt_tokens :: nat
  md_completion_tokens :: nat
  md_finish_reason :: string
  md_duration_ms :: nat
  md_tool_call_count :: nat
  md_request_bytes :: nat

record provider_response =
  pr_provider_id :: string
  pr_model_id :: string
  pr_content :: string
  pr_metadata :: response_metadata

datatype send_outcome =
    Responded provider_response
  | ProviderError string
  | SendCancelled
  | UnclassifiedFault

record adapter =
  ad_provider_id :: string
  ad_model_id :: string
  ad_token_counter :: counter_object

record wire_send =
  ws_reservation_id :: string
  ws_request :: reservation_request

text \<open>
  \<open>se_reserving_cancelled\<close>: the task is cancelled while it awaits the reservation, whose
  transaction then ends either way. \<open>se_recording_cancelled\<close>: it is cancelled while the
  attempt is being recorded. \<open>se_settled\<close>: a shielded write finishes inside the
  reconciliation timeout; one that does not is itself cancelled before it can seal.
\<close>

record 'c send_env =
  se_reserve :: 'c
  se_reserving_cancelled :: bool
  se_outcome :: send_outcome
  se_record :: 'c
  se_record_seal :: 'c
  se_recording_cancelled :: bool
  se_settled :: bool
  se_cancel_seal :: 'c
  se_duration_ms :: nat

datatype transport_result =
    Receipt provider_response string request_size
  | NoAdapterForRoute
  | PrepareRejected egress_error
  | LedgerRaised ledger_error
  | TransportReplayError string
  | ProviderAttemptError string string
  | Cancelled

definition nothing_measured :: request_size where
  "nothing_measured = \<lparr>rs_request_tokens = 0, rs_request_bytes = 0\<rparr>"

definition adapter_for :: "adapter list \<Rightarrow> string \<Rightarrow> string \<Rightarrow> adapter option" where
  "adapter_for adapters provider model =
     map_of (rev (map (\<lambda>a. ((ad_provider_id a, ad_model_id a), a)) adapters)) (provider, model)"

text \<open>\<open>__record\<close>: record the attempt; if the ledger cannot, seal the run and re-raise.\<close>

definition record_or_seal ::
  "('c \<Rightarrow> string \<Rightarrow> provider_route_binding \<Rightarrow> request_size \<Rightarrow> attempt_outcome \<Rightarrow> nat \<Rightarrow> string option \<Rightarrow>
     'db \<Rightarrow> (ledger_error + attempt) \<times> 'db) \<Rightarrow>
   ('c \<Rightarrow> string \<Rightarrow> string \<Rightarrow> string \<Rightarrow> 'db \<Rightarrow> (ledger_error + unit) \<times> 'db) \<Rightarrow>
   'c send_env \<Rightarrow> egress_request \<Rightarrow> string \<Rightarrow> request_size \<Rightarrow> attempt_outcome \<Rightarrow> string option \<Rightarrow>
   'db \<Rightarrow> ledger_error option \<times> 'db" where
  "record_or_seal record_call seal_call env request reservation_id measured out code db =
     (case record_call (se_record env) reservation_id (er_route request) measured out
         (se_duration_ms env) code db of
        (Inr _, db1) \<Rightarrow> (None, db1)
      | (Inl e, db1) \<Rightarrow>
          (case seal_call (se_record_seal env) (er_evaluation_root_id request) (er_run_id request)
              ''attempt accounting could not be written after a send'' db1 of
             (Inl e', db2) \<Rightarrow> (Some e', db2)
           | (Inr _, db2) \<Rightarrow> (Some e, db2)))"

text \<open>A shielded write under cancellation: its result is dropped, its effects stay.\<close>

definition settle_record ::
  "('c \<Rightarrow> string \<Rightarrow> provider_route_binding \<Rightarrow> request_size \<Rightarrow> attempt_outcome \<Rightarrow> nat \<Rightarrow> string option \<Rightarrow>
     'db \<Rightarrow> (ledger_error + attempt) \<times> 'db) \<Rightarrow>
   ('c \<Rightarrow> string \<Rightarrow> string \<Rightarrow> string \<Rightarrow> 'db \<Rightarrow> (ledger_error + unit) \<times> 'db) \<Rightarrow>
   'c send_env \<Rightarrow> egress_request \<Rightarrow> string \<Rightarrow> request_size \<Rightarrow> attempt_outcome \<Rightarrow> string option \<Rightarrow>
   'db \<Rightarrow> 'db" where
  "settle_record record_call seal_call env request reservation_id measured out code db =
     (if se_settled env
      then snd (record_or_seal record_call seal_call env request reservation_id measured out code db)
      else snd (record_call (se_record env) reservation_id (er_route request) measured out
        (se_duration_ms env) code db))"

definition seal_bounded ::
  "('c \<Rightarrow> string \<Rightarrow> string \<Rightarrow> string \<Rightarrow> 'db \<Rightarrow> (ledger_error + unit) \<times> 'db) \<Rightarrow>
   'c send_env \<Rightarrow> egress_request \<Rightarrow> 'db \<Rightarrow> 'db" where
  "seal_bounded seal_call env request db =
     snd (seal_call (se_cancel_seal env) (er_evaluation_root_id request) (er_run_id request)
       ''provider send was cancelled after reservation'' db)"

text \<open>\<open>__record_after_send\<close>; \<open>Inl\<close> is the exception that leaves it.\<close>

definition record_after_send ::
  "('c \<Rightarrow> string \<Rightarrow> provider_route_binding \<Rightarrow> request_size \<Rightarrow> attempt_outcome \<Rightarrow> nat \<Rightarrow> string option \<Rightarrow>
     'db \<Rightarrow> (ledger_error + attempt) \<times> 'db) \<Rightarrow>
   ('c \<Rightarrow> string \<Rightarrow> string \<Rightarrow> string \<Rightarrow> 'db \<Rightarrow> (ledger_error + unit) \<times> 'db) \<Rightarrow>
   'c send_env \<Rightarrow> egress_request \<Rightarrow> string \<Rightarrow> request_size \<Rightarrow> attempt_outcome \<Rightarrow> string option \<Rightarrow>
   'db \<Rightarrow> (transport_result + unit) \<times> 'db" where
  "record_after_send record_call seal_call env request reservation_id measured out code db =
     (if se_recording_cancelled env
      then (Inl Cancelled, seal_bounded seal_call env request
        (settle_record record_call seal_call env request reservation_id measured out code db))
      else case record_or_seal record_call seal_call env request reservation_id measured out code db of
        (None, db1) \<Rightarrow> (Inr (), db1)
      | (Some e, db1) \<Rightarrow> (Inl (LedgerRaised e), db1))"

section \<open>Sending\<close>

definition after_send ::
  "('c \<Rightarrow> string \<Rightarrow> provider_route_binding \<Rightarrow> request_size \<Rightarrow> attempt_outcome \<Rightarrow> nat \<Rightarrow> string option \<Rightarrow>
     'db \<Rightarrow> (ledger_error + attempt) \<times> 'db) \<Rightarrow>
   ('c \<Rightarrow> string \<Rightarrow> string \<Rightarrow> string \<Rightarrow> 'db \<Rightarrow> (ledger_error + unit) \<times> 'db) \<Rightarrow>
   'c send_env \<Rightarrow> egress_request \<Rightarrow> string \<Rightarrow> 'db \<Rightarrow> transport_result \<times> 'db" where
  "after_send record_call seal_call env request reservation_id db =
     (let failed = (\<lambda>code.
        (case record_after_send record_call seal_call env request reservation_id nothing_measured
            AttemptFailedKnown (Some code) db of
           (Inl r, db1) \<Rightarrow> (r, db1)
         | (Inr _, db1) \<Rightarrow> (ProviderAttemptError code reservation_id, db1))) in
      case se_outcome env of
        SendCancelled \<Rightarrow>
          (Cancelled, seal_bounded seal_call env request
            (settle_record record_call seal_call env request reservation_id nothing_measured
              AttemptFailedKnown (Some ''provider_cancelled'') db))
      | ProviderError code \<Rightarrow> failed code
      | UnclassifiedFault \<Rightarrow> failed ''provider_unclassified_error''
      | Responded response \<Rightarrow>
          let measured = \<lparr>rs_request_tokens = md_prompt_tokens (pr_metadata response),
            rs_request_bytes = md_request_bytes (pr_metadata response)\<rparr> in
          (case record_after_send record_call seal_call env request reservation_id measured
              AttemptSucceeded None db of
             (Inl r, db1) \<Rightarrow> (r, db1)
           | (Inr _, db1) \<Rightarrow> (Receipt response reservation_id measured, db1)))"

definition transport_send ::
  "('c \<Rightarrow> reservation_request \<Rightarrow> counter_object \<Rightarrow> string \<Rightarrow> 'db \<Rightarrow> (ledger_error + reservation) \<times> 'db) \<Rightarrow>
   ('c \<Rightarrow> string \<Rightarrow> provider_route_binding \<Rightarrow> request_size \<Rightarrow> attempt_outcome \<Rightarrow> nat \<Rightarrow> string option \<Rightarrow>
     'db \<Rightarrow> (ledger_error + attempt) \<times> 'db) \<Rightarrow>
   ('c \<Rightarrow> string \<Rightarrow> string \<Rightarrow> string \<Rightarrow> 'db \<Rightarrow> (ledger_error + unit) \<times> 'db) \<Rightarrow>
   enforcer \<Rightarrow> adapter list \<Rightarrow> 'c send_env \<Rightarrow> egress_request \<Rightarrow> string \<Rightarrow>
   'db \<times> wire_send list \<Rightarrow> transport_result \<times> 'db \<times> wire_send list" where
  "transport_send reserve_call record_call seal_call en adapters env request key =
     (\<lambda>(db, wire).
      case adapter_for adapters (rb_provider_id (er_route request)) (er_model_id request) of
        None \<Rightarrow> (NoAdapterForRoute, db, wire)
      | Some adapter \<Rightarrow>
          (case prepare en request (ad_token_counter adapter) of
             Inl e \<Rightarrow> (PrepareRejected e, db, wire)
           | Inr rr \<Rightarrow>
               (case reserve_call (se_reserve env) rr (ad_token_counter adapter) key db of
                  (result, db1) \<Rightarrow>
                    if se_reserving_cancelled env then (Cancelled, db1, wire)
                    else case result of
                      Inl e \<Rightarrow> (LedgerRaised e, db1, wire)
                    | Inr v \<Rightarrow>
                        if rv_replayed v
                        then (TransportReplayError (rv_reservation_id v), db1, wire)
                        else case after_send record_call seal_call env request
                            (rv_reservation_id v) db1 of
                          (r, db2) \<Rightarrow>
                            (r, db2, wire @ [\<lparr>ws_reservation_id = rv_reservation_id v,
                              ws_request = rr\<rparr>]))))"

section \<open>The ledger's contract\<close>

locale egress_ledger =
  fixes reserve_call :: "'c \<Rightarrow> reservation_request \<Rightarrow> counter_object \<Rightarrow> string \<Rightarrow> 'db \<Rightarrow>
      (ledger_error + reservation) \<times> 'db"
    and record_call :: "'c \<Rightarrow> string \<Rightarrow> provider_route_binding \<Rightarrow> request_size \<Rightarrow> attempt_outcome \<Rightarrow>
      nat \<Rightarrow> string option \<Rightarrow> 'db \<Rightarrow> (ledger_error + attempt) \<times> 'db"
    and seal_call :: "'c \<Rightarrow> string \<Rightarrow> string \<Rightarrow> string \<Rightarrow> 'db \<Rightarrow> (ledger_error + unit) \<times> 'db"
    and granted :: "'db \<Rightarrow> string \<Rightarrow> bool"
    and attempted :: "'db \<Rightarrow> string \<Rightarrow> bool"
    and sealed :: "'db \<Rightarrow> string \<Rightarrow> string \<Rightarrow> bool"
  assumes reserve_new: "reserve_call c rr counter key db = (Inr v, db') \<Longrightarrow> \<not> rv_replayed v \<Longrightarrow>
      \<not> granted db (rv_reservation_id v) \<and> granted db' (rv_reservation_id v)"
    and reserve_keeps: "granted db i \<Longrightarrow> granted (snd (reserve_call c rr counter key db)) i"
    and record_keeps: "granted db i \<Longrightarrow>
      granted (snd (record_call c j route measured out ms code db)) i"
    and seal_keeps: "granted db i \<Longrightarrow> granted (snd (seal_call c root run reason db)) i"
    and record_ok: "record_call c j route measured out ms code db = (Inr a, db') \<Longrightarrow> attempted db' j"
    and seal_attempted: "attempted db j \<Longrightarrow> attempted (snd (seal_call c root run reason db)) j"
    and seal_ok: "seal_call c root run reason db = (Inr u, db') \<Longrightarrow> sealed db' root run"
    and sealed_refuses: "sealed db (rr_evaluation_root_id rr) (rr_run_id rr) \<Longrightarrow>
      \<exists>e. fst (reserve_call c rr counter key db) = Inl e"
begin

abbreviation send :: "enforcer \<Rightarrow> adapter list \<Rightarrow> 'c send_env \<Rightarrow> egress_request \<Rightarrow> string \<Rightarrow>
    'db \<times> wire_send list \<Rightarrow> transport_result \<times> 'db \<times> wire_send list" where
  "send \<equiv> transport_send reserve_call record_call seal_call"

lemma record_or_seal_keeps:
  "granted db i \<Longrightarrow> granted (snd (record_or_seal record_call seal_call env r j s out code db)) i"
  by (auto simp: record_or_seal_def split: prod.splits sum.splits dest: record_keeps seal_keeps)
    (metis record_keeps seal_keeps snd_conv)+

lemma settle_keeps:
  "granted db i \<Longrightarrow> granted (settle_record record_call seal_call env r j s out code db) i"
  by (simp add: settle_record_def record_or_seal_keeps record_keeps)

lemma seal_bounded_keeps: "granted db i \<Longrightarrow> granted (seal_bounded seal_call env r db) i"
  by (simp add: seal_bounded_def seal_keeps)

lemma record_after_send_keeps:
  "granted db i \<Longrightarrow> granted (snd (record_after_send record_call seal_call env r j s out code db)) i"
  using record_or_seal_keeps [of db i env r j s out code]
  by (auto simp: record_after_send_def settle_keeps seal_bounded_keeps split: prod.splits option.splits)

lemma after_send_keeps:
  assumes "granted db i"
  shows "granted (snd (after_send record_call seal_call env r j db)) i"
  using record_after_send_keeps [OF assms, of env r j] assms
  by (auto simp: after_send_def Let_def settle_keeps seal_bounded_keeps
      split: send_outcome.splits prod.splits sum.splits) (metis snd_conv)+

text \<open>The cases in which a call reaches the network.\<close>

lemma send_wire:
  assumes "send en adapters env request key (db, wire) = (result, db', wire')"
  obtains (unsent) "wire' = wire" "\<And>i. granted db i \<Longrightarrow> granted db' i"
  | (sent) adapter rr v db1 where
      "adapter_for adapters (rb_provider_id (er_route request)) (er_model_id request) = Some adapter"
      "prepare en request (ad_token_counter adapter) = Inr rr"
      "reserve_call (se_reserve env) rr (ad_token_counter adapter) key db = (Inr v, db1)"
      "\<not> rv_replayed v" "\<not> se_reserving_cancelled env"
      "wire' = wire @ [\<lparr>ws_reservation_id = rv_reservation_id v, ws_request = rr\<rparr>]"
      "after_send record_call seal_call env request (rv_reservation_id v) db1 = (result, db')"
proof (cases "adapter_for adapters (rb_provider_id (er_route request)) (er_model_id request)")
  case None
  with assms show ?thesis by (intro unsent) (auto simp: transport_send_def)
next
  case (Some adapter)
  show ?thesis
  proof (cases "prepare en request (ad_token_counter adapter)")
    case (Inl e)
    with Some assms show ?thesis by (intro unsent) (auto simp: transport_send_def)
  next
    case (Inr rr)
    obtain res db1 where R: "reserve_call (se_reserve env) rr (ad_token_counter adapter) key db = (res, db1)"
      by fastforce
    have keeps: "granted db i \<Longrightarrow> granted db1 i" for i
      using reserve_keeps [of db i "se_reserve env" rr "ad_token_counter adapter" key] R by simp
    show ?thesis
    proof (cases "se_reserving_cancelled env \<or> (\<exists>e. res = Inl e) \<or> (\<exists>v. res = Inr v \<and> rv_replayed v)")
      case True
      with Some Inr R assms keeps show ?thesis
        by (intro unsent) (auto simp: transport_send_def split: if_splits sum.splits)
    next
      case False
      then obtain v where v: "res = Inr v" "\<not> rv_replayed v" "\<not> se_reserving_cancelled env"
        by (cases res) auto
      with Some Inr R assms show ?thesis
        by (intro sent [OF Some Inr _ v(2,3)]) (auto simp: transport_send_def split: prod.splits)
    qed
  qed
qed

text \<open>A reservation id reaches the wire once, and only while the ledger has granted it.\<close>

definition wire_ok :: "'db \<times> wire_send list \<Rightarrow> bool" where
  "wire_ok s \<longleftrightarrow> distinct (map ws_reservation_id (snd s)) \<and>
     (\<forall>w \<in> set (snd s). granted (fst s) (ws_reservation_id w))"

lemma send_wire_ok:
  assumes "send en adapters env request key (db, wire) = (result, db', wire')"
    and "wire_ok (db, wire)"
  shows "wire_ok (db', wire')"
  using assms(1)
proof (cases rule: send_wire)
  case unsent
  with assms(2) show ?thesis by (simp add: wire_ok_def)
next
  case (sent adapter rr v db1)
  from reserve_new [OF sent(3,4)] have new: "\<not> granted db (rv_reservation_id v)"
    "granted db1 (rv_reservation_id v)" by simp_all
  have keeps: "granted db i \<Longrightarrow> granted db1 i" for i
    using reserve_keeps [of db i "se_reserve env" rr "ad_token_counter adapter" key] sent(3) by simp
  have later: "granted db1 i \<Longrightarrow> granted db' i" for i
    using after_send_keeps [of db1 i env request "rv_reservation_id v"] sent(7) by simp
  have "\<forall>w \<in> set wire. granted db (ws_reservation_id w)" using assms(2) by (simp add: wire_ok_def)
  then show ?thesis using assms(2) new keeps later sent(6) by (auto simp: wire_ok_def)
qed

text \<open>
  After a send the account is closed: the attempt is on record, or the run is sealed, or the
  ledger refused the attempt and the seal both.
\<close>

lemma record_or_seal_accounts:
  assumes "record_or_seal record_call seal_call env r j s out code db = (e, db')"
  shows "(e = None \<longrightarrow> attempted db' j) \<and>
    (e \<noteq> None \<longrightarrow> sealed db' (er_evaluation_root_id r) (er_run_id r) \<or>
      (\<exists>db1 e1. fst (seal_call (se_record_seal env) (er_evaluation_root_id r) (er_run_id r)
        ''attempt accounting could not be written after a send'' db1) = Inl e1))"
  using assms
  by (auto simp: record_or_seal_def split: prod.splits sum.splits dest: record_ok seal_ok)
    (metis fst_conv)+

end

end
