(* ===== verification/TransportTheorems.thy ===== *)
theory TransportTheorems
  imports Transport
begin

text \<open>
  The transport over the Postgres ledger: one reservation is sent at most once, a send whose
  accounting is lost closes its run, and everything that ever reached the network was
  authorized, priced and charged to accounts that are within their caps.
\<close>

context egress_ledger begin

lemma after_send_accounts:
  assumes "after_send record_call seal_call env r j db = (result, db')"
  shows "attempted db' j \<or> sealed db' (er_evaluation_root_id r) (er_run_id r) \<or>
    (\<exists>c \<in> {se_record_seal env, se_cancel_seal env}. \<exists>reason db1 e.
      fst (seal_call c (er_evaluation_root_id r) (er_run_id r) reason db1) = Inl e)"
proof -
  let ?done = "\<lambda>db'. attempted db' j \<or> sealed db' (er_evaluation_root_id r) (er_run_id r) \<or>
    (\<exists>c \<in> {se_record_seal env, se_cancel_seal env}. \<exists>reason db1 e.
      fst (seal_call c (er_evaluation_root_id r) (er_run_id r) reason db1) = Inl e)"
  have closing: "?done (seal_bounded seal_call env r x)" for x
  proof (cases "seal_call (se_cancel_seal env) (er_evaluation_root_id r) (er_run_id r)
      ''provider send was cancelled after reservation'' x")
    case (Pair res y)
    show ?thesis
    proof (cases res)
      case (Inl e)
      with Pair have "fst (seal_call (se_cancel_seal env) (er_evaluation_root_id r) (er_run_id r)
        ''provider send was cancelled after reservation'' x) = Inl e" by simp
      then show ?thesis by blast
    next
      case (Inr u)
      with Pair show ?thesis by (auto simp: seal_bounded_def dest: seal_ok)
    qed
  qed
  have recording: "?done x"
    if "record_after_send record_call seal_call env r j s out code y = (res, x)" for s out code y res x
  proof (cases "se_recording_cancelled env")
    case True
    with that closing show ?thesis by (auto simp: record_after_send_def)
  next
    case False
    obtain e z where E: "record_or_seal record_call seal_call env r j s out code y = (e, z)" by fastforce
    with that False have "z = x" by (auto simp: record_after_send_def split: option.splits)
    with record_or_seal_accounts [OF E] show ?thesis by (cases e) blast+
  qed
  have failing: "?done x" if "(case record_after_send record_call seal_call env r j s out code y of
      (Inl q, z) \<Rightarrow> (q, z) | (Inr u, z) \<Rightarrow> (f u, z)) = (res, x)" for s out code y f res x
    using that recording [of s out code y] by (auto split: prod.splits sum.splits)
  show ?thesis
  proof (cases "se_outcome env")
    case (Responded response)
    with assms show ?thesis by (intro failing) (simp add: after_send_def Let_def)
  next
    case (ProviderError code)
    with assms show ?thesis by (intro failing) (simp add: after_send_def Let_def)
  next
    case SendCancelled
    then have "db' = seal_bounded seal_call env r
        (settle_record record_call seal_call env r j nothing_measured AttemptFailedKnown
          (Some ''provider_cancelled'') db)"
      using assms by (simp add: after_send_def Let_def)
    then show ?thesis using closing by (simp only:)
  next
    case UnclassifiedFault
    with assms show ?thesis by (intro failing) (simp add: after_send_def Let_def)
  qed
qed

lemma record_after_send_attempted:
  assumes "record_after_send record_call seal_call env r j s out code db = (Inr u, db')"
  shows "attempted db' j"
proof -
  from assms have "record_or_seal record_call seal_call env r j s out code db = (None, db')"
    by (auto simp: record_after_send_def split: if_splits prod.splits option.splits)
  from record_or_seal_accounts [OF this] show ?thesis by simp
qed

lemma record_after_send_raises:
  "record_after_send record_call seal_call env r j s out code db = (Inl q, db') \<Longrightarrow> q \<noteq> Receipt x i m"
  by (auto simp: record_after_send_def split: if_splits prod.splits option.splits)

lemma after_send_receipt:
  assumes "after_send record_call seal_call env r j db = (Receipt x i m, db')"
  shows "attempted db' j"
proof (cases "se_outcome env")
  case (Responded response)
  with assms show ?thesis
    by (auto simp: after_send_def Let_def split: prod.splits sum.splits
      dest: record_after_send_attempted record_after_send_raises)
qed (use assms in \<open>auto simp: after_send_def Let_def split: prod.splits sum.splits dest: record_after_send_raises\<close>)

end

section \<open>The Postgres ledger as the protocol\<close>

record pg_call =
  pc_fault :: fault
  pc_ids :: fresh_ids
  pc_attempt_id :: string

definition pg_reserve :: "enforcer \<Rightarrow> pg_call \<Rightarrow> reservation_request \<Rightarrow> counter_object \<Rightarrow> string \<Rightarrow>
    ledger_db \<Rightarrow> (ledger_error + reservation) \<times> ledger_db" where
  "pg_reserve en c rr counter key = check_and_reserve (pc_fault c) en (pc_ids c) rr counter key"

definition pg_record :: "pg_call \<Rightarrow> string \<Rightarrow> provider_route_binding \<Rightarrow> request_size \<Rightarrow>
    attempt_outcome \<Rightarrow> nat \<Rightarrow> string option \<Rightarrow> ledger_db \<Rightarrow> (ledger_error + attempt) \<times> ledger_db" where
  "pg_record c reservation_id route measured out ms code = record_attempt (pc_fault c)
     \<lparr>at_attempt_id = pc_attempt_id c, at_reservation_id = reservation_id, at_route = route,
      at_outcome = out, at_request_size = measured, at_duration_ms = ms, at_public_error_code = code\<rparr>"

definition pg_seal :: "pg_call \<Rightarrow> string \<Rightarrow> string \<Rightarrow> string \<Rightarrow> ledger_db \<Rightarrow>
    (ledger_error + unit) \<times> ledger_db" where
  "pg_seal c root run reason = seal_run (pc_fault c) root run reason"

definition granted_row :: "ledger_db \<Rightarrow> string \<Rightarrow> bool" where
  "granted_row db i \<longleftrightarrow> i \<in> rw_reservation_id ` set (db_reservations db)"

definition attempt_row :: "ledger_db \<Rightarrow> string \<Rightarrow> bool" where
  "attempt_row db i \<longleftrightarrow> i \<in> at_reservation_id ` set (db_attempts db)"

definition seal_row :: "ledger_db \<Rightarrow> string \<Rightarrow> string \<Rightarrow> bool" where
  "seal_row db root run \<longleftrightarrow> db_seals db (root, run) \<noteq> None"

lemma granted_row_reserved: "granted_row db i \<longleftrightarrow> (\<exists>k. reserved_as db k i)"
  unfolding granted_row_def reserved_as_def by blast

lemma record_attempt_keeps_granted:
  "record_attempt_body a db = Inr (x, db') \<Longrightarrow> granted_row db i \<Longrightarrow> granted_row db' i"
  unfolding granted_row_reserved by (blast intro: record_attempt_keeps_rows)

lemma reserve_body_fresh:
  assumes "reserve_body en ids rr counter key db = Inr (v, db')" and "\<not> rv_replayed v"
  shows "\<not> granted_row db (rv_reservation_id v)"
  using assms(1)
proof (cases rule: reserve_body_Inr)
  case (replay ph corpus i cu usage db2 db3)
  then have "rv_replayed v" by (auto elim: find_replay_Some)
  with assms(2) show ?thesis by simp
next
  case (new ph corpus i cu usage db2 db3 out)
  have "db_reservations db3 = db_reservations db"
    using lock_corpus_frame [OF new(3)] lock_root_frame [OF new(4)] by simp
  moreover have "fresh_reservation_id ids \<notin> rw_reservation_id ` set (db_reservations db3)"
    using new(8) by (auto simp: write_reservation_def write_scopes_def update_epoch_def
        update_root_def Let_def split: if_splits)
  ultimately show ?thesis using new(10) by (simp add: granted_row_def)
qed

interpretation pg: egress_ledger "pg_reserve en" pg_record pg_seal granted_row attempt_row seal_row
  for en
proof unfold_locales
  fix c :: pg_call and rr counter key db v db'
  assume "pg_reserve en c rr counter key db = (Inr v, db')" and new: "\<not> rv_replayed v"
  then have body: "reserve_body en (pc_ids c) rr counter key db = Inr (v, db')"
    by (simp add: pg_reserve_def check_and_reserve_def transact_Inr)
  from reserve_body_fresh [OF body new] reserve_body_row [OF body]
  show "\<not> granted_row db (rv_reservation_id v) \<and> granted_row db' (rv_reservation_id v)"
    by (auto simp: granted_row_reserved)
next
  fix db i rr counter key and c :: pg_call
  assume "granted_row db i"
  then show "granted_row (snd (pg_reserve en c rr counter key db)) i"
    using transact_db [of "pc_fault c" ReservationAmbiguous "reserve_body en (pc_ids c) rr counter key" db]
    by (auto simp: pg_reserve_def check_and_reserve_def granted_row_def dest!: reserve_body_keeps_rows)
next
  fix db i j route measured out ms code and c :: pg_call
  let ?a = "\<lparr>at_attempt_id = pc_attempt_id c, at_reservation_id = j, at_route = route,
      at_outcome = out, at_request_size = measured, at_duration_ms = ms, at_public_error_code = code\<rparr>"
  assume "granted_row db i"
  then show "granted_row (snd (pg_record c j route measured out ms code db)) i"
    using transact_db [of "pc_fault c" ReservationAmbiguous "record_attempt_body ?a" db]
    by (auto simp: pg_record_def record_attempt_def dest: record_attempt_keeps_granted)
next
  fix db i root run reason and c :: pg_call
  assume "granted_row db i"
  then show "granted_row (snd (pg_seal c root run reason db)) i"
    by (cases "pc_fault c") (simp_all add: pg_seal_def seal_run_def transact_def granted_row_def)
next
  fix j route measured out ms code db a db' and c :: pg_call
  assume "pg_record c j route measured out ms code db = (Inr a, db')"
  then show "attempt_row db' j"
    by (auto simp: pg_record_def record_attempt_def transact_Inr record_attempt_body_def
        attempt_row_def split: if_splits)
next
  fix db j root run reason and c :: pg_call
  assume "attempt_row db j"
  then show "attempt_row (snd (pg_seal c root run reason db)) j"
    by (cases "pc_fault c") (simp_all add: pg_seal_def seal_run_def transact_def attempt_row_def)
next
  fix root run reason db u db' and c :: pg_call
  assume "pg_seal c root run reason db = (Inr u, db')"
  then show "seal_row db' root run"
    by (auto simp: pg_seal_def seal_run_def transact_Inr seal_row_def insert_absent_apply)
next
  fix db counter key and rr :: reservation_request and c :: pg_call
  assume "seal_row db (rr_evaluation_root_id rr) (rr_run_id rr)"
  then have "db_seals db (rr_evaluation_root_id rr, rr_run_id rr) \<noteq> None" by (simp add: seal_row_def)
  from sealed_run_stays_closed_body [OF this, of "pc_fault c" en "pc_ids c" counter key]
  show "\<exists>e. fst (pg_reserve en c rr counter key db) = Inl e"
    by (auto simp: pg_reserve_def)
qed

section \<open>A transport at work\<close>

text \<open>
  Any number of sends, by any known enforcer, with any adapters, replies, cancellations and
  faults, interleaved with the ledger operations of anyone else.
\<close>

inductive transport_step ::
  "(string \<Rightarrow> string) \<Rightarrow> (string \<Rightarrow> egress_policy) \<Rightarrow> ledger_db \<times> wire_send list \<Rightarrow>
   ledger_db \<times> wire_send list \<Rightarrow> bool" for sha pol where
  sending: "known_enforcer sha pol en \<Longrightarrow>
    transport_send (pg_reserve en) pg_record pg_seal en adapters env request key (db, wire) =
      (result, db', wire') \<Longrightarrow>
    transport_step sha pol (db, wire) (db', wire')"
| other: "ledger_step sha pol db db' \<Longrightarrow> transport_step sha pol (db, wire) (db', wire)"

inductive_cases transport_stepE: "transport_step sha pol (db, wire) (db', wire')"

lemma pg_record_step: "ledger_step sha pol db (snd (pg_record c j route m out ms code db))"
  unfolding pg_record_def by (rule ledger_step.attempt)

lemma pg_seal_step: "ledger_step sha pol db (snd (pg_seal c root run reason db))"
  unfolding pg_seal_def by (rule ledger_step.seal)

lemma record_or_seal_db:
  "snd (record_or_seal record_call seal_call env r j m out code db) =
    (case record_call (se_record env) j (er_route r) m out (se_duration_ms env) code db of
       (Inr _, db1) \<Rightarrow> db1
     | (Inl _, db1) \<Rightarrow> snd (seal_call (se_record_seal env) (er_evaluation_root_id r) (er_run_id r)
         ''attempt accounting could not be written after a send'' db1))"
  by (simp add: record_or_seal_def split: prod.split sum.split)

lemma record_or_seal_steps:
  "(ledger_step sha pol)\<^sup>*\<^sup>* db (snd (record_or_seal pg_record pg_seal env r j m out code db))"
proof -
  obtain res x where R: "pg_record (se_record env) j (er_route r) m out (se_duration_ms env) code db =
      (res, x)" by fastforce
  have "ledger_step sha pol db x"
    using pg_record_step [of sha pol db "se_record env" j "er_route r" m out "se_duration_ms env" code]
    unfolding R by simp
  then have first: "(ledger_step sha pol)\<^sup>*\<^sup>* db x" ..
  show ?thesis
  proof (cases res)
    case (Inr a)
    with R first show ?thesis by (simp add: record_or_seal_db)
  next
    case (Inl e)
    with R show ?thesis
      by (simp add: record_or_seal_db) (rule rtranclp.rtrancl_into_rtrancl [OF first pg_seal_step])
  qed
qed

lemma settle_seal_steps:
  "(ledger_step sha pol)\<^sup>*\<^sup>* db
    (seal_bounded pg_seal env r (settle_record pg_record pg_seal env r j m out code db))"
proof -
  have "(ledger_step sha pol)\<^sup>*\<^sup>* db (settle_record pg_record pg_seal env r j m out code db)"
    unfolding settle_record_def by (simp add: record_or_seal_steps pg_record_step r_into_rtranclp)
  moreover have "ledger_step sha pol x (seal_bounded pg_seal env r x)" for x
    unfolding seal_bounded_def by (rule pg_seal_step)
  ultimately show ?thesis by (rule rtranclp.rtrancl_into_rtrancl)
qed

lemma record_after_send_steps:
  "(ledger_step sha pol)\<^sup>*\<^sup>* db (snd (record_after_send pg_record pg_seal env r j m out code db))"
  using record_or_seal_steps [of sha pol db env r j m out code]
  by (auto simp: record_after_send_def settle_seal_steps split: prod.split option.split)

lemma after_send_steps:
  assumes "after_send pg_record pg_seal env r j db = (result, db')"
  shows "(ledger_step sha pol)\<^sup>*\<^sup>* db db'"
proof -
  have pick: "(ledger_step sha pol)\<^sup>*\<^sup>* db x" if "(case record_after_send pg_record pg_seal env r j m out code db of
      (Inl q, z) \<Rightarrow> (q, z) | (Inr u, z) \<Rightarrow> (f u, z)) = (res, x)" for m out code f res x
    using that record_after_send_steps [of sha pol db env r j m out code]
    by (auto split: prod.splits sum.splits)
  show ?thesis
  proof (cases "se_outcome env")
    case (Responded response)
    with assms show ?thesis by (intro pick) (simp add: after_send_def Let_def)
  next
    case (ProviderError code)
    with assms show ?thesis by (intro pick) (simp add: after_send_def Let_def)
  next
    case SendCancelled
    with assms settle_seal_steps [of sha pol db env r j] show ?thesis
      by (auto simp: after_send_def Let_def)
  next
    case UnclassifiedFault
    with assms show ?thesis by (intro pick) (simp add: after_send_def Let_def)
  qed
qed

lemma reserve_step:
  "known_enforcer sha pol en \<Longrightarrow>
    pg_reserve en c rr counter key db = (res, db') \<Longrightarrow> ledger_step sha pol db db'"
  by (metis ledger_step.reserve pg_reserve_def snd_conv)

lemma transport_send_steps:
  assumes en: "known_enforcer sha pol en"
    and "transport_send (pg_reserve en) pg_record pg_seal en adapters env request key (db, wire) =
      (result, db', wire')"
  shows "(ledger_step sha pol)\<^sup>*\<^sup>* db db'"
proof (cases "adapter_for adapters (rb_provider_id (er_route request)) (er_model_id request)")
  case None
  with assms(2) show ?thesis by (simp add: transport_send_def)
next
  case (Some adapter)
  show ?thesis
  proof (cases "prepare en request (ad_token_counter adapter)")
    case (Inl e)
    with Some assms(2) show ?thesis by (simp add: transport_send_def)
  next
    case (Inr rr)
    obtain res db1 where R: "pg_reserve en (se_reserve env) rr (ad_token_counter adapter) key db =
        (res, db1)" by fastforce
    note step = reserve_step [OF en R]
    show ?thesis
    proof (cases "db' = db1")
      case True
      with step show ?thesis by simp
    next
      case False
      obtain v :: reservation where
        "after_send pg_record pg_seal env request (rv_reservation_id v) db1 = (result, db')"
      proof (cases res)
        case (Inl e)
        with Some \<open>prepare en request _ = Inr rr\<close> R assms(2) False show ?thesis
          by (simp add: transport_send_def split: if_splits)
      next
        case (Inr v)
        with Some \<open>prepare en request _ = Inr rr\<close> R assms(2) False show ?thesis
          by (intro that [of v]) (simp add: transport_send_def split: if_splits prod.splits)
      qed
      from step after_send_steps [OF this] show ?thesis by (rule converse_rtranclp_into_rtranclp)
    qed
  qed
qed

section \<open>What is on the wire is in the accounts\<close>

definition charged :: "ledger_db \<Rightarrow> wire_send \<Rightarrow> bool" where
  "charged db w \<longleftrightarrow> (\<exists>c u.
     corpus_spent db (vm_corpus_manifest_id (rr_version (ws_request w))) = Some c \<and>
     root_spent db (rr_evaluation_root_id (ws_request w)) = Some u \<and>
     df_disclosure_id ` set (rr_disclosures (ws_request w)) \<subseteq> set (co_disclosure_ids c) \<and>
     df_disclosure_id ` set (rr_disclosures (ws_request w)) \<subseteq>
       df_disclosure_id ` set (us_disclosures u))"

lemma charged_grows: "grows db db' \<Longrightarrow> charged db w \<Longrightarrow> charged db' w"
  unfolding charged_def grows_def corpus_le_def usage_le_def by (meson order_trans)

lemma reserve_charges:
  assumes R: "pg_reserve en c rr counter key db = (Inr v, db')" and fresh: "\<not> rv_replayed v"
    and inv: "ledger_inv pol db"
  shows "charged db' \<lparr>ws_reservation_id = rv_reservation_id v, ws_request = rr\<rparr>"
proof -
  from R have body: "reserve_body en (pc_ids c) rr counter key db = Inr (v, db')"
    by (simp add: pg_reserve_def check_and_reserve_def transact_Inr)
  have recorded: "ledger_inv pol (record_policy p ph db)" for p ph
    using inv by (subst ledger_inv_cong [of _ db]) simp_all
  from body show ?thesis
  proof (cases rule: reserve_body_Inr)
    case (replay ph corpus i cu usage db2 db3)
    then have "rv_replayed v" by (auto elim: find_replay_Some)
    with fresh show ?thesis by simp
  next
    case (new ph corpus i cu usage db2 db3 out)
    from lock_corpus_inv [OF new(3) recorded] obtain e where e: "db_epochs db2 i = Some e"
      "db_heads db2 corpus = Some (Some i)" by blast
    from new(4) obtain row where row: "db_roots db3 (rr_evaluation_root_id rr) = Some row"
      by (rule lock_root_Inr)
    note G = lock_root_frame [OF new(4)]
    have e3: "db_epochs db3 i = Some e" using e(1) G by simp
    note W = write_reservation_Inr [OF new(8) e3 row]
    have spent: "corpus_spent db' corpus = Some (ro_corpus_usage out)"
      "root_spent db' (rr_evaluation_root_id rr) = Some (ro_usage out)"
      using W(2,3,4) G e(2) by (simp_all add: corpus_spent_def root_spent_def)
    from new(7) show ?thesis
    proof (rule apply_reservation_Inr)
      fix d
      assume "rr_disclosures rr = dr_disclosures d"
        "apply_usage usage rr d (policy_hash (en_sha256 en) (en_policy en)) = Inr (ro_usage out)"
        "apply_corpus_usage (Some cu) rr d (policy_hash (en_sha256 en) (en_policy en)) =
          Inr (ro_corpus_usage out)"
      with spent new(2) show ?thesis
        by (auto simp: charged_def dest: apply_usage_knows apply_corpus_usage_knows)
    qed
  qed
qed

definition prepared_send ::
  "(string \<Rightarrow> string) \<Rightarrow> (string \<Rightarrow> egress_policy) \<Rightarrow> wire_send \<Rightarrow> bool" where
  "prepared_send sha pol w \<longleftrightarrow>
     (\<exists>en request counter. known_enforcer sha pol en \<and> prepare en request counter = Inr (ws_request w))"

definition transport_inv ::
  "(string \<Rightarrow> string) \<Rightarrow> (string \<Rightarrow> egress_policy) \<Rightarrow> ledger_db \<times> wire_send list \<Rightarrow> bool" where
  "transport_inv sha pol s \<longleftrightarrow> ledger_inv pol (fst s) \<and>
     distinct (map ws_reservation_id (snd s)) \<and>
     (\<forall>w \<in> set (snd s). granted_row (fst s) (ws_reservation_id w) \<and> charged (fst s) w \<and>
       prepared_send sha pol w)"

lemma ledger_steps_grow:
  assumes "(ledger_step sha pol)\<^sup>*\<^sup>* db db'" and "ledger_inv pol db"
  shows "grows db db' \<and> ledger_inv pol db'"
  using assms
proof (induction rule: rtranclp_induct)
  case base
  then show ?case by (simp add: grows_same)
next
  case (step y z)
  then show ?case by (meson grows_trans ledger_step_grows ledger_step_inv)
qed

lemma granted_row_steps:
  "(ledger_step sha pol)\<^sup>*\<^sup>* db db' \<Longrightarrow> granted_row db i \<Longrightarrow> granted_row db' i"
  unfolding granted_row_reserved by (blast intro: ledger_steps_keep_rows)

lemma transport_step_inv:
  assumes "transport_step sha pol s t" and inv: "transport_inv sha pol s"
  shows "transport_inv sha pol t"
  using assms(1)
proof cases
  case (other db db' wire)
  then have steps: "(ledger_step sha pol)\<^sup>*\<^sup>* db db'" by simp
  have "ledger_inv pol db" using inv other by (simp add: transport_inv_def)
  with ledger_steps_grow [OF steps] granted_row_steps [OF steps] inv other show ?thesis
    by (auto simp: transport_inv_def intro: charged_grows)
next
  case (sending en adapters env request key db wire result db' wire')
  have linv: "ledger_inv pol db" using inv sending by (simp add: transport_inv_def)
  note steps = transport_send_steps [OF sending(3,4)]
  note grown = ledger_steps_grow [OF steps linv]
  have old: "\<forall>w \<in> set wire. granted_row db' (ws_reservation_id w) \<and> charged db' w \<and> prepared_send sha pol w"
    using inv sending(1) grown granted_row_steps [OF steps]
    by (auto simp: transport_inv_def intro: charged_grows)
  from sending(4) show ?thesis
  proof (cases rule: pg.send_wire)
    case unsent
    with inv sending grown old show ?thesis by (simp add: transport_inv_def)
  next
    case (sent adapter rr v db1)
    from pg.send_wire_ok [OF sending(4)] inv sending(1)
    have ok: "distinct (map ws_reservation_id wire')"
      "\<forall>w \<in> set wire'. granted_row db' (ws_reservation_id w)"
      by (auto simp: pg.wire_ok_def transport_inv_def)
    have step1: "ledger_step sha pol db db1" by (rule reserve_step [OF sending(3) sent(3)])
    then have inv1: "ledger_inv pol db1" by (rule ledger_step_inv) (rule linv)
    from ledger_steps_grow [OF after_send_steps [OF sent(7)] inv1] reserve_charges [OF sent(3,4) linv]
    have "charged db' \<lparr>ws_reservation_id = rv_reservation_id v, ws_request = rr\<rparr>"
      by (blast intro: charged_grows)
    moreover have "prepared_send sha pol \<lparr>ws_reservation_id = rv_reservation_id v, ws_request = rr\<rparr>"
      using sent(2) sending(3) by (auto simp: prepared_send_def)
    ultimately show ?thesis using old ok grown sending(2) sent(6) by (auto simp: transport_inv_def)
  qed
qed

interpretation transport: invariant_system "\<lambda>s. s = (empty_ledger, [])" "transport_step sha pol"
  "transport_inv sha pol" for sha pol
proof unfold_locales
  fix s :: "ledger_db \<times> wire_send list"
  assume "s = (empty_ledger, [])"
  then show "transport_inv sha pol s" by (simp add: transport_inv_def ledger_inv_empty)
qed (rule transport_step_inv)

text \<open>
  C1. Everything that ever reached a provider is paid for. Whatever sends, faults, cancellations
  and foreign ledger operations have run, no reservation was sent twice; and each payload on the
  wire was prepared, hence authorized and priced, by a known enforcer, and every one of its
  disclosures is counted in the usage its corpus and its evaluation root hold now. The root's
  usage is within its policy's caps; the corpus's is its head epoch's, whose totals and document
  accounts are each within the caps of that epoch's policy or exactly what the epoch inherited from
  its predecessor when the corpus was bound to a new policy.
\<close>

theorem wire_is_paid_for:
  assumes "reachable_from (\<lambda>s. s = (empty_ledger, [])) (transport_step sha pol) (db, wire)"
  shows "distinct (map ws_reservation_id wire) \<and>
    (\<forall>w \<in> set wire. granted_row db (ws_reservation_id w) \<and> prepared_send sha pol w \<and>
      (\<exists>c u. corpus_spent db (vm_corpus_manifest_id (rr_version (ws_request w))) = Some c \<and>
        root_spent db (rr_evaluation_root_id (ws_request w)) = Some u \<and>
        df_disclosure_id ` set (rr_disclosures (ws_request w)) \<subseteq> set (co_disclosure_ids c) \<and>
        df_disclosure_id ` set (rr_disclosures (ws_request w)) \<subseteq>
          df_disclosure_id ` set (us_disclosures u) \<and>
        usage_within (pol (us_policy_hash u)) u \<and>
        (\<exists>i e. db_heads db (vm_corpus_manifest_id (rr_version (ws_request w))) = Some (Some i) \<and>
          db_epochs db i = Some e \<and> corpus_bounded (pol (ce_policy_hash e)) (pred_usage db e) c)))"
proof -
  have inv: "transport_inv sha pol (db, wire)" using transport.reachable_inv [OF assms] .
  have within: "usage_within (pol (us_policy_hash u)) u" if "root_spent db k = Some u" for k u
  proof -
    from that obtain r where r: "db_roots db k = Some r" "rt_usage_snapshot r = StoredUsage u"
      by (auto simp: root_spent_def split: option.splits root_usage.splits)
    with inv have "root_ok pol db k r" unfolding transport_inv_def ledger_inv_def roots_ok_def by simp
    with r(2) show ?thesis by (auto simp: root_ok_def)
  qed
  have bounded: "\<exists>i e. db_heads db k = Some (Some i) \<and> db_epochs db i = Some e \<and>
      corpus_bounded (pol (ce_policy_hash e)) (pred_usage db e) c" if "corpus_spent db k = Some c" for k c
  proof -
    from that obtain i e where e: "db_heads db k = Some (Some i)" "db_epochs db i = Some e" "ce_corpus_usage e = Some c"
      by (auto simp: corpus_spent_def split: option.splits)
    with inv have "corpus_bounded (pol (ce_policy_hash e)) (pred_usage db e) c"
      unfolding transport_inv_def ledger_inv_def corpus_caps_ok_def by simp
    with e show ?thesis by blast
  qed
  from inv have "distinct (map ws_reservation_id wire)"
    and w: "\<forall>w \<in> set wire. granted_row db (ws_reservation_id w) \<and> charged db w \<and> prepared_send sha pol w"
    by (simp_all add: transport_inv_def)
  with within bounded show ?thesis unfolding charged_def by meson
qed

text \<open>
  C21. A send whose accounting is lost closes its run. When a call has put a request on the wire,
  then afterwards its attempt is on record, or its run is sealed so that no later reservation
  for it succeeds, or a connection fault hit one of the two sealing calls themselves. Whatever the
  faults, a caller that gets a receipt has its attempt on record.
\<close>

theorem unaccounted_send_seals_run:
  assumes call: "transport_send (pg_reserve en) pg_record pg_seal en adapters env request key (db, wire) =
      (result, db', wire @ [w])"
  shows "(attempt_row db' (ws_reservation_id w) \<or>
      seal_row db' (er_evaluation_root_id request) (er_run_id request) \<or>
      (\<exists>c \<in> {se_record_seal env, se_cancel_seal env}. pc_fault c \<noteq> NoFault)) \<and>
    (\<forall>response i measured. result = Receipt response i measured \<longrightarrow> attempt_row db' (ws_reservation_id w))"
  using call
proof (cases rule: pg.send_wire)
  case unsent
  then show ?thesis by simp
next
  case (sent adapter rr v db1)
  have fault: "pc_fault c \<noteq> NoFault" if "fst (pg_seal c root run reason x) = Inl e" for c root run reason x e
    using that by (auto simp: pg_seal_def seal_run_def transact_def)
  have "attempt_row db' (rv_reservation_id v)" if "result = Receipt response i measured" for response i measured
    using sent(7) unfolding that by (rule pg.after_send_receipt)
  with pg.after_send_accounts [OF sent(7)] fault sent(6) show ?thesis by auto
qed

definition calm_call :: "string \<Rightarrow> pg_call" where
  "calm_call i = \<lparr>pc_fault = NoFault, pc_ids = sample_ids, pc_attempt_id = i\<rparr>"

definition sample_env :: "pg_call send_env" where
  "sample_env = \<lparr>se_reserve = calm_call [], se_reserving_cancelled = False,
     se_outcome = ProviderError ''provider_timeout'',
     se_record = (calm_call ''attempt'')\<lparr>pc_fault := StatementDrops\<rparr>,
     se_record_seal = calm_call [], se_recording_cancelled = False, se_settled = True,
     se_cancel_seal = calm_call [], se_duration_ms = 7\<rparr>"

definition sample_adapter :: adapter where
  "sample_adapter = \<lparr>ad_provider_id = ''provider'', ad_model_id = ''model'',
     ad_token_counter = Counter sample_counter\<rparr>"

definition sample_wire :: wire_send where
  "sample_wire = \<lparr>ws_reservation_id = ''res-1'', ws_request = sample_reservation\<rparr>"

definition sample_after :: "transport_result \<times> ledger_db" where
  "sample_after = after_send pg_record pg_seal sample_env sample_request ''res-1'' sample_ledger"

lemma sample_send:
  "transport_send (pg_reserve sample_enforcer) pg_record pg_seal sample_enforcer [sample_adapter]
     sample_env sample_request ''key'' (empty_ledger, []) =
   (fst sample_after, snd sample_after, [] @ [sample_wire])"
proof -
  have a: "adapter_for [sample_adapter] (rb_provider_id (er_route sample_request))
      (er_model_id sample_request) = Some sample_adapter"
    by (simp add: adapter_for_def sample_adapter_def sample_request_def sample_route_def)
  have c: "ad_token_counter sample_adapter = Counter sample_counter"
    by (simp add: sample_adapter_def)
  have r: "pg_reserve sample_enforcer (se_reserve sample_env) sample_reservation
      (Counter sample_counter) ''key'' empty_ledger = (Inr sample_reserved, sample_ledger)"
    using sample_reserve by (simp add: pg_reserve_def sample_env_def calm_call_def)
  have e: "\<not> se_reserving_cancelled sample_env" by (simp add: sample_env_def)
  have v: "\<not> rv_replayed sample_reserved" "rv_reservation_id sample_reserved = ''res-1''"
    by (simp_all add: sample_reserved_def)
  show ?thesis
    by (simp add: transport_send_def a c sample_prepare r e v sample_after_def sample_wire_def
        split: prod.split)
qed

theorem wire_is_paid_for_witness:
  "charged (snd sample_after) sample_wire"
proof -
  have "transport_step sample_hash sample_registry (empty_ledger, []) (snd sample_after, [] @ [sample_wire])"
    by (rule transport_step.sending [OF sample_known sample_send])
  then have "reachable_from (\<lambda>s. s = (empty_ledger, [])) (transport_step sample_hash sample_registry)
      (snd sample_after, [sample_wire])"
    by (auto intro: reachable_from.intros)
  from wire_is_paid_for [OF this] show ?thesis unfolding charged_def by auto
qed

theorem unaccounted_send_seals_run_witness:
  "attempt_row (snd sample_after) ''res-1'' \<or> seal_row (snd sample_after) ''root'' ''run''"
  using conjunct1 [OF unaccounted_send_seals_run [OF sample_send]]
  by (simp add: sample_env_def calm_call_def sample_wire_def sample_request_def)

end
