(* ===== verification/ModelStages.thy ===== *)
theory ModelStages
  imports Recovery TransportTheorems
begin

text \<open>
  The three model calls of a run: \<open>agents/planner.py\<close>, \<open>agents/compliance.py\<close> and
  \<open>verifier/semantic.py\<close>, with the keys that name them. The transport is an argument, a function
  of the request, its key and the state behind it; what a JSON text validates as is an argument
  of the parsers. The catalogue's JSON schemas are generated by pydantic and an argument too.
\<close>

section \<open>Keys\<close>

definition stage_key :: "string \<Rightarrow> string \<Rightarrow> string \<Rightarrow> int \<Rightarrow> string" where
  "stage_key run stage key generation =
     run @ ''-'' @ stage @ ''-'' @ key @ ''-g'' @ show_int generation"

definition logical_stage_key :: "string \<Rightarrow> string \<Rightarrow> string option \<Rightarrow> bool \<Rightarrow> int \<Rightarrow> string" where
  "logical_stage_key run stage claim recovery generation =
     (case claim of
        None \<Rightarrow> run @ ''-'' @ stage @ ''-initial-g'' @ show_int generation
      | Some c \<Rightarrow> run @ ''-'' @ stage @ ''-'' @ c @ ''-'' @
          (if recovery then ''recovery'' else ''initial'') @ ''-g'' @ show_int generation)"

definition ends_with :: "string \<Rightarrow> string \<Rightarrow> bool" where
  "ends_with suffix s \<longleftrightarrow> starts_with (rev suffix) (rev s)"

definition idempotency_suffix ::
  "string \<Rightarrow> string \<Rightarrow> string option \<Rightarrow> bool \<Rightarrow> int \<Rightarrow> string + string" where
  "idempotency_suffix run stage claim recovery generation =
     (let logical = logical_stage_key run stage claim recovery generation;
          prefix = run @ ''-'' @ stage @ ''-'';
          marker = ''-g'' @ show_int generation in
      if \<not> starts_with prefix logical \<or> \<not> ends_with marker logical
      then Inl ''logical_stage_key_invalid''
      else Inr (take (length logical - length prefix - length marker) (drop (length prefix) logical)))"

definition planning_suffix :: "string \<Rightarrow> string" where
  "planning_suffix run = logical_stage_key run ''planning'' None False 0"

text \<open>\<open>str.rpartition\<close>: the text before and after the last occurrence of the separator.\<close>

fun rpartition :: "string \<Rightarrow> string \<Rightarrow> (string \<times> string) option" where
  "rpartition sep [] = None"
| "rpartition sep (c # cs) =
     (case rpartition sep cs of
        Some (base, suffix) \<Rightarrow> Some (c # base, suffix)
      | None \<Rightarrow> if starts_with sep (c # cs) then Some ([], drop (length sep) (c # cs)) else None)"

definition generation_key :: "string \<Rightarrow> int \<Rightarrow> string" where
  "generation_key key generation =
     (let base = (case rpartition ''-g'' key of
          Some (base, suffix) \<Rightarrow> if suffix = [] \<or> \<not> list_all is_digit suffix then key else base
        | None \<Rightarrow> key) in
      base @ ''-g'' @ show_int generation)"

section \<open>Contexts and results\<close>

record stage_context =
  sx_source_manifest :: source_manifest
  sx_corpus_manifest_id :: string
  sx_evaluation_root_id :: string
  sx_run_id :: string
  sx_model_id :: string
  sx_idempotency_key :: string
  sx_task_level :: task_level
  sx_reconstruction_generation :: int

text \<open>
  What a stage ends with: its product with the receipt's metadata, an invalid reply with that
  same metadata, what the transport raised, a \<open>ValueError\<close>, or the refusal to send.
\<close>

datatype 'a stage_outcome =
    StageProduced 'a string request_size
  | InvalidReply string request_size
  | StageRaised transport_result
  | StageValueError string
  | DeterministicVerificationRequired

definition context_version :: "stage_context \<Rightarrow> version_metadata" where
  "context_version c = \<lparr>vm_source_manifest_id = sm_manifest_id (sx_source_manifest c),
     vm_corpus_manifest_id = sx_corpus_manifest_id c,
     vm_document_id = sm_document_id (sx_source_manifest c),
     vm_document_version = sm_document_version (sx_source_manifest c)\<rparr>"

definition authorized_route :: "source_manifest \<Rightarrow> string + provider_route_binding" where
  "authorized_route m =
     (case sm_route_binding m of
        None \<Rightarrow> Inl ''source manifest carries no authorized provider route''
      | Some route \<Rightarrow> Inr route)"

definition stage_request ::
  "stage_context \<Rightarrow> task_level \<Rightarrow> egress_stage \<Rightarrow> egress_payload \<Rightarrow> string + egress_request" where
  "stage_request c level stage payload =
     bind_result (authorized_route (sx_source_manifest c)) (\<lambda>route.
       Inr \<lparr>er_evaluation_root_id = sx_evaluation_root_id c, er_run_id = sx_run_id c,
         er_task_level = level, er_version = context_version c, er_stage = stage,
         er_route = route, er_model_id = sx_model_id c,
         er_source_manifest = sx_source_manifest c, er_payload = payload\<rparr>)"

text \<open>\<open>_send_and_parse\<close>: one send; whatever it raises leaves, a receipt's content is parsed.\<close>

definition send_and_parse ::
  "(egress_request \<Rightarrow> string \<Rightarrow> 's \<Rightarrow> transport_result \<times> 's) \<Rightarrow> (string \<Rightarrow> 'a option) \<Rightarrow>
   egress_request \<Rightarrow> string \<Rightarrow> 's \<Rightarrow> 'a stage_outcome \<times> 's" where
  "send_and_parse send parse request key s =
     (case send request key s of
        (Receipt response reservation_id measured, s1) \<Rightarrow>
          (case parse (pr_content response) of
             None \<Rightarrow> (InvalidReply reservation_id measured, s1)
           | Some x \<Rightarrow> (StageProduced x reservation_id measured, s1))
      | (raised, s1) \<Rightarrow> (StageRaised raised, s1))"

section \<open>Planning\<close>

definition catalog_entries :: "(string \<times> string) list" where
  "catalog_entries =
     [(''search_clauses'', ''Search bounded local clause metadata.''),
      (''get_clause'', ''Read selected local clauses.''),
      (''get_toc'', ''Read a bounded local table of contents.''),
      (''expand_references'', ''Expand one bounded hop of local clause references.''),
      (''lookup_term'', ''Locate local definition clauses for a term.'')]"

definition max_tool_calls :: "task_level \<Rightarrow> nat" where
  "max_tool_calls level = (if level = L1 then 6 else 8)"

definition tool_catalog :: "(string \<Rightarrow> json) \<Rightarrow> nat \<Rightarrow> tool_schema list" where
  "tool_catalog schema max_calls = map (\<lambda>(name, description).
     \<lparr>ts_name = name,
      ts_description = description @ '' Maximum MCP calls: '' @ show_nat max_calls @ ''.'',
      ts_input_schema = schema name\<rparr>) catalog_entries"

definition tool_catalog_hash :: "(string \<Rightarrow> string) \<Rightarrow> tool_schema list \<Rightarrow> string" where
  "tool_catalog_hash sha256 tools = canonical_sha256 sha256 (JArr (map (\<lambda>t.
     JObj [(''name'', JStr (ts_name t)), (''description'', JStr (ts_description t)),
       (''input_schema'', ts_input_schema t)]) tools))"

definition plan_stage ::
  "(string \<Rightarrow> string) \<Rightarrow> (string \<Rightarrow> json) \<Rightarrow> (string \<Rightarrow> tool_plan option) \<Rightarrow>
   (egress_request \<Rightarrow> string \<Rightarrow> 's \<Rightarrow> transport_result \<times> 's) \<Rightarrow> string \<Rightarrow> stage_context \<Rightarrow>
   's \<Rightarrow> tool_plan stage_outcome \<times> 's" where
  "plan_stage sha256 schema read_plan send question c s =
     (if sx_reconstruction_generation c < 0
      then (StageValueError ''invalid_reconstruction_generation'', s)
      else
        let max_calls = max_tool_calls (sx_task_level c); tools = tool_catalog schema max_calls;
            payload = L1Plan \<lparr>lp_query = question, lp_version = context_version c,
              lp_tool_catalog_version = ''mcp-v1'',
              lp_tool_catalog_hash = tool_catalog_hash sha256 tools, lp_tools = tools,
              lp_max_steps = 4, lp_max_tool_calls = max_calls\<rparr>;
            parse = (\<lambda>content. case read_plan content of
              None \<Rightarrow> None
            | Some p \<Rightarrow>
                if \<not> tool_plan_valid p then None
                else (case validate_tool_plan max_calls p of Inl _ \<Rightarrow> None | Inr q \<Rightarrow> Some q)) in
        (case stage_request c (sx_task_level c) Planning payload of
           Inl e \<Rightarrow> (StageValueError e, s)
         | Inr request \<Rightarrow> send_and_parse send parse request
             (generation_key (sx_idempotency_key c) (sx_reconstruction_generation c)) s))"

section \<open>Compliance candidates\<close>

fun bounded_unique_from :: "string list \<Rightarrow> nat \<Rightarrow> evidence list \<Rightarrow> evidence list" where
  "bounded_unique_from seen n [] = []"
| "bounded_unique_from seen n (e # es) =
     (if ee_content_hash (ev_excerpt e) \<in> set seen then bounded_unique_from seen n es
      else if Suc n = 12 then [e]
      else e # bounded_unique_from (ee_content_hash (ev_excerpt e) # seen) (Suc n) es)"

definition bounded_unique_evidence :: "evidence list \<Rightarrow> evidence list" where
  "bounded_unique_evidence es = bounded_unique_from [] 0 es"

record compliance_product =
  cp_batch :: "compliance_candidate list"
  cp_candidates :: "identified_candidate list"

definition compliance_stage ::
  "(string \<Rightarrow> string) \<Rightarrow> (string \<Rightarrow> compliance_candidate list option) \<Rightarrow>
   (egress_request \<Rightarrow> string \<Rightarrow> 's \<Rightarrow> transport_result \<times> 's) \<Rightarrow> string \<Rightarrow> evidence list \<Rightarrow>
   stage_context \<Rightarrow> 's \<Rightarrow> compliance_product stage_outcome \<times> 's" where
  "compliance_stage sha256 read_batch send description evidence c s =
     (let payload = L2Design \<lparr>ld_design_description = description, ld_version = context_version c,
            ld_toc_nodes = [], ld_evidence_excerpts = map ev_excerpt (bounded_unique_evidence evidence)\<rparr>;
          parse = (\<lambda>content. case read_batch content of
              None \<Rightarrow> None
            | Some batch \<Rightarrow>
                if \<not> batch_valid sha256 batch then None
                else Some \<lparr>cp_batch = batch, cp_candidates = map (\<lambda>x.
                  \<lparr>ic_claim_id = normalized_claim_id sha256 (cc_claim x), ic_candidate = x\<rparr>) batch\<rparr>) in
      case stage_request c L2 ComplianceStage payload of
        Inl e \<Rightarrow> (StageValueError e, s)
      | Inr request \<Rightarrow> send_and_parse send parse request
          (stage_key (sx_run_id c) ''compliance'' (sx_idempotency_key c) (sx_reconstruction_generation c)) s)"

section \<open>Semantic verification\<close>

definition evidence_by_id :: "evidence list \<Rightarrow> string \<Rightarrow> evidence option" where
  "evidence_by_id evidence = map_of (rev (map (\<lambda>e. (ee_content_hash (ev_excerpt e), e)) evidence))"

fun select_all :: "(string \<Rightarrow> 'a option) \<Rightarrow> string list \<Rightarrow> 'a list option" where
  "select_all f [] = Some []"
| "select_all f (i # is) =
     (case f i of None \<Rightarrow> None | Some x \<Rightarrow> map_option (Cons x) (select_all f is))"

definition parse_decision ::
  "(string \<Rightarrow> semantic_decision option) \<Rightarrow> string list \<Rightarrow> string \<Rightarrow> semantic_decision option" where
  "parse_decision read_decision expected content =
     (case read_decision content of
        None \<Rightarrow> None
      | Some d \<Rightarrow>
          if \<not> semantic_decision_valid d then None
          else if set (map sd_evidence_id (sn_evidence d)) \<noteq> set expected then None
          else Some d)"

definition semantic_stage ::
  "(string \<Rightarrow> semantic_decision option) \<Rightarrow>
   (egress_request \<Rightarrow> string \<Rightarrow> 's \<Rightarrow> transport_result \<times> 's) \<Rightarrow> identified_candidate \<Rightarrow>
   evidence list \<Rightarrow> deterministic_result \<Rightarrow> stage_context \<Rightarrow> 's \<Rightarrow>
   semantic_decision stage_outcome \<times> 's" where
  "semantic_stage read_decision send candidate evidence deterministic c s =
     (if \<not> result_passed deterministic then (DeterministicVerificationRequired, s)
      else
        let selected_ids = cc_evidence_ids (ic_candidate candidate) in
        if selected_ids = [] \<or> set selected_ids \<noteq> set (map ci_content_hash (dr_citations deterministic))
        then (DeterministicVerificationRequired, s)
        else case select_all (evidence_by_id evidence) selected_ids of
          None \<Rightarrow> (DeterministicVerificationRequired, s)
        | Some selected \<Rightarrow>
            let payload = L2AtomicClaim \<lparr>lc_atomic_claim_id = ic_claim_id candidate,
                  lc_atomic_claim = cc_claim (ic_candidate candidate), lc_version = context_version c,
                  lc_toc_nodes = [], lc_evidence_excerpts = map ev_excerpt selected\<rparr> in
            (case stage_request c L2 VerifierStage payload of
               Inl e \<Rightarrow> (StageValueError e, s)
             | Inr request \<Rightarrow> send_and_parse send (parse_decision read_decision selected_ids) request
                 (stage_key (sx_run_id c) ''verifier'' (sx_idempotency_key c)
                   (sx_reconstruction_generation c)) s))"

section \<open>Keys name one call\<close>

lemma starts_with_append [simp]: "starts_with p (p @ s)"
  by (induction p) auto

lemma ends_with_append [simp]: "ends_with q (s @ q)"
  by (simp add: ends_with_def)

lemma starts_with_iff: "starts_with p s \<longleftrightarrow> (\<exists>r. s = p @ r)"
proof
  show "starts_with p s \<Longrightarrow> \<exists>r. s = p @ r"
    by (induction p s rule: starts_with.induct) auto
qed auto

lemma takeWhile_to: "CHR ''-'' \<notin> set a \<Longrightarrow> takeWhile (\<lambda>x. x \<noteq> CHR ''-'') (a @ CHR ''-'' # r) = a"
  by (induction a) auto

lemma dash_readable:
  assumes "a @ CHR ''-'' # r = b @ CHR ''-'' # t" and "CHR ''-'' \<notin> set a" and "CHR ''-'' \<notin> set b"
  shows "a = b \<and> r = t"
proof -
  have "a = b" using takeWhile_to [OF assms(2), of r] takeWhile_to [OF assms(3), of t] assms(1) by simp
  with assms(1) show ?thesis by simp
qed

lemma show_int_inj: "show_int i = show_int j \<Longrightarrow> i = j"
  using show_int_readable [of i "[]" j "[]"] by (simp add: no_digit_def)

lemma sha256_text_no_dash: "sha256_text c \<Longrightarrow> CHR ''-'' \<notin> set c"
  by (auto simp: sha256_text_def list_all_iff is_hex_def is_decimal_def byte_def dest!: bspec)

lemma sha256_text_not_initial: "sha256_text c \<Longrightarrow> c \<noteq> ''initial''"
  by (auto simp: sha256_text_def)

text \<open>Behind run and stage, a logical key reads as one claim, one branch, one generation.\<close>

definition key_tail :: "string option \<Rightarrow> bool \<Rightarrow> int \<Rightarrow> string" where
  "key_tail claim recovery generation =
     (case claim of
        None \<Rightarrow> ''initial'' @ CHR ''-'' # CHR ''g'' # show_int generation
      | Some c \<Rightarrow> c @ CHR ''-'' # (if recovery then ''recovery'' else ''initial'') @
          CHR ''-'' # CHR ''g'' # show_int generation)"

lemma logical_stage_key_tail:
  "logical_stage_key run stage claim recovery generation =
     run @ CHR ''-'' # stage @ CHR ''-'' # key_tail claim recovery generation"
  by (simp add: logical_stage_key_def key_tail_def split: option.split)

lemma initial_tail_fresh:
  assumes "sha256_text y"
  shows "key_tail None r g \<noteq> key_tail (Some y) r' g'"
proof
  assume "key_tail None r g = key_tail (Some y) r' g'"
  then have "''initial'' @ CHR ''-'' # CHR ''g'' # show_int g =
      y @ CHR ''-'' # (if r' then ''recovery'' else ''initial'') @ CHR ''-'' # CHR ''g'' # show_int g'"
    unfolding key_tail_def option.case .
  from dash_readable [OF this _ sha256_text_no_dash [OF assms]] sha256_text_not_initial [OF assms]
  show False by simp
qed

lemma key_tail_inj:
  assumes eq: "key_tail c r g = key_tail c' r' g'"
    and c: "\<And>x. c = Some x \<Longrightarrow> sha256_text x" and c': "\<And>x. c' = Some x \<Longrightarrow> sha256_text x"
  shows "c = c' \<and> g = g' \<and> (c = None \<or> r = r')"
proof (cases c)
  case None
  have "c' = None"
  proof (rule ccontr)
    assume "c' \<noteq> None"
    then obtain y where y: "c' = Some y" by blast
    show False using eq unfolding None y by (rule initial_tail_fresh [OF c' [OF y], THEN notE])
  qed
  moreover from eq have "show_int g = show_int g'" unfolding None \<open>c' = None\<close> key_tail_def by simp
  ultimately show ?thesis using None by (blast dest: show_int_inj)
next
  case (Some x)
  have "c' \<noteq> None"
  proof
    assume y: "c' = None"
    show False using eq [symmetric] unfolding Some y by (rule initial_tail_fresh [OF c [OF Some], THEN notE])
  qed
  then obtain y where y: "c' = Some y" by blast
  let ?branch = "\<lambda>r :: bool. if r then ''recovery'' else ''initial''"
  from eq have "x @ CHR ''-'' # ?branch r @ CHR ''-'' # CHR ''g'' # show_int g =
      y @ CHR ''-'' # ?branch r' @ CHR ''-'' # CHR ''g'' # show_int g'"
    unfolding key_tail_def Some y option.case .
  from dash_readable [OF this sha256_text_no_dash [OF c [OF Some]] sha256_text_no_dash [OF c' [OF y]]]
  have xy: "x = y" "?branch r @ CHR ''-'' # CHR ''g'' # show_int g = ?branch r' @ CHR ''-'' # CHR ''g'' # show_int g'"
    by (rule conjunct1, rule conjunct2)
  have no_dash: "CHR ''-'' \<notin> set (?branch b)" for b by simp
  note both = dash_readable [OF xy(2) no_dash no_dash]
  have branch: "?branch r = ?branch r'" using both by (rule conjunct1)
  have "show_int g = show_int g'" using conjunct2 [OF both] by (simp only: list.inject)
  then have "g = g'" by (rule show_int_inj)
  moreover from branch have "r = r'" by (simp split: if_split_asm)
  ultimately show ?thesis unfolding Some y xy(1) by simp
qed

text \<open>
  The keys of a run's model calls never collide. Two logical keys of one run are equal only
  for the same stage, the same claim, the same generation and, where there is a claim, the same
  branch; so an idempotent ledger charges each of them by itself.
\<close>

theorem logical_keys_distinct:
  assumes eq: "logical_stage_key run stage claim recovery generation =
      logical_stage_key run stage' claim' recovery' generation'"
    and stages: "stage \<in> {''planning'', ''compliance'', ''verifier''}"
      "stage' \<in> {''planning'', ''compliance'', ''verifier''}"
    and claims: "pred_option sha256_text claim" "pred_option sha256_text claim'"
  shows "stage = stage' \<and> claim = claim' \<and> generation = generation' \<and> (claim = None \<or> recovery = recovery')"
proof -
  have no_dash: "CHR ''-'' \<notin> set stage" "CHR ''-'' \<notin> set stage'" using stages by auto
  from eq have "stage @ CHR ''-'' # key_tail claim recovery generation =
      stage' @ CHR ''-'' # key_tail claim' recovery' generation'"
    by (simp add: logical_stage_key_tail)
  from dash_readable [OF this no_dash] have same: "stage = stage'"
    and tails: "key_tail claim recovery generation = key_tail claim' recovery' generation'" by simp_all
  have "sha256_text x" if "claim = Some x" for x using claims(1) that by simp
  moreover have "sha256_text x" if "claim' = Some x" for x using claims(2) that by simp
  ultimately have "claim = claim' \<and> generation = generation' \<and> (claim = None \<or> recovery = recovery')"
    using key_tail_inj [OF tails] by blast
  with same show ?thesis by blast
qed

lemma rpartition_suffix:
  assumes "CHR ''-'' \<notin> set suffix"
  shows "rpartition ''-g'' (base @ CHR ''-'' # CHR ''g'' # suffix) = Some (base, suffix)"
proof -
  have none: "rpartition ''-g'' s = None" if "CHR ''-'' \<notin> set s" for s
    using that by (induction s) auto
  show ?thesis
    by (induction base) (use none [OF assms] in \<open>simp_all add: none assms\<close>)
qed

lemma generation_key_replaces:
  assumes "0 \<le> g"
  shows "generation_key (base @ ''-g'' @ show_int g) n = base @ ''-g'' @ show_int n"
proof -
  from assms have digits: "\<forall>c \<in> set (show_int g). is_digit c" "show_int g \<noteq> []"
    by (simp_all add: show_int_def show_nat_digits)
  then have "CHR ''-'' \<notin> set (show_int g)" using minus_no_digit by blast
  from rpartition_suffix [OF this, of base] digits show ?thesis
    by (simp add: generation_key_def list_all_iff)
qed

text \<open>
  The wrapping of keys by the agents is undone exactly. The suffix taken out of a logical
  key always exists, and the key an agent wraps around it is the logical key again; the planner,
  which gets the whole key, replaces its generation and so also sends under the logical key of
  its generation.
\<close>

theorem stage_key_round_trip:
  "(case idempotency_suffix run stage claim recovery generation of
      Inl _ \<Rightarrow> False
    | Inr k \<Rightarrow> stage_key run stage k generation = logical_stage_key run stage claim recovery generation) \<and>
   generation_key (planning_suffix run) generation = logical_stage_key run ''planning'' None False generation"
proof -
  define middle where "middle = (case claim of None \<Rightarrow> ''initial''
    | Some c \<Rightarrow> c @ ''-'' @ (if recovery then ''recovery'' else ''initial''))"
  have logical: "logical_stage_key run stage claim recovery generation =
      (run @ ''-'' @ stage @ ''-'') @ middle @ (''-g'' @ show_int generation)"
    by (simp add: logical_stage_key_def middle_def split: option.split)
  have "idempotency_suffix run stage claim recovery generation = Inr middle"
    unfolding idempotency_suffix_def Let_def logical
    using ends_with_append [of "''-g'' @ show_int generation" "(run @ ''-'' @ stage @ ''-'') @ middle"]
      starts_with_append [of "run @ ''-'' @ stage @ ''-''" "middle @ ''-g'' @ show_int generation"]
    by simp
  moreover have "generation_key ((run @ ''-planning-initial'') @ ''-g'' @ show_int 0) generation =
      (run @ ''-planning-initial'') @ ''-g'' @ show_int generation"
    by (rule generation_key_replaces) simp
  ultimately show ?thesis
    by (simp add: stage_key_def logical planning_suffix_def) (simp add: logical_stage_key_def)
qed

section \<open>What a stage puts on the wire\<close>

lemma prepare_payload:
  assumes "prepare en r counter = Inr rr"
  shows "rr_projected_payload rr = er_payload r \<and> rr_stage rr = er_stage r \<and> rr_run_id rr = er_run_id r"
  using prepare_Inr [OF assms]
  by (metis (no_types, lifting) canonical_request_def egress_request.select_convs(2,5,9))

lemma transport_send_wire:
  assumes "transport_send reserve_call record_call seal_call en adapters env request key (db, wire) =
    (result, db', wire')"
  shows "wire' = wire \<or> (\<exists>w. wire' = wire @ [w] \<and>
    rr_projected_payload (ws_request w) = er_payload request \<and>
    rr_stage (ws_request w) = er_stage request \<and> rr_run_id (ws_request w) = er_run_id request)"
  using assms
  by (auto simp: transport_send_def split: option.splits sum.splits prod.splits if_splits dest: prepare_payload)

lemma send_and_parse_state: "snd (send_and_parse send parse request key s) = snd (send request key s)"
  by (simp add: send_and_parse_def split: prod.split transport_result.split option.split)

lemma send_and_parse_wire:
  assumes "send_and_parse (transport_send reserve_call record_call seal_call en adapters env) parse request key (db, wire) =
      (outcome, db', wire')"
  shows "wire' = wire \<or> (\<exists>w. wire' = wire @ [w] \<and>
    rr_projected_payload (ws_request w) = er_payload request \<and>
    rr_stage (ws_request w) = er_stage request \<and> rr_run_id (ws_request w) = er_run_id request)"
proof -
  from send_and_parse_state [of "transport_send reserve_call record_call seal_call en adapters env" parse request key "(db, wire)"]
    assms
  obtain result where "transport_send reserve_call record_call seal_call en adapters env request key (db, wire) =
      (result, db', wire')" by (metis prod.collapse snd_conv)
  then show ?thesis by (rule transport_send_wire)
qed

lemma select_all_list:
  "select_all f ids = Some xs \<Longrightarrow> list_all2 (\<lambda>i x. f i = Some x) ids xs"
  by (induction ids arbitrary: xs) (auto split: option.splits)

lemma evidence_by_id_unique:
  assumes "filter (\<lambda>e. ee_content_hash (ev_excerpt e) = i) evidence = [e]"
  shows "evidence_by_id evidence i = Some e"
proof -
  have only: "e' = e" if "e' \<in> set evidence" "ee_content_hash (ev_excerpt e') = i" for e'
  proof -
    from that have "e' \<in> set (filter (\<lambda>e. ee_content_hash (ev_excerpt e) = i) evidence)" by simp
    then show ?thesis unfolding assms by simp
  qed
  have "e \<in> set (filter (\<lambda>e. ee_content_hash (ev_excerpt e) = i) evidence)" unfolding assms by simp
  then have e: "e \<in> set evidence" "ee_content_hash (ev_excerpt e) = i" by simp_all
  then have "i \<in> (\<lambda>e. ee_content_hash (ev_excerpt e)) ` set evidence" by blast
  then have "evidence_by_id evidence i \<noteq> None"
    unfolding evidence_by_id_def map_of_eq_None_iff by (simp add: image_image)
  then obtain e' where "evidence_by_id evidence i = Some e'" by blast
  moreover from map_of_SomeD [OF this [unfolded evidence_by_id_def]] only have "e' = e" by auto
  ultimately show ?thesis by simp
qed

text \<open>
  Only verified text reaches the semantic verifier's model. If the deterministic result is
  that of the candidate over this evidence, then whatever the stage sends carries, for each
  identifier the candidate names and in that order, the whole text of a unit of the frozen
  corpus in the run's scope; if the result did not pass, nothing is sent; and a decision that is
  accepted judges exactly the identifiers that were sent.
\<close>

theorem semantic_sends_verified_text:
  assumes run: "semantic_stage read_decision (transport_send reserve_call record_call seal_call en adapters env)
      candidate evidence (verify_candidate sha256 corpus manifest allowed evidence (ic_candidate candidate)) c (db, wire) =
      (outcome, db', wire')"
  shows "(wire' = wire \<or>
      (\<exists>w excerpts. wire' = wire @ [w] \<and>
        rr_projected_payload (ws_request w) = L2AtomicClaim \<lparr>lc_atomic_claim_id = ic_claim_id candidate,
          lc_atomic_claim = cc_claim (ic_candidate candidate), lc_version = context_version c,
          lc_toc_nodes = [], lc_evidence_excerpts = excerpts\<rparr> \<and>
        list_all2 (\<lambda>i x. ee_content_hash x = i \<and> (\<exists>u \<in> set (lc_units corpus). iu_document_id u \<in> allowed \<and>
            ee_quote x = iu_text u \<and> i = sha256 (iu_text u)))
          (cc_evidence_ids (ic_candidate candidate)) excerpts)) \<and>
    (outcome = DeterministicVerificationRequired \<or>
      result_passed (verify_candidate sha256 corpus manifest allowed evidence (ic_candidate candidate))) \<and>
    (case outcome of
       StageProduced d _ _ \<Rightarrow> set (map sd_evidence_id (sn_evidence d)) = set (cc_evidence_ids (ic_candidate candidate))
     | _ \<Rightarrow> True)"
proof -
  let ?ids = "cc_evidence_ids (ic_candidate candidate)"
  let ?det = "verify_candidate sha256 corpus manifest allowed evidence (ic_candidate candidate)"
  let ?send = "transport_send reserve_call record_call seal_call en adapters env"
  show ?thesis
  proof (cases "result_passed ?det \<and> \<not> (?ids = [] \<or> set ?ids \<noteq> set (map ci_content_hash (dr_citations ?det))) \<and>
      select_all (evidence_by_id evidence) ?ids \<noteq> None")
    case False
    with run have "outcome = DeterministicVerificationRequired \<and> wire' = wire"
      by (auto simp: semantic_stage_def Let_def split: if_splits option.splits)
    then show ?thesis by simp
  next
    case True
    then obtain selected where passed: "result_passed ?det"
      and selected: "select_all (evidence_by_id evidence) ?ids = Some selected" by blast
    let ?payload = "L2AtomicClaim \<lparr>lc_atomic_claim_id = ic_claim_id candidate,
          lc_atomic_claim = cc_claim (ic_candidate candidate), lc_version = context_version c,
          lc_toc_nodes = [], lc_evidence_excerpts = map ev_excerpt selected\<rparr>"
    have backed: "list_all2 (\<lambda>i x. ee_content_hash x = i \<and> (\<exists>u \<in> set (lc_units corpus). iu_document_id u \<in> allowed \<and>
            ee_quote x = iu_text u \<and> i = sha256 (iu_text u))) ?ids (map ev_excerpt selected)"
      unfolding list_all2_conv_all_nth
    proof (rule conjI [OF _ allI [OF impI]])
      from select_all_list [OF selected] show "length ?ids = length (map ev_excerpt selected)"
        by (auto dest: list_all2_lengthD)
    next
      fix k assume k: "k < length ?ids"
      from select_all_list [OF selected] k have s: "evidence_by_id evidence (?ids ! k) = Some (selected ! k)"
        "k < length selected" by (auto simp: list_all2_conv_all_nth)
      from result_passed_iff [THEN iffD1, OF passed] k
      have "dk_fault (fst (verify_handle sha256 corpus manifest allowed evidence (?ids ! k))) = None" by auto
      then obtain e u where e: "filter (\<lambda>e. ee_content_hash (ev_excerpt e) = ?ids ! k) evidence = [e]"
        "verify_disclosure sha256 corpus manifest allowed e = Inr u" by (rule verify_handle_passed)
      from evidence_by_id_unique [OF e(1)] s have "selected ! k = e" by simp
      moreover have "ee_content_hash (ev_excerpt e) = ?ids ! k"
        using e(1) by (metis (mono_tags, lifting) filter_eq_Cons_iff)
      moreover from e(2) have "u \<in> set (lc_units corpus)" "iu_document_id u \<in> allowed"
        "ee_quote (ev_excerpt e) = iu_text u" "ee_content_hash (ev_excerpt e) = sha256 (iu_text u)"
        unfolding verify_disclosure_iff by (auto dest: resolve_unit_Some) (metis evidence_excerpt.select_convs)+
      ultimately show "ee_content_hash (map ev_excerpt selected ! k) = ?ids ! k \<and>
          (\<exists>u \<in> set (lc_units corpus). iu_document_id u \<in> allowed \<and>
            ee_quote (map ev_excerpt selected ! k) = iu_text u \<and> ?ids ! k = sha256 (iu_text u))"
        using s(2) by auto
    qed
    show ?thesis
    proof (cases "stage_request c L2 VerifierStage ?payload")
      case (Inl e)
      with run True selected have "outcome = StageValueError e \<and> wire' = wire"
        by (auto simp: semantic_stage_def Let_def)
      with passed show ?thesis by simp
    next
      case (Inr request)
      with run True selected have sent: "send_and_parse ?send (parse_decision read_decision ?ids) request
          (stage_key (sx_run_id c) ''verifier'' (sx_idempotency_key c) (sx_reconstruction_generation c)) (db, wire) =
        (outcome, db', wire')"
        by (auto simp: semantic_stage_def Let_def)
      from Inr have "er_payload request = ?payload"
        by (auto simp: stage_request_def bind_result_Inr)
      with send_and_parse_wire [OF sent]
      have "wire' = wire \<or> (\<exists>w. wire' = wire @ [w] \<and> rr_projected_payload (ws_request w) = ?payload)"
        by (simp only:) blast
      then have "wire' = wire \<or> (\<exists>w excerpts. wire' = wire @ [w] \<and>
        rr_projected_payload (ws_request w) = L2AtomicClaim \<lparr>lc_atomic_claim_id = ic_claim_id candidate,
          lc_atomic_claim = cc_claim (ic_candidate candidate), lc_version = context_version c,
          lc_toc_nodes = [], lc_evidence_excerpts = excerpts\<rparr> \<and>
        list_all2 (\<lambda>i x. ee_content_hash x = i \<and> (\<exists>u \<in> set (lc_units corpus). iu_document_id u \<in> allowed \<and>
            ee_quote x = iu_text u \<and> i = sha256 (iu_text u))) ?ids excerpts)"
        using backed by (elim disjE exE conjE) (blast, iprover)
      moreover have "case outcome of StageProduced d _ _ \<Rightarrow> set (map sd_evidence_id (sn_evidence d)) = set ?ids | _ \<Rightarrow> True"
        using sent by (auto simp: send_and_parse_def parse_decision_def
            split: prod.splits transport_result.splits option.splits if_splits stage_outcome.splits)
      ultimately show ?thesis using passed by blast
    qed
  qed
qed

text \<open>The reference for the bounded selection: the first excerpt of each hash.\<close>

fun unique_excerpts :: "string list \<Rightarrow> evidence list \<Rightarrow> evidence list" where
  "unique_excerpts seen [] = []"
| "unique_excerpts seen (e # es) =
     (if ee_content_hash (ev_excerpt e) \<in> set seen then unique_excerpts seen es
      else e # unique_excerpts (ee_content_hash (ev_excerpt e) # seen) es)"

lemma bounded_unique_from_take:
  "n < 12 \<Longrightarrow> bounded_unique_from seen n es = take (12 - n) (unique_excerpts seen es)"
proof (induction seen n es rule: bounded_unique_from.induct)
  case (2 seen n e es)
  show ?case
  proof (cases "ee_content_hash (ev_excerpt e) \<in> set seen \<or> Suc n = 12")
    case True
    with 2 show ?thesis by auto
  next
    case False
    with 2 have "bounded_unique_from (ee_content_hash (ev_excerpt e) # seen) (Suc n) es =
        take (12 - Suc n) (unique_excerpts (ee_content_hash (ev_excerpt e) # seen) es)" by simp
    with False 2(3) show ?thesis by (simp add: Suc_diff_Suc take_Cons')
  qed
qed simp

lemma unique_excerpts_set:
  "x \<in> set (unique_excerpts seen es) \<Longrightarrow> x \<in> set es \<and> ee_content_hash (ev_excerpt x) \<notin> set seen"
  by (induction seen es rule: unique_excerpts.induct) (auto split: if_splits)

lemma unique_excerpts_distinct: "distinct (map (ee_content_hash \<circ> ev_excerpt) (unique_excerpts seen es))"
  by (induction seen es rule: unique_excerpts.induct) (auto dest: unique_excerpts_set)

lemma unique_excerpts_cover:
  "ee_content_hash (ev_excerpt x) \<notin> set seen \<Longrightarrow> x \<in> set es \<Longrightarrow>
    ee_content_hash (ev_excerpt x) \<in> (ee_content_hash \<circ> ev_excerpt) ` set (unique_excerpts seen es)"
proof (induction seen es rule: unique_excerpts.induct)
  case (2 seen e es)
  then show ?case
    by (cases "ee_content_hash (ev_excerpt x) = ee_content_hash (ev_excerpt e)") (auto split: if_splits)
qed simp

text \<open>
  What the compliance model is shown is bounded and nothing but evidence of the run. The
  excerpts sent are the first twelve distinct ones of the evidence, in its order: every one is
  in the evidence, no two share a hash, and if there are fewer than twelve then none is missing.
  A batch that is accepted has one to three candidates, each identified by its own normalized
  claim, all different.
\<close>

theorem compliance_sends_bounded_evidence:
  assumes run: "compliance_stage sha256 read_batch (transport_send reserve_call record_call seal_call en adapters env)
      description evidence c (db, wire) = (outcome, db', wire')"
  shows "(wire' = wire \<or>
      (\<exists>w es. wire' = wire @ [w] \<and>
        rr_projected_payload (ws_request w) = L2Design \<lparr>ld_design_description = description,
          ld_version = context_version c, ld_toc_nodes = [], ld_evidence_excerpts = map ev_excerpt es\<rparr> \<and>
        length es \<le> 12 \<and> set es \<subseteq> set evidence \<and> distinct (map (ee_content_hash \<circ> ev_excerpt) es) \<and>
        (length es = 12 \<or> (ee_content_hash \<circ> ev_excerpt) ` set es = (ee_content_hash \<circ> ev_excerpt) ` set evidence))) \<and>
    (case outcome of
       StageProduced p _ _ \<Rightarrow> 1 \<le> length (cp_candidates p) \<and> length (cp_candidates p) \<le> 3 \<and>
         list_all (identified_valid sha256) (cp_candidates p) \<and> distinct (map ic_claim_id (cp_candidates p)) \<and>
         map ic_candidate (cp_candidates p) = cp_batch p
     | _ \<Rightarrow> True)"
proof -
  define es where "es = bounded_unique_evidence evidence"
  have es: "es = take 12 (unique_excerpts [] evidence)"
    by (simp add: es_def bounded_unique_evidence_def bounded_unique_from_take)
  have sub: "set es \<subseteq> set evidence" using unique_excerpts_set by (force simp: es dest!: in_set_takeD)
  have distinct: "distinct (map (ee_content_hash \<circ> ev_excerpt) es)"
    using unique_excerpts_distinct [of "[]" evidence] by (simp add: es flip: take_map)
  have bound: "length es \<le> 12" by (simp add: es)
  have whole: "length es = 12 \<or> (ee_content_hash \<circ> ev_excerpt) ` set es = (ee_content_hash \<circ> ev_excerpt) ` set evidence"
  proof (cases "12 \<le> length (unique_excerpts [] evidence)")
    case False
    then have "es = unique_excerpts [] evidence" by (simp add: es)
    with sub unique_excerpts_cover [of _ "[]" evidence] show ?thesis by fastforce
  qed (simp add: es)
  let ?payload = "L2Design \<lparr>ld_design_description = description, ld_version = context_version c,
      ld_toc_nodes = [], ld_evidence_excerpts = map ev_excerpt es\<rparr>"
  show ?thesis
  proof (cases "stage_request c L2 ComplianceStage ?payload")
    case (Inl e)
    with run have "outcome = StageValueError e \<and> wire' = wire"
      by (auto simp: compliance_stage_def Let_def es_def)
    then show ?thesis by simp
  next
    case (Inr request)
    define parse where "parse = (\<lambda>content. case read_batch content of
              None \<Rightarrow> None
            | Some batch \<Rightarrow>
                if \<not> batch_valid sha256 batch then None
                else Some \<lparr>cp_batch = batch, cp_candidates = map (\<lambda>x.
                  \<lparr>ic_claim_id = normalized_claim_id sha256 (cc_claim x), ic_candidate = x\<rparr>) batch\<rparr>)"
    from Inr run have sent: "send_and_parse (transport_send reserve_call record_call seal_call en adapters env) parse request
        (stage_key (sx_run_id c) ''compliance'' (sx_idempotency_key c) (sx_reconstruction_generation c)) (db, wire) =
        (outcome, db', wire')"
      by (auto simp: compliance_stage_def Let_def es_def parse_def)
    from Inr have "er_payload request = ?payload" by (auto simp: stage_request_def bind_result_Inr)
    with send_and_parse_wire [OF sent]
    have "wire' = wire \<or> (\<exists>w. wire' = wire @ [w] \<and> rr_projected_payload (ws_request w) = ?payload)"
      by (simp only:) blast
    then have one: "wire' = wire \<or>
      (\<exists>w es. wire' = wire @ [w] \<and>
        rr_projected_payload (ws_request w) = L2Design \<lparr>ld_design_description = description,
          ld_version = context_version c, ld_toc_nodes = [], ld_evidence_excerpts = map ev_excerpt es\<rparr> \<and>
        length es \<le> 12 \<and> set es \<subseteq> set evidence \<and> distinct (map (ee_content_hash \<circ> ev_excerpt) es) \<and>
        (length es = 12 \<or> (ee_content_hash \<circ> ev_excerpt) ` set es = (ee_content_hash \<circ> ev_excerpt) ` set evidence))"
    proof
      assume "\<exists>w. wire' = wire @ [w] \<and> rr_projected_payload (ws_request w) = ?payload"
      then obtain w where "wire' = wire @ [w]" "rr_projected_payload (ws_request w) = ?payload" by blast
      with sub distinct whole bound show ?thesis
        by - (rule disjI2, rule exI [of _ w], rule exI [of _ es], intro conjI)
    qed (rule disjI1)
    have accepted: "batch_valid sha256 (cp_batch p) \<and> cp_candidates p = map (\<lambda>x.
        \<lparr>ic_claim_id = normalized_claim_id sha256 (cc_claim x), ic_candidate = x\<rparr>) (cp_batch p)"
      if "outcome = StageProduced p i m" for p i m
      using sent that by (auto simp: send_and_parse_def parse_def
          split: prod.splits transport_result.splits option.splits if_splits)
    have "case outcome of
       StageProduced p _ _ \<Rightarrow> 1 \<le> length (cp_candidates p) \<and> length (cp_candidates p) \<le> 3 \<and>
         list_all (identified_valid sha256) (cp_candidates p) \<and> distinct (map ic_claim_id (cp_candidates p)) \<and>
         map ic_candidate (cp_candidates p) = cp_batch p
     | _ \<Rightarrow> True"
    proof (cases outcome)
      case (StageProduced p i m)
      with accepted [OF this] show ?thesis
        by (auto simp: batch_valid_def identified_valid_def list_all_iff comp_def)
    qed simp_all
    with one show ?thesis by (rule conjI)
  qed
qed

text \<open>
  A plan that the planner returns can be run. It satisfies every rule of a plan, costs at
  most six calls for an L1 run and eight for an L2 run, and a collection that starts with that
  budget is never refused for its cost: the only way it can fail is a tool's answer or the plan
  naming another corpus.
\<close>

theorem planned_plan_is_collectable:
  assumes planned: "plan_stage sha256 schema read_plan send question c s = (StageProduced p i m, s')"
    and run: "collect_evidence hash client units p corpus (max_tool_calls (sx_task_level c)) 0 = (Inl e, calls)"
  shows "tool_plan_valid p \<and> base_call_cost p \<le> max_tool_calls (sx_task_level c) \<and>
    e \<in> {''invalid_corpus_scope'', ''invalid_tool_result'', ''invalid_tool_result_scope'', ''value_error''}"
proof -
  from planned have p: "tool_plan_valid p" "base_call_cost p \<le> max_tool_calls (sx_task_level c)"
    by (auto simp: plan_stage_def send_and_parse_def Let_def validate_tool_plan_Inr
        split: if_splits sum.splits prod.splits transport_result.splits option.splits)
  let ?errors = "{''invalid_tool_result'', ''invalid_tool_result_scope'', ''value_error''}"
  have decode: "x \<in> ?errors" if "decode_success hash units corpus tool args r = Inl x" for x tool args r
    using that by (auto simp: decode_success_def evidence_from_clause_def bind_result_Inl
        split: tool_name.splits structured.splits if_splits option.splits sum.splits)
  have loop: "x \<in> ?errors" if "call_loop (decode_success hash units corpus tool' args') client' budget tool args retries terminal attempts log =
      (Inl x, rest)" for x tool' args' client' budget tool args retries terminal attempts log rest
    using that
  proof (induction "decode_success hash units corpus tool' args'" client' budget tool args retries terminal attempts log
      rule: call_loop.induct)
    case (1 client' budget tool args retries terminal attempts log)
    let ?r = "mc_reply client' log tool args"
    show ?case
    proof (cases "\<exists>y. decode_success hash units corpus tool' args' y = Inl x")
      case True
      with decode show ?thesis by blast
    next
      case False
      with 1(2) obtain e where "attempts < budget" and again: "call_error_code ?r = Some e"
        "e = mcp_error_value ToolTimeout \<and> retries = 0 \<and> Suc attempts < budget"
        by (subst (asm) call_loop.simps)
          (auto simp: Let_def split: option.splits call_result.splits sum.splits if_splits)
      from 1(2) this have "call_loop (decode_success hash units corpus tool' args') client' budget tool args 1 e
          (Suc attempts) (log @ [(tool, args)]) = (Inl x, rest)"
        by (subst (asm) call_loop.simps) (simp add: Let_def)
      from 1(1) [OF \<open>attempts < budget\<close> refl refl refl again this] show ?thesis .
    qed
  qed
  have invocations: "x \<in> ?errors"
    if "run_invocations (decode_success hash units corpus tool') client budget st argss ids as = (Inl x, as')"
    for x tool' budget st argss ids as as'
    using that
    by (induction argss arbitrary: ids as) (auto simp: Let_def split: sum.splits prod.splits option.splits dest: loop)
  have steps: "x \<in> ?errors"
    if "run_steps (\<lambda>s. decode_success hash units corpus (step_tool (ts_args s))) client budget ss outputs as = (Inl x, as')"
    for x budget ss outputs as as'
    using that
    by (induction ss arbitrary: outputs as)
      (auto split: sum.splits prod.splits option.splits dest: invocations)
  from run p(2) steps have "e \<in> {''invalid_corpus_scope'', ''invalid_tool_result'', ''invalid_tool_result_scope'', ''value_error''}"
    by (auto simp: collect_evidence_def validate_tool_plan_def split: if_splits sum.splits prod.splits)
  with p show ?thesis by blast
qed

section \<open>Concrete stages\<close>

definition sample_context :: stage_context where
  "sample_context = \<lparr>sx_source_manifest = sample_source, sx_corpus_manifest_id = ''44'',
     sx_evaluation_root_id = ''root'', sx_run_id = ''run'', sx_model_id = ''model'',
     sx_idempotency_key = ''initial'', sx_task_level = L1, sx_reconstruction_generation = 0\<rparr>"

definition sample_metadata :: response_metadata where
  "sample_metadata = \<lparr>md_prompt_tokens = 9, md_completion_tokens = 4, md_finish_reason = ''stop'',
     md_duration_ms = 2, md_tool_call_count = 0, md_request_bytes = 40\<rparr>"

definition sample_reply :: "egress_request \<Rightarrow> string \<Rightarrow> unit \<Rightarrow> transport_result \<times> unit" where
  "sample_reply request key s = (Receipt \<lparr>pr_provider_id = ''provider'', pr_model_id = ''model'',
     pr_content = ''plan'', pr_metadata = sample_metadata\<rparr> ''reservation''
     \<lparr>rs_request_tokens = 9, rs_request_bytes = 40\<rparr>, s)"

lemma sample_route_authorized: "authorized_route sample_source = Inr sample_route"
  by (simp add: authorized_route_def sample_source_def sample_manifest_defs)

lemma sample_plan_valid: "tool_plan_valid sample_plan"
  by (simp add: sample_plan_def tool_plan_valid_def step_dependencies_valid_def)

lemma sample_planned:
  "plan_stage digest (\<lambda>_. JNull) (\<lambda>_. Some sample_plan) sample_reply ''what is safe?'' sample_context () =
    (StageProduced sample_plan ''reservation'' \<lparr>rs_request_tokens = 9, rs_request_bytes = 40\<rparr>, ())"
proof -
  have "base_call_cost sample_plan = 3" by (simp add: base_call_cost_def sample_plan_def call_cost_def)
  then show ?thesis
    by (simp add: plan_stage_def send_and_parse_def stage_request_def sample_context_def sample_route_authorized
        sample_reply_def sample_plan_valid validate_tool_plan_def max_tool_calls_def Let_def)
qed

theorem planned_plan_is_collectable_witness:
  "collect_evidence digest sample_client sample_corpus sample_plan ''45'' 6 0 = (Inl ''invalid_corpus_scope'', []) \<and>
   base_call_cost sample_plan \<le> 6"
proof -
  have "collect_evidence digest sample_client sample_corpus sample_plan ''45'' 6 0 = (Inl ''invalid_corpus_scope'', [])"
    by (simp add: collect_evidence_def validate_tool_plan_def base_call_cost_def sample_plan_def call_cost_def)
  moreover have "max_tool_calls (sx_task_level sample_context) = 6"
    by (simp add: max_tool_calls_def sample_context_def)
  ultimately show ?thesis
    using planned_plan_is_collectable [OF sample_planned, of digest sample_client sample_corpus "''45''"] by simp
qed

theorem logical_keys_distinct_witness:
  "\<exists>g. logical_stage_key ''run'' ''planning'' None True g = logical_stage_key ''run'' ''planning'' None False 3 \<and> g = 3"
proof -
  have same: "logical_stage_key ''run'' ''planning'' None True 3 = logical_stage_key ''run'' ''planning'' None False 3"
    by (simp add: logical_stage_key_def)
  from logical_keys_distinct [OF same] same show ?thesis by auto
qed

lemma sample_hash_of_evidence: "ee_content_hash (ev_excerpt sample_unit_evidence) = replicate 64 (CHR ''a'')"
  unfolding sample_unit_evidence_def
  by (simp add: build_evidence_from_unit_def build_evidence_record_def Let_def digest_def sample_unit_def)

lemma sample_cited:
  "dr_citations (verify_candidate digest sample_corpus ''44'' {''rfc''} [sample_unit_evidence] sample_candidate) =
    [unit_citation digest sample_unit ''44'']"
proof -
  have "verify_disclosure digest sample_corpus ''44'' {''rfc''} sample_unit_evidence = Inr sample_unit"
    by (rule built_evidence_verifies [OF load_corpus_ok [OF sample_corpus_loaded] _ _ sample_unit_built])
      (simp_all add: sample_corpus_units, simp add: sample_unit_def)
  with sample_hash_of_evidence show ?thesis
    unfolding passed_citations [OF sample_candidate_passes]
    by (simp add: sample_candidate_def verify_handle_def)
qed

text \<open>No adapter serves the route, so a candidate that passed is not sent either.\<close>

lemma sample_semantic_run:
  "semantic_stage (\<lambda>_. None) (transport_send (\<lambda>c rr n k db. (Inl RunSealed, db))
        (\<lambda>c i r m a d e db. (Inl RunSealed, db)) (\<lambda>c r i t db. (Inr (), db)) sample_enforcer [] sample_env)
      sample_identified [sample_unit_evidence]
      (verify_candidate digest sample_corpus ''44'' {''rfc''} [sample_unit_evidence] (ic_candidate sample_identified))
      sample_context ((), []) = (StageRaised NoAdapterForRoute, (), [])"
proof -
  have candidate: "ic_candidate sample_identified = sample_candidate" by (simp add: sample_identified_def)
  have ids: "cc_evidence_ids sample_candidate = [replicate 64 (CHR ''a'')]" by (simp add: sample_candidate_def)
  have "ci_content_hash (unit_citation digest sample_unit ''44'') = replicate 64 (CHR ''a'')"
    by (simp add: unit_citation_def digest_def)
  then show ?thesis
    unfolding candidate semantic_stage_def Let_def sample_cited ids
    using sample_candidate_passes sample_hash_of_evidence
    by (simp add: evidence_by_id_def stage_request_def sample_context_def sample_route_authorized
        send_and_parse_def transport_send_def adapter_for_def)
qed

theorem semantic_sends_verified_text_witness:
  "result_passed (verify_candidate digest sample_corpus ''44'' {''rfc''} [sample_unit_evidence]
    (ic_candidate sample_identified))"
  using semantic_sends_verified_text [OF sample_semantic_run] by (elim conjE disjE) simp_all

lemma sample_compliance_run:
  "compliance_stage digest (\<lambda>_. None) (transport_send (\<lambda>c rr n k db. (Inl RunSealed, db))
        (\<lambda>c i r m a d e db. (Inl RunSealed, db)) (\<lambda>c r i t db. (Inr (), db)) sample_enforcer [] sample_env)
      ''is it safe?'' [sample_unit_evidence] sample_context ((), []) = (StageRaised NoAdapterForRoute, (), [])"
  by (simp add: compliance_stage_def stage_request_def sample_context_def sample_route_authorized
      send_and_parse_def transport_send_def adapter_for_def Let_def)

theorem compliance_sends_bounded_evidence_witness:
  "\<exists>wire'. snd (compliance_stage digest (\<lambda>_. None) (transport_send (\<lambda>c rr n k db. (Inl RunSealed, db))
        (\<lambda>c i r m a d e db. (Inl RunSealed, db)) (\<lambda>c r i t db. (Inr (), db)) sample_enforcer [] sample_env)
      ''is it safe?'' [sample_unit_evidence] sample_context ((), [])) = ((), wire') \<and> length wire' \<le> 1"
  using compliance_sends_bounded_evidence [OF sample_compliance_run] sample_compliance_run by auto

end
