(* ===== verification/Actions.thy ===== *)
theory Actions
  imports ModelStages
begin

text \<open>
  The language of the orchestrators in \<open>runtime/\<close>: actions over a state that may end in an
  exception, what a model call answers and raises, and a weakest-precondition calculus.
\<close>

section \<open>Receipts and exceptions\<close>

record 'p stage_receipt =
  sr_product :: 'p
  sr_reservation_id :: string
  sr_replayed :: bool
  sr_request_size :: request_size

text \<open>
  The exceptions that the orchestrator catches, each with the receipt it carries, and any other,
  by its name, which leaves it.
\<close>

record egress_receipt =
  gr_reservation_id :: string
  gr_replayed :: bool
  gr_request_size :: "request_size option"

datatype l2_exception =
    PolicyViolation string
  | ProviderAttemptFailed egress_receipt string
  | TransportReplay egress_receipt
  | InvalidPlan egress_receipt
  | InvalidCompliance egress_receipt
  | InvalidSemantic egress_receipt
  | GenerationBudgetExhausted
  | Uncaught string

section \<open>Actions\<close>

type_synonym ('s, 'a) action = "'s \<Rightarrow> (l2_exception + 'a) \<times> 's"

definition ret :: "'a \<Rightarrow> ('s, 'a) action" where
  "ret x st = (Inr x, st)"

definition raise_l2 :: "l2_exception \<Rightarrow> ('s, 'a) action" where
  "raise_l2 e st = (Inl e, st)"

definition bind_l2 :: "('s, 'a) action \<Rightarrow> ('a \<Rightarrow> ('s, 'b) action) \<Rightarrow> ('s, 'b) action" where
  "bind_l2 m f st = (case m st of (Inl e, st1) \<Rightarrow> (Inl e, st1) | (Inr x, st1) \<Rightarrow> f x st1)"

definition with_state :: "('s \<Rightarrow> ('s, 'a) action) \<Rightarrow> ('s, 'a) action" where
  "with_state f st = f st st"

definition update_l2 :: "('s \<Rightarrow> 's) \<Rightarrow> ('s, unit) action" where
  "update_l2 f st = (Inr (), f st)"

definition lift :: "l2_exception + 'a \<Rightarrow> ('s, 'a) action" where
  "lift r = (case r of Inl e \<Rightarrow> raise_l2 e | Inr x \<Rightarrow> ret x)"

text \<open>An early return of the claim ends the steps after it.\<close>

definition or_return ::
  "('s, 'r + 'a) action \<Rightarrow> ('a \<Rightarrow> ('s, 'r) action) \<Rightarrow> ('s, 'r) action" where
  "or_return m f = bind_l2 m (\<lambda>x. case x of Inl r \<Rightarrow> ret r | Inr y \<Rightarrow> f y)"

definition and_then ::
  "('s, 'r + 'a) action \<Rightarrow> ('a \<Rightarrow> ('s, 'r + 'b) action) \<Rightarrow> ('s, 'r + 'b) action" where
  "and_then m f = bind_l2 m (\<lambda>x. case x of Inl r \<Rightarrow> ret (Inl r) | Inr y \<Rightarrow> f y)"

section \<open>Weakest preconditions\<close>

text \<open>\<open>Q\<close> of the answer and the state it leaves, \<open>E\<close> of the exception and the state it leaves.\<close>

definition wp ::
  "('s, 'a) action \<Rightarrow> ('a \<Rightarrow> 's \<Rightarrow> bool) \<Rightarrow> (l2_exception \<Rightarrow> 's \<Rightarrow> bool) \<Rightarrow> 's \<Rightarrow> bool" where
  "wp m Q E st = (case m st of (Inr x, st1) \<Rightarrow> Q x st1 | (Inl e, st1) \<Rightarrow> E e st1)"

named_theorems wp_simps
named_theorems wp_rules

lemma wp_ret [wp_simps]: "wp (ret x) Q E = Q x"
  by (simp add: wp_def ret_def fun_eq_iff)

lemma wp_raise [wp_simps]: "wp (raise_l2 e) Q E = E e"
  by (simp add: wp_def raise_l2_def fun_eq_iff)

lemma wp_bind [wp_simps]: "wp (bind_l2 m f) Q E = wp m (\<lambda>x. wp (f x) Q E) E"
  by (simp add: wp_def bind_l2_def fun_eq_iff split: prod.split sum.split)

lemma wp_with_state [wp_simps]: "wp (with_state f) Q E st = wp (f st) Q E st"
  by (simp add: wp_def with_state_def)

lemma wp_update [wp_simps]: "wp (update_l2 f) Q E st = Q () (f st)"
  by (simp add: wp_def update_l2_def)

lemma wp_lift [wp_simps]: "wp (lift r) Q E = (case r of Inl e \<Rightarrow> E e | Inr x \<Rightarrow> Q x)"
  by (simp add: lift_def wp_ret wp_raise split: sum.split)

lemma wp_and_then [wp_simps]:
  "wp (and_then m f) Q E = wp m (\<lambda>x. case x of Inl r \<Rightarrow> Q (Inl r) | Inr y \<Rightarrow> wp (f y) Q E) E"
proof -
  have "(\<lambda>x. wp (case x of Inl r \<Rightarrow> ret (Inl r) | Inr y \<Rightarrow> f y) Q E) =
      (\<lambda>x. case x of Inl r \<Rightarrow> Q (Inl r) | Inr y \<Rightarrow> wp (f y) Q E)"
    by (auto simp: fun_eq_iff wp_ret split: sum.split)
  then show ?thesis by (simp add: and_then_def wp_bind)
qed

lemma wp_or_return [wp_simps]:
  "wp (or_return m f) Q E = wp m (\<lambda>x. case x of Inl r \<Rightarrow> Q r | Inr y \<Rightarrow> wp (f y) Q E) E"
proof -
  have "(\<lambda>x. wp (case x of Inl r \<Rightarrow> ret r | Inr y \<Rightarrow> f y) Q E) =
      (\<lambda>x. case x of Inl r \<Rightarrow> Q r | Inr y \<Rightarrow> wp (f y) Q E)"
    by (auto simp: fun_eq_iff wp_ret split: sum.split)
  then show ?thesis by (simp add: or_return_def wp_bind)
qed

lemma wp_cases [wp_simps]:
  "wp (if b then m else n) Q E = (if b then wp m Q E else wp n Q E)"
  "wp (case r of Inl x \<Rightarrow> f x | Inr y \<Rightarrow> g y) Q E = (case r of Inl x \<Rightarrow> wp (f x) Q E | Inr y \<Rightarrow> wp (g y) Q E)"
  "wp (case z of None \<Rightarrow> m | Some v \<Rightarrow> h v) Q E = (case z of None \<Rightarrow> wp m Q E | Some v \<Rightarrow> wp (h v) Q E)"
  "wp (case p of (v, w) \<Rightarrow> k v w) Q E = (case p of (v, w) \<Rightarrow> wp (k v w) Q E)"
  by (simp_all split: sum.split option.split prod.split)

lemma wp_mono:
  assumes "wp m Q E st" "\<And>x s. Q x s \<Longrightarrow> Q' x s" "\<And>e s. E e s \<Longrightarrow> E' e s"
  shows "wp m Q' E' st"
  using assms by (auto simp: wp_def split: prod.splits sum.splits)

end
