(* ===== verification/RunContracts.thy ===== *)
theory RunContracts
  imports Recovery Complex_Main
begin

text \<open>
  \<open>runs/contracts.py\<close>: the closed trace of an asynchronous run. Sixteen kinds of event, each
  with its own bounds and validator, the durable record of a run and the view its owner reads.
  Timestamps are microseconds of UTC; a naive one cannot be written down.
\<close>

section \<open>Constrained strings\<close>

definition identifier_char :: "char \<Rightarrow> bool" where
  "identifier_char c \<longleftrightarrow> is_alnum c \<or> c \<in> set ''._:/-''"

definition trace_identifier :: "string \<Rightarrow> bool" where
  "trace_identifier s \<longleftrightarrow> length s \<le> 128 \<and>
     (case s of [] \<Rightarrow> False | c # cs \<Rightarrow> is_alnum c \<and> list_all identifier_char cs)"

definition argument_key :: "string \<Rightarrow> bool" where
  "argument_key s \<longleftrightarrow> length s \<le> 64 \<and>
     (case s of [] \<Rightarrow> False
      | c # cs \<Rightarrow> (is_lower c \<or> is_upper c) \<and> list_all (\<lambda>x. is_alnum x \<or> x = CHR ''_'') cs)"

definition terminal_reason :: "string \<Rightarrow> bool" where
  "terminal_reason s \<longleftrightarrow> length s \<le> 64 \<and>
     (case s of [] \<Rightarrow> False
      | c # cs \<Rightarrow> is_lower c \<and> list_all (\<lambda>x. is_lower x \<or> is_decimal x \<or> x = CHR ''_'') cs)"

definition optional :: "('a \<Rightarrow> bool) \<Rightarrow> 'a option \<Rightarrow> bool" where
  "optional P x = (case x of None \<Rightarrow> True | Some y \<Rightarrow> P y)"

definition is_count :: "nat \<Rightarrow> bool" where "is_count n \<longleftrightarrow> n \<le> 1000000"
definition is_duration :: "nat \<Rightarrow> bool" where "is_duration n \<longleftrightarrow> n \<le> 3600000"
definition is_cost :: "nat \<Rightarrow> bool" where "is_cost n \<longleftrightarrow> n \<le> 1000000000"

section \<open>Enumerations\<close>

datatype run_status = Queued | Running | RunAnswered | RunRefused | EgressBlocked | RunFailed | Interrupted

datatype resume_disposition =
    ResumeAcquired
  | ResumeReplay
  | ResumeNotFound
  | NotOwner
  | NotInterrupted
  | QueryMismatch
  | BindingMismatch
  | CheckpointMissing
  | CheckpointInvalid
  | Leased

definition is_nonterminal :: "run_status \<Rightarrow> bool" where
  "is_nonterminal s \<longleftrightarrow> s \<in> {Queued, Running}"

datatype agent_name = Orchestrator | EvidenceAgentName | AnswerAgent | VerifierAgent | ComplianceAgentName

datatype agent_phase = PhaseStarted | PhaseFinished

section \<open>Events\<close>

record agent_step_event =
  ag_agent :: agent_name
  ag_step_id :: string
  ag_phase :: agent_phase
  ag_duration_ms :: "nat option"
  ag_error_code :: "string option"

record tool_finished_event =
  tf_step_id :: string
  tf_tool :: tool_name
  tf_argument_keys :: "string list"
  tf_result_count :: nat
  tf_duration_ms :: nat
  tf_retry_count :: nat
  tf_error_code :: "string option"

record egress_summary_event =
  es_stage :: egress_stage
  es_reservation_id :: "string option"
  es_ledger_id :: "string option"
  es_admitted :: bool
  es_replayed :: bool
  es_request_tokens :: "nat option"
  es_request_bytes :: "nat option"
  es_cost_microunits :: "nat option"
  es_error_code :: "string option"

record usage_summary_event =
  ug_stage :: egress_stage
  ug_prompt_tokens :: nat
  ug_completion_tokens :: nat
  ug_request_bytes :: nat
  ug_duration_ms :: nat
  ug_cost_microunits :: nat

record answer_outcome_event =
  ao_verdict :: answer_verdict
  ao_refusal_reason :: "string option"
  ao_provider_error :: "string option"
  ao_reservation_id :: "string option"
  ao_replayed :: bool
  ao_parse_fault_code :: "string option"

record verifier_check_summary =
  vc_evidence_id :: "string option"
  vc_passed :: bool
  vc_fault_code :: "string option"

text \<open>The score of a candidate is a finite float, hence a rational number.\<close>

datatype event_body =
    StateTransition "run_status option" run_status "string option"
  | PlanSummary string nat nat
  | AgentStep agent_step_event
  | ToolFinished tool_finished_event
  | CandidateSummary "(string \<times> rat) list"
  | EvidenceSummary "(string \<times> string) list"
  | EgressSummary egress_summary_event
  | UsageSummary usage_summary_event
  | AnswerOutcomeEvent answer_outcome_event
  | VerifierSummary "verifier_check_summary list" nat
  | CheckpointSummary string nat nat bool
  | ComplianceSummary nat "string list"
  | SemanticSummary string bool string
  | RecoverySummary string string nat
  | ResumeSummary nat
  | TerminalEvent run_status "string option"

record run_event =
  re_sequence :: nat
  re_body :: event_body

definition admission_has_a_stable_result :: "egress_summary_event \<Rightarrow> bool" where
  [contract_defs]: "admission_has_a_stable_result e \<longleftrightarrow>
     (if es_admitted e
      then es_reservation_id e \<noteq> None \<and> es_error_code e = None \<and>
        (es_request_tokens e = None \<longleftrightarrow> es_request_bytes e = None)
      else es_error_code e \<noteq> None \<and>
        \<not> (es_reservation_id e \<noteq> None \<or> es_ledger_id e \<noteq> None \<or> es_replayed e \<or>
          es_request_tokens e \<noteq> None \<or> es_request_bytes e \<noteq> None \<or> es_cost_microunits e \<noteq> None))"

definition verdict_has_its_own_reason :: "answer_outcome_event \<Rightarrow> bool" where
  [contract_defs]: "verdict_has_its_own_reason e \<longleftrightarrow>
     \<not> (ao_verdict e = Answered \<and> ao_refusal_reason e \<noteq> None) \<and>
     \<not> (ao_verdict e = Refused \<and> ao_refusal_reason e = None)"

definition failure_has_a_stable_fault :: "verifier_check_summary \<Rightarrow> bool" where
  [contract_defs]: "failure_has_a_stable_fault c \<longleftrightarrow>
     \<not> (vc_passed c \<and> vc_fault_code c \<noteq> None) \<and> \<not> (\<not> vc_passed c \<and> vc_fault_code c = None)"

definition claim_count_and_ids_agree :: "nat \<Rightarrow> string list \<Rightarrow> bool" where
  [contract_defs]: "claim_count_and_ids_agree n ids \<longleftrightarrow> \<not> (n \<noteq> length ids \<or> \<not> distinct ids)"

definition status_is_terminal :: "run_status \<Rightarrow> string option \<Rightarrow> bool" where
  [contract_defs]: "status_is_terminal status reason \<longleftrightarrow>
     \<not> is_nonterminal status \<and> \<not> (status = RunAnswered \<and> reason \<noteq> None) \<and>
     \<not> (status \<noteq> RunAnswered \<and> reason = None)"

definition checkpoint_stage_names :: "string list" where
  "checkpoint_stage_names =
     [''planned'', ''evidence_collected'', ''candidate_built'', ''deterministic_verified'',
      ''recovery_reserved'', ''recovery_completed'', ''semantic_verified'', ''completed'']"

fun body_valid :: "event_body \<Rightarrow> bool" where
  "body_valid (StateTransition previous status reason) = optional terminal_reason reason"
| "body_valid (PlanSummary plan_id step_count calls) =
     (trace_identifier plan_id \<and> 1 \<le> step_count \<and> step_count \<le> 4 \<and> 1 \<le> calls \<and> calls \<le> 8)"
| "body_valid (AgentStep e) =
     (trace_identifier (ag_step_id e) \<and> optional is_duration (ag_duration_ms e) \<and>
      optional terminal_reason (ag_error_code e))"
| "body_valid (ToolFinished e) =
     (trace_identifier (tf_step_id e) \<and> length (tf_argument_keys e) \<le> 16 \<and>
      list_all argument_key (tf_argument_keys e) \<and> is_count (tf_result_count e) \<and>
      is_duration (tf_duration_ms e) \<and> tf_retry_count e \<le> 1 \<and> optional terminal_reason (tf_error_code e))"
| "body_valid (CandidateSummary cs) =
     (length cs \<le> 20 \<and>
      list_all (\<lambda>(i, score). trace_identifier i \<and> - 1000000000000 \<le> score \<and> score \<le> 1000000000000) cs)"
| "body_valid (EvidenceSummary es) =
     (length es \<le> 5 \<and> list_all (\<lambda>(i, h). sha256_text i \<and> sha256_text h) es)"
| "body_valid (EgressSummary e) =
     (optional is_count (es_request_tokens e) \<and> optional is_count (es_request_bytes e) \<and>
      optional is_cost (es_cost_microunits e) \<and> optional terminal_reason (es_error_code e) \<and>
      admission_has_a_stable_result e)"
| "body_valid (UsageSummary e) =
     (is_count (ug_prompt_tokens e) \<and> is_count (ug_completion_tokens e) \<and> is_count (ug_request_bytes e) \<and>
      is_duration (ug_duration_ms e) \<and> is_cost (ug_cost_microunits e))"
| "body_valid (AnswerOutcomeEvent e) =
     (optional terminal_reason (ao_refusal_reason e) \<and> optional terminal_reason (ao_provider_error e) \<and>
      optional terminal_reason (ao_parse_fault_code e) \<and> verdict_has_its_own_reason e)"
| "body_valid (VerifierSummary checks ms) =
     (length checks \<le> 20 \<and> is_duration ms \<and>
      list_all (\<lambda>c. optional sha256_text (vc_evidence_id c) \<and> optional terminal_reason (vc_fault_code c) \<and>
        failure_has_a_stable_fault c) checks)"
| "body_valid (CheckpointSummary stage version attempts recovery) =
     (stage \<in> set checkpoint_stage_names \<and> 1 \<le> version \<and> attempts \<le> 8)"
| "body_valid (ComplianceSummary n ids) =
     (1 \<le> n \<and> n \<le> 3 \<and> 1 \<le> length ids \<and> length ids \<le> 3 \<and> list_all sha256_text ids \<and>
      claim_count_and_ids_agree n ids)"
| "body_valid (SemanticSummary claim supports reason) = (sha256_text claim \<and> terminal_reason reason)"
| "body_valid (RecoverySummary kind reason remaining) =
     (kind \<in> {''scoped_search'', ''get_clause'', ''expand_references''} \<and> terminal_reason reason \<and> remaining \<le> 8)"
| "body_valid (ResumeSummary attempt) = (2 \<le> attempt)"
| "body_valid (TerminalEvent status reason) = (optional terminal_reason reason \<and> status_is_terminal status reason)"

definition event_valid :: "run_event \<Rightarrow> bool" where
  [contract_defs]: "event_valid e \<longleftrightarrow> 1 \<le> re_sequence e \<and> re_sequence e \<le> 10000 \<and> body_valid (re_body e)"

section \<open>Runs\<close>

record run_record =
  rn_run_id :: string
  rn_request_id :: string
  rn_session_id :: string
  rn_task_level :: task_level
  rn_evaluation_root_id :: "string option"
  rn_profile :: string
  rn_source_manifest_id :: string
  rn_corpus_manifest_id :: string
  rn_policy_hash :: string
  rn_configuration_hash :: string
  rn_prompt_id :: string
  rn_prompt_hash :: string
  rn_compliance_prompt_hash :: "string option"
  rn_verifier_prompt_hash :: "string option"
  rn_provider_id :: string
  rn_model_id :: string
  rn_query_hash :: string
  rn_status :: run_status
  rn_terminal_reason :: "string option"
  rn_created_at :: int
  rn_started_at :: "int option"
  rn_completed_at :: "int option"
  rn_lease_owner :: "string option"
  rn_lease_expires_at :: "int option"
  rn_last_heartbeat_at :: "int option"

text \<open>The constrained fields; \<open>StringConstraints\<close> here, \<open>CHECK\<close>s of the same patterns in the table.\<close>

definition run_fields_valid :: "run_record \<Rightarrow> bool" where
  "run_fields_valid r \<longleftrightarrow>
     list_all trace_identifier [rn_session_id r, rn_profile r, rn_prompt_id r, rn_provider_id r, rn_model_id r] \<and>
     list_all sha256_text [rn_source_manifest_id r, rn_corpus_manifest_id r, rn_policy_hash r,
       rn_configuration_hash r, rn_prompt_hash r, rn_query_hash r] \<and>
     optional trace_identifier (rn_evaluation_root_id r) \<and> optional sha256_text (rn_compliance_prompt_hash r) \<and>
     optional sha256_text (rn_verifier_prompt_hash r) \<and> optional terminal_reason (rn_terminal_reason r) \<and>
     optional trace_identifier (rn_lease_owner r)"

definition activity_floor :: "run_record \<Rightarrow> int" where
  "activity_floor r = (case rn_started_at r of None \<Rightarrow> rn_created_at r | Some t \<Rightarrow> t)"

definition state_and_lease_agree :: "run_record \<Rightarrow> bool" where
  "state_and_lease_agree r \<longleftrightarrow>
     (rn_lease_owner r = None \<longleftrightarrow> rn_lease_expires_at r = None) \<and>
     (if is_nonterminal (rn_status r)
      then rn_terminal_reason r = None \<and> rn_completed_at r = None \<and> rn_lease_owner r \<noteq> None
      else rn_completed_at r \<noteq> None \<and>
        (rn_status r = RunAnswered \<longleftrightarrow> rn_terminal_reason r = None) \<and>
        rn_lease_owner r = None \<and> rn_last_heartbeat_at r = None)"

definition timestamps_agree :: "run_record \<Rightarrow> bool" where
  "timestamps_agree r \<longleftrightarrow>
     \<not> (rn_status r = Queued \<and> rn_started_at r \<noteq> None) \<and>
     \<not> (rn_status r = Running \<and> rn_started_at r = None) \<and>
     optional (\<lambda>t. rn_created_at r \<le> t) (rn_started_at r) \<and>
     optional (\<lambda>t. activity_floor r \<le> t) (rn_completed_at r) \<and>
     optional (\<lambda>t. rn_created_at r < t) (rn_lease_expires_at r) \<and>
     (case rn_last_heartbeat_at r of
        None \<Rightarrow> True
      | Some beat \<Rightarrow>
          (case rn_lease_expires_at r of
             None \<Rightarrow> False
           | Some expiry \<Rightarrow> activity_floor r \<le> beat \<and> beat \<le> expiry))"

definition level_bindings_agree :: "run_record \<Rightarrow> bool" where
  "level_bindings_agree r \<longleftrightarrow>
     (if rn_task_level r = L2
      then rn_evaluation_root_id r \<noteq> None \<and> rn_compliance_prompt_hash r \<noteq> None \<and>
        rn_verifier_prompt_hash r \<noteq> None
      else rn_evaluation_root_id r = None \<and> rn_compliance_prompt_hash r = None \<and>
        rn_verifier_prompt_hash r = None)"

text \<open>What the table's \<open>CHECK\<close>s demand of a row, and the stricter validator of the record.\<close>

definition run_row_ok :: "run_record \<Rightarrow> bool" where
  "run_row_ok r \<longleftrightarrow> run_fields_valid r \<and> state_and_lease_agree r \<and> timestamps_agree r \<and> level_bindings_agree r"

definition run_record_valid :: "run_record \<Rightarrow> bool" where
  [contract_defs]: "run_record_valid r \<longleftrightarrow> run_row_ok r \<and>
     \<not> (rn_task_level r = L2 \<and> rn_compliance_prompt_hash r = rn_verifier_prompt_hash r)"

record run_view =
  vw_run :: run_record
  vw_status :: run_status
  vw_reason :: "string option"
  vw_events :: "run_event list"

text \<open>
  A view copies its run's identifiers, level, profile, corpus and times; \<open>vw_run\<close> stands for
  them. Status and reason are its own.
\<close>

definition run_view_valid :: "run_view \<Rightarrow> bool" where
  [contract_defs]: "run_view_valid v \<longleftrightarrow>
     (let r = vw_run v; status = vw_status v; reason = vw_reason v in
      optional terminal_reason reason \<and> length (vw_events v) \<le> 10000 \<and> list_all event_valid (vw_events v) \<and>
      \<not> (is_nonterminal status \<and> reason \<noteq> None) \<and>
      \<not> (status = RunAnswered \<and> reason \<noteq> None) \<and>
      \<not> (\<not> is_nonterminal status \<and> status \<noteq> RunAnswered \<and> reason = None) \<and>
      \<not> (is_nonterminal status \<and> rn_completed_at r \<noteq> None) \<and>
      \<not> (status \<in> {RunAnswered, RunRefused, EgressBlocked, RunFailed} \<and> rn_completed_at r = None) \<and>
      \<not> (status = Queued \<and> rn_started_at r \<noteq> None) \<and>
      \<not> (status = Running \<and> rn_started_at r = None) \<and>
      optional (\<lambda>t. rn_created_at r \<le> t) (rn_started_at r) \<and>
      optional (\<lambda>t. activity_floor r \<le> t) (rn_completed_at r) \<and>
      sorted_wrt (<) (map re_sequence (vw_events v)))"

end
