(* ===== verification/CheckpointContracts.thy ===== *)
theory CheckpointContracts
  imports RunContracts
begin

text \<open>
  \<open>checkpoints/contracts.py\<close>: the checkpoint of a resumable L2 run, its validator and the one
  relation two successive checkpoints may stand in. A checkpoint holds hashes, counters and
  identifiers, and no text.
\<close>

section \<open>Stages\<close>

datatype checkpoint_stage =
    Planned
  | EvidenceCollected
  | CandidateBuilt
  | DeterministicVerified
  | RecoveryReserved
  | RecoveryCompleted
  | SemanticVerified
  | StageCompleted

fun stage_name :: "checkpoint_stage \<Rightarrow> string" where
  "stage_name Planned = ''planned''"
| "stage_name EvidenceCollected = ''evidence_collected''"
| "stage_name CandidateBuilt = ''candidate_built''"
| "stage_name DeterministicVerified = ''deterministic_verified''"
| "stage_name RecoveryReserved = ''recovery_reserved''"
| "stage_name RecoveryCompleted = ''recovery_completed''"
| "stage_name SemanticVerified = ''semantic_verified''"
| "stage_name StageCompleted = ''completed''"

fun legal_transitions :: "checkpoint_stage \<Rightarrow> checkpoint_stage list" where
  "legal_transitions Planned = [Planned, EvidenceCollected]"
| "legal_transitions EvidenceCollected = [EvidenceCollected, CandidateBuilt]"
| "legal_transitions CandidateBuilt =
     [CandidateBuilt, DeterministicVerified, RecoveryReserved, RecoveryCompleted]"
| "legal_transitions DeterministicVerified =
     [DeterministicVerified, SemanticVerified, RecoveryReserved, RecoveryCompleted]"
| "legal_transitions RecoveryReserved = [RecoveryReserved, RecoveryCompleted, SemanticVerified]"
| "legal_transitions RecoveryCompleted = [RecoveryCompleted, DeterministicVerified]"
| "legal_transitions SemanticVerified = [SemanticVerified, DeterministicVerified, StageCompleted]"
| "legal_transitions StageCompleted = []"

section \<open>Checkpoints\<close>

record evidence_checkpoint_ref =
  kr_evidence_id :: string
  kr_content_hash :: string
  kr_quote_hash :: string
  kr_clause_id :: string
  kr_document_id :: string
  kr_document_version :: string
  kr_section_number :: "string option"
  kr_paragraph_start :: nat
  kr_paragraph_end :: nat
  kr_token_start :: nat
  kr_token_end :: nat

definition span_is_ordered :: "evidence_checkpoint_ref \<Rightarrow> bool" where
  [contract_defs]: "span_is_ordered r \<longleftrightarrow>
     \<not> kr_paragraph_end r < kr_paragraph_start r \<and> \<not> kr_token_end r < kr_token_start r"

definition evidence_ref_valid :: "evidence_checkpoint_ref \<Rightarrow> bool" where
  [contract_defs]: "evidence_ref_valid r \<longleftrightarrow>
     list_all sha256_text [kr_evidence_id r, kr_content_hash r, kr_quote_hash r, kr_clause_id r] \<and>
     span_is_ordered r"

record stage_generation =
  sg_stage :: string
  sg_claim_id :: "string option"
  sg_recovery :: bool
  sg_generation :: nat

definition generation_valid :: "stage_generation \<Rightarrow> bool" where
  [contract_defs]: "generation_valid g \<longleftrightarrow>
     sg_stage g \<in> {''planning'', ''compliance'', ''verifier''} \<and> optional sha256_text (sg_claim_id g) \<and>
     \<not> (sg_stage g = ''planning'' \<and> sg_claim_id g \<noteq> None) \<and>
     \<not> (sg_stage g = ''verifier'' \<and> sg_claim_id g = None)"

record checkpoint_binding =
  kb_source_manifest_id :: string
  kb_corpus_manifest_id :: string
  kb_policy_hash :: string
  kb_configuration_hash :: string
  kb_compliance_prompt_hash :: string
  kb_verifier_prompt_hash :: string
  kb_provider_id :: string
  kb_model_id :: string

record run_checkpoint =
  kp_run_id :: string
  kp_attempt :: nat
  kp_version :: nat
  kp_stage :: checkpoint_stage
  kp_task_level :: task_level
  kp_query_hash :: string
  kp_evaluation_root_id :: string
  kp_binding :: checkpoint_binding
  kp_plan_id :: "string option"
  kp_plan_hash :: "string option"
  kp_evidence :: "evidence_checkpoint_ref list"
  kp_tool_attempts_used :: nat
  kp_reservation_ids :: "string list"
  kp_generations :: "stage_generation list"
  kp_recovery_attempted :: bool
  kp_recovery_reason :: "string option"
  kp_recovery_claim_id :: "string option"
  kp_candidate_count :: nat
  kp_completed_claim_ids :: "string list"
  kp_completed_results :: "compliance_result list"
  kp_last_accessed_at :: int

definition checkpoint_fields_valid :: "run_checkpoint \<Rightarrow> bool" where
  "checkpoint_fields_valid k \<longleftrightarrow>
     1 \<le> kp_attempt k \<and> 1 \<le> kp_version k \<and> kp_task_level k = L2 \<and>
     sha256_text (kp_query_hash k) \<and> trace_identifier (kp_evaluation_root_id k) \<and>
     list_all sha256_text [kb_source_manifest_id (kp_binding k), kb_corpus_manifest_id (kp_binding k),
       kb_policy_hash (kp_binding k), kb_configuration_hash (kp_binding k),
       kb_compliance_prompt_hash (kp_binding k), kb_verifier_prompt_hash (kp_binding k)] \<and>
     trace_identifier (kb_provider_id (kp_binding k)) \<and> trace_identifier (kb_model_id (kp_binding k)) \<and>
     optional trace_identifier (kp_plan_id k) \<and> optional sha256_text (kp_plan_hash k) \<and>
     length (kp_evidence k) \<le> 12 \<and> list_all evidence_ref_valid (kp_evidence k) \<and>
     kp_tool_attempts_used k \<le> 8 \<and> length (kp_reservation_ids k) \<le> 8 \<and>
     length (kp_generations k) \<le> 8 \<and> list_all generation_valid (kp_generations k) \<and>
     optional terminal_reason (kp_recovery_reason k) \<and> optional sha256_text (kp_recovery_claim_id k) \<and>
     kp_candidate_count k \<le> 3 \<and> length (kp_completed_claim_ids k) \<le> 3 \<and>
     list_all sha256_text (kp_completed_claim_ids k) \<and> length (kp_completed_results k) \<le> 3 \<and>
     list_all compliance_result_valid (kp_completed_results k)"

definition checkpoint_valid :: "run_checkpoint \<Rightarrow> bool" where
  [contract_defs]: "checkpoint_valid k \<longleftrightarrow> checkpoint_fields_valid k \<and>
     kb_compliance_prompt_hash (kp_binding k) \<noteq> kb_verifier_prompt_hash (kp_binding k) \<and>
     (kp_plan_id k = None \<longleftrightarrow> kp_plan_hash k = None) \<and>
     \<not> (kp_stage k \<in> {RecoveryReserved, RecoveryCompleted} \<and> \<not> kp_recovery_attempted k) \<and>
     \<not> (\<not> kp_recovery_attempted k \<and> kp_recovery_reason k \<noteq> None) \<and>
     \<not> (kp_stage k = RecoveryReserved \<and> kp_recovery_claim_id k = None) \<and>
     \<not> (kp_stage k \<noteq> RecoveryReserved \<and> kp_recovery_claim_id k \<noteq> None) \<and>
     distinct (kp_completed_claim_ids k) \<and>
     kp_completed_claim_ids k = map cr_claim_id (kp_completed_results k) \<and>
     \<not> kp_candidate_count k < length (kp_completed_results k) \<and>
     distinct (kp_reservation_ids k) \<and>
     distinct (map kr_evidence_id (kp_evidence k)) \<and>
     distinct (kp_generations k)"

section \<open>Transitions\<close>

text \<open>\<open>validate_transition\<close>: the message of the first rule that is broken.\<close>

definition validate_transition :: "run_checkpoint \<Rightarrow> run_checkpoint \<Rightarrow> string + unit" where
  "validate_transition previous current =
     (if kp_run_id previous \<noteq> kp_run_id current \<or> kp_attempt previous \<noteq> kp_attempt current
      then Inl ''checkpoint run and attempt are immutable''
      else if kp_version current \<noteq> kp_version previous + 1
      then Inl ''checkpoint versions advance by one''
      else if kp_stage current \<notin> set (legal_transitions (kp_stage previous))
      then Inl ''checkpoint stage transition is illegal''
      else if kp_task_level previous \<noteq> kp_task_level current \<or> kp_query_hash previous \<noteq> kp_query_hash current \<or>
        kp_evaluation_root_id previous \<noteq> kp_evaluation_root_id current \<or> kp_binding previous \<noteq> kp_binding current
      then Inl ''checkpoint binding is immutable''
      else if kp_tool_attempts_used current < kp_tool_attempts_used previous
      then Inl ''tool attempts are monotonic''
      else if \<not> set (kp_reservation_ids previous) \<subseteq> set (kp_reservation_ids current)
      then Inl ''reservation IDs are monotonic''
      else if \<not> set (kp_generations previous) \<subseteq> set (kp_generations current)
      then Inl ''reconstruction generations are monotonic''
      else if kp_recovery_attempted previous \<and> \<not> kp_recovery_attempted current
      then Inl ''recovery attempt is monotonic''
      else if kp_candidate_count current < kp_candidate_count previous
      then Inl ''candidate cursor is monotonic''
      else if \<not> set (kp_completed_claim_ids previous) \<subseteq> set (kp_completed_claim_ids current)
      then Inl ''completed claim IDs are monotonic''
      else if kp_stage previous = RecoveryReserved \<and> kp_stage current = RecoveryReserved \<and>
        kp_recovery_claim_id current \<noteq> kp_recovery_claim_id previous
      then Inl ''reserved recovery claim ID is immutable''
      else if kp_stage previous = RecoveryReserved \<and> kp_stage current \<noteq> RecoveryReserved \<and>
        kp_recovery_claim_id current \<noteq> None
      then Inl ''recovery claim ID clears when reservation exits''
      else if kp_stage current \<in> {RecoveryReserved, RecoveryCompleted} \<and> \<not> kp_recovery_attempted current
      then Inl ''recovery_completed requires recovery_attempted''
      else Inr ())"

text \<open>What every legal transition keeps, and so every history of them.\<close>

definition carries :: "run_checkpoint \<Rightarrow> run_checkpoint \<Rightarrow> bool" where
  "carries k k' \<longleftrightarrow>
     kp_run_id k' = kp_run_id k \<and> kp_query_hash k' = kp_query_hash k \<and>
     kp_evaluation_root_id k' = kp_evaluation_root_id k \<and> kp_binding k' = kp_binding k \<and>
     kp_version k \<le> kp_version k' \<and> kp_tool_attempts_used k \<le> kp_tool_attempts_used k' \<and>
     set (kp_reservation_ids k) \<subseteq> set (kp_reservation_ids k') \<and>
     set (kp_generations k) \<subseteq> set (kp_generations k') \<and>
     (kp_recovery_attempted k \<longrightarrow> kp_recovery_attempted k') \<and>
     kp_candidate_count k \<le> kp_candidate_count k' \<and>
     set (kp_completed_claim_ids k) \<subseteq> set (kp_completed_claim_ids k')"

lemma carries_refl: "carries k k"
  by (simp add: carries_def)

lemma carries_trans: "carries a b \<Longrightarrow> carries b c \<Longrightarrow> carries a c"
  by (auto simp: carries_def)

lemma validate_transition_carries:
  "validate_transition k k' = Inr u \<Longrightarrow> carries k k' \<and> kp_version k' = Suc (kp_version k) \<and>
    kp_attempt k' = kp_attempt k \<and> kp_task_level k' = kp_task_level k \<and> kp_stage k \<noteq> StageCompleted"
  by (auto simp: validate_transition_def carries_def split: if_splits)

end
