(* ===== verification/L2State.thy ===== *)
theory L2State
  imports Actions CheckpointContracts
begin

text \<open>
  The parts of \<open>runtime/l2.py\<close> that the orchestration of an L2 run is composed of: what its
  collaborators answer and raise, the state an attempt carries, and the checkpoint operations.
  The collaborators (planner, evidence agent, compliance agent, verifiers, recovery, checkpoint
  writer, lease, audit sink) are functions over a state \<open>'s\<close> of their own.
\<close>

section \<open>Answers, exceptions and audit facts\<close>

type_synonym planner_result = "tool_plan stage_receipt"
type_synonym compliance_outcome = "compliance_product stage_receipt"
type_synonym semantic_outcome = "semantic_decision stage_receipt"

datatype l2_audit_event =
    PlanningAudit planner_result
  | EvidenceAudit "tool_call_summary list" "string list"
  | ComplianceAudit compliance_outcome
  | EgressAudit egress_stage egress_receipt
  | DeterministicAudit string string deterministic_result
  | SemanticAudit string semantic_outcome
  | RecoveryAudit string recovery_outcome

record l2_outcome =
  lo_results :: "compliance_result list"
  lo_reservation_ids :: "string list"
  lo_tool_attempts_used :: nat
  lo_recovery_attempted :: bool
  lo_provider_error :: "string option"
  lo_parse_fault :: "string option"
  lo_egress_error :: "string option"
  lo_compliance :: "compliance_outcome option"
  lo_semantic_outcomes :: "(string \<times> semantic_outcome) list"
  lo_recovery_outcomes :: "recovery_outcome list"
  lo_evidence_calls :: "tool_call_summary list"
  lo_deterministic_outcomes :: "(string \<times> deterministic_result) list"
  lo_audit_events :: "l2_audit_event list"
  lo_checkpoints :: "run_checkpoint list"
  lo_planning :: "planner_result option"

section \<open>Context and state\<close>

text \<open>
  A model call gets the key or the key's suffix, and the generation. The writer takes the
  version it expects to replace.
\<close>

record 's l2_context =
  lx_run_id :: string
  lx_corpus_manifest_id :: string
  lx_planner :: "string \<Rightarrow> nat \<Rightarrow> 's \<Rightarrow> (l2_exception + planner_result) \<times> 's"
  lx_collect :: "tool_plan \<Rightarrow> string \<Rightarrow> nat \<Rightarrow> nat \<Rightarrow> 's \<Rightarrow> (l2_exception + evidence_result) \<times> 's"
  lx_compliance :: "evidence list \<Rightarrow> string \<Rightarrow> nat \<Rightarrow> 's \<Rightarrow> (l2_exception + compliance_outcome) \<times> 's"
  lx_semantic :: "identified_candidate \<Rightarrow> evidence list \<Rightarrow> deterministic_result \<Rightarrow> string \<Rightarrow> nat \<Rightarrow>
    's \<Rightarrow> (l2_exception + semantic_outcome) \<times> 's"
  lx_deterministic :: "compliance_candidate \<Rightarrow> evidence list \<Rightarrow> deterministic_result"
  lx_recovery :: "identified_candidate \<Rightarrow> evidence list \<Rightarrow> string list \<Rightarrow> nat \<Rightarrow>
    's \<Rightarrow> (l2_exception + recovery_outcome) \<times> 's"
  lx_checkpoint :: "run_checkpoint option"
  lx_checkpoint_factory :: "run_checkpoint option"
  lx_checkpoint_writer :: "(nat option \<Rightarrow> run_checkpoint \<Rightarrow> 's \<Rightarrow> (l2_exception + run_checkpoint) \<times> 's) option"
  lx_evidence_restorer :: "(evidence_checkpoint_ref list \<Rightarrow> evidence list) option"
  lx_plan_hash :: "tool_plan \<Rightarrow> string"
  lx_lease_is_live :: "'s \<Rightarrow> bool \<times> 's"
  lx_audit_sink :: "(l2_audit_event \<Rightarrow> 's \<Rightarrow> (l2_exception + unit) \<times> 's) option"

text \<open>
  The local variables that the exception handlers of \<open>run_l2_attempt\<close> read, the lists it passes
  down by reference, the collaborators' state, and a log of the model calls made: each with its
  stage, claim, branch and generation, and the number of checkpoints written before it.
\<close>

type_synonym stage_token = "egress_stage \<times> string option \<times> bool \<times> nat"

record 's l2_state =
  ls_checkpoint :: "run_checkpoint option"
  ls_reservations :: "string list"
  ls_attempts :: nat
  ls_recovered :: bool
  ls_evidence :: "evidence list"
  ls_written :: "run_checkpoint list"
  ls_deterministic :: "(string \<times> deterministic_result) list"
  ls_audit_events :: "l2_audit_event list"
  ls_sent :: "(stage_token \<times> nat) list"
  ls_env :: 's

type_synonym ('s, 'a) l2m = "('s l2_state, 'a) action"

text \<open>An operation of a collaborator.\<close>

definition await :: "('s \<Rightarrow> (l2_exception + 'a) \<times> 's) \<Rightarrow> ('s, 'a) l2m" where
  "await op st = (case op (ls_env st) of (r, s) \<Rightarrow> (r, st\<lparr>ls_env := s\<rparr>))"

definition lease_is_live :: "'s l2_context \<Rightarrow> ('s, bool) l2m" where
  "lease_is_live ctx = await (\<lambda>s. case lx_lease_is_live ctx s of (live, s1) \<Rightarrow> (Inr live, s1))"

definition emit_audit :: "'s l2_context \<Rightarrow> l2_audit_event \<Rightarrow> ('s, unit) l2m" where
  "emit_audit ctx event =
     (case lx_audit_sink ctx of None \<Rightarrow> ret () | Some sink \<Rightarrow> await (sink event))"

definition caught_receipt :: "egress_stage \<Rightarrow> l2_exception \<Rightarrow> egress_receipt option" where
  "caught_receipt stage e = (case e of ProviderAttemptFailed r _ \<Rightarrow> Some r | TransportReplay r \<Rightarrow> Some r
     | InvalidPlan r \<Rightarrow> (if stage = Planning then Some r else None)
     | InvalidCompliance r \<Rightarrow> (if stage = ComplianceStage then Some r else None)
     | InvalidSemantic r \<Rightarrow> (if stage = VerifierStage then Some r else None)
     | _ \<Rightarrow> None)"

text \<open>
  One model call: it is logged, and an exception of the kinds that its caller catches is audited
  before it goes on.
\<close>

definition send_stage ::
  "'s l2_context \<Rightarrow> stage_token \<Rightarrow> ('s \<Rightarrow> (l2_exception + 'a) \<times> 's) \<Rightarrow> ('s, 'a) l2m" where
  "send_stage ctx token op st =
     (case await op (st\<lparr>ls_sent := ls_sent st @ [(token, length (ls_written st))]\<rparr>) of
        (Inr x, st1) \<Rightarrow> (Inr x, st1)
      | (Inl e, st1) \<Rightarrow>
          (case caught_receipt (fst token) e of
             None \<Rightarrow> (Inl e, st1)
           | Some r \<Rightarrow> bind_l2 (emit_audit ctx (EgressAudit (fst token) r)) (\<lambda>_. raise_l2 e) st1))"

section \<open>Evidence\<close>

definition evidence_ref :: "evidence \<Rightarrow> evidence_checkpoint_ref" where
  "evidence_ref e = \<lparr>kr_evidence_id = ee_content_hash (ev_excerpt e), kr_content_hash = ee_content_hash (ev_excerpt e),
     kr_quote_hash = ee_quote_hash (ev_excerpt e), kr_clause_id = dc_clause_id (ev_disclosed e),
     kr_document_id = dc_document_id (ev_disclosed e), kr_document_version = dc_document_version (ev_disclosed e),
     kr_section_number = dc_section_number (ev_disclosed e),
     kr_paragraph_start = paragraph_start (ee_span (ev_excerpt e)),
     kr_paragraph_end = paragraph_end (ee_span (ev_excerpt e)),
     kr_token_start = token_start (ee_span (ev_excerpt e)), kr_token_end = token_end (ee_span (ev_excerpt e))\<rparr>"

definition evidence_refs :: "evidence list \<Rightarrow> l2_exception + evidence_checkpoint_ref list" where
  "evidence_refs evidence =
     (if list_all (evidence_ref_valid \<circ> evidence_ref) evidence then Inr (map evidence_ref evidence)
      else Inl (Uncaught ''validation_error''))"

text \<open>\<open>_bounded_evidence\<close>: the loop of the compliance agent again.\<close>

definition bounded_evidence :: "evidence list \<Rightarrow> evidence list" where
  "bounded_evidence es = bounded_unique_evidence es"

definition restore :: "'s l2_context \<Rightarrow> run_checkpoint option \<Rightarrow> l2_exception + evidence list" where
  "restore ctx checkpoint =
     (case (checkpoint, lx_evidence_restorer ctx) of
        (Some k, Some restorer) \<Rightarrow>
          let restored = restorer (kp_evidence k) in
          if length restored \<noteq> length (kp_evidence k) then Inr []
          else (case evidence_refs restored of
             Inl e \<Rightarrow> Inl e
           | Inr actual \<Rightarrow> Inr (if actual \<noteq> kp_evidence k then [] else restored))
      | _ \<Rightarrow> Inr [])"

section \<open>Candidates and results\<close>

definition candidate_batch_is_consistent :: "run_checkpoint option \<Rightarrow> identified_candidate list \<Rightarrow> bool" where
  "candidate_batch_is_consistent checkpoint candidates =
     (case checkpoint of
        None \<Rightarrow> length candidates \<le> 3
      | Some k \<Rightarrow>
          let ids = map ic_claim_id candidates in
          if \<not> distinct ids \<or> 3 < length ids then False
          else if kp_candidate_count k \<noteq> 0 \<and> length ids \<noteq> kp_candidate_count k then False
          else set (kp_completed_claim_ids k) \<subseteq> set ids)"

definition recovery_reservation_is_consistent :: "run_checkpoint option \<Rightarrow> identified_candidate list \<Rightarrow> bool" where
  "recovery_reservation_is_consistent checkpoint candidates =
     (case checkpoint of
        None \<Rightarrow> True
      | Some k \<Rightarrow>
          if kp_stage k \<noteq> RecoveryReserved then True
          else (case kp_recovery_claim_id k of
             None \<Rightarrow> False
           | Some claim \<Rightarrow> length (filter (\<lambda>c. ic_claim_id c = claim) candidates) = 1 \<and>
               claim \<notin> set (kp_completed_claim_ids k)))"

definition recovery_candidate_first :: "run_checkpoint option \<Rightarrow> identified_candidate list \<Rightarrow> identified_candidate list" where
  "recovery_candidate_first checkpoint candidates =
     (case checkpoint of
        None \<Rightarrow> candidates
      | Some k \<Rightarrow>
          if kp_stage k \<noteq> RecoveryReserved then candidates
          else filter (\<lambda>c. Some (ic_claim_id c) = kp_recovery_claim_id k) candidates @
            filter (\<lambda>c. Some (ic_claim_id c) \<noteq> kp_recovery_claim_id k) candidates)"

text \<open>A candidate with the last four excerpts of the evidence, if that is a valid one.\<close>

definition rebuilt :: "identified_candidate \<Rightarrow> evidence list \<Rightarrow> l2_exception + identified_candidate" where
  "rebuilt c evidence =
     (let x = (ic_candidate c)\<lparr>cc_evidence_ids :=
          map (\<lambda>e. ee_content_hash (ev_excerpt e)) (drop (length evidence - 4) evidence)\<rparr> in
      if candidate_valid x then Inr (c\<lparr>ic_candidate := x\<rparr>) else Inl (Uncaught ''validation_error''))"

definition checked_result :: "compliance_result \<Rightarrow> l2_exception + compliance_result" where
  "checked_result r = (if compliance_result_valid r then Inr r else Inl (Uncaught ''validation_error''))"

definition verified_result :: "identified_candidate \<Rightarrow> deterministic_result \<Rightarrow> l2_exception + compliance_result" where
  "verified_result c d = checked_result \<lparr>cr_claim_id = ic_claim_id c,
     cr_verdict = cc_proposed_verdict (ic_candidate c), cr_verification_status = Verified,
     cr_citations = dr_citations d, cr_reason_code = None\<rparr>"

definition insufficient_result :: "string \<Rightarrow> verification_status \<Rightarrow> string \<Rightarrow> compliance_result" where
  "insufficient_result claim_id status reason = \<lparr>cr_claim_id = claim_id, cr_verdict = InsufficientEvidence,
     cr_verification_status = status, cr_citations = [], cr_reason_code = Some reason\<rparr>"

definition fault_values :: "deterministic_result \<Rightarrow> string list" where
  "fault_values d = map fault_value (List.map_filter dk_fault (dr_checks d))"

definition failure_reason :: "deterministic_result \<Rightarrow> string" where
  "failure_reason d = (case fault_values d of [] \<Rightarrow> ''no_verified_evidence'' | reason # _ \<Rightarrow> reason)"

section \<open>Checkpoints\<close>

text \<open>The keyword arguments of \<open>_advance\<close>, and their defaults.\<close>

record checkpoint_updates =
  up_evidence :: "evidence list"
  up_reservation_ids :: "string list"
  up_attempts :: nat
  up_recovered :: bool
  up_recovery_reason :: "string option"
  up_recovery_claim_id :: "string option"
  up_plan_id :: "string option"
  up_plan_hash :: "string option"
  up_completed_results :: "compliance_result list"
  up_candidate_count :: "nat option"
  up_allow_same_stage :: bool

definition updates :: "nat \<Rightarrow> bool \<Rightarrow> checkpoint_updates" where
  "updates attempts has_recovered = \<lparr>up_evidence = [], up_reservation_ids = [], up_attempts = attempts,
     up_recovered = has_recovered, up_recovery_reason = None, up_recovery_claim_id = None, up_plan_id = None,
     up_plan_hash = None, up_completed_results = [], up_candidate_count = None, up_allow_same_stage = False\<rparr>"

fun merged_reservations :: "string list \<Rightarrow> string list \<Rightarrow> string list" where
  "merged_reservations values [] = values"
| "merged_reservations values (i # is) =
     merged_reservations (if i \<in> set values then values else values @ [i]) is"

definition or_else :: "'a option \<Rightarrow> 'a option \<Rightarrow> 'a option" where
  "or_else x y = (if x = None then y else x)"

definition next_checkpoint ::
  "run_checkpoint \<Rightarrow> checkpoint_stage \<Rightarrow> evidence_checkpoint_ref list \<Rightarrow> checkpoint_updates \<Rightarrow> run_checkpoint" where
  "next_checkpoint previous stage refs u = previous\<lparr>
     kp_version := Suc (kp_version previous), kp_stage := stage,
     kp_plan_id := or_else (up_plan_id u) (kp_plan_id previous),
     kp_plan_hash := or_else (up_plan_hash u) (kp_plan_hash previous),
     kp_evidence := (if refs = [] then kp_evidence previous else refs),
     kp_reservation_ids := merged_reservations (kp_reservation_ids previous) (up_reservation_ids u),
     kp_tool_attempts_used := up_attempts u, kp_recovery_attempted := up_recovered u,
     kp_recovery_reason := or_else (up_recovery_reason u) (kp_recovery_reason previous),
     kp_recovery_claim_id := (if stage = RecoveryReserved \<and> up_recovery_claim_id u = None
       then kp_recovery_claim_id previous else up_recovery_claim_id u),
     kp_completed_claim_ids := (if up_completed_results u = [] then kp_completed_claim_ids previous
       else map cr_claim_id (up_completed_results u)),
     kp_completed_results := (if up_completed_results u = [] then kp_completed_results previous
       else up_completed_results u),
     kp_candidate_count := (case up_candidate_count u of None \<Rightarrow> kp_candidate_count previous | Some n \<Rightarrow> n)\<rparr>"

text \<open>Persisting a checkpoint: the writer answers with what it stored.\<close>

definition persist ::
  "'s l2_context \<Rightarrow> nat option \<Rightarrow> run_checkpoint \<Rightarrow> ('s, run_checkpoint) l2m" where
  "persist ctx version k =
     (case lx_checkpoint_writer ctx of None \<Rightarrow> ret k | Some writer \<Rightarrow> await (writer version k))"

definition append_written :: "run_checkpoint \<Rightarrow> ('s, unit) l2m" where
  "append_written k = update_l2 (\<lambda>st. st\<lparr>ls_written := ls_written st @ [k]\<rparr>)"

text \<open>
  \<open>_advance\<close> followed by the append of its answer to the list of written checkpoints, which
  every caller does; a stage that stays is no write, but its checkpoint is appended again.
\<close>

definition advance ::
  "'s l2_context \<Rightarrow> run_checkpoint option \<Rightarrow> checkpoint_stage \<Rightarrow> checkpoint_updates \<Rightarrow>
   ('s, run_checkpoint option) l2m" where
  "advance ctx previous stage u =
     (case previous of
        None \<Rightarrow> ret None
      | Some k \<Rightarrow>
          bind_l2 (if stage = kp_stage k \<and> \<not> up_allow_same_stage u then ret k
            else bind_l2 (lift (evidence_refs (up_evidence u))) (\<lambda>refs.
              persist ctx (Some (kp_version k)) (next_checkpoint k stage refs u))) (\<lambda>k'.
          bind_l2 (append_written k') (\<lambda>_. ret (Some k'))))"

definition generation_of :: "run_checkpoint \<Rightarrow> string \<Rightarrow> string option \<Rightarrow> bool \<Rightarrow> nat list" where
  "generation_of k stage claim recovery = map sg_generation
     (filter (\<lambda>g. sg_stage g = stage \<and> sg_claim_id g = claim \<and> sg_recovery g = recovery) (kp_generations k))"

definition latest_generation :: "run_checkpoint option \<Rightarrow> string \<Rightarrow> string option \<Rightarrow> bool \<Rightarrow> nat" where
  "latest_generation checkpoint stage claim recovery =
     (case checkpoint of None \<Rightarrow> 0 | Some k \<Rightarrow> fold max (generation_of k stage claim recovery) 0)"

definition with_generation :: "run_checkpoint \<Rightarrow> string \<Rightarrow> string option \<Rightarrow> bool \<Rightarrow> run_checkpoint" where
  "with_generation k stage claim recovery =
     (let existing = generation_of k stage claim recovery in
      k\<lparr>kp_version := Suc (kp_version k), kp_generations := kp_generations k @
        [\<lparr>sg_stage = stage, sg_claim_id = claim, sg_recovery = recovery,
          sg_generation = (if existing = [] then 0 else Suc (fold max existing 0))\<rparr>]\<rparr>)"

definition prepare_generation ::
  "'s l2_context \<Rightarrow> run_checkpoint option \<Rightarrow> string \<Rightarrow> string option \<Rightarrow> bool \<Rightarrow>
   ('s, run_checkpoint option) l2m" where
  "prepare_generation ctx checkpoint stage claim recovery =
     (case checkpoint of
        None \<Rightarrow> ret None
      | Some k \<Rightarrow>
          if 8 \<le> length (kp_generations k) then raise_l2 GenerationBudgetExhausted
          else bind_l2 (persist ctx (Some (kp_version k)) (with_generation k stage claim recovery)) (\<lambda>k'.
            bind_l2 (append_written k') (\<lambda>_. ret (Some k'))))"

definition first_checkpoint :: "'s l2_context \<Rightarrow> string list \<Rightarrow> nat \<Rightarrow> ('s, run_checkpoint option) l2m" where
  "first_checkpoint ctx reservations attempts =
     (case lx_checkpoint_factory ctx of
        None \<Rightarrow> ret None
      | Some k \<Rightarrow>
          bind_l2 (persist ctx None (k\<lparr>kp_plan_id := None, kp_plan_hash := None,
            kp_reservation_ids := reservations, kp_tool_attempts_used := attempts,
            kp_generations := [\<lparr>sg_stage = ''planning'', sg_claim_id = None, sg_recovery = False,
              sg_generation = 0\<rparr>]\<rparr>)) (\<lambda>k'.
          bind_l2 (append_written k') (\<lambda>_. ret (Some k'))))"

end
