(* ===== verification/RunOutcomes.thy ===== *)
theory RunOutcomes
  imports L2State RunContracts
begin

text \<open>
  \<open>runs/outcomes.py\<close> and \<open>answer/run.py\<close>: how one L1 question is driven through the transport,
  and how an answer, a refused admission or an L2 outcome becomes the terminal state of its run.
\<close>

section \<open>Driving one answer\<close>

record answer_outcome =
  an_verified :: verified_answer
  an_reservation_id :: "string option"
  an_replayed :: bool
  an_request_size :: "request_size option"
  an_provider_error :: "string option"
  an_parse_fault :: "string option"

fun answer_error_class :: "answer_error \<Rightarrow> string" where
  "answer_error_class (AnswerValueError _) = ''ValueError''"
| "answer_error_class AnswerValidationError = ''ValidationError''"
| "answer_error_class AnswerRecursionError = ''RecursionError''"

text \<open>
  The transport is a function over a state of its own, with the request built from the evidence;
  its receipt holds the text of the reply.
\<close>

definition run_answer ::
  "(string \<Rightarrow> loads_result) \<Rightarrow> (evidence list \<Rightarrow> 's \<Rightarrow> (l2_exception + string stage_receipt) \<times> 's) \<Rightarrow>
   string \<Rightarrow> evidence list \<Rightarrow> 's \<Rightarrow> (l2_exception + answer_outcome) \<times> 's" where
  "run_answer loads send corpus evidence s =
     (if evidence = []
      then (Inr \<lparr>an_verified = make_refusal NoEvidenceRetrieved [], an_reservation_id = None, an_replayed = False,
        an_request_size = None, an_provider_error = None, an_parse_fault = None\<rparr>, s)
      else (case send evidence s of
          (Inl (ProviderAttemptFailed r code), s1) \<Rightarrow>
            (Inr \<lparr>an_verified = make_refusal EvidenceInsufficient [], an_reservation_id = Some (gr_reservation_id r),
              an_replayed = gr_replayed r, an_request_size = None, an_provider_error = Some code,
              an_parse_fault = None\<rparr>, s1)
        | (Inl e, s1) \<Rightarrow> (Inl e, s1)
        | (Inr receipt, s1) \<Rightarrow>
            (case verify_response loads (sr_product receipt) evidence corpus of
               Inl e \<Rightarrow> (Inl (Uncaught (answer_error_class e)), s1)
             | Inr (verified, parse_fault) \<Rightarrow>
                 (Inr \<lparr>an_verified = verified, an_reservation_id = Some (sr_reservation_id receipt),
                   an_replayed = sr_replayed receipt, an_request_size = Some (sr_request_size receipt),
                   an_provider_error = None, an_parse_fault = parse_fault\<rparr>, s1))))"

section \<open>Terminal states\<close>

record terminal =
  te_status :: run_status
  te_reason :: "string option"

definition admission_codes :: "string list" where
  "admission_codes =
    [''authorization_clock_invalid'', ''claim_count_exceeded'', ''claim_payload_mismatch'',
     ''claim_unique_excerpts_exceeded'', ''claim_unique_tokens_exceeded'', ''claim_unique_bytes_exceeded'',
     ''corpus_document_cap_missing'', ''corpus_document_unique_excerpts_exceeded'',
     ''corpus_document_unique_tokens_exceeded'', ''corpus_document_unique_bytes_exceeded'',
     ''corpus_manifest_mismatch'', ''corpus_usage_mismatch'', ''corpus_unique_excerpts_exceeded'',
     ''corpus_unique_tokens_exceeded'', ''corpus_unique_bytes_exceeded'', ''disclosure_fact_mismatch'',
     ''document_id_mismatch'', ''document_version_mismatch'', ''evaluation_root_mismatch'',
     ''excerpt_bytes_exceeded'', ''excerpt_tokens_exceeded'', ''judge_unique_excerpts_exceeded'',
     ''judge_unique_tokens_exceeded'', ''judge_unique_bytes_exceeded'',
     ''judge_transmitted_tokens_exceeded'', ''judge_transmitted_bytes_exceeded'',
     ''online_unique_excerpts_exceeded'', ''online_unique_tokens_exceeded'',
     ''online_unique_bytes_exceeded'', ''online_transmitted_tokens_exceeded'',
     ''online_transmitted_bytes_exceeded'', ''payload_version_mismatch'', ''policy_snapshot_mismatch'',
     ''projected_text_tokens_exceeded'', ''reservation_accounting_mismatch'',
     ''reservation_primitive_invalid'', ''root_unique_excerpts_exceeded'', ''root_unique_tokens_exceeded'',
     ''root_unique_bytes_exceeded'', ''root_transmitted_tokens_exceeded'',
     ''root_transmitted_bytes_exceeded'', ''route_unauthorized'', ''source_manifest_mismatch'',
     ''source_manifest_unresolvable'', ''source_manifest_untrusted'', ''stage_payload_mismatch'',
     ''stage_route_mismatch'', ''task_level_mismatch'', ''toc_call_exceeded'', ''toc_run_exceeded'',
     ''token_accounting_unavailable'', ''token_counter_incompatible'']"

definition project_answer_outcome :: "answer_outcome \<Rightarrow> string + terminal" where
  "project_answer_outcome outcome =
     (case an_provider_error outcome of
        Some code \<Rightarrow> Inr \<lparr>te_status = RunFailed, te_reason = Some code\<rparr>
      | None \<Rightarrow>
          if va_verdict (an_verified outcome) = Answered then Inr \<lparr>te_status = RunAnswered, te_reason = None\<rparr>
          else (case va_refusal_reason (an_verified outcome) of
             None \<Rightarrow> Inl ''refused_outcome_missing_reason''
           | Some reason \<Rightarrow> Inr \<lparr>te_status = RunRefused, te_reason = Some (refusal_value reason)\<rparr>))"

definition project_gate_error :: "l2_exception \<Rightarrow> string + terminal" where
  "project_gate_error e = (case e of
       PolicyViolation code \<Rightarrow>
         if code \<notin> set admission_codes then Inl ''not_gate_error''
         else Inr \<lparr>te_status = EgressBlocked, te_reason = Some code\<rparr>
     | _ \<Rightarrow> Inl ''not_gate_error'')"

definition project_l2_outcome :: "l2_outcome \<Rightarrow> terminal" where
  "project_l2_outcome outcome =
     (case lo_egress_error outcome of
        Some code \<Rightarrow> \<lparr>te_status = EgressBlocked, te_reason = Some code\<rparr>
      | None \<Rightarrow> (case lo_provider_error outcome of
          Some code \<Rightarrow> \<lparr>te_status = RunFailed, te_reason = Some code\<rparr>
        | None \<Rightarrow> (case lo_parse_fault outcome of
            Some code \<Rightarrow> \<lparr>te_status = RunRefused, te_reason = Some code\<rparr>
          | None \<Rightarrow> \<lparr>te_status = RunAnswered, te_reason = None\<rparr>)))"

definition terminal_event :: "terminal \<Rightarrow> run_event" where
  "terminal_event t = \<lparr>re_sequence = 1, re_body = TerminalEvent (te_status t) (te_reason t)\<rparr>"

end
