(* ===== verification/WorkerEvents.thy ===== *)
theory WorkerEvents
  imports RunOutcomes
begin

text \<open>
  The trace events that \<open>runtime/worker.py\<close> builds: for the steps of an L1 run, and the batches
  in which the audit facts of an L2 run are appended, each with its anchor. Durations are
  arguments; a placeholder sequence number is replaced by the store.
\<close>

definition trace_event :: "event_body \<Rightarrow> run_event" where
  "trace_event body = \<lparr>re_sequence = 1, re_body = body\<rparr>"

section \<open>Events of a run\<close>

definition agent_event ::
  "agent_name \<Rightarrow> string \<Rightarrow> agent_phase \<Rightarrow> nat option \<Rightarrow> string option \<Rightarrow> event_body" where
  "agent_event agent step phase duration code = AgentStep \<lparr>ag_agent = agent, ag_step_id = step, ag_phase = phase,
     ag_duration_ms = duration, ag_error_code = code\<rparr>"

definition admitted_egress_event ::
  "egress_stage \<Rightarrow> string \<Rightarrow> bool \<Rightarrow> request_size option \<Rightarrow> event_body" where
  "admitted_egress_event stage reservation_id replayed measured = EgressSummary \<lparr>es_stage = stage,
     es_reservation_id = Some reservation_id, es_ledger_id = None, es_admitted = True, es_replayed = replayed,
     es_request_tokens = map_option rs_request_tokens measured, es_request_bytes = map_option rs_request_bytes measured,
     es_cost_microunits = None, es_error_code = None\<rparr>"

definition blocked_egress_event :: "egress_stage \<Rightarrow> string \<Rightarrow> event_body" where
  "blocked_egress_event stage code = EgressSummary \<lparr>es_stage = stage, es_reservation_id = None,
     es_ledger_id = None, es_admitted = False, es_replayed = False, es_request_tokens = None,
     es_request_bytes = None, es_cost_microunits = None, es_error_code = Some code\<rparr>"

definition planning_egress_event :: "planner_result \<Rightarrow> event_body" where
  "planning_egress_event p =
     admitted_egress_event Planning (sr_reservation_id p) (sr_replayed p) (Some (sr_request_size p))"

definition answer_egress_event :: "answer_outcome \<Rightarrow> event_body option" where
  "answer_egress_event outcome = map_option (\<lambda>reservation.
     admitted_egress_event EvidenceStage reservation (an_replayed outcome) (an_request_size outcome))
     (an_reservation_id outcome)"

text \<open>\<open>rsplit(":", 1)[-1]\<close>: what follows the last colon.\<close>

definition after_last_colon :: "string \<Rightarrow> string" where
  "after_last_colon s = rev (takeWhile (\<lambda>c. c \<noteq> CHR '':'') (rev s))"

definition verifier_event :: "answer_outcome \<Rightarrow> nat \<Rightarrow> event_body" where
  "verifier_event outcome duration =
     (let verified = an_verified outcome;
          faults = (case an_parse_fault outcome of
              Some fault \<Rightarrow> if va_citation_faults verified = [] then [fault] else va_citation_faults verified
            | None \<Rightarrow> va_citation_faults verified);
          checks = (if va_citations verified \<noteq> []
            then map (\<lambda>c. \<lparr>vc_evidence_id = Some (ci_content_hash c), vc_passed = True, vc_fault_code = None\<rparr>)
              (va_citations verified)
            else map (\<lambda>f. \<lparr>vc_evidence_id = None, vc_passed = False, vc_fault_code = Some (after_last_colon f)\<rparr>) faults) in
      VerifierSummary checks duration)"

definition answer_event :: "answer_outcome \<Rightarrow> event_body" where
  "answer_event outcome = AnswerOutcomeEvent \<lparr>ao_verdict = va_verdict (an_verified outcome),
     ao_refusal_reason = map_option refusal_value (va_refusal_reason (an_verified outcome)),
     ao_provider_error = an_provider_error outcome, ao_reservation_id = an_reservation_id outcome,
     ao_replayed = an_replayed outcome, ao_parse_fault_code = an_parse_fault outcome\<rparr>"

definition tool_event :: "tool_call_summary \<Rightarrow> event_body" where
  "tool_event call = ToolFinished \<lparr>tf_step_id = tc_step_id call, tf_tool = tc_tool call,
     tf_argument_keys = tc_argument_keys call, tf_result_count = tc_result_count call,
     tf_duration_ms = tc_duration_ms call, tf_retry_count = tc_retry_count call, tf_error_code = tc_error_code call\<rparr>"

definition evidence_event :: "evidence list \<Rightarrow> event_body" where
  "evidence_event evidence = EvidenceSummary (map (\<lambda>e.
     (dc_content_hash (ev_disclosed e), dc_content_hash (ev_disclosed e))) evidence)"

section \<open>Audit batches\<close>

fun recovery_kind_value :: "recovery_kind \<Rightarrow> string" where
  "recovery_kind_value ScopedSearch = ''scoped_search''"
| "recovery_kind_value RecoverClause = ''get_clause''"
| "recovery_kind_value RecoverReferences = ''expand_references''"

definition audit_identity_event :: "(string \<Rightarrow> string) \<Rightarrow> string \<Rightarrow> agent_name \<Rightarrow> event_body" where
  "audit_identity_event sha256 audit_id agent =
     agent_event agent (''audit-'' @ sha256 audit_id) PhaseFinished (Some 0) None"

definition deterministic_check_summary :: "deterministic_check \<Rightarrow> verifier_check_summary" where
  "deterministic_check_summary c = \<lparr>vc_evidence_id = dk_evidence_id c, vc_passed = (dk_fault c = None),
     vc_fault_code = map_option fault_value (dk_fault c)\<rparr>"

text \<open>The events of each batch, and its anchor. \<open>zip\<close> is strict in the source.\<close>

fun l2_audit_batches ::
  "(string \<Rightarrow> string) \<Rightarrow> l2_audit_event \<Rightarrow> string + (event_body list \<times> event_body) list" where
  "l2_audit_batches sha256 (PlanningAudit p) = Inr [([planning_egress_event p], planning_egress_event p)]"
| "l2_audit_batches sha256 (EvidenceAudit calls audit_ids) =
     (if length calls \<noteq> length audit_ids then Inl ''ValueError''
      else Inr (map (\<lambda>(call, audit_id).
        let identity = audit_identity_event sha256 audit_id EvidenceAgentName in
        ([identity, tool_event call], identity)) (zip calls audit_ids)))"
| "l2_audit_batches sha256 (ComplianceAudit outcome) =
     (let candidates = cp_candidates (sr_product outcome);
          summary = ComplianceSummary (length candidates) (map ic_claim_id candidates);
          egress = admitted_egress_event ComplianceStage (sr_reservation_id outcome) (sr_replayed outcome)
            (Some (sr_request_size outcome)) in
      Inr [([summary, egress], egress)])"
| "l2_audit_batches sha256 (EgressAudit stage r) =
     (let egress = admitted_egress_event stage (gr_reservation_id r) (gr_replayed r) (gr_request_size r) in
      Inr [([egress], egress)])"
| "l2_audit_batches sha256 (DeterministicAudit claim audit_id result) =
     (let identity = audit_identity_event sha256 audit_id VerifierAgent in
      Inr [([identity, VerifierSummary (map deterministic_check_summary (dr_checks result)) 0], identity)])"
| "l2_audit_batches sha256 (SemanticAudit claim semantic) =
     (let summary = SemanticSummary claim (sn_supports_verdict (sr_product semantic))
            (semantic_value (sn_reason (sr_product semantic)));
          egress = admitted_egress_event VerifierStage (sr_reservation_id semantic) (sr_replayed semantic)
            (Some (sr_request_size semantic)) in
      Inr [([summary, egress], egress)])"
| "l2_audit_batches sha256 (RecoveryAudit audit_id recovery) =
     (let identity = audit_identity_event sha256 audit_id EvidenceAgentName;
          calls = map tool_event (ro_calls recovery) in
      case (ro_calls recovery, ro_kind recovery, ro_reason_code recovery) of
        (_ # _, Some kind, Some reason) \<Rightarrow>
          Inr [(identity # calls @ [RecoverySummary (recovery_kind_value kind) reason (8 - ro_attempts_used recovery)],
            identity)]
      | _ \<Rightarrow> Inr [(identity # calls, identity)])"

end
