(* ===== verification/L2Run.thy ===== *)
theory L2Run
  imports L2State
begin

text \<open>
  \<open>runtime/l2.py\<close>: one attempt of an L2 run. \<open>one_claim\<close> takes a candidate through its two gates
  and the run's one recovery; \<open>run_body\<close> is the \<open>try\<close> block of \<open>run_l2_attempt\<close>, stage by
  stage, and \<open>handle\<close> its exception handlers. An early return is the left of a sum.
\<close>

section \<open>One candidate\<close>

text \<open>The local variables of \<open>_one_claim\<close>, and what it returns.\<close>

record claim_state =
  cl_checkpoint :: "run_checkpoint option"
  cl_evidence :: "evidence list"
  cl_attempts :: nat
  cl_recovered :: bool
  cl_semantics :: "semantic_outcome list"
  cl_recovery :: "recovery_outcome option"

type_synonym claim_return = "compliance_result \<times> claim_state"

definition advance_claim ::
  "'s l2_context \<Rightarrow> claim_state \<Rightarrow> checkpoint_stage \<Rightarrow> (checkpoint_updates \<Rightarrow> checkpoint_updates) \<Rightarrow>
   ('s, claim_state) l2m" where
  "advance_claim ctx l stage change =
     bind_l2 (advance ctx (cl_checkpoint l) stage (change (updates (cl_attempts l) (cl_recovered l)))) (\<lambda>k.
     ret (l\<lparr>cl_checkpoint := k\<rparr>))"

definition attempt_number :: "run_checkpoint option \<Rightarrow> nat" where
  "attempt_number checkpoint = (case checkpoint of None \<Rightarrow> 1 | Some k \<Rightarrow> kp_attempt k)"

definition verify_and_record ::
  "'s l2_context \<Rightarrow> identified_candidate \<Rightarrow> evidence list \<Rightarrow> string \<Rightarrow> ('s, deterministic_result) l2m" where
  "verify_and_record ctx c evidence phase =
     (let result = lx_deterministic ctx (ic_candidate c) evidence;
          audit = DeterministicAudit (ic_claim_id c)
            (''deterministic/'' @ ic_claim_id c @ ''/'' @ phase @ ''/a'' @ show_nat (attempt_number (lx_checkpoint ctx)))
            result in
      bind_l2 (update_l2 (\<lambda>st. st\<lparr>ls_deterministic := ls_deterministic st @ [(ic_claim_id c, result)],
        ls_audit_events := ls_audit_events st @ [audit]\<rparr>)) (\<lambda>_.
      bind_l2 (emit_audit ctx audit) (\<lambda>_. ret result)))"

text \<open>\<open>_recover\<close>: the lease is asked for before the recovery and again after it.\<close>

definition try_recover ::
  "'s l2_context \<Rightarrow> identified_candidate \<Rightarrow> evidence list \<Rightarrow> string list \<Rightarrow> nat \<Rightarrow> bool \<Rightarrow>
   ('s, recovery_outcome option) l2m" where
  "try_recover ctx c evidence reasons attempts has_recovered =
     (if has_recovered \<or> 8 \<le> attempts then ret None
      else bind_l2 (lease_is_live ctx) (\<lambda>live.
        if \<not> live then ret None
        else bind_l2 (await (lx_recovery ctx c evidence reasons attempts)) (\<lambda>outcome.
          bind_l2 (lease_is_live ctx) (\<lambda>live.
            if \<not> live \<or> 8 < ro_attempts_used outcome \<or> ro_attempts_used outcome < attempts then ret None
            else ret (Some outcome)))))"

text \<open>
  The recovery of a claim at either gate: the attempts are reserved in the checkpoint first, if
  that is needed; then the recovery runs; what it brings back is checkpointed and audited. The
  left result is the reserved number of attempts of a recovery that came to nothing.
\<close>

definition reserved_for :: "claim_state \<Rightarrow> string list \<Rightarrow> nat" where
  "reserved_for l reasons =
     (if cl_checkpoint l \<noteq> None \<and> \<not> cl_recovered l then reserve_recovery_attempts (cl_attempts l) reasons
      else cl_attempts l)"

definition reserve_recovery ::
  "'s l2_context \<Rightarrow> identified_candidate \<Rightarrow> string list \<Rightarrow> string \<Rightarrow> claim_state \<Rightarrow> ('s, claim_state) l2m" where
  "reserve_recovery ctx c reasons reason l =
     (if cl_attempts l < reserved_for l reasons
      then bind_l2 (advance ctx (cl_checkpoint l) RecoveryReserved ((updates (reserved_for l reasons) True)\<lparr>
        up_evidence := cl_evidence l, up_recovery_reason := Some reason,
        up_recovery_claim_id := Some (ic_claim_id c)\<rparr>)) (\<lambda>k. ret (l\<lparr>cl_checkpoint := k\<rparr>))
      else ret l)"

definition recover_claim ::
  "'s l2_context \<Rightarrow> identified_candidate \<Rightarrow> string list \<Rightarrow> string \<Rightarrow> string \<Rightarrow> claim_state \<Rightarrow>
   ('s, nat + claim_state) l2m" where
  "recover_claim ctx c reasons reason gate l =
     bind_l2 (reserve_recovery ctx c reasons reason l) (\<lambda>l1.
     bind_l2 (try_recover ctx c (cl_evidence l) reasons (cl_attempts l) (cl_recovered l)) (\<lambda>replacement.
     case replacement of
       None \<Rightarrow> ret (Inl (reserved_for l reasons))
     | Some outcome \<Rightarrow>
         let attempts = max (ro_attempts_used outcome) (reserved_for l reasons);
             recovery = outcome\<lparr>ro_attempts_used := attempts\<rparr>;
             evidence = bounded_evidence (ro_evidence outcome);
             audit = RecoveryAudit (''recovery/'' @ ic_claim_id c @ ''/'' @ gate @ ''/a'' @
               show_nat (attempt_number (cl_checkpoint l1))) recovery;
             l2 = l1\<lparr>cl_evidence := evidence, cl_attempts := attempts, cl_recovered := True,
               cl_recovery := Some recovery\<rparr> in
         bind_l2 (update_l2 (\<lambda>st. st\<lparr>ls_audit_events := ls_audit_events st @ [audit]\<rparr>)) (\<lambda>_.
         bind_l2 (emit_audit ctx audit) (\<lambda>_.
         bind_l2 (advance_claim ctx l2 RecoveryCompleted (\<lambda>u. u\<lparr>up_evidence := evidence\<rparr>)) (\<lambda>l3. ret (Inr l3))))))"

definition gave_up ::
  "identified_candidate \<Rightarrow> verification_status \<Rightarrow> string \<Rightarrow> claim_state \<Rightarrow> nat \<Rightarrow> claim_return" where
  "gave_up c status reason l reserved =
     (insufficient_result (ic_claim_id c) status reason,
      l\<lparr>cl_recovered := (cl_attempts l < reserved \<or> cl_recovered l), cl_attempts := reserved\<rparr>)"

text \<open>The first gate, with the recovery that a failure at it may cause.\<close>

definition deterministic_gate ::
  "'s l2_context \<Rightarrow> identified_candidate \<Rightarrow> claim_state \<Rightarrow>
   ('s, claim_return + deterministic_result \<times> claim_state) l2m" where
  "deterministic_gate ctx c l =
     bind_l2 (verify_and_record ctx c (cl_evidence l) ''initial'') (\<lambda>d.
     if result_passed d then ret (Inr (d, l))
     else bind_l2 (recover_claim ctx c (fault_values d) (failure_reason d) ''deterministic'' l) (\<lambda>r.
       case r of
         Inl reserved \<Rightarrow> ret (Inl (gave_up c DeterministicFailed (failure_reason d) l reserved))
       | Inr l1 \<Rightarrow>
           bind_l2 (lift (rebuilt c (cl_evidence l1))) (\<lambda>c1.
           bind_l2 (verify_and_record ctx c1 (cl_evidence l1) ''post_deterministic_recovery'') (\<lambda>d1.
           if result_passed d1 then ret (Inr (d1, l1))
           else ret (Inl (insufficient_result (ic_claim_id c) DeterministicFailed (failure_reason d1), l1))))))"

text \<open>One semantic verification: its generation, its send, its audit and its receipt.\<close>

definition send_semantic ::
  "'s l2_context \<Rightarrow> identified_candidate \<Rightarrow> deterministic_result \<Rightarrow> claim_state \<Rightarrow>
   ('s, claim_return + semantic_outcome \<times> claim_state) l2m" where
  "send_semantic ctx c d l =
     (let lease_lost = (\<lambda>l. ret (Inl (insufficient_result (ic_claim_id c) Insufficient ''lease_lost'', l))) in
      bind_l2 (prepare_generation ctx (cl_checkpoint l) ''verifier'' (Some (ic_claim_id c)) (cl_recovered l)) (\<lambda>k.
      let l1 = l\<lparr>cl_checkpoint := k\<rparr> in
      bind_l2 (lease_is_live ctx) (\<lambda>live.
      if \<not> live then lease_lost l1
      else
        let generation = latest_generation k ''verifier'' (Some (ic_claim_id c)) (cl_recovered l) in
        bind_l2 (lift (case idempotency_suffix (lx_run_id ctx) ''verifier'' (Some (ic_claim_id c)) (cl_recovered l)
          (int generation) of Inl e \<Rightarrow> Inl (Uncaught e) | Inr suffix \<Rightarrow> Inr suffix)) (\<lambda>suffix.
        bind_l2 (send_stage ctx (VerifierStage, Some (ic_claim_id c), cl_recovered l, generation)
          (lx_semantic ctx c (cl_evidence l) d suffix generation)) (\<lambda>semantic.
        let audit = SemanticAudit (ic_claim_id c) semantic; l2 = l1\<lparr>cl_semantics := cl_semantics l @ [semantic]\<rparr> in
        bind_l2 (update_l2 (\<lambda>st. st\<lparr>ls_audit_events := ls_audit_events st @ [audit]\<rparr>)) (\<lambda>_.
        bind_l2 (emit_audit ctx audit) (\<lambda>_.
        bind_l2 (case k of
            None \<Rightarrow> ret l2
          | Some kp \<Rightarrow> advance_claim ctx l2 (kp_stage kp) (\<lambda>u. u\<lparr>up_allow_same_stage := True,
              up_reservation_ids := kp_reservation_ids kp @ [sr_reservation_id semantic]\<rparr>)) (\<lambda>l3.
        bind_l2 (lease_is_live ctx) (\<lambda>live.
        if \<not> live then lease_lost l3 else ret (Inr (semantic, l3)))))))))))"

definition accept_claim ::
  "'s l2_context \<Rightarrow> identified_candidate \<Rightarrow> deterministic_result \<Rightarrow> claim_state \<Rightarrow> ('s, claim_return) l2m" where
  "accept_claim ctx c d l =
     bind_l2 (advance_claim ctx l SemanticVerified (\<lambda>u. u\<lparr>up_evidence := cl_evidence l,
       up_reservation_ids := (case cl_checkpoint l of None \<Rightarrow> [] | Some k \<Rightarrow> kp_reservation_ids k)\<rparr>)) (\<lambda>l1.
     bind_l2 (lift (verified_result c d)) (\<lambda>r. ret (r, l1)))"

text \<open>The second gate failed: recovery, both gates again.\<close>

definition semantic_recovery ::
  "'s l2_context \<Rightarrow> identified_candidate \<Rightarrow> semantic_outcome \<Rightarrow> claim_state \<Rightarrow> ('s, claim_return) l2m" where
  "semantic_recovery ctx c semantic l =
     (let reason = semantic_value (sn_reason (sr_product semantic)) in
      bind_l2 (recover_claim ctx c [reason] reason ''semantic'' l) (\<lambda>r.
      case r of
        Inl reserved \<Rightarrow> ret (gave_up c SemanticFailed reason l reserved)
      | Inr l1 \<Rightarrow>
          bind_l2 (lift (rebuilt c (cl_evidence l1))) (\<lambda>c1.
          bind_l2 (verify_and_record ctx c1 (cl_evidence l1) ''post_semantic_recovery'') (\<lambda>d.
          if \<not> result_passed d
          then ret (insufficient_result (ic_claim_id c1) DeterministicFailed (failure_reason d), l1)
          else bind_l2 (advance_claim ctx l1 DeterministicVerified (\<lambda>u. u\<lparr>up_evidence := cl_evidence l1\<rparr>)) (\<lambda>l2.
            or_return (send_semantic ctx c1 d l2) (\<lambda>(again, l3).
            if sn_supports_verdict (sr_product again) then accept_claim ctx c1 d l3
            else ret (insufficient_result (ic_claim_id c1) SemanticFailed
              (semantic_value (sn_reason (sr_product again))), l3)))))))"

definition both_gates ::
  "'s l2_context \<Rightarrow> identified_candidate \<Rightarrow> claim_state \<Rightarrow> ('s, claim_return) l2m" where
  "both_gates ctx c l =
     or_return (deterministic_gate ctx c l) (\<lambda>(d, l1).
     bind_l2 (advance_claim ctx l1 DeterministicVerified (\<lambda>u. u\<lparr>up_evidence := cl_evidence l1\<rparr>)) (\<lambda>l2.
     bind_l2 (lift (if cl_recovered l2 then rebuilt c (cl_evidence l2) else Inr c)) (\<lambda>active.
     bind_l2 (if cl_recovered l then verify_and_record ctx active (cl_evidence l2) ''resume_recovery'' else ret d) (\<lambda>d1.
     if cl_recovered l \<and> \<not> result_passed d1
     then ret (insufficient_result (ic_claim_id active) DeterministicFailed (failure_reason d1), l2)
     else or_return (send_semantic ctx active d1 l2) (\<lambda>(semantic, l3).
       if sn_supports_verdict (sr_product semantic) then accept_claim ctx active d1 l3
       else semantic_recovery ctx active semantic l3)))))"

definition one_claim ::
  "'s l2_context \<Rightarrow> run_checkpoint option \<Rightarrow> identified_candidate \<Rightarrow> evidence list \<Rightarrow> nat \<Rightarrow> bool \<Rightarrow>
   ('s, claim_return) l2m" where
  "one_claim ctx checkpoint c evidence attempts has_recovered =
     (let l = \<lparr>cl_checkpoint = checkpoint, cl_evidence = evidence, cl_attempts = attempts,
          cl_recovered = has_recovered, cl_semantics = [], cl_recovery = None\<rparr> in
      case checkpoint of
        Some k \<Rightarrow>
          if kp_stage k = RecoveryReserved
          then if kp_recovery_claim_id k \<noteq> Some (ic_claim_id c)
            then raise_l2 (Uncaught ''checkpoint_recovery_claim_integrity'')
            else ret (insufficient_result (ic_claim_id c) Insufficient ''recovery_result_lost'',
              l\<lparr>cl_attempts := kp_tool_attempts_used k, cl_recovered := True\<rparr>)
          else if cc_proposed_verdict (ic_candidate c) = InsufficientEvidence
          then ret (insufficient_result (ic_claim_id c) Insufficient ''proposed_insufficient'', l)
          else both_gates ctx c l
      | None \<Rightarrow>
          if cc_proposed_verdict (ic_candidate c) = InsufficientEvidence
          then ret (insufficient_result (ic_claim_id c) Insufficient ''proposed_insufficient'', l)
          else both_gates ctx c l)"

section \<open>The attempt\<close>

text \<open>What an outcome takes from the state, and the two ways of ending early.\<close>

definition plain_outcome :: "'s l2_state \<Rightarrow> l2_outcome" where
  "plain_outcome st = \<lparr>lo_results = [], lo_reservation_ids = ls_reservations st,
     lo_tool_attempts_used = ls_attempts st, lo_recovery_attempted = ls_recovered st, lo_provider_error = None,
     lo_parse_fault = None, lo_egress_error = None, lo_compliance = None, lo_semantic_outcomes = [],
     lo_recovery_outcomes = [], lo_evidence_calls = [], lo_deterministic_outcomes = [], lo_audit_events = [],
     lo_checkpoints = ls_written st, lo_planning = None\<rparr>"

definition l2_fault :: "string \<Rightarrow> ('s, l2_outcome) l2m" where
  "l2_fault reason = with_state (\<lambda>st. ret ((plain_outcome st)\<lparr>lo_parse_fault := Some reason\<rparr>))"

definition egress_fault :: "string \<Rightarrow> ('s, l2_outcome) l2m" where
  "egress_fault reason = with_state (\<lambda>st. ret ((plain_outcome st)\<lparr>lo_egress_error := Some reason\<rparr>))"

definition while_live :: "'s l2_context \<Rightarrow> ('s, l2_outcome + 'a) l2m \<Rightarrow> ('s, l2_outcome + 'a) l2m" where
  "while_live ctx m = bind_l2 (lease_is_live ctx) (\<lambda>live.
     if live then m else bind_l2 (l2_fault ''lease_lost'') (\<lambda>out. ret (Inl out)))"

definition set_checkpoint :: "run_checkpoint option \<Rightarrow> ('s, unit) l2m" where
  "set_checkpoint k = update_l2 (\<lambda>st. st\<lparr>ls_checkpoint := k\<rparr>)"

definition receive :: "string \<Rightarrow> ('s, unit) l2m" where
  "receive reservation = update_l2 (\<lambda>st. st\<lparr>ls_reservations := ls_reservations st @ [reservation]\<rparr>)"

text \<open>\<open>write\<close>: with the attempt's own reservations, attempts and recovery flag.\<close>

definition write_stage ::
  "'s l2_context \<Rightarrow> checkpoint_stage \<Rightarrow> (checkpoint_updates \<Rightarrow> checkpoint_updates) \<Rightarrow> ('s, unit) l2m" where
  "write_stage ctx stage change = with_state (\<lambda>st.
     bind_l2 (advance ctx (ls_checkpoint st) stage (change
       ((updates (ls_attempts st) (ls_recovered st))\<lparr>up_reservation_ids := ls_reservations st\<rparr>))) set_checkpoint)"

subsection \<open>Planning and evidence\<close>

definition send_planning ::
  "'s l2_context \<Rightarrow> bool \<Rightarrow> nat \<Rightarrow> ('s, l2_outcome + planner_result) l2m" where
  "send_planning ctx fresh generation =
     while_live ctx (bind_l2 (send_stage ctx (Planning, None, False, generation)
       (lx_planner ctx (planning_suffix (lx_run_id ctx)) generation)) (\<lambda>planning.
     bind_l2 (emit_audit ctx (PlanningAudit planning)) (\<lambda>_.
     while_live ctx (bind_l2 (receive (sr_reservation_id planning)) (\<lambda>_.
     bind_l2 (write_stage ctx Planned (\<lambda>u. u\<lparr>up_plan_id := Some (tp_plan_id (sr_product planning)),
       up_plan_hash := Some (lx_plan_hash ctx (sr_product planning)), up_allow_same_stage := fresh\<rparr>)) (\<lambda>_.
     ret (Inr planning)))))))"

text \<open>
  A fresh attempt writes its first checkpoint, with generation 0 of the plan. One that finds only
  a plan asks for it again, under the next generation. Any other has no plan and needs none.
\<close>

definition plan_run :: "'s l2_context \<Rightarrow> ('s, l2_outcome + planner_result option) l2m" where
  "plan_run ctx = with_state (\<lambda>st.
     case ls_checkpoint st of
       None \<Rightarrow>
         bind_l2 (first_checkpoint ctx (ls_reservations st) (ls_attempts st)) (\<lambda>k.
         bind_l2 (set_checkpoint k) (\<lambda>_. and_then (send_planning ctx True 0) (\<lambda>p. ret (Inr (Some p)))))
     | Some kp \<Rightarrow>
         if kp_stage kp \<noteq> Planned then ret (Inr None)
         else bind_l2 (prepare_generation ctx (Some kp) ''planning'' None False) (\<lambda>k.
           bind_l2 (set_checkpoint k) (\<lambda>_.
           and_then (send_planning ctx False (latest_generation k ''planning'' None False)) (\<lambda>p. ret (Inr (Some p))))))"

definition collect_run :: "'s l2_context \<Rightarrow> tool_plan \<Rightarrow> ('s, l2_outcome + tool_call_summary list) l2m" where
  "collect_run ctx plan =
     while_live ctx (with_state (\<lambda>st.
     bind_l2 (await (lx_collect ctx plan (lx_corpus_manifest_id ctx) 8 (ls_attempts st))) (\<lambda>collected.
     bind_l2 (emit_audit ctx (EvidenceAudit (er_calls collected) (map (\<lambda>call.
       ''tool/initial/a'' @ show_nat (attempt_number (ls_checkpoint st)) @ ''/'' @ tc_step_id call)
       (er_calls collected)))) (\<lambda>_.
     while_live ctx (
     bind_l2 (update_l2 (\<lambda>st. st\<lparr>ls_attempts := er_attempts_used collected\<rparr>)) (\<lambda>_.
     if er_attempts_used collected < (case ls_checkpoint st of None \<Rightarrow> 0 | Some k \<Rightarrow> kp_tool_attempts_used k) \<or>
       8 < er_attempts_used collected
     then bind_l2 (l2_fault ''checkpoint_attempt_integrity'') (\<lambda>out. ret (Inl out))
     else
       let evidence = bounded_evidence (er_evidence collected) in
       bind_l2 (update_l2 (\<lambda>st. st\<lparr>ls_evidence := evidence\<rparr>)) (\<lambda>_.
       bind_l2 (write_stage ctx EvidenceCollected (\<lambda>u. u\<lparr>up_evidence := evidence\<rparr>)) (\<lambda>_.
       ret (Inr (er_calls collected))))))))))"

definition evidence_run ::
  "'s l2_context \<Rightarrow> planner_result option \<Rightarrow> ('s, l2_outcome + tool_call_summary list) l2m" where
  "evidence_run ctx planning = with_state (\<lambda>st.
     if (case ls_checkpoint st of None \<Rightarrow> True | Some k \<Rightarrow> kp_stage k = Planned)
     then (case planning of
         None \<Rightarrow> bind_l2 (l2_fault ''checkpoint_plan_unavailable'') (\<lambda>out. ret (Inl out))
       | Some p \<Rightarrow> collect_run ctx (sr_product p))
     else if ls_evidence st = []
     then bind_l2 (l2_fault ''checkpoint_evidence_unavailable'') (\<lambda>out. ret (Inl out))
     else ret (Inr []))"

subsection \<open>Candidates\<close>

definition compliance_run :: "'s l2_context \<Rightarrow> ('s, l2_outcome + compliance_outcome) l2m" where
  "compliance_run ctx = with_state (\<lambda>st.
     bind_l2 (prepare_generation ctx (ls_checkpoint st) ''compliance'' None False) (\<lambda>k.
     bind_l2 (set_checkpoint k) (\<lambda>_.
     let generation = latest_generation k ''compliance'' None False in
     while_live ctx (
     bind_l2 (lift (case idempotency_suffix (lx_run_id ctx) ''compliance'' None False (int generation) of
       Inl e \<Rightarrow> Inl (Uncaught e) | Inr suffix \<Rightarrow> Inr suffix)) (\<lambda>suffix.
     bind_l2 (send_stage ctx (ComplianceStage, None, False, generation)
       (lx_compliance ctx (ls_evidence st) suffix generation)) (\<lambda>compliance.
     bind_l2 (emit_audit ctx (ComplianceAudit compliance)) (\<lambda>_.
     while_live ctx (
     bind_l2 (receive (sr_reservation_id compliance)) (\<lambda>_. ret (Inr compliance)))))))))) "

text \<open>The checks of the batch against the checkpoint, and the receipt's write.\<close>

definition accept_batch :: "'s l2_context \<Rightarrow> identified_candidate list \<Rightarrow> ('s, l2_outcome + unit) l2m" where
  "accept_batch ctx candidates =
     bind_l2 (with_state (\<lambda>st. case ls_checkpoint st of
         Some k \<Rightarrow> if kp_stage k = EvidenceCollected
           then write_stage ctx CandidateBuilt (\<lambda>u. u\<lparr>up_candidate_count := Some (length candidates)\<rparr>)
           else ret ()
       | None \<Rightarrow> ret ())) (\<lambda>_.
     with_state (\<lambda>st.
       if \<not> candidate_batch_is_consistent (ls_checkpoint st) candidates
       then bind_l2 (l2_fault ''checkpoint_candidate_integrity'') (\<lambda>out. ret (Inl out))
       else if \<not> recovery_reservation_is_consistent (ls_checkpoint st) candidates
       then bind_l2 (l2_fault ''checkpoint_recovery_claim_integrity'') (\<lambda>out. ret (Inl out))
       else case ls_checkpoint st of
         None \<Rightarrow> ret (Inr ())
       | Some k \<Rightarrow> bind_l2 (write_stage ctx (kp_stage k) (\<lambda>u. u\<lparr>up_allow_same_stage := True,
           up_candidate_count := Some (length candidates)\<rparr>)) (\<lambda>_. ret (Inr ()))))"

subsection \<open>Claims\<close>

text \<open>What the loop over the candidates gathers for the outcome.\<close>

record gathered =
  ga_results :: "compliance_result list"
  ga_semantics :: "(string \<times> semantic_outcome) list"
  ga_recoveries :: "recovery_outcome list"

definition claim_step ::
  "'s l2_context \<Rightarrow> identified_candidate \<Rightarrow> gathered \<Rightarrow> ('s, l2_outcome + gathered) l2m" where
  "claim_step ctx c g = with_state (\<lambda>st.
     bind_l2 (one_claim ctx (ls_checkpoint st) c (ls_evidence st) (ls_attempts st) (ls_recovered st)) (\<lambda>(result, l).
     bind_l2 (update_l2 (\<lambda>st. st\<lparr>
       ls_checkpoint := (if ls_written st = [] then ls_checkpoint st else Some (last (ls_written st))),
       ls_evidence := cl_evidence l, ls_attempts := cl_attempts l, ls_recovered := cl_recovered l,
       ls_reservations := ls_reservations st @ map sr_reservation_id (cl_semantics l)\<rparr>)) (\<lambda>_.
     while_live ctx (with_state (\<lambda>st.
       bind_l2 (case ls_checkpoint st of
           None \<Rightarrow> ret ()
         | Some k \<Rightarrow> write_stage ctx SemanticVerified (\<lambda>u. u\<lparr>up_allow_same_stage := True,
             up_completed_results := kp_completed_results k @ [result]\<rparr>)) (\<lambda>_.
       ret (Inr \<lparr>ga_results = ga_results g @ [result],
         ga_semantics = ga_semantics g @ map (Pair (ic_claim_id c)) (cl_semantics l),
         ga_recoveries = ga_recoveries g @ (case cl_recovery l of None \<Rightarrow> [] | Some r \<Rightarrow> [r])\<rparr>)))))))"

fun claim_steps ::
  "'s l2_context \<Rightarrow> identified_candidate list \<Rightarrow> gathered \<Rightarrow> ('s, l2_outcome + gathered) l2m" where
  "claim_steps ctx [] g = ret (Inr g)"
| "claim_steps ctx (c # cs) g = and_then (claim_step ctx c g) (claim_steps ctx cs)"

definition pending_candidates :: "run_checkpoint option \<Rightarrow> identified_candidate list \<Rightarrow> identified_candidate list" where
  "pending_candidates checkpoint candidates =
     filter (\<lambda>c. ic_claim_id c \<notin> (case checkpoint of None \<Rightarrow> {} | Some k \<Rightarrow> set (kp_completed_claim_ids k)))
       (recovery_candidate_first checkpoint candidates)"

definition finish_attempt ::
  "'s l2_context \<Rightarrow> planner_result option \<Rightarrow> tool_call_summary list \<Rightarrow> compliance_outcome \<Rightarrow> gathered \<Rightarrow>
   ('s, l2_outcome) l2m" where
  "finish_attempt ctx planning calls compliance g =
     bind_l2 (with_state (\<lambda>st. case ls_checkpoint st of
         None \<Rightarrow> ret ()
       | Some k \<Rightarrow> write_stage ctx StageCompleted (\<lambda>u. u\<lparr>up_completed_results := kp_completed_results k\<rparr>))) (\<lambda>_.
     with_state (\<lambda>st. ret ((plain_outcome st)\<lparr>
       lo_results := (case ls_checkpoint st of None \<Rightarrow> ga_results g | Some k \<Rightarrow> kp_completed_results k),
       lo_compliance := Some compliance, lo_semantic_outcomes := ga_semantics g,
       lo_recovery_outcomes := ga_recoveries g, lo_evidence_calls := calls,
       lo_deterministic_outcomes := ls_deterministic st, lo_audit_events := ls_audit_events st,
       lo_planning := planning\<rparr>)))"

text \<open>The \<open>try\<close> block.\<close>

definition run_body :: "'s l2_context \<Rightarrow> ('s, l2_outcome) l2m" where
  "run_body ctx =
     or_return (plan_run ctx) (\<lambda>planning.
     or_return (evidence_run ctx planning) (\<lambda>calls.
     or_return (compliance_run ctx) (\<lambda>compliance.
     let candidates = cp_candidates (sr_product compliance) in
     or_return (accept_batch ctx candidates) (\<lambda>_.
     with_state (\<lambda>st.
     or_return (claim_steps ctx (pending_candidates (ls_checkpoint st) candidates)
       \<lparr>ga_results = [], ga_semantics = [], ga_recoveries = []\<rparr>)
       (finish_attempt ctx planning calls compliance))))))"

subsection \<open>Exception handlers\<close>

text \<open>A receipt that came with an exception is added to the attempt's own checkpoint.\<close>

definition record_receipt :: "'s l2_context \<Rightarrow> egress_receipt \<Rightarrow> ('s, unit) l2m" where
  "record_receipt ctx r =
     bind_l2 (receive (gr_reservation_id r)) (\<lambda>_. with_state (\<lambda>st. case ls_checkpoint st of
       None \<Rightarrow> ret ()
     | Some k \<Rightarrow> write_stage ctx (kp_stage k) (\<lambda>u. u\<lparr>up_allow_same_stage := True\<rparr>)))"

definition handle :: "'s l2_context \<Rightarrow> l2_exception \<Rightarrow> ('s, l2_outcome) l2m" where
  "handle ctx e = (case e of
       PolicyViolation code \<Rightarrow> egress_fault code
     | ProviderAttemptFailed r code \<Rightarrow> bind_l2 (record_receipt ctx r) (\<lambda>_.
         with_state (\<lambda>st. ret ((plain_outcome st)\<lparr>lo_provider_error := Some code\<rparr>)))
     | TransportReplay r \<Rightarrow> bind_l2 (record_receipt ctx r) (\<lambda>_. l2_fault ''transport_replay_refused'')
     | GenerationBudgetExhausted \<Rightarrow> l2_fault ''reconstruction_generation_exhausted''
     | InvalidCompliance r \<Rightarrow> bind_l2 (record_receipt ctx r) (\<lambda>_. l2_fault ''invalid_compliance_reply'')
     | InvalidSemantic r \<Rightarrow> bind_l2 (record_receipt ctx r) (\<lambda>_. l2_fault ''invalid_semantic_reply'')
     | InvalidPlan r \<Rightarrow> bind_l2 (record_receipt ctx r) (\<lambda>_. l2_fault ''invalid_tool_plan'')
     | Uncaught _ \<Rightarrow> raise_l2 e)"

definition opening_state :: "'s l2_context \<Rightarrow> 's \<Rightarrow> 's l2_state" where
  "opening_state ctx s = \<lparr>ls_checkpoint = lx_checkpoint ctx,
     ls_reservations = (case lx_checkpoint ctx of None \<Rightarrow> [] | Some k \<Rightarrow> kp_reservation_ids k),
     ls_attempts = (case lx_checkpoint ctx of None \<Rightarrow> 0 | Some k \<Rightarrow> kp_tool_attempts_used k),
     ls_recovered = (case lx_checkpoint ctx of None \<Rightarrow> False | Some k \<Rightarrow> kp_recovery_attempted k),
     ls_evidence = [], ls_written = [], ls_deterministic = [], ls_audit_events = [], ls_sent = [], ls_env = s\<rparr>"

text \<open>A checkpoint whose results are final is answered without any work.\<close>

definition final_results :: "run_checkpoint option \<Rightarrow> compliance_result list option" where
  "final_results checkpoint = (case checkpoint of
       None \<Rightarrow> None
     | Some k \<Rightarrow>
         if kp_stage k = StageCompleted \<or> (kp_stage k = SemanticVerified \<and> 0 < kp_candidate_count k \<and>
           length (kp_completed_results k) = kp_candidate_count k)
         then Some (kp_completed_results k) else None)"

definition run_l2_attempt :: "'s l2_context \<Rightarrow> 's \<Rightarrow> (l2_exception + l2_outcome) \<times> 's l2_state" where
  "run_l2_attempt ctx s =
     (let st = opening_state ctx s in
      case final_results (lx_checkpoint ctx) of
        Some results \<Rightarrow> (Inr ((plain_outcome st)\<lparr>lo_results := results\<rparr>), st)
      | None \<Rightarrow>
          (case restore ctx (lx_checkpoint ctx) of
             Inl e \<Rightarrow> (Inl e, st)
           | Inr evidence \<Rightarrow>
               (case run_body ctx (st\<lparr>ls_evidence := evidence\<rparr>) of
                  (Inr outcome, st1) \<Rightarrow> (Inr outcome, st1)
                | (Inl e, st1) \<Rightarrow> handle ctx e st1)))"

end
