(* ===== verification/WorkerRun.thy ===== *)
theory WorkerRun
  imports WorkerEvents L2Run
begin

text \<open>
  \<open>RunWorker._run\<close> of \<open>runtime/worker.py\<close>: one claimed run, driven as an L1 question or handed to
  the L2 state machine. The store, the planner, the evidence agent, the answer runner and the
  monotonic clock are operations over a state \<open>'s\<close> of their own. The heartbeat task may set
  \<open>lease_lost\<close> during any of them; once a check has seen it set, it stays set.
\<close>

section \<open>Context and state\<close>

record 's worker_context =
  wx_claim :: "'s \<Rightarrow> (l2_exception + bool) \<times> 's"
  wx_append :: "run_event \<Rightarrow> 's \<Rightarrow> (l2_exception + run_event) \<times> 's"
  wx_append_many_once :: "run_event list \<Rightarrow> run_event \<Rightarrow> 's \<Rightarrow> (l2_exception + run_event list) \<times> 's"
  wx_reconcile_l2_egress :: "run_checkpoint \<Rightarrow> 's \<Rightarrow> (l2_exception + run_event list) \<times> 's"
  wx_complete :: "run_event \<Rightarrow> 's \<Rightarrow> (l2_exception + bool) \<times> 's"
  wx_plan :: "string \<Rightarrow> 's \<Rightarrow> (l2_exception + planner_result) \<times> 's"
  wx_collect :: "tool_plan \<Rightarrow> string \<Rightarrow> 's \<Rightarrow> (l2_exception + evidence_result) \<times> 's"
  wx_answer :: "string \<Rightarrow> evidence list \<Rightarrow> 's \<Rightarrow> (l2_exception + answer_outcome) \<times> 's"
  wx_elapsed :: "'s \<Rightarrow> nat \<times> 's"
  wx_lease_lost :: "'s \<Rightarrow> bool"
  wx_sha256 :: "string \<Rightarrow> string"

record 's run_job =
  jb_question :: string
  jb_corpus_manifest_id :: string
  jb_task_level :: task_level
  jb_l2_context :: "'s l2_context option"
  jb_lease_acquired :: bool
  jb_attempt :: nat

text \<open>What the worker did, in order: its writes, what the agents answered, and the lease loss it saw.\<close>

datatype worker_act =
    Claimed bool
  | Appended event_body
  | AppendedBatch "event_body list" event_body
  | Reconciled
  | GotPlan planner_result
  | GotEvidence evidence_result
  | GotAnswer "evidence list" answer_outcome
  | L2Attempted
  | LeaseLost
  | Ended terminal bool

record 's worker_state =
  ws_acts :: "worker_act list"
  ws_lost :: bool
  ws_active_stage :: "(agent_name \<times> string) option"
  ws_egress_stage :: egress_stage
  ws_env :: 's

type_synonym ('s, 'a) worker_m = "('s worker_state, 'a) action"

definition worker_start :: "'s \<Rightarrow> 's worker_state" where
  "worker_start s = \<lparr>ws_acts = [], ws_lost = False, ws_active_stage = None, ws_egress_stage = Planning, ws_env = s\<rparr>"

definition note_act :: "worker_act \<Rightarrow> 's worker_state \<Rightarrow> 's worker_state" where
  "note_act a st = st\<lparr>ws_acts := ws_acts st @ [a]\<rparr>"

text \<open>An operation of a collaborator; \<open>acted\<close> logs the act that it completed.\<close>

definition perform :: "('s \<Rightarrow> (l2_exception + 'a) \<times> 's) \<Rightarrow> ('s, 'a) worker_m" where
  "perform op st = (case op (ws_env st) of (r, s) \<Rightarrow> (r, st\<lparr>ws_env := s\<rparr>))"

definition acted :: "('a \<Rightarrow> worker_act) \<Rightarrow> ('s \<Rightarrow> (l2_exception + 'a) \<times> 's) \<Rightarrow> ('s, 'a) worker_m" where
  "acted act op = bind_l2 (perform op) (\<lambda>x. bind_l2 (update_l2 (note_act (act x))) (\<lambda>_. ret x))"

text \<open>\<open>lease_lost.is_set()\<close>.\<close>

definition lease_lost :: "'s worker_context \<Rightarrow> ('s, bool) worker_m" where
  "lease_lost ctx st =
     (if ws_lost st \<or> wx_lease_lost ctx (ws_env st) then (Inr True, note_act LeaseLost (st\<lparr>ws_lost := True\<rparr>))
      else (Inr False, st))"

text \<open>A step, the check of the lease, and the rest; no terminal state when the lease is gone.\<close>

definition unless_lost ::
  "'s worker_context \<Rightarrow> ('s, 'r option) worker_m \<Rightarrow> ('s, 'r option) worker_m" where
  "unless_lost ctx rest = bind_l2 (lease_lost ctx) (\<lambda>lost. if lost then ret None else rest)"

definition fenced ::
  "'s worker_context \<Rightarrow> ('s, 'a) worker_m \<Rightarrow> ('a \<Rightarrow> ('s, 'r option) worker_m) \<Rightarrow> ('s, 'r option) worker_m" where
  "fenced ctx m rest = bind_l2 m (\<lambda>x. unless_lost ctx (rest x))"

text \<open>An event that its model refuses raises before the store is asked.\<close>

definition append_event_body :: "'s worker_context \<Rightarrow> event_body \<Rightarrow> ('s, unit) worker_m" where
  "append_event_body ctx body =
     (if event_valid (trace_event body)
      then bind_l2 (acted (\<lambda>_. Appended body) (wx_append ctx (trace_event body))) (\<lambda>_. ret ())
      else raise_l2 (Uncaught ''ValidationError''))"

definition elapsed :: "'s worker_context \<Rightarrow> ('s, nat) worker_m" where
  "elapsed ctx = perform (\<lambda>s. case wx_elapsed ctx s of (n, s1) \<Rightarrow> (Inr n, s1))"

definition enter_stage :: "'s worker_context \<Rightarrow> agent_name \<Rightarrow> string \<Rightarrow> ('s, unit) worker_m" where
  "enter_stage ctx agent step =
     bind_l2 (update_l2 (\<lambda>st. st\<lparr>ws_active_stage := Some (agent, step)\<rparr>)) (\<lambda>_.
       append_event_body ctx (agent_event agent step PhaseStarted None None))"

definition leave_stage ::
  "'s worker_context \<Rightarrow> agent_name \<Rightarrow> string \<Rightarrow> string option \<Rightarrow> ('s, unit) worker_m" where
  "leave_stage ctx agent step code =
     bind_l2 (elapsed ctx) (\<lambda>ms.
     bind_l2 (append_event_body ctx (agent_event agent step PhaseFinished (Some ms) code)) (\<lambda>_.
       update_l2 (\<lambda>st. st\<lparr>ws_active_stage := None\<rparr>)))"

definition finish_error_stage :: "'s worker_context \<Rightarrow> string \<Rightarrow> ('s, unit) worker_m" where
  "finish_error_stage ctx code = with_state (\<lambda>st. case ws_active_stage st of
       None \<Rightarrow> ret ()
     | Some (agent, step) \<Rightarrow> leave_stage ctx agent step (Some code))"

fun append_tool_summaries :: "'s worker_context \<Rightarrow> tool_call_summary list \<Rightarrow> ('s, unit) worker_m" where
  "append_tool_summaries ctx [] = ret ()"
| "append_tool_summaries ctx (c # cs) =
     bind_l2 (append_event_body ctx (tool_event c)) (\<lambda>_. append_tool_summaries ctx cs)"

section \<open>An L1 run\<close>

definition planning_stage ::
  "'s worker_context \<Rightarrow> 's run_job \<Rightarrow> (tool_plan \<Rightarrow> ('s, 'r option) worker_m) \<Rightarrow> ('s, 'r option) worker_m" where
  "planning_stage ctx job rest =
     fenced ctx (enter_stage ctx Orchestrator ''planning'') (\<lambda>_.
     fenced ctx (acted GotPlan (wx_plan ctx (jb_question job))) (\<lambda>planning.
     fenced ctx (append_event_body ctx (planning_egress_event planning)) (\<lambda>_.
     let plan = sr_product planning in
     fenced ctx (append_event_body ctx (PlanSummary (tp_plan_id plan) (length (tp_steps plan)) 6)) (\<lambda>_.
     fenced ctx (leave_stage ctx Orchestrator ''planning'' None) (\<lambda>_. rest plan)))))"

definition evidence_stage ::
  "'s worker_context \<Rightarrow> 's run_job \<Rightarrow> tool_plan \<Rightarrow> (evidence list \<Rightarrow> ('s, 'r option) worker_m) \<Rightarrow>
   ('s, 'r option) worker_m" where
  "evidence_stage ctx job plan rest =
     fenced ctx (enter_stage ctx EvidenceAgentName ''evidence'') (\<lambda>_.
     fenced ctx (acted GotEvidence (wx_collect ctx plan (jb_corpus_manifest_id job))) (\<lambda>result.
     fenced ctx (append_tool_summaries ctx (er_calls result)) (\<lambda>_.
     let selected = take 5 (er_evidence result) in
     fenced ctx (append_event_body ctx (evidence_event selected)) (\<lambda>_.
     fenced ctx (leave_stage ctx EvidenceAgentName ''evidence'' None) (\<lambda>_. rest selected)))))"

definition with_answer_egress ::
  "'s worker_context \<Rightarrow> answer_outcome \<Rightarrow> ('s, 'r option) worker_m \<Rightarrow> ('s, 'r option) worker_m" where
  "with_answer_egress ctx outcome rest = (case answer_egress_event outcome of
       None \<Rightarrow> rest
     | Some egress \<Rightarrow> fenced ctx (append_event_body ctx egress) (\<lambda>_. rest))"

text \<open>The last append of the stage is followed by no check; the one before \<open>complete\<close> covers it.\<close>

definition answer_stage ::
  "'s worker_context \<Rightarrow> 's run_job \<Rightarrow> evidence list \<Rightarrow> ('s, terminal option) worker_m" where
  "answer_stage ctx job selected =
     bind_l2 (update_l2 (\<lambda>st. st\<lparr>ws_egress_stage := EvidenceStage\<rparr>)) (\<lambda>_.
     fenced ctx (enter_stage ctx AnswerAgent ''answer'') (\<lambda>_.
     fenced ctx (acted (GotAnswer selected) (wx_answer ctx (jb_question job) selected)) (\<lambda>outcome.
     with_answer_egress ctx outcome (
     fenced ctx (bind_l2 (elapsed ctx) (\<lambda>ms. append_event_body ctx (verifier_event outcome ms))) (\<lambda>_.
     fenced ctx (append_event_body ctx (answer_event outcome)) (\<lambda>_.
     bind_l2 (leave_stage ctx AnswerAgent ''answer'' (an_provider_error outcome)) (\<lambda>_.
       lift (case project_answer_outcome outcome of
           Inl e \<Rightarrow> Inl (Uncaught e)
         | Inr t \<Rightarrow> Inr (Some t)))))))))"

text \<open>The \<open>except\<close> clauses; any other exception propagates.\<close>

definition l1_handler :: "'s worker_context \<Rightarrow> l2_exception \<Rightarrow> ('s, terminal option) worker_m" where
  "l1_handler ctx e = (case e of
       ProviderAttemptFailed r code \<Rightarrow>
         unless_lost ctx (fenced ctx
           (append_event_body ctx (admitted_egress_event Planning (gr_reservation_id r) (gr_replayed r) (gr_request_size r)))
           (\<lambda>_. bind_l2 (finish_error_stage ctx code) (\<lambda>_.
             ret (Some \<lparr>te_status = RunFailed, te_reason = Some code\<rparr>))))
     | InvalidPlan r \<Rightarrow>
         unless_lost ctx (fenced ctx
           (append_event_body ctx (admitted_egress_event Planning (gr_reservation_id r) (gr_replayed r) (gr_request_size r)))
           (\<lambda>_. bind_l2 (finish_error_stage ctx ''invalid_tool_plan'') (\<lambda>_.
             ret (Some \<lparr>te_status = RunRefused, te_reason = Some ''invalid_tool_plan''\<rparr>))))
     | PolicyViolation code \<Rightarrow>
         (case project_gate_error e of
            Inl fault \<Rightarrow> raise_l2 (Uncaught fault)
          | Inr t \<Rightarrow>
              unless_lost ctx (with_state (\<lambda>st. fenced ctx
                (append_event_body ctx (blocked_egress_event (ws_egress_stage st) code))
                (\<lambda>_. bind_l2 (finish_error_stage ctx code) (\<lambda>_. ret (Some t))))))
     | _ \<Rightarrow> raise_l2 e)"

definition catching :: "('s, 'a) action \<Rightarrow> (l2_exception \<Rightarrow> ('s, 'a) action) \<Rightarrow> ('s, 'a) action" where
  "catching m handler st = (case m st of (Inl e, st1) \<Rightarrow> handler e st1 | (Inr x, st1) \<Rightarrow> (Inr x, st1))"

definition l1_stages :: "'s worker_context \<Rightarrow> 's run_job \<Rightarrow> ('s, terminal option) worker_m" where
  "l1_stages ctx job =
     planning_stage ctx job (\<lambda>plan. evidence_stage ctx job plan (\<lambda>selected. answer_stage ctx job selected))"

text \<open>Writing the terminal state.\<close>

definition complete_with :: "'s worker_context \<Rightarrow> terminal \<Rightarrow> ('s, unit) worker_m" where
  "complete_with ctx t =
     (if event_valid (terminal_event t)
      then bind_l2 (acted (Ended t) (wx_complete ctx (terminal_event t))) (\<lambda>_. ret ())
      else raise_l2 (Uncaught ''ValidationError''))"

definition with_lease ::
  "'s worker_context \<Rightarrow> 's run_job \<Rightarrow> ('s, unit) worker_m \<Rightarrow> ('s, unit) worker_m" where
  "with_lease ctx job body =
     (if jb_lease_acquired job then body
      else bind_l2 (acted Claimed (wx_claim ctx)) (\<lambda>claimed. if claimed then body else ret ()))"

definition run_l1 :: "'s worker_context \<Rightarrow> 's run_job \<Rightarrow> ('s, unit) worker_m" where
  "run_l1 ctx job = with_lease ctx job
     (bind_l2 (catching (l1_stages ctx job) (l1_handler ctx)) (\<lambda>t. case t of
        None \<Rightarrow> ret ()
      | Some terminal \<Rightarrow> bind_l2 (lease_lost ctx) (\<lambda>lost. if lost then ret () else complete_with ctx terminal)))"

section \<open>An L2 run\<close>

fun append_batches :: "'s worker_context \<Rightarrow> (event_body list \<times> event_body) list \<Rightarrow> ('s, unit) worker_m" where
  "append_batches ctx [] = ret ()"
| "append_batches ctx ((bodies, anchor) # rest) =
     bind_l2 (acted (\<lambda>_. AppendedBatch bodies anchor)
       (wx_append_many_once ctx (map trace_event bodies) (trace_event anchor))) (\<lambda>_. append_batches ctx rest)"

text \<open>Every event of an audit fact is built, and so validated, before the first batch is appended.\<close>

definition append_l2_audit :: "'s worker_context \<Rightarrow> l2_audit_event \<Rightarrow> ('s, unit) worker_m" where
  "append_l2_audit ctx audit = (case l2_audit_batches (wx_sha256 ctx) audit of
       Inl fault \<Rightarrow> raise_l2 (Uncaught fault)
     | Inr batches \<Rightarrow>
         if list_all (\<lambda>(bodies, anchor). list_all (event_valid \<circ> trace_event) (anchor # bodies)) batches
         then append_batches ctx batches
         else raise_l2 (Uncaught ''ValidationError''))"

text \<open>
  \<open>replace_l2_runtime\<close>: the lease and the audit sink are the worker's; every other collaborator
  of the context keeps its own operations.
\<close>

definition replace_l2_runtime :: "'s worker_context \<Rightarrow> 's l2_context \<Rightarrow> 's worker_state l2_context" where
  "replace_l2_runtime ctx l2 = \<lparr>
     lx_run_id = lx_run_id l2,
     lx_corpus_manifest_id = lx_corpus_manifest_id l2,
     lx_planner = (\<lambda>key g. perform (lx_planner l2 key g)),
     lx_collect = (\<lambda>plan corpus used limit. perform (lx_collect l2 plan corpus used limit)),
     lx_compliance = (\<lambda>es key g. perform (lx_compliance l2 es key g)),
     lx_semantic = (\<lambda>c es d key g. perform (lx_semantic l2 c es d key g)),
     lx_deterministic = lx_deterministic l2,
     lx_recovery = (\<lambda>c es faults n. perform (lx_recovery l2 c es faults n)),
     lx_checkpoint = lx_checkpoint l2,
     lx_checkpoint_factory = lx_checkpoint_factory l2,
     lx_checkpoint_writer = map_option (\<lambda>writer version k. perform (writer version k)) (lx_checkpoint_writer l2),
     lx_evidence_restorer = lx_evidence_restorer l2,
     lx_plan_hash = lx_plan_hash l2,
     lx_lease_is_live = (\<lambda>st. case lease_lost ctx st of (Inr lost, st1) \<Rightarrow> (\<not> lost, st1) | (Inl e, st1) \<Rightarrow> (False, st1)),
     lx_audit_sink = Some (append_l2_audit ctx)\<rparr>"

definition l2_attempt ::
  "'s worker_context \<Rightarrow> 's l2_context \<Rightarrow> ('s, l2_outcome) worker_m" where
  "l2_attempt ctx l2 st =
     (case run_l2_attempt (replace_l2_runtime ctx l2) (note_act L2Attempted st) of (r, final) \<Rightarrow> (r, ls_env final))"

definition run_l2 :: "'s worker_context \<Rightarrow> 's run_job \<Rightarrow> ('s, unit) worker_m" where
  "run_l2 ctx job = (case jb_l2_context job of
       None \<Rightarrow> ret ()
     | Some l2 \<Rightarrow> with_lease ctx job
         (bind_l2 (case lx_checkpoint l2 of
              Some k \<Rightarrow> if 1 < jb_attempt job
                then bind_l2 (acted (\<lambda>_. Reconciled) (wx_reconcile_l2_egress ctx k)) (\<lambda>_. ret ()) else ret ()
            | None \<Rightarrow> ret ()) (\<lambda>_.
          bind_l2 (l2_attempt ctx l2) (\<lambda>outcome.
          bind_l2 (lease_lost ctx) (\<lambda>lost.
            if lost then ret () else complete_with ctx (project_l2_outcome outcome))))))"

section \<open>A job\<close>

text \<open>\<open>_run_safely\<close>: an exception ends the job and leaves no terminal state.\<close>

definition run_claimed :: "'s worker_context \<Rightarrow> 's run_job \<Rightarrow> ('s, unit) worker_m" where
  "run_claimed ctx job = (if jb_task_level job = L2 then run_l2 ctx job else run_l1 ctx job)"

definition run_safely :: "'s worker_context \<Rightarrow> 's run_job \<Rightarrow> 's \<Rightarrow> 's worker_state" where
  "run_safely ctx job s = snd (run_claimed ctx job (worker_start s))"

text \<open>
  \<open>_heartbeat\<close>: the loop over the intervals that pass before it is stopped, each with what the
  store answers; whether it set \<open>lease_lost\<close>.
\<close>

fun heartbeat_loop :: "(string + bool) list \<Rightarrow> bool" where
  "heartbeat_loop [] = False"
| "heartbeat_loop (Inl _ # _) = True"
| "heartbeat_loop (Inr owned # beats) = (if \<not> owned then True else heartbeat_loop beats)"

end
