(* ===== verification/WorkerLogic.thy ===== *)
theory WorkerLogic
  imports WorkerRun
begin

text \<open>
  What an L1 run of the worker does, told without the program: \<open>l1_trace\<close> are the acts that lead
  to each terminal state. The locale \<open>act_log\<close> is the interface between the worker and its
  collaborators: a relation between the acts so far and the collaborators' state that every call
  keeps. In it, the program is shown to follow the protocol.
\<close>

section \<open>The protocol\<close>

definition stage_started :: "agent_name \<Rightarrow> string \<Rightarrow> worker_act" where
  "stage_started agent step = Appended (agent_event agent step PhaseStarted None None)"

definition stage_finished :: "agent_name \<Rightarrow> string \<Rightarrow> nat \<Rightarrow> string option \<Rightarrow> worker_act" where
  "stage_finished agent step ms code = Appended (agent_event agent step PhaseFinished (Some ms) code)"

definition planning_acts :: "planner_result \<Rightarrow> nat \<Rightarrow> worker_act list" where
  "planning_acts p ms = [stage_started Orchestrator ''planning'', GotPlan p, Appended (planning_egress_event p),
     Appended (PlanSummary (tp_plan_id (sr_product p)) (length (tp_steps (sr_product p))) 6),
     stage_finished Orchestrator ''planning'' ms None]"

definition selected_evidence :: "evidence_result \<Rightarrow> evidence list" where
  "selected_evidence r = take 5 (er_evidence r)"

definition evidence_acts :: "evidence_result \<Rightarrow> nat \<Rightarrow> worker_act list" where
  "evidence_acts r ms = [stage_started EvidenceAgentName ''evidence'', GotEvidence r] @
     map (\<lambda>c. Appended (tool_event c)) (er_calls r) @
     [Appended (evidence_event (selected_evidence r)), stage_finished EvidenceAgentName ''evidence'' ms None]"

definition answer_acts :: "evidence list \<Rightarrow> answer_outcome \<Rightarrow> nat \<Rightarrow> nat \<Rightarrow> worker_act list" where
  "answer_acts selected outcome ms ms' = [stage_started AnswerAgent ''answer'', GotAnswer selected outcome] @
     (case answer_egress_event outcome of None \<Rightarrow> [] | Some egress \<Rightarrow> [Appended egress]) @
     [Appended (verifier_event outcome ms), Appended (answer_event outcome),
      stage_finished AnswerAgent ''answer'' ms' (an_provider_error outcome)]"

text \<open>The receipt, the code and the terminal state of an exception that the worker handles.\<close>

definition receipt_event :: "egress_receipt \<Rightarrow> event_body" where
  "receipt_event r = admitted_egress_event Planning (gr_reservation_id r) (gr_replayed r) (gr_request_size r)"

fun handled :: "egress_stage \<Rightarrow> l2_exception \<Rightarrow> (event_body \<times> string \<times> terminal) option" where
  "handled stage (ProviderAttemptFailed r code) =
     Some (receipt_event r, code, \<lparr>te_status = RunFailed, te_reason = Some code\<rparr>)"
| "handled stage (InvalidPlan r) = Some (receipt_event r, ''invalid_tool_plan'',
     \<lparr>te_status = RunRefused, te_reason = Some ''invalid_tool_plan''\<rparr>)"
| "handled stage (PolicyViolation code) =
     (if code \<in> set admission_codes
      then Some (blocked_egress_event stage code, code, \<lparr>te_status = EgressBlocked, te_reason = Some code\<rparr>) else None)"
| "handled stage _ = None"

definition failure_acts :: "agent_name \<Rightarrow> string \<Rightarrow> event_body \<Rightarrow> string \<Rightarrow> nat \<Rightarrow> worker_act list" where
  "failure_acts agent step egress code ms =
     [stage_started agent step, Appended egress, stage_finished agent step ms (Some code)]"

inductive l1_trace :: "worker_act list \<Rightarrow> terminal \<Rightarrow> bool" where
  concluded: "project_answer_outcome outcome = Inr t \<Longrightarrow>
     l1_trace (planning_acts p m1 @ evidence_acts r m2 @ answer_acts (selected_evidence r) outcome m3 m4) t"
| planning_failed: "handled Planning e = Some (egress, code, t) \<Longrightarrow>
     l1_trace (failure_acts Orchestrator ''planning'' egress code m1) t"
| evidence_failed: "handled Planning e = Some (egress, code, t) \<Longrightarrow>
     l1_trace (planning_acts p m1 @ failure_acts EvidenceAgentName ''evidence'' egress code m2) t"
| answer_failed: "handled EvidenceStage e = Some (egress, code, t) \<Longrightarrow>
     l1_trace (planning_acts p m1 @ evidence_acts r m2 @ failure_acts AnswerAgent ''answer'' egress code m3) t"

definition is_ended :: "worker_act \<Rightarrow> bool" where
  "is_ended a = (case a of Ended _ _ \<Rightarrow> True | _ \<Rightarrow> False)"

text \<open>Acts of a run that goes on: the lease was not seen lost, no end, and every event is valid.\<close>

definition going_on :: "worker_act list \<Rightarrow> bool" where
  "going_on A \<longleftrightarrow> LeaseLost \<notin> set A \<and> \<not> list_ex is_ended A \<and>
     (\<forall>body. Appended body \<in> set A \<longrightarrow> body_valid body)"

definition claim_acts :: "'s run_job \<Rightarrow> worker_act list" where
  "claim_acts job = (if jb_lease_acquired job then [] else [Claimed True])"

text \<open>
  The acts of a whole run: it was not claimed, it ended at the lease check that failed, or it
  followed the protocol to a terminal state.
\<close>

definition l1_run :: "'s run_job \<Rightarrow> worker_act list \<Rightarrow> bool" where
  "l1_run job A \<longleftrightarrow> A = [Claimed False] \<or> (\<exists>B. A = B @ [LeaseLost] \<and> going_on B) \<or>
     (\<exists>B t ok. A = claim_acts job @ B @ [Ended t ok] \<and> going_on B \<and> l1_trace B t)"

lemma going_on_simps [simp]:
  "going_on []" "going_on [Claimed ok]"
  "going_on (A @ B) \<longleftrightarrow> going_on A \<and> going_on B"
  "going_on [Appended body] \<longleftrightarrow> body_valid body"
  "going_on [GotPlan p]" "going_on [GotEvidence r]" "going_on [GotAnswer es x]"
  by (auto simp: going_on_def is_ended_def)

section \<open>The interface to the collaborators\<close>

locale act_log =
  fixes ctx :: "'s worker_context"
    and related :: "worker_act list \<Rightarrow> 's \<Rightarrow> bool"
    and broken :: "worker_act list \<Rightarrow> 's \<Rightarrow> bool"
  assumes claims: "\<And>A s ok s'. related A s \<Longrightarrow> wx_claim ctx s = (Inr ok, s') \<Longrightarrow> related (A @ [Claimed ok]) s'"
    and claim_fails: "\<And>A s e s'. related A s \<Longrightarrow> wx_claim ctx s = (Inl e, s') \<Longrightarrow> broken A s'"
    and appends: "\<And>A body s ev s'. related A s \<Longrightarrow> wx_append ctx (trace_event body) s = (Inr ev, s') \<Longrightarrow>
      related (A @ [Appended body]) s'"
    and append_fails: "\<And>A body s e s'. related A s \<Longrightarrow> wx_append ctx (trace_event body) s = (Inl e, s') \<Longrightarrow>
      broken A s' \<and> (\<exists>c. e = Uncaught c)"
    and completes: "\<And>A t s ok s'. related A s \<Longrightarrow> wx_complete ctx (terminal_event t) s = (Inr ok, s') \<Longrightarrow>
      related (A @ [Ended t ok]) s'"
    and complete_fails: "\<And>A t s e s'. related A s \<Longrightarrow> wx_complete ctx (terminal_event t) s = (Inl e, s') \<Longrightarrow> broken A s'"
    and plans: "\<And>A q s p s'. related A s \<Longrightarrow> wx_plan ctx q s = (Inr p, s') \<Longrightarrow> related (A @ [GotPlan p]) s'"
    and plan_fails: "\<And>A q s e s'. related A s \<Longrightarrow> wx_plan ctx q s = (Inl e, s') \<Longrightarrow> related A s'"
    and collects: "\<And>A p c s r s'. related A s \<Longrightarrow> wx_collect ctx p c s = (Inr r, s') \<Longrightarrow> related (A @ [GotEvidence r]) s'"
    and collect_fails: "\<And>A p c s e s'. related A s \<Longrightarrow> wx_collect ctx p c s = (Inl e, s') \<Longrightarrow> related A s'"
    and answers: "\<And>A q es s x s'. related A s \<Longrightarrow> wx_answer ctx q es s = (Inr x, s') \<Longrightarrow> related (A @ [GotAnswer es x]) s'"
    and answer_fails: "\<And>A q es s e s'. related A s \<Longrightarrow> wx_answer ctx q es s = (Inl e, s') \<Longrightarrow> related A s'"
    and measures: "\<And>A s. related A s \<Longrightarrow> related A (snd (wx_elapsed ctx s))"
    and observes: "\<And>A s. related A s \<Longrightarrow> related (A @ [LeaseLost]) s"
    and weakens: "\<And>A s. related A s \<Longrightarrow> broken A s"

context act_log
begin

definition stands :: "worker_act list \<Rightarrow> (agent_name \<times> string) option \<Rightarrow> egress_stage \<Rightarrow> 's worker_state \<Rightarrow> bool" where
  "stands A stage eg st \<longleftrightarrow> ws_acts st = A \<and> \<not> ws_lost st \<and> ws_active_stage st = stage \<and> ws_egress_stage st = eg \<and>
     related A (ws_env st) \<and> going_on A"

definition lost_at_last :: "'s worker_state \<Rightarrow> bool" where
  "lost_at_last st \<longleftrightarrow> (\<exists>B. ws_acts st = B @ [LeaseLost] \<and> going_on B \<and> related (B @ [LeaseLost]) (ws_env st))"

definition stops :: "l2_exception \<Rightarrow> 's worker_state \<Rightarrow> bool" where
  "stops e st \<longleftrightarrow> (\<forall>eg. handled eg e = None) \<and> going_on (ws_acts st) \<and> broken (ws_acts st) (ws_env st)"

definition fails :: "worker_act list \<Rightarrow> l2_exception \<Rightarrow> 's worker_state \<Rightarrow> bool" where
  "fails C e st \<longleftrightarrow> stops e st \<or> (\<exists>B agent step eg. stands (C @ B @ [stage_started agent step]) (Some (agent, step)) eg st \<and>
     (\<forall>egress code t m. handled eg e = Some (egress, code, t) \<longrightarrow> l1_trace (B @ failure_acts agent step egress code m) t))"

definition concludes :: "worker_act list \<Rightarrow> terminal option \<Rightarrow> 's worker_state \<Rightarrow> bool" where
  "concludes C t st \<longleftrightarrow> (case t of None \<Rightarrow> lost_at_last st
     | Some terminal \<Rightarrow> \<exists>B stage eg. stands (C @ B) stage eg st \<and> l1_trace B terminal)"

lemma wp_acted:
  assumes "\<And>x s. op (ws_env st) = (Inr x, s) \<Longrightarrow> Q x (note_act (act x) (st\<lparr>ws_env := s\<rparr>))"
    and "\<And>e s. op (ws_env st) = (Inl e, s) \<Longrightarrow> E e (st\<lparr>ws_env := s\<rparr>)"
  shows "wp (acted act op) Q E st"
  using assms
  by (auto simp: acted_def wp_def perform_def bind_l2_def update_l2_def ret_def split: prod.splits sum.splits)

lemma wp_append:
  assumes "stands A stage eg st" "\<And>st1. body_valid body \<Longrightarrow> stands (A @ [Appended body]) stage eg st1 \<Longrightarrow> Q () st1"
    and "\<And>e st1. stops e st1 \<Longrightarrow> E e st1"
  shows "wp (append_event_body ctx body) Q E st"
proof (cases "event_valid (trace_event body)")
  case True
  then have valid: "body_valid body" by (simp add: event_valid_def trace_event_def)
  have "wp (acted (\<lambda>_. Appended body) (wx_append ctx (trace_event body))) (\<lambda>_. Q ()) E st"
  proof (rule wp_acted)
    fix ev s assume "wx_append ctx (trace_event body) (ws_env st) = (Inr ev, s)"
    with assms(1) valid show "Q () (note_act (Appended body) (st\<lparr>ws_env := s\<rparr>))"
      by (intro assms(2)) (auto simp: stands_def note_act_def intro: appends)
  next
    fix e s assume "wx_append ctx (trace_event body) (ws_env st) = (Inl e, s)"
    with assms(1) append_fails [of A "ws_env st" body e s] show "E e (st\<lparr>ws_env := s\<rparr>)"
      by (intro assms(3)) (auto simp: stands_def stops_def)
  qed
  with True show ?thesis by (simp add: append_event_body_def wp_simps)
next
  case False
  with assms(1) show ?thesis
    by (auto simp: append_event_body_def wp_simps stands_def stops_def intro!: assms(3) weakens)
qed

lemma wp_enter:
  assumes "stands A stage0 eg st"
    and "\<And>st1. stands (A @ [stage_started agent step]) (Some (agent, step)) eg st1 \<Longrightarrow> Q () st1"
    and "\<And>e st1. stops e st1 \<Longrightarrow> E e st1"
  shows "wp (enter_stage ctx agent step) Q E st"
  unfolding enter_stage_def wp_simps
  by (rule wp_append [of A "Some (agent, step)" eg])
    (use assms in \<open>auto simp: stands_def stage_started_def [symmetric]\<close>)

lemma wp_elapsed:
  assumes "stands A stage eg st" "\<And>ms st1. stands A stage eg st1 \<Longrightarrow> Q ms st1"
  shows "wp (elapsed ctx) Q E st"
  using assms measures [of A "ws_env st"]
  by (auto simp: elapsed_def wp_def perform_def stands_def split: prod.split)

lemma wp_leave:
  assumes "stands A stage0 eg st"
    and "\<And>ms st1. stands (A @ [stage_finished agent step ms code]) None eg st1 \<Longrightarrow> Q () st1"
    and "\<And>e st1. stops e st1 \<Longrightarrow> E e st1"
  shows "wp (leave_stage ctx agent step code) Q E st"
  unfolding leave_stage_def wp_simps
proof (rule wp_elapsed [OF assms(1)])
  fix ms st1 assume "stands A stage0 eg st1"
  then show "wp (append_event_body ctx (agent_event agent step PhaseFinished (Some ms) code))
      (\<lambda>_ st. Q () (st\<lparr>ws_active_stage := None\<rparr>)) E st1"
    by (rule wp_append) (use assms(2,3) in \<open>auto simp: stands_def stage_finished_def\<close>)
qed

text \<open>A check of the lease: the run ends there, or goes on where it was.\<close>

lemma wp_unless_lost:
  assumes "stands A stage eg st" "\<And>st1. lost_at_last st1 \<Longrightarrow> Q None st1" "wp rest Q E st"
  shows "wp (unless_lost ctx rest) Q E st"
proof -
  have "wp (lease_lost ctx) (\<lambda>lost. wp (if lost then ret None else rest) Q E) E st"
  proof (cases "wx_lease_lost ctx (ws_env st)")
    case True
    with assms(1) observes [of A "ws_env st"] show ?thesis
      by (auto simp: wp_def [of "lease_lost ctx"] lease_lost_def wp_simps stands_def note_act_def lost_at_last_def
          intro!: assms(2))
  next
    case False
    with assms(1,3) show ?thesis by (auto simp: wp_def [of "lease_lost ctx"] lease_lost_def stands_def)
  qed
  then show ?thesis by (simp add: unless_lost_def wp_simps)
qed

end

section \<open>The program follows the protocol\<close>

context act_log
begin

text \<open>\<open>ends C m\<close>: from here the rest of an L1 run ends as the protocol allows, after the acts \<open>C\<close>.\<close>

definition ends :: "worker_act list \<Rightarrow> ('s, terminal option) worker_m \<Rightarrow> 's worker_state \<Rightarrow> bool" where
  "ends C m st \<longleftrightarrow> wp m (concludes C) (fails C) st"

lemma stops_fails: "stops e st \<Longrightarrow> fails C e st"
  by (simp add: fails_def)

lemma lost_concludes: "lost_at_last st \<Longrightarrow> concludes C None st"
  by (simp add: concludes_def)

lemma ends_unless_lost: "stands A stage eg st \<Longrightarrow> ends C rest st \<Longrightarrow> ends C (unless_lost ctx rest) st"
  unfolding ends_def by (rule wp_unless_lost) (auto intro: lost_concludes)

lemma ends_fenced:
  "wp m (\<lambda>x st1. \<exists>A stage eg. stands A stage eg st1 \<and> ends C (rest x) st1) (fails C) st \<Longrightarrow> ends C (fenced ctx m rest) st"
  unfolding ends_def fenced_def wp_simps
  by (erule wp_mono) (auto simp: ends_def [symmetric] intro: ends_unless_lost)

lemma ends_append:
  assumes "stands A stage eg st"
    and "\<And>st1. body_valid body \<Longrightarrow> stands (A @ [Appended body]) stage eg st1 \<Longrightarrow> ends C (rest ()) st1"
  shows "ends C (fenced ctx (append_event_body ctx body) rest) st"
  by (rule ends_fenced, rule wp_append [OF assms(1)]) (use assms(2) in \<open>blast intro: stops_fails\<close>)+

lemma ends_enter:
  assumes "stands A stage0 eg st"
    and "\<And>st1. stands (A @ [stage_started agent step]) (Some (agent, step)) eg st1 \<Longrightarrow> ends C (rest ()) st1"
  shows "ends C (fenced ctx (enter_stage ctx agent step) rest) st"
  by (rule ends_fenced, rule wp_enter [OF assms(1)]) (use assms(2) in \<open>blast intro: stops_fails\<close>)+

lemma ends_leave:
  assumes "stands A stage0 eg st"
    and "\<And>ms st1. stands (A @ [stage_finished agent step ms code]) None eg st1 \<Longrightarrow> ends C (rest ()) st1"
  shows "ends C (fenced ctx (leave_stage ctx agent step code) rest) st"
  by (rule ends_fenced, rule wp_leave [OF assms(1)]) (use assms(2) in \<open>blast intro: stops_fails\<close>)+

text \<open>A call of an agent: it answers, or fails in the stage it was made in.\<close>

lemma ends_call:
  assumes "stands A (Some (agent, step)) eg st" "A = C @ B @ [stage_started agent step]"
    and "\<And>x s. related A (ws_env st) \<Longrightarrow> op (ws_env st) = (Inr x, s) \<Longrightarrow> related (A @ [act x]) s"
    and "\<And>e s. related A (ws_env st) \<Longrightarrow> op (ws_env st) = (Inl e, s) \<Longrightarrow> related A s"
    and "\<And>x. going_on [act x]"
    and "\<And>x st1. stands (A @ [act x]) (Some (agent, step)) eg st1 \<Longrightarrow> ends C (rest x) st1"
    and "\<And>e egress code t m. handled eg e = Some (egress, code, t) \<Longrightarrow>
      l1_trace (B @ failure_acts agent step egress code m) t"
  shows "ends C (fenced ctx (acted act op) rest) st"
proof (rule ends_fenced, rule wp_acted)
  fix x s assume "op (ws_env st) = (Inr x, s)"
  with assms(1,3,5) have "stands (A @ [act x]) (Some (agent, step)) eg (note_act (act x) (st\<lparr>ws_env := s\<rparr>))"
    by (auto simp: stands_def note_act_def)
  with assms(6) show "\<exists>A stage eg. stands A stage eg (note_act (act x) (st\<lparr>ws_env := s\<rparr>)) \<and>
      ends C (rest x) (note_act (act x) (st\<lparr>ws_env := s\<rparr>))"
    by blast
next
  fix e s assume "op (ws_env st) = (Inl e, s)"
  with assms(1,4) have "stands A (Some (agent, step)) eg (st\<lparr>ws_env := s\<rparr>)"
    by (auto simp: stands_def)
  with assms(2,7) show "fails C e (st\<lparr>ws_env := s\<rparr>)"
    unfolding fails_def by blast
qed

lemma ends_planning:
  assumes "stands C None Planning st"
    and "\<And>p m st1. stands (C @ planning_acts p m) None Planning st1 \<Longrightarrow> ends C (rest (sr_product p)) st1"
  shows "ends C (planning_stage ctx job rest) st"
  unfolding planning_stage_def Let_def
proof (rule ends_enter [OF assms(1)])
  fix st1 assume "stands (C @ [stage_started Orchestrator ''planning'']) (Some (Orchestrator, ''planning'')) Planning st1"
  then show "ends C (fenced ctx (acted GotPlan (wx_plan ctx (jb_question job))) (\<lambda>planning.
     fenced ctx (append_event_body ctx (planning_egress_event planning)) (\<lambda>_.
     fenced ctx (append_event_body ctx (PlanSummary (tp_plan_id (sr_product planning)) (length (tp_steps (sr_product planning))) 6)) (\<lambda>_.
     fenced ctx (leave_stage ctx Orchestrator ''planning'' None) (\<lambda>_. rest (sr_product planning)))))) st1"
  proof (rule ends_call [where B = "[]"], goal_cases)
    case (5 x st1)
    show ?case
      by (rule ends_append [OF 5], erule ends_append, erule ends_leave, rule assms(2))
        (simp add: planning_acts_def)
  qed (auto simp: planning_failed dest: plans plan_fails)
qed

end

context act_log
begin

lemma wp_tools:
  assumes "stands A stage eg st"
    and "\<And>st1. stands (A @ map (\<lambda>c. Appended (tool_event c)) cs) stage eg st1 \<Longrightarrow> Q () st1"
    and "\<And>e st1. stops e st1 \<Longrightarrow> E e st1"
  shows "wp (append_tool_summaries ctx cs) Q E st"
  using assms(1,2)
proof (induction cs arbitrary: A st)
  case Nil
  then show ?case by (simp add: wp_simps)
next
  case (Cons c cs)
  show ?case
    unfolding append_tool_summaries.simps wp_simps
    by (rule wp_append [OF Cons.prems(1)], rule Cons.IH, assumption)
      (use Cons.prems(2) assms(3) in simp_all)
qed

lemma ends_evidence:
  assumes "stands (C @ B) None Planning st"
    and "\<And>e egress code t m. handled Planning e = Some (egress, code, t) \<Longrightarrow>
      l1_trace (B @ failure_acts EvidenceAgentName ''evidence'' egress code m) t"
    and "\<And>r m st1. stands (C @ B @ evidence_acts r m) None Planning st1 \<Longrightarrow> ends C (rest (selected_evidence r)) st1"
  shows "ends C (evidence_stage ctx job plan rest) st"
  unfolding evidence_stage_def Let_def
proof (rule ends_enter [OF assms(1)])
  fix st1
  assume "stands ((C @ B) @ [stage_started EvidenceAgentName ''evidence'']) (Some (EvidenceAgentName, ''evidence'')) Planning st1"
  then show "ends C (fenced ctx (acted GotEvidence (wx_collect ctx plan (jb_corpus_manifest_id job))) (\<lambda>result.
     fenced ctx (append_tool_summaries ctx (er_calls result)) (\<lambda>_.
     fenced ctx (append_event_body ctx (evidence_event (take 5 (er_evidence result)))) (\<lambda>_.
     fenced ctx (leave_stage ctx EvidenceAgentName ''evidence'' None) (\<lambda>_. rest (take 5 (er_evidence result))))))) st1"
  proof (rule ends_call [where B = B], goal_cases)
    case (5 x st1)
    show ?case
    proof (rule ends_fenced, rule wp_tools [OF 5])
      fix st2 assume *: "stands ((((C @ B) @ [stage_started EvidenceAgentName ''evidence'']) @ [GotEvidence x]) @
        map (\<lambda>c. Appended (tool_event c)) (er_calls x)) (Some (EvidenceAgentName, ''evidence'')) Planning st2"
      show "\<exists>A stage eg. stands A stage eg st2 \<and> ends C (fenced ctx (append_event_body ctx (evidence_event (take 5 (er_evidence x)))) (\<lambda>_.
        fenced ctx (leave_stage ctx EvidenceAgentName ''evidence'' None) (\<lambda>_. rest (take 5 (er_evidence x))))) st2"
        by (intro exI conjI, rule *, rule ends_append [OF *], erule ends_leave,
            unfold selected_evidence_def [symmetric], rule assms(3))
          (simp add: evidence_acts_def selected_evidence_def)
    qed (rule stops_fails)
  qed (auto simp: assms(2) dest: collects collect_fails)
qed

lemma project_answer_uncaught: "project_answer_outcome outcome = Inl c \<Longrightarrow> handled eg (Uncaught c) = None"
  by simp

lemma ends_answer:
  assumes "stands (C @ B) None Planning st"
    and "\<And>e egress code t m. handled EvidenceStage e = Some (egress, code, t) \<Longrightarrow>
      l1_trace (B @ failure_acts AnswerAgent ''answer'' egress code m) t"
    and "\<And>outcome m m' t. project_answer_outcome outcome = Inr t \<Longrightarrow> l1_trace (B @ answer_acts selected outcome m m') t"
  shows "ends C (answer_stage ctx job selected) st"
proof -
  let ?step = "stage_started AnswerAgent ''answer''"
  let ?stage = "Some (AnswerAgent, ''answer'')"
  let ?judged = "\<lambda>outcome. fenced ctx (bind_l2 (elapsed ctx) (\<lambda>ms. append_event_body ctx (verifier_event outcome ms))) (\<lambda>_.
     fenced ctx (append_event_body ctx (answer_event outcome)) (\<lambda>_.
     bind_l2 (leave_stage ctx AnswerAgent ''answer'' (an_provider_error outcome)) (\<lambda>_.
       lift (case project_answer_outcome outcome of Inl e \<Rightarrow> Inl (Uncaught e) | Inr t \<Rightarrow> Inr (Some t)))))"
  let ?egress = "\<lambda>outcome. case answer_egress_event outcome of None \<Rightarrow> [] | Some egress \<Rightarrow> [Appended egress]"
  have closing: "ends C (bind_l2 (leave_stage ctx AnswerAgent ''answer'' (an_provider_error outcome)) (\<lambda>_.
      lift (case project_answer_outcome outcome of Inl e \<Rightarrow> Inl (Uncaught e) | Inr t \<Rightarrow> Inr (Some t)))) st1"
    if now: "stands (C @ B @ [?step, GotAnswer selected outcome] @ ?egress outcome @
      [Appended (verifier_event outcome m), Appended (answer_event outcome)]) ?stage EvidenceStage st1" for outcome m st1
    unfolding ends_def wp_simps
  proof (rule wp_leave [OF now])
    fix m' st2
    assume "stands ((C @ B @ [?step, GotAnswer selected outcome] @ ?egress outcome @
      [Appended (verifier_event outcome m), Appended (answer_event outcome)]) @
      [stage_finished AnswerAgent ''answer'' m' (an_provider_error outcome)]) None EvidenceStage st2"
    then have *: "stands (C @ B @ answer_acts selected outcome m m') None EvidenceStage st2"
      by (simp add: answer_acts_def)
    show "(case case project_answer_outcome outcome of Inl e \<Rightarrow> Inl (Uncaught e) | Inr t \<Rightarrow> Inr (Some t) of
        Inl e \<Rightarrow> fails C e | Inr x \<Rightarrow> concludes C x) st2"
    proof (cases "project_answer_outcome outcome")
      case (Inl c)
      with * show ?thesis by (simp add: fails_def stops_def) (auto simp: stands_def intro: weakens)
    next
      case (Inr t)
      with * assms(3) [OF Inr] show ?thesis by (auto simp: concludes_def)
    qed
  qed (rule stops_fails)
  have judged: "ends C (?judged outcome) st1"
    if "stands (C @ B @ [?step, GotAnswer selected outcome] @ ?egress outcome) ?stage EvidenceStage st1" for outcome st1
  proof (rule ends_fenced, unfold wp_simps, rule wp_elapsed [OF that], erule wp_append)
    fix ms st2
    assume *: "stands ((C @ B @ [?step, GotAnswer selected outcome] @ ?egress outcome) @ [Appended (verifier_event outcome ms)])
      ?stage EvidenceStage st2"
    show "\<exists>A stage eg. stands A stage eg st2 \<and> ends C (fenced ctx (append_event_body ctx (answer_event outcome)) (\<lambda>_.
     bind_l2 (leave_stage ctx AnswerAgent ''answer'' (an_provider_error outcome)) (\<lambda>_.
       lift (case project_answer_outcome outcome of Inl e \<Rightarrow> Inl (Uncaught e) | Inr t \<Rightarrow> Inr (Some t))))) st2"
      by (intro exI conjI, rule *, rule ends_append [OF *], rule closing [where m = ms]) simp
  qed (rule stops_fails)
  have answered: "ends C (with_answer_egress ctx outcome (?judged outcome)) st1"
    if now: "stands (((C @ B) @ [?step]) @ [GotAnswer selected outcome]) ?stage EvidenceStage st1" for outcome st1
  proof (cases "answer_egress_event outcome")
    case None
    with now show ?thesis unfolding with_answer_egress_def by (simp add: judged del: lift_def)
  next
    case (Some egress)
    then show ?thesis
      unfolding with_answer_egress_def option.case
      by (simp del: append_assoc) (rule ends_append [OF now], rule judged, simp)
  qed
  from assms(1) have "stands (C @ B) None EvidenceStage (st\<lparr>ws_egress_stage := EvidenceStage\<rparr>)"
    by (simp add: stands_def)
  then have "ends C (fenced ctx (enter_stage ctx AnswerAgent ''answer'') (\<lambda>_.
      fenced ctx (acted (GotAnswer selected) (wx_answer ctx (jb_question job) selected)) (\<lambda>outcome.
      with_answer_egress ctx outcome (?judged outcome)))) (st\<lparr>ws_egress_stage := EvidenceStage\<rparr>)"
    by (rule ends_enter, elim ends_call [where B = B])
      (auto simp: assms(2) answered simp del: append_assoc dest: answers answer_fails)
  then show ?thesis by (simp add: answer_stage_def ends_def wp_simps)
qed

end

context act_log
begin

lemma ends_stages: "stands C None Planning st \<Longrightarrow> ends C (l1_stages ctx job) st"
  unfolding l1_stages_def
proof (rule ends_planning, assumption, rule ends_evidence [OF _ evidence_failed], assumption, assumption)
  fix p m st1 r m' st2
  assume "stands (C @ planning_acts p m @ evidence_acts r m') None Planning st2"
  then show "ends C (answer_stage ctx job (selected_evidence r)) st2"
    by (rule ends_answer) (simp_all add: answer_failed concluded)
qed

text \<open>What the handler does with an exception of a stage, and with any other.\<close>

definition halts :: "worker_act list \<Rightarrow> ('s, terminal option) worker_m \<Rightarrow> 's worker_state \<Rightarrow> bool" where
  "halts C m st \<longleftrightarrow> wp m (concludes C) (\<lambda>_ st. going_on (ws_acts st) \<and> broken (ws_acts st) (ws_env st)) st"

lemma halts_failure:
  assumes "stands (C @ B @ [stage_started agent step]) (Some (agent, step)) eg st"
    and "handled eg e = Some (egress, code, t)"
    and "\<And>m. l1_trace (B @ failure_acts agent step egress code m) t"
  shows "halts C (unless_lost ctx (fenced ctx (append_event_body ctx egress) (\<lambda>_.
    bind_l2 (finish_error_stage ctx code) (\<lambda>_. ret (Some t))))) st"
  unfolding halts_def
proof (rule wp_unless_lost [OF assms(1)], rule lost_concludes, assumption, unfold fenced_def wp_simps,
    rule wp_append [OF assms(1)], rule wp_unless_lost, assumption, rule lost_concludes, assumption, unfold wp_simps)
  fix st1
  assume *: "stands ((C @ B @ [stage_started agent step]) @ [Appended egress]) (Some (agent, step)) eg st1"
  have "wp (leave_stage ctx agent step (Some code)) (\<lambda>_. concludes C (Some t))
      (\<lambda>_ st. going_on (ws_acts st) \<and> broken (ws_acts st) (ws_env st)) st1"
  proof (rule wp_leave [OF *])
    fix m st2
    assume "stands (((C @ B @ [stage_started agent step]) @ [Appended egress]) @ [stage_finished agent step m (Some code)]) None eg st2"
    then have "stands (C @ B @ failure_acts agent step egress code m) None eg st2"
      by (simp add: failure_acts_def)
    with assms(3) show "concludes C (Some t) st2" by (auto simp: concludes_def)
  qed (simp add: stops_def)
  with * show "wp (finish_error_stage ctx code) (\<lambda>_. concludes C (Some t))
      (\<lambda>_ st. going_on (ws_acts st) \<and> broken (ws_acts st) (ws_env st)) st1"
    by (simp add: finish_error_stage_def wp_simps stands_def)
qed (simp add: stops_def)

lemma handler_of_handled:
  assumes "handled (ws_egress_stage st) e = Some (egress, code, t)"
  shows "l1_handler ctx e st = unless_lost ctx (fenced ctx (append_event_body ctx egress) (\<lambda>_.
    bind_l2 (finish_error_stage ctx code) (\<lambda>_. ret (Some t)))) st"
proof (cases e)
  case (PolicyViolation c)
  with assms have "c \<in> set admission_codes" "egress = blocked_egress_event (ws_egress_stage st) c" "code = c"
    "t = \<lparr>te_status = EgressBlocked, te_reason = Some c\<rparr>"
    by (auto split: if_splits)
  with PolicyViolation show ?thesis
    by (simp add: l1_handler_def project_gate_error_def unless_lost_def bind_l2_def with_state_def lease_lost_def note_act_def
        split: prod.split sum.split)
qed (use assms in \<open>auto simp: l1_handler_def receipt_event_def\<close>)

lemma handler_of_unhandled:
  assumes "\<forall>eg. handled eg e = None"
  shows "\<exists>e'. l1_handler ctx e st = (Inl e', st)"
proof (cases e)
  case (PolicyViolation c)
  with assms have "c \<notin> set admission_codes" by (auto split: if_splits)
  with PolicyViolation show ?thesis by (simp add: l1_handler_def project_gate_error_def raise_l2_def)
qed (use assms in \<open>simp_all add: l1_handler_def raise_l2_def\<close>)

lemma handler_halts:
  assumes "fails C e st"
  shows "halts C (l1_handler ctx e) st"
proof (cases "\<forall>eg. handled eg e = None")
  case True
  with assms have "stops e st"
    by (auto simp: fails_def) (auto simp: stops_def stands_def intro: weakens)
  with handler_of_unhandled [OF True, of st] show ?thesis
    by (auto simp: halts_def wp_def stops_def)
next
  case False
  with assms obtain B agent step eg where
      *: "stands (C @ B @ [stage_started agent step]) (Some (agent, step)) eg st"
      "\<forall>egress code t m. handled eg e = Some (egress, code, t) \<longrightarrow> l1_trace (B @ failure_acts agent step egress code m) t"
    by (auto simp: fails_def stops_def)
  then have eg: "ws_egress_stage st = eg" by (simp add: stands_def)
  show ?thesis
  proof (cases "handled eg e")
    case None
    then have "\<forall>eg. handled eg e = None" by (cases e) (auto split: if_splits)
    with False show ?thesis by simp
  next
    case (Some h)
    obtain egress code t where h: "handled eg e = Some (egress, code, t)"
      using Some by (cases h) auto
    with *(2) have "halts C (unless_lost ctx (fenced ctx (append_event_body ctx egress) (\<lambda>_.
        bind_l2 (finish_error_stage ctx code) (\<lambda>_. ret (Some t))))) st"
      by (intro halts_failure [OF *(1) h]) blast
    with handler_of_handled [of st e] h eg show ?thesis by (simp add: halts_def wp_def)
  qed
qed

lemma caught_halts:
  assumes "stands C None Planning st"
  shows "halts C (catching (l1_stages ctx job) (l1_handler ctx)) st"
proof (cases "l1_stages ctx job st")
  case (Pair r st1)
  with ends_stages [OF assms, of job] have
    "case r of Inl e \<Rightarrow> fails C e st1 | Inr t \<Rightarrow> concludes C t st1"
    by (cases r) (auto simp: ends_def wp_def)
  with Pair handler_halts [of C "projl r" st1] show ?thesis
    by (cases r) (simp_all add: halts_def wp_def catching_def)
qed

text \<open>The whole run, from a state in which nothing was done.\<close>

definition final :: "'s run_job \<Rightarrow> unit \<Rightarrow> 's worker_state \<Rightarrow> bool" where
  "final job _ st \<longleftrightarrow> l1_run job (ws_acts st) \<and> related (ws_acts st) (ws_env st)"

definition aborted :: "l2_exception \<Rightarrow> 's worker_state \<Rightarrow> bool" where
  "aborted _ st \<longleftrightarrow> going_on (ws_acts st) \<and> broken (ws_acts st) (ws_env st)"

lemma lost_final: "lost_at_last st \<Longrightarrow> final job () st"
  by (auto simp: final_def l1_run_def lost_at_last_def)

lemma wp_complete:
  assumes "stands (claim_acts job @ B) stage eg st" "l1_trace B t"
  shows "wp (complete_with ctx t) (final job) aborted st"
proof (cases "event_valid (terminal_event t)")
  case True
  have "wp (acted (Ended t) (wx_complete ctx (terminal_event t))) (\<lambda>_. final job ()) aborted st"
    using assms(1)
    by (intro wp_acted) (auto simp: final_def aborted_def l1_run_def stands_def note_act_def assms(2)
        dest: completes complete_fails)
  with True show ?thesis by (simp add: complete_with_def wp_simps)
next
  case False
  with assms(1) show ?thesis by (auto simp: complete_with_def wp_simps aborted_def stands_def intro: weakens)
qed

lemma run_l1_follows:
  assumes "related [] s"
  shows "wp (run_l1 ctx job) (final job) aborted (worker_start s)"
proof -
  let ?body = "bind_l2 (catching (l1_stages ctx job) (l1_handler ctx)) (\<lambda>t. case t of
        None \<Rightarrow> ret ()
      | Some terminal \<Rightarrow> bind_l2 (lease_lost ctx) (\<lambda>lost. if lost then ret () else complete_with ctx terminal))"
  have last_check: "wp (lease_lost ctx) (\<lambda>lost. if lost then final job () else wp (complete_with ctx t) (final job) aborted) aborted st"
    if *: "stands (claim_acts job @ B) stage eg st" and l: "l1_trace B t" for B stage eg st t
    using * wp_complete [OF * l] observes [of "claim_acts job @ B" "ws_env st"]
    by (auto simp: wp_def [of "lease_lost ctx"] lease_lost_def wp_simps stands_def note_act_def lost_at_last_def
        intro!: lost_final)
  have body: "wp ?body (final job) aborted st" if "stands (claim_acts job) None Planning st" for st
    unfolding wp_simps
    by (rule wp_mono [OF caught_halts [OF that, unfolded halts_def]])
      (auto simp: concludes_def aborted_def wp_simps lost_final intro: last_check split: option.split)
  show ?thesis
  proof (cases "jb_lease_acquired job")
    case True
    with assms body show ?thesis
      by (auto simp: run_l1_def with_lease_def claim_acts_def stands_def worker_start_def)
  next
    case False
    have "wp (acted Claimed (wx_claim ctx)) (\<lambda>claimed. wp (if claimed then ?body else ret ()) (final job) aborted) aborted
        (worker_start s)"
    proof (rule wp_acted)
      fix ok s' assume "wx_claim ctx (ws_env (worker_start s)) = (Inr ok, s')"
      with assms claims [of "[]" s ok s'] have *: "related [Claimed ok] s'" by (simp add: worker_start_def)
      show "wp (if ok then ?body else ret ()) (final job) aborted
          (note_act (Claimed ok) ((worker_start s)\<lparr>ws_env := s'\<rparr>))"
      proof (cases ok)
        case True
        with * False body [of "note_act (Claimed ok) ((worker_start s)\<lparr>ws_env := s'\<rparr>)"] show ?thesis
          by (auto simp: stands_def note_act_def worker_start_def claim_acts_def)
      next
        case False
        with * show ?thesis by (simp add: wp_simps final_def l1_run_def note_act_def worker_start_def)
      qed
    next
      fix e s' assume "wx_claim ctx (ws_env (worker_start s)) = (Inl e, s')"
      with assms claim_fails [of "[]" s e s'] show "aborted e ((worker_start s)\<lparr>ws_env := s'\<rparr>)"
        by (simp add: worker_start_def aborted_def)
    qed
    with False show ?thesis by (simp add: run_l1_def with_lease_def wp_simps)
  qed
qed

end

end
