(* ===== verification/RunStore.thy ===== *)
theory RunStore
  imports CheckpointContracts LedgerStore "HOL-Library.List_Lexorder" "HOL-Library.Char_ord"
begin

text \<open>
  \<open>runs/postgres.py\<close> over the tables of \<open>migrations/005\<close> to \<open>014\<close>: the leased run and its trace.
  The run, its attempts and its checkpoint are rows; the events of all runs are one list in the
  order they were inserted; the ledger's tables stand beside them. A row the \<open>CHECK\<close>s refuse is
  a \<open>psycopg.Error\<close>. Each operation is one transaction that reads the clock itself; a clock
  that fails is \<^const>\<open>None\<close>.
\<close>

datatype run_store_error =
    RunStoreUnavailable
  | RunStoreIntegrityError
  | RunStoreValidationError
  | UncaughtValidationError

text \<open>The class of an error, by its name.\<close>

fun error_class :: "run_store_error \<Rightarrow> string" where
  "error_class RunStoreUnavailable = ''RunStoreUnavailable''"
| "error_class RunStoreIntegrityError = ''RunStoreIntegrityError''"
| "error_class RunStoreValidationError = ''RunStoreValidationError''"
| "error_class UncaughtValidationError = ''ValidationError''"

section \<open>Tables\<close>

record event_row =
  er_row_run_id :: string
  er_row_event :: run_event
  er_row_recorded_at :: int

record run_attempt =
  ra_run_id :: string
  ra_attempt :: nat
  ra_resume_key_hash :: "string option"
  ra_started_at :: int
  ra_ended_at :: "int option"
  ra_end_reason :: "string option"

record run_tables =
  tb_runs :: "run_record list"
  tb_events :: "event_row list"
  tb_attempts :: "run_attempt list"
  tb_checkpoints :: "run_checkpoint list"
  tb_ledger :: ledger_db

text \<open>
  A transaction: the connection may fail before it, during it, or at its commit, when the server
  has committed or not; every such fault is reported as unavailability.
\<close>

definition run_transact ::
  "fault \<Rightarrow> (run_tables \<Rightarrow> run_store_error + 'a \<times> run_tables) \<Rightarrow> run_tables \<Rightarrow>
   (run_store_error + 'a) \<times> run_tables" where
  "run_transact fault body db =
     (case fault of
        NoFault \<Rightarrow> (case body db of Inl e \<Rightarrow> (Inl e, db) | Inr (x, db') \<Rightarrow> (Inr x, db'))
      | CommitDrops committed \<Rightarrow>
          (case body db of
             Inl e \<Rightarrow> (Inl e, db)
           | Inr (x, db') \<Rightarrow> (Inl RunStoreUnavailable, if committed then db' else db))
      | _ \<Rightarrow> (Inl RunStoreUnavailable, db))"

section \<open>Statements\<close>

text \<open>The payload \<open>CHECK\<close> of the event table: the model's own rules, and two narrower bounds.\<close>

fun stored_body_ok :: "event_body \<Rightarrow> bool" where
  "stored_body_ok (PlanSummary plan_id step_count calls) = (calls \<le> 6)"
| "stored_body_ok (AgentStep e) = (ag_agent e \<noteq> ComplianceAgentName)"
| "stored_body_ok _ = True"

definition find_run :: "run_tables \<Rightarrow> string \<Rightarrow> run_record option" where
  "find_run db run_id = find (\<lambda>r. rn_run_id r = run_id) (tb_runs db)"

definition events_of :: "run_tables \<Rightarrow> string \<Rightarrow> run_event list" where
  "events_of db run_id = map er_row_event (filter (\<lambda>r. er_row_run_id r = run_id) (tb_events db))"

definition next_sequence :: "run_tables \<Rightarrow> string \<Rightarrow> nat" where
  "next_sequence db run_id = Suc (fold max (map re_sequence (events_of db run_id)) 0)"

definition insert_event ::
  "string \<Rightarrow> run_event \<Rightarrow> int \<Rightarrow> run_tables \<Rightarrow> run_store_error + run_tables" where
  "insert_event run_id event now db =
     (if find_run db run_id = None \<or> \<not> event_valid event \<or> \<not> stored_body_ok (re_body event) \<or>
        re_sequence event \<in> re_sequence ` set (events_of db run_id)
      then Inl RunStoreUnavailable
      else Inr (db\<lparr>tb_events := tb_events db @
        [\<lparr>er_row_run_id = run_id, er_row_event = event, er_row_recorded_at = now\<rparr>]\<rparr>))"

text \<open>An event object is validated when it is built; \<open>invalid\<close> is what the caller turns that into.\<close>

definition allocated_event :: "run_store_error \<Rightarrow> event_body \<Rightarrow> nat \<Rightarrow> run_store_error + run_event" where
  "allocated_event invalid body sequence =
     (let event = \<lparr>re_sequence = sequence, re_body = body\<rparr> in
      if event_valid event then Inr event else Inl invalid)"

definition insert_run :: "run_record \<Rightarrow> run_tables \<Rightarrow> run_store_error + run_tables" where
  "insert_run r db =
     (if rn_run_id r \<in> rn_run_id ` set (tb_runs db) \<or> rn_request_id r \<in> rn_request_id ` set (tb_runs db) \<or>
        db_heads (tb_ledger db) (rn_corpus_manifest_id r) = None \<or>
        db_policies (tb_ledger db) (rn_policy_hash r) = None \<or> \<not> run_row_ok r
      then Inl RunStoreUnavailable else Inr (db\<lparr>tb_runs := tb_runs db @ [r]\<rparr>))"

definition update_run :: "run_record \<Rightarrow> run_tables \<Rightarrow> run_store_error + run_tables" where
  "update_run r db =
     (if run_row_ok r
      then Inr (db\<lparr>tb_runs := map (\<lambda>x. if rn_run_id x = rn_run_id r then r else x) (tb_runs db)\<rparr>)
      else Inl RunStoreUnavailable)"

section \<open>Leases\<close>

definition microseconds :: "int \<Rightarrow> int" where "microseconds s = s * 1000000"

definition lease_expired :: "run_record \<Rightarrow> int \<Rightarrow> bool" where
  "lease_expired r now = (case rn_lease_expires_at r of None \<Rightarrow> False | Some expiry \<Rightarrow> expiry \<le> now)"

definition holds_lease :: "run_record \<Rightarrow> string \<Rightarrow> int \<Rightarrow> bool" where
  "holds_lease r owner now \<longleftrightarrow>
     rn_status r = Running \<and> rn_lease_owner r = Some owner \<and> \<not> lease_expired r now"

definition queue_lease_owner :: string where "queue_lease_owner = ''queue-delivery''"

definition queued_run :: "run_record \<Rightarrow> int \<Rightarrow> int \<Rightarrow> run_record" where
  "queued_run run now queue_lease = run\<lparr>rn_status := Queued, rn_terminal_reason := None, rn_created_at := now,
     rn_started_at := None, rn_completed_at := None, rn_lease_owner := Some queue_lease_owner,
     rn_lease_expires_at := Some (now + queue_lease), rn_last_heartbeat_at := None\<rparr>"

definition create_run ::
  "fault \<Rightarrow> int option \<Rightarrow> int \<Rightarrow> run_record \<Rightarrow> run_tables \<Rightarrow> (run_store_error + run_record) \<times> run_tables" where
  "create_run fault clock queue_lease run db =
     (case clock of
        None \<Rightarrow> (Inl RunStoreValidationError, db)
      | Some now \<Rightarrow>
          let queued = queued_run run now queue_lease in
          if \<not> run_record_valid queued then (Inl RunStoreValidationError, db)
          else run_transact fault (\<lambda>db.
            bind_result (insert_run queued db) (\<lambda>db1.
            bind_result (insert_event (rn_run_id queued)
                \<lparr>re_sequence = 1, re_body = StateTransition None Queued None\<rparr> now db1) (\<lambda>db2.
            Inr (queued, db2)))) db)"

definition claim_run ::
  "fault \<Rightarrow> int option \<Rightarrow> string \<Rightarrow> string \<Rightarrow> int \<Rightarrow> run_tables \<Rightarrow> (run_store_error + bool) \<times> run_tables" where
  "claim_run fault clock run_id owner seconds db =
     (if \<not> trace_identifier owner \<or> seconds \<le> 0 then (Inl RunStoreValidationError, db)
      else run_transact fault (\<lambda>db.
        case clock of
          None \<Rightarrow> Inl RunStoreValidationError
        | Some now \<Rightarrow>
            (case find_run db run_id of
               None \<Rightarrow> Inr (False, db)
             | Some r \<Rightarrow>
                 if rn_status r \<noteq> Queued \<or> lease_expired r now then Inr (False, db)
                 else bind_result (allocated_event RunStoreValidationError
                     (StateTransition (Some Queued) Running None) (next_sequence db run_id)) (\<lambda>event.
                   bind_result (update_run (r\<lparr>rn_status := Running, rn_started_at := Some now,
                     rn_lease_owner := Some owner, rn_lease_expires_at := Some (now + microseconds seconds),
                     rn_last_heartbeat_at := Some now\<rparr>) db) (\<lambda>db1.
                   bind_result (insert_event run_id event now db1) (\<lambda>db2. Inr (True, db2)))))) db)"

definition heartbeat ::
  "fault \<Rightarrow> int option \<Rightarrow> string \<Rightarrow> string \<Rightarrow> int \<Rightarrow> run_tables \<Rightarrow> (run_store_error + bool) \<times> run_tables" where
  "heartbeat fault clock run_id owner seconds db =
     (if \<not> trace_identifier owner \<or> seconds \<le> 0 then (Inl RunStoreValidationError, db)
      else run_transact fault (\<lambda>db.
        case clock of
          None \<Rightarrow> Inl RunStoreValidationError
        | Some now \<Rightarrow>
            (case find_run db run_id of
               None \<Rightarrow> Inr (False, db)
             | Some r \<Rightarrow>
                 if \<not> holds_lease r owner now then Inr (False, db)
                 else bind_result (update_run (r\<lparr>
                     rn_lease_expires_at := map_option (max (now + microseconds seconds)) (rn_lease_expires_at r),
                     rn_last_heartbeat_at := Some now\<rparr>) db) (\<lambda>db1. Inr (True, db1)))) db)"

section \<open>The trace\<close>

definition is_transition :: "event_body \<Rightarrow> bool" where
  "is_transition body = (case body of StateTransition _ _ _ \<Rightarrow> True | TerminalEvent _ _ \<Rightarrow> True | _ \<Rightarrow> False)"

definition append_event ::
  "fault \<Rightarrow> int option \<Rightarrow> string \<Rightarrow> string \<Rightarrow> run_event \<Rightarrow> run_tables \<Rightarrow>
   (run_store_error + run_event) \<times> run_tables" where
  "append_event fault clock run_id owner event db =
     (if \<not> trace_identifier owner \<or> \<not> event_valid event \<or> is_transition (re_body event)
      then (Inl RunStoreValidationError, db)
      else run_transact fault (\<lambda>db.
        case clock of
          None \<Rightarrow> Inl RunStoreValidationError
        | Some now \<Rightarrow>
            (case find_run db run_id of
               None \<Rightarrow> Inl RunStoreValidationError
             | Some r \<Rightarrow>
                 if \<not> holds_lease r owner now then Inl RunStoreValidationError
                 else bind_result (allocated_event RunStoreIntegrityError (re_body event)
                     (next_sequence db run_id)) (\<lambda>allocated.
                   bind_result (insert_event run_id allocated now db) (\<lambda>db1. Inr (allocated, db1))))) db)"

text \<open>An egress receipt is the same if its reservation is, any other event if its payload is.\<close>

definition audit_anchor_exists :: "run_tables \<Rightarrow> string \<Rightarrow> event_body \<Rightarrow> bool" where
  "audit_anchor_exists db run_id anchor =
     (case anchor of
        EgressSummary e \<Rightarrow>
          (case es_reservation_id e of
             Some i \<Rightarrow> list_ex (\<lambda>x. case re_body x of
                 EgressSummary e' \<Rightarrow> es_reservation_id e' = Some i | _ \<Rightarrow> False) (events_of db run_id)
           | None \<Rightarrow> anchor \<in> re_body ` set (events_of db run_id))
      | _ \<Rightarrow> anchor \<in> re_body ` set (events_of db run_id))"

fun append_all ::
  "string \<Rightarrow> int \<Rightarrow> event_body list \<Rightarrow> run_tables \<Rightarrow> run_store_error + run_event list \<times> run_tables" where
  "append_all run_id now [] db = Inr ([], db)"
| "append_all run_id now (body # bodies) db =
     bind_result (allocated_event RunStoreIntegrityError body (next_sequence db run_id)) (\<lambda>event.
     bind_result (insert_event run_id event now db) (\<lambda>db1.
     bind_result (append_all run_id now bodies db1) (\<lambda>(events, db2). Inr (event # events, db2))))"

definition append_many_once ::
  "fault \<Rightarrow> int option \<Rightarrow> string \<Rightarrow> string \<Rightarrow> run_event list \<Rightarrow> run_event \<Rightarrow> run_tables \<Rightarrow>
   (run_store_error + run_event list) \<times> run_tables" where
  "append_many_once fault clock run_id owner events anchor db =
     (if \<not> trace_identifier owner \<or> \<not> list_all event_valid events \<or> \<not> event_valid anchor \<or> events = [] \<or>
        is_transition (re_body anchor)
      then (Inl RunStoreValidationError, db)
      else run_transact fault (\<lambda>db.
        case clock of
          None \<Rightarrow> Inl RunStoreValidationError
        | Some now \<Rightarrow>
            (case find_run db run_id of
               None \<Rightarrow> Inl RunStoreValidationError
             | Some r \<Rightarrow>
                 if \<not> holds_lease r owner now then Inl RunStoreValidationError
                 else if audit_anchor_exists db run_id (re_body anchor) then Inr ([], db)
                 else append_all run_id now (map re_body events) db)) db)"

section \<open>Receipts of the ledger\<close>

definition bindings_settled :: "run_record \<Rightarrow> run_checkpoint \<Rightarrow> bool" where
  "bindings_settled r k \<longleftrightarrow>
     rn_evaluation_root_id r = Some (kp_evaluation_root_id k) \<and>
     rn_source_manifest_id r = kb_source_manifest_id (kp_binding k) \<and>
     rn_corpus_manifest_id r = kb_corpus_manifest_id (kp_binding k) \<and>
     rn_policy_hash r = kb_policy_hash (kp_binding k) \<and>
     rn_configuration_hash r = kb_configuration_hash (kp_binding k) \<and>
     rn_compliance_prompt_hash r = Some (kb_compliance_prompt_hash (kp_binding k)) \<and>
     rn_verifier_prompt_hash r = Some (kb_verifier_prompt_hash (kp_binding k)) \<and>
     rn_provider_id r = kb_provider_id (kp_binding k) \<and> rn_model_id r = kb_model_id (kp_binding k)"

text \<open>The settled reservations of the run, oldest first, each with its last attempt.\<close>

definition settled_receipts ::
  "ledger_db \<Rightarrow> string \<Rightarrow> run_checkpoint \<Rightarrow> (reservation_row \<times> attempt) list" where
  "settled_receipts ledger run_id k = List.map_filter (\<lambda>v.
     if rw_run_id v = run_id \<and> rw_evaluation_root_id v = kp_evaluation_root_id k \<and>
       rw_policy_hash v = kb_policy_hash (kp_binding k) \<and>
       rw_corpus_manifest_id v = kb_corpus_manifest_id (kp_binding k) \<and>
       rb_provider_id (rw_route v) = kb_provider_id (kp_binding k) \<and>
       rw_model_id v = kb_model_id (kp_binding k) \<and> rw_state v \<in> {Succeeded, FailedKnown}
     then map_option (Pair v) (find (\<lambda>a. at_reservation_id a = rw_reservation_id v) (rev (db_attempts ledger)))
     else None) (db_reservations ledger)"

definition receipt_body :: "reservation_row \<times> attempt \<Rightarrow> event_body" where
  "receipt_body = (\<lambda>(v, a). EgressSummary \<lparr>es_stage = rw_stage v, es_reservation_id = Some (rw_reservation_id v),
     es_ledger_id = None, es_admitted = True, es_replayed = False,
     es_request_tokens = Some (rs_request_tokens (at_request_size a)),
     es_request_bytes = Some (rs_request_bytes (at_request_size a)),
     es_cost_microunits = None, es_error_code = None\<rparr>)"

fun rebuild_receipts ::
  "string \<Rightarrow> int \<Rightarrow> event_body list \<Rightarrow> run_tables \<Rightarrow> run_store_error + run_event list \<times> run_tables" where
  "rebuild_receipts run_id now [] db = Inr ([], db)"
| "rebuild_receipts run_id now (body # bodies) db =
     bind_result (allocated_event RunStoreIntegrityError body 1) (\<lambda>_.
       if audit_anchor_exists db run_id body then rebuild_receipts run_id now bodies db
       else
         bind_result (allocated_event RunStoreIntegrityError body (next_sequence db run_id)) (\<lambda>event.
         bind_result (insert_event run_id event now db) (\<lambda>db1.
         bind_result (rebuild_receipts run_id now bodies db1) (\<lambda>(events, db2). Inr (event # events, db2)))))"

definition reconcile_l2_egress ::
  "fault \<Rightarrow> int option \<Rightarrow> string \<Rightarrow> string \<Rightarrow> run_checkpoint \<Rightarrow> run_tables \<Rightarrow>
   (run_store_error + run_event list) \<times> run_tables" where
  "reconcile_l2_egress fault clock run_id owner k db =
     (if \<not> trace_identifier owner then (Inl RunStoreValidationError, db)
      else run_transact fault (\<lambda>db.
        case clock of
          None \<Rightarrow> Inl RunStoreValidationError
        | Some now \<Rightarrow>
            (case find_run db run_id of
               None \<Rightarrow> Inl RunStoreValidationError
             | Some r \<Rightarrow>
                 if \<not> holds_lease r owner now \<or> \<not> bindings_settled r k then Inl RunStoreValidationError
                 else rebuild_receipts run_id now
                   (map receipt_body (settled_receipts (tb_ledger db) run_id k)) db)) db)"

section \<open>Ending a run\<close>

definition ended_run :: "run_record \<Rightarrow> run_status \<Rightarrow> string option \<Rightarrow> int \<Rightarrow> run_record" where
  "ended_run r status reason now = r\<lparr>rn_status := status, rn_terminal_reason := reason,
     rn_completed_at := Some now, rn_lease_owner := None, rn_lease_expires_at := None,
     rn_last_heartbeat_at := None\<rparr>"

definition complete_run ::
  "fault \<Rightarrow> int option \<Rightarrow> string \<Rightarrow> string \<Rightarrow> run_event \<Rightarrow> run_tables \<Rightarrow> (run_store_error + bool) \<times> run_tables" where
  "complete_run fault clock run_id owner event db =
     (case re_body event of
        TerminalEvent status reason \<Rightarrow>
          if \<not> trace_identifier owner \<or> \<not> event_valid event then (Inl RunStoreValidationError, db)
          else run_transact fault (\<lambda>db.
            case clock of
              None \<Rightarrow> Inl RunStoreValidationError
            | Some now \<Rightarrow>
                (case find_run db run_id of
                   None \<Rightarrow> Inr (False, db)
                 | Some r \<Rightarrow>
                     if \<not> is_nonterminal (rn_status r) \<or> rn_lease_owner r \<noteq> Some owner \<or> lease_expired r now
                     then Inr (False, db)
                     else
                       bind_result (insert_event run_id \<lparr>re_sequence = next_sequence db run_id,
                         re_body = TerminalEvent status reason\<rparr> now db) (\<lambda>db1.
                       bind_result (update_run (ended_run r status reason now) db1) (\<lambda>db2.
                       Inr (True, db2))))) db
      | _ \<Rightarrow> (Inl RunStoreValidationError, db))"

definition fail_delivery ::
  "fault \<Rightarrow> int option \<Rightarrow> string \<Rightarrow> run_event \<Rightarrow> run_tables \<Rightarrow> (run_store_error + bool) \<times> run_tables" where
  "fail_delivery fault clock run_id event db =
     (if \<not> event_valid event \<or> re_body event \<noteq> TerminalEvent Interrupted (Some ''queue_delivery_failed'')
      then (Inl RunStoreValidationError, db)
      else complete_run fault clock run_id queue_lease_owner event db)"

text \<open>
  The runs whose lease has expired are ended one by one, in the order of their identifiers. The
  statement reads them FOR UPDATE SKIP LOCKED: the runs that another transaction has locked, which
  the argument locked names, are passed over.
\<close>

definition close_attempts :: "string \<Rightarrow> int \<Rightarrow> string \<Rightarrow> run_tables \<Rightarrow> run_tables" where
  "close_attempts run_id now reason db = db\<lparr>tb_attempts := map (\<lambda>a.
     if ra_run_id a = run_id \<and> ra_ended_at a = None
     then a\<lparr>ra_ended_at := Some now, ra_end_reason := Some reason\<rparr> else a) (tb_attempts db)\<rparr>"

fun expire_runs :: "int \<Rightarrow> run_record list \<Rightarrow> run_tables \<Rightarrow> run_store_error + nat \<times> run_tables" where
  "expire_runs now [] db = Inr (0, db)"
| "expire_runs now (r # rs) db =
     bind_result (allocated_event RunStoreIntegrityError (TerminalEvent Interrupted (Some ''lease_expired''))
       (next_sequence db (rn_run_id r))) (\<lambda>event.
     bind_result (update_run (ended_run r Interrupted (Some ''lease_expired'') now) db) (\<lambda>db1.
     bind_result (insert_event (rn_run_id r) event now
       (close_attempts (rn_run_id r) now ''lease_expired'' db1)) (\<lambda>db2.
     bind_result (expire_runs now rs db2) (\<lambda>(n, db3). Inr (Suc n, db3)))))"

definition expired_runs :: "(string \<Rightarrow> bool) \<Rightarrow> int \<Rightarrow> run_tables \<Rightarrow> run_record list" where
  "expired_runs locked now db = sort_key rn_run_id
     (filter (\<lambda>r. is_nonterminal (rn_status r) \<and> lease_expired r now \<and> \<not> locked (rn_run_id r)) (tb_runs db))"

definition reconcile_expired ::
  "fault \<Rightarrow> int option \<Rightarrow> (string \<Rightarrow> bool) \<Rightarrow> run_tables \<Rightarrow> (run_store_error + nat) \<times> run_tables" where
  "reconcile_expired fault clock locked db =
     (case clock of
        None \<Rightarrow> (Inl RunStoreValidationError, db)
      | Some now \<Rightarrow> run_transact fault (\<lambda>db. expire_runs now (expired_runs locked now db) db) db)"

section \<open>Reading\<close>

definition read_owned ::
  "fault \<Rightarrow> int option \<Rightarrow> string \<Rightarrow> string \<Rightarrow> run_tables \<Rightarrow> run_store_error + run_view option" where
  "read_owned fault clock run_id session db =
     (if \<not> trace_identifier session then Inl RunStoreValidationError
      else if fault \<noteq> NoFault then Inl RunStoreUnavailable
      else case find_run db run_id of
        None \<Rightarrow> Inr None
      | Some r \<Rightarrow>
          if rn_session_id r \<noteq> session then Inr None
          else if \<not> run_record_valid r \<or> \<not> list_all event_valid (events_of db run_id)
          then Inl RunStoreIntegrityError
          else
            let view = (\<lambda>expired. \<lparr>vw_run = r, vw_status = (if expired then Interrupted else rn_status r),
                  vw_reason = (if expired then Some ''lease_expired'' else rn_terminal_reason r),
                  vw_events = sort_key re_sequence (events_of db run_id)\<rparr>);
                answer = (\<lambda>v. if run_view_valid v then Inr (Some v) else Inl RunStoreIntegrityError) in
            if is_nonterminal (rn_status r) \<and> rn_lease_expires_at r \<noteq> None
            then (case clock of
                None \<Rightarrow> Inl RunStoreValidationError
              | Some now \<Rightarrow> answer (view (lease_expired r now)))
            else answer (view False))"

end
