(* ===== verification/WorkerStore.thy ===== *)
theory WorkerStore
  imports WorkerRun RunStore
begin

text \<open>
  The worker bound to the run store of \<open>runs/postgres.py\<close>: each call of a collaborator is numbered,
  and may be preceded by a heartbeat; the connection fault and the clock of every store call are
  arbitrary. The planner, the evidence agent, the answer runner and the monotonic clock have a
  state \<open>'e\<close> of their own.
\<close>

record worker_binding =
  wb_run_id :: string
  wb_worker_id :: string
  wb_lease_seconds :: int
  wb_fault :: "nat \<Rightarrow> fault"
  wb_clock :: "nat \<Rightarrow> int option"
  wb_beats :: "nat \<Rightarrow> bool"
  wb_sha256 :: "string \<Rightarrow> string"

record 'e worker_agents =
  wa_plan :: "string \<Rightarrow> 'e \<Rightarrow> (l2_exception + planner_result) \<times> 'e"
  wa_collect :: "tool_plan \<Rightarrow> string \<Rightarrow> 'e \<Rightarrow> (l2_exception + evidence_result) \<times> 'e"
  wa_answer :: "string \<Rightarrow> evidence list \<Rightarrow> 'e \<Rightarrow> (l2_exception + answer_outcome) \<times> 'e"
  wa_elapsed :: "'e \<Rightarrow> nat \<times> 'e"

record 'e store_env =
  se_tables :: run_tables
  se_calls :: nat
  se_lease_lost :: bool
  se_agents :: 'e

text \<open>A beat that the store does not confirm, or cannot answer, sets \<open>lease_lost\<close> and is the last.\<close>

definition beat :: "worker_binding \<Rightarrow> 'e store_env \<Rightarrow> 'e store_env" where
  "beat b s =
     (let n = se_calls s in
      if se_lease_lost s \<or> \<not> wb_beats b n then s\<lparr>se_calls := Suc n\<rparr>
      else (case heartbeat (wb_fault b n) (wb_clock b n) (wb_run_id b) (wb_worker_id b) (wb_lease_seconds b) (se_tables s) of
          (r, db) \<Rightarrow> s\<lparr>se_calls := Suc n, se_tables := db,
            se_lease_lost := heartbeat_loop [case r of Inl e \<Rightarrow> Inl (error_class e) | Inr owned \<Rightarrow> Inr owned]\<rparr>))"

definition store_call ::
  "worker_binding \<Rightarrow> (fault \<Rightarrow> int option \<Rightarrow> string \<Rightarrow> string \<Rightarrow> run_tables \<Rightarrow> (run_store_error + 'a) \<times> run_tables) \<Rightarrow>
   'e store_env \<Rightarrow> (l2_exception + 'a) \<times> 'e store_env" where
  "store_call b op s =
     (let s1 = beat b s; n = se_calls s1 in
      case op (wb_fault b n) (wb_clock b n) (wb_run_id b) (wb_worker_id b) (se_tables s1) of
        (Inl e, db) \<Rightarrow> (Inl (Uncaught (error_class e)), s1\<lparr>se_calls := Suc n, se_tables := db\<rparr>)
      | (Inr x, db) \<Rightarrow> (Inr x, s1\<lparr>se_calls := Suc n, se_tables := db\<rparr>))"

definition agent_call :: "worker_binding \<Rightarrow> ('e \<Rightarrow> 'r \<times> 'e) \<Rightarrow> 'e store_env \<Rightarrow> 'r \<times> 'e store_env" where
  "agent_call b op s =
     (let s1 = beat b s in case op (se_agents s1) of (r, e) \<Rightarrow> (r, s1\<lparr>se_agents := e\<rparr>))"

definition store_context :: "worker_binding \<Rightarrow> 'e worker_agents \<Rightarrow> 'e store_env worker_context" where
  "store_context b a = \<lparr>
     wx_claim = store_call b (\<lambda>fault clock run owner. claim_run fault clock run owner (wb_lease_seconds b)),
     wx_append = (\<lambda>event. store_call b (\<lambda>fault clock run owner. append_event fault clock run owner event)),
     wx_append_many_once = (\<lambda>events anchor.
       store_call b (\<lambda>fault clock run owner. append_many_once fault clock run owner events anchor)),
     wx_reconcile_l2_egress = (\<lambda>k. store_call b (\<lambda>fault clock run owner. reconcile_l2_egress fault clock run owner k)),
     wx_complete = (\<lambda>event. store_call b (\<lambda>fault clock run owner. complete_run fault clock run owner event)),
     wx_plan = (\<lambda>question. agent_call b (wa_plan a question)),
     wx_collect = (\<lambda>plan corpus. agent_call b (wa_collect a plan corpus)),
     wx_answer = (\<lambda>question es. agent_call b (wa_answer a question es)),
     wx_elapsed = (\<lambda>s. case wa_elapsed a (se_agents s) of (ms, e) \<Rightarrow> (ms, s\<lparr>se_agents := e\<rparr>)),
     wx_lease_lost = se_lease_lost,
     wx_sha256 = wb_sha256 b\<rparr>"

end
