(* ===== verification/CheckpointStore.thy ===== *)
theory CheckpointStore
  imports RunStore
begin

text \<open>
  \<open>checkpoints/postgres.py\<close>: checkpoints written by compare-and-set, and the resumption of an
  interrupted run, in transactions over the tables of the run store. SHA-256 is an argument.
\<close>

definition find_checkpoint :: "run_tables \<Rightarrow> string \<Rightarrow> run_checkpoint option" where
  "find_checkpoint db run_id = find (\<lambda>k. kp_run_id k = run_id) (tb_checkpoints db)"

text \<open>The table's \<open>CHECK\<close> on the payload is the contract's own validator.\<close>

definition insert_checkpoint :: "run_checkpoint \<Rightarrow> run_tables \<Rightarrow> run_store_error + run_tables" where
  "insert_checkpoint k db =
     (if find_run db (kp_run_id k) = None \<or> find_checkpoint db (kp_run_id k) \<noteq> None \<or> \<not> checkpoint_valid k
      then Inl RunStoreUnavailable else Inr (db\<lparr>tb_checkpoints := tb_checkpoints db @ [k]\<rparr>))"

definition update_checkpoint :: "run_checkpoint \<Rightarrow> run_tables \<Rightarrow> run_store_error + run_tables" where
  "update_checkpoint k db =
     (if \<not> checkpoint_valid k then Inl RunStoreUnavailable
      else Inr (db\<lparr>tb_checkpoints := map (\<lambda>x. if kp_run_id x = kp_run_id k then k else x) (tb_checkpoints db)\<rparr>))"

definition insert_attempt :: "run_attempt \<Rightarrow> run_tables \<Rightarrow> run_store_error + run_tables" where
  "insert_attempt a db =
     (if list_ex (\<lambda>x. ra_run_id x = ra_run_id a \<and>
          (ra_attempt x = ra_attempt a \<or> ra_resume_key_hash a \<noteq> None \<and> ra_resume_key_hash x = ra_resume_key_hash a))
          (tb_attempts db) \<or> \<not> optional sha256_text (ra_resume_key_hash a)
      then Inl RunStoreUnavailable else Inr (db\<lparr>tb_attempts := tb_attempts db @ [a]\<rparr>))"

definition insert_attempt_absent :: "run_attempt \<Rightarrow> run_tables \<Rightarrow> run_tables" where
  "insert_attempt_absent a db =
     (case insert_attempt a db of Inl _ \<Rightarrow> db | Inr db' \<Rightarrow> db')"

definition new_checkpoint ::
  "int option \<Rightarrow> run_record \<Rightarrow> checkpoint_stage \<Rightarrow> run_store_error + run_checkpoint" where
  "new_checkpoint clock r stage =
     (case (rn_evaluation_root_id r, rn_compliance_prompt_hash r, rn_verifier_prompt_hash r) of
        (Some er, Some compliance, Some verifier) \<Rightarrow>
          if rn_task_level r \<noteq> L2 then Inl RunStoreValidationError
          else (case clock of
             None \<Rightarrow> Inl RunStoreValidationError
           | Some now \<Rightarrow> Inr \<lparr>kp_run_id = rn_run_id r, kp_attempt = 1, kp_version = 1, kp_stage = stage,
               kp_task_level = L2, kp_query_hash = rn_query_hash r, kp_evaluation_root_id = er,
               kp_binding = \<lparr>kb_source_manifest_id = rn_source_manifest_id r,
                 kb_corpus_manifest_id = rn_corpus_manifest_id r, kb_policy_hash = rn_policy_hash r,
                 kb_configuration_hash = rn_configuration_hash r, kb_compliance_prompt_hash = compliance,
                 kb_verifier_prompt_hash = verifier, kb_provider_id = rn_provider_id r,
                 kb_model_id = rn_model_id r\<rparr>,
               kp_plan_id = None, kp_plan_hash = None, kp_evidence = [], kp_tool_attempts_used = 0,
               kp_reservation_ids = [], kp_generations = [], kp_recovery_attempted = False,
               kp_recovery_reason = None, kp_recovery_claim_id = None, kp_candidate_count = 0,
               kp_completed_claim_ids = [], kp_completed_results = [], kp_last_accessed_at = now\<rparr>)
      | _ \<Rightarrow> Inl RunStoreValidationError)"

definition bindings_match :: "run_record \<Rightarrow> run_checkpoint \<Rightarrow> bool" where
  "bindings_match r k \<longleftrightarrow> rn_task_level r = kp_task_level k \<and> bindings_settled r k \<and>
     rn_query_hash r = kp_query_hash k"

definition checkpoint_matches_binding :: "run_checkpoint \<Rightarrow> checkpoint_binding \<Rightarrow> bool" where
  "checkpoint_matches_binding k b \<longleftrightarrow> kp_binding k = b"

definition reservation_of :: "ledger_db \<Rightarrow> string \<Rightarrow> reservation_row option" where
  "reservation_of ledger i = find (\<lambda>v. rw_reservation_id v = i) (db_reservations ledger)"

definition reservations_bound :: "ledger_db \<Rightarrow> run_checkpoint \<Rightarrow> bool" where
  "reservations_bound ledger k \<longleftrightarrow> list_all (\<lambda>i. case reservation_of ledger i of
       None \<Rightarrow> False
     | Some v \<Rightarrow> rw_evaluation_root_id v = kp_evaluation_root_id k \<and> rw_run_id v = kp_run_id k)
     (kp_reservation_ids k)"

definition reservations_settled :: "ledger_db \<Rightarrow> run_checkpoint \<Rightarrow> bool" where
  "reservations_settled ledger k \<longleftrightarrow> list_all (\<lambda>i. case reservation_of ledger i of
       None \<Rightarrow> False
     | Some v \<Rightarrow> rw_evaluation_root_id v = kp_evaluation_root_id k \<and> rw_run_id v = kp_run_id k \<and>
         rw_state v \<in> {Succeeded, FailedKnown})
     (kp_reservation_ids k)"

section \<open>Writing\<close>

definition first_attempt :: "run_record \<Rightarrow> int \<Rightarrow> run_attempt" where
  "first_attempt r now =
     (let ended = (if rn_status r = Interrupted then rn_completed_at r else None) in
      \<lparr>ra_run_id = rn_run_id r, ra_attempt = 1, ra_resume_key_hash = None,
       ra_started_at = (case rn_started_at r of Some t \<Rightarrow> t
         | None \<Rightarrow> (case rn_completed_at r of Some t \<Rightarrow> t | None \<Rightarrow> now)),
       ra_ended_at = ended, ra_end_reason = (if ended = None then None else rn_terminal_reason r)\<rparr>)"

definition store_checkpoint ::
  "run_record \<Rightarrow> run_checkpoint option \<Rightarrow> run_checkpoint \<Rightarrow> int \<Rightarrow> run_tables \<Rightarrow> run_store_error + run_tables" where
  "store_checkpoint r current allocated now db =
     (case current of
        None \<Rightarrow>
          bind_result (insert_checkpoint allocated db) (\<lambda>db1. Inr (insert_attempt_absent (first_attempt r now) db1))
      | Some old \<Rightarrow>
          if \<not> checkpoint_valid old then Inl RunStoreIntegrityError
          else (case validate_transition old allocated of
             Inl _ \<Rightarrow> Inl RunStoreIntegrityError
           | Inr _ \<Rightarrow> update_checkpoint allocated db))"

definition checkpoint_summary :: "run_checkpoint \<Rightarrow> event_body" where
  "checkpoint_summary k = CheckpointSummary (stage_name (kp_stage k)) (kp_version k)
     (kp_tool_attempts_used k) (kp_recovery_attempted k)"

definition write_body ::
  "int \<Rightarrow> nat option \<Rightarrow> run_checkpoint \<Rightarrow> run_tables \<Rightarrow> run_store_error + run_checkpoint \<times> run_tables" where
  "write_body now previous k db =
     (case find_run db (kp_run_id k) of
        None \<Rightarrow> Inl RunStoreValidationError
      | Some r \<Rightarrow>
          if \<not> bindings_match r k \<or> \<not> reservations_bound (tb_ledger db) k
          then Inl RunStoreValidationError
          else
            let current = find_checkpoint db (kp_run_id k); allocated = k\<lparr>kp_last_accessed_at := now\<rparr> in
            if map_option kp_version current \<noteq> previous \<or>
              kp_version k \<noteq> (case previous of None \<Rightarrow> 0 | Some v \<Rightarrow> v) + 1 \<or>
              current = None \<and> (kp_stage k \<noteq> Planned \<or> kp_attempt k \<noteq> 1)
            then Inl RunStoreValidationError
            else bind_result (store_checkpoint r current allocated now db) (\<lambda>db1.
              bind_result (allocated_event RunStoreIntegrityError (checkpoint_summary allocated)
                (next_sequence db1 (kp_run_id k))) (\<lambda>event.
              bind_result (insert_event (kp_run_id k) event now db1) (\<lambda>db2.
              Inr (allocated, db2)))))"

definition write_checkpoint ::
  "fault \<Rightarrow> int option \<Rightarrow> nat option \<Rightarrow> run_checkpoint \<Rightarrow> run_tables \<Rightarrow>
   (run_store_error + run_checkpoint) \<times> run_tables" where
  "write_checkpoint fault clock previous k db =
     (if fault = ConnectFails then (Inl RunStoreUnavailable, db)
      else case clock of
        None \<Rightarrow> (Inl RunStoreValidationError, db)
      | Some now \<Rightarrow> run_transact fault (write_body now previous k) db)"

definition read_checkpoint :: "fault \<Rightarrow> string \<Rightarrow> run_tables \<Rightarrow> run_store_error + run_checkpoint option" where
  "read_checkpoint fault run_id db =
     (if fault \<noteq> NoFault then Inl RunStoreUnavailable
      else case find_checkpoint db run_id of
        None \<Rightarrow> Inr None
      | Some k \<Rightarrow> if checkpoint_valid k then Inr (Some k) else Inl RunStoreIntegrityError)"

section \<open>Resuming\<close>

definition latest_attempt :: "run_tables \<Rightarrow> string \<Rightarrow> run_attempt option" where
  "latest_attempt db run_id =
     (case sort_key ra_attempt (filter (\<lambda>a. ra_run_id a = run_id) (tb_attempts db)) of
        [] \<Rightarrow> None | as \<Rightarrow> Some (last as))"

definition replayed_attempt :: "run_tables \<Rightarrow> string \<Rightarrow> string \<Rightarrow> run_attempt option" where
  "replayed_attempt db run_id key_hash =
     find (\<lambda>a. ra_run_id a = run_id \<and> ra_resume_key_hash a = Some key_hash) (tb_attempts db)"

text \<open>
  The checks before anything is written: the disposition they end in, or the checkpoint and the
  latest attempt that the run is resumed from.
\<close>

definition resume_checks ::
  "run_tables \<Rightarrow> string \<Rightarrow> string \<Rightarrow> string \<Rightarrow> string \<Rightarrow> checkpoint_binding option \<Rightarrow>
   (resume_disposition \<times> nat option) + run_record \<times> run_checkpoint \<times> run_attempt" where
  "resume_checks db run_id session query_hash key_hash binding =
     (case find_run db run_id of
        None \<Rightarrow> Inl (ResumeNotFound, None)
      | Some r \<Rightarrow>
          if rn_session_id r \<noteq> session then Inl (NotOwner, None)
          else if rn_query_hash r \<noteq> query_hash then Inl (QueryMismatch, None)
          else
            let replay = replayed_attempt db run_id key_hash;
                resumable = (rn_status r = Interrupted \<and> rn_terminal_reason r = Some ''lease_expired'') in
            if replay = None \<and> is_nonterminal (rn_status r) then Inl (Leased, None)
            else if replay = None \<and> \<not> resumable then Inl (NotInterrupted, None)
            else case find_checkpoint db run_id of
              None \<Rightarrow> Inl (CheckpointMissing, None)
            | Some k \<Rightarrow>
                if \<not> checkpoint_valid k then Inl (CheckpointInvalid, None)
                else if \<not> bindings_match r k then Inl (BindingMismatch, None)
                else if (case binding of None \<Rightarrow> False | Some b \<Rightarrow> \<not> checkpoint_matches_binding k b)
                then Inl (BindingMismatch, None)
                else case latest_attempt db run_id of
                  None \<Rightarrow> Inl (CheckpointInvalid, None)
                | Some latest \<Rightarrow>
                    if ra_attempt latest \<noteq> kp_attempt k then Inl (CheckpointInvalid, None)
                    else (case replay of
                      Some a \<Rightarrow>
                        if ra_attempt a \<noteq> kp_attempt k then Inl (CheckpointInvalid, None)
                        else if is_nonterminal (rn_status r) \<and> ra_ended_at latest \<noteq> None
                        then Inl (CheckpointInvalid, None)
                        else if \<not> is_nonterminal (rn_status r) \<and>
                          (ra_ended_at latest = None \<or> ra_end_reason latest \<noteq> rn_terminal_reason r)
                        then Inl (CheckpointInvalid, None)
                        else Inl (ResumeReplay, Some (ra_attempt a))
                    | None \<Rightarrow>
                        if ra_ended_at latest = None \<or> ra_end_reason latest \<noteq> Some ''lease_expired''
                        then Inl (CheckpointInvalid, None)
                        else if \<not> reservations_settled (tb_ledger db) k then Inl (CheckpointInvalid, None)
                        else Inr (r, k, latest)))"

definition resumed_run :: "run_record \<Rightarrow> string \<Rightarrow> int \<Rightarrow> int \<Rightarrow> run_record" where
  "resumed_run r owner seconds now = r\<lparr>rn_status := Running, rn_terminal_reason := None,
     rn_completed_at := None, rn_started_at := Some (case rn_started_at r of Some t \<Rightarrow> t | None \<Rightarrow> now),
     rn_lease_owner := Some owner, rn_lease_expires_at := Some (now + microseconds seconds),
     rn_last_heartbeat_at := Some now\<rparr>"

text \<open>The sequence of an event is validated when it is built, and here nothing catches its error.\<close>

definition acquire_resume ::
  "run_record \<times> run_checkpoint \<times> run_attempt \<Rightarrow> string \<Rightarrow> string \<Rightarrow> int \<Rightarrow> int \<Rightarrow> run_tables \<Rightarrow>
   run_store_error + (resume_disposition \<times> nat option) \<times> run_tables" where
  "acquire_resume = (\<lambda>(r, k, latest) key_hash owner seconds now db.
     let attempt = Suc (ra_attempt latest); run_id = rn_run_id r in
     bind_result (update_run (resumed_run r owner seconds now) db) (\<lambda>db1.
     bind_result (insert_attempt \<lparr>ra_run_id = run_id, ra_attempt = attempt,
       ra_resume_key_hash = Some key_hash, ra_started_at = now, ra_ended_at = None, ra_end_reason = None\<rparr> db1) (\<lambda>db2.
     bind_result (update_checkpoint (k\<lparr>kp_attempt := attempt, kp_version := Suc (kp_version k),
       kp_last_accessed_at := now\<rparr>) db2) (\<lambda>db3.
     bind_result (allocated_event UncaughtValidationError (StateTransition (Some Interrupted) Running None)
       (next_sequence db3 run_id)) (\<lambda>transition.
     bind_result (insert_event run_id transition now db3) (\<lambda>db4.
     bind_result (allocated_event UncaughtValidationError (ResumeSummary attempt)
       (Suc (re_sequence transition))) (\<lambda>summary.
     bind_result (insert_event run_id summary now db4) (\<lambda>db5.
     Inr ((ResumeAcquired, Some attempt), db5)))))))))"

definition begin_resume ::
  "(string \<Rightarrow> string) \<Rightarrow> fault \<Rightarrow> int option \<Rightarrow> string \<Rightarrow> string \<Rightarrow> string \<Rightarrow> string \<Rightarrow> string \<Rightarrow> int \<Rightarrow>
   checkpoint_binding option \<Rightarrow> run_tables \<Rightarrow>
   (run_store_error + resume_disposition \<times> nat option) \<times> run_tables" where
  "begin_resume sha256 fault clock run_id session query_hash resume_key owner seconds binding db =
     (if seconds \<le> 0 \<or> resume_key = [] then (Inl RunStoreValidationError, db)
      else case clock of
        None \<Rightarrow> (Inl RunStoreValidationError, db)
      | Some now \<Rightarrow> run_transact fault (\<lambda>db.
          (case resume_checks db run_id session query_hash (sha256 resume_key) binding of
             Inl denied \<Rightarrow> Inr (denied, db)
           | Inr found \<Rightarrow> acquire_resume found (sha256 resume_key) owner seconds now db)) db)"

text \<open>The open attempt that the checkpoint is at, and the table with it closed.\<close>

definition delivered :: "string \<Rightarrow> nat \<Rightarrow> run_tables \<Rightarrow> run_attempt \<Rightarrow> bool" where
  "delivered run_id attempt db a \<longleftrightarrow> ra_run_id a = run_id \<and> ra_attempt a = attempt \<and> ra_ended_at a = None \<and>
     map_option kp_attempt (find_checkpoint db run_id) = Some attempt"

definition close_delivered :: "string \<Rightarrow> nat \<Rightarrow> int \<Rightarrow> run_tables \<Rightarrow> run_tables" where
  "close_delivered run_id attempt now db = db\<lparr>tb_attempts := map (\<lambda>a. if delivered run_id attempt db a
     then a\<lparr>ra_ended_at := Some now, ra_end_reason := Some ''queue_delivery_failed''\<rparr> else a) (tb_attempts db)\<rparr>"

definition fail_resume_body ::
  "int \<Rightarrow> string \<Rightarrow> nat \<Rightarrow> string \<Rightarrow> run_tables \<Rightarrow> run_store_error + bool \<times> run_tables" where
  "fail_resume_body now run_id attempt owner db =
     (case find_run db run_id of
        None \<Rightarrow> Inr (False, db)
      | Some r \<Rightarrow>
          if \<not> holds_lease r owner now \<or> length (filter (delivered run_id attempt db) (tb_attempts db)) \<noteq> 1
          then Inr (False, db)
          else
            let reason = Some ''queue_delivery_failed'' in
            bind_result (update_run (ended_run r Interrupted reason now) (close_delivered run_id attempt now db)) (\<lambda>db2.
            bind_result (allocated_event UncaughtValidationError (StateTransition (Some Running) Interrupted reason)
              (next_sequence db2 run_id)) (\<lambda>transition.
            bind_result (allocated_event UncaughtValidationError (TerminalEvent Interrupted reason)
              (Suc (re_sequence transition))) (\<lambda>terminal.
            bind_result (insert_event run_id transition now db2) (\<lambda>db3.
            bind_result (insert_event run_id terminal now db3) (\<lambda>db4. Inr (True, db4)))))))"

definition fail_resume_delivery ::
  "fault \<Rightarrow> int option \<Rightarrow> string \<Rightarrow> nat \<Rightarrow> string \<Rightarrow> run_tables \<Rightarrow> (run_store_error + bool) \<times> run_tables" where
  "fail_resume_delivery fault clock run_id attempt owner db =
     (if attempt < 2 \<or> owner = [] then (Inl RunStoreValidationError, db)
      else case clock of
        None \<Rightarrow> (Inl RunStoreValidationError, db)
      | Some now \<Rightarrow> run_transact fault (fail_resume_body now run_id attempt owner) db)"

section \<open>Compaction and expiry\<close>

definition compacted :: "run_checkpoint \<Rightarrow> int \<Rightarrow> run_checkpoint" where
  "compacted k now = k\<lparr>kp_plan_id := None, kp_plan_hash := None, kp_evidence := [], kp_tool_attempts_used := 0,
     kp_reservation_ids := [], kp_generations := [], kp_recovery_reason := None, kp_recovery_claim_id := None,
     kp_last_accessed_at := now\<rparr>"

definition compact_checkpoint ::
  "fault \<Rightarrow> int option \<Rightarrow> string \<Rightarrow> run_tables \<Rightarrow> (run_store_error + bool) \<times> run_tables" where
  "compact_checkpoint fault clock run_id db = run_transact fault (\<lambda>db.
     (case find_checkpoint db run_id of
        None \<Rightarrow> Inr (False, db)
      | Some k \<Rightarrow>
          if \<not> checkpoint_valid k then Inl RunStoreIntegrityError
          else if kp_stage k \<noteq> StageCompleted then Inr (False, db)
          else (case clock of
             None \<Rightarrow> Inl RunStoreValidationError
           | Some now \<Rightarrow>
               bind_result (update_checkpoint (compacted k now) db) (\<lambda>db1. Inr (True, db1))))) db"

definition deletes :: "int \<Rightarrow> run_tables \<Rightarrow> run_checkpoint \<Rightarrow> bool" where
  "deletes before db k \<longleftrightarrow> kp_stage k \<noteq> StageCompleted \<and> kp_last_accessed_at k < before \<and>
     (case find_run db (kp_run_id k) of None \<Rightarrow> False | Some r \<Rightarrow> \<not> is_nonterminal (rn_status r))"

definition delete_expired ::
  "fault \<Rightarrow> int \<Rightarrow> run_tables \<Rightarrow> (run_store_error + nat) \<times> run_tables" where
  "delete_expired fault before db = run_transact fault (\<lambda>db.
     Inr (length (filter (deletes before db) (tb_checkpoints db)),
       db\<lparr>tb_checkpoints := filter (\<lambda>k. \<not> deletes before db k) (tb_checkpoints db)\<rparr>)) db"

end
