(* ===== verification/RunInvariants.thy ===== *)
theory RunInvariants
  imports CheckpointStore
begin

text \<open>
  What the run store keeps. Every operation changes at most one run and appends to its trace at
  the next sequence numbers, so one lemma about such a change carries the invariant through all
  of them: rows satisfy the record's validator, a trace is numbered from one without gaps, and
  an ended run has its terminal event on record.
\<close>

section \<open>The invariant\<close>

definition trace_ok :: "run_event list \<Rightarrow> bool" where
  "trace_ok es \<longleftrightarrow> map re_sequence es = [1..<Suc (length es)] \<and> list_all event_valid es"

definition ending_traced :: "run_record \<Rightarrow> run_event list \<Rightarrow> bool" where
  "ending_traced r es \<longleftrightarrow> is_nonterminal (rn_status r) \<or>
     TerminalEvent (rn_status r) (rn_terminal_reason r) \<in> re_body ` set es"

definition run_ok :: "run_tables \<Rightarrow> run_record \<Rightarrow> bool" where
  "run_ok db r \<longleftrightarrow> run_record_valid r \<and> trace_ok (events_of db (rn_run_id r)) \<and>
     ending_traced r (events_of db (rn_run_id r)) \<and>
     (rn_status r = Running \<longrightarrow> rn_last_heartbeat_at r \<noteq> None)"

definition run_store_ok :: "run_tables \<Rightarrow> bool" where
  "run_store_ok db \<longleftrightarrow> distinct (map rn_run_id (tb_runs db)) \<and>
     (\<forall>r \<in> set (tb_runs db). run_ok db r) \<and>
     (\<forall>e \<in> set (tb_events db). er_row_run_id e \<in> rn_run_id ` set (tb_runs db))"

lemma find_run_Some: "find_run db i = Some r \<Longrightarrow> r \<in> set (tb_runs db) \<and> rn_run_id r = i"
  by (auto simp: find_run_def find_Some_iff in_set_conv_nth)

lemma find_run_member:
  "distinct (map rn_run_id (tb_runs db)) \<Longrightarrow> r \<in> set (tb_runs db) \<Longrightarrow> find_run db (rn_run_id r) = Some r"
proof -
  have "distinct (map rn_run_id xs) \<Longrightarrow> r \<in> set xs \<Longrightarrow> find (\<lambda>x. rn_run_id x = rn_run_id r) xs = Some r" for xs
    by (induction xs) (auto simp: image_iff)
  then show "distinct (map rn_run_id (tb_runs db)) \<Longrightarrow> r \<in> set (tb_runs db) \<Longrightarrow> find_run db (rn_run_id r) = Some r"
    by (simp add: find_run_def)
qed

lemma find_run_None: "find_run db i = None \<longleftrightarrow> i \<notin> rn_run_id ` set (tb_runs db)"
  by (auto simp: find_run_def find_None_iff)

lemma next_sequence_trace:
  assumes "trace_ok (events_of db i)"
  shows "next_sequence db i = Suc (length (events_of db i))"
proof -
  have "fold max [1..<Suc n] 0 = n" for n by (induction n) auto
  with assms show ?thesis by (simp add: next_sequence_def trace_ok_def)
qed

text \<open>A change of one run: its row is replaced and its trace grows by some events.\<close>

definition run_change ::
  "run_tables \<Rightarrow> run_record \<Rightarrow> run_event list \<Rightarrow> run_tables \<Rightarrow> bool" where
  "run_change db r' es db' \<longleftrightarrow>
     tb_runs db' = map (\<lambda>x. if rn_run_id x = rn_run_id r' then r' else x) (tb_runs db) \<and>
     (\<exists>rows. tb_events db' = tb_events db @ rows \<and> map er_row_event rows = es \<and>
       (\<forall>row \<in> set rows. er_row_run_id row = rn_run_id r'))"

lemma events_of_change:
  assumes "run_change db r' es db'"
  shows "events_of db' i = events_of db i @ (if i = rn_run_id r' then es else [])"
proof -
  from assms obtain rows where rows: "tb_events db' = tb_events db @ rows" "map er_row_event rows = es"
    "\<forall>row \<in> set rows. er_row_run_id row = rn_run_id r'" by (auto simp: run_change_def)
  have "filter (\<lambda>row. er_row_run_id row = i) rows = (if i = rn_run_id r' then rows else [])"
    using rows(3) by (auto simp: filter_empty_conv filter_id_conv)
  with rows(1,2) show ?thesis by (simp add: events_of_def)
qed

lemma ids_of_change:
  "run_change db r' es db' \<Longrightarrow> map rn_run_id (tb_runs db') = map rn_run_id (tb_runs db)"
  by (auto simp: run_change_def)

lemma find_run_change:
  assumes "run_change db r' es db'" and "find_run db (rn_run_id r') \<noteq> None"
  shows "find_run db' i = (if i = rn_run_id r' then Some r' else find_run db i)"
proof -
  have one: "find (\<lambda>r. rn_run_id r = i) (map (\<lambda>x. if rn_run_id x = rn_run_id r' then r' else x) rs) =
      (if i = rn_run_id r' \<and> i \<in> rn_run_id ` set rs then Some r' else find (\<lambda>r. rn_run_id r = i) rs)" for rs
    by (induction rs) auto
  from assms(2) have "rn_run_id r' \<in> rn_run_id ` set (tb_runs db)"
    unfolding find_run_None by simp
  with one [of "tb_runs db"] assms(1) show ?thesis by (auto simp: run_change_def find_run_def)
qed

lemma run_change_ok:
  assumes ok: "run_store_ok db" and change: "run_change db r' es db'"
    and found: "find_run db (rn_run_id r') = Some r" and valid: "run_record_valid r'"
    and events: "list_all event_valid es"
      "map re_sequence es = [next_sequence db (rn_run_id r')..<next_sequence db (rn_run_id r') + length es]"
    and ending: "is_nonterminal (rn_status r') \<or>
      TerminalEvent (rn_status r') (rn_terminal_reason r') \<in> re_body ` set (events_of db (rn_run_id r') @ es)"
    and beat: "rn_status r' = Running \<longrightarrow> rn_last_heartbeat_at r' \<noteq> None"
  shows "run_store_ok db'"
proof -
  from find_run_Some [OF found] ok have r: "r \<in> set (tb_runs db)" "rn_run_id r = rn_run_id r'" "run_ok db r"
    by (auto simp: run_store_ok_def)
  let ?n = "length (events_of db (rn_run_id r'))"
  from r have trace: "trace_ok (events_of db (rn_run_id r'))" by (simp add: run_ok_def)
  then have "map re_sequence es = [Suc ?n..<Suc ?n + length es]"
    using events(2) by (simp add: next_sequence_trace)
  then have "map re_sequence (events_of db (rn_run_id r') @ es) = [1..<Suc (?n + length es)]"
    using trace upt_add_eq_append [of 1 "Suc ?n" "length es"] by (simp add: trace_ok_def)
  with trace events(1) have new: "trace_ok (events_of db' (rn_run_id r'))"
    by (simp add: trace_ok_def events_of_change [OF change])
  have "run_ok db' x" if "x \<in> set (tb_runs db')" for x
  proof (cases "rn_run_id x = rn_run_id r'")
    case True
    with that change have "x = r'" by (auto simp: run_change_def split: if_splits)
    with valid new ending beat show ?thesis
      by (simp add: run_ok_def ending_traced_def events_of_change [OF change])
  next
    case False
    with that change have "x \<in> set (tb_runs db)" by (auto simp: run_change_def split: if_splits)
    with ok False show ?thesis
      by (auto simp: run_store_ok_def run_ok_def events_of_change [OF change])
  qed
  moreover have "\<forall>e \<in> set (tb_events db'). er_row_run_id e \<in> rn_run_id ` set (tb_runs db')"
  proof -
    from ids_of_change [OF change] have ids: "rn_run_id ` set (tb_runs db') = rn_run_id ` set (tb_runs db)"
      by (metis list.set_map)
    from r(1,2) have "rn_run_id r' \<in> rn_run_id ` set (tb_runs db)" by (metis image_eqI)
    with ok change show ?thesis unfolding ids by (auto simp: run_store_ok_def run_change_def)
  qed
  moreover have "distinct (map rn_run_id (tb_runs db'))"
    using ok ids_of_change [OF change] by (simp add: run_store_ok_def)
  ultimately show ?thesis by (simp add: run_store_ok_def)
qed

section \<open>Changes\<close>

text \<open>
  How one run's row may evolve: its identity and bindings are fixed, and a row that has ended
  stays as it is unless it was interrupted by the expiry of its lease and runs again. Nothing
  puts a run back into the queue.
\<close>

definition evolves :: "run_record \<Rightarrow> run_record \<Rightarrow> bool" where
  "evolves r r' \<longleftrightarrow>
     r' = r\<lparr>rn_status := rn_status r', rn_terminal_reason := rn_terminal_reason r',
       rn_started_at := rn_started_at r', rn_completed_at := rn_completed_at r',
       rn_lease_owner := rn_lease_owner r', rn_lease_expires_at := rn_lease_expires_at r',
       rn_last_heartbeat_at := rn_last_heartbeat_at r'\<rparr> \<and>
     (is_nonterminal (rn_status r) \<or> r' = r \<or>
      rn_status r = Interrupted \<and> rn_terminal_reason r = Some ''lease_expired'' \<and> rn_status r' = Running) \<and>
     (rn_status r' \<noteq> Queued \<or> r' = r)"

definition numbered :: "nat \<Rightarrow> run_event list \<Rightarrow> bool" where
  "numbered n es \<longleftrightarrow> list_all event_valid es \<and> map re_sequence es = [n..<n + length es]"

definition store_change :: "run_tables \<Rightarrow> run_tables \<Rightarrow> bool" where
  "store_change db db' \<longleftrightarrow> (\<exists>r r' es. find_run db (rn_run_id r) = Some r \<and> evolves r r' \<and>
     (r' = r \<or> run_row_ok r') \<and> run_change db r' es db' \<and> numbered (next_sequence db (rn_run_id r)) es \<and>
     (is_nonterminal (rn_status r') \<or> r' = r \<or>
      TerminalEvent (rn_status r') (rn_terminal_reason r') \<in> re_body ` set es) \<and>
     (r' = r \<or> rn_status r' \<noteq> Running \<or> rn_last_heartbeat_at r' \<noteq> None))"

lemma evolves_id: "evolves r r' \<Longrightarrow> rn_run_id r' = rn_run_id r"
proof -
  assume "evolves r r'"
  then have "rn_run_id r' = rn_run_id (r\<lparr>rn_status := rn_status r', rn_terminal_reason := rn_terminal_reason r',
       rn_started_at := rn_started_at r', rn_completed_at := rn_completed_at r',
       rn_lease_owner := rn_lease_owner r', rn_lease_expires_at := rn_lease_expires_at r',
       rn_last_heartbeat_at := rn_last_heartbeat_at r'\<rparr>)" by (metis evolves_def)
  then show ?thesis by simp
qed

lemma evolves_bindings:
  assumes "evolves r r'"
  shows "rn_task_level r' = rn_task_level r \<and> rn_compliance_prompt_hash r' = rn_compliance_prompt_hash r \<and>
    rn_verifier_prompt_hash r' = rn_verifier_prompt_hash r"
proof -
  define x where "x = r\<lparr>rn_status := rn_status r', rn_terminal_reason := rn_terminal_reason r',
       rn_started_at := rn_started_at r', rn_completed_at := rn_completed_at r',
       rn_lease_owner := rn_lease_owner r', rn_lease_expires_at := rn_lease_expires_at r',
       rn_last_heartbeat_at := rn_last_heartbeat_at r'\<rparr>"
  have "r' = x" using assms unfolding evolves_def x_def by blast
  moreover have "rn_task_level x = rn_task_level r \<and> rn_compliance_prompt_hash x = rn_compliance_prompt_hash r \<and>
    rn_verifier_prompt_hash x = rn_verifier_prompt_hash r" by (simp add: x_def)
  ultimately show ?thesis by simp
qed

lemma store_change_ok:
  assumes ok: "run_store_ok db" and change: "store_change db db'"
  shows "run_store_ok db'"
proof -
  from change obtain r r' es where c: "find_run db (rn_run_id r) = Some r" "evolves r r'"
    "r' = r \<or> run_row_ok r'" "run_change db r' es db'" "numbered (next_sequence db (rn_run_id r)) es"
    "is_nonterminal (rn_status r') \<or> r' = r \<or> TerminalEvent (rn_status r') (rn_terminal_reason r') \<in> re_body ` set es"
    "r' = r \<or> rn_status r' \<noteq> Running \<or> rn_last_heartbeat_at r' \<noteq> None"
    unfolding store_change_def by blast
  from ok find_run_Some [OF c(1)] have r: "run_record_valid r" "ending_traced r (events_of db (rn_run_id r))"
    "rn_status r = Running \<longrightarrow> rn_last_heartbeat_at r \<noteq> None"
    by (auto simp: run_store_ok_def run_ok_def)
  have valid: "run_record_valid r'"
    using c(3) r(1) evolves_bindings [OF c(2)] by (auto simp: run_record_valid_def)
  have "is_nonterminal (rn_status r') \<or>
      TerminalEvent (rn_status r') (rn_terminal_reason r') \<in> re_body ` set (events_of db (rn_run_id r') @ es)"
    using c(6) r(2) evolves_id [OF c(2)] by (auto simp: ending_traced_def)
  moreover have "rn_status r' = Running \<longrightarrow> rn_last_heartbeat_at r' \<noteq> None" using c(7) r(3) by auto
  ultimately show ?thesis
    using run_change_ok [OF ok c(4) _ valid] c(1,5) evolves_id [OF c(2)] by (auto simp: numbered_def)
qed

lemma run_transact_cases:
  assumes "run_transact fault body db = (result, db')"
  obtains (kept) "db' = db" | (committed) x where "body db = Inr (x, db')"
  using assms by (cases fault) (auto simp: run_transact_def split: sum.splits if_splits)

lemma insert_event_Inr:
  "insert_event i e now db = Inr db' \<longleftrightarrow> find_run db i \<noteq> None \<and> event_valid e \<and> stored_body_ok (re_body e) \<and>
    re_sequence e \<notin> re_sequence ` set (events_of db i) \<and>
    db' = db\<lparr>tb_events := tb_events db @ [\<lparr>er_row_run_id = i, er_row_event = e, er_row_recorded_at = now\<rparr>]\<rparr>"
  by (auto simp: insert_event_def)

lemma update_run_Inr:
  "update_run r db = Inr db' \<longleftrightarrow> run_row_ok r \<and>
    db' = db\<lparr>tb_runs := map (\<lambda>x. if rn_run_id x = rn_run_id r then r else x) (tb_runs db)\<rparr>"
  by (auto simp: update_run_def)

lemma allocated_event_Inr:
  "allocated_event invalid body n = Inr e \<longleftrightarrow> event_valid e \<and> e = \<lparr>re_sequence = n, re_body = body\<rparr>"
  by (auto simp: allocated_event_def Let_def)

lemmas statement_simps = insert_event_Inr update_run_Inr allocated_event_Inr bind_result_Inr

lemma same_row:
  assumes "distinct (map rn_run_id rs)" and "r \<in> set rs"
  shows "map (\<lambda>x. if rn_run_id x = rn_run_id r then r else x) rs = rs"
  using assms by (intro map_idI) (auto simp: distinct_map dest: inj_onD)

text \<open>Events only: the row stays, the trace grows.\<close>

lemma store_change_events:
  assumes ok: "run_store_ok db" and found: "find_run db i = Some r"
    and db': "tb_runs db' = tb_runs db" "tb_events db' = tb_events db @ rows"
    and rows: "\<forall>row \<in> set rows. er_row_run_id row = i" and es: "numbered (next_sequence db i) (map er_row_event rows)"
  shows "store_change db db'"
proof -
  from find_run_Some [OF found] have i: "rn_run_id r = i" by simp
  from ok found have "map (\<lambda>x. if rn_run_id x = rn_run_id r then r else x) (tb_runs db) = tb_runs db"
    unfolding run_store_ok_def by (blast intro: same_row dest: find_run_Some)
  with db' rows i have "run_change db r (map er_row_event rows) db'" by (auto simp: run_change_def)
  with found i es show ?thesis
    unfolding store_change_def
    by (intro exI [of _ r] exI [of _ r] exI [of _ "map er_row_event rows"]) (simp add: evolves_def)
qed

text \<open>A new row and its events.\<close>

lemma store_change_row:
  assumes found: "find_run db i = Some r" and r': "evolves r r'" "run_row_ok r'"
    and db': "tb_runs db' = map (\<lambda>x. if rn_run_id x = rn_run_id r' then r' else x) (tb_runs db)"
      "tb_events db' = tb_events db @ rows"
    and rows: "\<forall>row \<in> set rows. er_row_run_id row = i" and es: "numbered (next_sequence db i) (map er_row_event rows)"
    and ending: "is_nonterminal (rn_status r') \<or>
      TerminalEvent (rn_status r') (rn_terminal_reason r') \<in> re_body ` er_row_event ` set rows"
    and beat: "rn_status r' \<noteq> Running \<or> rn_last_heartbeat_at r' \<noteq> None"
  shows "store_change db db'"
proof -
  from find_run_Some [OF found] have i: "rn_run_id r = i" by simp
  with db' rows evolves_id [OF r'(1)] have "run_change db r' (map er_row_event rows) db'"
    by (auto simp: run_change_def)
  with found i es r' ending beat show ?thesis
    unfolding store_change_def
    by (intro exI [of _ r] exI [of _ r'] exI [of _ "map er_row_event rows"]) auto
qed

lemma numbered_one: "numbered n [e] \<longleftrightarrow> event_valid e \<and> re_sequence e = n"
  by (auto simp: numbered_def)

lemma numbered_two: "numbered n [e, f] \<longleftrightarrow> event_valid e \<and> event_valid f \<and> re_sequence e = n \<and> re_sequence f = Suc n"
  by (auto simp: numbered_def upt_conv_Cons)

section \<open>Operations\<close>

lemma in_store: "run_store_ok db \<Longrightarrow> find_run db i = Some r \<Longrightarrow> run_record_valid r \<and> run_row_ok r"
  by (auto simp: run_store_ok_def run_ok_def run_record_valid_def dest!: find_run_Some)

lemma insert_event_change:
  assumes "run_store_ok db" and "insert_event i e now db = Inr db'" and "re_sequence e = next_sequence db i"
  shows "store_change db db'"
proof -
  from assms(2) obtain r where "find_run db i = Some r" by (auto simp: insert_event_Inr)
  then show ?thesis
    using assms by (intro store_change_events [OF assms(1)]) (auto simp: insert_event_Inr numbered_one)
qed

lemma append_all_changes:
  "append_all i now bodies db = Inr (es, db') \<Longrightarrow> run_store_ok db \<Longrightarrow> store_change\<^sup>*\<^sup>* db db'"
proof (induction bodies arbitrary: db es)
  case (Cons body bodies)
  from Cons.prems(1) obtain event db1 es' where step: "insert_event i event now db = Inr db1"
    "re_sequence event = next_sequence db i" and rest: "append_all i now bodies db1 = Inr (es', db')"
    by (auto simp: bind_result_Inr allocated_event_Inr)
  from insert_event_change [OF Cons.prems(2) step] have change: "store_change db db1" .
  from Cons.IH [OF rest store_change_ok [OF Cons.prems(2) change]] change show ?case
    by (rule converse_rtranclp_into_rtranclp [rotated])
qed simp

lemma rebuild_receipts_changes:
  "rebuild_receipts i now bodies db = Inr (es, db') \<Longrightarrow> run_store_ok db \<Longrightarrow> store_change\<^sup>*\<^sup>* db db'"
proof (induction bodies arbitrary: db es)
  case (Cons body bodies)
  show ?case
  proof (cases "audit_anchor_exists db i body")
    case True
    with Cons show ?thesis by (auto simp: bind_result_Inr)
  next
    case False
    with Cons.prems(1) obtain event db1 es' where step: "insert_event i event now db = Inr db1"
      "re_sequence event = next_sequence db i" and rest: "rebuild_receipts i now bodies db1 = Inr (es', db')"
      by (auto simp: bind_result_Inr allocated_event_Inr)
    from insert_event_change [OF Cons.prems(2) step] have change: "store_change db db1" .
    from Cons.IH [OF rest store_change_ok [OF Cons.prems(2) change]] change show ?thesis
      by (rule converse_rtranclp_into_rtranclp [rotated])
  qed
qed simp

lemma claim_run_changes:
  assumes "claim_run fault clock i owner seconds db = (result, db')" and ok: "run_store_ok db"
  shows "store_change\<^sup>*\<^sup>* db db'"
proof (cases "db' = db")
  case False
  let ?run = "\<lambda>r now. r\<lparr>rn_status := Running, rn_started_at := Some now, rn_lease_owner := Some owner,
        rn_lease_expires_at := Some (now + microseconds seconds), rn_last_heartbeat_at := Some now\<rparr>"
  from False assms(1) obtain now r event db1 where r: "find_run db i = Some r" "rn_status r = Queued"
    and event: "allocated_event RunStoreValidationError (StateTransition (Some Queued) Running None)
      (next_sequence db i) = Inr event"
    and row: "update_run (?run r now) db = Inr db1" and insert: "insert_event i event now db1 = Inr db'"
    by (auto simp: claim_run_def bind_result_Inr split: if_splits option.splits elim!: run_transact_cases)
  from find_run_Some [OF r(1)] have i: "rn_run_id r = i" by simp
  have "store_change db db'"
  proof (rule store_change_row [OF r(1)])
    show "evolves r (?run r now)" using r(2) by (simp add: evolves_def is_nonterminal_def)
    show "run_row_ok (?run r now)" using row by (simp add: update_run_Inr)
    show "tb_runs db' = map (\<lambda>x. if rn_run_id x = rn_run_id (?run r now) then ?run r now else x) (tb_runs db)"
      using row insert by (simp add: update_run_Inr insert_event_Inr)
    show "tb_events db' = tb_events db @ [\<lparr>er_row_run_id = i, er_row_event = event, er_row_recorded_at = now\<rparr>]"
      using row insert by (simp add: update_run_Inr insert_event_Inr)
  qed (use event in \<open>auto simp: allocated_event_Inr numbered_one is_nonterminal_def\<close>)
  then show ?thesis by blast
qed simp

lemma heartbeat_changes:
  assumes "heartbeat fault clock i owner seconds db = (result, db')" and ok: "run_store_ok db"
  shows "store_change\<^sup>*\<^sup>* db db'"
proof (cases "db' = db")
  case False
  let ?run = "\<lambda>r now. r\<lparr>rn_lease_expires_at := map_option (max (now + microseconds seconds)) (rn_lease_expires_at r),
        rn_last_heartbeat_at := Some now\<rparr>"
  from False assms(1) obtain now r where r: "find_run db i = Some r" "rn_status r = Running"
    and row: "run_row_ok (?run r now)"
    and db': "db' = db\<lparr>tb_runs := map (\<lambda>x. if rn_run_id x = rn_run_id r then ?run r now else x) (tb_runs db)\<rparr>"
    by (auto simp: heartbeat_def holds_lease_def statement_simps split: if_splits option.splits elim!: run_transact_cases)
  have "store_change db db'"
    by (rule store_change_row [OF r(1) _ row, where rows = "[]"])
      (use r(2) in \<open>auto simp: db' numbered_def evolves_def is_nonterminal_def\<close>)
  then show ?thesis by blast
qed simp

lemma append_event_changes:
  assumes "append_event fault clock i owner e db = (result, db')" and ok: "run_store_ok db"
  shows "store_change\<^sup>*\<^sup>* db db'"
proof (cases "db' = db")
  case False
  with assms(1) obtain event now where "insert_event i event now db = Inr db'" "re_sequence event = next_sequence db i"
    by (auto simp: append_event_def statement_simps simp del: insert_event_Inr
        split: if_splits option.splits elim!: run_transact_cases)
  from insert_event_change [OF ok this] show ?thesis by blast
qed simp

lemma append_many_changes:
  assumes "append_many_once fault clock i owner es anchor db = (result, db')" and ok: "run_store_ok db"
  shows "store_change\<^sup>*\<^sup>* db db'"
proof (cases "db' = db")
  case False
  with assms(1) obtain now out where "append_all i now (map re_body es) db = Inr (out, db')"
    by (auto simp: append_many_once_def split: if_splits option.splits elim!: run_transact_cases)
  from append_all_changes [OF this ok] show ?thesis .
qed simp

lemma reconcile_l2_changes:
  assumes "reconcile_l2_egress fault clock i owner k db = (result, db')" and ok: "run_store_ok db"
  shows "store_change\<^sup>*\<^sup>* db db'"
proof (cases "db' = db")
  case False
  with assms(1) obtain now out where
    "rebuild_receipts i now (map receipt_body (settled_receipts (tb_ledger db) i k)) db = Inr (out, db')"
    by (auto simp: reconcile_l2_egress_def split: if_splits option.splits elim!: run_transact_cases)
  from rebuild_receipts_changes [OF this ok] show ?thesis .
qed simp

lemma complete_run_changes:
  assumes "complete_run fault clock i owner e db = (result, db')" and ok: "run_store_ok db"
  shows "store_change\<^sup>*\<^sup>* db db'"
proof (cases "db' = db")
  case False
  obtain status reason where body: "re_body e = TerminalEvent status reason"
    using assms(1) False by (cases "re_body e") (auto simp: complete_run_def)
  with assms(1) False obtain now r db1 where r: "find_run db i = Some r" "is_nonterminal (rn_status r)"
    and event: "insert_event i \<lparr>re_sequence = next_sequence db i, re_body = TerminalEvent status reason\<rparr> now db = Inr db1"
    and row: "update_run (ended_run r status reason now) db1 = Inr db'"
    by (auto simp: complete_run_def bind_result_Inr split: if_splits option.splits elim!: run_transact_cases)
  from find_run_Some [OF r(1)] have i: "rn_run_id r = i" by simp
  from event have ending: "status \<noteq> Running" "status \<noteq> Queued"
    by (auto simp: insert_event_Inr event_valid_def status_is_terminal_def is_nonterminal_def)
  have "store_change db db'"
    by (rule store_change_row [OF r(1), of "ended_run r status reason now" db'
          "[\<lparr>er_row_run_id = i, er_row_event = \<lparr>re_sequence = next_sequence db i, re_body = TerminalEvent status reason\<rparr>,
            er_row_recorded_at = now\<rparr>]"])
      (use event row r(2) i ending in \<open>auto simp: ended_run_def statement_simps numbered_one evolves_def\<close>)
  then show ?thesis by blast
qed simp

lemma fail_delivery_changes:
  assumes "fail_delivery fault clock i e db = (result, db')" and "run_store_ok db"
  shows "store_change\<^sup>*\<^sup>* db db'"
  using assms complete_run_changes by (auto simp: fail_delivery_def split: if_splits)

lemma run_row_ended:
  "find_run db i = Some r \<Longrightarrow> is_nonterminal (rn_status r) \<Longrightarrow> status \<noteq> Queued \<Longrightarrow>
    evolves r (ended_run r status reason now)"
  by (simp add: ended_run_def evolves_def)

lemma close_attempts_same [simp]:
  "tb_runs (close_attempts i now reason db) = tb_runs db" "tb_events (close_attempts i now reason db) = tb_events db"
  "find_run (close_attempts i now reason db) = find_run db" "events_of (close_attempts i now reason db) = events_of db"
  by (simp_all add: close_attempts_def fun_eq_iff find_run_def events_of_def)

lemma expire_runs_changes:
  "expire_runs now rs db = Inr (n, db') \<Longrightarrow> run_store_ok db \<Longrightarrow> distinct (map rn_run_id rs) \<Longrightarrow>
    \<forall>r \<in> set rs. find_run db (rn_run_id r) = Some r \<and> is_nonterminal (rn_status r) \<Longrightarrow> store_change\<^sup>*\<^sup>* db db'"
proof (induction rs arbitrary: db n)
  case (Cons r rs)
  let ?r' = "ended_run r Interrupted (Some ''lease_expired'') now"
  from Cons.prems(1) obtain event db1 db2 m where
    event: "allocated_event RunStoreIntegrityError (TerminalEvent Interrupted (Some ''lease_expired''))
       (next_sequence db (rn_run_id r)) = Inr event"
    and row: "update_run ?r' db = Inr db1"
    and insert: "insert_event (rn_run_id r) event now (close_attempts (rn_run_id r) now ''lease_expired'' db1) = Inr db2"
    and rest: "expire_runs now rs db2 = Inr (m, db')"
    by (auto simp: bind_result_Inr)
  from Cons.prems(4) have r: "find_run db (rn_run_id r) = Some r" "is_nonterminal (rn_status r)" by auto
  have id: "rn_run_id ?r' = rn_run_id r" by (simp add: ended_run_def)
  have runs: "tb_runs db2 = map (\<lambda>x. if rn_run_id x = rn_run_id ?r' then ?r' else x) (tb_runs db)"
    and events: "tb_events db2 = tb_events db @ [\<lparr>er_row_run_id = rn_run_id r, er_row_event = event, er_row_recorded_at = now\<rparr>]"
    using row insert by (simp_all add: update_run_Inr insert_event_Inr)
  have change: "store_change db db2"
  proof (rule store_change_row [OF r(1) run_row_ended [OF r] _ runs events])
    show "run_row_ok ?r'" using row by (simp add: update_run_Inr)
  qed (use event in \<open>auto simp: allocated_event_Inr numbered_one ended_run_def\<close>)
  have "run_change db ?r' [event] db2"
    using runs events id by (auto simp: run_change_def)
  from find_run_change [OF this] r(1) id have found: "find_run db2 j = (if j = rn_run_id r then Some ?r' else find_run db j)" for j
    by simp
  have "\<forall>x \<in> set rs. find_run db2 (rn_run_id x) = Some x \<and> is_nonterminal (rn_status x)"
  proof
    fix x assume x: "x \<in> set rs"
    from imageI [OF x, of rn_run_id] Cons.prems(3) have "rn_run_id x \<noteq> rn_run_id r" by auto
    with x Cons.prems(4) found show "find_run db2 (rn_run_id x) = Some x \<and> is_nonterminal (rn_status x)" by simp
  qed
  with Cons.IH [OF rest store_change_ok [OF Cons.prems(2) change]] Cons.prems(3)
  have "store_change\<^sup>*\<^sup>* db2 db'" by simp
  with change show ?case by (rule converse_rtranclp_into_rtranclp)
qed simp

lemma expired_runs_set:
  assumes "run_store_ok db"
  shows "distinct (map rn_run_id (expired_runs locked now db)) \<and>
    (\<forall>r \<in> set (expired_runs locked now db). find_run db (rn_run_id r) = Some r \<and> is_nonterminal (rn_status r) \<and> lease_expired r now \<and>
      \<not> locked (rn_run_id r))"
proof -
  from assms have d: "distinct (map rn_run_id (tb_runs db))" by (simp add: run_store_ok_def)
  then have "distinct (map rn_run_id (filter (\<lambda>r. is_nonterminal (rn_status r) \<and> lease_expired r now \<and> \<not> locked (rn_run_id r)) (tb_runs db)))"
    by (rule distinct_map_filter)
  then have "distinct (map rn_run_id (expired_runs locked now db))"
    by (simp add: expired_runs_def distinct_map)
  with d show ?thesis by (auto simp: expired_runs_def find_run_member)
qed

lemma reconcile_expired_changes:
  assumes "reconcile_expired fault clock locked db = (result, db')" and ok: "run_store_ok db"
  shows "store_change\<^sup>*\<^sup>* db db'"
proof (cases "db' = db")
  case False
  with assms(1) obtain now n where "expire_runs now (expired_runs locked now db) db = Inr (n, db')"
    by (auto simp: reconcile_expired_def split: option.splits elim!: run_transact_cases)
  from expire_runs_changes [OF this ok] expired_runs_set [OF ok, of locked now] show ?thesis by blast
qed simp

section \<open>Creation\<close>

lemma create_run_cases:
  assumes "create_run fault clock lease run db = (result, db')"
  obtains (kept) "db' = db"
  | (created) now where "clock = Some now" "run_record_valid (queued_run run now lease)"
      "rn_run_id run \<notin> rn_run_id ` set (tb_runs db)" "rn_request_id run \<notin> rn_request_id ` set (tb_runs db)"
      "db' = db\<lparr>tb_runs := tb_runs db @ [queued_run run now lease],
        tb_events := tb_events db @ [\<lparr>er_row_run_id = rn_run_id run, er_row_event = \<lparr>re_sequence = 1,
          re_body = StateTransition None Queued None\<rparr>, er_row_recorded_at = now\<rparr>]\<rparr>"
proof (cases "db' = db")
  case False
  with assms obtain now db1 where now: "clock = Some now" "run_record_valid (queued_run run now lease)"
    and row: "insert_run (queued_run run now lease) db = Inr db1"
    and event: "insert_event (rn_run_id (queued_run run now lease))
      \<lparr>re_sequence = 1, re_body = StateTransition None Queued None\<rparr> now db1 = Inr db'"
    by (auto simp: create_run_def Let_def bind_result_Inr split: option.splits if_splits elim!: run_transact_cases)
  have ids: "rn_run_id (queued_run run now lease) = rn_run_id run" "rn_request_id (queued_run run now lease) = rn_request_id run"
    by (simp_all add: queued_run_def)
  from row have fresh: "rn_run_id run \<notin> rn_run_id ` set (tb_runs db)" "rn_request_id run \<notin> rn_request_id ` set (tb_runs db)"
    and db1: "db1 = db\<lparr>tb_runs := tb_runs db @ [queued_run run now lease]\<rparr>"
    by (auto simp: insert_run_def ids split: if_splits)
  from event have "db' = db1\<lparr>tb_events := tb_events db1 @ [\<lparr>er_row_run_id = rn_run_id run, er_row_event = \<lparr>re_sequence = 1,
          re_body = StateTransition None Queued None\<rparr>, er_row_recorded_at = now\<rparr>]\<rparr>"
    by (simp only: insert_event_Inr ids)
  then have "db' = db\<lparr>tb_runs := tb_runs db @ [queued_run run now lease],
        tb_events := tb_events db @ [\<lparr>er_row_run_id = rn_run_id run, er_row_event = \<lparr>re_sequence = 1,
          re_body = StateTransition None Queued None\<rparr>, er_row_recorded_at = now\<rparr>]\<rparr>" by (simp add: db1)
  with now fresh show ?thesis by (intro created)
qed (rule kept)

lemma create_run_ok:
  assumes "create_run fault clock lease run db = (result, db')" and ok: "run_store_ok db"
  shows "run_store_ok db'"
  using assms(1)
proof (cases rule: create_run_cases)
  case (created now)
  let ?q = "queued_run run now lease"
  have q: "rn_run_id ?q = rn_run_id run" "rn_status ?q = Queued" by (simp_all add: queued_run_def)
  from ok have "\<forall>e \<in> set (tb_events db). er_row_run_id e \<in> rn_run_id ` set (tb_runs db)"
    by (simp add: run_store_ok_def)
  with created(3) have none: "events_of db (rn_run_id run) = []"
    unfolding events_of_def map_is_Nil_conv filter_empty_conv by metis
  have events: "events_of db' i = events_of db i @ (if i = rn_run_id run
      then [\<lparr>re_sequence = 1, re_body = StateTransition None Queued None\<rparr>] else [])" for i
    by (simp add: created(5) events_of_def)
  have "run_ok db' ?q"
    using created(2) none
    by (auto simp: run_ok_def events q trace_ok_def ending_traced_def is_nonterminal_def event_valid_def optional_def)
  moreover have "run_ok db' r" if "r \<in> set (tb_runs db)" for r
  proof -
    from imageI [OF that, of rn_run_id] created(3) have "rn_run_id r \<noteq> rn_run_id run" by auto
    with that ok show ?thesis by (simp add: run_store_ok_def run_ok_def events)
  qed
  ultimately show ?thesis
    using ok created(3) by (auto simp: run_store_ok_def created(5) q run_ok_def)
qed (use ok in simp)

section \<open>Checkpoints and resumption\<close>

definition same_runs :: "run_tables \<Rightarrow> run_tables \<Rightarrow> bool" where
  "same_runs db db' \<longleftrightarrow> tb_runs db' = tb_runs db \<and> tb_events db' = tb_events db"

lemma same_runsD:
  "same_runs db db' \<Longrightarrow> find_run db' = find_run db \<and> events_of db' = events_of db \<and> next_sequence db' = next_sequence db"
  by (simp add: same_runs_def fun_eq_iff find_run_def events_of_def next_sequence_def)

lemma same_runs_ok: "same_runs db db' \<Longrightarrow> run_store_ok db \<Longrightarrow> run_store_ok db'"
  by (simp add: same_runs_def run_store_ok_def run_ok_def events_of_def)

lemma checkpoint_statements_same:
  "insert_checkpoint k db = Inr db' \<Longrightarrow> same_runs db db'"
  "update_checkpoint k db = Inr db' \<Longrightarrow> same_runs db db'"
  "insert_attempt a db = Inr db' \<Longrightarrow> same_runs db db'"
  "same_runs db (insert_attempt_absent a db)"
  by (auto simp: insert_checkpoint_def update_checkpoint_def insert_attempt_def insert_attempt_absent_def
      same_runs_def split: if_splits sum.splits)

lemma same_runs_trans: "same_runs a b \<Longrightarrow> same_runs b c \<Longrightarrow> same_runs a c"
  by (simp add: same_runs_def)

lemma store_checkpoint_same:
  assumes "store_checkpoint r current k now db = Inr db'"
  shows "same_runs db db'"
proof (cases current)
  case None
  with assms obtain db1 where "insert_checkpoint k db = Inr db1" "db' = insert_attempt_absent (first_attempt r now) db1"
    by (auto simp: store_checkpoint_def bind_result_Inr)
  with checkpoint_statements_same(1,4) show ?thesis by (blast intro: same_runs_trans)
next
  case (Some old)
  with assms have "update_checkpoint k db = Inr db'"
    by (auto simp: store_checkpoint_def split: if_splits sum.splits)
  then show ?thesis by (rule checkpoint_statements_same)
qed

lemma write_body_Inr:
  assumes "write_body now previous k db = Inr (k', db')"
  obtains r db1 event where "find_run db (kp_run_id k) = Some r" "bindings_match r k"
      "reservations_bound (tb_ledger db) k"
      "map_option kp_version (find_checkpoint db (kp_run_id k)) = previous"
      "kp_version k = (case previous of None \<Rightarrow> 0 | Some v \<Rightarrow> v) + 1"
      "find_checkpoint db (kp_run_id k) = None \<longrightarrow> kp_stage k = Planned \<and> kp_attempt k = 1"
      "store_checkpoint r (find_checkpoint db (kp_run_id k)) (k\<lparr>kp_last_accessed_at := now\<rparr>) now db = Inr db1"
      "allocated_event RunStoreIntegrityError (checkpoint_summary (k\<lparr>kp_last_accessed_at := now\<rparr>))
        (next_sequence db1 (kp_run_id k)) = Inr event"
      "insert_event (kp_run_id k) event now db1 = Inr db'" "k' = k\<lparr>kp_last_accessed_at := now\<rparr>"
proof -
  from assms obtain r where r: "find_run db (kp_run_id k) = Some r"
    by (cases "find_run db (kp_run_id k)") (auto simp: write_body_def)
  let ?current = "find_checkpoint db (kp_run_id k)" and ?allocated = "k\<lparr>kp_last_accessed_at := now\<rparr>"
  from assms r have guards: "\<not> (\<not> bindings_match r k \<or> \<not> reservations_bound (tb_ledger db) k)"
    "\<not> (map_option kp_version ?current \<noteq> previous \<or> kp_version k \<noteq> (case previous of None \<Rightarrow> 0 | Some v \<Rightarrow> v) + 1 \<or>
      ?current = None \<and> (kp_stage k \<noteq> Planned \<or> kp_attempt k \<noteq> 1))"
    by (auto simp: write_body_def Let_def split: if_splits)
  then have "write_body now previous k db = bind_result (store_checkpoint r ?current ?allocated now db) (\<lambda>db1.
      bind_result (allocated_event RunStoreIntegrityError (checkpoint_summary ?allocated)
        (next_sequence db1 (kp_run_id k))) (\<lambda>event.
      bind_result (insert_event (kp_run_id k) event now db1) (\<lambda>db2. Inr (?allocated, db2))))"
    unfolding write_body_def r Let_def option.case by (simp only: if_False)
  with assms obtain db1 event where "store_checkpoint r ?current ?allocated now db = Inr db1"
    "allocated_event RunStoreIntegrityError (checkpoint_summary ?allocated) (next_sequence db1 (kp_run_id k)) = Inr event"
    "insert_event (kp_run_id k) event now db1 = Inr db'" "k' = ?allocated"
    by (auto simp: bind_result_Inr)
  with r guards show thesis by (intro that) auto
qed

lemma write_checkpoint_cases:
  assumes "write_checkpoint fault clock previous k db = (result, db')"
  obtains (kept) "db' = db" | (written) now k' where "clock = Some now" "write_body now previous k db = Inr (k', db')"
  using assms by (auto simp: write_checkpoint_def split: if_splits option.splits elim!: run_transact_cases)

lemma write_checkpoint_changes:
  assumes "write_checkpoint fault clock previous k db = (result, db')" and ok: "run_store_ok db"
  shows "store_change\<^sup>*\<^sup>* db db'"
  using assms(1)
proof (cases rule: write_checkpoint_cases)
  case (written now k')
  from written(2) obtain r db1 event where w: "find_run db (kp_run_id k) = Some r"
    "store_checkpoint r (find_checkpoint db (kp_run_id k)) (k\<lparr>kp_last_accessed_at := now\<rparr>) now db = Inr db1"
    "allocated_event RunStoreIntegrityError (checkpoint_summary (k\<lparr>kp_last_accessed_at := now\<rparr>))
        (next_sequence db1 (kp_run_id k)) = Inr event"
    "insert_event (kp_run_id k) event now db1 = Inr db'" by (rule write_body_Inr)
  from store_checkpoint_same [OF w(2)] have same: "same_runs db db1" .
  have "store_change db db'"
    by (rule store_change_events [OF ok w(1),
          of db' "[\<lparr>er_row_run_id = kp_run_id k, er_row_event = event, er_row_recorded_at = now\<rparr>]"])
      (use w(3,4) same same_runsD [OF same] in
        \<open>auto simp: insert_event_Inr allocated_event_Inr numbered_one same_runs_def\<close>)
  then show ?thesis by blast
qed simp

lemma resume_checks_Inr:
  assumes "resume_checks db i session query key binding = Inr (r, k, latest)"
  shows "find_run db i = Some r \<and> rn_session_id r = session \<and> rn_query_hash r = query \<and>
    replayed_attempt db i key = None \<and> rn_status r = Interrupted \<and> rn_terminal_reason r = Some ''lease_expired'' \<and>
    find_checkpoint db i = Some k \<and> checkpoint_valid k \<and> bindings_match r k \<and>
    (case binding of None \<Rightarrow> True | Some b \<Rightarrow> kp_binding k = b) \<and>
    latest_attempt db i = Some latest \<and> ra_attempt latest = kp_attempt k \<and>
    ra_ended_at latest \<noteq> None \<and> ra_end_reason latest = Some ''lease_expired'' \<and>
    reservations_settled (tb_ledger db) k"
  using assms
  by (auto simp: resume_checks_def Let_def checkpoint_matches_binding_def split: option.splits if_splits)

lemma acquire_resume_Inr:
  assumes "acquire_resume (r, k, latest) key_hash owner seconds now db = Inr (out, db')"
  obtains db1 db2 db3 db4 transition summary where
      "update_run (resumed_run r owner seconds now) db = Inr db1"
      "insert_attempt \<lparr>ra_run_id = rn_run_id r, ra_attempt = Suc (ra_attempt latest),
        ra_resume_key_hash = Some key_hash, ra_started_at = now, ra_ended_at = None, ra_end_reason = None\<rparr> db1 = Inr db2"
      "update_checkpoint (k\<lparr>kp_attempt := Suc (ra_attempt latest), kp_version := Suc (kp_version k),
        kp_last_accessed_at := now\<rparr>) db2 = Inr db3"
      "allocated_event UncaughtValidationError (StateTransition (Some Interrupted) Running None)
        (next_sequence db3 (rn_run_id r)) = Inr transition"
      "insert_event (rn_run_id r) transition now db3 = Inr db4"
      "allocated_event UncaughtValidationError (ResumeSummary (Suc (ra_attempt latest)))
        (Suc (re_sequence transition)) = Inr summary"
      "insert_event (rn_run_id r) summary now db4 = Inr db'"
      "out = (ResumeAcquired, Some (Suc (ra_attempt latest)))"
  using assms unfolding acquire_resume_def Let_def prod.case bind_result_Inr
  by (elim exE conjE) (rule that, auto)

lemma begin_resume_cases:
  assumes "begin_resume sha256 fault clock i session query key owner seconds binding db = (result, db')"
  obtains (kept) "db' = db"
  | (acquired) now r k latest out where "clock = Some now"
      "resume_checks db i session query (sha256 key) binding = Inr (r, k, latest)"
      "acquire_resume (r, k, latest) (sha256 key) owner seconds now db = Inr (out, db')"
  using assms
  by (auto simp: begin_resume_def split: if_splits option.splits sum.splits elim!: run_transact_cases)

lemma begin_resume_changes:
  assumes "begin_resume sha256 fault clock i session query key owner seconds binding db = (result, db')"
    and ok: "run_store_ok db"
  shows "store_change\<^sup>*\<^sup>* db db'"
  using assms(1)
proof (cases rule: begin_resume_cases)
  case (acquired now r k latest out)
  from acquired(3) obtain db1 db2 db3 db4 transition summary where a:
      "update_run (resumed_run r owner seconds now) db = Inr db1"
      "insert_attempt \<lparr>ra_run_id = rn_run_id r, ra_attempt = Suc (ra_attempt latest),
        ra_resume_key_hash = Some (sha256 key), ra_started_at = now, ra_ended_at = None, ra_end_reason = None\<rparr> db1 = Inr db2"
      "update_checkpoint (k\<lparr>kp_attempt := Suc (ra_attempt latest), kp_version := Suc (kp_version k),
        kp_last_accessed_at := now\<rparr>) db2 = Inr db3"
      "allocated_event UncaughtValidationError (StateTransition (Some Interrupted) Running None)
        (next_sequence db3 (rn_run_id r)) = Inr transition"
      "insert_event (rn_run_id r) transition now db3 = Inr db4"
      "allocated_event UncaughtValidationError (ResumeSummary (Suc (ra_attempt latest)))
        (Suc (re_sequence transition)) = Inr summary"
      "insert_event (rn_run_id r) summary now db4 = Inr db'" by (rule acquire_resume_Inr)
  let ?r' = "resumed_run r owner seconds now"
  from resume_checks_Inr [OF acquired(2)] find_run_Some
  have r: "find_run db i = Some r" "rn_status r = Interrupted" "rn_terminal_reason r = Some ''lease_expired''"
    "rn_run_id r = i" by blast+
  have id: "rn_run_id ?r' = i" using r(4) by (simp add: resumed_run_def)
  from a(1) have row: "run_row_ok ?r'"
    and db1: "tb_runs db1 = map (\<lambda>x. if rn_run_id x = rn_run_id ?r' then ?r' else x) (tb_runs db)" "tb_events db1 = tb_events db"
    by (auto simp: update_run_Inr)
  from checkpoint_statements_same(3) [OF a(2)] checkpoint_statements_same(2) [OF a(3)]
  have same: "same_runs db1 db3" by (rule same_runs_trans)
  then have db3: "tb_runs db3 = tb_runs db1" "tb_events db3 = tb_events db1" by (simp_all add: same_runs_def)
  have next3: "next_sequence db3 i = next_sequence db i"
    by (simp add: next_sequence_def events_of_def db3 db1)
  have "store_change db db'"
  proof (rule store_change_row [OF r(1) _ row])
    show "evolves r ?r'" using r(2,3) by (simp add: evolves_def resumed_run_def)
    show "tb_runs db' = map (\<lambda>x. if rn_run_id x = rn_run_id ?r' then ?r' else x) (tb_runs db)"
      using a(5,7) by (auto simp: insert_event_Inr db3 db1)
    show "tb_events db' = tb_events db @
        [\<lparr>er_row_run_id = i, er_row_event = transition, er_row_recorded_at = now\<rparr>,
         \<lparr>er_row_run_id = i, er_row_event = summary, er_row_recorded_at = now\<rparr>]"
      using a(5,7) by (auto simp: insert_event_Inr db3 db1 r(4))
    show "numbered (next_sequence db i) (map er_row_event
        [\<lparr>er_row_run_id = i, er_row_event = transition, er_row_recorded_at = now\<rparr>,
         \<lparr>er_row_run_id = i, er_row_event = summary, er_row_recorded_at = now\<rparr>])"
      using a(4,6) next3 r(4) by (auto simp: allocated_event_Inr numbered_two)
  qed (auto simp: resumed_run_def is_nonterminal_def)
  then show ?thesis by blast
qed simp

lemma fail_resume_body_Inr:
  assumes "fail_resume_body now i attempt owner db = Inr (out, db')" and "db' \<noteq> db"
  obtains r db2 db3 transition terminal where "find_run db i = Some r" "holds_lease r owner now"
    "update_run (ended_run r Interrupted (Some ''queue_delivery_failed'') now) (close_delivered i attempt now db) = Inr db2"
    "allocated_event UncaughtValidationError (StateTransition (Some Running) Interrupted (Some ''queue_delivery_failed''))
      (next_sequence db2 i) = Inr transition"
    "allocated_event UncaughtValidationError (TerminalEvent Interrupted (Some ''queue_delivery_failed''))
      (Suc (re_sequence transition)) = Inr terminal"
    "insert_event i transition now db2 = Inr db3" "insert_event i terminal now db3 = Inr db'"
proof -
  from assms obtain r where r: "find_run db i = Some r"
    by (cases "find_run db i") (auto simp: fail_resume_body_def)
  with assms have guard: "\<not> (\<not> holds_lease r owner now \<or> length (filter (delivered i attempt db) (tb_attempts db)) \<noteq> 1)"
    unfolding fail_resume_body_def r option.case by (metis Inr_inject Pair_inject)
  show thesis
    using assms(1) unfolding fail_resume_body_def r option.case if_not_P [OF guard] Let_def bind_result_Inr
    by (elim exE conjE) (rule that [OF r], use guard in auto)
qed

lemma fail_resume_changes:
  assumes "fail_resume_delivery fault clock i attempt owner db = (result, db')" and ok: "run_store_ok db"
  shows "store_change\<^sup>*\<^sup>* db db'"
proof (cases "db' = db")
  case False
  let ?reason = "Some ''queue_delivery_failed''"
  from False assms(1) obtain now out where "fail_resume_body now i attempt owner db = Inr (out, db')"
    by (auto simp: fail_resume_delivery_def split: if_splits option.splits elim!: run_transact_cases)
  then obtain r db2 db3 transition terminal where r: "find_run db i = Some r" "holds_lease r owner now"
    and row: "update_run (ended_run r Interrupted ?reason now) (close_delivered i attempt now db) = Inr db2"
    and transition: "allocated_event UncaughtValidationError (StateTransition (Some Running) Interrupted ?reason)
      (next_sequence db2 i) = Inr transition"
    and terminal: "allocated_event UncaughtValidationError (TerminalEvent Interrupted ?reason)
      (Suc (re_sequence transition)) = Inr terminal"
    and insert: "insert_event i transition now db2 = Inr db3" "insert_event i terminal now db3 = Inr db'"
    using False by (rule fail_resume_body_Inr)
  let ?r' = "ended_run r Interrupted ?reason now"
  from find_run_Some [OF r(1)] have i: "rn_run_id r = i" "rn_run_id ?r' = i" by (simp_all add: ended_run_def)
  from row have row_ok: "run_row_ok ?r'"
    and db2: "tb_runs db2 = map (\<lambda>x. if rn_run_id x = rn_run_id ?r' then ?r' else x) (tb_runs db)" "tb_events db2 = tb_events db"
    by (auto simp: update_run_Inr close_delivered_def)
  have next2: "next_sequence db2 i = next_sequence db i" by (simp add: next_sequence_def events_of_def db2)
  have live: "is_nonterminal (rn_status r)" using r(2) by (simp add: holds_lease_def is_nonterminal_def)
  have "store_change db db'"
  proof (rule store_change_row [OF r(1) run_row_ended [OF r(1) live] row_ok])
    show "tb_runs db' = map (\<lambda>x. if rn_run_id x = rn_run_id ?r' then ?r' else x) (tb_runs db)"
      using insert by (auto simp: insert_event_Inr db2)
    show "tb_events db' = tb_events db @
        [\<lparr>er_row_run_id = i, er_row_event = transition, er_row_recorded_at = now\<rparr>,
         \<lparr>er_row_run_id = i, er_row_event = terminal, er_row_recorded_at = now\<rparr>]"
      using insert by (auto simp: insert_event_Inr db2)
    show "numbered (next_sequence db i) (map er_row_event
        [\<lparr>er_row_run_id = i, er_row_event = transition, er_row_recorded_at = now\<rparr>,
         \<lparr>er_row_run_id = i, er_row_event = terminal, er_row_recorded_at = now\<rparr>])"
      using transition terminal next2 by (auto simp: allocated_event_Inr numbered_two)
  qed (use terminal in \<open>auto simp: allocated_event_Inr ended_run_def\<close>)
  then show ?thesis by blast
qed simp

lemma compact_same:
  assumes "compact_checkpoint fault clock i db = (result, db')" shows "same_runs db db'"
proof (cases "db' = db")
  case False
  with assms obtain k where "update_checkpoint k db = Inr db'"
    by (auto simp: compact_checkpoint_def bind_result_Inr split: option.splits if_splits elim!: run_transact_cases)
  then show ?thesis by (rule checkpoint_statements_same)
qed (simp add: same_runs_def)

lemma delete_expired_same:
  assumes "delete_expired fault before db = (result, db')" shows "same_runs db db'"
  using assms unfolding delete_expired_def by (rule run_transact_cases) (auto simp: same_runs_def)

end
