(* ===== verification/RunTheorems.thy ===== *)
theory RunTheorems
  imports RunInvariants
begin

text \<open>
  What the run store promises over every history of its operations: the worker's and the API's,
  housekeeping, and whatever the egress ledger does beside them.
\<close>

section \<open>Histories\<close>

text \<open>The operations a worker performs on the runs it was handed, and the ledger's own.\<close>

inductive worker_step :: "run_tables \<Rightarrow> run_tables \<Rightarrow> bool" where
  Beats: "heartbeat fault clock i owner seconds db = (result, db') \<Longrightarrow> worker_step db db'"
| Appends: "append_event fault clock i owner e db = (result, db') \<Longrightarrow> worker_step db db'"
| AppendsMany: "append_many_once fault clock i owner es anchor db = (result, db') \<Longrightarrow> worker_step db db'"
| Rebuilds: "reconcile_l2_egress fault clock i owner k db = (result, db') \<Longrightarrow> worker_step db db'"
| Writes: "write_checkpoint fault clock previous k db = (result, db') \<Longrightarrow> worker_step db db'"
| Completes: "complete_run fault clock i owner e db = (result, db') \<Longrightarrow> worker_step db db'"
| Charges: "worker_step db (db\<lparr>tb_ledger := ledger\<rparr>)"

inductive store_step :: "(string \<Rightarrow> string) \<Rightarrow> run_tables \<Rightarrow> run_tables \<Rightarrow> bool" for sha256 where
  Works: "worker_step db db' \<Longrightarrow> store_step sha256 db db'"
| Creates: "create_run fault clock lease run db = (result, db') \<Longrightarrow> store_step sha256 db db'"
| Claims: "claim_run fault clock i owner seconds db = (result, db') \<Longrightarrow> store_step sha256 db db'"
| Undelivers: "fail_delivery fault clock i e db = (result, db') \<Longrightarrow> store_step sha256 db db'"
| Expires: "reconcile_expired fault clock locked db = (result, db') \<Longrightarrow> store_step sha256 db db'"
| Resumes: "begin_resume sha256 fault clock i session query key owner seconds binding db = (result, db') \<Longrightarrow>
    store_step sha256 db db'"
| Unresumes: "fail_resume_delivery fault clock i attempt owner db = (result, db') \<Longrightarrow> store_step sha256 db db'"
| Compacts: "compact_checkpoint fault clock i db = (result, db') \<Longrightarrow> store_step sha256 db db'"
| Deletes: "delete_expired fault before db = (result, db') \<Longrightarrow> store_step sha256 db db'"

definition empty_tables :: "ledger_db \<Rightarrow> run_tables" where
  "empty_tables ledger = \<lparr>tb_runs = [], tb_events = [], tb_attempts = [], tb_checkpoints = [], tb_ledger = ledger\<rparr>"

definition reachable_store :: "(string \<Rightarrow> string) \<Rightarrow> run_tables \<Rightarrow> bool" where
  "reachable_store sha256 db \<longleftrightarrow> (\<exists>ledger. (store_step sha256)\<^sup>*\<^sup>* (empty_tables ledger) db)"

section \<open>What a history keeps\<close>

text \<open>Runs stay, their rows evolve, and traces only grow.\<close>

definition extends :: "run_tables \<Rightarrow> run_tables \<Rightarrow> bool" where
  "extends db db' \<longleftrightarrow> (\<forall>i r. find_run db i = Some r \<longrightarrow>
     (\<exists>r' es. find_run db' i = Some r' \<and> evolves\<^sup>*\<^sup>* r r' \<and> events_of db' i = events_of db i @ es))"

lemma extends_refl [simp]: "extends db db"
  by (auto simp: extends_def)

lemma extends_trans: "extends a b \<Longrightarrow> extends b c \<Longrightarrow> extends a c"
  unfolding extends_def by (metis append.assoc rtranclp_trans)

lemma extends_same: "same_runs db db' \<Longrightarrow> extends db db'"
  using same_runsD [of db db'] by (auto simp: extends_def)

lemma extends_change: "store_change db db' \<Longrightarrow> extends db db'"
proof -
  assume "store_change db db'"
  then obtain r r' es where c: "find_run db (rn_run_id r) = Some r" "evolves r r'" "run_change db r' es db'"
    unfolding store_change_def by blast
  from evolves_id [OF c(2)] have id: "rn_run_id r' = rn_run_id r" .
  with c have found: "find_run db (rn_run_id r') \<noteq> None" by simp
  have "\<exists>x' es. find_run db' i = Some x' \<and> evolves\<^sup>*\<^sup>* x x' \<and> events_of db' i = events_of db i @ es"
    if "find_run db i = Some x" for i x
    using that c id by (auto simp: find_run_change [OF c(3) found] events_of_change [OF c(3)])
  then show ?thesis by (auto simp: extends_def)
qed

lemma extends_changes: "store_change\<^sup>*\<^sup>* db db' \<Longrightarrow> extends db db'"
  by (induction rule: rtranclp_induct) (auto intro: extends_trans extends_change)

lemma changes_ok: "store_change\<^sup>*\<^sup>* db db' \<Longrightarrow> run_store_ok db \<Longrightarrow> run_store_ok db'"
  by (induction rule: rtranclp_induct) (auto intro: store_change_ok)

lemma extends_create:
  assumes "create_run fault clock lease run db = (result, db')"
  shows "extends db db'"
  using assms
proof (cases rule: create_run_cases)
  case (created now)
  have "find (\<lambda>r. rn_run_id r = i) (xs @ [x]) = Some r"
    if "find (\<lambda>r. rn_run_id r = i) xs = Some r" for xs and x r :: run_record and i
    using that by (induction xs) auto
  note append = this
  show ?thesis
    by (auto simp: extends_def created(5) find_run_def events_of_def append)
qed simp

lemmas changes = heartbeat_changes append_event_changes append_many_changes reconcile_l2_changes
  write_checkpoint_changes complete_run_changes claim_run_changes fail_delivery_changes
  reconcile_expired_changes begin_resume_changes fail_resume_changes

lemma worker_step_keeps:
  assumes "worker_step db db'" and "run_store_ok db"
  shows "run_store_ok db' \<and> extends db db'"
  using assms
proof (cases rule: worker_step.cases)
  case (Charges ledger)
  then have "same_runs db db'" by (simp add: same_runs_def)
  with assms(2) show ?thesis by (blast intro: same_runs_ok extends_same)
qed (use assms(2) in \<open>blast intro: changes_ok extends_changes dest: changes\<close>)+

lemma store_step_keeps:
  assumes "store_step sha256 db db'" and "run_store_ok db"
  shows "run_store_ok db' \<and> extends db db'"
  using assms
proof (cases rule: store_step.cases)
  case Works
  with assms(2) show ?thesis by (blast dest: worker_step_keeps)
next
  case (Creates fault clock lease run result)
  with assms(2) show ?thesis by (blast intro: create_run_ok extends_create)
next
  case (Compacts fault clock i result)
  from compact_same [OF this] assms(2) show ?thesis by (blast intro: same_runs_ok extends_same)
next
  case (Deletes fault before result)
  from delete_expired_same [OF this] assms(2) show ?thesis by (blast intro: same_runs_ok extends_same)
qed (use assms(2) in \<open>blast intro: changes_ok extends_changes dest: changes\<close>)+

lemma store_steps_keep:
  "(store_step sha256)\<^sup>*\<^sup>* db db' \<Longrightarrow> run_store_ok db \<Longrightarrow> run_store_ok db' \<and> extends db db'"
proof (induction rule: rtranclp_induct)
  case (step y z)
  then have "run_store_ok y" "extends db y" by auto
  with store_step_keeps [OF step(2)] show ?case by (blast intro: extends_trans)
qed simp

lemma reachable_store_ok: "reachable_store sha256 db \<Longrightarrow> run_store_ok db"
proof -
  assume "reachable_store sha256 db"
  then obtain ledger where "(store_step sha256)\<^sup>*\<^sup>* (empty_tables ledger) db" by (auto simp: reachable_store_def)
  moreover have "run_store_ok (empty_tables ledger)" by (simp add: run_store_ok_def empty_tables_def)
  ultimately show ?thesis by (blast dest: store_steps_keep)
qed


section \<open>Rows\<close>

text \<open>A row with the status, the times and the lease of another: what a run's life may change.\<close>

definition with_state_of :: "run_record \<Rightarrow> run_record \<Rightarrow> run_record" where
  "with_state_of r x = r\<lparr>rn_status := rn_status x, rn_terminal_reason := rn_terminal_reason x,
     rn_started_at := rn_started_at x, rn_completed_at := rn_completed_at x, rn_lease_owner := rn_lease_owner x,
     rn_lease_expires_at := rn_lease_expires_at x, rn_last_heartbeat_at := rn_last_heartbeat_at x\<rparr>"

lemma with_state_of_simps [simp]:
  "with_state_of r r = r" "with_state_of (with_state_of r x) y = with_state_of r y"
  by (simp_all add: with_state_of_def)

definition resumable :: "run_record \<Rightarrow> bool" where
  "resumable r \<longleftrightarrow> rn_status r = Interrupted \<and> rn_terminal_reason r = Some ''lease_expired''"

lemma evolves_state: "evolves r r' \<Longrightarrow> r' = with_state_of r r'"
  unfolding evolves_def with_state_of_def by blast

lemma evolves_star:
  assumes "evolves\<^sup>*\<^sup>* r r'"
  shows "r' = with_state_of r r' \<and> (rn_status r \<noteq> Queued \<longrightarrow> rn_status r' \<noteq> Queued) \<and>
    (\<not> is_nonterminal (rn_status r) \<and> \<not> resumable r \<longrightarrow> r' = r)"
  using assms
proof (induction rule: rtranclp_induct)
  case (step y z)
  have "z = with_state_of r z"
    using evolves_state [OF step(2)] step(3) by (metis with_state_of_simps(2))
  moreover have "rn_status z \<noteq> Queued" if "rn_status r \<noteq> Queued"
    using step(2,3) that unfolding evolves_def by metis
  moreover have "z = r" if "\<not> is_nonterminal (rn_status r) \<and> \<not> resumable r"
    using step(2,3) that unfolding evolves_def resumable_def by metis
  ultimately show ?case by blast
qed simp

lemma with_state_of_binding:
  assumes "r' = with_state_of r r'"
  shows "rn_run_id r' = rn_run_id r" "bindings_match r' k = bindings_match r k"
    "rn_session_id r' = rn_session_id r" "rn_query_hash r' = rn_query_hash r"
  using arg_cong [OF assms, of rn_run_id] arg_cong [OF assms, of "\<lambda>r. bindings_match r k"]
    arg_cong [OF assms, of rn_session_id] arg_cong [OF assms, of rn_query_hash]
  by (simp_all add: with_state_of_def bindings_match_def bindings_settled_def)

section \<open>Claims about the run store\<close>

lemma trace_length:
  assumes "trace_ok es" shows "length es \<le> 10000"
proof (cases "es = []")
  case False
  with assms have "re_sequence (last es) = length es"
    by (metis (no_types, lifting) trace_ok_def last_map last_upt length_greater_0_conv less_Suc_eq_le One_nat_def
        Suc_le_eq diff_Suc_1)
  moreover from False assms have "event_valid (last es)" by (simp add: trace_ok_def list_all_iff)
  ultimately show ?thesis by (simp add: event_valid_def)
qed simp

lemma trace_sorted:
  assumes "trace_ok es" shows "sort_key re_sequence es = es \<and> sorted_wrt (<) (map re_sequence es)"
proof -
  from assms have "map re_sequence es = [1..<Suc (length es)]" by (simp add: trace_ok_def)
  then have "sorted (map re_sequence es)" "sorted_wrt (<) (map re_sequence es)" by (simp_all del: upt_Suc)
  then show ?thesis by (simp add: sort_key_id_if_sorted)
qed

lemma stored_view_valid:
  assumes valid: "run_record_valid r" and trace: "trace_ok es"
  shows "run_view_valid \<lparr>vw_run = r, vw_status = rn_status r, vw_reason = rn_terminal_reason r, vw_events = es\<rparr>"
    and "run_view_valid \<lparr>vw_run = r, vw_status = Interrupted, vw_reason = Some ''lease_expired'', vw_events = es\<rparr>"
proof -
  have events: "length es \<le> 10000" "list_all event_valid es" "sorted_wrt (<) (map re_sequence es)"
    using trace_length [OF trace] trace_sorted [OF trace] trace by (simp_all add: trace_ok_def)
  have row: "state_and_lease_agree r" "timestamps_agree r" "optional terminal_reason (rn_terminal_reason r)"
    using valid by (simp_all add: run_record_valid_def run_row_ok_def run_fields_valid_def)
  have "optional terminal_reason (Some ''lease_expired'')" by code_simp
  with events row show "run_view_valid \<lparr>vw_run = r, vw_status = Interrupted, vw_reason = Some ''lease_expired'', vw_events = es\<rparr>"
    by (simp add: run_view_valid_def Let_def timestamps_agree_def is_nonterminal_def)
  show "run_view_valid \<lparr>vw_run = r, vw_status = rn_status r, vw_reason = rn_terminal_reason r, vw_events = es\<rparr>"
    using events row
    by (cases "rn_status r") (simp_all add: run_view_valid_def Let_def timestamps_agree_def state_and_lease_agree_def
        is_nonterminal_def optional_def)
qed

text \<open>
  C29. An owner always reads the exact trace. In every reachable store the owner of a run gets a
  view, never an integrity error: the run's row, its events numbered from one without a gap, and
  the status of the row, or interrupted if its lease has run out; a run whose status is terminal
  has its terminal event among them. Another session learns nothing, not even that it exists.
\<close>

theorem owner_reads_exact_trace:
  assumes reachable: "reachable_store sha256 db" and found: "find_run db i = Some r"
    and session: "trace_identifier session"
  shows "if session = rn_session_id r
    then (\<exists>v. read_owned NoFault (Some now) i session db = Inr (Some v) \<and> vw_run v = r \<and>
      vw_events v = events_of db i \<and> map re_sequence (vw_events v) = [1..<Suc (length (vw_events v))] \<and>
      (if is_nonterminal (rn_status r) \<and> lease_expired r now
       then vw_status v = Interrupted \<and> vw_reason v = Some ''lease_expired''
       else vw_status v = rn_status r \<and> vw_reason v = rn_terminal_reason r \<and>
         (is_nonterminal (rn_status r) \<or>
          TerminalEvent (rn_status r) (rn_terminal_reason r) \<in> re_body ` set (vw_events v))))
    else read_owned NoFault (Some now) i session db = Inr None"
proof -
  from reachable_store_ok [OF reachable] find_run_Some [OF found]
  have r: "run_record_valid r" "trace_ok (events_of db i)" "ending_traced r (events_of db i)"
    by (auto simp: run_store_ok_def run_ok_def)
  from r(2) have valid: "list_all event_valid (events_of db i)" by (simp add: trace_ok_def)
  note views = stored_view_valid [OF r(1,2)] trace_sorted [OF r(2)]
  show ?thesis
    using session found r(1,3) valid views trace_ok_def [THEN iffD1, OF r(2)]
    by (auto simp: read_owned_def Let_def ending_traced_def lease_expired_def simp del: upt_Suc)
qed

text \<open>
  C28. History is never rewritten. Whatever happens to the store afterwards, a run is still
  there, with the identity and bindings it was created with; every event of its trace is still
  in its place and later ones come after it; a run that left the queue never returns to it; and
  one that ended, other than by the expiry of its lease, never changes again.
\<close>

theorem history_is_preserved:
  assumes reachable: "reachable_store sha256 db" and later: "(store_step sha256)\<^sup>*\<^sup>* db db'"
    and found: "find_run db i = Some r"
  shows "\<exists>r' es. find_run db' i = Some r' \<and> r' = with_state_of r r' \<and>
    events_of db' i = events_of db i @ es \<and> (rn_status r \<noteq> Queued \<longrightarrow> rn_status r' \<noteq> Queued) \<and>
    (\<not> is_nonterminal (rn_status r) \<and> \<not> resumable r \<longrightarrow> r' = r)"
proof -
  from store_steps_keep [OF later reachable_store_ok [OF reachable]] found
  obtain r' es where "find_run db' i = Some r'" "evolves\<^sup>*\<^sup>* r r'" "events_of db' i = events_of db i @ es"
    unfolding extends_def by metis
  with evolves_star [of r r'] show ?thesis by blast
qed

lemma claim_run_taken:
  assumes "claim_run fault clock i owner seconds db = (result, db')" and "db' \<noteq> db \<or> result = Inr True"
  shows "\<exists>r. find_run db i = Some r \<and> rn_status r = Queued"
  using assms
  by (auto simp: claim_run_def run_transact_def bind_result_Inr split: if_splits option.splits fault.splits sum.splits)

lemma claim_run_running:
  assumes "claim_run fault clock i owner seconds db = (result, db')" and "db' \<noteq> db"
  shows "\<exists>r. find_run db' i = Some r \<and> rn_status r = Running \<and> rn_lease_owner r = Some owner"
proof -
  let ?run = "\<lambda>r now. r\<lparr>rn_status := Running, rn_started_at := Some now, rn_lease_owner := Some owner,
        rn_lease_expires_at := Some (now + microseconds seconds), rn_last_heartbeat_at := Some now\<rparr>"
  from assms obtain now r event db1 where r: "find_run db i = Some r"
    and row: "update_run (?run r now) db = Inr db1" and insert: "insert_event i event now db1 = Inr db'"
    by (auto simp: claim_run_def bind_result_Inr split: if_splits option.splits elim!: run_transact_cases)
  from find_run_Some [OF r] have "rn_run_id r = i" by simp
  then have "run_change db (?run r now) [event] db'"
    using row insert by (auto simp: run_change_def statement_simps)
  from find_run_change [OF this] r \<open>rn_run_id r = i\<close> show ?thesis by simp
qed

text \<open>
  C30. A queued run is handed to one worker. Once a claim has taken effect, whether or not its
  commit was acknowledged, no claim of that run ever takes effect again, through any history.
\<close>

theorem run_is_claimed_once:
  assumes reachable: "reachable_store sha256 db"
    and claim: "claim_run fault clock i owner seconds db = (result, db1)" "db1 \<noteq> db"
    and later: "(store_step sha256)\<^sup>*\<^sup>* db1 db2"
    and again: "claim_run fault' clock' i owner' seconds' db2 = (result', db3)"
  shows "db3 = db2 \<and> result' \<noteq> Inr True"
proof -
  from claim_run_running [OF claim] obtain r where r: "find_run db1 i = Some r" "rn_status r = Running" by blast
  have "(store_step sha256)\<^sup>*\<^sup>* db db1" using claim(1) by (blast intro: Claims)
  with reachable have "reachable_store sha256 db1"
    unfolding reachable_store_def by (blast intro: rtranclp_trans)
  from store_steps_keep [OF later reachable_store_ok [OF this]] r(1)
  obtain r2 where r2: "find_run db2 i = Some r2" "evolves\<^sup>*\<^sup>* r r2" unfolding extends_def by metis
  with evolves_star [OF r2(2)] r(2) have "rn_status r2 \<noteq> Queued" by simp
  with claim_run_taken [OF again] r2(1) show ?thesis by auto
qed


lemma append_all_bodies:
  "append_all i now bodies db = Inr (es, db') \<Longrightarrow>
    map re_body (events_of db' i) = map re_body (events_of db i) @ bodies"
proof (induction bodies arbitrary: db es)
  case (Cons body bodies)
  from Cons.prems obtain event db1 es' where "insert_event i event now db = Inr db1" "re_body event = body"
    "append_all i now bodies db1 = Inr (es', db')"
    by (auto simp: bind_result_Inr allocated_event_Inr)
  with Cons.IH show ?case by (auto simp: insert_event_Inr events_of_def)
qed simp

lemma anchor_on_record:
  assumes "body \<in> re_body ` set (events_of db i)" shows "audit_anchor_exists db i body"
proof -
  from assms obtain x where x: "re_body x = body" "x \<in> set (events_of db i)" by auto
  show ?thesis
  proof (cases body)
    case (EgressSummary e)
    with x(1) have "re_body x = EgressSummary e" by simp
    with x(2) have "es_reservation_id e = Some j \<Longrightarrow> list_ex (\<lambda>x. case re_body x of
        EgressSummary e' \<Rightarrow> es_reservation_id e' = Some j | _ \<Rightarrow> False) (events_of db i)" for j
      unfolding list_ex_iff by (intro bexI [of _ x]) simp_all
    with assms EgressSummary show ?thesis by (simp add: audit_anchor_exists_def split: option.split)
  qed (use assms in \<open>simp_all add: audit_anchor_exists_def\<close>)
qed

lemma anchor_persists:
  assumes "audit_anchor_exists db i body" and "events_of db' i = events_of db i @ es"
  shows "audit_anchor_exists db' i body"
  using assms by (cases body) (auto simp: audit_anchor_exists_def split: option.splits)

text \<open>
  C31. An audit batch lands once and whole. If a batch that holds its own anchor took effect,
  whether or not the commit was acknowledged, the trace has grown by exactly its events in their
  order; and after any history a batch with that anchor, whoever appends it, adds nothing.
\<close>

theorem audit_batch_lands_once:
  assumes reachable: "reachable_store sha256 db"
    and first: "append_many_once fault clock i owner events anchor db = (result, db1)" "db1 \<noteq> db"
    and anchored: "re_body anchor \<in> re_body ` set events"
    and later: "(store_step sha256)\<^sup>*\<^sup>* db1 db2"
    and again: "append_many_once fault' clock' i owner' events' anchor' db2 = (result', db3)"
      "re_body anchor' = re_body anchor"
  shows "map re_body (events_of db1 i) = map re_body (events_of db i) @ map re_body events \<and>
    db3 = db2 \<and> (\<forall>es. result' = Inr es \<longrightarrow> es = [])"
proof -
  from first obtain now es r where all: "append_all i now (map re_body events) db = Inr (es, db1)"
    and r: "find_run db i = Some r"
    by (auto simp: append_many_once_def split: if_splits option.splits elim!: run_transact_cases)
  note bodies = append_all_bodies [OF all]
  from bodies have "re_body ` set (events_of db1 i) = set (map re_body (events_of db i) @ map re_body events)"
    by (metis list.set_map)
  with anchored have anchor1: "audit_anchor_exists db1 i (re_body anchor)" by (intro anchor_on_record) auto
  have "worker_step db db1" using first(1) by (rule AppendsMany)
  then have step: "(store_step sha256)\<^sup>*\<^sup>* db db1" by (blast intro: Works)
  note ok = reachable_store_ok [OF reachable]
  from store_steps_keep [OF step ok] r obtain r1 where r1: "find_run db1 i = Some r1" unfolding extends_def by blast
  from store_steps_keep [OF step ok] store_steps_keep [OF later] r1
  obtain es' where "events_of db2 i = events_of db1 i @ es'" unfolding extends_def by blast
  from anchor_persists [OF anchor1 this] have "audit_anchor_exists db2 i (re_body anchor')" by (simp add: again(2))
  with again(1) have "db3 = db2 \<and> (\<forall>es. result' = Inr es \<longrightarrow> es = [])"
    by (auto simp: append_many_once_def run_transact_def split: if_splits option.splits fault.splits)
  with bodies show ?thesis by simp
qed

lemma optional_simps: "optional P None" "optional P (Some x) = P x"
  by (simp_all add: optional_def)

lemma ended_run_simps:
  "rn_status (ended_run r status reason now) = status" "rn_terminal_reason (ended_run r status reason now) = reason"
  "rn_completed_at (ended_run r status reason now) = Some now" "rn_started_at (ended_run r status reason now) = rn_started_at r"
  "rn_created_at (ended_run r status reason now) = rn_created_at r" "rn_lease_owner (ended_run r status reason now) = None"
  "rn_lease_expires_at (ended_run r status reason now) = None" "rn_last_heartbeat_at (ended_run r status reason now) = None"
  "run_fields_valid (ended_run r status reason now) =
    run_fields_valid (r\<lparr>rn_terminal_reason := reason, rn_lease_owner := None\<rparr>)"
  "level_bindings_agree (ended_run r status reason now) = level_bindings_agree r"
  by (simp_all add: ended_run_def run_fields_valid_def level_bindings_agree_def)

lemma ended_row_ok:
  assumes ok: "run_store_ok db" and found: "find_run db (rn_run_id r) = Some r"
    and expired: "is_nonterminal (rn_status r)" "lease_expired r now"
  shows "run_row_ok (ended_run r Interrupted (Some ''lease_expired'') now)"
proof -
  from ok find_run_Some [OF found] have r: "run_row_ok r" "rn_status r = Running \<longrightarrow> rn_last_heartbeat_at r \<noteq> None"
    by (auto simp: run_store_ok_def run_ok_def run_record_valid_def)
  have "activity_floor r \<le> now"
  proof (cases "rn_status r = Running")
    case True
    with r(2) obtain beat where "rn_last_heartbeat_at r = Some beat" by auto
    with r(1) expired(2) show ?thesis
      by (auto simp: run_row_ok_def timestamps_agree_def lease_expired_def split: option.splits)
  next
    case False
    with expired(1) have "rn_status r = Queued" by (auto simp: is_nonterminal_def)
    with r(1) expired(2) show ?thesis
      by (auto simp: run_row_ok_def timestamps_agree_def lease_expired_def activity_floor_def optional_def split: option.splits)
  qed
  moreover have "activity_floor (ended_run r Interrupted (Some ''lease_expired'') now) = activity_floor r"
    by (simp add: activity_floor_def ended_run_def split: option.split)
  moreover have "terminal_reason ''lease_expired''" by code_simp
  moreover from this r(1) have "run_fields_valid (r\<lparr>rn_terminal_reason := Some ''lease_expired'', rn_lease_owner := None\<rparr>)"
    by (simp add: run_row_ok_def run_fields_valid_def optional_simps)
  ultimately show ?thesis
    using r(1) by (simp add: run_row_ok_def state_and_lease_agree_def timestamps_agree_def
        ended_run_simps optional_simps is_nonterminal_def)
qed

text \<open>One expired run: it ends if its trace has room for the event, and fails otherwise.\<close>

lemma expire_one:
  assumes ok: "run_store_ok db" and r: "find_run db (rn_run_id r) = Some r" "is_nonterminal (rn_status r)" "lease_expired r now"
  shows "if length (events_of db (rn_run_id r)) < 10000
    then \<exists>db2. run_store_ok db2 \<and>
      (\<forall>rs. expire_runs now (r # rs) db = bind_result (expire_runs now rs db2) (\<lambda>(n, db3). Inr (Suc n, db3))) \<and>
      (\<forall>i. find_run db2 i = (if i = rn_run_id r then Some (ended_run r Interrupted (Some ''lease_expired'') now) else find_run db i)) \<and>
      (\<forall>i. i \<noteq> rn_run_id r \<longrightarrow> events_of db2 i = events_of db i)
    else \<forall>rs. expire_runs now (r # rs) db = Inl RunStoreIntegrityError"
proof -
  let ?i = "rn_run_id r" and ?r' = "ended_run r Interrupted (Some ''lease_expired'') now"
  let ?e = "\<lparr>re_sequence = next_sequence db ?i, re_body = TerminalEvent Interrupted (Some ''lease_expired'')\<rparr>"
  from ok find_run_Some [OF r(1)] have trace: "trace_ok (events_of db ?i)" by (auto simp: run_store_ok_def run_ok_def)
  have "terminal_reason ''lease_expired''" by code_simp
  then have valid: "event_valid ?e \<longleftrightarrow> length (events_of db ?i) < 10000"
    by (auto simp: event_valid_def next_sequence_trace [OF trace] status_is_terminal_def is_nonterminal_def optional_def)
  show ?thesis
  proof (cases "length (events_of db ?i) < 10000")
    case True
    let ?db1 = "db\<lparr>tb_runs := map (\<lambda>x. if rn_run_id x = rn_run_id ?r' then ?r' else x) (tb_runs db)\<rparr>"
    let ?db2 = "(close_attempts ?i now ''lease_expired'' ?db1)\<lparr>tb_events := tb_events db @
      [\<lparr>er_row_run_id = ?i, er_row_event = ?e, er_row_recorded_at = now\<rparr>]\<rparr>"
    have id: "rn_run_id ?r' = ?i" by (simp add: ended_run_def)
    have row: "update_run ?r' db = Inr ?db1"
      using ended_row_ok [OF ok r] by (simp add: update_run_Inr)
    have "\<not> is_nonterminal (rn_status ?r')" by (simp add: ended_run_def is_nonterminal_def)
    have change: "run_change db ?r' [?e] ?db2" by (auto simp: run_change_def ended_run_def close_attempts_def)
    from find_run_change [OF change] r(1) id
    have found: "find_run ?db2 j = (if j = ?i then Some ?r' else find_run db j)" for j by simp
    have db1: "find_run ?db1 ?i \<noteq> None" "events_of ?db1 ?i = events_of db ?i"
      using found [of ?i] by (auto simp: find_run_def events_of_def)
    have "re_sequence ?e \<notin> re_sequence ` set (events_of db ?i)"
      using trace by (metis (no_types, lifting) trace_ok_def next_sequence_trace run_event.select_convs(1)
          list.set_map atLeastLessThan_iff set_upt less_irrefl)
    then have insert: "insert_event ?i ?e now (close_attempts ?i now ''lease_expired'' ?db1) = Inr ?db2"
      using db1 valid True by (simp add: insert_event_Inr)
    have run: "expire_runs now (r # rs) db = bind_result (expire_runs now rs ?db2) (\<lambda>(n, db3). Inr (Suc n, db3))" for rs
      using valid True row insert by (simp add: allocated_event_def Let_def)
    have "store_change\<^sup>*\<^sup>* db ?db2"
      by (rule expire_runs_changes [OF _ ok, of now "[r]" "Suc 0"]) (use run [of "[]"] r in auto)
    from changes_ok [OF this ok] have "run_store_ok ?db2" .
    moreover have "events_of ?db2 j = events_of db j" if "j \<noteq> ?i" for j
      using events_of_change [OF change, of j] that id by simp
    ultimately show ?thesis
      unfolding if_P [OF True] using run found by (intro exI [of _ ?db2]) blast
  next
    case False
    with valid show ?thesis by (simp add: allocated_event_def Let_def)
  qed
qed


lemma expire_runs_total:
  assumes "run_store_ok db" and "distinct (map rn_run_id rs)"
    and "\<forall>r \<in> set rs. find_run db (rn_run_id r) = Some r \<and> is_nonterminal (rn_status r) \<and> lease_expired r now"
  shows "if \<forall>r \<in> set rs. length (events_of db (rn_run_id r)) < 10000
    then \<exists>db'. expire_runs now rs db = Inr (length rs, db') \<and> run_store_ok db' \<and>
      (\<forall>i. i \<notin> rn_run_id ` set rs \<longrightarrow> find_run db' i = find_run db i) \<and>
      (\<forall>r \<in> set rs. find_run db' (rn_run_id r) = Some (ended_run r Interrupted (Some ''lease_expired'') now))
    else expire_runs now rs db = Inl RunStoreIntegrityError"
  using assms
proof (induction rs arbitrary: db)
  case (Cons r rs)
  from Cons.prems(3) have r: "find_run db (rn_run_id r) = Some r" "is_nonterminal (rn_status r)" "lease_expired r now" by auto
  note one = expire_one [OF Cons.prems(1) r]
  show ?case
  proof (cases "length (events_of db (rn_run_id r)) < 10000")
    case True
    with one obtain db2 where db2: "run_store_ok db2"
      "\<And>rs. expire_runs now (r # rs) db = bind_result (expire_runs now rs db2) (\<lambda>(n, db3). Inr (Suc n, db3))"
      "\<And>i. find_run db2 i = (if i = rn_run_id r then Some (ended_run r Interrupted (Some ''lease_expired'') now) else find_run db i)"
      "\<And>i. i \<noteq> rn_run_id r \<Longrightarrow> events_of db2 i = events_of db i" by auto
    have other: "rn_run_id x \<noteq> rn_run_id r" if "x \<in> set rs" for x
      using Cons.prems(2) imageI [OF that, of rn_run_id] by auto
    have prems: "\<forall>x \<in> set rs. find_run db2 (rn_run_id x) = Some x \<and> is_nonterminal (rn_status x) \<and> lease_expired x now"
      using Cons.prems(3) by (simp add: db2(3) other)
    have room: "(\<forall>x \<in> set rs. length (events_of db2 (rn_run_id x)) < 10000) \<longleftrightarrow>
        (\<forall>x \<in> set (r # rs). length (events_of db (rn_run_id x)) < 10000)"
      using True by (simp add: db2(4) other)
    have "distinct (map rn_run_id rs)" using Cons.prems(2) by simp
    note IH = Cons.IH [OF db2(1) this prems, unfolded room]
    show ?thesis
    proof (cases "\<forall>x \<in> set (r # rs). length (events_of db (rn_run_id x)) < 10000")
      case True
      from IH [unfolded if_P [OF True]] obtain db' where db': "expire_runs now rs db2 = Inr (length rs, db')" "run_store_ok db'"
        "\<And>i. i \<notin> rn_run_id ` set rs \<Longrightarrow> find_run db' i = find_run db2 i"
        "\<And>x. x \<in> set rs \<Longrightarrow> find_run db' (rn_run_id x) = Some (ended_run x Interrupted (Some ''lease_expired'') now)"
        by blast
      have "find_run db' (rn_run_id r) = Some (ended_run r Interrupted (Some ''lease_expired'') now)"
        using Cons.prems(2) db'(3) by (simp add: db2(3))
      with db' show ?thesis
        unfolding if_P [OF True] by (intro exI [of _ db']) (auto simp add: db2(2,3) simp del: expire_runs.simps)
    next
      case False
      from IH [unfolded if_not_P [OF False]] show ?thesis
        unfolding if_not_P [OF False] db2(2) by simp
    qed
  next
    case False
    with one show ?thesis by auto
  qed
qed simp

text \<open>
  C32. Reconciliation ends every expired run it may lock, or none. Over a reachable store, with some
  runs locked by other transactions, it either ends all of the unlocked runs whose lease has run
  out, as interrupted by that, so that none of them is left, and leaves the row of every other run,
  the locked ones among them, as it is; or, if the trace of just one of the unlocked ones is full, it
  fails and all of them stay as they are.
\<close>

theorem reconciliation_is_all_or_nothing:
  assumes reachable: "reachable_store sha256 db"
  shows "if \<forall>r \<in> set (expired_runs locked now db). length (events_of db (rn_run_id r)) < 10000
    then \<exists>db'. reconcile_expired NoFault (Some now) locked db = (Inr (length (expired_runs locked now db)), db') \<and>
      expired_runs locked now db' = [] \<and>
      (\<forall>r \<in> set (expired_runs locked now db).
        find_run db' (rn_run_id r) = Some (ended_run r Interrupted (Some ''lease_expired'') now)) \<and>
      (\<forall>i. i \<notin> rn_run_id ` set (expired_runs locked now db) \<longrightarrow> find_run db' i = find_run db i)
    else reconcile_expired NoFault (Some now) locked db = (Inl RunStoreIntegrityError, db)"
proof -
  note ok = reachable_store_ok [OF reachable]
  note expired = expired_runs_set [OF ok, of locked now]
  note total = expire_runs_total [OF ok, of "expired_runs locked now db" now]
  show ?thesis
  proof (cases "\<forall>r \<in> set (expired_runs locked now db). length (events_of db (rn_run_id r)) < 10000")
    case True
    with total expired obtain db' where db': "expire_runs now (expired_runs locked now db) db = Inr (length (expired_runs locked now db), db')"
      "run_store_ok db'" "\<And>i. i \<notin> rn_run_id ` set (expired_runs locked now db) \<Longrightarrow> find_run db' i = find_run db i"
      "\<And>x. x \<in> set (expired_runs locked now db) \<Longrightarrow> find_run db' (rn_run_id x) = Some (ended_run x Interrupted (Some ''lease_expired'') now)"
      by auto
    have False if "r' \<in> set (expired_runs locked now db')" for r'
    proof -
      from expired_runs_set [OF db'(2), of locked now] that
      have r': "find_run db' (rn_run_id r') = Some r'" "is_nonterminal (rn_status r')" "lease_expired r' now" "\<not> locked (rn_run_id r')" by auto
      show False
      proof (cases "rn_run_id r' \<in> rn_run_id ` set (expired_runs locked now db)")
        case True
        then obtain x where "x \<in> set (expired_runs locked now db)" "rn_run_id x = rn_run_id r'" by auto
        with db'(4) [of x] r' show False by (simp add: ended_run_simps is_nonterminal_def)
      next
        case False
        with db'(3) r' find_run_Some [of db "rn_run_id r'" r'] have "r' \<in> set (expired_runs locked now db)"
          by (simp add: expired_runs_def)
        with False show False by blast
      qed
    qed
    then have "expired_runs locked now db' = []" by (metis list.set_intros(1) neq_Nil_conv)
    with db' True show ?thesis
      unfolding if_P [OF True] by (intro exI [of _ db']) (simp add: reconcile_expired_def run_transact_def)
  next
    case False
    with total expired show ?thesis
      unfolding if_not_P [OF False] by (simp add: reconcile_expired_def run_transact_def)
  qed
qed


section \<open>Checkpoints\<close>

lemma find_checkpoint_Some: "find_checkpoint db i = Some k \<Longrightarrow> k \<in> set (tb_checkpoints db) \<and> kp_run_id k = i"
  by (auto simp: find_checkpoint_def find_Some_iff in_set_conv_nth)

lemma find_checkpoint_insert:
  assumes "insert_checkpoint k db = Inr db'"
  shows "find_checkpoint db' i = (if i = kp_run_id k then Some k else find_checkpoint db i)"
proof -
  have "find (\<lambda>x. kp_run_id x = i) (xs @ [k]) =
      (if find (\<lambda>x. kp_run_id x = i) xs = None \<and> i = kp_run_id k then Some k else find (\<lambda>x. kp_run_id x = i) xs)" for xs
    by (induction xs) auto
  with assms show ?thesis by (auto simp: insert_checkpoint_def find_checkpoint_def split: if_splits)
qed

lemma find_checkpoint_update:
  assumes "update_checkpoint k db = Inr db'" and "find_checkpoint db (kp_run_id k) \<noteq> None"
  shows "find_checkpoint db' i = (if i = kp_run_id k then Some k else find_checkpoint db i)"
proof -
  have "find (\<lambda>x. kp_run_id x = i) (map (\<lambda>x. if kp_run_id x = kp_run_id k then k else x) xs) =
      (if i = kp_run_id k \<and> find (\<lambda>x. kp_run_id x = i) xs \<noteq> None then Some k else find (\<lambda>x. kp_run_id x = i) xs)" for xs
    by (induction xs) auto
  with assms show ?thesis by (auto simp: update_checkpoint_def find_checkpoint_def split: if_splits)
qed

definition attempts_of :: "run_tables \<Rightarrow> string \<Rightarrow> run_attempt list" where
  "attempts_of db i = filter (\<lambda>a. ra_run_id a = i) (tb_attempts db)"

lemma attempts_of_insert:
  "insert_attempt a db = Inr db' \<Longrightarrow>
    attempts_of db' i = attempts_of db i @ (if ra_run_id a = i then [a] else []) \<and> tb_checkpoints db' = tb_checkpoints db"
  by (auto simp: insert_attempt_def attempts_of_def split: if_splits)

text \<open>What a checkpoint write does to checkpoints and attempts.\<close>

lemma store_checkpoint_effect:
  assumes store: "store_checkpoint r current k now db = Inr db'" and current: "current = find_checkpoint db (kp_run_id k)"
    and r: "rn_run_id r = kp_run_id k"
  shows "find_checkpoint db' i = (if i = kp_run_id k then Some k else find_checkpoint db i) \<and>
    (current \<noteq> None \<or> i \<noteq> kp_run_id k \<longrightarrow> attempts_of db' i = attempts_of db i) \<and> checkpoint_valid k \<and>
    (case current of None \<Rightarrow> True | Some old \<Rightarrow> checkpoint_valid old \<and> validate_transition old k = Inr ())"
proof (cases current)
  case None
  with store obtain db1 where db1: "insert_checkpoint k db = Inr db1" "db' = insert_attempt_absent (first_attempt r now) db1"
    by (auto simp: store_checkpoint_def bind_result_Inr)
  from db1(1) have "checkpoint_valid k" "tb_attempts db1 = tb_attempts db" by (auto simp: insert_checkpoint_def split: if_splits)
  moreover have "tb_checkpoints db' = tb_checkpoints db1"
    and "i \<noteq> kp_run_id k \<longrightarrow> attempts_of db' i = attempts_of db1 i"
    using db1(2) attempts_of_insert [of "first_attempt r now" db1 _ i] r
    by (auto simp: insert_attempt_absent_def first_attempt_def Let_def split: sum.splits)
  ultimately show ?thesis
    using None find_checkpoint_insert [OF db1(1)] by (simp add: find_checkpoint_def attempts_of_def)
next
  case (Some old)
  with store have update: "update_checkpoint k db = Inr db'" and old: "checkpoint_valid old" "validate_transition old k = Inr ()"
    by (auto simp: store_checkpoint_def split: if_splits sum.splits)
  from find_checkpoint_update [OF update, of i] Some current
  have "find_checkpoint db' i = (if i = kp_run_id k then Some k else find_checkpoint db i)" by simp
  moreover from update have "checkpoint_valid k" "tb_attempts db' = tb_attempts db"
    by (auto simp: update_checkpoint_def split: if_splits)
  ultimately show ?thesis using Some old by (simp add: attempts_of_def)
qed

lemma write_body_effect:
  assumes "write_body now previous k db = Inr (k', db')"
  obtains r event where "find_run db (kp_run_id k) = Some r" "bindings_match r k" "reservations_bound (tb_ledger db) k"
    "k' = k\<lparr>kp_last_accessed_at := now\<rparr>" "checkpoint_valid k'"
    "map_option kp_version (find_checkpoint db (kp_run_id k)) = previous"
    "case find_checkpoint db (kp_run_id k) of
       None \<Rightarrow> kp_stage k = Planned \<and> kp_version k = 1 \<and> kp_attempt k = 1
     | Some old \<Rightarrow> checkpoint_valid old \<and> validate_transition old k' = Inr ()"
    "\<And>i. find_checkpoint db' i = (if i = kp_run_id k then Some k' else find_checkpoint db i)"
    "\<And>i. find_checkpoint db (kp_run_id k) \<noteq> None \<or> i \<noteq> kp_run_id k \<Longrightarrow> attempts_of db' i = attempts_of db i"
    "tb_runs db' = tb_runs db" "re_body event = checkpoint_summary k'"
    "\<And>i. events_of db' i = events_of db i @ (if i = kp_run_id k then [event] else [])"
  using assms
proof (rule write_body_Inr)
  fix r db1 event
  assume w: "find_run db (kp_run_id k) = Some r" "bindings_match r k" "reservations_bound (tb_ledger db) k"
    "map_option kp_version (find_checkpoint db (kp_run_id k)) = previous"
    "kp_version k = (case previous of None \<Rightarrow> 0 | Some v \<Rightarrow> v) + 1"
    "find_checkpoint db (kp_run_id k) = None \<longrightarrow> kp_stage k = Planned \<and> kp_attempt k = 1"
    "store_checkpoint r (find_checkpoint db (kp_run_id k)) (k\<lparr>kp_last_accessed_at := now\<rparr>) now db = Inr db1"
    "allocated_event RunStoreIntegrityError (checkpoint_summary (k\<lparr>kp_last_accessed_at := now\<rparr>))
        (next_sequence db1 (kp_run_id k)) = Inr event"
    "insert_event (kp_run_id k) event now db1 = Inr db'" "k' = k\<lparr>kp_last_accessed_at := now\<rparr>"
  from find_run_Some [OF w(1)] have r: "rn_run_id r = kp_run_id k'" by (simp add: w(10))
  have id: "kp_run_id k' = kp_run_id k" by (simp add: w(10))
  have stored: "store_checkpoint r (find_checkpoint db (kp_run_id k)) k' now db = Inr db1" using w(7,10) by simp
  note effect = store_checkpoint_effect [OF stored _ r, unfolded id, OF refl]
  from store_checkpoint_same [OF stored] have same: "same_runs db db1" .
  have db': "tb_checkpoints db' = tb_checkpoints db1" "tb_attempts db' = tb_attempts db1" "tb_runs db' = tb_runs db1"
    "tb_events db' = tb_events db1 @ [\<lparr>er_row_run_id = kp_run_id k, er_row_event = event, er_row_recorded_at = now\<rparr>]"
    using w(9) by (auto simp: insert_event_Inr)
  show thesis
  proof (rule that [of r event])
    show "find_checkpoint db' i = (if i = kp_run_id k then Some k' else find_checkpoint db i)" for i
      using effect [of i] db'(1) by (simp add: find_checkpoint_def)
    show "attempts_of db' i = attempts_of db i" if "find_checkpoint db (kp_run_id k) \<noteq> None \<or> i \<noteq> kp_run_id k" for i
      using effect [of i] db'(2) that by (auto simp: attempts_of_def)
    show "events_of db' i = events_of db i @ (if i = kp_run_id k then [event] else [])" for i
      using db'(4) same by (simp add: events_of_def same_runs_def)
    show "re_body event = checkpoint_summary k'" using w(8,10) by (auto simp: allocated_event_Inr)
    show "tb_runs db' = tb_runs db" using db'(3) same by (simp add: same_runs_def)
    show "case find_checkpoint db (kp_run_id k) of
       None \<Rightarrow> kp_stage k = Planned \<and> kp_version k = 1 \<and> kp_attempt k = 1
     | Some old \<Rightarrow> checkpoint_valid old \<and> validate_transition old k' = Inr ()"
      using effect [of i] w(4-6) by (auto split: option.splits)
  qed (use w effect in auto)
qed

text \<open>
  C33. A checkpoint advances one legal step per write, and one writer wins. If a write took
  effect, the checkpoint is valid, bound to the run's own row and to reservations of this run;
  it is the first, planned one or one legal step after the stored one, and carries over all
  that was; the trace has its summary and nothing else new; and whoever writes again from the
  version this write started from is refused and changes nothing.
\<close>

theorem checkpoint_write_advances:
  assumes written: "write_checkpoint fault (Some now) previous k db = (result, db')" "db' \<noteq> db"
  shows "\<exists>k'. k' = k\<lparr>kp_last_accessed_at := now\<rparr> \<and> find_checkpoint db' (kp_run_id k) = Some k' \<and> checkpoint_valid k' \<and>
    (\<exists>r. find_run db (kp_run_id k) = Some r \<and> bindings_match r k) \<and> reservations_bound (tb_ledger db) k \<and>
    (case find_checkpoint db (kp_run_id k) of
       None \<Rightarrow> kp_stage k = Planned \<and> kp_version k = 1 \<and> kp_attempt k = 1
     | Some old \<Rightarrow> kp_stage k \<in> set (legal_transitions (kp_stage old)) \<and> kp_version k = Suc (kp_version old) \<and>
         kp_attempt k = kp_attempt old \<and> carries old k') \<and>
    (\<exists>e. events_of db' (kp_run_id k) = events_of db (kp_run_id k) @ [e] \<and> re_body e = checkpoint_summary k') \<and>
    (\<forall>other later. kp_run_id other = kp_run_id k \<longrightarrow>
      write_checkpoint NoFault (Some later) previous other db' = (Inl RunStoreValidationError, db'))"
proof -
  from written(1) obtain k' where "write_body now previous k db = Inr (k', db')"
  proof (cases rule: write_checkpoint_cases)
    case kept
    with written(2) show ?thesis by blast
  qed auto
  then obtain r event where w: "find_run db (kp_run_id k) = Some r" "bindings_match r k" "reservations_bound (tb_ledger db) k"
    "k' = k\<lparr>kp_last_accessed_at := now\<rparr>" "checkpoint_valid k'"
    "map_option kp_version (find_checkpoint db (kp_run_id k)) = previous"
    "case find_checkpoint db (kp_run_id k) of
       None \<Rightarrow> kp_stage k = Planned \<and> kp_version k = 1 \<and> kp_attempt k = 1
     | Some old \<Rightarrow> checkpoint_valid old \<and> validate_transition old k' = Inr ()"
    and stored: "\<And>i. find_checkpoint db' i = (if i = kp_run_id k then Some k' else find_checkpoint db i)"
    and runs: "tb_runs db' = tb_runs db" and e: "re_body event = checkpoint_summary k'"
    and events: "\<And>i. events_of db' i = events_of db i @ (if i = kp_run_id k then [event] else [])"
    by (rule write_body_effect) blast
  have step: "case find_checkpoint db (kp_run_id k) of
       None \<Rightarrow> kp_stage k = Planned \<and> kp_version k = 1 \<and> kp_attempt k = 1
     | Some old \<Rightarrow> kp_stage k \<in> set (legal_transitions (kp_stage old)) \<and> kp_version k = Suc (kp_version old) \<and>
         kp_attempt k = kp_attempt old \<and> carries old k'"
  proof (cases "find_checkpoint db (kp_run_id k)")
    case (Some old)
    with w(7) have "validate_transition old k' = Inr ()" by simp
    with validate_transition_carries [OF this] Some w(4) show ?thesis
      by (auto simp: validate_transition_def split: if_splits)
  qed (use w(7) in simp)
  have "map_option kp_version (find_checkpoint db' (kp_run_id k)) \<noteq> previous"
    using step w(4,6) stored [of "kp_run_id k"] by (auto split: option.splits)
  moreover have "find_run db' (kp_run_id k) = Some r" using w(1) runs by (simp add: find_run_def)
  ultimately have "write_body later previous other db' = Inl RunStoreValidationError"
    if "kp_run_id other = kp_run_id k" for other later
    using that by (simp add: write_body_def Let_def)
  then show ?thesis
    using w(1-5) step stored events e by (intro exI [of _ k']) (auto simp: write_checkpoint_def run_transact_def)
qed


section \<open>Resumption\<close>

lemma latest_attempt_of:
  "latest_attempt db i = (case sort_key ra_attempt (attempts_of db i) of [] \<Rightarrow> None | as \<Rightarrow> Some (last as))"
  by (simp add: latest_attempt_def attempts_of_def)

lemma replayed_attempt_of:
  "replayed_attempt db i key = find (\<lambda>a. ra_resume_key_hash a = Some key) (attempts_of db i)"
proof -
  have "find (\<lambda>a. ra_run_id a = i \<and> ra_resume_key_hash a = Some key) xs =
      find (\<lambda>a. ra_resume_key_hash a = Some key) (filter (\<lambda>a. ra_run_id a = i) xs)" for xs
    by (induction xs) auto
  then show ?thesis by (simp add: replayed_attempt_def attempts_of_def)
qed

lemma sorted_last: "sorted (map f xs) \<Longrightarrow> x \<in> set xs \<Longrightarrow> f x \<le> f (last xs)"
  by (induction xs) (auto dest: last_in_set)

lemma latest_attempt_is_max:
  assumes "latest_attempt db i = Some a"
  shows "\<forall>b \<in> set (attempts_of db i). ra_attempt b \<le> ra_attempt a"
proof -
  from assms have a: "a = last (sort_key ra_attempt (attempts_of db i))"
    by (auto simp: latest_attempt_of split: list.splits)
  have "sorted (map ra_attempt (sort_key ra_attempt (attempts_of db i)))" by simp
  from sorted_last [OF this] show ?thesis by (simp add: a)
qed

lemma sort_key_append_max:
  assumes "\<forall>x \<in> set xs. f x \<le> f a" shows "sort_key f (xs @ [a]) = sort_key f xs @ [a]"
proof -
  have insort: "insort_key f x (ys @ [a]) = insort_key f x ys @ [a]" if "f x \<le> f a" for x ys
    using that by (induction ys) auto
  from assms show ?thesis by (induction xs) (auto simp: insort)
qed

lemma acquire_resume_effect:
  assumes "acquire_resume (r, k, latest) key_hash owner seconds now db = Inr (out, db')"
    and found: "find_run db i = Some r" "find_checkpoint db i = Some k" "latest_attempt db i = Some latest"
    and fresh: "replayed_attempt db i key_hash = None"
  defines "n \<equiv> Suc (ra_attempt latest)"
  defines "a \<equiv> \<lparr>ra_run_id = i, ra_attempt = n, ra_resume_key_hash = Some key_hash, ra_started_at = now,
      ra_ended_at = None, ra_end_reason = None\<rparr>"
  defines "k' \<equiv> k\<lparr>kp_attempt := n, kp_version := Suc (kp_version k), kp_last_accessed_at := now\<rparr>"
  shows "out = (ResumeAcquired, Some n) \<and> find_run db' i = Some (resumed_run r owner seconds now) \<and>
    find_checkpoint db' i = Some k' \<and> checkpoint_valid k' \<and>
    attempts_of db' i = attempts_of db i @ [a] \<and>
    latest_attempt db' i = Some a \<and> replayed_attempt db' i key_hash = Some a \<and>
    map re_body (events_of db' i) = map re_body (events_of db i) @ [StateTransition (Some Interrupted) Running None, ResumeSummary n]"
proof -
  from find_run_Some [OF found(1)] find_checkpoint_Some [OF found(2)]
  have i: "rn_run_id r = i" "kp_run_id k = i" "kp_run_id k' = i" by (simp_all add: k'_def)
  from assms(1) obtain db1 db2 db3 db4 transition summary where s:
      "update_run (resumed_run r owner seconds now) db = Inr db1" "insert_attempt a db1 = Inr db2"
      "update_checkpoint k' db2 = Inr db3"
      "allocated_event UncaughtValidationError (StateTransition (Some Interrupted) Running None) (next_sequence db3 i) = Inr transition"
      "insert_event i transition now db3 = Inr db4"
      "allocated_event UncaughtValidationError (ResumeSummary n) (Suc (re_sequence transition)) = Inr summary"
      "insert_event i summary now db4 = Inr db'" "out = (ResumeAcquired, Some n)"
    unfolding n_def a_def k'_def i(1) [symmetric] by (rule acquire_resume_Inr)
  let ?r = "resumed_run r owner seconds now"
  have id: "rn_run_id ?r = i" using i(1) by (simp add: resumed_run_def)
  have db1: "tb_runs db1 = map (\<lambda>x. if rn_run_id x = rn_run_id ?r then ?r else x) (tb_runs db)"
    "tb_events db1 = tb_events db" "attempts_of db1 = attempts_of db" "tb_checkpoints db1 = tb_checkpoints db"
    using s(1) by (auto simp: update_run_Inr attempts_of_def fun_eq_iff)
  have same: "same_runs db1 db3" using s(2,3) by (blast intro: checkpoint_statements_same same_runs_trans)
  have db': "tb_runs db' = tb_runs db1" "tb_checkpoints db' = tb_checkpoints db3" "tb_attempts db' = tb_attempts db3"
    "tb_events db' = tb_events db @ [\<lparr>er_row_run_id = i, er_row_event = transition, er_row_recorded_at = now\<rparr>,
         \<lparr>er_row_run_id = i, er_row_event = summary, er_row_recorded_at = now\<rparr>]"
    using s(5,7) same db1(2) by (auto simp: insert_event_Inr same_runs_def)
  have "run_change db ?r [transition, summary] db'"
    using db'(1,4) db1(1) id by (auto simp: run_change_def)
  from find_run_change [OF this, of i] events_of_change [OF this, of i] id found(1)
  have run: "find_run db' i = Some ?r" "events_of db' i = events_of db i @ [transition, summary]" by simp_all
  have "find_checkpoint db2 i = Some k"
    using attempts_of_insert [OF s(2), of i] db1(4) found(2) by (simp add: find_checkpoint_def)
  with find_checkpoint_update [OF s(3), of i] i(3) db'(2)
  have checkpoint: "find_checkpoint db' i = Some k'" by (simp add: find_checkpoint_def)
  have "tb_attempts db3 = tb_attempts db2" "checkpoint_valid k'"
    using s(3) by (auto simp: update_checkpoint_def split: if_splits)
  then have attempts: "attempts_of db' i = attempts_of db i @ [a]"
    using attempts_of_insert [OF s(2), of i] db1(3) db'(3) by (simp add: attempts_of_def a_def)
  have "\<forall>b \<in> set (attempts_of db i). ra_attempt b \<le> ra_attempt a"
    using latest_attempt_is_max [OF found(3)] by (auto simp: a_def n_def)
  then have latest: "latest_attempt db' i = Some a"
    by (cases "sort_key ra_attempt (attempts_of db i)") (simp_all add: latest_attempt_of attempts sort_key_append_max)
  have "find P (xs @ [a]) = (if P a then Some a else None)" if "find P xs = None" for P :: "run_attempt \<Rightarrow> bool" and xs
    using that by (induction xs) (auto split: if_splits)
  from this [of _ "attempts_of db i"] fresh have "replayed_attempt db' i key_hash = Some a"
    by (simp add: replayed_attempt_of attempts a_def)
  with s(4,6,8) run checkpoint attempts latest \<open>checkpoint_valid k'\<close> show ?thesis by (auto simp: allocated_event_Inr)
qed

text \<open>What the worker's operations leave of a resumption.\<close>

definition resumption_kept :: "run_tables \<Rightarrow> run_tables \<Rightarrow> string \<Rightarrow> bool" where
  "resumption_kept db db' i \<longleftrightarrow> attempts_of db' i = attempts_of db i \<and>
     (\<forall>k. find_checkpoint db i = Some k \<and> checkpoint_valid k \<longrightarrow>
       (\<exists>k'. find_checkpoint db' i = Some k' \<and> checkpoint_valid k' \<and> kp_attempt k' = kp_attempt k \<and>
         kp_task_level k' = kp_task_level k \<and> carries k k'))"


lemma resumption_kept_refl [simp]: "resumption_kept db db i"
  by (auto simp: resumption_kept_def carries_refl)

lemma resumption_kept_trans:
  assumes ab: "resumption_kept a b i" and bc: "resumption_kept b c i" shows "resumption_kept a c i"
proof -
  have "\<exists>z. find_checkpoint c i = Some z \<and> checkpoint_valid z \<and> kp_attempt z = kp_attempt x \<and>
         kp_task_level z = kp_task_level x \<and> carries x z"
    if x: "find_checkpoint a i = Some x" "checkpoint_valid x" for x
  proof -
    from ab x obtain y where y: "find_checkpoint b i = Some y" "checkpoint_valid y" "kp_attempt y = kp_attempt x"
      "kp_task_level y = kp_task_level x" "carries x y" by (auto simp: resumption_kept_def)
    with bc obtain z where "find_checkpoint c i = Some z" "checkpoint_valid z" "kp_attempt z = kp_attempt y"
      "kp_task_level z = kp_task_level y" "carries y z" by (auto simp: resumption_kept_def)
    with y carries_trans [OF y(5)] show ?thesis by auto
  qed
  with ab bc show ?thesis by (simp add: resumption_kept_def)
qed

lemma resumption_kept_same:
  "tb_attempts db' = tb_attempts db \<Longrightarrow> tb_checkpoints db' = tb_checkpoints db \<Longrightarrow> resumption_kept db db' i"
  by (auto simp: resumption_kept_def attempts_of_def find_checkpoint_def carries_refl)

lemma insert_events_keep:
  "append_all i now bodies db = Inr (es, db') \<Longrightarrow> tb_attempts db' = tb_attempts db \<and> tb_checkpoints db' = tb_checkpoints db"
  "rebuild_receipts i now bodies db = Inr (es, db') \<Longrightarrow> tb_attempts db' = tb_attempts db \<and> tb_checkpoints db' = tb_checkpoints db"
proof -
  show "append_all i now bodies db = Inr (es, db') \<Longrightarrow> tb_attempts db' = tb_attempts db \<and> tb_checkpoints db' = tb_checkpoints db"
    by (induction bodies arbitrary: db es) (auto simp: bind_result_Inr insert_event_Inr)
  show "rebuild_receipts i now bodies db = Inr (es, db') \<Longrightarrow> tb_attempts db' = tb_attempts db \<and> tb_checkpoints db' = tb_checkpoints db"
  proof (induction bodies arbitrary: db es)
    case (Cons body bodies)
    then show ?case
      by (cases "audit_anchor_exists db i body") (auto simp: bind_result_Inr insert_event_Inr)
  qed simp
qed

lemma write_keeps_resumption:
  assumes "write_checkpoint fault clock previous k db = (result, db')" and "find_checkpoint db i \<noteq> None"
  shows "resumption_kept db db' i"
  using assms(1)
proof (cases rule: write_checkpoint_cases)
  case (written now k')
  from written(2) obtain r event where w: "k' = k\<lparr>kp_last_accessed_at := now\<rparr>" "checkpoint_valid k'"
    "case find_checkpoint db (kp_run_id k) of
       None \<Rightarrow> kp_stage k = Planned \<and> kp_version k = 1 \<and> kp_attempt k = 1
     | Some old \<Rightarrow> checkpoint_valid old \<and> validate_transition old k' = Inr ()"
    "\<And>i. find_checkpoint db' i = (if i = kp_run_id k then Some k' else find_checkpoint db i)"
    "\<And>i. find_checkpoint db (kp_run_id k) \<noteq> None \<or> i \<noteq> kp_run_id k \<Longrightarrow> attempts_of db' i = attempts_of db i"
    by (rule write_body_effect) blast
  show ?thesis
  proof (cases "i = kp_run_id k")
    case True
    with assms(2) obtain old where old: "find_checkpoint db i = Some old" by auto
    with True w(3) validate_transition_carries [of old k'] w(2,4,5) show ?thesis
      by (auto simp: resumption_kept_def)
  next
    case False
    with w(4,5) show ?thesis by (auto simp: resumption_kept_def carries_refl)
  qed
qed simp

lemma worker_step_keeps_resumption:
  assumes "worker_step db db'" and "find_checkpoint db i \<noteq> None"
  shows "resumption_kept db db' i"
  using assms(1)
proof (cases rule: worker_step.cases)
  case (Writes fault clock previous k result)
  from write_keeps_resumption [OF this assms(2)] show ?thesis .
next
  case (Beats fault clock j owner seconds result)
  then have "tb_attempts db' = tb_attempts db \<and> tb_checkpoints db' = tb_checkpoints db"
    by (auto simp: heartbeat_def statement_simps split: if_splits option.splits elim!: run_transact_cases)
  then show ?thesis by (simp add: resumption_kept_same)
next
  case (Appends fault clock j owner e result)
  then have "tb_attempts db' = tb_attempts db \<and> tb_checkpoints db' = tb_checkpoints db"
    by (auto simp: append_event_def statement_simps split: if_splits option.splits elim!: run_transact_cases)
  then show ?thesis by (simp add: resumption_kept_same)
next
  case (AppendsMany fault clock j owner es anchor result)
  then have "tb_attempts db' = tb_attempts db \<and> tb_checkpoints db' = tb_checkpoints db"
    by (auto simp: append_many_once_def split: if_splits option.splits elim!: run_transact_cases dest: insert_events_keep)
  then show ?thesis by (simp add: resumption_kept_same)
next
  case (Rebuilds fault clock j owner k result)
  then have "tb_attempts db' = tb_attempts db \<and> tb_checkpoints db' = tb_checkpoints db"
    by (auto simp: reconcile_l2_egress_def split: if_splits option.splits elim!: run_transact_cases dest: insert_events_keep)
  then show ?thesis by (simp add: resumption_kept_same)
next
  case (Completes fault clock j owner e result)
  then have "tb_attempts db' = tb_attempts db \<and> tb_checkpoints db' = tb_checkpoints db"
    by (auto simp: complete_run_def statement_simps split: if_splits option.splits event_body.splits elim!: run_transact_cases)
  then show ?thesis by (simp add: resumption_kept_same)
next
  case Charges
  then show ?thesis by (simp add: resumption_kept_same)
qed

lemma worker_steps_keep:
  assumes "worker_step\<^sup>*\<^sup>* db db'" and "run_store_ok db" and "find_checkpoint db i = Some k" "checkpoint_valid k"
  shows "run_store_ok db' \<and> extends db db' \<and> resumption_kept db db' i"
  using assms(1)
proof (induction rule: rtranclp_induct)
  case (step y z)
  then have y: "run_store_ok y" "extends db y" "resumption_kept db y i" by auto
  with assms(3,4) have "find_checkpoint y i \<noteq> None" by (auto simp: resumption_kept_def)
  from worker_step_keeps_resumption [OF step(2) this] worker_step_keeps [OF step(2) y(1)] y
  show ?case by (blast intro: extends_trans resumption_kept_trans)
qed (use assms(2) in simp)


lemma carries_bindings:
  assumes "carries k k'" and "kp_task_level k' = kp_task_level k"
  shows "bindings_match r k' = bindings_match r k" and "kp_binding k' = kp_binding k"
  using assms by (auto simp: carries_def bindings_match_def bindings_settled_def)

text \<open>What a granted resumption left, and the state that the worker's operations made of it.\<close>

lemma granted_resume:
  assumes reachable: "reachable_store sha256 db"
    and granted: "begin_resume sha256 fault clock i session query key owner seconds binding db = (result, db1)" "db1 \<noteq> db"
    and work: "worker_step\<^sup>*\<^sup>* db1 db2"
  obtains k0 r1 r2 k2 a where
    "find_checkpoint db i = Some k0" "reservations_settled (tb_ledger db) k0"
    "find_run db1 i = Some r1" "rn_status r1 = Running" "rn_lease_owner r1 = Some owner"
    "find_run db2 i = Some r2" "rn_session_id r2 = session" "rn_query_hash r2 = query" "rn_status r2 \<noteq> Queued"
    "find_checkpoint db2 i = Some k2" "checkpoint_valid k2" "bindings_match r2 k2" "kp_attempt k2 = ra_attempt a"
    "case binding of None \<Rightarrow> True | Some b \<Rightarrow> kp_binding k2 = b"
    "latest_attempt db2 i = Some a" "replayed_attempt db2 i (sha256 key) = Some a" "ra_ended_at a = None"
    "\<And>hash b. hash \<noteq> sha256 key \<Longrightarrow> replayed_attempt db2 i hash = Some b \<Longrightarrow> ra_attempt b \<noteq> ra_attempt a"
  using granted(1)
proof (cases rule: begin_resume_cases)
  case (acquired now r k latest out)
  from resume_checks_Inr [OF acquired(2)] have c: "find_run db i = Some r" "rn_session_id r = session" "rn_query_hash r = query"
    "replayed_attempt db i (sha256 key) = None" "find_checkpoint db i = Some k" "checkpoint_valid k" "bindings_match r k"
    "case binding of None \<Rightarrow> True | Some b \<Rightarrow> kp_binding k = b"
    "latest_attempt db i = Some latest" "reservations_settled (tb_ledger db) k" by blast+
  let ?n = "Suc (ra_attempt latest)" and ?r1 = "resumed_run r owner seconds now"
  let ?a = "\<lparr>ra_run_id = i, ra_attempt = ?n, ra_resume_key_hash = Some (sha256 key), ra_started_at = now,
      ra_ended_at = None, ra_end_reason = None\<rparr>"
  let ?k1 = "k\<lparr>kp_attempt := ?n, kp_version := Suc (kp_version k), kp_last_accessed_at := now\<rparr>"
  from acquire_resume_effect [OF acquired(3) c(1,5,9,4)]
  have e: "find_run db1 i = Some ?r1" "find_checkpoint db1 i = Some ?k1" "checkpoint_valid ?k1"
    "attempts_of db1 i = attempts_of db i @ [?a]" "latest_attempt db1 i = Some ?a"
    "replayed_attempt db1 i (sha256 key) = Some ?a" by blast+
  have "store_step sha256 db db1" using granted(1) by (rule Resumes)
  with store_step_keeps [OF _ reachable_store_ok [OF reachable]] have "run_store_ok db1" by blast
  from worker_steps_keep [OF work this e(2,3)]
  have keep: "extends db1 db2" "resumption_kept db1 db2 i" by blast+
  from keep(1) e(1) obtain r2 where r2: "find_run db2 i = Some r2" "evolves\<^sup>*\<^sup>* ?r1 r2" unfolding extends_def by blast
  from keep(2) e(2,3) obtain k2 where k2: "find_checkpoint db2 i = Some k2" "checkpoint_valid k2" "kp_attempt k2 = ?n"
    "kp_task_level k2 = kp_task_level ?k1" "carries ?k1 k2" by (auto simp: resumption_kept_def)
  have state: "r2 = with_state_of ?r1 r2" "rn_status r2 \<noteq> Queued"
    using evolves_star [OF r2(2)] by (auto simp: resumed_run_def)
  have bound: "bindings_match r2 k2"
    using c(7) carries_bindings(1) [OF k2(5,4)] with_state_of_binding(2) [OF state(1)]
    by (simp add: bindings_match_def bindings_settled_def resumed_run_def)
  have old: "ra_attempt b < ?n" if "b \<in> set (attempts_of db i)" for b
    using latest_attempt_is_max [OF c(9)] that by (auto simp: less_Suc_eq_le)
  have same: "attempts_of db2 i = attempts_of db1 i" using keep(2) by (simp add: resumption_kept_def)
  have others: "ra_attempt b \<noteq> ra_attempt ?a" if "hash \<noteq> sha256 key" "replayed_attempt db2 i hash = Some b" for hash b
  proof -
    from that(2) have "b \<in> set (attempts_of db i) \<or> b = ?a" "ra_resume_key_hash b = Some hash"
      by (auto simp: replayed_attempt_of same e(4) find_Some_iff in_set_conv_nth nth_append split: if_splits)
    with old that(1) show ?thesis by fastforce
  qed
  show thesis
  proof (rule that [OF c(5,10) e(1) _ _ r2(1) _ _ state(2) k2(1,2) bound])
    show "kp_attempt k2 = ra_attempt ?a" using k2(3) by simp
    show "case binding of None \<Rightarrow> True | Some b \<Rightarrow> kp_binding k2 = b"
      using c(8) carries_bindings(2) [OF k2(5,4)] by (cases binding) simp_all
    show "latest_attempt db2 i = Some ?a" "replayed_attempt db2 i (sha256 key) = Some ?a"
      using e(5,6) by (simp_all add: latest_attempt_of replayed_attempt_of same)
  qed (use c(2,3) state(1) with_state_of_binding(3,4) [OF state(1)] others in \<open>auto simp: resumed_run_def\<close>)
qed (use granted(2) in blast)

text \<open>
  C34. A resumption is granted to one caller. It is granted only when no reservation of the
  checkpoint is of uncertain outcome, and the run is then under the caller's lease; and as long
  as the worker has not ended it, whatever it does, the same key is answered with the same
  attempt, any other is refused, and neither changes anything.
\<close>

theorem resume_is_granted_once:
  assumes reachable: "reachable_store sha256 db"
    and granted: "begin_resume sha256 fault clock i session query key owner seconds binding db = (result, db1)" "db1 \<noteq> db"
    and work: "worker_step\<^sup>*\<^sup>* db1 db2"
    and running: "map_option rn_status (find_run db2 i) = Some Running"
    and again: "begin_resume sha256 NoFault (Some now') i session query key' owner' seconds' binding db2 = (result', db3)"
      "0 < seconds'" "key' \<noteq> []"
  shows "(\<exists>k. find_checkpoint db i = Some k \<and> reservations_settled (tb_ledger db) k) \<and>
    (\<exists>r. find_run db1 i = Some r \<and> rn_status r = Running \<and> rn_lease_owner r = Some owner) \<and>
    db3 = db2 \<and>
    (if sha256 key' = sha256 key
     then \<exists>k. find_checkpoint db2 i = Some k \<and> result' = Inr (ResumeReplay, Some (kp_attempt k))
     else result' \<in> {Inr (Leased, None), Inr (CheckpointInvalid, None)})"
  using reachable granted work
proof (rule granted_resume)
  fix k0 r1 r2 k2 a
  assume g: "find_checkpoint db i = Some k0" "reservations_settled (tb_ledger db) k0"
    "find_run db1 i = Some r1" "rn_status r1 = Running" "rn_lease_owner r1 = Some owner"
    "find_run db2 i = Some r2" "rn_session_id r2 = session" "rn_query_hash r2 = query" "rn_status r2 \<noteq> Queued"
    "find_checkpoint db2 i = Some k2" "checkpoint_valid k2" "bindings_match r2 k2" "kp_attempt k2 = ra_attempt a"
    "case binding of None \<Rightarrow> True | Some b \<Rightarrow> kp_binding k2 = b"
    "latest_attempt db2 i = Some a" "replayed_attempt db2 i (sha256 key) = Some a" "ra_ended_at a = None"
    "\<And>hash b. hash \<noteq> sha256 key \<Longrightarrow> replayed_attempt db2 i hash = Some b \<Longrightarrow> ra_attempt b \<noteq> ra_attempt a"
  from g(6) running have live: "is_nonterminal (rn_status r2)" by (simp add: is_nonterminal_def)
  have match: "\<not> (case binding of None \<Rightarrow> False | Some b \<Rightarrow> \<not> checkpoint_matches_binding k2 b)"
    using g(14) by (simp add: checkpoint_matches_binding_def split: option.splits)
  have "resume_checks db2 i session query (sha256 key') binding =
      Inl (if sha256 key' = sha256 key then (ResumeReplay, Some (kp_attempt k2))
        else case replayed_attempt db2 i (sha256 key') of None \<Rightarrow> (Leased, None) | Some b \<Rightarrow> (CheckpointInvalid, None))"
    using g match live g(18) [of "sha256 key'"]
    by (auto simp: resume_checks_def Let_def split: option.split)
  with again g(1-5,10) show ?thesis
    by (auto simp: begin_resume_def run_transact_def split: option.splits)
qed

text \<open>
  C35. A finished resumption is not replayed. The answer to a repeated key is meant to be the
  attempt it was granted, running or ended; but completing a run does not close its attempt, so
  once the worker has ended the resumed run the same key is refused as an invalid checkpoint.
\<close>

theorem finished_resume_is_not_replayed:
  assumes reachable: "reachable_store sha256 db"
    and granted: "begin_resume sha256 fault clock i session query key owner seconds binding db = (result, db1)" "db1 \<noteq> db"
    and work: "worker_step\<^sup>*\<^sup>* db1 db2"
    and ended: "map_option (is_nonterminal \<circ> rn_status) (find_run db2 i) = Some False"
    and again: "0 < seconds'" "key \<noteq> []"
  shows "begin_resume sha256 NoFault (Some now') i session query key owner' seconds' binding db2 =
    (Inr (CheckpointInvalid, None), db2)"
  using reachable granted work
proof (rule granted_resume)
  fix k0 r1 r2 k2 a
  assume g: "find_checkpoint db i = Some k0" "reservations_settled (tb_ledger db) k0"
    "find_run db1 i = Some r1" "rn_status r1 = Running" "rn_lease_owner r1 = Some owner"
    "find_run db2 i = Some r2" "rn_session_id r2 = session" "rn_query_hash r2 = query" "rn_status r2 \<noteq> Queued"
    "find_checkpoint db2 i = Some k2" "checkpoint_valid k2" "bindings_match r2 k2" "kp_attempt k2 = ra_attempt a"
    "case binding of None \<Rightarrow> True | Some b \<Rightarrow> kp_binding k2 = b"
    "latest_attempt db2 i = Some a" "replayed_attempt db2 i (sha256 key) = Some a" "ra_ended_at a = None"
    "\<And>hash b. hash \<noteq> sha256 key \<Longrightarrow> replayed_attempt db2 i hash = Some b \<Longrightarrow> ra_attempt b \<noteq> ra_attempt a"
  from g(6) ended have "\<not> is_nonterminal (rn_status r2)" by simp
  moreover have "\<not> (case binding of None \<Rightarrow> False | Some b \<Rightarrow> \<not> checkpoint_matches_binding k2 b)"
    using g(14) by (simp add: checkpoint_matches_binding_def split: option.splits)
  ultimately have "resume_checks db2 i session query (sha256 key) binding = Inl (CheckpointInvalid, None)"
    using g by (simp add: resume_checks_def Let_def)
  with again show ?thesis by (simp add: begin_resume_def run_transact_def)
qed

end
