(* ===== verification/RunWitnesses.thy ===== *)
theory RunWitnesses
  imports RunTheorems
begin

text \<open>
  One scripted history of the run store, through the operations themselves: a run is created and
  claimed and an audit batch appended; or it expires in the queue, gets its checkpoint, is resumed
  and completed. The theorems about histories are applied along it.
\<close>

definition sample_hex :: "char \<Rightarrow> string" where
  "sample_hex c = replicate 64 c"

definition sample_run :: run_record where
  "sample_run = \<lparr>rn_run_id = ''run'', rn_request_id = ''request'', rn_session_id = ''session'', rn_task_level = L2,
     rn_evaluation_root_id = Some ''root'', rn_profile = ''p'', rn_source_manifest_id = sample_hex CHR ''a'',
     rn_corpus_manifest_id = sample_hex CHR ''b'', rn_policy_hash = sample_hex CHR ''c'',
     rn_configuration_hash = sample_hex CHR ''d'', rn_prompt_id = ''prompt'', rn_prompt_hash = sample_hex CHR ''e'',
     rn_compliance_prompt_hash = Some (sample_hex CHR ''f''), rn_verifier_prompt_hash = Some (sample_hex CHR ''0''),
     rn_provider_id = ''fake'', rn_model_id = ''model'', rn_query_hash = sample_hex CHR ''1'', rn_status = Queued,
     rn_terminal_reason = None, rn_created_at = 0, rn_started_at = None, rn_completed_at = None,
     rn_lease_owner = None, rn_lease_expires_at = None, rn_last_heartbeat_at = None\<rparr>"

definition sample_run_ledger :: ledger_db where
  "sample_run_ledger = empty_ledger\<lparr>db_heads := (\<lambda>_. Some None), db_policies := (\<lambda>_. Some [])\<rparr>"

definition sample_created :: run_tables where
  "sample_created = snd (create_run NoFault (Some 0) 30000000 sample_run (empty_tables sample_run_ledger))"

definition sample_claimed :: run_tables where
  "sample_claimed = snd (claim_run NoFault (Some 1) ''run'' ''worker'' 30 sample_created)"

definition sample_event :: run_event where
  "sample_event = \<lparr>re_sequence = 1, re_body = PlanSummary ''plan'' 1 6\<rparr>"

definition sample_audited :: run_tables where
  "sample_audited = snd (append_many_once NoFault (Some 2) ''run'' ''worker'' [sample_event] sample_event sample_claimed)"

definition sample_expired :: run_tables where
  "sample_expired = snd (reconcile_expired NoFault (Some 40000000) (\<lambda>_. False) sample_created)"

definition sample_checkpoint :: run_checkpoint where
  "sample_checkpoint = (case new_checkpoint (Some 0) sample_run Planned of Inr k \<Rightarrow> k)"

definition sample_checkpointed :: run_tables where
  "sample_checkpointed = snd (write_checkpoint NoFault (Some 40000001) None sample_checkpoint sample_expired)"

definition sample_resumed :: run_tables where
  "sample_resumed = snd (begin_resume (\<lambda>key. sample_hex (hd key)) NoFault (Some 40000002) ''run'' ''session''
     (sample_hex CHR ''1'') ''2'' ''worker'' 30 None sample_checkpointed)"

definition sample_completed :: run_tables where
  "sample_completed = snd (complete_run NoFault (Some 40000003) ''run'' ''worker''
     \<lparr>re_sequence = 1, re_body = TerminalEvent RunAnswered None\<rparr> sample_resumed)"

lemma sample_hex_text [simp]: "is_hex c \<Longrightarrow> sha256_text (sample_hex c)"
  by (simp add: sha256_text_def sample_hex_def list_all_iff)

lemma sample_hex_eq [simp]: "sample_hex c = sample_hex d \<longleftrightarrow> c = d"
  by (simp add: sample_hex_def replicate_eq_replicate)

lemma sample_identifiers [simp]:
  "trace_identifier ''session''" "trace_identifier ''p''" "trace_identifier ''prompt''" "trace_identifier ''fake''"
  "trace_identifier ''model''" "trace_identifier ''root''" "trace_identifier ''queue-delivery''" "trace_identifier ''worker''"
  "trace_identifier ''other''" "trace_identifier ''plan''" "terminal_reason ''lease_expired''"
  by code_simp+

lemma sample_digits [simp]:
  "is_hex CHR ''a''" "is_hex CHR ''b''" "is_hex CHR ''c''" "is_hex CHR ''d''" "is_hex CHR ''e''" "is_hex CHR ''f''"
  "is_hex CHR ''0''" "is_hex CHR ''1''" "is_hex CHR ''2''"
  by code_simp+

lemmas row_rules = run_row_ok_def run_fields_valid_def state_and_lease_agree_def timestamps_agree_def
  activity_floor_def level_bindings_agree_def is_nonterminal_def optional_simps

lemmas statement_rules = run_transact_def insert_run_def insert_event_def update_run_def
  allocated_event_def find_run_def events_of_def next_sequence_def event_valid_def Let_def microseconds_def

lemma sample_created_eq:
  "sample_created = \<lparr>tb_runs = [queued_run sample_run 0 30000000],
     tb_events = [\<lparr>er_row_run_id = ''run'', er_row_event = \<lparr>re_sequence = 1, re_body = StateTransition None Queued None\<rparr>,
       er_row_recorded_at = 0\<rparr>],
     tb_attempts = [], tb_checkpoints = [], tb_ledger = sample_run_ledger\<rparr>"
  unfolding sample_created_def create_run_def empty_tables_def
  by (simp add: run_record_valid_def row_rules statement_rules queued_run_def sample_run_def sample_run_ledger_def
      queue_lease_owner_def empty_ledger_def)


definition transition_row :: "nat \<Rightarrow> event_body \<Rightarrow> int \<Rightarrow> event_row" where
  "transition_row n body now = \<lparr>er_row_run_id = ''run'', er_row_event = \<lparr>re_sequence = n, re_body = body\<rparr>,
     er_row_recorded_at = now\<rparr>"

definition sample_queued :: run_record where
  "sample_queued = queued_run sample_run 0 30000000"

definition sample_running :: run_record where
  "sample_running = sample_queued\<lparr>rn_status := Running, rn_started_at := Some 1, rn_lease_owner := Some ''worker'',
     rn_lease_expires_at := Some 30000001, rn_last_heartbeat_at := Some 1\<rparr>"

lemmas row_defs = sample_running_def sample_queued_def queued_run_def sample_run_def queue_lease_owner_def
  transition_row_def ended_run_def resumed_run_def

lemma sample_claimed_eq:
  "sample_claimed = sample_created\<lparr>tb_runs := [sample_running],
     tb_events := [transition_row 1 (StateTransition None Queued None) 0,
       transition_row 2 (StateTransition (Some Queued) Running None) 1]\<rparr>"
  unfolding sample_claimed_def claim_run_def sample_created_eq
  by (simp add: row_rules statement_rules row_defs lease_expired_def
      del: list.set_map set_filter)

lemma sample_audited_eq:
  "sample_audited = sample_claimed\<lparr>tb_events := tb_events sample_claimed @ [transition_row 3 (re_body sample_event) 2]\<rparr>"
  unfolding sample_audited_def append_many_once_def sample_claimed_eq sample_created_eq
  by (simp add: row_rules statement_rules row_defs lease_expired_def holds_lease_def sample_event_def is_transition_def
      audit_anchor_exists_def
      del: list.set_map set_filter)

lemma sample_expired_eq:
  "sample_expired = sample_created\<lparr>tb_runs := [ended_run sample_queued Interrupted (Some ''lease_expired'') 40000000],
     tb_events := [transition_row 1 (StateTransition None Queued None) 0,
       transition_row 2 (TerminalEvent Interrupted (Some ''lease_expired'')) 40000000]\<rparr>"
  unfolding sample_expired_def reconcile_expired_def expired_runs_def sample_created_eq
  by (simp add: row_rules statement_rules row_defs lease_expired_def status_is_terminal_def close_attempts_def
      del: list.set_map set_filter)

lemma sample_checkpoint_eq:
  "sample_checkpoint = \<lparr>kp_run_id = ''run'', kp_attempt = 1, kp_version = 1, kp_stage = Planned,
     kp_task_level = L2, kp_query_hash = sample_hex CHR ''1'', kp_evaluation_root_id = ''root'',
     kp_binding = \<lparr>kb_source_manifest_id = sample_hex CHR ''a'', kb_corpus_manifest_id = sample_hex CHR ''b'',
       kb_policy_hash = sample_hex CHR ''c'', kb_configuration_hash = sample_hex CHR ''d'',
       kb_compliance_prompt_hash = sample_hex CHR ''f'', kb_verifier_prompt_hash = sample_hex CHR ''0'',
       kb_provider_id = ''fake'', kb_model_id = ''model''\<rparr>,
     kp_plan_id = None, kp_plan_hash = None, kp_evidence = [], kp_tool_attempts_used = 0,
     kp_reservation_ids = [], kp_generations = [], kp_recovery_attempted = False,
     kp_recovery_reason = None, kp_recovery_claim_id = None, kp_candidate_count = 0,
     kp_completed_claim_ids = [], kp_completed_results = [], kp_last_accessed_at = 0\<rparr>"
  by (simp add: sample_checkpoint_def new_checkpoint_def sample_run_def)

lemmas checkpoint_rules = checkpoint_valid_def checkpoint_fields_valid_def optional_simps bindings_match_def
  bindings_settled_def reservations_bound_def reservations_settled_def find_checkpoint_def

lemma sample_checkpointed_eq:
  "sample_checkpointed = sample_expired\<lparr>
     tb_checkpoints := [sample_checkpoint\<lparr>kp_last_accessed_at := 40000001\<rparr>],
     tb_attempts := [\<lparr>ra_run_id = ''run'', ra_attempt = 1, ra_resume_key_hash = None, ra_started_at = 40000000,
       ra_ended_at = Some 40000000, ra_end_reason = Some ''lease_expired''\<rparr>],
     tb_events := tb_events sample_expired @ [transition_row 3 (CheckpointSummary ''planned'' 1 0 False) 40000001]\<rparr>"
  unfolding sample_checkpointed_def write_checkpoint_def write_body_def sample_expired_eq sample_created_eq sample_checkpoint_eq
  by (simp add: statement_rules row_defs checkpoint_rules store_checkpoint_def insert_checkpoint_def
      insert_attempt_absent_def insert_attempt_def first_attempt_def checkpoint_summary_def checkpoint_stage_names_def
      del: list.set_map set_filter)

definition sample_resumed_run :: run_record where
  "sample_resumed_run = resumed_run (ended_run sample_queued Interrupted (Some ''lease_expired'') 40000000) ''worker'' 30 40000002"

lemma sample_resumed_eq:
  "sample_resumed = sample_checkpointed\<lparr>tb_runs := [sample_resumed_run],
     tb_checkpoints := [sample_checkpoint\<lparr>kp_attempt := 2, kp_version := 2, kp_last_accessed_at := 40000002\<rparr>],
     tb_attempts := tb_attempts sample_checkpointed @ [\<lparr>ra_run_id = ''run'', ra_attempt = 2,
       ra_resume_key_hash = Some (sample_hex CHR ''2''), ra_started_at = 40000002, ra_ended_at = None, ra_end_reason = None\<rparr>],
     tb_events := tb_events sample_checkpointed @ [transition_row 4 (StateTransition (Some Interrupted) Running None) 40000002,
       transition_row 5 (ResumeSummary 2) 40000002]\<rparr>"
  unfolding sample_resumed_def begin_resume_def resume_checks_def acquire_resume_def sample_checkpointed_eq
    sample_expired_eq sample_created_eq sample_checkpoint_eq
  by (simp add: statement_rules row_rules row_defs checkpoint_rules replayed_attempt_def latest_attempt_def
      insert_attempt_def update_checkpoint_def sample_resumed_run_def
      del: list.set_map set_filter)

lemma sample_completed_eq:
  "sample_completed = sample_resumed\<lparr>tb_runs := [ended_run sample_resumed_run RunAnswered None 40000003],
     tb_events := tb_events sample_resumed @ [transition_row 6 (TerminalEvent RunAnswered None) 40000003]\<rparr>"
  unfolding sample_completed_def complete_run_def sample_resumed_eq sample_checkpointed_eq
    sample_expired_eq sample_created_eq
  by (simp add: statement_rules row_rules row_defs lease_expired_def status_is_terminal_def sample_resumed_run_def
      del: list.set_map set_filter)


section \<open>The history is one\<close>

lemma sample_reachable:
  "reachable_store f sample_created" "reachable_store f sample_claimed" "reachable_store f sample_checkpointed"
proof -
  note pair = prod.collapse [symmetric]
  have created: "store_step f (empty_tables sample_run_ledger) sample_created"
    unfolding sample_created_def by (rule Creates [OF pair])
  have claimed: "store_step f sample_created sample_claimed"
    unfolding sample_claimed_def by (rule Claims [OF pair])
  have expired: "store_step f sample_created sample_expired"
    unfolding sample_expired_def by (rule Expires [OF pair])
  have checkpointed: "store_step f sample_expired sample_checkpointed"
    unfolding sample_checkpointed_def by (rule Works [OF Writes [OF pair]])
  show "reachable_store f sample_created" using created by (auto simp: reachable_store_def)
  show "reachable_store f sample_claimed"
    unfolding reachable_store_def using created claimed
    by (meson rtranclp.rtrancl_into_rtrancl rtranclp.rtrancl_refl)
  show "reachable_store f sample_checkpointed"
    unfolding reachable_store_def using created expired checkpointed
    by (meson rtranclp.rtrancl_into_rtrancl rtranclp.rtrancl_refl)
qed

lemma sample_runs:
  "find_run sample_created ''run'' = Some sample_queued"
  "find_run sample_claimed ''run'' = Some sample_running"
  "find_run sample_resumed ''run'' = Some sample_resumed_run"
  "find_run sample_completed ''run'' = Some (ended_run sample_resumed_run RunAnswered None 40000003)"
  by (simp_all add: find_run_def sample_created_eq sample_claimed_eq sample_resumed_eq sample_completed_eq
      sample_resumed_run_def row_defs)

lemma sample_grows:
  "sample_claimed \<noteq> sample_created" "sample_audited \<noteq> sample_claimed" "sample_checkpointed \<noteq> sample_expired"
  "sample_resumed \<noteq> sample_checkpointed"
proof -
  have "tb_events sample_claimed \<noteq> tb_events sample_created" "tb_events sample_audited \<noteq> tb_events sample_claimed"
    "tb_events sample_checkpointed \<noteq> tb_events sample_expired" "tb_events sample_resumed \<noteq> tb_events sample_checkpointed"
    by (simp_all add: sample_created_eq sample_claimed_eq sample_audited_eq sample_expired_eq sample_checkpointed_eq
        sample_resumed_eq)
  then show "sample_claimed \<noteq> sample_created" "sample_audited \<noteq> sample_claimed" "sample_checkpointed \<noteq> sample_expired"
    "sample_resumed \<noteq> sample_checkpointed" by metis+
qed

abbreviation sample_key_hash :: "string \<Rightarrow> string" where
  "sample_key_hash \<equiv> \<lambda>key. sample_hex (hd key)"

lemma sample_resume_granted:
  "begin_resume sample_key_hash NoFault (Some 40000002) ''run'' ''session'' (sample_hex CHR ''1'') ''2'' ''worker'' 30 None
    sample_checkpointed = (fst (begin_resume sample_key_hash NoFault (Some 40000002) ''run'' ''session'' (sample_hex CHR ''1'')
      ''2'' ''worker'' 30 None sample_checkpointed), sample_resumed)"
  by (simp add: sample_resumed_def)

lemma sample_worker: "worker_step\<^sup>*\<^sup>* sample_resumed sample_completed"
proof -
  have "worker_step sample_resumed sample_completed"
    unfolding sample_completed_def by (rule Completes [OF prod.collapse [symmetric]])
  then show ?thesis by blast
qed

section \<open>Witnesses\<close>

theorem owner_reads_exact_trace_witness:
  "\<exists>v. read_owned NoFault (Some 50000000) ''run'' ''session'' sample_created = Inr (Some v) \<and>
    vw_status v = Interrupted \<and> length (vw_events v) = 1"
proof -
  have "rn_session_id sample_queued = ''session''" "is_nonterminal (rn_status sample_queued)" "lease_expired sample_queued 50000000"
    by (simp_all add: row_defs is_nonterminal_def lease_expired_def)
  moreover have "length (events_of sample_created ''run'') = 1" by (simp add: sample_created_eq events_of_def)
  ultimately show ?thesis
    using owner_reads_exact_trace [OF sample_reachable(1) sample_runs(1), where session = "''session''" and now = 50000000] by auto
qed

theorem history_is_preserved_witness:
  "\<exists>r' es. find_run sample_claimed ''run'' = Some r' \<and> r' = with_state_of sample_queued r' \<and>
    events_of sample_claimed ''run'' = events_of sample_created ''run'' @ es"
proof -
  have "store_step id sample_created sample_claimed"
    unfolding sample_claimed_def by (rule Claims [OF prod.collapse [symmetric]])
  then have "(store_step id)\<^sup>*\<^sup>* sample_created sample_claimed" by blast
  from history_is_preserved [OF sample_reachable(1) this sample_runs(1)] show ?thesis by blast
qed

theorem run_is_claimed_once_witness:
  "claim_run NoFault (Some 2) ''run'' ''other'' 30 sample_claimed =
    (fst (claim_run NoFault (Some 2) ''run'' ''other'' 30 sample_claimed), sample_claimed)"
proof -
  have claim: "claim_run NoFault (Some 1) ''run'' ''worker'' 30 sample_created =
      (fst (claim_run NoFault (Some 1) ''run'' ''worker'' 30 sample_created), sample_claimed)"
    by (simp add: sample_claimed_def)
  from run_is_claimed_once [OF sample_reachable(1) claim sample_grows(1) rtranclp.rtrancl_refl prod.collapse [symmetric]]
  show ?thesis by (metis prod.collapse)
qed

theorem audit_batch_lands_once_witness:
  "map re_body (events_of sample_audited ''run'') = map re_body (events_of sample_claimed ''run'') @ [PlanSummary ''plan'' 1 6] \<and>
    snd (append_many_once NoFault (Some 3) ''run'' ''worker'' [sample_event] sample_event sample_audited) = sample_audited"
proof -
  have batch: "append_many_once NoFault (Some 2) ''run'' ''worker'' [sample_event] sample_event sample_claimed =
      (fst (append_many_once NoFault (Some 2) ''run'' ''worker'' [sample_event] sample_event sample_claimed), sample_audited)"
    by (simp add: sample_audited_def)
  have "re_body sample_event \<in> re_body ` set [sample_event]" by simp
  from audit_batch_lands_once [OF sample_reachable(2) batch sample_grows(2) this rtranclp.rtrancl_refl prod.collapse [symmetric] refl]
  show ?thesis by (simp add: sample_event_def)
qed

theorem reconciliation_is_all_or_nothing_witness:
  "reconcile_expired NoFault (Some 40000000) (\<lambda>_. False) sample_created =
    (Inr (length (expired_runs (\<lambda>_. False) 40000000 sample_created)), snd (reconcile_expired NoFault (Some 40000000) (\<lambda>_. False) sample_created))"
proof -
  have room: "\<forall>r \<in> set (expired_runs (\<lambda>_. False) 40000000 sample_created). length (events_of sample_created (rn_run_id r)) < 10000"
    by (simp add: sample_created_eq events_of_def)
  from reconciliation_is_all_or_nothing [OF sample_reachable(1), where now = 40000000 and locked = "\<lambda>_. False", unfolded if_P [OF room]]
  show ?thesis by auto
qed

theorem checkpoint_write_advances_witness:
  "find_checkpoint sample_checkpointed ''run'' = Some (sample_checkpoint\<lparr>kp_last_accessed_at := 40000001\<rparr>)"
proof -
  have written: "write_checkpoint NoFault (Some 40000001) None sample_checkpoint sample_expired =
      (fst (write_checkpoint NoFault (Some 40000001) None sample_checkpoint sample_expired), sample_checkpointed)"
    by (simp add: sample_checkpointed_def)
  have "kp_run_id sample_checkpoint = ''run''" by (simp add: sample_checkpoint_eq)
  with checkpoint_write_advances [OF written sample_grows(3)] show ?thesis by auto
qed

theorem resume_is_granted_once_witness:
  "\<exists>k :: run_checkpoint. begin_resume sample_key_hash NoFault (Some 40000003) ''run'' ''session'' (sample_hex CHR ''1'') ''2'' ''other'' 30 None
    sample_resumed = (Inr (ResumeReplay, Some (kp_attempt k)), sample_resumed)"
proof -
  have running: "map_option rn_status (find_run sample_resumed ''run'') = Some Running"
    by (simp add: sample_runs sample_resumed_run_def row_defs)
  let ?again = "begin_resume sample_key_hash NoFault (Some 40000003) ''run'' ''session'' (sample_hex CHR ''1'') ''2'' ''other'' 30
    None sample_resumed"
  have positive: "0 < (30 :: int)" "''2'' \<noteq> []" by simp_all
  have again: "?again = (fst ?again, snd ?again)" by simp
  from resume_is_granted_once [OF sample_reachable(3) sample_resume_granted sample_grows(4) rtranclp.rtrancl_refl running
      again positive, unfolded if_P [OF refl]]
  obtain k :: run_checkpoint where "snd ?again = sample_resumed" "fst ?again = Inr (ResumeReplay, Some (kp_attempt k))" by blast
  with again show ?thesis by metis
qed

theorem finished_resume_is_not_replayed_witness:
  "fst (begin_resume sample_key_hash NoFault (Some 40000004) ''run'' ''session'' (sample_hex CHR ''1'') ''2'' ''other'' 30 None
    sample_completed) = Inr (CheckpointInvalid, None)"
proof -
  have ended: "map_option (is_nonterminal \<circ> rn_status) (find_run sample_completed ''run'') = Some False"
    by (simp add: sample_runs ended_run_def is_nonterminal_def)
  from finished_resume_is_not_replayed [OF sample_reachable(3) sample_resume_granted sample_grows(4) sample_worker ended]
  show ?thesis by simp
qed

end
