(* ===== verification/WorkerTheorems.thy ===== *)
theory WorkerTheorems
  imports WorkerLogic WorkerStore RunWitnesses
begin

text \<open>
  The run store meets the interface \<open>act_log\<close>: the trace of the run is exactly what the worker
  did, under any faults, clocks and heartbeats. With the protocol this gives what an L1 run leaves
  on record.
\<close>

section \<open>The trace of a run\<close>

definition trace_of :: "run_tables \<Rightarrow> string \<Rightarrow> event_body list" where
  "trace_of db i = map re_body (events_of db i)"

definition at_most_one_more :: "'a list \<Rightarrow> 'a list \<Rightarrow> bool" where
  "at_most_one_more xs ys \<longleftrightarrow> ys = xs \<or> (\<exists>y. ys = xs @ [y])"

lemma trace_of_insert:
  "insert_event i e now db = Inr db' \<Longrightarrow> trace_of db' i = trace_of db i @ [re_body e]"
  by (auto simp: trace_of_def events_of_def insert_event_Inr)

lemma trace_of_update [simp]: "update_run r db = Inr db' \<Longrightarrow> trace_of db' i = trace_of db i"
  by (auto simp: trace_of_def events_of_def update_run_Inr)

lemma transact_trace:
  assumes "run_transact fault body db = (r, db')"
    and "\<And>x db1. body db = Inr (x, db1) \<Longrightarrow> trace_of db1 i = trace_of db i @ rows x \<and> length (rows x) \<le> 1"
  shows "case r of Inr x \<Rightarrow> trace_of db' i = trace_of db i @ rows x
    | Inl _ \<Rightarrow> at_most_one_more (trace_of db i) (trace_of db' i)"
proof -
  have "at_most_one_more xs (xs @ rows x)" if "length (rows x) \<le> 1" for xs x
    using that by (cases "rows x") (auto simp: at_most_one_more_def)
  with assms show ?thesis
    by (cases fault) (force simp: run_transact_def at_most_one_more_def split: sum.splits if_splits)+
qed

definition claim_rows :: "bool \<Rightarrow> event_body list" where
  "claim_rows ok = (if ok then [StateTransition (Some Queued) Running None] else [])"

lemma claim_run_trace:
  assumes "claim_run fault clock i owner seconds db = (r, db')"
  shows "case r of Inr ok \<Rightarrow> trace_of db' i = trace_of db i @ claim_rows ok
    | Inl _ \<Rightarrow> at_most_one_more (trace_of db i) (trace_of db' i)"
proof (cases "\<not> trace_identifier owner \<or> seconds \<le> 0")
  case False
  show ?thesis
    by (rule transact_trace [OF assms [unfolded claim_run_def if_not_P [OF False]]])
      (auto simp: claim_rows_def bind_result_Inr allocated_event_Inr trace_of_insert split: option.splits if_splits)
qed (use assms in \<open>auto simp: claim_run_def at_most_one_more_def\<close>)

lemma append_event_trace:
  assumes "append_event fault clock i owner event db = (r, db')"
  shows "case r of Inr _ \<Rightarrow> trace_of db' i = trace_of db i @ [re_body event]
    | Inl _ \<Rightarrow> at_most_one_more (trace_of db i) (trace_of db' i)"
proof (cases "\<not> trace_identifier owner \<or> \<not> event_valid event \<or> is_transition (re_body event)")
  case False
  show ?thesis
    by (rule transact_trace [OF assms [unfolded append_event_def if_not_P [OF False]]])
      (auto simp: bind_result_Inr allocated_event_Inr trace_of_insert split: option.splits if_splits)
qed (use assms in \<open>auto simp: append_event_def at_most_one_more_def\<close>)

lemma appended_trace:
  assumes "append_event fault clock i owner (trace_event body) db = (r, db')"
  shows "case r of Inr _ \<Rightarrow> trace_of db' i = trace_of db i @ [body]
    | Inl _ \<Rightarrow> at_most_one_more (trace_of db i) (trace_of db' i)"
  using append_event_trace [OF assms] by (cases r) (simp_all add: trace_event_def)

lemma complete_run_trace:
  assumes "complete_run fault clock i owner (terminal_event t) db = (r, db')"
  shows "case r of Inr ok \<Rightarrow> trace_of db' i = trace_of db i @ (if ok then [TerminalEvent (te_status t) (te_reason t)] else [])
    | Inl _ \<Rightarrow> at_most_one_more (trace_of db i) (trace_of db' i)"
proof (cases "\<not> trace_identifier owner \<or> \<not> event_valid (terminal_event t)")
  case False
  from assms False have "run_transact fault (\<lambda>db. case clock of
        None \<Rightarrow> Inl RunStoreValidationError
      | Some now \<Rightarrow> (case find_run db i of
          None \<Rightarrow> Inr (False, db)
        | Some r \<Rightarrow>
            if \<not> is_nonterminal (rn_status r) \<or> rn_lease_owner r \<noteq> Some owner \<or> lease_expired r now then Inr (False, db)
            else bind_result (insert_event i \<lparr>re_sequence = next_sequence db i,
                re_body = TerminalEvent (te_status t) (te_reason t)\<rparr> now db) (\<lambda>db1.
              bind_result (update_run (ended_run r (te_status t) (te_reason t) now) db1) (\<lambda>db2. Inr (True, db2))))) db = (r, db')"
    by (simp add: complete_run_def terminal_event_def)
  then show ?thesis
    by (rule transact_trace) (auto simp: bind_result_Inr trace_of_insert split: option.splits if_splits)
qed (use assms in \<open>auto simp: complete_run_def at_most_one_more_def terminal_event_def\<close>)

lemma heartbeat_trace:
  assumes "heartbeat fault clock i owner seconds db = (r, db')"
  shows "trace_of db' j = trace_of db j"
  using assms
  by (auto simp: heartbeat_def bind_result_Inr split: if_splits option.splits elim!: run_transact_cases)

section \<open>The store behind the worker\<close>

definition stored_trace :: "worker_binding \<Rightarrow> 'e store_env \<Rightarrow> event_body list" where
  "stored_trace b s = trace_of (se_tables s) (wb_run_id b)"

fun act_rows :: "worker_act \<Rightarrow> event_body list" where
  "act_rows (Claimed ok) = claim_rows ok"
| "act_rows (Appended body) = [body]"
| "act_rows (Ended t ok) = (if ok then [TerminalEvent (te_status t) (te_reason t)] else [])"
| "act_rows _ = []"

text \<open>The results on record are what the agents returned.\<close>

definition received :: "'e worker_agents \<Rightarrow> worker_act list \<Rightarrow> bool" where
  "received a A \<longleftrightarrow> (\<forall>p. GotPlan p \<in> set A \<longrightarrow> (\<exists>q e e'. wa_plan a q e = (Inr p, e'))) \<and>
     (\<forall>x. GotEvidence x \<in> set A \<longrightarrow> (\<exists>plan corpus e e'. wa_collect a plan corpus e = (Inr x, e'))) \<and>
     (\<forall>es x. GotAnswer es x \<in> set A \<longrightarrow> (\<exists>q e e'. wa_answer a q es e = (Inr x, e')))"

definition traced :: "worker_binding \<Rightarrow> 'e worker_agents \<Rightarrow> event_body list \<Rightarrow> worker_act list \<Rightarrow> 'e store_env \<Rightarrow> bool" where
  "traced b a before A s \<longleftrightarrow> stored_trace b s = before @ concat (map act_rows A) \<and> received a A"

definition nearly_traced :: "worker_binding \<Rightarrow> event_body list \<Rightarrow> worker_act list \<Rightarrow> 'e store_env \<Rightarrow> bool" where
  "nearly_traced b before A s \<longleftrightarrow> at_most_one_more (before @ concat (map act_rows A)) (stored_trace b s)"

lemma beat_trace [simp]: "stored_trace b (beat b s) = stored_trace b s"
  by (auto simp: beat_def Let_def stored_trace_def heartbeat_trace split: prod.split)

lemma store_call_trace:
  assumes "store_call b op s = (r, s')"
    and "\<And>fault clock db x db'. op fault clock (wb_run_id b) (wb_worker_id b) db = (x, db') \<Longrightarrow>
      case x of Inr y \<Rightarrow> trace_of db' (wb_run_id b) = trace_of db (wb_run_id b) @ rows y
        | Inl _ \<Rightarrow> at_most_one_more (trace_of db (wb_run_id b)) (trace_of db' (wb_run_id b))"
  shows "case r of Inr y \<Rightarrow> stored_trace b s' = stored_trace b s @ rows y
    | Inl e \<Rightarrow> at_most_one_more (stored_trace b s) (stored_trace b s') \<and> (\<exists>c. e = Uncaught c)"
proof -
  let ?s = "beat b s"
  obtain x db' where op: "op (wb_fault b (se_calls ?s)) (wb_clock b (se_calls ?s)) (wb_run_id b) (wb_worker_id b)
      (se_tables ?s) = (x, db')"
    by (cases "op (wb_fault b (se_calls ?s)) (wb_clock b (se_calls ?s)) (wb_run_id b) (wb_worker_id b) (se_tables ?s)")
  have "trace_of (se_tables ?s) (wb_run_id b) = stored_trace b s"
    using beat_trace [of b s] by (simp add: stored_trace_def)
  with assms(1) op assms(2) [OF op] show ?thesis
    by (cases x) (auto simp: store_call_def Let_def stored_trace_def)
qed

lemma agent_call_trace:
  "agent_call b op s = (r, s') \<Longrightarrow> stored_trace b s' = stored_trace b s \<and> (\<exists>e e'. op e = (r, e'))"
  using beat_trace [of b s] by (auto simp: agent_call_def Let_def stored_trace_def split: prod.splits)

interpretation stored: act_log "store_context b a" "traced b a before" "nearly_traced b before" for b a before
proof (unfold_locales, goal_cases)
  case (1 A s ok s')
  from store_call_trace [where rows = claim_rows, OF 1(2) [unfolded store_context_def worker_context.simps] claim_run_trace] 1(1)
  show ?case by (simp add: traced_def received_def)
next
  case (2 A s e s')
  from store_call_trace [where rows = claim_rows, OF 2(2) [unfolded store_context_def worker_context.simps] claim_run_trace] 2(1)
  show ?case by (simp add: traced_def nearly_traced_def)
next
  case (3 A body s ev s')
  from store_call_trace [OF 3(2) [unfolded store_context_def worker_context.simps] appended_trace] 3(1)
  show ?case by (simp add: traced_def received_def)
next
  case (4 A body s e s')
  from store_call_trace [OF 4(2) [unfolded store_context_def worker_context.simps] appended_trace] 4(1)
  show ?case by (simp add: traced_def nearly_traced_def)
next
  case (5 A t s ok s')
  from store_call_trace [OF 5(2) [unfolded store_context_def worker_context.simps] complete_run_trace] 5(1)
  show ?case by (simp add: traced_def received_def)
next
  case (6 A t s e s')
  from store_call_trace [OF 6(2) [unfolded store_context_def worker_context.simps] complete_run_trace] 6(1)
  show ?case by (simp add: traced_def nearly_traced_def)
qed (auto simp: traced_def nearly_traced_def at_most_one_more_def store_context_def stored_trace_def received_def
    dest!: agent_call_trace [unfolded stored_trace_def] split: prod.split)

section \<open>Properties of an L1 run\<close>

lemma l1_follows:
  assumes "run_l1 (store_context b a) job (worker_start s) = (r, st)"
  shows "case r of
      Inr _ \<Rightarrow> l1_run job (ws_acts st) \<and> traced b a (stored_trace b s) (ws_acts st) (ws_env st)
    | Inl _ \<Rightarrow> going_on (ws_acts st) \<and> nearly_traced b (stored_trace b s) (ws_acts st) (ws_env st)"
  using stored.run_l1_follows [of b a "stored_trace b s" s job] assms
  by (cases r) (simp_all add: wp_def traced_def received_def [of a "[]"] stored.final_def stored.aborted_def)

text \<open>
  C8. The worker refines the protocol of an L1 run. Whatever the planner, the evidence agent and the
  answer runner return or raise, and under any faults, clocks and heartbeats, a run that returns
  was not claimed, or stopped at the lease check that failed, with nothing after it, or its acts are
  those of \<open>l1_trace\<close> for the terminal state it wrote; one that ends in an exception completed no
  terminal write (one whose acknowledgement was lost may still be stored, see C9).
\<close>

theorem l1_run_follows_protocol:
  "case run_l1 (store_context b a) job (worker_start s) of
     (Inr _, st) \<Rightarrow> l1_run job (ws_acts st)
   | (Inl _, st) \<Rightarrow> going_on (ws_acts st)"
  using l1_follows [of b a job s] by (auto split: prod.split sum.split)

text \<open>
  C9. The stored trace refines the acts of the worker: after an L1 run it is the trace before, with
  the rows of exactly the acts the worker completed, in their order; a run that ends in an
  exception may have left one row more, of a write whose commit was not acknowledged.
\<close>

theorem trace_is_what_worker_did:
  "case run_l1 (store_context b a) job (worker_start s) of
     (Inr _, st) \<Rightarrow> stored_trace b (ws_env st) = stored_trace b s @ concat (map act_rows (ws_acts st))
   | (Inl _, st) \<Rightarrow> at_most_one_more (stored_trace b s @ concat (map act_rows (ws_acts st))) (stored_trace b (ws_env st))"
  using l1_follows [of b a job s] by (auto simp: traced_def nearly_traced_def split: prod.split sum.split)

lemma going_on_not_ended: "going_on B \<Longrightarrow> Ended t ok \<notin> set B"
  by (auto simp: going_on_def is_ended_def list_ex_iff)

lemma ended_run_trace:
  assumes "run_l1 (store_context b a) job (worker_start s) = (r, st)" "Ended t ok \<in> set (ws_acts st)"
  shows "\<exists>B. ws_acts st = claim_acts job @ B @ [Ended t ok] \<and> going_on B \<and> l1_trace B t"
  using l1_follows [OF assms(1)] assms(2)
  by (cases r) (auto simp: l1_run_def claim_acts_def split: if_splits dest: going_on_not_ended)

lemma handled_status:
  "handled eg e = Some (egress, code, t) \<Longrightarrow> te_status t \<in> {RunFailed, RunRefused, EgressBlocked} \<and> te_reason t = Some code"
  by (cases e) (auto split: if_splits)

text \<open>
  A run that the worker ends as answered has the whole protocol on record: the planner's
  receipt and plan, every tool call of the collection, at most five pieces of evidence, which are
  what was sent, the receipt of the answer, a verifier summary and the answered verdict, each
  stage started and finished in order. The verdict is the one of the answer outcome.
\<close>

theorem answered_run_leaves_full_trace:
  assumes "run_l1 (store_context b a) job (worker_start s) = (r, st)"
    and "Ended t ok \<in> set (ws_acts st)" "te_status t = RunAnswered"
  shows "\<exists>p m1 collected m2 outcome m3 m4.
    ws_acts st = claim_acts job @ planning_acts p m1 @ evidence_acts collected m2 @
      answer_acts (selected_evidence collected) outcome m3 m4 @ [Ended t ok] \<and>
    stored_trace b (ws_env st) = stored_trace b s @ concat (map act_rows (ws_acts st)) \<and>
    received a (ws_acts st) \<and> va_verdict (an_verified outcome) = Answered \<and> an_provider_error outcome = None"
proof -
  from ended_run_trace [OF assms(1,2)] obtain B where
    B: "ws_acts st = claim_acts job @ B @ [Ended t ok]" "l1_trace B t" by blast
  from B(2) assms(3) obtain p m1 collected m2 outcome m3 m4 where
    "B = planning_acts p m1 @ evidence_acts collected m2 @ answer_acts (selected_evidence collected) outcome m3 m4"
    "project_answer_outcome outcome = Inr t"
    by (cases rule: l1_trace.cases) (auto dest: handled_status)
  moreover from this(2) assms(3) have "va_verdict (an_verified outcome) = Answered \<and> an_provider_error outcome = None"
    by (auto simp: project_answer_outcome_def split: option.splits if_splits)
  moreover from l1_follows [OF assms(1)] assms(2) have
    "stored_trace b (ws_env st) = stored_trace b s @ concat (map act_rows (ws_acts st)) \<and> received a (ws_acts st)"
    by (cases r) (auto simp: traced_def dest: going_on_not_ended)
  ultimately show ?thesis using B(1)
    by (intro exI [of _ p] exI [of _ m1] exI [of _ collected] exI [of _ m2] exI [of _ outcome] exI [of _ m3] exI [of _ m4])
      simp
qed

text \<open>What became of \<open>_verifier_event\<close>'s twenty checks.\<close>

lemma undisclosed_check:
  "map_of (rev (map (\<lambda>d. (dc_content_hash d, d)) ds)) c = None \<longleftrightarrow> c \<notin> dc_content_hash ` set ds"
  by (auto simp: map_of_eq_None_iff image_iff)

lemma deduplicate_distinct_id:
  "distinct cs \<Longrightarrow> set cs \<inter> set seen = {} \<Longrightarrow> deduplicate seen cs = cs"
  by (induction cs arbitrary: seen) auto

lemma undisclosed_faults:
  assumes "distinct claimed" "set claimed \<inter> dc_content_hash ` set disclosed = {}"
    and "disclosed \<noteq> []" "text \<noteq> None" "text \<noteq> Some []" "claimed \<noteq> []"
  shows "\<exists>faults. verify_answer text claimed disclosed corpus False = Inr (make_refusal UnverifiableCitation faults) \<and>
    length faults = length claimed"
proof -
  let ?checks = "map (\<lambda>c. \<lparr>ck_evidence_id = c, ck_fault = Some NotDisclosed, ck_citation = None\<rparr>) claimed"
  have dedup: "deduplicate [] claimed = claimed" by (rule deduplicate_distinct_id) (use assms(1) in simp_all)
  have check: "check_citation (by_evidence_id disclosed) corpus c =
      Inr \<lparr>ck_evidence_id = c, ck_fault = Some NotDisclosed, ck_citation = None\<rparr>" if "c \<in> set claimed" for c
  proof -
    from that assms(2) have "by_evidence_id disclosed c = None"
      unfolding by_evidence_id_def undisclosed_check by blast
    then show ?thesis by (simp add: check_citation_def)
  qed
  then have checks: "map_result (check_citation (by_evidence_id disclosed) corpus) (deduplicate [] claimed) = Inr ?checks"
    by (simp add: dedup map_result_Inr_all2 list.rel_map list_all2_same)
  have len: "length (fault_texts ?checks) = length claimed"
    unfolding fault_texts_def by (induction claimed) (simp_all add: List.map_filter_def)
  with assms(6) have "fault_texts ?checks \<noteq> []" by auto
  with len checks assms(3-5) show ?thesis by (auto simp: verify_answer_def Let_def)
qed

text \<open>
  C39. A reply that cites more than twenty excerpts that were not disclosed, of the thirty-two a
  reply may cite, strands its run. The answer path refuses it as unverifiable, but the summary of
  its faults does not fit the twenty checks of a verifier event, so that the run never ends: the
  worker writes no terminal state once it has the answer.
\<close>

theorem unreportable_faults_strand_run:
  assumes "\<And>q es e. \<exists>e'. wa_answer a q es e = (Inr outcome, e')"
    and "verify_answer text claimed disclosed corpus False = Inr (an_verified outcome)"
    and "distinct claimed" "set claimed \<inter> dc_content_hash ` set disclosed = {}" "20 < length claimed"
    and "disclosed \<noteq> []" "text \<noteq> None" "text \<noteq> Some []"
    and "run_l1 (store_context b a) job (worker_start s) = (r, st)" "GotAnswer es x \<in> set (ws_acts st)"
  shows "va_refusal_reason (an_verified outcome) = Some UnverifiableCitation \<and> \<not> list_ex is_ended (ws_acts st)"
proof -
  from assms(5) have "claimed \<noteq> []" by auto
  from undisclosed_faults [OF assms(3,4,6-8) this, of corpus] assms(2) obtain faults where
    v: "an_verified outcome = make_refusal UnverifiableCitation faults" "length faults = length claimed"
    by auto
  have "Ended t ok \<notin> set (ws_acts st)" for t ok
  proof
    assume ended: "Ended t ok \<in> set (ws_acts st)"
    from ended_run_trace [OF assms(9) ended] obtain B where
      B: "ws_acts st = claim_acts job @ B @ [Ended t ok]" "going_on B" "l1_trace B t" by blast
    from assms(10) B(1) have "GotAnswer es x \<in> set B" by (auto simp: claim_acts_def split: if_splits)
    with B(3) obtain m where *: "Appended (verifier_event x m) \<in> set B"
      by (cases rule: l1_trace.cases) (auto simp: planning_acts_def evidence_acts_def answer_acts_def failure_acts_def
          stage_started_def stage_finished_def split: option.splits)
    from l1_follows [OF assms(9)] ended have "received a (ws_acts st)"
      by (cases r) (auto simp: traced_def dest: going_on_not_ended)
    with assms(10) obtain q e e' where "wa_answer a q es e = (Inr x, e')" unfolding received_def by blast
    with assms(1) [of q es e] have "x = outcome" by auto
    with * v assms(5) B(2) show False
      by (auto simp: going_on_def verifier_event_def Let_def make_refusal_def split: option.splits if_splits)
  qed
  then have "\<not> list_ex is_ended (ws_acts st)" by (auto simp: list_ex_iff is_ended_def split: worker_act.splits)
  with v show ?thesis by (simp add: make_refusal_def)
qed

end
