(* ===== verification/WorkerProgress.thy ===== *)
theory WorkerProgress
  imports WorkerTheorems
begin

text \<open>
  What an L1 run of the worker does when nothing stands in its way: the store works, every call
  comes within a lease that the claim or a heartbeat was granted, and the agents answer with what
  can be recorded. Heartbeats may come before any call.
\<close>

section \<open>The lease\<close>

definition recordable :: "event_body \<Rightarrow> bool" where
  "recordable body \<longleftrightarrow> body_valid body \<and> stored_body_ok body \<and> \<not> is_transition body"

definition call_time :: "worker_binding \<Rightarrow> nat \<Rightarrow> int" where
  "call_time b n = (case wb_clock b n of None \<Rightarrow> 0 | Some t \<Rightarrow> t)"

text \<open>The end of the lease that the store grants at a call.\<close>

definition grant :: "worker_binding \<Rightarrow> nat \<Rightarrow> int" where
  "grant b n = call_time b n + microseconds (wb_lease_seconds b)"

text \<open>
  The store works from the claim, call \<open>n0\<close>, on, its clock never reads a time before the claim, and
  every call comes before the end of the claim's lease or before what a heartbeat was granted
  earlier. Only a call's own number tells whether it is a heartbeat; but of two numbers in a row
  that beat at least one is.
\<close>

definition renewed :: "worker_binding \<Rightarrow> nat \<Rightarrow> bool" where
  "renewed b k \<longleftrightarrow> wb_beats b k \<and> wb_beats b (Suc k)"

definition in_time :: "worker_binding \<Rightarrow> nat \<Rightarrow> bool" where
  "in_time b n0 \<longleftrightarrow> trace_identifier (wb_worker_id b) \<and> 0 < wb_lease_seconds b \<and>
     (\<forall>n \<ge> n0. wb_fault b n = NoFault \<and> wb_clock b n \<noteq> None \<and> call_time b n0 \<le> call_time b n) \<and>
     (\<forall>n > n0. call_time b n < grant b n0 \<or>
       (\<exists>k. n0 < k \<and> Suc k < n \<and> renewed b k \<and> call_time b n < grant b k \<and> call_time b n < grant b (Suc k)))"

text \<open>A lease that ends at \<open>e\<close> is at least what was granted before call \<open>n\<close>.\<close>

definition covers :: "worker_binding \<Rightarrow> nat \<Rightarrow> nat \<Rightarrow> int \<Rightarrow> bool" where
  "covers b n0 n e \<longleftrightarrow> grant b n0 \<le> e \<and>
     (\<forall>k. n0 < k \<and> Suc k < n \<and> renewed b k \<longrightarrow> grant b k \<le> e \<or> grant b (Suc k) \<le> e)"

lemma covers_mono: "covers b n0 n e \<Longrightarrow> m \<le> n \<Longrightarrow> covers b n0 m e"
  by (auto simp: covers_def)

lemma covers_later: "covers b n0 n e \<Longrightarrow> e \<le> e' \<Longrightarrow> covers b n0 n e'"
  unfolding covers_def by (meson order_trans)

text \<open>A heartbeat at \<open>n\<close> covers the next call as well; no heartbeat there, and no two numbers both beat.\<close>

lemma covers_beat:
  assumes "covers b n0 n e" and "wb_beats b n \<Longrightarrow> grant b n \<le> e"
  shows "covers b n0 (Suc (Suc n)) e"
proof -
  have "grant b k \<le> e \<or> grant b (Suc k) \<le> e" if "n0 < k" "Suc k < Suc (Suc n)" "renewed b k" for k
  proof -
    from that(2) consider "Suc k < n" | "Suc k = n" | "k = n" by linarith
    then show ?thesis using assms that(1,3) by cases (auto simp: covers_def renewed_def)
  qed
  with assms(1) show ?thesis by (auto simp: covers_def)
qed

lemma timely:
  assumes "in_time b n0" "n0 < n" "covers b n0 n e"
  shows "wb_fault b n = NoFault" "wb_clock b n = Some (call_time b n)" "call_time b n0 \<le> call_time b n"
    "call_time b n < e"
proof -
  from assms(1,2) show "wb_fault b n = NoFault" "call_time b n0 \<le> call_time b n"
    by (auto simp: in_time_def)
  from assms(1,2) have "wb_clock b n \<noteq> None" by (auto simp: in_time_def)
  then show "wb_clock b n = Some (call_time b n)" by (auto simp: call_time_def)
  from assms show "call_time b n < e" unfolding in_time_def covers_def by (meson less_le_trans)
qed

definition held_row :: "worker_binding \<Rightarrow> nat \<Rightarrow> nat \<Rightarrow> run_record \<Rightarrow> bool" where
  "held_row b n0 n r \<longleftrightarrow> rn_status r = Running \<and> rn_lease_owner r = Some (wb_worker_id b) \<and>
     rn_started_at r = Some (call_time b n0) \<and> (\<exists>e. rn_lease_expires_at r = Some e \<and> covers b n0 n e)"

definition open_run :: "worker_binding \<Rightarrow> nat \<Rightarrow> nat \<Rightarrow> nat \<Rightarrow> run_tables \<Rightarrow> bool" where
  "open_run b n0 n k db \<longleftrightarrow> run_store_ok db \<and> (\<exists>r. find_run db (wb_run_id b) = Some r \<and> held_row b n0 n r) \<and>
     length (events_of db (wb_run_id b)) + k \<le> 10000"

lemma open_run_mono: "open_run b n0 n k db \<Longrightarrow> m \<le> n \<Longrightarrow> j \<le> k \<Longrightarrow> open_run b n0 m j db"
  by (auto simp: open_run_def held_row_def intro: covers_mono)

lemma held_lease:
  assumes "in_time b n0" "n0 < n" "held_row b n0 n r"
  shows "holds_lease r (wb_worker_id b) (call_time b n)" "\<not> lease_expired r (call_time b n)"
    "activity_floor r \<le> call_time b n"
proof -
  from assms(3) obtain e where e: "rn_status r = Running" "rn_lease_owner r = Some (wb_worker_id b)"
    "rn_started_at r = Some (call_time b n0)" "rn_lease_expires_at r = Some e" "covers b n0 n e"
    by (auto simp: held_row_def)
  note T = timely [OF assms(1,2) e(5)]
  from e T show "holds_lease r (wb_worker_id b) (call_time b n)" "\<not> lease_expired r (call_time b n)"
    "activity_floor r \<le> call_time b n"
    by (simp_all add: holds_lease_def lease_expired_def activity_floor_def)
qed

section \<open>The store accepts\<close>

lemma find_run_updated:
  assumes "update_run r' db = Inr db'" "find_run db (rn_run_id r') \<noteq> None"
  shows "find_run db' (rn_run_id r') = Some r'"
proof -
  have "find (\<lambda>r. rn_run_id r = rn_run_id r') (map (\<lambda>x. if rn_run_id x = rn_run_id r' then r' else x) rs) = Some r'"
    if "rn_run_id r' \<in> rn_run_id ` set rs" for rs
    using that by (induction rs) auto
  with assms show ?thesis by (simp add: find_run_None update_run_Inr) (auto simp: find_run_def)
qed

lemma next_event_free:
  assumes "run_store_ok db" "find_run db i = Some r" "length (events_of db i) < 10000"
  shows "next_sequence db i \<le> 10000 \<and> 1 \<le> next_sequence db i \<and>
    next_sequence db i \<notin> re_sequence ` set (events_of db i)"
proof -
  from assms(1,2) have "trace_ok (events_of db i)"
    by (auto simp: run_store_ok_def run_ok_def dest!: find_run_Some)
  moreover from this have "next_sequence db i = Suc (length (events_of db i))"
    by (rule next_sequence_trace)
  moreover from \<open>trace_ok _\<close> have "re_sequence ` set (events_of db i) = {1..<Suc (length (events_of db i))}"
    by (metis atLeastLessThan_upt set_map trace_ok_def)
  ultimately show ?thesis using assms(3) by simp
qed

lemma room_in_trace:
  assumes "open_run b n0 n (Suc k) db"
  shows "next_sequence db (wb_run_id b) \<le> 10000 \<and> 1 \<le> next_sequence db (wb_run_id b) \<and>
    next_sequence db (wb_run_id b) \<notin> re_sequence ` set (events_of db (wb_run_id b))"
  using assms next_event_free [of db "wb_run_id b"] by (auto simp: open_run_def)

text \<open>The claim of a queued run.\<close>

lemma claim_run_works:
  assumes timed: "in_time b n0" and ok: "run_store_ok db" and found: "find_run db (wb_run_id b) = Some r"
    and queued: "rn_status r = Queued" "rn_created_at r \<le> call_time b n0" "\<not> lease_expired r (call_time b n0)"
    and room: "length (events_of db (wb_run_id b)) + Suc k \<le> 10000"
  shows "\<exists>db'. claim_run (wb_fault b n0) (wb_clock b n0) (wb_run_id b) (wb_worker_id b) (wb_lease_seconds b) db = (Inr True, db') \<and>
    open_run b n0 (Suc n0) k db'"
proof -
  let ?i = "wb_run_id b" and ?t = "call_time b n0"
  from timed have call: "wb_fault b n0 = NoFault" "wb_clock b n0 = Some ?t" "trace_identifier (wb_worker_id b)"
    "0 < wb_lease_seconds b" by (auto simp: in_time_def call_time_def)
  let ?r = "r\<lparr>rn_status := Running, rn_started_at := Some ?t, rn_lease_owner := Some (wb_worker_id b),
     rn_lease_expires_at := Some (?t + microseconds (wb_lease_seconds b)), rn_last_heartbeat_at := Some ?t\<rparr>"
  from find_run_Some [OF found] have id: "rn_run_id r = ?i" by simp
  from in_store [OF ok found] have "run_row_ok r" by simp
  then have "run_row_ok ?r"
    using queued call(3,4)
    by (auto simp: run_row_ok_def run_fields_valid_def state_and_lease_agree_def timestamps_agree_def activity_floor_def
        level_bindings_agree_def is_nonterminal_def optional_simps microseconds_def)
  then obtain db1 where row: "update_run ?r db = Inr db1" "tb_events db1 = tb_events db"
    by (auto simp: update_run_def)
  let ?event = "\<lparr>re_sequence = next_sequence db ?i, re_body = StateTransition (Some Queued) Running None\<rparr>"
  from next_event_free [OF ok found] room have free: "event_valid ?event" "re_sequence ?event \<notin> re_sequence ` set (events_of db ?i)"
    by (simp_all add: event_valid_def optional_simps)
  have found1: "find_run db1 ?i = Some ?r"
    using find_run_updated [OF row(1)] found by (simp add: id)
  have events: "events_of db1 ?i = events_of db ?i" using row(2) by (simp add: events_of_def)
  let ?db = "db1\<lparr>tb_events := tb_events db1 @ [\<lparr>er_row_run_id = ?i, er_row_event = ?event, er_row_recorded_at = ?t\<rparr>]\<rparr>"
  have run: "claim_run (wb_fault b n0) (wb_clock b n0) ?i (wb_worker_id b) (wb_lease_seconds b) db = (Inr True, ?db)"
    using free call found queued row(1) found1
    by (simp add: claim_run_def run_transact_def allocated_event_def insert_event_def events del: set_map)
  from claim_run_changes [OF run ok] ok have "run_store_ok ?db" by (blast intro: changes_ok)
  moreover have "find_run ?db ?i = Some ?r" using found1 by (simp add: find_run_def)
  moreover have "held_row b n0 (Suc n0) ?r" by (simp add: held_row_def covers_def grant_def)
  moreover have "length (events_of ?db ?i) + k \<le> 10000" using room row(2) by (simp add: events_of_def)
  ultimately show ?thesis using run by (auto simp: open_run_def)
qed

text \<open>A heartbeat, and what its absence keeps.\<close>

lemma heartbeat_works:
  assumes timed: "in_time b n0" "n0 < n" and "open_run b n0 n k db"
  shows "\<exists>db'. heartbeat (wb_fault b n) (wb_clock b n) (wb_run_id b) (wb_worker_id b) (wb_lease_seconds b) db = (Inr True, db') \<and>
    open_run b n0 (Suc (Suc n)) k db'"
proof -
  let ?i = "wb_run_id b" and ?t = "call_time b n" and ?L = "microseconds (wb_lease_seconds b)"
  from assms(3) obtain r e where r: "run_store_ok db" "find_run db ?i = Some r" "held_row b n0 n r"
    "rn_lease_expires_at r = Some e" "covers b n0 n e" by (auto simp: open_run_def held_row_def)
  note T = timely [OF timed r(5)] and H = held_lease [OF timed r(3)]
  from timed(1) have L: "trace_identifier (wb_worker_id b)" "0 < ?L" "0 < wb_lease_seconds b"
    by (auto simp: in_time_def microseconds_def)
  let ?r = "r\<lparr>rn_lease_expires_at := map_option (max (?t + ?L)) (rn_lease_expires_at r), rn_last_heartbeat_at := Some ?t\<rparr>"
  from find_run_Some [OF r(2)] have id: "rn_run_id r = ?i" by simp
  from in_store [OF r(1,2)] have "run_row_ok r" by simp
  moreover have "activity_floor ?r = activity_floor r" by (simp add: activity_floor_def split: option.split)
  ultimately have "run_row_ok ?r"
    using r(3,4) H(3) L(2)
    by (auto simp: run_row_ok_def run_fields_valid_def state_and_lease_agree_def timestamps_agree_def
        level_bindings_agree_def is_nonterminal_def optional_simps held_row_def)
  then obtain db' where row: "update_run ?r db = Inr db'" "tb_events db' = tb_events db"
    by (auto simp: update_run_def)
  have run: "heartbeat (wb_fault b n) (wb_clock b n) ?i (wb_worker_id b) (wb_lease_seconds b) db = (Inr True, db')"
    using r(2) T(1,2) H(1) L(1,3) row(1) by (simp add: heartbeat_def run_transact_def)
  from heartbeat_changes [OF run r(1)] r(1) have "run_store_ok db'" by (blast intro: changes_ok)
  moreover have "find_run db' ?i = Some ?r" using find_run_updated [OF row(1)] r(2) by (simp add: id)
  moreover have "held_row b n0 (Suc (Suc n)) ?r"
    using r(3,4) covers_beat [OF covers_later [OF r(5)], of "max (?t + ?L) e"] by (simp add: held_row_def grant_def)
  moreover have "length (events_of db' ?i) + k \<le> 10000" using assms(3) row(2) by (simp add: open_run_def events_of_def)
  ultimately show ?thesis using run by (auto simp: open_run_def)
qed

lemma no_heartbeat_keeps: "open_run b n0 n k db \<Longrightarrow> \<not> wb_beats b n \<Longrightarrow> open_run b n0 (Suc (Suc n)) k db"
  by (auto simp: open_run_def held_row_def intro: covers_beat)

lemma append_event_works:
  assumes timed: "in_time b n0" "n0 < n" and "open_run b n0 m (Suc k) db" "n \<le> m" "recordable body"
  shows "\<exists>ev db'. append_event (wb_fault b n) (wb_clock b n) (wb_run_id b) (wb_worker_id b) (trace_event body) db = (Inr ev, db') \<and>
    open_run b n0 m k db'"
proof -
  let ?i = "wb_run_id b" and ?t = "call_time b n"
  from assms(3) obtain r where r: "run_store_ok db" "find_run db ?i = Some r" "held_row b n0 m r" by (auto simp: open_run_def)
  then have held: "held_row b n0 n r" using assms(4) by (auto simp: held_row_def intro: covers_mono)
  then obtain e where "covers b n0 n e" by (auto simp: held_row_def)
  note T = timely [OF timed this] and H = held_lease [OF timed held]
  let ?ev = "\<lparr>re_sequence = next_sequence db ?i, re_body = body\<rparr>"
  let ?db = "db\<lparr>tb_events := tb_events db @ [\<lparr>er_row_run_id = ?i, er_row_event = ?ev, er_row_recorded_at = ?t\<rparr>]\<rparr>"
  from room_in_trace [OF assms(3)] assms(5) have ev: "event_valid ?ev" by (simp add: event_valid_def recordable_def)
  from timed(1) have "trace_identifier (wb_worker_id b)" by (simp add: in_time_def)
  with assms(5) T H ev r(2) room_in_trace [OF assms(3)] have
    run: "append_event (wb_fault b n) (wb_clock b n) ?i (wb_worker_id b) (trace_event body) db = (Inr ?ev, ?db)"
    by (simp add: append_event_def run_transact_def recordable_def trace_event_def
        allocated_event_def insert_event_def event_valid_def del: list.set_map set_filter)
  from r(1) append_event_changes [OF run] have ok: "run_store_ok ?db" by (auto dest: changes_ok)
  have "find_run ?db ?i = Some r" using r(2) by (simp add: find_run_def)
  moreover have "length (events_of ?db ?i) + k \<le> 10000" using assms(3) by (simp add: open_run_def events_of_def)
  ultimately show ?thesis using run ok r(3) by (auto simp: open_run_def)
qed

lemma ended_row_valid:
  assumes "run_row_ok r" "rn_status r = Running" "activity_floor r \<le> t"
    and "status_is_terminal status reason" "optional terminal_reason reason"
  shows "run_row_ok (ended_run r status reason t)"
proof -
  have "activity_floor (ended_run r status reason t) = activity_floor r"
    by (simp add: activity_floor_def ended_run_def split: option.split)
  moreover from assms(1,5) have "run_fields_valid (r\<lparr>rn_terminal_reason := reason, rn_lease_owner := None\<rparr>)"
    by (simp add: run_row_ok_def run_fields_valid_def optional_simps)
  ultimately show ?thesis
    using assms by (auto simp: run_row_ok_def state_and_lease_agree_def timestamps_agree_def
        ended_run_simps optional_simps is_nonterminal_def status_is_terminal_def)
qed

definition ended_as :: "run_tables \<Rightarrow> string \<Rightarrow> terminal \<Rightarrow> bool" where
  "ended_as db i t \<longleftrightarrow> (\<exists>r. find_run db i = Some r \<and> rn_status r = te_status t \<and> rn_terminal_reason r = te_reason t)"

lemma complete_run_works:
  assumes timed: "in_time b n0" "n0 < n" and "open_run b n0 m (Suc k) db" "n \<le> m"
    and body: "body_valid (TerminalEvent (te_status t) (te_reason t))"
  shows "\<exists>db'. complete_run (wb_fault b n) (wb_clock b n) (wb_run_id b) (wb_worker_id b) (terminal_event t) db = (Inr True, db') \<and>
    ended_as db' (wb_run_id b) t"
proof -
  let ?i = "wb_run_id b" and ?t = "call_time b n"
  from assms(3) obtain r where r: "run_store_ok db" "find_run db ?i = Some r" "held_row b n0 m r" by (auto simp: open_run_def)
  then have held: "held_row b n0 n r" using assms(4) by (auto simp: held_row_def intro: covers_mono)
  then obtain e where "covers b n0 n e" by (auto simp: held_row_def)
  note T = timely [OF timed this] and H = held_lease [OF timed held]
  let ?r = "ended_run r (te_status t) (te_reason t) ?t"
  from in_store [OF r(1,2)] have "run_row_ok r" by simp
  with held body H(3) have row: "run_row_ok ?r" by (intro ended_row_valid) (simp_all add: held_row_def)
  let ?ev = "\<lparr>re_sequence = next_sequence db ?i, re_body = TerminalEvent (te_status t) (te_reason t)\<rparr>"
  let ?db = "db\<lparr>tb_events := tb_events db @ [\<lparr>er_row_run_id = ?i, er_row_event = ?ev, er_row_recorded_at = ?t\<rparr>]\<rparr>"
  from row obtain db1 where db1: "update_run ?r ?db = Inr db1" by (auto simp: update_run_def)
  from find_run_Some [OF r(2)] have same: "rn_run_id ?r = ?i" by (simp add: ended_run_def)
  have "find_run ?db ?i \<noteq> None" using r(2) by (simp add: find_run_def)
  with find_run_updated [OF db1] have found: "find_run db1 ?i = Some ?r" unfolding same by simp
  from timed(1) have "trace_identifier (wb_worker_id b)" by (simp add: in_time_def)
  with T H held r(2) body room_in_trace [OF assms(3)] db1 have
    "complete_run (wb_fault b n) (wb_clock b n) ?i (wb_worker_id b) (terminal_event t) db = (Inr True, db1)"
    by (simp add: complete_run_def run_transact_def terminal_event_def event_valid_def
        insert_event_def held_row_def is_nonterminal_def del: list.set_map set_filter)
  moreover from found have "ended_as db1 ?i t" by (simp add: ended_as_def ended_run_simps)
  ultimately show ?thesis by blast
qed

section \<open>The worker goes on\<close>

definition steady :: "worker_binding \<Rightarrow> nat \<Rightarrow> nat \<Rightarrow> worker_act list \<Rightarrow> 'e store_env worker_state \<Rightarrow> bool" where
  "steady b n0 k A st \<longleftrightarrow> ws_acts st = A \<and> \<not> ws_lost st \<and> \<not> se_lease_lost (ws_env st) \<and> in_time b n0 \<and>
     n0 < se_calls (ws_env st) \<and> open_run b n0 (se_calls (ws_env st)) k (se_tables (ws_env st))"

lemma steady_less: "steady b n0 k A st \<Longrightarrow> j \<le> k \<Longrightarrow> steady b n0 j A st"
  by (auto simp: steady_def intro: open_run_mono)

text \<open>\<open>works E m Q\<close>: \<open>m\<close> answers as \<open>Q\<close> says; an exception is not excluded if \<open>E\<close> allows it.\<close>

definition works :: "(l2_exception \<Rightarrow> 's \<Rightarrow> bool) \<Rightarrow> ('s, 'a) action \<Rightarrow> ('a \<Rightarrow> 's \<Rightarrow> bool) \<Rightarrow> 's \<Rightarrow> bool" where
  "works E m Q st \<longleftrightarrow> wp m Q E st"

lemma works_simps:
  "works E (ret x) P = P x"
  "works E (bind_l2 m f) Q = works E m (\<lambda>y. works E (f y) Q)"
  "works E (update_l2 g) R st = R () (g st)"
  by (simp_all add: works_def [abs_def] wp_simps)

text \<open>Before a call: its heartbeat, if there is one, is confirmed.\<close>

lemma steady_beat:
  assumes "steady b n0 k A st"
  obtains db' where "beat b (ws_env st) = (ws_env st)\<lparr>se_calls := Suc (se_calls (ws_env st)), se_tables := db'\<rparr>"
    "open_run b n0 (Suc (Suc (se_calls (ws_env st)))) k db'"
proof (cases "wb_beats b (se_calls (ws_env st))")
  case True
  from assms heartbeat_works [of b n0 "se_calls (ws_env st)" k "se_tables (ws_env st)"] obtain db' where
    db': "heartbeat (wb_fault b (se_calls (ws_env st))) (wb_clock b (se_calls (ws_env st))) (wb_run_id b) (wb_worker_id b)
      (wb_lease_seconds b) (se_tables (ws_env st)) = (Inr True, db')" "open_run b n0 (Suc (Suc (se_calls (ws_env st)))) k db'"
    by (auto simp: steady_def)
  with True assms show ?thesis by (intro that [of db']) (simp_all add: beat_def Let_def steady_def)
next
  case False
  with assms show ?thesis
    by (intro that [of "se_tables (ws_env st)"]) (simp_all add: beat_def Let_def steady_def no_heartbeat_keeps)
qed

lemma works_acted:
  assumes "op (ws_env st) = (Inr x, s)" "Q x (note_act (act x) (st\<lparr>ws_env := s\<rparr>))"
  shows "works E (acted act op) Q st"
  using assms by (simp add: works_def wp_def acted_def perform_def bind_l2_def update_l2_def ret_def)

lemma works_append:
  assumes "steady b n0 (Suc k) A st" "recordable body"
    and "\<And>st1. steady b n0 k (A @ [Appended body]) st1 \<Longrightarrow> Q () st1"
  shows "works E (append_event_body (store_context b a) body) Q st"
proof -
  let ?s = "ws_env st"
  obtain db1 where beat: "beat b ?s = ?s\<lparr>se_calls := Suc (se_calls ?s), se_tables := db1\<rparr>"
    "open_run b n0 (Suc (Suc (se_calls ?s))) (Suc k) db1" by (rule steady_beat [OF assms(1)])
  from assms(1) have "in_time b n0" "n0 < Suc (se_calls ?s)" by (auto simp: steady_def)
  from append_event_works [OF this beat(2) _ assms(2)] obtain ev db' where
    step: "append_event (wb_fault b (Suc (se_calls ?s))) (wb_clock b (Suc (se_calls ?s))) (wb_run_id b) (wb_worker_id b)
      (trace_event body) db1 = (Inr ev, db')" "open_run b n0 (Suc (Suc (se_calls ?s))) k db'"
    by auto
  let ?s1 = "?s\<lparr>se_calls := Suc (Suc (se_calls ?s)), se_tables := db'\<rparr>"
  from step(1) have call: "wx_append (store_context b a) (trace_event body) ?s = (Inr ev, ?s1)"
    by (simp add: store_context_def store_call_def Let_def beat(1))
  from assms(2) have valid: "event_valid (trace_event body)" by (simp add: recordable_def event_valid_def trace_event_def)
  from assms(1) step(2) have "steady b n0 k (A @ [Appended body]) (note_act (Appended body) (st\<lparr>ws_env := ?s1\<rparr>))"
    by (simp add: steady_def note_act_def)
  note now = assms(3) [OF this]
  have "works E (acted (\<lambda>_. Appended body) (wx_append (store_context b a) (trace_event body))) (\<lambda>_. Q ()) st"
    by (rule works_acted, rule call, rule now)
  with valid show ?thesis by (simp add: append_event_body_def works_simps)
qed

lemma works_lease:
  "steady b n0 k A st \<Longrightarrow> works E (lease_lost (store_context b a)) Q st \<longleftrightarrow> Q False st"
  by (simp add: works_def wp_def lease_lost_def steady_def store_context_def)

lemma works_fenced:
  assumes "works E m (\<lambda>x st1. \<exists>k A. steady b n0 k A st1 \<and> works E (rest x) Q st1) st"
  shows "works E (fenced (store_context b a) m rest) Q st"
proof -
  have "works E (unless_lost (store_context b a) (rest x)) Q st1" if "steady b n0 k A st1" "works E (rest x) Q st1" for x st1 k A
    using that by (simp add: unless_lost_def works_simps works_lease [OF that(1)])
  with assms show ?thesis
    unfolding fenced_def works_simps unfolding works_def
    by (elim wp_mono) auto
qed

lemma works_fenced_append:
  assumes "steady b n0 (Suc k) A st" "recordable body"
    and "\<And>st1. steady b n0 k (A @ [Appended body]) st1 \<Longrightarrow> works E (rest ()) Q st1"
  shows "works E (fenced (store_context b a) (append_event_body (store_context b a) body) rest) Q st"
  by (rule works_fenced, rule works_append [OF assms(1,2)]) (use assms(3) in blast)

lemma works_enter:
  assumes "steady b n0 (Suc k) A st" "recordable (agent_event agent step PhaseStarted None None)"
    and "\<And>st1. steady b n0 k (A @ [stage_started agent step]) st1 \<Longrightarrow> works E (rest ()) Q st1"
  shows "works E (fenced (store_context b a) (enter_stage (store_context b a) agent step) rest) Q st"
  by (rule works_fenced, unfold enter_stage_def works_simps, rule works_append [OF _ assms(2)])
    (use assms(1,3) in \<open>auto simp: steady_def stage_started_def\<close>)

lemma works_elapsed:
  assumes "steady b n0 k A st" "\<And>e. fst (wa_elapsed a e) \<le> 3600000"
    and "\<And>ms st1. ms \<le> 3600000 \<Longrightarrow> steady b n0 k A st1 \<Longrightarrow> Q ms st1"
  shows "works E (elapsed (store_context b a)) Q st"
  using assms(1) assms(2) [of "se_agents (ws_env st)"]
  by (auto simp: elapsed_def works_def wp_def perform_def store_context_def steady_def
      intro!: assms(3) split: prod.splits)

lemma works_leave:
  assumes "steady b n0 (Suc k) A st" "\<And>e. fst (wa_elapsed a e) \<le> 3600000"
    and "\<And>ms. ms \<le> 3600000 \<Longrightarrow> recordable (agent_event agent step PhaseFinished (Some ms) code)"
    and "\<And>ms st1. steady b n0 k (A @ [stage_finished agent step ms code]) st1 \<Longrightarrow> Q () st1"
  shows "works E (leave_stage (store_context b a) agent step code) Q st"
proof (unfold leave_stage_def works_simps, rule works_elapsed [OF assms(1,2)], rule works_append, assumption,
    rule assms(3), assumption, rule assms(4))
qed (simp add: steady_def stage_finished_def)

text \<open>An answer of an agent, whatever it is, that has the property \<open>P\<close>.\<close>

lemma works_agent:
  assumes "steady b n0 k A st" "\<And>e. \<exists>x e'. op e = (Inr x, e') \<and> P x"
    and "\<And>x st1. P x \<Longrightarrow> steady b n0 k (A @ [act x]) st1 \<Longrightarrow> works E (rest x) Q st1"
  shows "works E (fenced (store_context b a) (acted act (agent_call b op)) rest) Q st"
proof -
  obtain x e' where x: "op (se_agents (ws_env st)) = (Inr x, e')" "P x" using assms(2) by blast
  obtain db' where beat: "beat b (ws_env st) = (ws_env st)\<lparr>se_calls := Suc (se_calls (ws_env st)), se_tables := db'\<rparr>"
    "open_run b n0 (Suc (Suc (se_calls (ws_env st)))) k db'" by (rule steady_beat [OF assms(1)])
  let ?s = "(ws_env st)\<lparr>se_calls := Suc (se_calls (ws_env st)), se_tables := db', se_agents := e'\<rparr>"
  from x(1) have call: "agent_call b op (ws_env st) = (Inr x, ?s)"
    by (simp add: agent_call_def Let_def beat(1))
  from assms(1) open_run_mono [OF beat(2), of "Suc (se_calls (ws_env st))" k]
  have now: "steady b n0 k (A @ [act x]) (note_act (act x) (st\<lparr>ws_env := ?s\<rparr>))"
    by (simp add: steady_def note_act_def)
  show ?thesis
    by (rule works_fenced, rule works_acted, rule call) (use now assms(3) [OF x(2) now] in blast)
qed

lemma works_tools:
  assumes "steady b n0 (length cs + k) A st" "\<And>c. c \<in> set cs \<Longrightarrow> recordable (tool_event c)"
    and "\<And>st1. steady b n0 k (A @ map (\<lambda>c. Appended (tool_event c)) cs) st1 \<Longrightarrow> Q () st1"
  shows "works E (append_tool_summaries (store_context b a) cs) Q st"
  using assms
proof (induction cs arbitrary: A st)
  case (Cons c cs)
  show ?case
    unfolding append_tool_summaries.simps works_simps
    by (rule works_append [where k = "length cs + k" and A = A], use Cons.prems(1) in simp, use Cons.prems(2) in simp,
        rule Cons.IH, assumption, use Cons.prems(2) in simp, use Cons.prems(3) in simp)
qed (simp add: works_simps)

section \<open>The stages\<close>

definition all_recordable :: "worker_act list \<Rightarrow> bool" where
  "all_recordable A \<longleftrightarrow> (\<forall>body. Appended body \<in> set A \<longrightarrow> recordable body)"

lemma works_planning:
  assumes "steady b n0 (Suc (Suc (Suc (Suc k)))) A st" "\<And>e. fst (wa_elapsed a e) \<le> 3600000"
    and plans: "\<And>q e. \<exists>p e'. wa_plan a q e = (Inr p, e') \<and> P p"
    and ok: "\<And>p m. P p \<Longrightarrow> m \<le> 3600000 \<Longrightarrow> all_recordable (planning_acts p m)"
    and "\<And>p m st1. P p \<Longrightarrow> steady b n0 k (A @ planning_acts p m) st1 \<Longrightarrow> works E (rest (sr_product p)) Q st1"
  shows "works E (planning_stage (store_context b a) job rest) Q st"
proof -
  have plan: "wx_plan (store_context b a) = (\<lambda>question. agent_call b (wa_plan a question))"
    by (simp add: store_context_def)
  have rows: "recordable (agent_event Orchestrator ''planning'' PhaseStarted None None)"
    "recordable (planning_egress_event p)"
    "recordable (PlanSummary (tp_plan_id (sr_product p)) (length (tp_steps (sr_product p))) 6)"
    "m \<le> 3600000 \<Longrightarrow> recordable (agent_event Orchestrator ''planning'' PhaseFinished (Some m) None)" if "P p" for p m
    using ok [OF that, of 0] ok [OF that, of m]
    by (simp_all add: all_recordable_def planning_acts_def stage_started_def stage_finished_def)
  from plans obtain p0 where "P p0" by blast
  show ?thesis
    unfolding planning_stage_def plan Let_def
  proof (rule works_enter [OF assms(1) rows(1) [OF \<open>P p0\<close>]], erule works_agent, rule plans, goal_cases)
    case (1 st1 p st2)
    note R = rows [OF 1(1)]
    show ?case
      by (rule works_fenced_append [OF 1(2) R(2)], erule works_fenced_append, rule R(3),
          rule works_fenced, erule works_leave, rule assms(2), rule R(4), assumption,
          intro exI conjI, assumption, rule assms(5) [OF 1(1)]) (simp add: planning_acts_def)
  qed
qed

lemma works_evidence:
  assumes "steady b n0 (Suc (8 + Suc (Suc k))) A st" "\<And>e. fst (wa_elapsed a e) \<le> 3600000"
    and collects: "\<And>plan corpus e. \<exists>c e'. wa_collect a plan corpus e = (Inr c, e') \<and> P c"
    and ok: "\<And>c m. P c \<Longrightarrow> m \<le> 3600000 \<Longrightarrow> all_recordable (evidence_acts c m)"
    and few: "\<And>c. P c \<Longrightarrow> length (er_calls c) \<le> 8"
    and "\<And>c m st1. P c \<Longrightarrow> steady b n0 k (A @ evidence_acts c m) st1 \<Longrightarrow> works E (rest (selected_evidence c)) Q st1"
  shows "works E (evidence_stage (store_context b a) job plan rest) Q st"
proof -
  have collect: "wx_collect (store_context b a) = (\<lambda>plan corpus. agent_call b (wa_collect a plan corpus))"
    by (simp add: store_context_def)
  have rows: "recordable (agent_event EvidenceAgentName ''evidence'' PhaseStarted None None)"
    "recordable (evidence_event (selected_evidence c))"
    "x \<in> set (er_calls c) \<Longrightarrow> recordable (tool_event x)"
    "m \<le> 3600000 \<Longrightarrow> recordable (agent_event EvidenceAgentName ''evidence'' PhaseFinished (Some m) None)"
    if "P c" for c m x
    using ok [OF that, of 0] ok [OF that, of m]
    by (auto simp: all_recordable_def evidence_acts_def stage_started_def stage_finished_def)
  from collects obtain c0 where "P c0" by blast
  show ?thesis
    unfolding evidence_stage_def collect Let_def selected_evidence_def [symmetric]
  proof (rule works_enter [OF assms(1) rows(1) [OF \<open>P c0\<close>]], erule works_agent, rule collects, goal_cases)
    case (1 st1 c st2)
    note R = rows [OF 1(1)]
    have tools: "steady b n0 (length (er_calls c) + Suc (Suc k))
        ((A @ [stage_started EvidenceAgentName ''evidence'']) @ [GotEvidence c]) st2"
      using few [OF 1(1)] by (intro steady_less [OF 1(2)]) simp
    show ?case
      by (rule works_fenced, rule works_tools [OF tools R(3)], assumption, intro exI conjI, assumption,
          erule works_fenced_append, rule R(2),
          rule works_fenced, erule works_leave, rule assms(2), rule R(4), assumption,
          intro exI conjI, assumption, rule assms(6) [OF 1(1)]) (simp add: evidence_acts_def)
  qed
qed

lemma works_catching: "works (\<lambda>_ _. False) m Q st \<Longrightarrow> works (\<lambda>_ _. False) (catching m handler) Q st"
  by (auto simp: works_def wp_def catching_def split: prod.splits sum.splits)

lemma works_answer:
  assumes "steady b n0 (Suc (Suc (Suc (Suc (Suc k))))) A st" "\<And>e. fst (wa_elapsed a e) \<le> 3600000"
    and answers: "\<And>q e. \<exists>x e'. wa_answer a q es e = (Inr x, e') \<and> P x"
    and ok: "\<And>x m. P x \<Longrightarrow> m \<le> 3600000 \<Longrightarrow> all_recordable (answer_acts es x m m)"
    and projects: "\<And>x. P x \<Longrightarrow> \<exists>t. project_answer_outcome x = Inr t"
    and rest: "\<And>x t m m' st1 k'. P x \<Longrightarrow> project_answer_outcome x = Inr t \<Longrightarrow> k \<le> k' \<Longrightarrow>
      steady b n0 k' (A @ answer_acts es x m m') st1 \<Longrightarrow> Q (Some t) st1"
  shows "works (\<lambda>_ _. False) (answer_stage (store_context b a) job es) Q st"
proof -
  have answer: "wx_answer (store_context b a) = (\<lambda>question es. agent_call b (wa_answer a question es))"
    by (simp add: store_context_def)
  let ?ctx = "store_context b a"
  have judged: "works (\<lambda>_ _. False) (with_answer_egress ?ctx x (
       fenced ?ctx (bind_l2 (elapsed ?ctx) (\<lambda>ms. append_event_body ?ctx (verifier_event x ms))) (\<lambda>_.
       fenced ?ctx (append_event_body ?ctx (answer_event x)) (\<lambda>_.
       bind_l2 (leave_stage ?ctx AnswerAgent ''answer'' (an_provider_error x)) (\<lambda>_.
         lift (case project_answer_outcome x of Inl e \<Rightarrow> Inl (Uncaught e) | Inr t \<Rightarrow> Inr (Some t))))))) Q st1"
    if x: "P x" and now: "steady b n0 (Suc (Suc (Suc (Suc k)))) ((A @ [stage_started AnswerAgent ''answer'']) @ [GotAnswer es x]) st1"
    for x st1
  proof -
    from projects [OF x] obtain t where t: "project_answer_outcome x = Inr t" by blast
    have rows: "answer_egress_event x = Some egress \<Longrightarrow> recordable egress"
      "m \<le> 3600000 \<Longrightarrow> recordable (verifier_event x m)" "recordable (answer_event x)"
      "m \<le> 3600000 \<Longrightarrow> recordable (agent_event AnswerAgent ''answer'' PhaseFinished (Some m) (an_provider_error x))"
      for m egress
      using ok [OF x, of 0] ok [OF x, of m] by (auto simp: all_recordable_def answer_acts_def stage_started_def stage_finished_def)
    let ?egress = "case answer_egress_event x of None \<Rightarrow> [] | Some egress \<Rightarrow> [Appended egress]"
    let ?judged = "fenced ?ctx (bind_l2 (elapsed ?ctx) (\<lambda>ms. append_event_body ?ctx (verifier_event x ms))) (\<lambda>_.
       fenced ?ctx (append_event_body ?ctx (answer_event x)) (\<lambda>_.
       bind_l2 (leave_stage ?ctx AnswerAgent ''answer'' (an_provider_error x)) (\<lambda>_. lift (Inr (Some t)))))"
    have answered: "works (\<lambda>_ _. False) ?judged Q st1"
      if "steady b n0 (Suc (Suc (Suc k'))) ((A @ [stage_started AnswerAgent ''answer'']) @ [GotAnswer es x] @ ?egress) st1"
        and "k \<le> k'" for st1 k'
      by (rule works_fenced, unfold works_simps, rule works_elapsed [OF that(1) assms(2)], erule works_append, erule rows(2),
          intro exI conjI, assumption, erule works_fenced_append, rule rows(3), unfold works_simps,
          erule works_leave, rule assms(2), erule rows(4), unfold lift_def sum.case works_simps, rule rest [OF x t that(2)])
        (simp add: answer_acts_def)
    have "works (\<lambda>_ _. False) (with_answer_egress ?ctx x ?judged) Q st1"
    proof (cases "answer_egress_event x")
      case None
      with answered [of "Suc k" st1] now show ?thesis by (simp add: with_answer_egress_def)
    next
      case (Some egress)
      then show ?thesis
        unfolding with_answer_egress_def option.case
        by (simp only: option.case) (rule works_fenced_append [OF now rows(1)], assumption, rule answered [of k], simp_all)
    qed
    then show ?thesis by (simp add: t)
  qed
  have entered: "steady b n0 (Suc (Suc (Suc (Suc (Suc k))))) A (st\<lparr>ws_egress_stage := EvidenceStage\<rparr>)"
    using assms(1) by (simp add: steady_def)
  from answers obtain x0 where "P x0" by blast
  with ok [of x0 0] have start: "recordable (agent_event AnswerAgent ''answer'' PhaseStarted None None)"
    by (auto simp: all_recordable_def answer_acts_def stage_started_def)
  show ?thesis
    unfolding answer_stage_def answer works_simps
    by (rule works_enter [OF entered start], erule works_agent, rule answers) (rule judged)
qed

text \<open>A queued run, its claim, and the run of the stages after it.\<close>

definition claimable :: "worker_binding \<Rightarrow> 'e store_env \<Rightarrow> nat \<Rightarrow> bool" where
  "claimable b s k \<longleftrightarrow> in_time b (Suc (se_calls s)) \<and> \<not> wb_beats b (se_calls s) \<and> \<not> se_lease_lost s \<and>
     run_store_ok (se_tables s) \<and>
     (\<exists>r. find_run (se_tables s) (wb_run_id b) = Some r \<and> rn_status r = Queued \<and>
       rn_created_at r \<le> call_time b (Suc (se_calls s)) \<and> \<not> lease_expired r (call_time b (Suc (se_calls s)))) \<and>
     length (events_of (se_tables s) (wb_run_id b)) + k \<le> 10000"

lemma works_claim:
  assumes start: "claimable b s (Suc k)" and job: "\<not> jb_lease_acquired job"
    and rest: "\<And>st. steady b (Suc (se_calls s)) k [Claimed True] st \<Longrightarrow> works E body Q st"
  shows "works E (with_lease (store_context b a) job body) Q (worker_start s)"
proof -
  let ?n0 = "Suc (se_calls s)"
  from start claim_run_works [of b ?n0 "se_tables s"] obtain db' where
    db': "claim_run (wb_fault b ?n0) (wb_clock b ?n0) (wb_run_id b) (wb_worker_id b) (wb_lease_seconds b) (se_tables s) = (Inr True, db')"
    "open_run b ?n0 (Suc ?n0) k db'"
    by (auto simp: claimable_def)
  let ?s = "s\<lparr>se_calls := Suc ?n0, se_tables := db'\<rparr>"
  from start have "beat b s = s\<lparr>se_calls := ?n0\<rparr>" by (simp add: beat_def Let_def claimable_def)
  with db'(1) have call: "wx_claim (store_context b a) s = (Inr True, ?s)"
    by (simp add: store_context_def store_call_def Let_def)
  from start db'(2) have "steady b ?n0 k [Claimed True] (note_act (Claimed True) ((worker_start s)\<lparr>ws_env := ?s\<rparr>))"
    by (simp add: steady_def note_act_def worker_start_def claimable_def)
  then have "works E (if True then body else ret ()) Q (note_act (Claimed True) ((worker_start s)\<lparr>ws_env := ?s\<rparr>))"
    by (simp add: rest)
  moreover have "wx_claim (store_context b a) (ws_env (worker_start s)) = (Inr True, ?s)"
    using call by (simp add: worker_start_def)
  ultimately show ?thesis
    unfolding with_lease_def if_not_P [OF job] works_simps by (intro works_acted) assumption+
qed

text \<open>Agents that always answer, each time perhaps differently, with what can be recorded.\<close>

definition recordable_plan :: "planner_result \<Rightarrow> bool" where
  "recordable_plan p \<longleftrightarrow> (\<forall>m \<le> 3600000. all_recordable (planning_acts p m))"

definition recordable_evidence :: "evidence_result \<Rightarrow> bool" where
  "recordable_evidence c \<longleftrightarrow> length (er_calls c) \<le> 8 \<and> (\<forall>m \<le> 3600000. all_recordable (evidence_acts c m))"

definition recordable_answer :: "evidence list \<Rightarrow> answer_outcome \<Rightarrow> bool" where
  "recordable_answer es x \<longleftrightarrow> (\<forall>m \<le> 3600000. all_recordable (answer_acts es x m m)) \<and>
     (\<exists>t. project_answer_outcome x = Inr t \<and> body_valid (TerminalEvent (te_status t) (te_reason t)))"

definition answering :: "'e worker_agents \<Rightarrow> bool" where
  "answering a \<longleftrightarrow> (\<forall>e. fst (wa_elapsed a e) \<le> 3600000) \<and>
     (\<forall>q e. \<exists>p e'. wa_plan a q e = (Inr p, e') \<and> recordable_plan p) \<and>
     (\<forall>plan corpus e. \<exists>c e'. wa_collect a plan corpus e = (Inr c, e') \<and> recordable_evidence c) \<and>
     (\<forall>q es e. \<exists>x e'. wa_answer a q es e = (Inr x, e') \<and> recordable_answer es x)"

lemma undisturbed_run:
  fixes a :: "'a worker_agents"
  assumes start: "claimable b s 22" and agents: "answering a" and job: "\<not> jb_lease_acquired job"
  shows "\<exists>p m1 c m2 x m3 m4 t st. run_l1 (store_context b a) job (worker_start s) = (Inr (), st) \<and>
    ws_acts st = [Claimed True] @ planning_acts p m1 @ evidence_acts c m2 @
      answer_acts (selected_evidence c) x m3 m4 @ [Ended t True] \<and>
    project_answer_outcome x = Inr t \<and> ended_as (se_tables (ws_env st)) (wb_run_id b) t"
proof -
  let ?ctx = "store_context b a" and ?n0 = "Suc (se_calls s)"
  let ?Q = "\<lambda>_ st. \<exists>p m1 c m2 x m3 m4 t. ws_acts st = [Claimed True] @ planning_acts p m1 @ evidence_acts c m2 @
      answer_acts (selected_evidence c) x m3 m4 @ [Ended t True] \<and>
    project_answer_outcome x = Inr t \<and> ended_as (se_tables (ws_env st)) (wb_run_id b) t"
  let ?last = "\<lambda>z. case z of None \<Rightarrow> ret () | Some terminal \<Rightarrow>
    bind_l2 (lease_lost ?ctx) (\<lambda>lost. if lost then ret () else complete_with ?ctx terminal)"
  from agents have elapsed: "\<And>e. fst (wa_elapsed a e) \<le> 3600000"
    and plans: "\<And>q e. \<exists>p e'. wa_plan a q e = (Inr p, e') \<and> recordable_plan p"
    and collects: "\<And>plan corpus e. \<exists>c e'. wa_collect a plan corpus e = (Inr c, e') \<and> recordable_evidence c"
    and answers: "\<And>q es e. \<exists>x e'. wa_answer a q es e = (Inr x, e') \<and> recordable_answer es x"
    by (auto simp: answering_def)
  have complete: "works (\<lambda>_ _. False) (?last (Some t)) ?Q st"
    if x: "recordable_answer (selected_evidence c) x" "project_answer_outcome x = Inr t"
      and now: "steady b ?n0 (Suc k) ([Claimed True] @ planning_acts p m1 @ evidence_acts c m2 @
        answer_acts (selected_evidence c) x m3 m4) st"
    for p c x t k m1 m2 m3 m4 st
  proof -
    let ?s = "ws_env st"
    from x have body: "body_valid (TerminalEvent (te_status t) (te_reason t))" by (auto simp: recordable_answer_def)
    obtain db1 where beat: "beat b ?s = ?s\<lparr>se_calls := Suc (se_calls ?s), se_tables := db1\<rparr>"
      "open_run b ?n0 (Suc (Suc (se_calls ?s))) (Suc k) db1" by (rule steady_beat [OF now])
    from now have "in_time b ?n0" "?n0 < Suc (se_calls ?s)" by (auto simp: steady_def)
    from complete_run_works [OF this beat(2) _ body] obtain db' where
      db': "complete_run (wb_fault b (Suc (se_calls ?s))) (wb_clock b (Suc (se_calls ?s))) (wb_run_id b) (wb_worker_id b)
        (terminal_event t) db1 = (Inr True, db')" "ended_as db' (wb_run_id b) t" by auto
    from db'(1) have call: "wx_complete ?ctx (terminal_event t) ?s =
        (Inr True, ?s\<lparr>se_calls := Suc (Suc (se_calls ?s)), se_tables := db'\<rparr>)"
      by (simp add: store_context_def store_call_def Let_def beat(1))
    have "works (\<lambda>_ _. False) (acted (Ended t) (wx_complete ?ctx (terminal_event t))) ?Q st"
      by (rule works_acted, rule call) (rule exI [of _ p], rule exI [of _ m1], rule exI [of _ c],
        rule exI [of _ m2], rule exI [of _ x], rule exI [of _ m3], rule exI [of _ m4], rule exI [of _ t],
        use now x(2) db'(2) in \<open>simp add: note_act_def steady_def\<close>)
    moreover from body have "event_valid (terminal_event t)" by (simp add: event_valid_def terminal_event_def)
    ultimately show ?thesis by (simp add: works_simps works_lease [OF now] complete_with_def)
  qed
  have stages: "works (\<lambda>_ _. False) (l1_stages ?ctx job) (\<lambda>z. works (\<lambda>_ _. False) (?last z) ?Q) st0"
    if st0: "steady b ?n0 (Suc (Suc (Suc (Suc (Suc (8 + Suc (Suc (Suc (Suc (Suc (Suc (Suc (Suc 0)))))))))))))
      [Claimed True] st0" for st0
    unfolding l1_stages_def
  proof (rule works_planning [OF st0 elapsed plans], goal_cases)
    case (1 p m)
    then show ?case by (simp add: recordable_plan_def)
  next
    case (2 p m1 st1)
    show ?case
    proof (rule works_evidence [OF 2(2) elapsed collects], goal_cases)
      case (3 c m2 st2)
      show ?case
      proof (rule works_answer [OF 3(2) elapsed answers], goal_cases)
        case (3 x t m3 m4 st3 k')
        then obtain k where "k' = Suc k" by (cases k') auto
        with 3 complete [of c x t k p m1 m2 m3 m4 st3] show ?case by simp
      qed (auto simp: recordable_answer_def)
    qed (auto simp: recordable_evidence_def)
  qed
  have "works (\<lambda>_ _. False) (bind_l2 (catching (l1_stages ?ctx job) (l1_handler ?ctx)) ?last) ?Q st0"
    if "steady b ?n0 21 [Claimed True] st0" for st0
    unfolding works_simps by (rule works_catching, rule stages) (use that in \<open>simp add: eval_nat_numeral\<close>)
  with start job have "works (\<lambda>_ _. False) (run_l1 ?ctx job) ?Q (worker_start s)"
    unfolding run_l1_def by (intro works_claim [where k = 21]) simp_all
  then have "wp (run_l1 ?ctx job) ?Q (\<lambda>_ _. False) (worker_start s)" by (simp add: works_def)
  moreover obtain res st where run: "run_l1 ?ctx job (worker_start s) = (res, st)" by fastforce
  ultimately have "res = Inr ()" "?Q () st" by (simp_all add: wp_def split: sum.splits)
  with run show ?thesis by simp
qed

text \<open>The same up to the answer, when its verifier summary cannot be built.\<close>

lemma stranded_run:
  fixes a :: "'a worker_agents"
  assumes begun: "claimable b s 22" and job: "\<not> jb_lease_acquired job"
    and elapsed: "\<And>e. fst (wa_elapsed a e) \<le> 3600000"
    and plans: "\<And>q e. \<exists>p e'. wa_plan a q e = (Inr p, e') \<and> recordable_plan p"
    and collects: "\<And>plan corpus e. \<exists>c' e'. wa_collect a plan corpus e = (Inr c', e') \<and> c' = c" "recordable_evidence c"
    and answers: "\<And>q e. \<exists>x' e'. wa_answer a q (selected_evidence c) e = (Inr x', e') \<and> x' = x"
    and start: "recordable (agent_event AnswerAgent ''answer'' PhaseStarted None None)"
    and egress: "answer_egress_event x = Some egress" "recordable egress"
    and bad: "\<And>m. \<not> body_valid (verifier_event x m)"
  shows "\<exists>st. run_l1 (store_context b a) job (worker_start s) = (Inl (Uncaught ''ValidationError''), st) \<and>
    GotAnswer (selected_evidence c) x \<in> set (ws_acts st)"
proof -
  let ?ctx = "store_context b a" and ?n0 = "Suc (se_calls s)"
  let ?E = "\<lambda>e st. e = Uncaught ''ValidationError'' \<and> GotAnswer (selected_evidence c) x \<in> set (ws_acts st)"
  have answer: "wx_answer ?ctx = (\<lambda>question es. agent_call b (wa_answer a question es))"
    by (simp add: store_context_def)
  have raises: "works ?E (fenced ?ctx (bind_l2 (elapsed ?ctx) (\<lambda>ms. append_event_body ?ctx (verifier_event x ms))) rest) Q st"
    if "steady b ?n0 k A st" "GotAnswer (selected_evidence c) x \<in> set A"
    for k A st and rest :: "unit \<Rightarrow> ('a store_env, terminal option) worker_m" and Q
  proof -
    have "event_valid (trace_event (verifier_event x m)) = False" for m
      using bad [of m] by (simp add: event_valid_def trace_event_def)
    with that show ?thesis
      unfolding fenced_def works_simps
      by (intro works_elapsed [OF that(1) elapsed]) (simp add: append_event_body_def works_def wp_simps steady_def)
  qed
  have stages: "works ?E (l1_stages ?ctx job) (\<lambda>_ _. False) st0"
    if st0: "steady b ?n0 (Suc (Suc (Suc (Suc (Suc (8 + Suc (Suc (Suc (Suc (Suc (Suc (Suc (Suc 0)))))))))))))
      [Claimed True] st0" for st0
    unfolding l1_stages_def
  proof (rule works_planning [OF st0 elapsed plans], goal_cases)
    case (1 p m)
    then show ?case by (simp add: recordable_plan_def)
  next
    case (2 p m1 st1)
    show ?case
    proof (rule works_evidence [OF 2(2) elapsed collects(1)], goal_cases)
      case (3 c' m2 st2)
      then have here: "steady b ?n0 (Suc (Suc (Suc (Suc (Suc (Suc 0)))))) (([Claimed True] @ planning_acts p m1) @ evidence_acts c m2)
          (st2\<lparr>ws_egress_stage := EvidenceStage\<rparr>)"
        by (simp add: steady_def)
      have egressed: "works ?E (with_answer_egress ?ctx x (fenced ?ctx (bind_l2 (elapsed ?ctx) (\<lambda>ms. append_event_body ?ctx (verifier_event x ms))) rest)) (\<lambda>_ _. False) st3"
        if "steady b ?n0 (Suc k) (A @ [GotAnswer (selected_evidence c) x]) st3"
        for rest :: "unit \<Rightarrow> ('a store_env, terminal option) worker_m" and A st3 k
        unfolding with_answer_egress_def egress(1) option.case
        by (rule works_fenced_append [OF that egress(2)], erule raises) simp
      show ?case
        unfolding 3(1) answer_stage_def answer works_simps
        by (rule works_enter [OF here start], erule works_agent, rule answers) (simp only: egressed)
    qed (use collects(2) in \<open>auto simp: recordable_evidence_def\<close>)
  qed
  have "works ?E (bind_l2 (catching (l1_stages ?ctx job) (l1_handler ?ctx)) (\<lambda>t. case t of
        None \<Rightarrow> ret ()
      | Some terminal \<Rightarrow> bind_l2 (lease_lost ?ctx) (\<lambda>lost. if lost then ret () else complete_with ?ctx terminal))) (\<lambda>_ _. False) st0"
    if "steady b ?n0 21 [Claimed True] st0" for st0
  proof -
    have "works ?E (l1_stages ?ctx job) (\<lambda>_ _. False) st0"
      by (rule stages) (use that in \<open>simp add: eval_nat_numeral\<close>)
    then obtain st where "l1_stages ?ctx job st0 = (Inl (Uncaught ''ValidationError''), st)"
        "GotAnswer (selected_evidence c) x \<in> set (ws_acts st)"
      by (auto simp: works_def wp_def split: prod.splits sum.splits)
    then show ?thesis by (simp add: works_def wp_def bind_l2_def catching_def l1_handler_def raise_l2_def)
  qed
  with begun job have "works ?E (run_l1 ?ctx job) (\<lambda>_ _. False) (worker_start s)"
    unfolding run_l1_def by (intro works_claim [where k = 21]) simp_all
  then show ?thesis by (auto simp: works_def wp_def split: prod.splits sum.splits)
qed

text \<open>
  C10. A queued run that nothing stands in the way of is claimed and ended by the worker. If the
  store works, the run's row is queued and delivered in time, the trace has room for twenty-two more
  events, every call after the claim comes before the end of a lease that the claim or a heartbeat
  was granted, and the agents always answer, each time perhaps differently, with what can be
  recorded, then the worker claims the run and returns, with every stage on record and the terminal
  state of the answer it got stored in the run's row.
\<close>

theorem undisturbed_run_is_ended:
  fixes a :: "'a worker_agents"
  assumes "claimable b s 22" and "answering a" and "\<not> jb_lease_acquired job"
  shows "\<exists>p m1 c m2 x m3 m4 t st. run_l1 (store_context b a) job (worker_start s) = (Inr (), st) \<and>
    ws_acts st = [Claimed True] @ planning_acts p m1 @ evidence_acts c m2 @
      answer_acts (selected_evidence c) x m3 m4 @ [Ended t True] \<and>
    project_answer_outcome x = Inr t \<and> ended_as (se_tables (ws_env st)) (wb_run_id b) t"
  by (rule undisturbed_run [OF assms])

end
