(* ===== verification/L2Logic.thy ===== *)
theory L2Logic
  imports L2Run
begin

text \<open>
  A weakest-precondition calculus for the orchestrator of \<open>runtime/l2.py\<close>, and the invariant
  that the steps of an attempt keep: the checkpoints written are bounded, every model call has
  its generation in a checkpoint written before it, and every verified result passed both gates.
\<close>

section \<open>Collaborators\<close>

lemma wp_await [wp_rules]:
  assumes "\<And>x s. op (ls_env st) = (Inr x, s) \<Longrightarrow> Q x (st\<lparr>ls_env := s\<rparr>)"
    and "\<And>e s. op (ls_env st) = (Inl e, s) \<Longrightarrow> E e (st\<lparr>ls_env := s\<rparr>)"
  shows "wp (await op) Q E st"
  using assms by (auto simp: wp_def await_def split: prod.splits sum.splits)

lemma wp_lease [wp_rules]:
  assumes "\<And>live s. Q live (st\<lparr>ls_env := s\<rparr>)"
  shows "wp (lease_is_live ctx) Q E st"
  using assms by (auto simp: wp_def lease_is_live_def await_def split: prod.splits sum.splits)

lemma wp_emit [wp_rules]:
  assumes "\<And>s. Q () (st\<lparr>ls_env := s\<rparr>)" "\<And>e s. E e (st\<lparr>ls_env := s\<rparr>)"
  shows "wp (emit_audit ctx event) Q E st"
  using assms assms(1) [of "ls_env st"]
  by (auto simp: wp_def emit_audit_def await_def ret_def split: option.splits prod.splits sum.splits)

section \<open>The checkpoint writer\<close>

text \<open>What the orchestrator needs of its writer: the answer is the checkpoint it was given, up to its access time.\<close>

locale checkpoint_writer =
  fixes writer :: "nat option \<Rightarrow> run_checkpoint \<Rightarrow> 's \<Rightarrow> (l2_exception + run_checkpoint) \<times> 's"
  assumes answer: "writer v k s = (Inr k', s') \<Longrightarrow> \<exists>t. k' = k\<lparr>kp_last_accessed_at := t\<rparr>"
begin

lemma wp_written:
  assumes "\<And>t s. Q (k\<lparr>kp_last_accessed_at := t\<rparr>) (st\<lparr>ls_env := s\<rparr>)" "\<And>e s. E e (st\<lparr>ls_env := s\<rparr>)"
  shows "wp (await (writer v k)) Q E st"
proof (rule wp_await)
  fix k' s
  assume "writer v k (ls_env st) = (Inr k', s)"
  from answer [OF this] assms(1) show "Q k' (st\<lparr>ls_env := s\<rparr>)" by auto
qed (rule assms(2))

end

definition lawful_writer :: "'s l2_context \<Rightarrow> bool" where
  "lawful_writer ctx \<longleftrightarrow> (\<forall>writer. lx_checkpoint_writer ctx = Some writer \<longrightarrow> checkpoint_writer writer)"

lemma wp_persist:
  assumes "lawful_writer ctx"
    and "\<And>t s. Q (k\<lparr>kp_last_accessed_at := t\<rparr>) (st\<lparr>ls_env := s\<rparr>)" "\<And>e s. E e (st\<lparr>ls_env := s\<rparr>)"
  shows "wp (persist ctx v k) Q E st"
proof (cases "lx_checkpoint_writer ctx")
  case None
  with assms(2) [of "kp_last_accessed_at k" "ls_env st"] show ?thesis by (simp add: persist_def wp_ret)
next
  case (Some writer)
  with assms(1) have "checkpoint_writer writer" by (simp add: lawful_writer_def)
  from checkpoint_writer.wp_written [OF this] assms(2,3) Some show ?thesis by (simp add: persist_def)
qed

section \<open>The invariant\<close>

definition token_generation :: "stage_token \<Rightarrow> stage_generation" where
  "token_generation token = (case token of (stage, claim, recovery, generation) \<Rightarrow>
     \<lparr>sg_stage = stage_value stage, sg_claim_id = claim, sg_recovery = recovery, sg_generation = generation\<rparr>)"

text \<open>
  A verified result: its candidate passed the deterministic gate on some evidence, and the
  semantic verifier, asked about that candidate, evidence and outcome, supported the verdict.
\<close>

definition gated :: "'s l2_context \<Rightarrow> compliance_result \<Rightarrow> bool" where
  "gated ctx r \<longleftrightarrow> (\<exists>c evidence d suffix generation s semantic s'.
     ic_claim_id c = cr_claim_id r \<and> d = lx_deterministic ctx (ic_candidate c) evidence \<and> result_passed d \<and>
     lx_semantic ctx c evidence d suffix generation s = (Inr semantic, s') \<and>
     sn_supports_verdict (sr_product semantic) \<and>
     cr_verdict r = cc_proposed_verdict (ic_candidate c) \<and> cr_citations r = dr_citations d)"

definition starting_checkpoint :: "'s l2_context \<Rightarrow> run_checkpoint option" where
  "starting_checkpoint ctx = or_else (lx_checkpoint ctx) (lx_checkpoint_factory ctx)"

definition starting_results :: "'s l2_context \<Rightarrow> compliance_result list" where
  "starting_results ctx = (case starting_checkpoint ctx of None \<Rightarrow> [] | Some k \<Rightarrow> kp_completed_results k)"

definition result_earned :: "'s l2_context \<Rightarrow> compliance_result \<Rightarrow> bool" where
  "result_earned ctx r \<longleftrightarrow> r \<in> set (starting_results ctx) \<or> (cr_verification_status r = Verified \<longrightarrow> gated ctx r)"

definition within_bounds :: "run_checkpoint \<Rightarrow> bool" where
  "within_bounds k \<longleftrightarrow> distinct (kp_generations k) \<and> length (kp_generations k) \<le> 8 \<and>
     kp_tool_attempts_used k \<le> 8 \<and> length (kp_evidence k) \<le> 12"

definition sound_checkpoint :: "'s l2_context \<Rightarrow> run_checkpoint \<Rightarrow> bool" where
  "sound_checkpoint ctx k \<longleftrightarrow> within_bounds k \<and> list_all (result_earned ctx) (kp_completed_results k)"

text \<open>Every model call had its generation in the last checkpoint written before it, and no two are equal.\<close>

definition sends_traced :: "'s l2_state \<Rightarrow> bool" where
  "sends_traced st \<longleftrightarrow> distinct (map fst (ls_sent st)) \<and>
     (\<forall>(token, n) \<in> set (ls_sent st). 0 < n \<and> n \<le> length (ls_written st) \<and>
        token_generation token \<in> set (kp_generations (ls_written st ! (n - 1))))"

definition current :: "'s l2_context \<Rightarrow> 's l2_state \<Rightarrow> run_checkpoint option" where
  "current ctx st = (if ls_written st = [] then lx_checkpoint ctx else Some (last (ls_written st)))"

definition sent_tokens :: "'s l2_state \<Rightarrow> stage_token set" where
  "sent_tokens st = fst ` set (ls_sent st)"

definition in_step :: "'s l2_context \<Rightarrow> 's l2_state \<Rightarrow> bool" where
  "in_step ctx st \<longleftrightarrow>
     (ls_written st = [] \<longrightarrow> ls_checkpoint st = lx_checkpoint ctx) \<and>
     list_all (sound_checkpoint ctx) (ls_written st) \<and>
     optional (sound_checkpoint ctx) (lx_checkpoint ctx) \<and> optional (sound_checkpoint ctx) (ls_checkpoint st) \<and>
     (starting_checkpoint ctx \<noteq> None \<longrightarrow> sends_traced st \<and>
        (current ctx st = None \<longrightarrow> ls_sent st = []) \<and>
        (\<forall>k. current ctx st = Some k \<longrightarrow> token_generation ` sent_tokens st \<subseteq> set (kp_generations k))) \<and>
     ls_attempts st \<le> 8 \<and> length (ls_evidence st) \<le> 12"

text \<open>Once the first checkpoint is written, if the attempt writes any.\<close>

definition running :: "'s l2_context \<Rightarrow> 's l2_state \<Rightarrow> bool" where
  "running ctx st \<longleftrightarrow> in_step ctx st \<and> (starting_checkpoint ctx \<noteq> None \<longrightarrow> current ctx st \<noteq> None)"

text \<open>What is left of it when the attempt is over.\<close>

definition settled :: "'s l2_context \<Rightarrow> 's l2_state \<Rightarrow> bool" where
  "settled ctx st \<longleftrightarrow> list_all (sound_checkpoint ctx) (ls_written st) \<and>
     (starting_checkpoint ctx \<noteq> None \<longrightarrow> sends_traced st \<and> length (ls_sent st) \<le> 8)"

text \<open>The token of a call that is about to be made.\<close>

definition ready :: "'s l2_context \<Rightarrow> stage_token \<Rightarrow> 's l2_state \<Rightarrow> bool" where
  "ready ctx token st \<longleftrightarrow> (starting_checkpoint ctx \<noteq> None \<longrightarrow> ls_written st \<noteq> [] \<and> token \<notin> sent_tokens st \<and>
     token_generation token \<in> set (kp_generations (last (ls_written st))))"

lemma stage_value_inj: "stage_value s = stage_value t \<Longrightarrow> s = t"
  by (cases s; cases t) simp_all

lemma token_generation_inj: "inj token_generation"
  by (auto simp: inj_def token_generation_def dest: stage_value_inj)

text \<open>The fields that the invariant does not read, or reads on their own.\<close>

lemma traced_frame [simp]:
  "sends_traced (st\<lparr>ls_env := x1\<rparr>) = sends_traced st"
  "sends_traced (st\<lparr>ls_reservations := x2\<rparr>) = sends_traced st"
  "sends_traced (st\<lparr>ls_recovered := x3\<rparr>) = sends_traced st"
  "sends_traced (st\<lparr>ls_deterministic := x4\<rparr>) = sends_traced st"
  "sends_traced (st\<lparr>ls_audit_events := x5\<rparr>) = sends_traced st"
  "sends_traced (st\<lparr>ls_checkpoint := x6\<rparr>) = sends_traced st"
  "sends_traced (st\<lparr>ls_attempts := x7\<rparr>) = sends_traced st"
  "sends_traced (st\<lparr>ls_evidence := x8\<rparr>) = sends_traced st"
  by (simp_all add: sends_traced_def)

lemma sent_tokens_frame [simp]:
  "sent_tokens (st\<lparr>ls_env := x1\<rparr>) = sent_tokens st"
  "sent_tokens (st\<lparr>ls_reservations := x2\<rparr>) = sent_tokens st"
  "sent_tokens (st\<lparr>ls_recovered := x3\<rparr>) = sent_tokens st"
  "sent_tokens (st\<lparr>ls_deterministic := x4\<rparr>) = sent_tokens st"
  "sent_tokens (st\<lparr>ls_audit_events := x5\<rparr>) = sent_tokens st"
  "sent_tokens (st\<lparr>ls_checkpoint := x6\<rparr>) = sent_tokens st"
  "sent_tokens (st\<lparr>ls_attempts := x7\<rparr>) = sent_tokens st"
  "sent_tokens (st\<lparr>ls_evidence := x8\<rparr>) = sent_tokens st"
  by (simp_all add: sent_tokens_def)

lemma current_frame [simp]:
  "current ctx (st\<lparr>ls_env := x1\<rparr>) = current ctx st"
  "current ctx (st\<lparr>ls_reservations := x2\<rparr>) = current ctx st"
  "current ctx (st\<lparr>ls_recovered := x3\<rparr>) = current ctx st"
  "current ctx (st\<lparr>ls_deterministic := x4\<rparr>) = current ctx st"
  "current ctx (st\<lparr>ls_audit_events := x5\<rparr>) = current ctx st"
  "current ctx (st\<lparr>ls_checkpoint := x6\<rparr>) = current ctx st"
  "current ctx (st\<lparr>ls_attempts := x7\<rparr>) = current ctx st"
  "current ctx (st\<lparr>ls_evidence := x8\<rparr>) = current ctx st"
  by (simp_all add: current_def)

lemma in_step_frame [simp]:
  "in_step ctx (st\<lparr>ls_env := x1\<rparr>) = in_step ctx st"
  "in_step ctx (st\<lparr>ls_reservations := x2\<rparr>) = in_step ctx st"
  "in_step ctx (st\<lparr>ls_recovered := x3\<rparr>) = in_step ctx st"
  "in_step ctx (st\<lparr>ls_deterministic := x4\<rparr>) = in_step ctx st"
  "in_step ctx (st\<lparr>ls_audit_events := x5\<rparr>) = in_step ctx st"
  by (simp_all add: in_step_def)

lemma running_frame [simp]:
  "running ctx (st\<lparr>ls_env := x1\<rparr>) = running ctx st"
  "running ctx (st\<lparr>ls_reservations := x2\<rparr>) = running ctx st"
  "running ctx (st\<lparr>ls_recovered := x3\<rparr>) = running ctx st"
  "running ctx (st\<lparr>ls_deterministic := x4\<rparr>) = running ctx st"
  "running ctx (st\<lparr>ls_audit_events := x5\<rparr>) = running ctx st"
  by (simp_all add: running_def)

lemma ready_frame [simp]:
  "ready ctx token (st\<lparr>ls_env := x1\<rparr>) = ready ctx token st"
  "ready ctx token (st\<lparr>ls_checkpoint := x6\<rparr>) = ready ctx token st"
  by (simp_all add: ready_def)

lemma settled_frame [simp]:
  "settled ctx (st\<lparr>ls_env := x1\<rparr>) = settled ctx st"
  "settled ctx (st\<lparr>ls_reservations := x2\<rparr>) = settled ctx st"
  "settled ctx (st\<lparr>ls_checkpoint := x6\<rparr>) = settled ctx st"
  "settled ctx (st\<lparr>ls_attempts := x7\<rparr>) = settled ctx st"
  by (simp_all add: settled_def)

lemma in_step_attempts: "in_step ctx st \<Longrightarrow> n \<le> 8 \<Longrightarrow> in_step ctx (st\<lparr>ls_attempts := n\<rparr>)"
  by (simp add: in_step_def)

lemma in_step_evidence: "in_step ctx st \<Longrightarrow> length es \<le> 12 \<Longrightarrow> in_step ctx (st\<lparr>ls_evidence := es\<rparr>)"
  by (simp add: in_step_def)

lemma running_attempts: "running ctx st \<Longrightarrow> n \<le> 8 \<Longrightarrow> running ctx (st\<lparr>ls_attempts := n\<rparr>)"
  by (simp add: running_def in_step_attempts)

lemma running_evidence: "running ctx st \<Longrightarrow> length es \<le> 12 \<Longrightarrow> running ctx (st\<lparr>ls_evidence := es\<rparr>)"
  by (simp add: running_def in_step_evidence)

lemma running_in_step [intro]: "running ctx st \<Longrightarrow> in_step ctx st"
  by (simp add: running_def)

lemma in_step_current:
  assumes "in_step ctx st" "current ctx st = Some k"
  shows "sound_checkpoint ctx k"
proof (cases "ls_written st = []")
  case True
  with assms show ?thesis by (simp add: in_step_def current_def optional_def)
next
  case False
  with assms have "k \<in> set (ls_written st)" "list_all (sound_checkpoint ctx) (ls_written st)"
    by (auto simp: in_step_def current_def)
  then show ?thesis by (simp add: list_all_iff)
qed

lemma in_step_checkpoint:
  assumes "in_step ctx st"
  shows "in_step ctx (st\<lparr>ls_checkpoint := current ctx st\<rparr>)"
proof -
  have "optional (sound_checkpoint ctx) (current ctx st)"
    using in_step_current [OF assms] by (cases "current ctx st") (simp_all add: optional_def)
  with assms show ?thesis
    by (simp add: in_step_def) (simp add: current_def)
qed

lemma in_step_settled:
  assumes "in_step ctx st"
  shows "settled ctx st"
proof -
  have "length (ls_sent st) \<le> 8" if tracked: "starting_checkpoint ctx \<noteq> None"
  proof (cases "current ctx st")
    case None
    with assms tracked show ?thesis by (simp add: in_step_def)
  next
    case (Some k)
    from assms Some tracked have tokens: "token_generation ` sent_tokens st \<subseteq> set (kp_generations k)"
      and distinct: "distinct (map fst (ls_sent st))"
      by (simp_all add: in_step_def sends_traced_def)
    have "length (ls_sent st) = card (sent_tokens st)"
      using distinct_card [OF distinct] by (simp add: sent_tokens_def)
    also have "\<dots> = card (token_generation ` sent_tokens st)"
      using token_generation_inj by (metis card_image inj_on_subset subset_UNIV)
    also have "\<dots> \<le> length (kp_generations k)"
      by (meson card_length card_mono finite_set le_trans tokens)
    also have "\<dots> \<le> 8"
      using in_step_current [OF assms Some] by (simp add: sound_checkpoint_def within_bounds_def)
    finally show ?thesis .
  qed
  with assms show ?thesis by (simp add: in_step_def settled_def)
qed

lemma running_checkpoint: "running ctx st \<Longrightarrow> running ctx (st\<lparr>ls_checkpoint := current ctx st\<rparr>)"
  by (simp add: running_def in_step_checkpoint)

end
