(* ===== verification/L2Steps.thy ===== *)
theory L2Steps
  imports L2Logic
begin

text \<open>
  Each operation of \<open>runtime/l2.py\<close> keeps the invariant of an attempt: the writes, the model
  calls, the gates of a claim, and the stages of the run.
\<close>

section \<open>Writes\<close>

lemma traced_append: "sends_traced st \<Longrightarrow> sends_traced (st\<lparr>ls_written := ls_written st @ [k]\<rparr>)"
  by (fastforce simp: sends_traced_def nth_append)

lemma in_step_append:
  assumes "in_step ctx st" "sound_checkpoint ctx k"
    and "\<And>k0. current ctx st = Some k0 \<Longrightarrow> set (kp_generations k0) \<subseteq> set (kp_generations k)"
  shows "in_step ctx (st\<lparr>ls_written := ls_written st @ [k]\<rparr>)"
proof -
  have "token_generation ` sent_tokens st \<subseteq> set (kp_generations k)" if "starting_checkpoint ctx \<noteq> None"
    using assms(1,3) that by (cases "current ctx st") (auto simp: in_step_def sent_tokens_def)
  with assms(1,2) show ?thesis
    by (simp add: in_step_def traced_append current_def sent_tokens_def)
qed

lemma current_append [simp]: "current ctx (st\<lparr>ls_written := ls_written st @ [k]\<rparr>) = Some k"
  by (simp add: current_def)

lemma sound_accessed [simp]: "sound_checkpoint ctx (k\<lparr>kp_last_accessed_at := t\<rparr>) = sound_checkpoint ctx k"
  by (simp add: sound_checkpoint_def within_bounds_def)

lemma sound_next:
  assumes "sound_checkpoint ctx k" "up_attempts u \<le> 8" "length refs \<le> 12"
    and "list_all (result_earned ctx) (up_completed_results u)"
  shows "sound_checkpoint ctx (next_checkpoint k stage refs u)"
  using assms by (simp add: sound_checkpoint_def within_bounds_def next_checkpoint_def)

lemma next_generations [simp]: "kp_generations (next_checkpoint k stage refs u) = kp_generations k"
  by (simp add: next_checkpoint_def)

lemma evidence_refs_length: "evidence_refs es = Inr refs \<Longrightarrow> length refs = length es"
  by (auto simp: evidence_refs_def split: if_splits)

text \<open>A write, of any sound checkpoint: what it answers is sound and is the last one written.\<close>

lemma wp_advance_any:
  assumes "lawful_writer ctx" "sound_checkpoint ctx k" "up_attempts u \<le> 8" "length (up_evidence u) \<le> 12"
    and "list_all (result_earned ctx) (up_completed_results u)"
    and Q: "\<And>k' s. sound_checkpoint ctx k' \<Longrightarrow> kp_generations k' = kp_generations k \<Longrightarrow>
      Q (Some k') (st\<lparr>ls_env := s, ls_written := ls_written st @ [k']\<rparr>)"
    and E: "\<And>e s. E e (st\<lparr>ls_env := s\<rparr>)"
  shows "wp (advance ctx (Some k) stage u) Q E st"
proof (cases "stage = kp_stage k \<and> \<not> up_allow_same_stage u")
  case True
  with Q [OF assms(2), of "ls_env st"] show ?thesis
    by (simp add: advance_def append_written_def wp_simps)
next
  case False
  show ?thesis
  proof (cases "evidence_refs (up_evidence u)")
    case (Inl e)
    with E [of e "ls_env st"] show ?thesis
      unfolding advance_def option.case if_not_P [OF False] by (simp add: wp_simps)
  next
    case (Inr refs)
    then have "sound_checkpoint ctx (next_checkpoint k stage refs u)"
      using assms(2-5) by (simp add: sound_next evidence_refs_length)
    with Inr Q E show ?thesis
      unfolding advance_def option.case if_not_P [OF False]
      by (auto simp: append_written_def wp_simps intro!: wp_persist [OF assms(1)])
  qed
qed

lemma running_append:
  assumes "in_step ctx st" "sound_checkpoint ctx k"
    and "\<And>k0. current ctx st = Some k0 \<Longrightarrow> set (kp_generations k0) \<subseteq> set (kp_generations k)"
  shows "running ctx (st\<lparr>ls_written := ls_written st @ [k]\<rparr>)"
  unfolding running_def using in_step_append [OF assms] by simp

lemma wp_advance:
  assumes "lawful_writer ctx" "running ctx st" "c = current ctx st" "up_attempts u \<le> 8"
    and "length (up_evidence u) \<le> 12" "list_all (result_earned ctx) (up_completed_results u)"
    and Q: "\<And>k' st'. running ctx st' \<Longrightarrow> k' = current ctx st' \<Longrightarrow> ls_recovered st' = ls_recovered st \<Longrightarrow> Q k' st'"
    and E: "\<And>e st'. in_step ctx st' \<Longrightarrow> E e st'"
  shows "wp (advance ctx c stage u) Q E st"
proof (cases c)
  case None
  with Q [OF assms(2,3)] show ?thesis by (simp add: advance_def wp_simps)
next
  case (Some k)
  with assms(2,3) have sound: "sound_checkpoint ctx k" by (metis in_step_current running_in_step)
  show ?thesis unfolding Some
  proof (rule wp_advance_any [OF assms(1) sound assms(4-6)])
    fix k' s
    assume k': "sound_checkpoint ctx k'" "kp_generations k' = kp_generations k"
    have "running ctx ((st\<lparr>ls_env := s\<rparr>)\<lparr>ls_written := ls_written (st\<lparr>ls_env := s\<rparr>) @ [k']\<rparr>)"
      using assms(2,3) Some k' by (intro running_append) auto
    then show "Q (Some k') (st\<lparr>ls_env := s, ls_written := ls_written st @ [k']\<rparr>)"
      by (intro Q) (simp_all add: current_def)
  qed (simp add: E running_in_step [OF assms(2)])
qed

text \<open>A generation token: it is in the last checkpoint written, and in no call before.\<close>

lemma fold_max_ge: "a \<le> fold max xs (a :: nat)" "x \<in> set xs \<Longrightarrow> x \<le> fold max xs (a :: nat)"
  by (simp_all add: Max.set_eq_fold [symmetric])

lemma fold_max_new: "fold max (xs @ [Suc (fold max xs 0)]) (0 :: nat) = Suc (fold max xs 0)"
  by simp

lemma generation_of_mem:
  "g \<in> set (generation_of k stage claim recovery) \<longleftrightarrow>
     \<lparr>sg_stage = stage, sg_claim_id = claim, sg_recovery = recovery, sg_generation = g\<rparr> \<in> set (kp_generations k)"
  (is "_ \<longleftrightarrow> ?token \<in> _")
proof
  assume "g \<in> set (generation_of k stage claim recovery)"
  then obtain x where x: "x \<in> set (kp_generations k)" "sg_stage x = stage" "sg_claim_id x = claim"
      "sg_recovery x = recovery" "sg_generation x = g"
    by (auto simp: generation_of_def)
  then have "x = ?token" by simp
  with x(1) show "?token \<in> set (kp_generations k)" by simp
next
  assume "?token \<in> set (kp_generations k)"
  then show "g \<in> set (generation_of k stage claim recovery)"
    by (force simp: generation_of_def image_iff)
qed

lemma with_generation_spec:
  obtains g where
    "kp_generations (with_generation k stage claim recovery) = kp_generations k @
       [\<lparr>sg_stage = stage, sg_claim_id = claim, sg_recovery = recovery, sg_generation = g\<rparr>]"
    "\<lparr>sg_stage = stage, sg_claim_id = claim, sg_recovery = recovery, sg_generation = g\<rparr> \<notin> set (kp_generations k)"
    "latest_generation (Some (with_generation k stage claim recovery)) stage claim recovery = g"
proof -
  let ?old = "generation_of k stage claim recovery"
  define g where "g = (if ?old = [] then 0 else Suc (fold max ?old 0))"
  have "g \<notin> set ?old" using fold_max_ge(2) [of g ?old 0] by (auto simp: g_def)
  moreover have "kp_generations (with_generation k stage claim recovery) = kp_generations k @
       [\<lparr>sg_stage = stage, sg_claim_id = claim, sg_recovery = recovery, sg_generation = g\<rparr>]"
    by (simp add: with_generation_def g_def Let_def)
  moreover from this have "generation_of (with_generation k stage claim recovery) stage claim recovery = ?old @ [g]"
    by (simp add: generation_of_def)
  then have "latest_generation (Some (with_generation k stage claim recovery)) stage claim recovery = g"
    by (simp add: latest_generation_def g_def)
  ultimately show thesis using that generation_of_mem by metis
qed

lemma wp_prepare:
  assumes "lawful_writer ctx" "running ctx st" "c = current ctx st"
    and Q: "\<And>k' st'. running ctx st' \<Longrightarrow> k' = current ctx st' \<Longrightarrow> ls_recovered st' = ls_recovered st \<Longrightarrow>
      ready ctx (stage, claim, recovery, latest_generation k' (stage_value stage) claim recovery) st' \<Longrightarrow> Q k' st'"
    and E: "\<And>e st'. in_step ctx st' \<Longrightarrow> E e st'"
  shows "wp (prepare_generation ctx c (stage_value stage) claim recovery) Q E st"
proof (cases c)
  case None
  with assms(2,3) have "starting_checkpoint ctx = None" by (simp add: running_def)
  with Q [OF assms(2,3)] None show ?thesis by (simp add: prepare_generation_def wp_simps ready_def)
next
  case (Some k)
  with assms(2,3) have sound: "sound_checkpoint ctx k" by (metis in_step_current running_in_step)
  show ?thesis
  proof (cases "8 \<le> length (kp_generations k)")
    case True
    with Some E [OF running_in_step [OF assms(2)]] show ?thesis
      by (simp add: prepare_generation_def wp_simps)
  next
    case False
    obtain g where g: "kp_generations (with_generation k (stage_value stage) claim recovery) =
          kp_generations k @ [token_generation (stage, claim, recovery, g)]"
        "token_generation (stage, claim, recovery, g) \<notin> set (kp_generations k)"
        "latest_generation (Some (with_generation k (stage_value stage) claim recovery)) (stage_value stage) claim
          recovery = g"
      using with_generation_spec [of k "stage_value stage" claim recovery]
      by (auto simp: token_generation_def)
    have sound': "sound_checkpoint ctx (with_generation k (stage_value stage) claim recovery)"
      using sound False g(1,2)
      by (simp add: sound_checkpoint_def within_bounds_def) (simp add: with_generation_def Let_def)
    have latest: "latest_generation (Some (k'\<lparr>kp_last_accessed_at := t\<rparr>)) n claim recovery =
        latest_generation (Some k') n claim recovery" for k' t n
      by (simp add: latest_generation_def generation_of_def)
    have unsent: "starting_checkpoint ctx \<noteq> None \<longrightarrow> (stage, claim, recovery, g) \<notin> sent_tokens st"
      using g(2) assms(2,3) Some by (force simp: running_def in_step_def)
    show ?thesis unfolding Some prepare_generation_def option.case if_not_P [OF False] append_written_def wp_bind
    proof (rule wp_persist [OF assms(1)], unfold wp_simps)
      fix t s
      let ?k = "(with_generation k (stage_value stage) claim recovery)\<lparr>kp_last_accessed_at := t\<rparr>"
      let ?st = "(st\<lparr>ls_env := s\<rparr>)\<lparr>ls_written := ls_written (st\<lparr>ls_env := s\<rparr>) @ [?k]\<rparr>"
      have "running ctx ?st"
        using assms(2,3) Some sound' g(1) by (intro running_append) auto
      moreover have "ready ctx (stage, claim, recovery, g) ?st"
        using unsent g(1) by (simp add: ready_def sent_tokens_def)
      ultimately show "Q (Some ?k) ?st"
        using g(3) by (intro Q) (simp_all add: latest current_def)
    qed (simp add: E running_in_step [OF assms(2)])
  qed
qed

text \<open>A model call.\<close>

lemma running_send:
  assumes "running ctx st" "ready ctx token st"
  shows "running ctx (st\<lparr>ls_sent := ls_sent st @ [(token, length (ls_written st))]\<rparr>)"
proof -
  let ?st = "st\<lparr>ls_sent := ls_sent st @ [(token, length (ls_written st))]\<rparr>"
  have cur: "current ctx ?st = current ctx st" by (simp add: current_def)
  have "sends_traced ?st \<and> current ctx st \<noteq> None \<and>
      (\<forall>k. current ctx st = Some k \<longrightarrow> token_generation ` sent_tokens ?st \<subseteq> set (kp_generations k))"
    if tracked: "starting_checkpoint ctx \<noteq> None"
  proof (intro conjI)
    from assms tracked have r: "ls_written st \<noteq> []" "token \<notin> sent_tokens st"
        "token_generation token \<in> set (kp_generations (last (ls_written st)))"
      and t: "sends_traced st" "current ctx st \<noteq> None"
      by (auto simp: ready_def running_def in_step_def)
    from r t(1) show "sends_traced ?st"
      by (auto simp: sends_traced_def sent_tokens_def last_conv_nth)
    from t(2) show "current ctx st \<noteq> None" .
    from r assms tracked
    show "\<forall>k. current ctx st = Some k \<longrightarrow> token_generation ` sent_tokens ?st \<subseteq> set (kp_generations k)"
      by (auto simp: running_def in_step_def sent_tokens_def current_def)
  qed
  with assms(1) cur show ?thesis by (auto simp: running_def in_step_def)
qed

lemma wp_send:
  assumes "running ctx st" "ready ctx token st"
    and Q: "\<And>x st' s s'. op s = (Inr x, s') \<Longrightarrow> running ctx st' \<Longrightarrow> current ctx st' = current ctx st \<Longrightarrow>
      ls_recovered st' = ls_recovered st \<Longrightarrow> ls_checkpoint st' = ls_checkpoint st \<Longrightarrow> Q x st'"
    and E: "\<And>e st'. in_step ctx st' \<Longrightarrow> E e st'"
  shows "wp (send_stage ctx token op) Q E st"
proof -
  let ?st = "st\<lparr>ls_sent := ls_sent st @ [(token, length (ls_written st))]\<rparr>"
  have run: "running ctx ?st" by (rule running_send [OF assms(1,2)])
  obtain r s where op: "op (ls_env st) = (r, s)" by force
  show ?thesis
  proof (cases r)
    case (Inr x)
    have "Q x (?st\<lparr>ls_env := s\<rparr>)"
      using op Inr run by (intro Q) (simp_all, simp add: current_def)
    with op Inr show ?thesis by (simp add: wp_def send_stage_def await_def)
  next
    case (Inl e)
    have "wp (emit_audit ctx event) (\<lambda>_. E e) E (?st\<lparr>ls_env := s\<rparr>)" for event
      using run by (intro wp_emit) (auto intro!: E)
    then have "wp (bind_l2 (emit_audit ctx event) (\<lambda>_. raise_l2 e)) Q E (?st\<lparr>ls_env := s\<rparr>)" for event
      by (simp add: wp_simps)
    moreover have "E e (?st\<lparr>ls_env := s\<rparr>)" using run by (auto intro!: E)
    ultimately show ?thesis
      using op Inl by (simp add: wp_def send_stage_def await_def split: option.split)
  qed
qed

section \<open>Claims\<close>

text \<open>
  The local variables of a claim between its steps. What a claim that had recovered before must
  keep: its recovery is over, and no other is reported.
\<close>

definition claim_ok :: "'s l2_context \<Rightarrow> claim_state \<Rightarrow> 's l2_state \<Rightarrow> bool" where
  "claim_ok ctx l st \<longleftrightarrow> running ctx st \<and> cl_checkpoint l = current ctx st \<and> cl_attempts l \<le> 8 \<and>
     length (cl_evidence l) \<le> 12 \<and> (cl_recovery l \<noteq> None \<longrightarrow> cl_recovered l)"

definition continues :: "claim_state \<Rightarrow> claim_state \<Rightarrow> bool" where
  "continues l l' \<longleftrightarrow> (cl_recovered l \<longrightarrow> cl_recovered l' \<and> cl_recovery l' = cl_recovery l)"

definition claim_over :: "'s l2_context \<Rightarrow> claim_state \<Rightarrow> claim_return \<Rightarrow> 's l2_state \<Rightarrow> bool" where
  "claim_over ctx l0 r st \<longleftrightarrow> running ctx st \<and> cl_attempts (snd r) \<le> 8 \<and> length (cl_evidence (snd r)) \<le> 12 \<and>
     (cl_recovery (snd r) \<noteq> None \<longrightarrow> cl_recovered (snd r)) \<and> continues l0 (snd r) \<and> result_earned ctx (fst r)"

lemma continues_trans: "continues l l1 \<Longrightarrow> continues l1 l2 \<Longrightarrow> continues l l2"
  by (auto simp: continues_def)

lemma continues_refl [simp]: "continues l l"
  by (simp add: continues_def)

definition same_claim :: "claim_state \<Rightarrow> claim_state \<Rightarrow> bool" where
  "same_claim l l' \<longleftrightarrow> cl_evidence l' = cl_evidence l \<and> cl_attempts l' = cl_attempts l \<and>
     cl_recovered l' = cl_recovered l \<and> cl_recovery l' = cl_recovery l"

lemma insufficient_earned [simp]:
  "status \<noteq> Verified \<Longrightarrow> result_earned ctx (insufficient_result claim status reason)"
  by (simp add: result_earned_def insufficient_result_def)

lemma claim_over_insufficient:
  assumes "claim_ok ctx l st" "continues l0 l" "status \<noteq> Verified"
  shows "claim_over ctx l0 (insufficient_result claim status reason, l) st"
  using assms by (simp add: claim_over_def claim_ok_def)

lemma wp_verify:
  assumes "running ctx st"
    and Q: "\<And>st'. running ctx st' \<Longrightarrow> current ctx st' = current ctx st \<Longrightarrow>
      Q (lx_deterministic ctx (ic_candidate c) evidence) st'"
    and E: "\<And>e st'. in_step ctx st' \<Longrightarrow> E e st'"
  shows "wp (verify_and_record ctx c evidence phase) Q E st"
  unfolding verify_and_record_def Let_def wp_simps
  by (rule wp_emit) (simp_all add: Q E assms(1) running_in_step)

lemma wp_advance_claim:
  assumes "lawful_writer ctx" "claim_ok ctx l st"
    and "\<And>u. up_attempts (change u) = up_attempts u" "\<And>u. up_completed_results (change u) = up_completed_results u"
    and "\<And>u. length (up_evidence (change u)) \<le> max 12 (length (up_evidence u))"
    and Q: "\<And>l' st'. claim_ok ctx l' st' \<Longrightarrow> same_claim l l' \<Longrightarrow> Q l' st'"
    and E: "\<And>e st'. in_step ctx st' \<Longrightarrow> E e st'"
  shows "wp (advance_claim ctx l stage change) Q E st"
  unfolding advance_claim_def wp_simps
proof (rule wp_advance [OF assms(1)])
  fix k' st'
  assume "running ctx st'" "k' = current ctx st'"
  with assms(2) show "Q (l\<lparr>cl_checkpoint := k'\<rparr>) st'"
    by (intro Q) (simp_all add: claim_ok_def same_claim_def)
next
  show "length (up_evidence (change (updates (cl_attempts l) (cl_recovered l)))) \<le> 12"
    using assms(5) [of "updates (cl_attempts l) (cl_recovered l)"] by (simp add: updates_def)
qed (use assms in \<open>simp_all add: claim_ok_def updates_def E\<close>)

lemma reserved_bound: "attempts \<le> 8 \<Longrightarrow> reserve_recovery_attempts attempts reasons \<le> 8"
  by (simp add: reserve_recovery_attempts_def)

lemma bounded_evidence_length: "length (bounded_evidence es) \<le> 12"
  by (simp add: bounded_evidence_def bounded_unique_evidence_def bounded_unique_from_take)

lemma wp_try_recover:
  assumes "running ctx st"
    and none: "\<And>st'. running ctx st' \<Longrightarrow> current ctx st' = current ctx st \<Longrightarrow> Q None st'"
    and some: "\<And>outcome st'. running ctx st' \<Longrightarrow> current ctx st' = current ctx st \<Longrightarrow> \<not> has_recovered \<Longrightarrow>
      attempts \<le> ro_attempts_used outcome \<Longrightarrow> ro_attempts_used outcome \<le> 8 \<Longrightarrow> Q (Some outcome) st'"
    and E: "\<And>e st'. in_step ctx st' \<Longrightarrow> E e st'"
  shows "wp (try_recover ctx c evidence reasons attempts has_recovered) Q E st"
  using assms(1) none some E
  by (auto simp: try_recover_def wp_simps running_in_step intro!: wp_lease wp_await)

lemma wp_reserve_recovery:
  assumes "lawful_writer ctx" "claim_ok ctx l st"
    and Q: "\<And>l' st'. claim_ok ctx l' st' \<Longrightarrow> same_claim l l' \<Longrightarrow> Q l' st'"
    and E: "\<And>e st'. in_step ctx st' \<Longrightarrow> E e st'"
  shows "wp (reserve_recovery ctx c reasons reason l) Q E st"
proof (cases "cl_attempts l < reserved_for l reasons")
  case False
  with Q [OF assms(2)] show ?thesis by (simp add: reserve_recovery_def wp_simps same_claim_def)
next
  case True
  have "reserved_for l reasons \<le> 8"
    using assms(2) by (simp add: reserved_for_def reserved_bound claim_ok_def)
  with True show ?thesis
    unfolding reserve_recovery_def if_P [OF True] wp_simps
    by (intro wp_advance [OF assms(1)]) (use assms(2) in \<open>auto simp: claim_ok_def updates_def same_claim_def intro!: Q E\<close>)
qed

lemma wp_recover_claim:
  assumes "lawful_writer ctx" "claim_ok ctx l st"
    and gone: "\<And>reserved st'. running ctx st' \<Longrightarrow> reserved \<le> 8 \<Longrightarrow> Q (Inl reserved) st'"
    and regained: "\<And>l' st'. claim_ok ctx l' st' \<Longrightarrow> \<not> cl_recovered l \<Longrightarrow> cl_recovered l' \<Longrightarrow> Q (Inr l') st'"
    and E: "\<And>e st'. in_step ctx st' \<Longrightarrow> E e st'"
  shows "wp (recover_claim ctx c reasons reason gate l) Q E st"
  unfolding recover_claim_def wp_simps
proof (rule wp_reserve_recovery [OF assms(1,2)], goal_cases)
  case l1: (1 l1 st1)
  have reserved: "reserved_for l reasons \<le> 8"
    using assms(2) by (simp add: reserved_for_def reserved_bound claim_ok_def)
  show ?case
  proof (rule wp_try_recover, goal_cases)
    case 1
    show ?case using l1(1) by (simp add: claim_ok_def)
  next
    case (2 st')
    with gone reserved show ?case by simp
  next
    case (3 outcome st')
    with l1 reserved show ?case
      unfolding option.case Let_def wp_simps
      by (intro wp_emit wp_advance_claim [OF assms(1)] regained)
        (auto simp: claim_ok_def same_claim_def bounded_evidence_length le_max_iff_disj running_in_step intro!: E)
  qed (rule E)
qed (rule E)

subsection \<open>The two gates\<close>

lemma wp_deterministic_gate:
  assumes "lawful_writer ctx" "claim_ok ctx l st"
    and over: "\<And>r st'. claim_over ctx l r st' \<Longrightarrow> Q (Inl r) st'"
    and passed: "\<And>d l' c' st'. claim_ok ctx l' st' \<Longrightarrow> continues l l' \<Longrightarrow> result_passed d \<Longrightarrow>
      d = lx_deterministic ctx (ic_candidate c') (cl_evidence l') \<Longrightarrow>
      (if cl_recovered l' \<and> \<not> cl_recovered l then rebuilt c (cl_evidence l') = Inr c' else c' = c) \<Longrightarrow> Q (Inr (d, l')) st'"
    and E: "\<And>e st'. in_step ctx st' \<Longrightarrow> E e st'"
  shows "wp (deterministic_gate ctx c l) Q E st"
  unfolding deterministic_gate_def wp_simps
proof (rule wp_verify, goal_cases)
  case 1
  show ?case using assms(2) by (simp add: claim_ok_def)
next
  case st1: (2 st1)
  let ?d = "lx_deterministic ctx (ic_candidate c) (cl_evidence l)"
  have l: "claim_ok ctx l st1" using st1 assms(2) by (simp add: claim_ok_def)
  show ?case
  proof (cases "result_passed ?d")
    case True
    with passed [OF l, of ?d c] show ?thesis by simp
  next
    case False
    show ?thesis unfolding if_not_P [OF False]
    proof (rule wp_recover_claim [OF assms(1) l], goal_cases)
      case (1 reserved st')
      with l have "claim_over ctx l (gave_up c DeterministicFailed (failure_reason ?d) l reserved) st'"
        by (simp add: claim_over_def gave_up_def claim_ok_def continues_def)
      with over show ?case by simp
    next
      case l1: (2 l1 st')
      then have st': "running ctx st'" "continues l l1" by (simp_all add: claim_ok_def continues_def)
      show ?case
      proof (cases "rebuilt c (cl_evidence l1)")
        case (Inl e)
        with E [OF running_in_step [OF st'(1)]] show ?thesis by simp
      next
        case (Inr c1)
        show ?thesis unfolding Inr sum.case
        proof (rule wp_verify [OF st'(1)], goal_cases)
          case (1 st2)
          with l1(1) have "claim_ok ctx l1 st2" by (simp add: claim_ok_def)
          with Inr l1 st'(2) show ?case
            by (auto intro!: passed over claim_over_insufficient)
        qed (rule E)
      qed
    qed (rule E)
  qed
qed (rule E)

lemmas wp_prepare_verifier = wp_prepare [where stage = VerifierStage, unfolded stage_value.simps]
lemmas wp_prepare_compliance = wp_prepare [where stage = ComplianceStage, unfolded stage_value.simps]
lemmas wp_prepare_planning = wp_prepare [where stage = Planning, unfolded stage_value.simps]

lemma wp_send_semantic:
  assumes "lawful_writer ctx" "claim_ok ctx l st"
    and over: "\<And>r st'. claim_over ctx l r st' \<Longrightarrow> Q (Inl r) st'"
    and sent: "\<And>semantic l' st' suffix g s s'. claim_ok ctx l' st' \<Longrightarrow> cl_evidence l' = cl_evidence l \<Longrightarrow>
      cl_recovered l' = cl_recovered l \<Longrightarrow> cl_recovery l' = cl_recovery l \<Longrightarrow>
      lx_semantic ctx c (cl_evidence l) d suffix g s = (Inr semantic, s') \<Longrightarrow> Q (Inr (semantic, l')) st'"
    and E: "\<And>e st'. in_step ctx st' \<Longrightarrow> E e st'"
  shows "wp (send_semantic ctx c d l) Q E st"
  unfolding send_semantic_def Let_def wp_simps
proof (rule wp_prepare_verifier [OF assms(1)], goal_cases)
  case (3 k st1)
  let ?l1 = "l\<lparr>cl_checkpoint := k\<rparr>"
  have l1: "claim_ok ctx ?l1 st1" using assms(2) 3(1,2) by (simp add: claim_ok_def)
  have lost: "Q (Inl (insufficient_result (ic_claim_id c) Insufficient ''lease_lost'', l')) st'"
    if "claim_ok ctx l' st'" "cl_recovered l' = cl_recovered l" "cl_recovery l' = cl_recovery l" for l' st'
    using that by (intro over) (simp add: claim_over_def claim_ok_def continues_def)
  show ?case
  proof (rule wp_lease, goal_cases)
    case (1 live s)
    have l1: "claim_ok ctx ?l1 (st1\<lparr>ls_env := s\<rparr>)" using l1 by (simp add: claim_ok_def)
    show ?case
    proof (cases live)
      case False
      with lost [OF l1] show ?thesis by simp
    next
      case True
      show ?thesis
      proof (cases "idempotency_suffix (lx_run_id ctx) ''verifier'' (Some (ic_claim_id c)) (cl_recovered l)
          (int (latest_generation k ''verifier'' (Some (ic_claim_id c)) (cl_recovered l)))")
        case (Inl e)
        with True 3(1) show ?thesis by (simp add: E running_in_step)
      next
        case (Inr suffix)
        have live: "\<not> \<not> live" using True by simp
        show ?thesis unfolding Inr sum.case if_not_P [OF live]
        proof (rule wp_send, goal_cases)
          case 1
          show ?case using 3(1) by simp
        next
          case 2
          show ?case using 3(4) by simp
        next
          case sent': (3 semantic st2 s1 s2)
          let ?l2 = "?l1\<lparr>cl_semantics := cl_semantics l @ [semantic]\<rparr>"
          have l2: "claim_ok ctx ?l2 st2" using l1 sent'(2,3) by (simp add: claim_ok_def)
          have rest: "wp (lease_is_live ctx) (\<lambda>live. if \<not> live
              then Q (Inl (insufficient_result (ic_claim_id c) Insufficient ''lease_lost'', l3))
              else Q (Inr (semantic, l3))) E st3"
            if "claim_ok ctx l3 st3" "cl_evidence l3 = cl_evidence l" "cl_recovered l3 = cl_recovered l"
              "cl_recovery l3 = cl_recovery l" for l3 st3
            using that sent'(1) by (intro wp_lease) (auto intro!: lost sent simp: claim_ok_def)
          show ?case
          proof (rule wp_emit, goal_cases)
            case (1 s')
            show ?case
            proof (cases k)
              case None
              then show ?thesis using l2 by (auto intro!: rest simp: claim_ok_def)
            next
              case (Some kp)
              have l2: "claim_ok ctx (?l1\<lparr>cl_semantics := cl_semantics l @ [semantic]\<rparr>)
                  (st2\<lparr>ls_audit_events := ls_audit_events st2 @ [SemanticAudit (ic_claim_id c) semantic], ls_env := s'\<rparr>)"
                using l2 by (simp add: claim_ok_def)
              show ?thesis unfolding Some option.case
                by (rule wp_advance_claim [OF assms(1) l2 [unfolded Some]])
                  (simp_all add: rest same_claim_def E)
            qed
          next
            case (2 e s')
            show ?case using sent'(2) by (simp add: E running_in_step)
          qed
        qed (rule E)
      qed
    qed
  qed
qed (use assms(2) E in \<open>auto simp: claim_ok_def\<close>)

definition supported :: "'s l2_context \<Rightarrow> identified_candidate \<Rightarrow> evidence list \<Rightarrow> deterministic_result \<Rightarrow> bool" where
  "supported ctx c evidence d \<longleftrightarrow> d = lx_deterministic ctx (ic_candidate c) evidence \<and> result_passed d \<and>
     (\<exists>suffix g s semantic s'. lx_semantic ctx c evidence d suffix g s = (Inr semantic, s') \<and>
        sn_supports_verdict (sr_product semantic))"

lemma supportedI:
  assumes "d = lx_deterministic ctx (ic_candidate c) evidence" "result_passed d"
    and "lx_semantic ctx c evidence d suffix g s = (Inr semantic, s')" "sn_supports_verdict (sr_product semantic)"
  shows "supported ctx c evidence d"
  unfolding supported_def using assms by blast

lemma verified_gated:
  assumes "supported ctx c evidence d" "verified_result c d = Inr r"
  shows "result_earned ctx r"
proof -
  from assms(2) have "cr_claim_id r = ic_claim_id c" "cr_verdict r = cc_proposed_verdict (ic_candidate c)"
      "cr_citations r = dr_citations d"
    by (auto simp: verified_result_def checked_result_def split: if_splits)
  moreover from assms(1) obtain suffix g s s' and semantic :: semantic_outcome where
    "d = lx_deterministic ctx (ic_candidate c) evidence" "result_passed d"
    "lx_semantic ctx c evidence d suffix g s = (Inr semantic, s')" "sn_supports_verdict (sr_product semantic)"
    unfolding supported_def by blast
  ultimately have "gated ctx r" unfolding gated_def by metis
  then show ?thesis by (simp add: result_earned_def)
qed

lemma wp_accept:
  assumes "lawful_writer ctx" "claim_ok ctx l st" "continues l0 l" "supported ctx c (cl_evidence l) d"
    and Q: "\<And>r st'. claim_over ctx l0 r st' \<Longrightarrow> Q r st'"
    and E: "\<And>e st'. in_step ctx st' \<Longrightarrow> E e st'"
  shows "wp (accept_claim ctx c d l) Q E st"
  unfolding accept_claim_def wp_simps
proof (rule wp_advance_claim [OF assms(1,2)], goal_cases)
  case (4 l1 st1)
  show ?case
  proof (cases "verified_result c d")
    case (Inl e)
    with 4(1) E [of st1 e] show ?thesis by (simp add: claim_ok_def running_in_step)
  next
    case (Inr r)
    with 4 assms(3) verified_gated [OF assms(4) Inr] show ?thesis
      by (auto intro!: Q simp: claim_over_def claim_ok_def same_claim_def continues_def)
  qed
qed (use assms(2) E in \<open>simp_all add: claim_ok_def le_max_iff_disj\<close>)

lemma wp_semantic_recovery:
  assumes "lawful_writer ctx" "claim_ok ctx l st" "continues l0 l"
    and Q: "\<And>r st'. claim_over ctx l0 r st' \<Longrightarrow> Q r st'"
    and E: "\<And>e st'. in_step ctx st' \<Longrightarrow> E e st'"
  shows "wp (semantic_recovery ctx c semantic l) Q E st"
  unfolding semantic_recovery_def Let_def wp_simps
proof (rule wp_recover_claim [OF assms(1,2)], goal_cases)
  case (1 reserved st')
  with assms(2,3) show ?case
    by (auto intro!: Q simp: claim_over_def gave_up_def claim_ok_def continues_def)
next
  case l1: (2 l1 st1)
  then have run: "running ctx st1" and c01: "continues l0 l1"
    using assms(3) by (auto simp: claim_ok_def continues_def)
  show ?case
  proof (cases "rebuilt c (cl_evidence l1)")
    case (Inl e)
    with E [OF running_in_step [OF run]] show ?thesis by simp
  next
    case (Inr c1)
    let ?d = "lx_deterministic ctx (ic_candidate c1) (cl_evidence l1)"
    show ?thesis unfolding Inr sum.case
    proof (rule wp_verify [OF run], goal_cases)
      case (1 st2)
      then have ok: "claim_ok ctx l1 st2" using l1(1) by (simp add: claim_ok_def)
      show ?case
      proof (cases "result_passed ?d")
        case False
        with ok c01 show ?thesis by (auto intro!: Q claim_over_insufficient)
      next
        case True
        have passed: "\<not> \<not> result_passed ?d" using True by simp
        show ?thesis unfolding if_not_P [OF passed]
        proof (rule wp_advance_claim [OF assms(1) ok], goal_cases)
          case l2: (4 l2 st3)
          then have c12: "continues l1 l2" by (simp add: same_claim_def continues_def)
          show ?case
          proof (rule wp_send_semantic [OF assms(1) l2(1)], goal_cases)
            case (1 r st')
            then have "claim_over ctx l0 r st'"
              using c01 c12 by (auto simp: claim_over_def continues_def)
            with Q show ?case by simp
          next
            case l3: (2 again l3 st4 suffix g s s')
            have c23: "continues l2 l3" using l3 by (simp add: continues_def)
            have c03: "continues l0 l3" using c01 c12 c23 continues_trans by blast
            have same: "cl_evidence l3 = cl_evidence l1" using l2(2) l3(2) by (simp add: same_claim_def)
            show ?case
            proof (cases "sn_supports_verdict (sr_product again)")
              case False
              with l3(1) c03 show ?thesis by (auto intro!: Q claim_over_insufficient)
            next
              case sup: True
              have "lx_semantic ctx c1 (cl_evidence l3) ?d suffix g s = (Inr again, s')"
                using l3(2,5) by simp
              with True sup same have "supported ctx c1 (cl_evidence l3) ?d"
                by (intro supportedI) simp_all
              then show ?thesis
                unfolding sum.case prod.case if_P [OF sup]
                by (rule wp_accept [OF assms(1) l3(1) c03]) (simp_all add: Q E)
            qed
          qed (rule E)
        qed (use l1(1) E in \<open>simp_all add: claim_ok_def le_max_iff_disj\<close>)
      qed
    qed (rule E)
  qed
qed (rule E)

lemma wp_both_gates:
  assumes "lawful_writer ctx" "claim_ok ctx l st"
    and Q: "\<And>r st'. claim_over ctx l r st' \<Longrightarrow> Q r st'"
    and E: "\<And>e st'. in_step ctx st' \<Longrightarrow> E e st'"
  shows "wp (both_gates ctx c l) Q E st"
  unfolding both_gates_def wp_simps
proof (rule wp_deterministic_gate [OF assms(1,2)], goal_cases)
  case (1 r st')
  with Q show ?case by simp
next
  case l1: (2 d l1 c1 st1)
  show ?case unfolding sum.case prod.case wp_simps
  proof (rule wp_advance_claim [OF assms(1) l1(1)], goal_cases)
    case l2: (4 l2 st2)
    then have run2: "running ctx st2" and c02: "continues l l2" and same: "cl_evidence l2 = cl_evidence l1"
        "cl_recovered l2 = cl_recovered l1"
      using l1(2) by (auto simp: claim_ok_def same_claim_def continues_def)
    have gate: "wp (send_semantic ctx active d1 l2) (\<lambda>x. case x of Inl r \<Rightarrow> Q r
          | Inr (semantic, l3) \<Rightarrow> if sn_supports_verdict (sr_product semantic)
              then wp (accept_claim ctx active d1 l3) Q E else wp (semantic_recovery ctx active semantic l3) Q E) E st3"
      if "claim_ok ctx l2 st3" "d1 = lx_deterministic ctx (ic_candidate active) (cl_evidence l2)" "result_passed d1"
      for active d1 st3
    proof (rule wp_send_semantic [OF assms(1) that(1)], goal_cases)
      case (1 r st')
      then have "claim_over ctx l r st'" using c02 by (auto simp: claim_over_def continues_def)
      with Q show ?case by simp
    next
      case l3: (2 semantic l3 st4 suffix g s s')
      have c03: "continues l l3" using c02 l3(3,4) by (simp add: continues_def)
      show ?case
      proof (cases "sn_supports_verdict (sr_product semantic)")
        case True
        have "lx_semantic ctx active (cl_evidence l3) d1 suffix g s = (Inr semantic, s')"
          using l3(2,5) by simp
        with True that(2,3) l3(2) have "supported ctx active (cl_evidence l3) d1"
          by (intro supportedI) simp_all
        then show ?thesis unfolding sum.case prod.case if_P [OF True]
          by (rule wp_accept [OF assms(1) l3(1) c03]) (simp_all add: Q E)
      next
        case False
        show ?thesis unfolding sum.case prod.case if_not_P [OF False]
          by (rule wp_semantic_recovery [OF assms(1) l3(1) c03]) (simp_all add: Q E)
      qed
    qed (rule E)
    show ?case
    proof (cases "cl_recovered l2")
      case False
      with same(2) l1(5) have c1: "c1 = c" and fresh: "\<not> cl_recovered l"
        using c02 by (auto simp: continues_def)
      have d: "d = lx_deterministic ctx (ic_candidate c) (cl_evidence l2)"
        using l1(4) c1 same(1) by simp
      show ?thesis using False fresh gate [OF l2(1) d l1(3)] by (simp add: wp_simps)
    next
      case True
      show ?thesis
      proof (cases "rebuilt c (cl_evidence l2)")
        case (Inl e)
        with True E [OF running_in_step [OF run2]] show ?thesis by simp
      next
        case (Inr active)
        show ?thesis
        proof (cases "cl_recovered l")
          case False
          with True Inr same l1(5) have "c1 = active" by simp
          with l1(4) same(1) have d: "d = lx_deterministic ctx (ic_candidate active) (cl_evidence l2)" by simp
          show ?thesis using True False Inr gate [OF l2(1) d l1(3)] by (simp add: wp_simps)
        next
          case resumed: True
          let ?d = "lx_deterministic ctx (ic_candidate active) (cl_evidence l2)"
          have "wp (verify_and_record ctx active (cl_evidence l2) ''resume_recovery'') (\<lambda>d1.
              if cl_recovered l \<and> \<not> result_passed d1
              then Q (insufficient_result (ic_claim_id active) DeterministicFailed (failure_reason d1), l2)
              else wp (send_semantic ctx active d1 l2) (\<lambda>x. case x of Inl r \<Rightarrow> Q r
                | Inr (semantic, l3) \<Rightarrow> if sn_supports_verdict (sr_product semantic)
                    then wp (accept_claim ctx active d1 l3) Q E
                    else wp (semantic_recovery ctx active semantic l3) Q E) E) E st2"
          proof (rule wp_verify [OF run2], goal_cases)
            case (1 st3)
            then have ok: "claim_ok ctx l2 st3" using l2(1) by (simp add: claim_ok_def)
            show ?case
            proof (cases "result_passed ?d")
              case False
              with ok c02 resumed show ?thesis by (auto intro!: Q claim_over_insufficient)
            next
              case True
              with gate [OF ok refl True] show ?thesis by simp
            qed
          qed (rule E)
          with True resumed Inr show ?thesis by (simp add: wp_simps)
        qed
      qed
    qed
  qed (use l1(1) E in \<open>simp_all add: claim_ok_def le_max_iff_disj\<close>)
qed (rule E)

lemma wp_one_claim:
  assumes "lawful_writer ctx" "running ctx st" "checkpoint = current ctx st" "attempts \<le> 8" "length evidence \<le> 12"
    and Q: "\<And>r l st'. running ctx st' \<Longrightarrow> cl_attempts l \<le> 8 \<Longrightarrow> length (cl_evidence l) \<le> 12 \<Longrightarrow> result_earned ctx r \<Longrightarrow>
      (cl_recovery l \<noteq> None \<longrightarrow> \<not> has_recovered \<and> cl_recovered l) \<Longrightarrow> (has_recovered \<longrightarrow> cl_recovered l) \<Longrightarrow> Q (r, l) st'"
    and E: "\<And>e st'. in_step ctx st' \<Longrightarrow> E e st'"
  shows "wp (one_claim ctx checkpoint c evidence attempts has_recovered) Q E st"
proof -
  let ?l = "\<lparr>cl_checkpoint = checkpoint, cl_evidence = evidence, cl_attempts = attempts,
      cl_recovered = has_recovered, cl_semantics = [], cl_recovery = None\<rparr>"
  have l: "claim_ok ctx ?l st" using assms(2-5) by (simp add: claim_ok_def)
  have over: "Q r st'" if "claim_over ctx ?l r st'" for r st'
    using that by (cases r) (auto intro!: Q simp: claim_over_def continues_def)
  have gates: "wp (if cc_proposed_verdict (ic_candidate c) = InsufficientEvidence
      then ret (insufficient_result (ic_claim_id c) Insufficient ''proposed_insufficient'', ?l)
      else both_gates ctx c ?l) Q E st"
    using wp_both_gates [OF assms(1) l, of Q E c] claim_over_insufficient [OF l] over E by (simp add: wp_simps)
  show ?thesis
  proof (cases "\<exists>k. checkpoint = Some k \<and> kp_stage k = RecoveryReserved")
    case False
    then have "one_claim ctx checkpoint c evidence attempts has_recovered =
        (if cc_proposed_verdict (ic_candidate c) = InsufficientEvidence
         then ret (insufficient_result (ic_claim_id c) Insufficient ''proposed_insufficient'', ?l)
         else both_gates ctx c ?l)"
      by (cases checkpoint) (auto simp: one_claim_def Let_def)
    with gates show ?thesis by simp
  next
    case True
    then obtain k :: run_checkpoint where k: "checkpoint = Some k" "kp_stage k = RecoveryReserved" by blast
    have "sound_checkpoint ctx k" using assms(2,3) k(1) by (metis in_step_current running_in_step)
    then have "claim_over ctx ?l (insufficient_result (ic_claim_id c) Insufficient ''recovery_result_lost'',
        ?l\<lparr>cl_attempts := kp_tool_attempts_used k, cl_recovered := True\<rparr>) st"
      using assms(2,5) by (simp add: claim_over_def continues_def sound_checkpoint_def within_bounds_def)
    with k over E [OF running_in_step [OF assms(2)]] show ?thesis by (simp add: one_claim_def Let_def wp_simps)
  qed
qed

section \<open>The stages of the attempt\<close>

definition body_ok :: "'s l2_context \<Rightarrow> 's l2_state \<Rightarrow> bool" where
  "body_ok ctx st \<longleftrightarrow> running ctx st \<and> ls_checkpoint st = current ctx st"

definition ended :: "'s l2_context \<Rightarrow> l2_outcome \<Rightarrow> 's l2_state \<Rightarrow> bool" where
  "ended ctx out st \<longleftrightarrow> settled ctx st \<and> list_all (result_earned ctx) (lo_results out) \<and>
     length (lo_recovery_outcomes out) \<le> 1 \<and> lo_checkpoints out = ls_written st"

lemma body_ok_frame [simp]:
  "body_ok ctx (st\<lparr>ls_env := x1\<rparr>) = body_ok ctx st"
  "body_ok ctx (st\<lparr>ls_reservations := x2\<rparr>) = body_ok ctx st"
  "body_ok ctx (st\<lparr>ls_recovered := x3\<rparr>) = body_ok ctx st"
  by (simp_all add: body_ok_def)

lemma body_ok_running [dest]: "body_ok ctx st \<Longrightarrow> running ctx st"
  by (simp add: body_ok_def)

lemma body_settled: "body_ok ctx st \<Longrightarrow> settled ctx st"
  by (auto simp: body_ok_def intro: in_step_settled)

lemma ended_plain [simp]: "ended ctx (plain_outcome st) st = settled ctx st"
  "ended ctx ((plain_outcome st)\<lparr>lo_parse_fault := x\<rparr>) st = settled ctx st"
  "ended ctx ((plain_outcome st)\<lparr>lo_egress_error := x\<rparr>) st = settled ctx st"
  "ended ctx ((plain_outcome st)\<lparr>lo_provider_error := x\<rparr>) st = settled ctx st"
  by (simp_all add: ended_def plain_outcome_def)

lemma wp_fault: "wp (l2_fault reason) Q E st = Q ((plain_outcome st)\<lparr>lo_parse_fault := Some reason\<rparr>) st"
  by (simp add: l2_fault_def wp_simps)

lemma wp_while_live:
  assumes "settled ctx st"
    and over: "\<And>out st'. ended ctx out st' \<Longrightarrow> Q (Inl out) st'"
    and live: "\<And>s. wp m Q E (st\<lparr>ls_env := s\<rparr>)"
  shows "wp (while_live ctx m) Q E st"
  unfolding while_live_def wp_simps
  by (rule wp_lease) (simp add: live over wp_fault assms(1))

lemma wp_set_checkpoint: "wp (set_checkpoint k) Q E st = Q () (st\<lparr>ls_checkpoint := k\<rparr>)"
  by (simp add: set_checkpoint_def wp_simps)

lemma wp_receive: "wp (receive r) Q E st = Q () (st\<lparr>ls_reservations := ls_reservations st @ [r]\<rparr>)"
  by (simp add: receive_def wp_simps)

lemma body_ok_set: "running ctx st \<Longrightarrow> k = current ctx st \<Longrightarrow> body_ok ctx (st\<lparr>ls_checkpoint := k\<rparr>)"
  by (simp add: body_ok_def running_checkpoint)

lemma wp_write:
  assumes "lawful_writer ctx" "body_ok ctx st"
    and "\<And>u. up_attempts (change u) = up_attempts u" "\<And>u. length (up_evidence (change u)) \<le> max 12 (length (up_evidence u))"
    and "\<And>u. list_all (result_earned ctx) (up_completed_results u) \<Longrightarrow>
      list_all (result_earned ctx) (up_completed_results (change u))"
    and Q: "\<And>st'. body_ok ctx st' \<Longrightarrow> ls_recovered st' = ls_recovered st \<Longrightarrow> Q () st'"
    and E: "\<And>e st'. in_step ctx st' \<Longrightarrow> E e st'"
  shows "wp (write_stage ctx stage change) Q E st"
  unfolding write_stage_def wp_simps
proof (rule wp_advance [OF assms(1)], goal_cases)
  case (3)
  from assms(2) have "ls_attempts st \<le> 8" by (auto simp: body_ok_def running_def in_step_def)
  then show ?case by (simp add: assms(3) updates_def)
next
  case 4
  let ?u = "(updates (ls_attempts st) (ls_recovered st))\<lparr>up_reservation_ids := ls_reservations st\<rparr>"
  show ?case using assms(4) [of ?u] by (simp add: updates_def)
next
  case 5
  show ?case by (rule assms(5)) (simp add: updates_def)
next
  case (6 k' st')
  then show ?case by (simp add: wp_set_checkpoint Q body_ok_set)
next
  case (7 e st')
  then show ?case by (rule E)
qed (use assms(2) in \<open>simp_all add: body_ok_def\<close>)

lemma wp_send_planning:
  assumes "lawful_writer ctx" "body_ok ctx st" "ready ctx (Planning, None, False, generation) st"
    and over: "\<And>out st'. ended ctx out st' \<Longrightarrow> Q (Inl out) st'"
    and next_stage: "\<And>p st'. body_ok ctx st' \<Longrightarrow> Q (Inr p) st'"
    and E: "\<And>e st'. in_step ctx st' \<Longrightarrow> E e st'"
  shows "wp (send_planning ctx fresh generation) Q E st"
  unfolding send_planning_def
proof (rule wp_while_live, goal_cases)
  case (3 s)
  show ?case unfolding wp_simps
  proof (rule wp_send, goal_cases)
    case (3 p st1 s1 s2)
    then have ok: "body_ok ctx st1" using assms(2) by (simp add: body_ok_def)
    show ?case
    proof (rule wp_emit, goal_cases)
      case (1 s')
      show ?case
      proof (rule wp_while_live, goal_cases)
        case (3 s3)
        show ?case unfolding wp_simps wp_receive
          by (rule wp_write [OF assms(1)]) (simp_all add: ok next_stage E)
      qed (simp_all add: ok body_settled over)
    next
      case (2 e s')
      show ?case using ok by (simp add: E running_in_step body_ok_running)
    qed
  qed (use assms in \<open>simp_all add: body_ok_running\<close>)
qed (simp_all add: assms(2) body_settled over)

text \<open>Where an attempt starts: nothing sent or written, in the bounds of a checkpoint.\<close>

definition opened :: "'s l2_context \<Rightarrow> 's l2_state \<Rightarrow> bool" where
  "opened ctx st \<longleftrightarrow> in_step ctx st \<and> ls_written st = [] \<and> ls_sent st = [] \<and> ls_checkpoint st = lx_checkpoint ctx \<and>
     optional within_bounds (starting_checkpoint ctx)"

lemma wp_first_checkpoint:
  assumes "lawful_writer ctx" "opened ctx st" "lx_checkpoint ctx = None" "attempts \<le> 8"
    and Q: "\<And>k' st'. running ctx st' \<Longrightarrow> k' = current ctx st' \<Longrightarrow> ready ctx (Planning, None, False, 0) st' \<Longrightarrow> Q k' st'"
    and E: "\<And>e st'. in_step ctx st' \<Longrightarrow> E e st'"
  shows "wp (first_checkpoint ctx reservations attempts) Q E st"
proof (cases "lx_checkpoint_factory ctx")
  case None
  with assms(2,3) show ?thesis
    by (auto simp: first_checkpoint_def wp_simps starting_checkpoint_def or_else_def opened_def running_def
      ready_def current_def intro!: Q)
next
  case (Some k)
  let ?k = "k\<lparr>kp_plan_id := None, kp_plan_hash := None, kp_reservation_ids := reservations,
      kp_tool_attempts_used := attempts, kp_generations := [\<lparr>sg_stage = ''planning'', sg_claim_id = None,
      sg_recovery = False, sg_generation = 0\<rparr>]\<rparr>"
  have start: "starting_checkpoint ctx = Some k" using Some assms(3) by (simp add: starting_checkpoint_def or_else_def)
  have sound: "sound_checkpoint ctx ?k"
    using assms(2,4) start
    by (simp add: sound_checkpoint_def within_bounds_def opened_def optional_def list_all_iff result_earned_def
      starting_results_def)
  show ?thesis unfolding first_checkpoint_def Some option.case wp_simps append_written_def
  proof (rule wp_persist [OF assms(1)], goal_cases)
    case (1 t s)
    let ?st = "(st\<lparr>ls_env := s\<rparr>)\<lparr>ls_written := ls_written (st\<lparr>ls_env := s\<rparr>) @ [?k\<lparr>kp_last_accessed_at := t\<rparr>]\<rparr>"
    have "running ctx ?st"
      using assms(2,3) sound by (intro running_append) (simp_all add: opened_def current_def)
    moreover have "ready ctx (Planning, None, False, 0) ?st"
      using assms(2) by (simp add: ready_def opened_def sent_tokens_def token_generation_def)
    ultimately have "Q (Some (?k\<lparr>kp_last_accessed_at := t\<rparr>)) ?st" by (intro Q) (simp_all add: current_def)
    then show ?case by simp
  qed (use assms(2) in \<open>simp add: E opened_def\<close>)
qed

lemma wp_plan_run:
  assumes "lawful_writer ctx" "opened ctx st"
    and over: "\<And>out st'. ended ctx out st' \<Longrightarrow> Q (Inl out) st'"
    and next_stage: "\<And>p st'. body_ok ctx st' \<Longrightarrow> Q (Inr p) st'"
    and E: "\<And>e st'. in_step ctx st' \<Longrightarrow> E e st'"
  shows "wp (plan_run ctx) Q E st"
proof -
  have attempts: "ls_attempts st \<le> 8" using assms(2) by (simp add: opened_def in_step_def)
  have planning: "wp (send_planning ctx fresh g) (\<lambda>x. case x of Inl r \<Rightarrow> Q (Inl r) | Inr p \<Rightarrow> Q (Inr (Some p))) E
      (st'\<lparr>ls_checkpoint := k'\<rparr>)"
    if "running ctx st'" "k' = current ctx st'" "ready ctx (Planning, None, False, g) st'" for fresh g k' st'
    by (rule wp_send_planning [OF assms(1)]) (simp_all add: that body_ok_set over next_stage E)
  show ?thesis
  proof (cases "lx_checkpoint ctx")
    case None
    with assms(2) show ?thesis unfolding plan_run_def
      by (auto simp: opened_def wp_simps wp_set_checkpoint intro!: wp_first_checkpoint [OF assms(1,2) _ attempts] planning E)
  next
    case (Some k)
    then have run: "running ctx st" "Some k = current ctx st" "ls_checkpoint st = Some k"
      using assms(2) by (simp_all add: opened_def running_def current_def)
    show ?thesis
    proof (cases "kp_stage k = Planned")
      case False
      have "body_ok ctx st" using run by (simp add: body_ok_def)
      with run(3) False next_stage show ?thesis by (simp add: plan_run_def wp_simps)
    next
      case True
      with run(3) show ?thesis unfolding plan_run_def
        by (auto simp: wp_simps wp_set_checkpoint intro!: wp_prepare_planning [OF assms(1) run(1,2)] planning E)
    qed
  qed
qed

lemma wp_collect_run:
  assumes "lawful_writer ctx" "body_ok ctx st"
    and over: "\<And>out st'. ended ctx out st' \<Longrightarrow> Q (Inl out) st'"
    and next_stage: "\<And>p st'. body_ok ctx st' \<Longrightarrow> Q (Inr p) st'"
    and E: "\<And>e st'. in_step ctx st' \<Longrightarrow> E e st'"
  shows "wp (collect_run ctx plan) Q E st"
  unfolding collect_run_def
proof (rule wp_while_live, goal_cases)
  case (3 s)
  show ?case unfolding wp_simps
  proof (rule wp_await, goal_cases)
    case (1 collected s1)
    show ?case
    proof (rule wp_emit, goal_cases)
      case (1 s2)
      show ?case
      proof (rule wp_while_live, goal_cases)
        case (3 s3)
        let ?e = "bounded_evidence (er_evidence collected)"
        have "body_ok ctx (st\<lparr>ls_env := s3, ls_attempts := er_attempts_used collected, ls_evidence := ?e\<rparr>)"
          if "er_attempts_used collected \<le> 8"
          using assms(2) that by (simp add: body_ok_def running_attempts running_evidence bounded_evidence_length)
        with body_settled [OF assms(2)] show ?case unfolding wp_simps wp_fault Let_def
          by (auto intro!: over wp_write [OF assms(1)] next_stage E
            simp: bounded_evidence_length le_max_iff_disj)
      qed (use assms(2) in \<open>simp_all add: body_settled over\<close>)
    qed (use assms(2) in \<open>simp add: E running_in_step body_ok_running\<close>)
  qed (use assms(2) in \<open>simp add: E running_in_step body_ok_running\<close>)
qed (simp_all add: assms(2) body_settled over)

lemma wp_evidence_run:
  assumes "lawful_writer ctx" "body_ok ctx st"
    and over: "\<And>out st'. ended ctx out st' \<Longrightarrow> Q (Inl out) st'"
    and next_stage: "\<And>p st'. body_ok ctx st' \<Longrightarrow> Q (Inr p) st'"
    and E: "\<And>e st'. in_step ctx st' \<Longrightarrow> E e st'"
  shows "wp (evidence_run ctx planning) Q E st"
  using assms(2) body_settled [OF assms(2)] over next_stage E
  by (cases "ls_checkpoint st"; cases planning)
    (auto simp: evidence_run_def wp_simps wp_fault intro!: wp_collect_run [OF assms(1)])

lemma wp_compliance_run:
  assumes "lawful_writer ctx" "body_ok ctx st"
    and over: "\<And>out st'. ended ctx out st' \<Longrightarrow> Q (Inl out) st'"
    and next_stage: "\<And>p st'. body_ok ctx st' \<Longrightarrow> Q (Inr p) st'"
    and E: "\<And>e st'. in_step ctx st' \<Longrightarrow> E e st'"
  shows "wp (compliance_run ctx) Q E st"
  unfolding compliance_run_def wp_simps wp_set_checkpoint Let_def
proof (rule wp_prepare_compliance [OF assms(1)], goal_cases)
  case prep: (3 k st1)
  then have ok: "body_ok ctx (st1\<lparr>ls_checkpoint := k\<rparr>)" by (simp add: body_ok_set)
  show ?case
  proof (rule wp_while_live, goal_cases)
    case (3 s)
    show ?case
    proof (cases "idempotency_suffix (lx_run_id ctx) ''compliance'' None False
        (int (latest_generation k ''compliance'' None False))")
      case (Inl e)
      with ok show ?thesis by (simp add: wp_simps E running_in_step body_ok_running)
    next
      case (Inr suffix)
      show ?thesis unfolding wp_simps Inr sum.case
      proof (rule wp_send, goal_cases)
        case 1
        show ?case using ok by (simp add: body_ok_running)
      next
        case 2
        show ?case using prep(4) by simp
      next
        case (3 x st2 s1 s2)
        then have ok2: "body_ok ctx st2" using ok by (simp add: body_ok_def)
        show ?case
        proof (rule wp_emit, goal_cases)
          case (1 s3)
          show ?case
            by (rule wp_while_live) (simp_all add: ok2 body_settled over wp_simps wp_receive next_stage)
        next
          case (2 e s3)
          show ?case using ok2 by (simp add: E running_in_step body_ok_running)
        qed
      qed (rule E)
    qed
  qed (use body_settled [OF ok] in \<open>simp_all add: over\<close>)
qed (use assms(2) E in \<open>simp_all add: body_ok_def\<close>)

lemma wp_accept_batch:
  assumes "lawful_writer ctx" "body_ok ctx st"
    and over: "\<And>out st'. ended ctx out st' \<Longrightarrow> Q (Inl out) st'"
    and next_stage: "\<And>p st'. body_ok ctx st' \<Longrightarrow> Q (Inr p) st'"
    and E: "\<And>e st'. in_step ctx st' \<Longrightarrow> E e st'"
  shows "wp (accept_batch ctx candidates) Q E st"
proof -
  let ?checks = "\<lambda>st. if \<not> candidate_batch_is_consistent (ls_checkpoint st) candidates
       then bind_l2 (l2_fault ''checkpoint_candidate_integrity'') (\<lambda>out. ret (Inl out))
       else if \<not> recovery_reservation_is_consistent (ls_checkpoint st) candidates
       then bind_l2 (l2_fault ''checkpoint_recovery_claim_integrity'') (\<lambda>out. ret (Inl out))
       else case ls_checkpoint st of
         None \<Rightarrow> ret (Inr ())
       | Some k \<Rightarrow> bind_l2 (write_stage ctx (kp_stage k) (\<lambda>u. u\<lparr>up_allow_same_stage := True,
           up_candidate_count := Some (length candidates)\<rparr>)) (\<lambda>_. ret (Inr ()))"
  have checks: "wp (?checks st') Q E st'" if ok: "body_ok ctx st'" for st'
    using ok body_settled [OF ok]
    by (cases "ls_checkpoint st'")
      (auto simp: wp_simps wp_fault intro!: over next_stage E wp_write [OF assms(1)])
  have built: "wp (with_state (\<lambda>st. case ls_checkpoint st of
         Some k \<Rightarrow> if kp_stage k = EvidenceCollected
           then write_stage ctx CandidateBuilt (\<lambda>u. u\<lparr>up_candidate_count := Some (length candidates)\<rparr>)
           else ret ()
       | None \<Rightarrow> ret ())) R E st" if "\<And>st'. body_ok ctx st' \<Longrightarrow> R () st'" for R
    using assms(2) that
    by (cases "ls_checkpoint st") (auto simp: wp_simps intro!: E wp_write [OF assms(1)])
  show ?thesis unfolding accept_batch_def wp_bind [where m = "with_state _"]
    by (rule built) (simp only: wp_with_state checks)
qed

text \<open>A recovery is gathered at most once, and then no other runs.\<close>

definition gathered_ok :: "'s l2_context \<Rightarrow> gathered \<Rightarrow> 's l2_state \<Rightarrow> bool" where
  "gathered_ok ctx g st \<longleftrightarrow> body_ok ctx st \<and> list_all (result_earned ctx) (ga_results g) \<and>
     length (ga_recoveries g) \<le> 1 \<and> (ga_recoveries g \<noteq> [] \<longrightarrow> ls_recovered st)"

lemma body_ok_claimed:
  assumes "running ctx st" "n \<le> 8" "length es \<le> 12"
  shows "body_ok ctx (st\<lparr>ls_checkpoint := if ls_written st = [] then ls_checkpoint st else Some (last (ls_written st)),
    ls_evidence := es, ls_attempts := n, ls_recovered := b, ls_reservations := rs\<rparr>)"
proof -
  have cur: "(if ls_written st = [] then ls_checkpoint st else Some (last (ls_written st))) = current ctx st"
    using assms(1) by (auto simp: running_def in_step_def current_def)
  have "running ctx (st\<lparr>ls_checkpoint := current ctx st, ls_evidence := es, ls_attempts := n\<rparr>)"
    using assms by (intro running_attempts running_evidence running_checkpoint)
  then show ?thesis unfolding cur by (simp add: body_ok_def)
qed

lemma wp_claim_step:
  assumes "lawful_writer ctx" "gathered_ok ctx g st"
    and over: "\<And>out st'. ended ctx out st' \<Longrightarrow> Q (Inl out) st'"
    and next_stage: "\<And>g' st'. gathered_ok ctx g' st' \<Longrightarrow> Q (Inr g') st'"
    and E: "\<And>e st'. in_step ctx st' \<Longrightarrow> E e st'"
  shows "wp (claim_step ctx c g) Q E st"
proof -
  have ok: "body_ok ctx st" using assms(2) by (simp add: gathered_ok_def)
  show ?thesis unfolding claim_step_def wp_simps
  proof (rule wp_one_claim [OF assms(1)], goal_cases)
    case (5 r l st1)
    let ?st = "st1\<lparr>ls_checkpoint := if ls_written st1 = [] then ls_checkpoint st1 else Some (last (ls_written st1)),
      ls_evidence := cl_evidence l, ls_attempts := cl_attempts l, ls_recovered := cl_recovered l,
      ls_reservations := ls_reservations st1 @ map sr_reservation_id (cl_semantics l)\<rparr>"
    have claimed: "body_ok ctx ?st" using 5(1-3) by (rule body_ok_claimed)
    let ?g = "\<lparr>ga_results = ga_results g @ [r],
         ga_semantics = ga_semantics g @ map (Pair (ic_claim_id c)) (cl_semantics l),
         ga_recoveries = ga_recoveries g @ (case cl_recovery l of None \<Rightarrow> [] | Some r \<Rightarrow> [r])\<rparr>"
    have gathered: "Q (Inr ?g) st'" if "body_ok ctx st'" "ls_recovered st' = cl_recovered l" for st'
      using that assms(2) 5(4-6)
      by (intro next_stage) (auto simp: gathered_ok_def split: option.splits)
    have earned: "list_all (result_earned ctx) (kp_completed_results k @ [r])"
      if "current ctx st' = Some k" "body_ok ctx st'" for k st'
      using in_step_current [OF _ that(1)] that(2) 5(4) by (auto simp: body_ok_def sound_checkpoint_def)
    show ?case unfolding prod.case wp_simps
    proof (rule wp_while_live, goal_cases)
      case (3 s)
      have now: "body_ok ctx (?st\<lparr>ls_env := s\<rparr>)" using claimed by simp
      show ?case
      proof (cases "ls_checkpoint (?st\<lparr>ls_env := s\<rparr>)")
        case None
        with now gathered show ?thesis by (simp add: wp_simps)
      next
        case (Some k)
        with now have "current ctx (?st\<lparr>ls_env := s\<rparr>) = Some k" by (simp add: body_ok_def)
        from earned [OF this now] Some now show ?thesis
          unfolding wp_simps Some option.case
          by (intro wp_write [OF assms(1) now]) (simp_all add: gathered E)
      qed
    qed (simp_all only: claimed body_settled over)
  qed (use ok E in \<open>auto simp: body_ok_def running_def in_step_def\<close>)
qed

lemma wp_claim_steps:
  assumes "lawful_writer ctx" "gathered_ok ctx g st"
    and over: "\<And>out st'. ended ctx out st' \<Longrightarrow> Q (Inl out) st'"
    and next_stage: "\<And>g' st'. gathered_ok ctx g' st' \<Longrightarrow> Q (Inr g') st'"
    and E: "\<And>e st'. in_step ctx st' \<Longrightarrow> E e st'"
  shows "wp (claim_steps ctx cs g) Q E st"
  using assms(2)
proof (induction cs arbitrary: g st)
  case Nil
  with next_stage show ?case by (simp add: wp_simps)
next
  case (Cons c cs)
  show ?case unfolding claim_steps.simps wp_and_then
    by (rule wp_claim_step [OF assms(1) Cons.prems]) (simp_all add: over E Cons.IH)
qed

lemma wp_complete_run:
  assumes "lawful_writer ctx" "gathered_ok ctx g st"
    and Q: "\<And>out st'. ended ctx out st' \<Longrightarrow> Q out st'"
    and E: "\<And>e st'. in_step ctx st' \<Longrightarrow> E e st'"
  shows "wp (finish_attempt ctx planning calls compliance g) Q E st"
proof -
  have ok: "body_ok ctx st" and g: "list_all (result_earned ctx) (ga_results g)" "length (ga_recoveries g) \<le> 1"
    using assms(2) by (simp_all add: gathered_ok_def)
  have earned: "list_all (result_earned ctx) (kp_completed_results k)"
    if "body_ok ctx st'" "ls_checkpoint st' = Some k" for st' k
    using in_step_current [of ctx st' k] that by (auto simp: body_ok_def sound_checkpoint_def)
  have over: "Q ((plain_outcome st')\<lparr>
       lo_results := (case ls_checkpoint st' of None \<Rightarrow> ga_results g | Some k \<Rightarrow> kp_completed_results k),
       lo_compliance := Some compliance, lo_semantic_outcomes := ga_semantics g,
       lo_recovery_outcomes := ga_recoveries g, lo_evidence_calls := calls,
       lo_deterministic_outcomes := ls_deterministic st', lo_audit_events := ls_audit_events st',
       lo_planning := planning\<rparr>) st'" if "body_ok ctx st'" for st'
    using that g earned [OF that] body_settled [OF that]
    by (intro Q) (auto simp: ended_def plain_outcome_def split: option.split)
  show ?thesis
  proof (cases "ls_checkpoint st")
    case None
    with over [OF ok] show ?thesis by (simp add: finish_attempt_def wp_simps)
  next
    case (Some k)
    with earned [OF ok Some] show ?thesis unfolding finish_attempt_def wp_simps Some option.case
      by (intro wp_write [OF assms(1) ok]) (simp_all add: over E)
  qed
qed

lemma wp_run_body:
  assumes "lawful_writer ctx" "opened ctx st"
    and Q: "\<And>out st'. ended ctx out st' \<Longrightarrow> Q out st'"
    and E: "\<And>e st'. in_step ctx st' \<Longrightarrow> E e st'"
  shows "wp (run_body ctx) Q E st"
  unfolding run_body_def wp_or_return
proof (rule wp_plan_run [OF assms(1,2)], goal_cases)
  case (2 planning st1)
  show ?case unfolding sum.case
  proof (rule wp_evidence_run [OF assms(1) 2], goal_cases)
    case (2 calls st2)
    show ?case unfolding sum.case
    proof (rule wp_compliance_run [OF assms(1) 2], goal_cases)
      case (2 compliance st3)
      show ?case unfolding sum.case Let_def wp_or_return
      proof (rule wp_accept_batch [OF assms(1) 2], goal_cases)
        case (2 u st4)
        then have g: "gathered_ok ctx \<lparr>ga_results = [], ga_semantics = [], ga_recoveries = []\<rparr> st4"
          by (simp add: gathered_ok_def)
        show ?case unfolding sum.case wp_with_state wp_or_return
          by (rule wp_claim_steps [OF assms(1) g]) (simp_all add: Q E wp_complete_run [OF assms(1)])
      qed (simp_all add: Q E)
    qed (simp_all add: Q E)
  qed (simp_all add: Q E)
qed (simp_all add: Q E)

section \<open>Handlers and the attempt\<close>

lemma wp_record_receipt:
  assumes "lawful_writer ctx" "in_step ctx st"
    and Q: "\<And>st'. settled ctx st' \<Longrightarrow> Q () st'"
    and E: "\<And>e st'. settled ctx st' \<Longrightarrow> E e st'"
  shows "wp (record_receipt ctx r) Q E st"
proof (cases "ls_checkpoint st")
  case None
  with in_step_settled [OF assms(2)] Q show ?thesis by (simp add: record_receipt_def wp_simps wp_receive)
next
  case (Some k)
  with assms(2) have k: "sound_checkpoint ctx k" "ls_attempts st \<le> 8"
    by (simp_all add: in_step_def optional_def)
  have settled: "settled ctx st" by (rule in_step_settled [OF assms(2)])
  then have "settled ctx (st\<lparr>ls_written := ls_written st @ [k']\<rparr>)" if "sound_checkpoint ctx k'" for k'
    using that by (simp add: settled_def traced_append)
  then have written: "settled ctx (st\<lparr>ls_reservations := rs, ls_env := s, ls_written := ls_written st @ [k']\<rparr>)"
    if "sound_checkpoint ctx k'" for k' rs s
    using that by (simp add: settled_def sends_traced_def)
  show ?thesis
    unfolding record_receipt_def wp_simps wp_receive write_stage_def
    using Some
    by (auto simp: wp_simps wp_set_checkpoint k updates_def settled written intro!: wp_advance_any [OF assms(1) k(1)] Q E)
qed

lemma wp_handle:
  assumes "lawful_writer ctx" "in_step ctx st"
    and Q: "\<And>out st'. ended ctx out st' \<Longrightarrow> Q out st'"
    and E: "\<And>e st'. settled ctx st' \<Longrightarrow> E e st'"
  shows "wp (handle ctx e) Q E st"
  using in_step_settled [OF assms(2)]
  by (cases e) (auto simp: handle_def egress_fault_def wp_simps wp_fault
    intro!: wp_record_receipt [OF assms(1,2)] Q E)

text \<open>A context whose checkpoint, if it has one, is within the bounds.\<close>

definition bounded_start :: "'s l2_context \<Rightarrow> bool" where
  "bounded_start ctx \<longleftrightarrow> optional within_bounds (starting_checkpoint ctx)"

lemma start_bounds:
  assumes "bounded_start ctx" "lx_checkpoint ctx = Some k"
  shows "within_bounds k" "sound_checkpoint ctx k"
  using assms by (auto simp: bounded_start_def starting_checkpoint_def or_else_def optional_def sound_checkpoint_def
    list_all_iff result_earned_def starting_results_def)

lemma restored_length: "restore ctx c = Inr es \<Longrightarrow> es \<noteq> [] \<Longrightarrow> \<exists>k. c = Some k \<and> length es = length (kp_evidence k)"
  by (auto simp: restore_def Let_def split: option.splits if_splits sum.splits)

lemma opening_opened:
  assumes "bounded_start ctx" "restore ctx (lx_checkpoint ctx) = Inr es"
  shows "opened ctx ((opening_state ctx s)\<lparr>ls_evidence := es\<rparr>)"
proof -
  have "length es \<le> 12"
    using restored_length [OF assms(2)] start_bounds(1) [OF assms(1)] by (cases "es = []") (auto simp: within_bounds_def)
  moreover have "optional (sound_checkpoint ctx) (lx_checkpoint ctx)"
    using start_bounds(2) [OF assms(1)] by (cases "lx_checkpoint ctx") (simp_all add: optional_def)
  moreover have "(case lx_checkpoint ctx of None \<Rightarrow> 0 | Some k \<Rightarrow> kp_tool_attempts_used k) \<le> 8"
    using start_bounds(1) [OF assms(1)] by (cases "lx_checkpoint ctx") (simp_all add: within_bounds_def)
  ultimately show ?thesis
    using assms(1)
    by (simp add: opened_def in_step_def opening_state_def bounded_start_def sends_traced_def sent_tokens_def)
qed

lemma run_l2_attempt_spec:
  assumes "lawful_writer ctx" "bounded_start ctx" "run_l2_attempt ctx s = (res, st)"
  shows "settled ctx st \<and> (\<forall>out. res = Inr out \<longrightarrow> ended ctx out st)"
proof -
  let ?st = "opening_state ctx s"
  let ?Q = "\<lambda>out. ended ctx out" and ?E = "\<lambda>e :: l2_exception. in_step ctx"
  have quiet: "settled ctx ?st" by (simp add: settled_def opening_state_def sends_traced_def)
  show ?thesis
  proof (cases "final_results (lx_checkpoint ctx)")
    case (Some results)
    then obtain k :: run_checkpoint where k: "lx_checkpoint ctx = Some k" "results = kp_completed_results k"
      by (auto simp: final_results_def split: option.splits if_splits)
    with start_bounds(2) [OF assms(2) k(1)] quiet Some assms(3) show ?thesis
      by (auto simp: run_l2_attempt_def Let_def ended_def plain_outcome_def sound_checkpoint_def)
  next
    case final: None
    show ?thesis
    proof (cases "restore ctx (lx_checkpoint ctx)")
      case (Inl e)
      with final quiet assms(3) show ?thesis by (auto simp: run_l2_attempt_def Let_def)
    next
      case (Inr es)
      have body: "wp (run_body ctx) ?Q ?E (?st\<lparr>ls_evidence := es\<rparr>)"
        by (rule wp_run_body [OF assms(1) opening_opened [OF assms(2) Inr]])
      show ?thesis
      proof (cases "run_body ctx (?st\<lparr>ls_evidence := es\<rparr>)")
        case (Pair r st1)
        show ?thesis
        proof (cases r)
          case (Inr out)
          with body Pair final \<open>restore ctx (lx_checkpoint ctx) = Inr es\<close> assms(3) show ?thesis
            by (auto simp: wp_def run_l2_attempt_def Let_def ended_def)
        next
          case (Inl e)
          with body Pair have "in_step ctx st1" by (simp add: wp_def)
          then have "wp (handle ctx e) ?Q (\<lambda>e. settled ctx) st1" by (rule wp_handle [OF assms(1)])
          with Inl Pair final \<open>restore ctx (lx_checkpoint ctx) = Inr es\<close> assms(3) show ?thesis
            by (auto simp: wp_def run_l2_attempt_def Let_def ended_def split: prod.splits sum.splits)
        qed
      qed
    qed
  qed
qed

end
