(* ===== verification/L2Theorems.thy ===== *)
theory L2Theorems
  imports L2Steps RunWitnesses
begin

text \<open>
  What an attempt of \<open>runtime/l2.py\<close> guarantees, whatever its collaborators answer, and its
  composition with the checkpoint store of \<open>checkpoints/postgres.py\<close>.
\<close>

section \<open>The store as the writer\<close>

text \<open>\<open>checkpoint_store.write\<close> as the orchestrator calls it; its state is the database.\<close>

definition store_writer ::
  "fault \<Rightarrow> int option \<Rightarrow> nat option \<Rightarrow> run_checkpoint \<Rightarrow> run_tables \<Rightarrow>
   (l2_exception + run_checkpoint) \<times> run_tables" where
  "store_writer fault clock v k db = (case write_checkpoint fault clock v k db of
     (Inl e, db1) \<Rightarrow> (Inl (Uncaught (error_class e)), db1) | (Inr k1, db1) \<Rightarrow> (Inr k1, db1))"

interpretation store: checkpoint_writer "store_writer fault clock" for fault clock
proof
  fix v k db k' db'
  assume "store_writer fault clock v k db = (Inr k', db')"
  then show "\<exists>t. k' = k\<lparr>kp_last_accessed_at := t\<rparr>"
    by (auto simp: store_writer_def write_checkpoint_def run_transact_def elim: write_body_effect
      split: prod.splits sum.splits if_splits option.splits fault.splits)
qed

section \<open>Guarantees\<close>

text \<open>
  C5. No result of a run is reported as verified unless both gates let it through. Whatever the
  planner, the tools, the models, the recovery and the lease do, and wherever the attempt resumed:
  each verified result of the outcome was in the checkpoint the attempt started from, or belongs to
  a candidate that passed the deterministic verifier on some evidence, and that the semantic
  verifier, given this candidate, this evidence and that outcome, supported; its verdict is the
  candidate's and its citations are those of the deterministic outcome.
\<close>

theorem verified_results_are_gated:
  assumes "lawful_writer ctx" "bounded_start ctx" "run_l2_attempt ctx s = (Inr out, st)"
    and "r \<in> set (lo_results out)" "cr_verification_status r = Verified"
  shows "r \<in> set (starting_results ctx) \<or> (\<exists>c evidence d suffix generation s' semantic s''.
     ic_claim_id c = cr_claim_id r \<and> d = lx_deterministic ctx (ic_candidate c) evidence \<and> result_passed d \<and>
     lx_semantic ctx c evidence d suffix generation s' = (Inr semantic, s'') \<and>
     sn_supports_verdict (sr_product semantic) \<and>
     cr_verdict r = cc_proposed_verdict (ic_candidate c) \<and> cr_citations r = dr_citations d)"
  using run_l2_attempt_spec [OF assms(1-3)] assms(4,5)
  unfolding gated_def [symmetric] by (auto simp: ended_def list_all_iff result_earned_def)

text \<open>
  C6. Every model call of a checkpointed attempt is paid for before it is made. However the
  attempt ends, it made at most eight model calls, no two for the same stage, claim, branch and
  generation (so no two under one idempotency key), and each had its generation in the last
  checkpoint written before it: a crash after any call finds the call recorded.
\<close>

theorem model_calls_are_recorded_first:
  assumes "lawful_writer ctx" "bounded_start ctx" "starting_checkpoint ctx \<noteq> None"
    and "run_l2_attempt ctx s = (res, st)"
  shows "length (ls_sent st) \<le> 8 \<and> distinct (map fst (ls_sent st)) \<and>
     list_all (\<lambda>(token, n). 0 < n \<and> n \<le> length (ls_written st) \<and>
       token_generation token \<in> set (kp_generations (ls_written st ! (n - 1)))) (ls_sent st)"
  using run_l2_attempt_spec [OF assms(1,2,4)] assms(3)
  by (auto simp: settled_def sends_traced_def list_all_iff)

text \<open>
  C7. An attempt stays in its bounds however it ends: each checkpoint it writes holds at most
  eight generations, all distinct, eight tool attempts and twelve excerpts; and an outcome lists
  exactly the checkpoints written and at most one recovery.
\<close>

theorem attempt_stays_bounded:
  assumes "lawful_writer ctx" "bounded_start ctx" "run_l2_attempt ctx s = (res, st)"
  shows "list_all (\<lambda>k. distinct (kp_generations k) \<and> length (kp_generations k) \<le> 8 \<and>
       kp_tool_attempts_used k \<le> 8 \<and> length (kp_evidence k) \<le> 12) (ls_written st) \<and>
     (case res of Inl _ \<Rightarrow> True
      | Inr out \<Rightarrow> lo_checkpoints out = ls_written st \<and> length (lo_recovery_outcomes out) \<le> 1)"
  using run_l2_attempt_spec [OF assms]
  by (auto simp: settled_def ended_def sound_checkpoint_def within_bounds_def list_all_iff split: sum.split)

section \<open>A concrete attempt\<close>

definition sample_citation :: citation where
  "sample_citation = \<lparr>ci_clause_id = ''c1'', ci_corpus_manifest_id = ''44'', ci_document_id = ''rfc'',
     ci_document_version = ''1'', ci_section_number = None, ci_content_hash = ''h''\<rparr>"

definition sample_size :: request_size where
  "sample_size = \<lparr>rs_request_tokens = 1, rs_request_bytes = 1\<rparr>"

definition receipt :: "'p \<Rightarrow> string \<Rightarrow> 'p stage_receipt" where
  "receipt product reservation = \<lparr>sr_product = product, sr_reservation_id = reservation, sr_replayed = False,
     sr_request_size = sample_size\<rparr>"

definition sample_result :: deterministic_result where
  "sample_result = \<lparr>dr_checks = [], dr_citations = [sample_citation]\<rparr>"

definition sample_decision :: semantic_decision where
  "sample_decision = \<lparr>sn_supports_verdict = True, sn_evidence = [], sn_reason = Supported, sn_rationale = ''''\<rparr>"

definition sample_over ::
  "(nat option \<Rightarrow> run_checkpoint \<Rightarrow> 's \<Rightarrow> (l2_exception + run_checkpoint) \<times> 's) \<Rightarrow>
   l2_exception + semantic_outcome \<Rightarrow> 's l2_context" where
  "sample_over writer verdict = \<lparr>lx_run_id = ''run'', lx_corpus_manifest_id = ''44'',
     lx_planner = (\<lambda>_ _ s. (Inr (receipt sample_plan ''r1''), s)),
     lx_collect = (\<lambda>_ _ _ used s. (Inr \<lparr>er_evidence = [], er_calls = [], er_attempts_used = used + 2\<rparr>, s)),
     lx_compliance = (\<lambda>_ _ _ s. (Inr (receipt \<lparr>cp_batch = [sample_candidate], cp_candidates = [sample_identified]\<rparr> ''r2''), s)),
     lx_semantic = (\<lambda>_ _ _ _ _ s. (verdict, s)),
     lx_deterministic = (\<lambda>_ _. sample_result),
     lx_recovery = (\<lambda>_ evidence _ used s. (Inr \<lparr>ro_evidence = evidence, ro_calls = [], ro_attempts_used = used,
       ro_kind = None, ro_reason_code = None\<rparr>, s)),
     lx_checkpoint = None, lx_checkpoint_factory = Some sample_checkpoint,
     lx_checkpoint_writer = Some writer, lx_evidence_restorer = None,
     lx_plan_hash = (\<lambda>_. ''''), lx_lease_is_live = (\<lambda>s. (True, s)), lx_audit_sink = None\<rparr>"

definition sample_l2 :: "unit l2_context" where
  "sample_l2 = sample_over (\<lambda>_ k s. (Inr k, s)) (Inr (receipt sample_decision ''r3''))"

text \<open>Evaluation of a run, one step after another: a continuation waits for its state.\<close>

lemma run_cong:
  "st = st' \<Longrightarrow> bind_l2 m f st = bind_l2 m f st'"
  "st = st' \<Longrightarrow> with_state g st = with_state g st'"
  "st = st' \<Longrightarrow> and_then m' f' st = and_then m' f' st'"
  "st = st' \<Longrightarrow> or_return m'' f'' st = or_return m'' f'' st'"
  "st = st' \<Longrightarrow> while_live ctx n st = while_live ctx n st'"
  "st = st' \<Longrightarrow> update_l2 h st = update_l2 h st'"
  "st = st' \<Longrightarrow> await op st = await op st'"
  by simp_all

lemmas run_simps = ret_def raise_l2_def bind_l2_def with_state_def update_l2_def await_def
  fun_cong [OF and_then_def] fun_cong [OF or_return_def] fun_cong [OF while_live_def] fun_cong [OF lift_def]
  fun_cong [OF lease_is_live_def] fun_cong [OF emit_audit_def] send_stage_def
  fun_cong [OF persist_def] fun_cong [OF append_written_def] fun_cong [OF advance_def]
  fun_cong [OF prepare_generation_def] fun_cong [OF first_checkpoint_def] fun_cong [OF set_checkpoint_def]
  fun_cong [OF receive_def] fun_cong [OF write_stage_def] fun_cong [OF send_planning_def] fun_cong [OF plan_run_def]
  fun_cong [OF collect_run_def] fun_cong [OF evidence_run_def] fun_cong [OF compliance_run_def]
  fun_cong [OF accept_batch_def] fun_cong [OF claim_step_def] fun_cong [OF finish_attempt_def]
  fun_cong [OF one_claim_def] fun_cong [OF both_gates_def] fun_cong [OF deterministic_gate_def]
  fun_cong [OF send_semantic_def] fun_cong [OF accept_claim_def] fun_cong [OF verify_and_record_def]
  fun_cong [OF advance_claim_def]

lemmas l2_data = evidence_refs_def evidence_ref_def next_checkpoint_def updates_def or_else_def with_generation_def
  generation_of_def latest_generation_def attempt_number_def bounded_evidence_def bounded_unique_evidence_def
  pending_candidates_def recovery_candidate_first_def candidate_batch_is_consistent_def
  recovery_reservation_is_consistent_def verified_result_def checked_result_def result_passed_def
  compliance_result_valid_def plain_outcome_def insufficient_result_def Let_def


lemmas sample_over_fields = arg_cong [OF sample_over_def, of lx_run_id, simplified]
  arg_cong [OF sample_over_def, of lx_corpus_manifest_id, simplified]
  arg_cong [OF sample_over_def, of lx_planner, simplified]
  arg_cong [OF sample_over_def, of lx_collect, simplified]
  arg_cong [OF sample_over_def, of lx_compliance, simplified]
  arg_cong [OF sample_over_def, of lx_semantic, simplified]
  arg_cong [OF sample_over_def, of lx_deterministic, simplified]
  arg_cong [OF sample_over_def, of lx_recovery, simplified]
  arg_cong [OF sample_over_def, of lx_checkpoint, simplified]
  arg_cong [OF sample_over_def, of lx_checkpoint_factory, simplified]
  arg_cong [OF sample_over_def, of lx_checkpoint_writer, simplified]
  arg_cong [OF sample_over_def, of lx_evidence_restorer, simplified]
  arg_cong [OF sample_over_def, of lx_plan_hash, simplified]
  arg_cong [OF sample_over_def, of lx_lease_is_live, simplified]
  arg_cong [OF sample_over_def, of lx_audit_sink, simplified]

lemma sample_suffix:
  "idempotency_suffix ''run'' ''compliance'' None False 0 = Inr ''initial''"
  "idempotency_suffix ''run'' ''verifier'' (Some ''claim'') False 0 = Inr ''claim-initial''"
  by code_simp+

lemma sample_attempt:
  obtains out st r where "run_l2_attempt sample_l2 () = (Inr out, st)" "lo_results out = [r]"
    "cr_verification_status r = Verified"
    "map fst (ls_sent st) = [(Planning, None, False, 0), (ComplianceStage, None, False, 0),
      (VerifierStage, Some ''claim'', False, 0)]"
proof -
  have "\<exists>out st. run_l2_attempt sample_l2 () = (Inr out, st) \<and>
      (\<exists>r. lo_results out = [r] \<and> cr_verification_status r = Verified) \<and>
      map fst (ls_sent st) = [(Planning, None, False, 0), (ComplianceStage, None, False, 0),
        (VerifierStage, Some ''claim'', False, 0)]"
    by (simp add: run_l2_attempt_def final_results_def restore_def run_simps l2_data sample_l2_def sample_over_fields
      sample_checkpoint_eq opening_state_def receipt_def sample_suffix sample_identified_def sample_candidate_def
      sample_result_def sample_decision_def sample_citation_def fun_cong [OF run_body_def] cong: run_cong)
  then show thesis by (elim exE conjE) (rule that)
qed

lemma sample_l2_lawful: "lawful_writer sample_l2"
proof -
  have "\<exists>t. k = k\<lparr>kp_last_accessed_at := t\<rparr>" for k :: run_checkpoint
    by (rule exI [of _ "kp_last_accessed_at k"]) simp
  then show ?thesis by (auto simp: lawful_writer_def sample_l2_def sample_over_fields checkpoint_writer_def)
qed

lemma sample_l2_start: "starting_checkpoint sample_l2 = Some sample_checkpoint"
  by (simp add: starting_checkpoint_def or_else_def sample_l2_def sample_over_fields)

lemma sample_l2_gates: "starting_results sample_l2 = []" "lx_deterministic sample_l2 c evidence = sample_result"
  by (simp add: starting_results_def sample_l2_start sample_checkpoint_eq)
    (simp add: sample_l2_def sample_over_fields)

lemma sample_l2_bounded: "bounded_start sample_l2"
  by (simp add: bounded_start_def sample_l2_start optional_def within_bounds_def sample_checkpoint_eq)

theorem verified_results_are_gated_witness:
  "\<exists>out st r. run_l2_attempt sample_l2 () = (Inr out, st) \<and> lo_results out = [r] \<and>
     cr_verification_status r = Verified \<and> cr_citations r = [sample_citation]"
proof -
  obtain out st r where run: "run_l2_attempt sample_l2 () = (Inr out, st)" "lo_results out = [r]"
    "cr_verification_status r = Verified" by (rule sample_attempt)
  then have "r \<in> set (lo_results out)" by simp
  from verified_results_are_gated [OF sample_l2_lawful sample_l2_bounded run(1) this run(3)]
  have "cr_citations r = [sample_citation]"
    by (auto simp: sample_l2_gates sample_result_def)
  with run show ?thesis by blast
qed

theorem model_calls_are_recorded_first_witness:
  "\<exists>out st. run_l2_attempt sample_l2 () = (Inr out, st) \<and> length (ls_sent st) = 3 \<and>
     list_all (\<lambda>(token, n). 0 < n \<and> token_generation token \<in> set (kp_generations (ls_written st ! (n - 1)))) (ls_sent st)"
proof -
  obtain out st r where run: "run_l2_attempt sample_l2 () = (Inr out, st)"
    and sent: "map fst (ls_sent st) = [(Planning, None, False, 0), (ComplianceStage, None, False, 0),
      (VerifierStage, Some ''claim'', False, 0)]" by (rule sample_attempt)
  have "length (ls_sent st) = 3" using arg_cong [OF sent, of length] by simp
  with model_calls_are_recorded_first [OF sample_l2_lawful sample_l2_bounded _ run] run show ?thesis
    by (auto simp: sample_l2_start list_all_iff)
qed

theorem attempt_stays_bounded_witness:
  "\<exists>out st. run_l2_attempt sample_l2 () = (Inr out, st) \<and> lo_checkpoints out = ls_written st \<and>
     list_all (\<lambda>k. kp_tool_attempts_used k \<le> 8) (ls_written st)"
proof -
  obtain out st r where run: "run_l2_attempt sample_l2 () = (Inr out, st)" by (rule sample_attempt)
  from attempt_stays_bounded [OF sample_l2_lawful sample_l2_bounded run] run show ?thesis
    by (auto simp: list_all_iff)
qed

section \<open>The attempt over the store\<close>

lemma store_lawful: "lx_checkpoint_writer ctx = Some (store_writer fault clock) \<Longrightarrow> lawful_writer ctx"
  by (simp add: lawful_writer_def store.checkpoint_writer_axioms)

text \<open>The store refuses a stale version and an illegal stage, and a refusal changes nothing.\<close>

lemma store_refuses:
  assumes "find_checkpoint db (kp_run_id k) = Some old"
    and "Some (kp_version old) \<noteq> v \<or> kp_stage k \<notin> set (legal_transitions (kp_stage old))"
  shows "\<exists>e. store_writer fault clock v k db = (Inl (Uncaught e), db)"
proof -
  have refused: "write_body now v k db \<noteq> Inr r" for now r
  proof
    assume "write_body now v k db = Inr r"
    then have "write_body now v k db = Inr (fst r, snd r)" by simp
    then obtain k' where "map_option kp_version (find_checkpoint db (kp_run_id k)) = v"
        "k' = k\<lparr>kp_last_accessed_at := now\<rparr>" "validate_transition old k' = Inr ()"
      using assms(1) by (elim write_body_effect) simp
    with assms show False by (auto simp: validate_transition_def split: if_splits)
  qed
  then have "write_body now v k db = Inl (projl (write_body now v k db))" for now
    by (cases "write_body now v k db") simp_all
  then have "fst (write_checkpoint fault clock v k db) = Inl (projl (fst (write_checkpoint fault clock v k db))) \<and>
      snd (write_checkpoint fault clock v k db) = db"
    using refused by (cases fault; cases clock)
      (auto simp: write_checkpoint_def run_transact_def split: sum.split)
  then obtain x where "write_checkpoint fault clock v k db = (Inl x, db)" by (metis prod.collapse)
  then show ?thesis by (simp add: store_writer_def)
qed

lemma next_identity [simp]: "kp_run_id (next_checkpoint k stage refs u) = kp_run_id k"
  "kp_stage (next_checkpoint k stage refs u) = stage"
  by (simp_all add: next_checkpoint_def)

lemma write_refused:
  assumes "lx_checkpoint_writer ctx = Some (store_writer fault clock)" "ls_checkpoint st = Some k"
    and "find_checkpoint (ls_env st) (kp_run_id k) = Some old"
    and "kp_version old \<noteq> kp_version k \<or> stage \<notin> set (legal_transitions (kp_stage old))"
    and "\<And>u. up_evidence (change u) = up_evidence u" "stage = kp_stage k \<Longrightarrow> \<forall>u. up_allow_same_stage (change u)"
  shows "\<exists>e. write_stage ctx stage change st = (Inl (Uncaught e), st)"
proof -
  let ?u = "change ((updates (ls_attempts st) (ls_recovered st))\<lparr>up_reservation_ids := ls_reservations st\<rparr>)"
  have refs: "evidence_refs (up_evidence ?u) = Inr []"
    using assms(5) by (simp add: updates_def evidence_refs_def)
  obtain e where e: "store_writer fault clock (Some (kp_version k)) (next_checkpoint k stage [] ?u) (ls_env st) =
      (Inl (Uncaught e), ls_env st)"
    using store_refuses [of "ls_env st" "next_checkpoint k stage [] ?u" old "Some (kp_version k)" fault clock] assms(3,4)
    by auto
  have writes: "\<not> (stage = kp_stage k \<and> \<not> up_allow_same_stage ?u)" using assms(6) by blast
  have "write_stage ctx stage change st = (Inl (Uncaught e), st)"
    unfolding write_stage_def with_state_def bind_l2_def advance_def assms(2) option.case if_not_P [OF writes]
    using assms(1) refs e by (simp add: lift_def ret_def persist_def await_def)
  then show ?thesis ..
qed

text \<open>
  C36. A run whose first undecided candidate comes without a verdict cannot finish: if the model
  proposes insufficient evidence for the first candidate that is checked after the candidates were
  built, the cursor is moved to the semantic stage from there, which the store does not allow; the
  attempt is left by the store's exception, no handler of the attempt turns it into an outcome, and
  the result is not recorded.
\<close>

theorem undecided_first_claim_aborts:
  assumes "lx_checkpoint_writer ctx = Some (store_writer fault clock)" "\<And>db. lx_lease_is_live ctx db = (True, db)"
    and "ls_checkpoint st = Some k" "kp_stage k = CandidateBuilt" "ls_written st = [] \<or> last (ls_written st) = k"
    and "find_checkpoint (ls_env st) (kp_run_id k) = Some k"
    and "cc_proposed_verdict (ic_candidate c) = InsufficientEvidence"
  shows "\<exists>e st'. claim_step ctx c g st = (Inl (Uncaught e), st') \<and> ls_env st' = ls_env st \<and>
     handle ctx (Uncaught e) st' = (Inl (Uncaught e), st')"
proof -
  let ?r = "insufficient_result (ic_claim_id c) Insufficient ''proposed_insufficient''"
  let ?l = "\<lparr>cl_checkpoint = ls_checkpoint st, cl_evidence = ls_evidence st, cl_attempts = ls_attempts st,
      cl_recovered = ls_recovered st, cl_semantics = [], cl_recovery = None\<rparr>"
  have one: "one_claim ctx (ls_checkpoint st) c (ls_evidence st) (ls_attempts st) (ls_recovered st) st = (Inr (?r, ?l), st)"
    using assms(3,4,7) by (simp add: one_claim_def Let_def ret_def)
  have same: "st\<lparr>ls_checkpoint := (if ls_written st = [] then ls_checkpoint st else Some (last (ls_written st))),
      ls_evidence := ls_evidence st, ls_attempts := ls_attempts st, ls_recovered := ls_recovered st,
      ls_reservations := ls_reservations st @ map sr_reservation_id []\<rparr> = st"
    using assms(3,5) by auto
  have "\<exists>e. write_stage ctx SemanticVerified (\<lambda>u. u\<lparr>up_allow_same_stage := True,
      up_completed_results := kp_completed_results k @ [?r]\<rparr>) st = (Inl (Uncaught e), st)"
    by (rule write_refused [OF assms(1,3,6)]) (use assms(4) in simp_all)
  then obtain e where e: "write_stage ctx SemanticVerified (\<lambda>u. u\<lparr>up_allow_same_stage := True,
      up_completed_results := kp_completed_results k @ [?r]\<rparr>) st = (Inl (Uncaught e), st)" ..
  have "claim_step ctx c g st = (Inl (Uncaught e), st)"
    unfolding claim_step_def with_state_def bind_l2_def one prod.case sum.case update_l2_def claim_state.simps same
      while_live_def lease_is_live_def await_def
    using assms(2,3) e by simp
  then show ?thesis by (auto simp: handle_def raise_l2_def)
qed

subsection \<open>Receipts that come late\<close>

text \<open>A step of a claim leaves the attempt's own checkpoint variable as it is.\<close>

definition confined :: "('s, 'a) l2m \<Rightarrow> bool" where
  "confined m \<longleftrightarrow> (\<forall>st. ls_checkpoint (snd (m st)) = ls_checkpoint st)"

lemma confined_rules:
  "confined (ret a)" "confined (raise_l2 e)" "confined (await op)"
  "(\<And>st. ls_checkpoint (f st) = ls_checkpoint st) \<Longrightarrow> confined (update_l2 f)"
  "confined m \<Longrightarrow> (\<And>x. confined (h x)) \<Longrightarrow> confined (bind_l2 m h)"
  "confined m' \<Longrightarrow> (\<And>y. confined (h' y)) \<Longrightarrow> confined (or_return m' h')"
  "(b \<Longrightarrow> confined m1) \<Longrightarrow> (\<not> b \<Longrightarrow> confined n1) \<Longrightarrow> confined (if b then m1 else n1)"
  "(\<And>x. confined (h1 x)) \<Longrightarrow> (\<And>y. confined (h2 y)) \<Longrightarrow> confined (case r of Inl x \<Rightarrow> h1 x | Inr y \<Rightarrow> h2 y)"
  "confined n2 \<Longrightarrow> (\<And>x. confined (h3 x)) \<Longrightarrow> confined (case z of None \<Rightarrow> n2 | Some x \<Rightarrow> h3 x)"
  "(\<And>x y. confined (h4 x y)) \<Longrightarrow> confined (case p of (x, y) \<Rightarrow> h4 x y)"
  by (auto simp: confined_def ret_def raise_l2_def await_def update_l2_def bind_l2_def or_return_def
    split: prod.split sum.split option.split) (metis snd_conv)+

lemma confined_steps:
  "confined (lift r)" "confined (lease_is_live ctx)" "confined (emit_audit ctx event)"
  "confined (append_written k)" "confined (persist ctx v k)"
  by (simp_all add: lift_def lease_is_live_def emit_audit_def append_written_def persist_def confined_rules)

lemma confined_send:
  fixes op :: "'s \<Rightarrow> (l2_exception + 'a) \<times> 's"
  shows "confined (send_stage ctx token op)"
proof -
  have "confined (bind_l2 (emit_audit ctx event) (\<lambda>_. raise_l2 e :: ('s, 'a) l2m))" for event e
    by (intro confined_rules confined_steps)
  then show ?thesis
    by (auto simp: confined_def send_stage_def await_def split: prod.split sum.split option.split)
qed

lemma confined_advance: "confined (advance ctx c stage u)"
  unfolding advance_def by (intro confined_rules confined_steps)

lemma confined_claim_parts:
  "confined (advance_claim ctx l stage change)" "confined (prepare_generation ctx c n claim recovery)"
  "confined (verify_and_record ctx cand evidence phase)" "confined (try_recover ctx cand evidence reasons k b)"
  unfolding advance_claim_def prepare_generation_def verify_and_record_def try_recover_def Let_def
  by (auto intro!: confined_rules confined_steps confined_advance)

lemma confined_recover: "confined (recover_claim ctx c reasons reason gate l)"
  unfolding recover_claim_def reserve_recovery_def Let_def
  by (auto intro!: confined_rules confined_steps confined_advance confined_claim_parts)

lemma confined_semantic: "confined (send_semantic ctx c d l)"
  unfolding send_semantic_def Let_def
  by (auto intro!: confined_rules confined_steps confined_send confined_claim_parts)

lemma confined_one_claim: "confined (one_claim ctx k c evidence n b)"
  unfolding one_claim_def both_gates_def deterministic_gate_def semantic_recovery_def accept_claim_def Let_def
  by (auto intro!: confined_rules confined_steps confined_semantic confined_recover confined_claim_parts)

lemma write_raises_uncaught:
  assumes "lx_checkpoint_writer ctx = Some (store_writer fault clock)"
    and "write_stage ctx stage change st = (Inl e, st')"
  shows "\<exists>x. e = Uncaught x"
proof -
  have store: "\<exists>x. e' = Uncaught x" if "store_writer fault clock v k db = (Inl e', db')" for e' v k db db'
    using that by (auto simp: store_writer_def split: prod.splits sum.splits)
  show ?thesis
    using assms store
    by (auto simp: write_stage_def with_state_def bind_l2_def advance_def lift_def persist_def await_def ret_def raise_l2_def
      append_written_def update_l2_def set_checkpoint_def evidence_refs_def
      split: prod.splits sum.splits option.splits if_splits)
qed

lemma failed_claim_keeps_checkpoint:
  assumes "lx_checkpoint_writer ctx = Some (store_writer fault clock)"
    and "claim_step ctx c g st = (Inl e, st1)" "\<And>x. e \<noteq> Uncaught x"
  shows "ls_checkpoint st1 = ls_checkpoint st"
proof (cases "one_claim ctx (ls_checkpoint st) c (ls_evidence st) (ls_attempts st) (ls_recovered st) st")
  case (Pair x st2)
  show ?thesis
  proof (cases x)
    case (Inl e')
    with Pair assms(2) have "st1 = st2" by (simp add: claim_step_def with_state_def bind_l2_def)
    with Pair confined_one_claim show ?thesis unfolding confined_def by (metis snd_conv)
  next
    case (Inr rl)
    obtain r l where rl: "rl = (r, l)" by force
    have writes: "write_stage ctx stage change st' \<noteq> (Inl e, st1)" for stage change st'
      using write_raises_uncaught [OF assms(1)] assms(3) by blast
    have False
      using assms(2) Pair Inr rl
      by (auto simp: writes claim_step_def with_state_def bind_l2_def update_l2_def while_live_def lease_is_live_def await_def
        l2_fault_def ret_def split: prod.splits sum.splits option.splits if_splits)
    then show ?thesis ..
  qed
qed

text \<open>
  When the semantic verification of a claim fails, its receipt is not recorded and the attempt
  has no outcome. The generation of the call was written before it, so the store has moved on from
  the checkpoint that the handler writes against: whenever a claim ends in an exception that carries
  a receipt and the stored version is not the one from before the claim, the handler's own write is
  refused, its exception leaves the attempt, and the store is as the failed call left it.
\<close>

theorem failed_verification_loses_receipt:
  assumes "lx_checkpoint_writer ctx = Some (store_writer fault clock)" "ls_checkpoint st = Some k"
    and "claim_step ctx c g st = (Inl e, st1)"
    and "e \<in> {InvalidSemantic r, TransportReplay r, ProviderAttemptFailed r code}"
    and "find_checkpoint (ls_env st1) (kp_run_id k) = Some k1" "kp_version k1 \<noteq> kp_version k"
  shows "\<exists>x st2. handle ctx e st1 = (Inl (Uncaught x), st2) \<and> ls_env st2 = ls_env st1"
proof -
  have "ls_checkpoint st1 = Some k"
    using failed_claim_keeps_checkpoint [OF assms(1,3)] assms(2,4) by auto
  then have k: "ls_checkpoint (st1\<lparr>ls_reservations := ls_reservations st1 @ [gr_reservation_id r]\<rparr>) = Some k" by simp
  have stored: "find_checkpoint (ls_env (st1\<lparr>ls_reservations := ls_reservations st1 @ [gr_reservation_id r]\<rparr>))
      (kp_run_id k) = Some k1" using assms(5) by simp
  have "\<exists>x. write_stage ctx (kp_stage k) (\<lambda>u. u\<lparr>up_allow_same_stage := True\<rparr>)
      (st1\<lparr>ls_reservations := ls_reservations st1 @ [gr_reservation_id r]\<rparr>) =
      (Inl (Uncaught x), st1\<lparr>ls_reservations := ls_reservations st1 @ [gr_reservation_id r]\<rparr>)"
    by (rule write_refused [OF assms(1) k stored]) (use assms(6) in simp_all)
  then obtain x where "record_receipt ctx r st1 =
      (Inl (Uncaught x), st1\<lparr>ls_reservations := ls_reservations st1 @ [gr_reservation_id r]\<rparr>)"
    using k by (auto simp: record_receipt_def bind_l2_def receive_def update_l2_def with_state_def)
  with assms(4) show ?thesis by (auto simp: handle_def bind_l2_def)
qed

subsection \<open>Both at a concrete store\<close>

definition sample_stage :: "checkpoint_stage \<Rightarrow> run_checkpoint" where
  "sample_stage stage = sample_checkpoint\<lparr>kp_attempt := 2, kp_version := 5, kp_stage := stage, kp_candidate_count := 1\<rparr>"

definition sample_at :: "checkpoint_stage \<Rightarrow> run_tables l2_state" where
  "sample_at stage = \<lparr>ls_checkpoint = Some (sample_stage stage), ls_reservations = [], ls_attempts = 0, ls_recovered = False,
     ls_evidence = [], ls_written = [], ls_deterministic = [], ls_audit_events = [], ls_sent = [],
     ls_env = sample_resumed\<lparr>tb_checkpoints := [sample_stage stage]\<rparr>\<rparr>"

definition sample_undecided :: identified_candidate where
  "sample_undecided = \<lparr>ic_claim_id = ''claim'', ic_candidate = sample_candidate
     \<lparr>cc_proposed_verdict := InsufficientEvidence\<rparr>\<rparr>"

definition sample_failing :: "run_tables l2_context" where
  "sample_failing = sample_over (store_writer NoFault (Some 40000003))
     (Inl (InvalidSemantic \<lparr>gr_reservation_id = ''r3'', gr_replayed = False, gr_request_size = None\<rparr>))"

definition nothing_gathered :: gathered where
  "nothing_gathered = \<lparr>ga_results = [], ga_semantics = [], ga_recoveries = []\<rparr>"

lemma sample_found: "find_checkpoint (ls_env (sample_at stage)) (kp_run_id (sample_stage stage)) = Some (sample_stage stage)"
  by (simp add: sample_at_def find_checkpoint_def)

theorem undecided_first_claim_aborts_witness:
  "\<exists>e st'. claim_step sample_failing sample_undecided nothing_gathered (sample_at CandidateBuilt) =
     (Inl (Uncaught e), st')"
proof -
  have "lx_checkpoint_writer sample_failing = Some (store_writer NoFault (Some 40000003))"
    by (simp add: sample_failing_def sample_over_fields)
  from undecided_first_claim_aborts [OF this, of "sample_at CandidateBuilt" "sample_stage CandidateBuilt"
    sample_undecided nothing_gathered]
  show ?thesis using sample_found [of CandidateBuilt]
    by (auto simp: sample_failing_def sample_over_fields sample_at_def sample_stage_def sample_undecided_def)
qed

definition sample_generated :: run_checkpoint where
  "sample_generated = (with_generation (sample_stage DeterministicVerified) ''verifier'' (Some (sample_hex CHR ''a'')) False)
     \<lparr>kp_last_accessed_at := 40000003\<rparr>"

lemma sample_generated_eq:
  "sample_generated = (sample_stage DeterministicVerified)\<lparr>kp_version := 6, kp_generations := [\<lparr>sg_stage = ''verifier'',
     sg_claim_id = Some (sample_hex CHR ''a''), sg_recovery = False, sg_generation = 0\<rparr>], kp_last_accessed_at := 40000003\<rparr>"
  by (simp add: sample_generated_def with_generation_def sample_stage_def sample_checkpoint_eq generation_of_def Let_def)

lemma sample_generation_stored:
  "\<exists>db. store_writer NoFault (Some 40000003) (Some 5)
     (with_generation (sample_stage DeterministicVerified) ''verifier'' (Some (sample_hex CHR ''a'')) False)
     (ls_env (sample_at DeterministicVerified)) = (Inr sample_generated, db) \<and>
     find_checkpoint db ''run'' = Some sample_generated"
  unfolding sample_at_def sample_generated_eq store_writer_def write_checkpoint_def write_body_def
    sample_resumed_eq sample_checkpointed_eq sample_expired_eq sample_created_eq sample_stage_def sample_checkpoint_eq
    with_generation_def
  by (simp add: statement_rules row_rules row_defs checkpoint_rules store_checkpoint_def update_checkpoint_def
      checkpoint_summary_def checkpoint_stage_names_def validate_transition_def generation_of_def generation_valid_def
      sample_resumed_run_def del: list.set_map set_filter)

lemma sample_claim_suffix:
  "idempotency_suffix ''run'' ''verifier'' (Some (sample_hex CHR ''a'')) False 0 = Inr (sample_hex CHR ''a'' @ ''-initial'')"
  by code_simp

lemma sample_failed_claim:
  "\<exists>st1. claim_step sample_failing (sample_identified\<lparr>ic_claim_id := sample_hex CHR ''a''\<rparr>) nothing_gathered
       (sample_at DeterministicVerified) = (Inl (InvalidSemantic \<lparr>gr_reservation_id = ''r3'', gr_replayed = False,
         gr_request_size = None\<rparr>), st1) \<and>
     find_checkpoint (ls_env st1) ''run'' = Some sample_generated"
proof -
  obtain db where db: "store_writer NoFault (Some 40000003) (Some 5)
     (with_generation (sample_stage DeterministicVerified) ''verifier'' (Some (sample_hex CHR ''a'')) False)
     (ls_env (sample_at DeterministicVerified)) = (Inr sample_generated, db)"
    "find_checkpoint db ''run'' = Some sample_generated" using sample_generation_stored by blast
  have k: "kp_stage (sample_stage s) = s" "kp_version (sample_stage s) = 5" "kp_generations (sample_stage s) = []" for s
    by (simp_all add: sample_stage_def sample_checkpoint_eq)
  have latest: "latest_generation (Some sample_generated) ''verifier'' (Some (sample_hex CHR ''a'')) False = 0"
    by (simp add: latest_generation_def generation_of_def sample_generated_eq)
  show ?thesis
    using db unfolding sample_at_def
    by (simp add: run_simps k latest updates_def result_passed_def sample_result_def sample_failing_def sample_over_fields
      sample_claim_suffix sample_identified_def sample_candidate_def caught_receipt_def Let_def
      cong: run_cong)
qed

theorem failed_verification_loses_receipt_witness:
  "\<exists>st1 x st2. claim_step sample_failing (sample_identified\<lparr>ic_claim_id := sample_hex CHR ''a''\<rparr>) nothing_gathered
       (sample_at DeterministicVerified) = (Inl (InvalidSemantic \<lparr>gr_reservation_id = ''r3'', gr_replayed = False,
         gr_request_size = None\<rparr>), st1) \<and>
     handle sample_failing (InvalidSemantic \<lparr>gr_reservation_id = ''r3'', gr_replayed = False,
         gr_request_size = None\<rparr>) st1 = (Inl (Uncaught x), st2)"
proof -
  have writer: "lx_checkpoint_writer sample_failing = Some (store_writer NoFault (Some 40000003))"
    by (simp add: sample_failing_def sample_over_fields)
  obtain st1 where st1: "claim_step sample_failing (sample_identified\<lparr>ic_claim_id := sample_hex CHR ''a''\<rparr>)
       nothing_gathered (sample_at DeterministicVerified) = (Inl (InvalidSemantic \<lparr>gr_reservation_id = ''r3'',
         gr_replayed = False, gr_request_size = None\<rparr>), st1)" "find_checkpoint (ls_env st1) ''run'' = Some sample_generated"
    using sample_failed_claim by blast
  let ?r = "\<lparr>gr_reservation_id = ''r3'', gr_replayed = False, gr_request_size = None\<rparr>"
  have k: "ls_checkpoint (sample_at DeterministicVerified) = Some (sample_stage DeterministicVerified)"
    by (simp add: sample_at_def)
  have e: "InvalidSemantic ?r \<in> {InvalidSemantic ?r, TransportReplay ?r, ProviderAttemptFailed ?r ''x''}" by simp
  have stored: "find_checkpoint (ls_env st1) (kp_run_id (sample_stage DeterministicVerified)) = Some sample_generated"
    using st1(2) by (simp add: sample_stage_def sample_checkpoint_eq)
  have moved: "kp_version sample_generated \<noteq> kp_version (sample_stage DeterministicVerified)"
    by (simp add: sample_generated_eq sample_stage_def sample_checkpoint_eq)
  from failed_verification_loses_receipt [OF writer k st1(1) e stored moved] st1(1) show ?thesis by blast
qed

end
