(* ===== verification/WorkerWitnesses.thy ===== *)
theory WorkerWitnesses
  imports WorkerProgress L2Theorems
begin

text \<open>
  A claimed run, a worker and agents, on which the properties of an L1 run apply: one plan, one
  tool call, one piece of evidence, and an answer that cites it or a reply with bad citations.
\<close>

definition sample_binding :: worker_binding where
  "sample_binding = \<lparr>wb_run_id = ''run'', wb_worker_id = ''worker'', wb_lease_seconds = 30, wb_fault = (\<lambda>_. NoFault),
     wb_clock = (\<lambda>_. Some 2), wb_beats = (\<lambda>_. False), wb_sha256 = (\<lambda>s. s)\<rparr>"

text \<open>The same worker with a heartbeat before every call after the claim.\<close>

definition lively_binding :: worker_binding where
  "lively_binding = sample_binding\<lparr>wb_beats := (\<lambda>n. 1 < n)\<rparr>"

definition sample_collected :: evidence_result where
  "sample_collected = \<lparr>er_evidence = [sample_unit_evidence\<lparr>ev_disclosed :=
       (ev_disclosed sample_unit_evidence)\<lparr>dc_content_hash := sample_hex CHR ''a''\<rparr>\<rparr>],
     er_calls = [\<lparr>tc_step_id = ''s1'', tc_tool = SearchClauses, tc_argument_keys = [''query''], tc_result_count = 1,
       tc_duration_ms = 5, tc_retry_count = 0, tc_error_code = None\<rparr>], er_attempts_used = 1\<rparr>"

definition outcome_of :: "verified_answer \<Rightarrow> answer_outcome" where
  "outcome_of v = \<lparr>an_verified = v, an_reservation_id = Some ''r2'', an_replayed = False,
     an_request_size = Some sample_size, an_provider_error = None, an_parse_fault = None\<rparr>"

definition sample_answer :: answer_outcome where
  "sample_answer = outcome_of \<lparr>va_verdict = Answered, va_answer = Some ''yes'',
     va_citations = [sample_citation\<lparr>ci_content_hash := sample_hex CHR ''a''\<rparr>], va_refusal_reason = None,
     va_citation_faults = []\<rparr>"

definition sample_agents :: "answer_outcome \<Rightarrow> unit worker_agents" where
  "sample_agents x = \<lparr>wa_plan = (\<lambda>_ e. (Inr (receipt sample_plan ''r1''), e)),
     wa_collect = (\<lambda>_ _ e. (Inr sample_collected, e)), wa_answer = (\<lambda>_ _ e. (Inr x, e)), wa_elapsed = (\<lambda>e. (7, e))\<rparr>"

definition sample_env_at :: "run_tables \<Rightarrow> unit store_env" where
  "sample_env_at db = \<lparr>se_tables = db, se_calls = 0, se_lease_lost = False, se_agents = ()\<rparr>"

definition sample_job :: "'s run_job" where
  "sample_job = \<lparr>jb_question = ''q'', jb_corpus_manifest_id = ''44'', jb_task_level = L1, jb_l2_context = None,
     jb_lease_acquired = False, jb_attempt = 1\<rparr>"

lemma sample_claimable: "claimable lively_binding (sample_env_at sample_created) 22"
proof -
  have "in_time lively_binding 1"
    by (simp add: in_time_def call_time_def grant_def lively_binding_def sample_binding_def microseconds_def)
  moreover have "find_run sample_created ''run'' = Some sample_queued" "length (events_of sample_created ''run'') = 1"
    by (simp_all add: sample_created_eq find_run_def events_of_def row_defs)
  moreover have "run_store_ok sample_created" by (rule reachable_store_ok [OF sample_reachable(1)])
  ultimately show ?thesis
    by (simp add: claimable_def sample_env_at_def)
      (simp add: lively_binding_def sample_binding_def call_time_def row_defs lease_expired_def)
qed

lemma sample_step_names:
  "trace_identifier ''planning''" "trace_identifier ''evidence''" "trace_identifier ''answer''" "trace_identifier ''s1''"
  "trace_identifier ''p1''" "argument_key ''query''"
  by code_simp+

lemmas event_rules = recordable_def is_transition_def planning_acts_def evidence_acts_def answer_acts_def
  stage_started_def stage_finished_def agent_event_def planning_egress_event_def admitted_egress_event_def
  answer_egress_event_def verifier_event_def answer_event_def tool_event_def evidence_event_def
  admission_has_a_stable_result_def verdict_has_its_own_reason_def failure_has_a_stable_fault_def
  optional_simps is_count_def is_duration_def is_cost_def

lemmas sample_worker_defs = receipt_def sample_size_def sample_plan_def sample_collected_def outcome_of_def
  sample_answer_def selected_evidence_def

lemma sample_bodies:
  "m \<le> 3600000 \<Longrightarrow> all_recordable (planning_acts (receipt sample_plan ''r1'') m @ evidence_acts sample_collected m @
    answer_acts (selected_evidence sample_collected) sample_answer m m)"
  by (auto simp: all_recordable_def event_rules sample_worker_defs sample_step_names)

lemma sample_recordable:
  "recordable_plan (receipt sample_plan ''r1'')" "recordable_evidence sample_collected"
  using sample_bodies
  by (simp_all add: recordable_plan_def recordable_evidence_def all_recordable_def)
    (simp add: sample_collected_def)

lemma sample_outcome:
  "project_answer_outcome sample_answer = Inr \<lparr>te_status = RunAnswered, te_reason = None\<rparr>"
  "body_valid (TerminalEvent RunAnswered None)"
  by (simp_all add: project_answer_outcome_def sample_answer_def outcome_of_def
      optional_simps status_is_terminal_def is_nonterminal_def)

lemma sample_answers: "recordable_answer es sample_answer"
proof -
  have "all_recordable (answer_acts es sample_answer m m)" if "m \<le> 3600000" for m
    using sample_bodies [OF that] by (auto simp: all_recordable_def answer_acts_def)
  with sample_outcome show ?thesis by (simp add: recordable_answer_def)
qed

lemma sample_answering: "answering (sample_agents sample_answer)"
  using sample_recordable sample_answers by (simp add: answering_def sample_agents_def)

lemma sample_unclaimed: "\<not> jb_lease_acquired (sample_job :: unit store_env run_job)"
  by (simp add: sample_job_def)

theorem undisturbed_run_is_ended_witness:
  "\<exists>p m1 c m2 x m3 m4 t st. run_l1 (store_context lively_binding (sample_agents sample_answer)) sample_job
      (worker_start (sample_env_at sample_created)) = (Inr (), st) \<and>
    ws_acts st = [Claimed True] @ planning_acts p m1 @ evidence_acts c m2 @
      answer_acts (selected_evidence c) x m3 m4 @ [Ended t True] \<and>
    project_answer_outcome x = Inr t \<and> ended_as (se_tables (ws_env st)) (wb_run_id lively_binding) t"
  by (rule undisturbed_run_is_ended [OF sample_claimable sample_answering sample_unclaimed])

text \<open>The same run, with its answer.\<close>

lemma sample_run:
  obtains p m1 c m2 m3 m4 st where "run_l1 (store_context lively_binding (sample_agents sample_answer)) sample_job
      (worker_start (sample_env_at sample_created)) = (Inr (), st)"
    "ws_acts st = [Claimed True] @ planning_acts p m1 @ evidence_acts c m2 @
      answer_acts (selected_evidence c) sample_answer m3 m4 @ [Ended \<lparr>te_status = RunAnswered, te_reason = None\<rparr> True]"
proof -
  let ?a = "sample_agents sample_answer"
  obtain p m1 c m2 x m3 m4 t st where run: "run_l1 (store_context lively_binding ?a) sample_job
      (worker_start (sample_env_at sample_created)) = (Inr (), st)"
    and acts: "ws_acts st = [Claimed True] @ planning_acts p m1 @ evidence_acts c m2 @
      answer_acts (selected_evidence c) x m3 m4 @ [Ended t True]" and t: "project_answer_outcome x = Inr t"
    using undisturbed_run [OF sample_claimable sample_answering sample_unclaimed] by blast
  from acts have "GotAnswer (selected_evidence c) x \<in> set (ws_acts st)" by (simp add: answer_acts_def)
  moreover from l1_follows [OF run] acts have "received ?a (ws_acts st)"
    by (auto simp: traced_def)
  ultimately have "x = sample_answer" by (auto simp: received_def sample_agents_def)
  with run acts t sample_outcome(1) show thesis by (intro that [of st p m1 c m2 m3 m4]) simp_all
qed

theorem answered_run_leaves_full_trace_witness:
  "\<exists>st p m1 collected m2 outcome m3 m4.
    run_l1 (store_context lively_binding (sample_agents sample_answer)) sample_job
      (worker_start (sample_env_at sample_created)) = (Inr (), st) \<and>
    ws_acts st = [Claimed True] @ planning_acts p m1 @ evidence_acts collected m2 @
      answer_acts (selected_evidence collected) outcome m3 m4 @
      [Ended \<lparr>te_status = RunAnswered, te_reason = None\<rparr> True] \<and>
    va_verdict (an_verified outcome) = Answered"
proof -
  let ?t = "\<lparr>te_status = RunAnswered, te_reason = None\<rparr>"
  obtain st where run: "run_l1 (store_context lively_binding (sample_agents sample_answer)) sample_job
      (worker_start (sample_env_at sample_created)) = (Inr (), st)" and ended: "Ended ?t True \<in> set (ws_acts st)"
    by (rule sample_run) auto
  have "claim_acts (sample_job :: unit store_env run_job) = [Claimed True]" by (simp add: claim_acts_def sample_job_def)
  with answered_run_leaves_full_trace [OF run ended] run show ?thesis by fastforce
qed

text \<open>Twenty-one citations of nothing that was disclosed.\<close>

definition sample_claims :: "string list" where
  "sample_claims = map (\<lambda>n. replicate n CHR ''0'') [1..<22]"

definition sample_disclosed :: disclosed_clause where
  "sample_disclosed = (ev_disclosed sample_unit_evidence)\<lparr>dc_content_hash := ''''\<rparr>"

lemma sample_claims_undisclosed:
  "distinct sample_claims" "set sample_claims \<inter> dc_content_hash ` set [sample_disclosed] = {}" "20 < length sample_claims"
  by (auto simp: sample_claims_def sample_disclosed_def distinct_map inj_on_def dest: arg_cong [of _ _ length])

definition sample_refusal :: verified_answer where
  "sample_refusal = (case verify_answer (Some ''yes'') sample_claims [sample_disclosed] ''44'' False of Inr v \<Rightarrow> v)"

lemma sample_refused:
  "\<exists>faults. sample_refusal = make_refusal UnverifiableCitation faults \<and> 20 < length faults"
  "verify_answer (Some ''yes'') sample_claims [sample_disclosed] ''44'' False = Inr sample_refusal"
proof -
  have "sample_claims \<noteq> []" using sample_claims_undisclosed(3) by auto
  from undisclosed_faults [OF sample_claims_undisclosed(1,2) _ _ _ this, of "Some ''yes''" "''44''"] obtain faults where
    "verify_answer (Some ''yes'') sample_claims [sample_disclosed] ''44'' False = Inr (make_refusal UnverifiableCitation faults)"
    "length faults = length sample_claims"
    by auto
  with sample_claims_undisclosed(3) show
    "\<exists>faults. sample_refusal = make_refusal UnverifiableCitation faults \<and> 20 < length faults"
    "verify_answer (Some ''yes'') sample_claims [sample_disclosed] ''44'' False = Inr sample_refusal"
    by (auto simp: sample_refusal_def)
qed

theorem unreportable_faults_strand_run_witness:
  "\<exists>st. run_l1 (store_context lively_binding (sample_agents (outcome_of sample_refusal))) sample_job
      (worker_start (sample_env_at sample_created)) = (Inl (Uncaught ''ValidationError''), st) \<and>
    va_refusal_reason sample_refusal = Some UnverifiableCitation \<and> \<not> list_ex is_ended (ws_acts st)"
proof -
  let ?x = "outcome_of sample_refusal"
  have agents: "fst (wa_elapsed (sample_agents ?x) e) \<le> 3600000"
    "\<exists>p e'. wa_plan (sample_agents ?x) q e = (Inr p, e') \<and> recordable_plan p"
    "\<exists>c e'. wa_collect (sample_agents ?x) plan corpus e = (Inr c, e') \<and> c = sample_collected"
    "\<exists>x e'. wa_answer (sample_agents ?x) q es e = (Inr x, e') \<and> x = ?x" for q plan corpus es e
    using sample_recordable by (simp_all add: sample_agents_def)
  have bad: "\<not> body_valid (verifier_event ?x m)" for m
  proof -
    obtain faults where v: "sample_refusal = make_refusal UnverifiableCitation faults" "20 < length faults"
      using sample_refused(1) by blast
    from v(2) show ?thesis
      unfolding v(1) verifier_event_def outcome_of_def make_refusal_def by simp
  qed
  have egress: "answer_egress_event ?x = Some (admitted_egress_event EvidenceStage ''r2'' False (Some sample_size))"
    "recordable (admitted_egress_event EvidenceStage ''r2'' False (Some sample_size))"
    "recordable (agent_event AnswerAgent ''answer'' PhaseStarted None None)"
    by (simp_all add: event_rules sample_worker_defs sample_step_names)
  obtain st where run: "run_l1 (store_context lively_binding (sample_agents ?x)) sample_job
      (worker_start (sample_env_at sample_created)) = (Inl (Uncaught ''ValidationError''), st)"
    and got: "GotAnswer (selected_evidence sample_collected) ?x \<in> set (ws_acts st)"
    using stranded_run [OF sample_claimable sample_unclaimed agents(1-3) sample_recordable(2) agents(4) egress(3,1,2) bad] by blast
  have answers: "\<exists>e'. wa_answer (sample_agents ?x) q es e = (Inr ?x, e')" for q es e by (simp add: sample_agents_def)
  have "verify_answer (Some ''yes'') sample_claims [sample_disclosed] ''44'' False = Inr (an_verified ?x)"
    using sample_refused(2) by (simp add: outcome_of_def)
  from unreportable_faults_strand_run [OF answers this sample_claims_undisclosed _ _ _ run got] run
  show ?thesis by (simp add: outcome_of_def)
qed

end
