(* ===== verification/WorkerAudit.thy ===== *)
theory WorkerAudit
  imports WorkerWitnesses
begin

text \<open>
  The audit facts of an L2 run on the run store: each batch is appended once, under its anchor.
  Calls of one step share an anchor, so that only the first of them reaches the trace.
\<close>

definition batch_rows :: "event_body list \<Rightarrow> event_body \<Rightarrow> event_body list \<Rightarrow> event_body list" where
  "batch_rows bodies anchor before = (if anchor \<in> set before then [] else bodies)"

lemma append_many_trace:
  assumes "append_many_once fault clock i owner (map trace_event bodies) (trace_event anchor) db = (Inr evs, db')"
    and "\<forall>e. anchor \<noteq> EgressSummary e"
  shows "trace_of db' i = trace_of db i @ batch_rows bodies anchor (trace_of db i)"
proof -
  from assms(2) have anchored: "audit_anchor_exists db i anchor \<longleftrightarrow> anchor \<in> set (trace_of db i)"
    by (cases anchor) (auto simp: audit_anchor_exists_def trace_of_def)
  from assms(1) obtain now where
    "if audit_anchor_exists db i anchor then db' = db
     else append_all i now (map (re_body \<circ> trace_event) bodies) db = Inr (evs, db')"
    by (auto simp: append_many_once_def run_transact_def trace_event_def comp_def
        split: if_splits option.splits fault.splits sum.splits)
  with anchored append_all_bodies [of i now "map (re_body \<circ> trace_event) bodies" db evs db'] show ?thesis
    by (auto simp: batch_rows_def trace_of_def trace_event_def comp_def)
qed

lemma acted_batch:
  assumes "acted act (wx_append_many_once (store_context b a) (map trace_event bodies) (trace_event anchor)) st = (Inr x, st')"
    and "\<forall>e. anchor \<noteq> EgressSummary e"
  shows "stored_trace b (ws_env st') = stored_trace b (ws_env st) @ batch_rows bodies anchor (stored_trace b (ws_env st))"
proof -
  let ?s = "beat b (ws_env st)"
  from assms(1) obtain db' where op: "append_many_once (wb_fault b (se_calls ?s)) (wb_clock b (se_calls ?s)) (wb_run_id b)
      (wb_worker_id b) (map trace_event bodies) (trace_event anchor) (se_tables ?s) = (Inr x, db')"
    and st': "se_tables (ws_env st') = db'"
    by (auto simp: acted_def bind_l2_def perform_def store_context_def store_call_def Let_def update_l2_def ret_def
        note_act_def split: prod.splits sum.splits)
  have "trace_of (se_tables ?s) (wb_run_id b) = stored_trace b (ws_env st)"
    using beat_trace [of b "ws_env st"] by (simp add: stored_trace_def)
  with append_many_trace [OF op assms(2)] st' show ?thesis by (simp add: stored_trace_def)
qed

lemma appended_batches:
  assumes "append_batches (store_context b a) (map (\<lambda>x. ([anchor, f x], anchor)) xs) st = (Inr (), st')"
    and "\<forall>e. anchor \<noteq> EgressSummary e"
  shows "stored_trace b (ws_env st') = stored_trace b (ws_env st) @
    (case xs of [] \<Rightarrow> [] | x # _ \<Rightarrow> batch_rows [anchor, f x] anchor (stored_trace b (ws_env st)))"
  using assms(1)
proof (induction xs arbitrary: st)
  case (Cons x xs)
  let ?act = "acted (\<lambda>_. AppendedBatch [anchor, f x] anchor)
      (wx_append_many_once (store_context b a) (map trace_event [anchor, f x]) (trace_event anchor))"
  from Cons.prems obtain evs st1 where first: "?act st = (Inr evs, st1)"
    and rest: "append_batches (store_context b a) (map (\<lambda>x. ([anchor, f x], anchor)) xs) st1 = (Inr (), st')"
    by (auto simp: bind_l2_def split: prod.splits sum.splits)
  from acted_batch [OF first assms(2)] have
    "stored_trace b (ws_env st1) = stored_trace b (ws_env st) @ batch_rows [anchor, f x] anchor (stored_trace b (ws_env st))" .
  moreover from this have "anchor \<in> set (stored_trace b (ws_env st1))"
    by (auto simp: batch_rows_def)
  ultimately show ?case
    using Cons.IH [OF rest] by (simp add: batch_rows_def split: list.splits)
qed (simp add: ret_def)

text \<open>
  C38. Calls of the same step reach the trace once. The audit identity of a tool call is made of the
  attempt and the step alone, so when the collection made several calls for one step, appending
  their audit leaves at most the first of them on record: the others are dropped without an error.
\<close>

theorem repeated_step_calls_are_dropped:
  assumes "\<forall>c \<in> set calls. tc_step_id c = tc_step_id call"
    and "append_l2_audit (store_context b a) (EvidenceAudit (call # calls)
      (map (\<lambda>c. ''tool/initial/a'' @ show_nat n @ ''/'' @ tc_step_id c) (call # calls))) st = (Inr (), st')"
  shows "let anchor = audit_identity_event (wb_sha256 b) (''tool/initial/a'' @ show_nat n @ ''/'' @ tc_step_id call) EvidenceAgentName
    in stored_trace b (ws_env st') = stored_trace b (ws_env st) @
      (if anchor \<in> set (stored_trace b (ws_env st)) then [] else [anchor, tool_event call])"
proof -
  let ?id = "''tool/initial/a'' @ show_nat n @ ''/'' @ tc_step_id call"
  let ?anchor = "audit_identity_event (wb_sha256 b) ?id EvidenceAgentName"
  have "map (\<lambda>(c, audit_id). let identity = audit_identity_event (wb_sha256 b) audit_id EvidenceAgentName in
        ([identity, tool_event c], identity))
      (zip (call # calls) (map (\<lambda>c. ''tool/initial/a'' @ show_nat n @ ''/'' @ tc_step_id c) (call # calls))) =
      map (\<lambda>c. ([?anchor, tool_event c], ?anchor)) (call # calls)"
    using assms(1) by (intro nth_equalityI) (auto simp: nth_Cons' Let_def)
  moreover have "wx_sha256 (store_context b a) = wb_sha256 b" by (simp add: store_context_def)
  ultimately have "append_batches (store_context b a) (map (\<lambda>c. ([?anchor, tool_event c], ?anchor)) (call # calls)) st = (Inr (), st')"
    using assms(2) by (simp add: append_l2_audit_def raise_l2_def split: if_splits)
  moreover have "\<forall>e. ?anchor \<noteq> EgressSummary e" by (simp add: audit_identity_event_def agent_event_def)
  ultimately have "stored_trace b (ws_env st') = stored_trace b (ws_env st) @
      batch_rows [?anchor, tool_event call] ?anchor (stored_trace b (ws_env st))"
    using appended_batches [of b a ?anchor tool_event "call # calls" st st'] by simp
  then show ?thesis unfolding batch_rows_def Let_def .
qed

text \<open>Two calls of one step, audited on the claimed sample run.\<close>

definition sample_calls :: "tool_call_summary list" where
  "sample_calls = (let c = hd (er_calls sample_collected) in [c, c\<lparr>tc_duration_ms := 6\<rparr>])"

definition audited_env :: "unit store_env worker_state" where
  "audited_env = snd (append_l2_audit (store_context sample_binding (sample_agents sample_answer))
     (EvidenceAudit sample_calls (map (\<lambda>c. ''tool/initial/a'' @ show_nat 1 @ ''/'' @ tc_step_id c) sample_calls))
     (worker_start (sample_env_at sample_claimed)))"

lemma sample_audit_name: "trace_identifier ''audit-tool/initial/a1/s1''" "show_nat (Suc 0) = ''1''"
  by code_simp+

lemma sample_audited_calls:
  "append_l2_audit (store_context sample_binding (sample_agents sample_answer))
     (EvidenceAudit sample_calls (map (\<lambda>c. ''tool/initial/a'' @ show_nat 1 @ ''/'' @ tc_step_id c) sample_calls))
     (worker_start (sample_env_at sample_claimed)) = (Inr (), audited_env)"
proof -
  have "fst (append_l2_audit (store_context sample_binding (sample_agents sample_answer))
     (EvidenceAudit sample_calls (map (\<lambda>c. ''tool/initial/a'' @ show_nat 1 @ ''/'' @ tc_step_id c) sample_calls))
     (worker_start (sample_env_at sample_claimed))) = Inr ()"
    by (simp add: append_l2_audit_def sample_calls_def sample_collected_def Let_def sample_audit_name
        audit_identity_event_def event_rules event_valid_def trace_event_def sample_step_names
        store_context_def sample_binding_def worker_start_def sample_env_at_def acted_def bind_l2_def perform_def
        store_call_def beat_def update_l2_def ret_def note_act_def append_many_once_def sample_claimed_eq
        statement_rules row_defs holds_lease_def lease_expired_def audit_anchor_exists_def list_ex_iff
        del: list.set_map set_filter)
  then show ?thesis unfolding audited_env_def by (metis prod.collapse)
qed

theorem repeated_step_calls_are_dropped_witness:
  "tool_event (sample_calls ! 1) \<notin> set (stored_trace sample_binding (ws_env audited_env))"
proof -
  have calls: "sample_calls = hd sample_calls # tl sample_calls" "\<forall>c \<in> set (tl sample_calls). tc_step_id c = tc_step_id (hd sample_calls)"
    by (simp_all add: sample_calls_def sample_collected_def Let_def)
  have before: "stored_trace sample_binding (ws_env (worker_start (sample_env_at sample_claimed))) =
      [StateTransition None Queued None, StateTransition (Some Queued) Running None]"
    by (simp add: stored_trace_def sample_env_at_def worker_start_def sample_binding_def trace_of_def events_of_def
        sample_claimed_eq row_defs)
  from repeated_step_calls_are_dropped [OF calls(2), of sample_binding "sample_agents sample_answer" 1
      "worker_start (sample_env_at sample_claimed)" audited_env] sample_audited_calls before
  show ?thesis
    by (simp add: calls(1) [symmetric] audit_identity_event_def agent_event_def)
      (auto simp: sample_calls_def sample_collected_def Let_def tool_event_def)
qed

section \<open>Ending an L2 run\<close>

lemma lawful_replaced: "lawful_writer l2 \<Longrightarrow> lawful_writer (replace_l2_runtime ctx l2)"
  by (force simp: lawful_writer_def replace_l2_runtime_def checkpoint_writer_def perform_def split: prod.splits)

lemma bounded_replaced: "bounded_start (replace_l2_runtime ctx l2) = bounded_start l2"
  by (simp add: bounded_start_def starting_checkpoint_def replace_l2_runtime_def)

lemma starting_replaced: "starting_results (replace_l2_runtime ctx l2) = starting_results l2"
  by (simp add: starting_results_def starting_checkpoint_def replace_l2_runtime_def)

text \<open>
  What comes before the attempt: the claim, unless the job holds the lease already, and the
  reconciliation of a resumed run's egress; whether the worker goes on.
\<close>

definition l2_opening :: "'s worker_context \<Rightarrow> 's run_job \<Rightarrow> 's l2_context \<Rightarrow> ('s, bool) worker_m" where
  "l2_opening ctx job l2 =
     bind_l2 (if jb_lease_acquired job then ret True else acted Claimed (wx_claim ctx)) (\<lambda>claimed.
       if claimed
       then bind_l2 (case lx_checkpoint l2 of
            Some k \<Rightarrow> if 1 < jb_attempt job
              then bind_l2 (acted (\<lambda>_. Reconciled) (wx_reconcile_l2_egress ctx k)) (\<lambda>_. ret ()) else ret ()
          | None \<Rightarrow> ret ()) (\<lambda>_. ret True)
       else ret False)"

lemma bind_l2_assoc: "bind_l2 (bind_l2 m f) g = bind_l2 m (\<lambda>x. bind_l2 (f x) g)"
  by (rule ext) (simp add: bind_l2_def split: prod.split sum.split)

lemma bind_l2_ret: "bind_l2 (ret x) f = f x"
  by (rule ext) (simp add: bind_l2_def ret_def)

lemma run_l2_opened:
  assumes "jb_l2_context job = Some l2"
  shows "run_l2 ctx job = bind_l2 (l2_opening ctx job l2) (\<lambda>goes. if goes
    then bind_l2 (l2_attempt ctx l2) (\<lambda>outcome. bind_l2 (lease_lost ctx) (\<lambda>lost.
      if lost then ret () else complete_with ctx (project_l2_outcome outcome)))
    else ret ())"
  by (auto simp: run_l2_def assms with_lease_def l2_opening_def bind_l2_assoc bind_l2_ret
      intro!: arg_cong [where f = "bind_l2 (acted Claimed (wx_claim ctx))"])

lemma bind_l2_done:
  "bind_l2 m f st = (Inr y, st') \<longleftrightarrow> (\<exists>x st1. m st = (Inr x, st1) \<and> f x st1 = (Inr y, st'))"
  by (auto simp: bind_l2_def split: prod.splits sum.splits)

lemma completed_act: "complete_with ctx t st = (Inr (), st') \<Longrightarrow> \<exists>ok. last (ws_acts st') = Ended t ok"
  by (auto simp: complete_with_def bind_l2_done acted_def perform_def update_l2_def ret_def raise_l2_def note_act_def
      split: if_splits prod.splits)

lemma unclaimed_act:
  "l2_opening ctx job l2 (worker_start s) = (Inr False, st) \<Longrightarrow> ws_acts st = [Claimed False]"
  by (auto simp: l2_opening_def bind_l2_done acted_def perform_def update_l2_def ret_def note_act_def worker_start_def
      split: if_splits prod.splits)

lemma ended_by_outcome:
  assumes "jb_l2_context job = Some l2" "run_l2 ctx job (worker_start s) = (Inr (), st)"
    and "ws_acts st = A @ [Ended t ok]"
  shows "\<exists>st0 out final. l2_opening ctx job l2 (worker_start s) = (Inr True, st0) \<and>
    run_l2_attempt (replace_l2_runtime ctx l2) (note_act L2Attempted st0) = (Inr out, final) \<and>
    t = project_l2_outcome out \<and> complete_with ctx t (ls_env final) = (Inr (), st)"
proof -
  from assms(2) obtain goes st0 where opened: "l2_opening ctx job l2 (worker_start s) = (Inr goes, st0)"
    and rest: "(if goes
      then bind_l2 (l2_attempt ctx l2) (\<lambda>outcome. bind_l2 (lease_lost ctx) (\<lambda>lost.
        if lost then ret () else complete_with ctx (project_l2_outcome outcome)))
      else ret ()) st0 = (Inr (), st)"
    by (auto simp: run_l2_opened [OF assms(1)] bind_l2_done)
  have goes
  proof (rule ccontr)
    assume "\<not> goes"
    with opened rest have "ws_acts st = [Claimed False]" by (auto simp: ret_def dest: unclaimed_act)
    with assms(3) show False by simp
  qed
  with rest obtain out st1 lost st2 where attempt: "l2_attempt ctx l2 st0 = (Inr out, st1)"
    and lease: "lease_lost ctx st1 = (Inr lost, st2)"
    and finish: "(if lost then ret () else complete_with ctx (project_l2_outcome out)) st2 = (Inr (), st)"
    by (auto simp: bind_l2_done)
  have "\<not> lost"
  proof
    assume lost
    with lease finish have "last (ws_acts st) = LeaseLost"
      by (auto simp: ret_def lease_lost_def note_act_def split: if_splits)
    with assms(3) show False by simp
  qed
  with lease have "st2 = st1" by (auto simp: lease_lost_def split: if_splits)
  with finish \<open>\<not> lost\<close> have complete: "complete_with ctx (project_l2_outcome out) st1 = (Inr (), st)" by simp
  from completed_act [OF this] assms(3) have "t = project_l2_outcome out" by simp
  moreover from attempt obtain final where
    "run_l2_attempt (replace_l2_runtime ctx l2) (note_act L2Attempted st0) = (Inr out, final)" "ls_env final = st1"
    by (auto simp: l2_attempt_def split: prod.splits)
  ultimately show ?thesis using opened complete \<open>goes\<close> by auto
qed

text \<open>
  C37. The worker ends an L2 run only as its attempt ended, and a verified result behind it passed
  both gates. If the last act of an L2 run is the terminal state, then the run was opened (claimed
  unless the job held the lease, its egress reconciled if it was resumed), the attempt was run from
  there and returned an outcome, and what was completed after it, in the state that it left, is the
  projection of this very outcome: answered exactly if the outcome has no egress, provider or parse
  error. Each verified result of this outcome was in the checkpoint the run started from, or the
  deterministic verifier passed it and the semantic verifier supported it.
\<close>

theorem ended_l2_run_is_gated:
  assumes "jb_l2_context job = Some l2" "lawful_writer l2" "bounded_start l2"
    and "run_l2 ctx job (worker_start s) = (Inr (), st)" "ws_acts st = A @ [Ended t ok]"
  shows "\<exists>st0 out final. l2_opening ctx job l2 (worker_start s) = (Inr True, st0) \<and>
    run_l2_attempt (replace_l2_runtime ctx l2) (note_act L2Attempted st0) = (Inr out, final) \<and>
    t = project_l2_outcome out \<and> complete_with ctx t (ls_env final) = (Inr (), st) \<and>
    (te_status t = RunAnswered \<longleftrightarrow> lo_egress_error out = None \<and> lo_provider_error out = None \<and> lo_parse_fault out = None) \<and>
    (\<forall>r \<in> set (lo_results out). cr_verification_status r \<noteq> Verified \<or> r \<in> set (starting_results l2) \<or>
      (\<exists>c evidence suffix generation s' semantic s''. ic_claim_id c = cr_claim_id r \<and>
        result_passed (lx_deterministic l2 (ic_candidate c) evidence) \<and>
        lx_semantic l2 c evidence (lx_deterministic l2 (ic_candidate c) evidence) suffix generation s' = (Inr semantic, s'') \<and>
        sn_supports_verdict (sr_product semantic) \<and> cr_verdict r = cc_proposed_verdict (ic_candidate c)))"
proof -
  let ?l2 = "replace_l2_runtime ctx l2"
  from ended_by_outcome [OF assms(1,4,5)] obtain st0 out final where
    opened: "l2_opening ctx job l2 (worker_start s) = (Inr True, st0)"
    and out: "run_l2_attempt ?l2 (note_act L2Attempted st0) = (Inr out, final)" "t = project_l2_outcome out"
    and complete: "complete_with ctx t (ls_env final) = (Inr (), st)" by blast
  have earned: "result_earned ?l2 r" if "r \<in> set (lo_results out)" for r
    using run_l2_attempt_spec [OF lawful_replaced [OF assms(2)] _ out(1)] assms(3) that
    by (simp add: bounded_replaced ended_def list_all_iff)
  have fields: "lx_deterministic ?l2 = lx_deterministic l2"
    "lx_semantic ?l2 = (\<lambda>c es d key g. perform (lx_semantic l2 c es d key g))"
    by (simp_all add: replace_l2_runtime_def)
  have "cr_verification_status r \<noteq> Verified \<or> r \<in> set (starting_results l2) \<or>
      (\<exists>c evidence suffix generation s' semantic s''. ic_claim_id c = cr_claim_id r \<and>
        result_passed (lx_deterministic l2 (ic_candidate c) evidence) \<and>
        lx_semantic l2 c evidence (lx_deterministic l2 (ic_candidate c) evidence) suffix generation s' = (Inr semantic, s'') \<and>
        sn_supports_verdict (sr_product semantic) \<and> cr_verdict r = cc_proposed_verdict (ic_candidate c))"
    if "r \<in> set (lo_results out)" for r
    using earned [OF that]
    unfolding result_earned_def starting_replaced gated_def fields perform_def by (fastforce split: prod.splits)
  moreover have "te_status t = RunAnswered \<longleftrightarrow>
      lo_egress_error out = None \<and> lo_provider_error out = None \<and> lo_parse_fault out = None"
    by (simp add: out(2) project_l2_outcome_def split: option.split)
  ultimately show ?thesis using opened out complete by blast
qed

definition sample_done :: run_checkpoint where
  "sample_done = sample_checkpoint\<lparr>kp_stage := StageCompleted\<rparr>"

definition sample_l2_job :: "unit run_job" where
  "sample_l2_job = \<lparr>jb_question = '''', jb_corpus_manifest_id = ''44'', jb_task_level = L2,
     jb_l2_context = Some (sample_l2\<lparr>lx_checkpoint := Some sample_done\<rparr>), jb_lease_acquired = True, jb_attempt = 1\<rparr>"

text \<open>A store that accepts, and a lease that holds.\<close>

definition accepting :: "unit worker_context" where
  "accepting = \<lparr>wx_claim = (\<lambda>s. (Inr True, s)), wx_append = (\<lambda>e s. (Inr e, s)),
     wx_append_many_once = (\<lambda>es _ s. (Inr es, s)), wx_reconcile_l2_egress = (\<lambda>_ s. (Inr [], s)),
     wx_complete = (\<lambda>_ s. (Inr True, s)), wx_plan = (\<lambda>_ s. (Inr (receipt sample_plan ''r1''), s)),
     wx_collect = (\<lambda>_ _ s. (Inr sample_collected, s)), wx_answer = (\<lambda>_ _ s. (Inr sample_answer, s)),
     wx_elapsed = (\<lambda>s. (0, s)), wx_lease_lost = (\<lambda>_. False), wx_sha256 = (\<lambda>s. s)\<rparr>"

lemma sample_done_bounds: "within_bounds sample_done"
  by (simp add: sample_done_def sample_checkpoint_eq within_bounds_def)

lemma sample_l2_ends:
  "\<exists>st. run_l2 accepting sample_l2_job (worker_start ()) = (Inr (), st) \<and>
    ws_acts st = [L2Attempted] @ [Ended \<lparr>te_status = RunAnswered, te_reason = None\<rparr> True]"
  by (simp add: run_l2_def sample_l2_job_def with_lease_def l2_attempt_def run_l2_attempt_def Let_def final_results_def
      replace_l2_runtime_def sample_done_def bind_l2_def ret_def lease_lost_def accepting_def plain_outcome_def
      opening_state_def project_l2_outcome_def complete_with_def acted_def perform_def update_l2_def note_act_def
      worker_start_def terminal_event_def event_valid_def optional_simps status_is_terminal_def is_nonterminal_def
      sample_l2_def sample_over_def)

theorem ended_l2_run_is_gated_witness:
  "\<exists>st st0 out final. run_l2 accepting sample_l2_job (worker_start ()) = (Inr (), st) \<and>
    run_l2_attempt (replace_l2_runtime accepting (sample_l2\<lparr>lx_checkpoint := Some sample_done\<rparr>)) (note_act L2Attempted st0) = (Inr out, final) \<and>
    project_l2_outcome out = \<lparr>te_status = RunAnswered, te_reason = None\<rparr> \<and>
    lo_egress_error out = None \<and> lo_provider_error out = None \<and> lo_parse_fault out = None"
proof -
  let ?l2 = "sample_l2\<lparr>lx_checkpoint := Some sample_done\<rparr>"
  obtain st where run: "run_l2 accepting sample_l2_job (worker_start ()) = (Inr (), st)"
    and acts: "ws_acts st = [L2Attempted] @ [Ended \<lparr>te_status = RunAnswered, te_reason = None\<rparr> True]"
    using sample_l2_ends by blast
  have its: "jb_l2_context sample_l2_job = Some ?l2" by (simp add: sample_l2_job_def)
  have lawful: "lawful_writer ?l2"
  proof -
    have "\<exists>t. k = k\<lparr>kp_last_accessed_at := t\<rparr>" for k :: run_checkpoint
      by (rule exI [of _ "kp_last_accessed_at k"]) simp
    then show ?thesis by (simp add: lawful_writer_def sample_l2_def sample_over_def checkpoint_writer_def)
  qed
  have bounded: "bounded_start ?l2"
    by (simp add: bounded_start_def starting_checkpoint_def or_else_def optional_simps sample_done_bounds)
  from ended_l2_run_is_gated [OF its lawful bounded run acts]
  obtain st0 out final where attempt: "run_l2_attempt (replace_l2_runtime accepting ?l2) (note_act L2Attempted st0) = (Inr out, final)"
    and t: "\<lparr>te_status = RunAnswered, te_reason = None\<rparr> = project_l2_outcome out"
    and iff: "te_status \<lparr>te_status = RunAnswered, te_reason = None\<rparr> = RunAnswered \<longleftrightarrow>
      lo_egress_error out = None \<and> lo_provider_error out = None \<and> lo_parse_fault out = None"
    by (elim exE conjE) (rule that; assumption)
  from iff have "lo_egress_error out = None \<and> lo_provider_error out = None \<and> lo_parse_fault out = None" by simp
  with run attempt t [symmetric] show ?thesis by blast
qed

end
