(* ===== verification/WorkerQueue.thy ===== *)
theory WorkerQueue
  imports Actions "HOL-Library.Sublist"
begin

text \<open>
  The delivery queue of \<open>runtime/worker.py\<close>: permits, the capacity limiter, the unbounded memory
  stream between producers and the one consumer, and the worker's lifecycle. The specification is a
  bounded first-in first-out queue with reservations; the code refines it.
\<close>

section \<open>The queue of the worker\<close>

datatype permit_state = PermitReserved | PermitDelivered | PermitCancelled

datatype queue_error = WorkerUnavailable string | WorkerQueueFull string

text \<open>A permit is named by its number; its state is kept in the permit itself.\<close>

record 'j worker_queue =
  wq_queue_capacity :: nat
  wq_permit_states :: "permit_state list"
  wq_permits :: "nat set"
  wq_borrowers :: "nat set"
  wq_stream :: "(nat \<times> 'j) list"
  wq_send_open :: bool
  wq_started :: bool
  wq_closed :: bool

definition new_queue :: "nat \<Rightarrow> 'j worker_queue" where
  "new_queue capacity = \<lparr>wq_queue_capacity = capacity, wq_permit_states = [], wq_permits = {}, wq_borrowers = {},
     wq_stream = [], wq_send_open = True, wq_started = False, wq_closed = False\<rparr>"

definition start_worker :: "'j worker_queue \<Rightarrow> (queue_error + unit) \<times> 'j worker_queue" where
  "start_worker q =
     (if wq_closed q then (Inl (WorkerUnavailable ''worker_closed''), q)
      else if wq_started q then (Inr (), q)
      else (Inr (), q\<lparr>wq_started := True\<rparr>))"

text \<open>\<open>CapacityLimiter.acquire_on_behalf_of_nowait\<close>: it blocks when no token is left.\<close>

definition acquire_nowait :: "nat \<Rightarrow> 'j worker_queue \<Rightarrow> 'j worker_queue option" where
  "acquire_nowait permit q =
     (if wq_queue_capacity q \<le> card (wq_borrowers q) then None
      else Some (q\<lparr>wq_borrowers := insert permit (wq_borrowers q)\<rparr>))"

definition reserve_permit :: "'j worker_queue \<Rightarrow> (queue_error + nat) \<times> 'j worker_queue" where
  "reserve_permit q =
     (if wq_closed q then (Inl (WorkerUnavailable ''worker_closed''), q)
      else if \<not> wq_started q then (Inl (WorkerUnavailable ''worker_not_started''), q)
      else
        let permit = length (wq_permit_states q);
            q1 = q\<lparr>wq_permit_states := wq_permit_states q @ [PermitReserved]\<rparr> in
        case acquire_nowait permit q1 of
          None \<Rightarrow> (Inl (WorkerQueueFull ''worker_queue_full''), q)
        | Some q2 \<Rightarrow> (Inr permit, q2\<lparr>wq_permits := insert permit (wq_permits q2)\<rparr>))"

definition state_of_permit :: "'j worker_queue \<Rightarrow> nat \<Rightarrow> permit_state" where
  "state_of_permit q permit = (if permit < length (wq_permit_states q) then wq_permit_states q ! permit else PermitCancelled)"

definition deliver_permit :: "nat \<Rightarrow> 'j \<Rightarrow> 'j worker_queue \<Rightarrow> (queue_error + unit) \<times> 'j worker_queue" where
  "deliver_permit permit job q =
     (if wq_closed q then (Inl (WorkerUnavailable ''worker_closed''), q)
      else if permit \<notin> wq_permits q then (Inl (WorkerUnavailable ''delivery_permit_used''), q)
      else if \<not> wq_send_open q then (Inl (WorkerUnavailable ''worker_closed''), q)
      else (Inr (), q\<lparr>wq_stream := wq_stream q @ [(permit, job)]\<rparr>))"

text \<open>\<open>DeliveryPermit.deliver\<close> and \<open>cancel\<close>.\<close>

definition set_permit_state :: "nat \<Rightarrow> permit_state \<Rightarrow> 'j worker_queue \<Rightarrow> 'j worker_queue" where
  "set_permit_state permit s q = q\<lparr>wq_permit_states := (wq_permit_states q)[permit := s]\<rparr>"

definition deliver :: "nat \<Rightarrow> 'j \<Rightarrow> 'j worker_queue \<Rightarrow> (queue_error + unit) \<times> 'j worker_queue" where
  "deliver permit job q =
     (if state_of_permit q permit \<noteq> PermitReserved then (Inl (WorkerUnavailable ''delivery_permit_used''), q)
      else (case deliver_permit permit job q of
          (Inl e, q1) \<Rightarrow> (Inl e, q1)
        | (Inr _, q1) \<Rightarrow> (Inr (), set_permit_state permit PermitDelivered q1)))"

definition release_permit :: "nat \<Rightarrow> 'j worker_queue \<Rightarrow> 'j worker_queue" where
  "release_permit permit q =
     (if permit \<notin> wq_permits q then q
      else q\<lparr>wq_permits := wq_permits q - {permit}, wq_borrowers := wq_borrowers q - {permit}\<rparr>)"

definition cancel_permit :: "nat \<Rightarrow> 'j worker_queue \<Rightarrow> 'j worker_queue" where
  "cancel_permit permit q =
     (if state_of_permit q permit \<noteq> PermitReserved then q
      else release_permit permit (set_permit_state permit PermitCancelled q))"

definition submit :: "'j \<Rightarrow> 'j worker_queue \<Rightarrow> (queue_error + unit) \<times> 'j worker_queue" where
  "submit job q =
     (case reserve_permit q of
        (Inl e, q1) \<Rightarrow> (Inl e, q1)
      | (Inr permit, q1) \<Rightarrow> (case deliver permit job q1 of
          (Inr _, q2) \<Rightarrow> (Inr (), q2)
        | (Inl e, q2) \<Rightarrow> (Inl e, cancel_permit permit q2)))"

text \<open>One turn of \<open>_consume\<close>: the head of the stream, whose permit is released as it is taken.\<close>

definition consume :: "'j worker_queue \<Rightarrow> 'j option \<times> 'j worker_queue" where
  "consume q =
     (if \<not> wq_started q then (None, q)
      else (case wq_stream q of
          [] \<Rightarrow> (None, q)
        | (permit, job) # rest \<Rightarrow> (Some job, release_permit permit (q\<lparr>wq_stream := rest\<rparr>))))"

text \<open>
  \<open>aclose\<close> in two steps, since the consumer may take more while the stream is being closed: no
  more is accepted; then the consumer is gone, with what still waited, and every permit is released.
\<close>

definition close_sending :: "'j worker_queue \<Rightarrow> 'j worker_queue" where
  "close_sending q = (if wq_closed q then q else q\<lparr>wq_closed := True, wq_send_open := False\<rparr>)"

definition close_finished :: "'j worker_queue \<Rightarrow> 'j worker_queue" where
  "close_finished q =
     (if wq_closed q then q\<lparr>wq_started := False, wq_stream := [],
        wq_borrowers := wq_borrowers q - wq_permits q, wq_permits := {}\<rparr> else q)"

section \<open>Commands\<close>

datatype 'j queue_command =
  StartWorker | ReservePermit | DeliverTo nat 'j | CancelPermit nat | Submit 'j | Consume | CloseSending | CloseFinished

datatype 'j queue_reply =
  Refusal queue_error | Accepted | Granted nat | Consumed "'j option"

fun accepted_or :: "queue_error + unit \<Rightarrow> 'j queue_reply" where
  "accepted_or (Inl e) = Refusal e"
| "accepted_or (Inr _) = Accepted"

fun queue_step :: "'j queue_command \<Rightarrow> 'j worker_queue \<Rightarrow> 'j queue_reply \<times> 'j worker_queue" where
  "queue_step StartWorker q = (case start_worker q of (r, q1) \<Rightarrow> (accepted_or r, q1))"
| "queue_step ReservePermit q = (case reserve_permit q of (Inl e, q1) \<Rightarrow> (Refusal e, q1) | (Inr p, q1) \<Rightarrow> (Granted p, q1))"
| "queue_step (DeliverTo permit job) q = (case deliver permit job q of (r, q1) \<Rightarrow> (accepted_or r, q1))"
| "queue_step (CancelPermit permit) q = (Accepted, cancel_permit permit q)"
| "queue_step (Submit job) q = (case submit job q of (r, q1) \<Rightarrow> (accepted_or r, q1))"
| "queue_step Consume q = (case consume q of (j, q1) \<Rightarrow> (Consumed j, q1))"
| "queue_step CloseSending q = (Accepted, close_sending q)"
| "queue_step CloseFinished q = (Accepted, close_finished q)"

fun queue_run :: "'j queue_command list \<Rightarrow> 'j worker_queue \<Rightarrow> 'j queue_reply list \<times> 'j worker_queue" where
  "queue_run [] q = ([], q)"
| "queue_run (c # cs) q = (case queue_step c q of (r, q1) \<Rightarrow> case queue_run cs q1 of (rs, q2) \<Rightarrow> (r # rs, q2))"

section \<open>The specification\<close>

text \<open>Jobs wait in order; reservations that were neither used nor withdrawn count as well.\<close>

datatype queue_phase = Unstarted | Serving | Closing | Closed

record 'j bounded_fifo =
  bf_bound :: nat
  bf_granted :: nat
  bf_reserved :: "nat set"
  bf_waiting :: "'j list"
  bf_phase :: queue_phase

definition fifo_load :: "'j bounded_fifo \<Rightarrow> nat" where
  "fifo_load f = card (bf_reserved f) + length (bf_waiting f)"

definition fifo_reserve :: "'j bounded_fifo \<Rightarrow> (queue_error + nat) \<times> 'j bounded_fifo" where
  "fifo_reserve f = (case bf_phase f of
       Unstarted \<Rightarrow> (Inl (WorkerUnavailable ''worker_not_started''), f)
     | Serving \<Rightarrow>
         if fifo_load f < bf_bound f
         then (Inr (bf_granted f), f\<lparr>bf_granted := Suc (bf_granted f), bf_reserved := insert (bf_granted f) (bf_reserved f)\<rparr>)
         else (Inl (WorkerQueueFull ''worker_queue_full''), f)
     | _ \<Rightarrow> (Inl (WorkerUnavailable ''worker_closed''), f))"

definition fifo_deliver :: "nat \<Rightarrow> 'j \<Rightarrow> 'j bounded_fifo \<Rightarrow> (queue_error + unit) \<times> 'j bounded_fifo" where
  "fifo_deliver permit job f =
     (if permit \<notin> bf_reserved f then (Inl (WorkerUnavailable ''delivery_permit_used''), f)
      else if bf_phase f \<notin> {Unstarted, Serving} then (Inl (WorkerUnavailable ''worker_closed''), f)
      else (Inr (), f\<lparr>bf_reserved := bf_reserved f - {permit}, bf_waiting := bf_waiting f @ [job]\<rparr>))"

definition fifo_submit :: "'j \<Rightarrow> 'j bounded_fifo \<Rightarrow> (queue_error + unit) \<times> 'j bounded_fifo" where
  "fifo_submit job f = (case fifo_reserve f of
       (Inl e, f1) \<Rightarrow> (Inl e, f1)
     | (Inr permit, f1) \<Rightarrow> fifo_deliver permit job f1)"

fun fifo_step :: "'j queue_command \<Rightarrow> 'j bounded_fifo \<Rightarrow> 'j queue_reply \<times> 'j bounded_fifo" where
  "fifo_step StartWorker f = (case bf_phase f of
       Unstarted \<Rightarrow> (Accepted, f\<lparr>bf_phase := Serving\<rparr>)
     | Serving \<Rightarrow> (Accepted, f)
     | _ \<Rightarrow> (Refusal (WorkerUnavailable ''worker_closed''), f))"
| "fifo_step ReservePermit f = (case fifo_reserve f of (Inl e, f1) \<Rightarrow> (Refusal e, f1) | (Inr p, f1) \<Rightarrow> (Granted p, f1))"
| "fifo_step (DeliverTo permit job) f = (case fifo_deliver permit job f of (r, f1) \<Rightarrow> (accepted_or r, f1))"
| "fifo_step (CancelPermit permit) f = (Accepted, f\<lparr>bf_reserved := bf_reserved f - {permit}\<rparr>)"
| "fifo_step (Submit job) f = (case fifo_submit job f of (r, f1) \<Rightarrow> (accepted_or r, f1))"
| "fifo_step Consume f = (case bf_waiting f of
       [] \<Rightarrow> (Consumed None, f)
     | job # rest \<Rightarrow> (Consumed (Some job), f\<lparr>bf_waiting := rest\<rparr>))"
| "fifo_step CloseSending f = (Accepted, f\<lparr>bf_phase := (case bf_phase f of
       Unstarted \<Rightarrow> Closed | Serving \<Rightarrow> Closing | p \<Rightarrow> p)\<rparr>)"
| "fifo_step CloseFinished f = (Accepted, if bf_phase f \<in> {Unstarted, Serving} then f
       else f\<lparr>bf_phase := Closed, bf_waiting := []\<rparr>)"

fun fifo_run :: "'j queue_command list \<Rightarrow> 'j bounded_fifo \<Rightarrow> 'j queue_reply list \<times> 'j bounded_fifo" where
  "fifo_run [] f = ([], f)"
| "fifo_run (c # cs) f = (case fifo_step c f of (r, f1) \<Rightarrow> case fifo_run cs f1 of (rs, f2) \<Rightarrow> (r # rs, f2))"

definition new_fifo :: "nat \<Rightarrow> 'j bounded_fifo" where
  "new_fifo bound = \<lparr>bf_bound = bound, bf_granted = 0, bf_reserved = {}, bf_waiting = [], bf_phase = Unstarted\<rparr>"

section \<open>Abstraction\<close>

definition reserved_permits :: "'j worker_queue \<Rightarrow> nat set" where
  "reserved_permits q = {p. p < length (wq_permit_states q) \<and> wq_permit_states q ! p = PermitReserved}"

definition queue_phase_of :: "'j worker_queue \<Rightarrow> queue_phase" where
  "queue_phase_of q =
     (if wq_closed q then (if wq_started q then Closing else Closed) else if wq_started q then Serving else Unstarted)"

definition fifo_of :: "'j worker_queue \<Rightarrow> 'j bounded_fifo" where
  "fifo_of q = \<lparr>bf_bound = wq_queue_capacity q, bf_granted = length (wq_permit_states q), bf_reserved = reserved_permits q,
     bf_waiting = map snd (wq_stream q), bf_phase = queue_phase_of q\<rparr>"

definition queue_ok :: "'j worker_queue \<Rightarrow> bool" where
  "queue_ok q \<longleftrightarrow> wq_borrowers q = wq_permits q \<and> card (wq_permits q) \<le> wq_queue_capacity q \<and>
     wq_permits q \<subseteq> {..<length (wq_permit_states q)} \<and> distinct (map fst (wq_stream q)) \<and>
     (\<forall>p \<in> fst ` set (wq_stream q). p < length (wq_permit_states q) \<and> wq_permit_states q ! p = PermitDelivered) \<and>
     (wq_send_open q \<longleftrightarrow> \<not> wq_closed q) \<and> (\<not> wq_started q \<longrightarrow> wq_permits q = {} \<and> wq_stream q = []) \<and>
     (wq_started q \<or> \<not> wq_closed q \<longrightarrow> wq_permits q = reserved_permits q \<union> fst ` set (wq_stream q))"

lemma reserved_permits_grow [simp]:
  "reserved_permits (q\<lparr>wq_permit_states := wq_permit_states q @ [PermitReserved]\<rparr>) =
    insert (length (wq_permit_states q)) (reserved_permits q)"
  by (auto simp: reserved_permits_def nth_append)

lemma reserved_permits_set [simp]:
  "s \<noteq> PermitReserved \<Longrightarrow> reserved_permits (set_permit_state p s q) = reserved_permits q - {p}"
  by (cases "p < length (wq_permit_states q)")
    (auto simp: reserved_permits_def set_permit_state_def nth_list_update list_update_beyond split: if_splits)

lemma reserved_permits_cong [simp]:
  "reserved_permits (q\<lparr>wq_stream := xs\<rparr>) = reserved_permits q"
  "reserved_permits (q\<lparr>wq_permits := ps\<rparr>) = reserved_permits q"
  "reserved_permits (q\<lparr>wq_borrowers := bs\<rparr>) = reserved_permits q"
  "reserved_permits (q\<lparr>wq_started := a\<rparr>) = reserved_permits q"
  "reserved_permits (q\<lparr>wq_closed := a\<rparr>) = reserved_permits q"
  "reserved_permits (q\<lparr>wq_send_open := a\<rparr>) = reserved_permits q"
  by (simp_all add: reserved_permits_def)

lemma state_of_permit_reserved: "state_of_permit q p = PermitReserved \<longleftrightarrow> p \<in> reserved_permits q"
  by (auto simp: state_of_permit_def reserved_permits_def)

lemma queue_load:
  assumes "queue_ok q" "wq_started q"
  shows "card (wq_borrowers q) = fifo_load (fifo_of q)"
proof -
  have "reserved_permits q \<inter> fst ` set (wq_stream q) = {}"
    using assms(1) by (auto simp: queue_ok_def reserved_permits_def)
  moreover have "finite (reserved_permits q)" by (simp add: reserved_permits_def)
  moreover have "card (fst ` set (wq_stream q)) = length (wq_stream q)"
    using assms(1) distinct_card [of "map fst (wq_stream q)"] by (simp add: queue_ok_def)
  ultimately show ?thesis
    using assms by (simp add: queue_ok_def fifo_load_def fifo_of_def card_Un_disjoint)
qed

lemma queue_ok_new: "queue_ok (new_queue n)" "fifo_of (new_queue n) = new_fifo n"
  by (simp_all add: queue_ok_def new_queue_def fifo_of_def new_fifo_def reserved_permits_def queue_phase_of_def)

section \<open>Each operation refines the specification\<close>

lemma reserve_refines:
  assumes ok: "queue_ok q" and "reserve_permit q = (r, q')"
  shows "queue_ok q' \<and> fifo_reserve (fifo_of q) = (r, fifo_of q')"
proof (cases "wq_closed q \<or> \<not> wq_started q")
  case True
  with assms show ?thesis
    by (auto simp: reserve_permit_def fifo_reserve_def fifo_of_def queue_phase_of_def split: if_splits)
next
  case False
  then have load: "card (wq_borrowers q) = fifo_load (fifo_of q)" using queue_load [OF ok] by simp
  show ?thesis
  proof (cases "wq_queue_capacity q \<le> card (wq_borrowers q)")
    case True
    with False assms load show ?thesis
      by (auto simp: reserve_permit_def acquire_nowait_def Let_def fifo_reserve_def queue_phase_of_def fifo_of_def)
  next
    case room: False
    let ?n = "length (wq_permit_states q)"
    have fresh: "?n \<notin> wq_permits q" "?n \<notin> fst ` set (wq_stream q)" using ok by (auto simp: queue_ok_def)
    from ok have fin: "finite (wq_permits q)" by (auto simp: queue_ok_def intro: finite_subset)
    from False room assms(2) have q': "r = Inr ?n" "q' = q\<lparr>wq_permit_states := wq_permit_states q @ [PermitReserved],
        wq_borrowers := insert ?n (wq_borrowers q), wq_permits := insert ?n (wq_permits q)\<rparr>"
      by (auto simp: reserve_permit_def acquire_nowait_def Let_def)
    have res: "reserved_permits q' = insert ?n (reserved_permits q)"
      unfolding q'(2) by (auto simp: reserved_permits_def nth_append)
    have "queue_ok q'"
      using ok False room fresh fin unfolding queue_ok_def res
      by (auto simp: q'(2) nth_append subset_eq less_Suc_eq)
    moreover from False room load res q' have "fifo_reserve (fifo_of q) = (r, fifo_of q')"
      by (auto simp: fifo_reserve_def fifo_of_def queue_phase_of_def fifo_load_def)
    ultimately show ?thesis ..
  qed
qed

lemma deliver_refines:
  assumes ok: "queue_ok q" and "deliver p job q = (r, q')"
  shows "queue_ok q' \<and> fifo_deliver p job (fifo_of q) = (r, fifo_of q')"
proof (cases "p \<in> reserved_permits q \<and> \<not> wq_closed q")
  case False
  with assms show ?thesis
    by (auto simp: deliver_def deliver_permit_def state_of_permit_reserved fifo_deliver_def fifo_of_def queue_phase_of_def
        split: if_splits)
next
  case True
  then have p: "p \<in> wq_permits q" "p < length (wq_permit_states q)" "p \<notin> fst ` set (wq_stream q)"
    using ok by (auto simp: queue_ok_def reserved_permits_def)
  from True p ok assms(2) have q': "r = Inr ()"
      "q' = set_permit_state p PermitDelivered (q\<lparr>wq_stream := wq_stream q @ [(p, job)]\<rparr>)"
    by (auto simp: deliver_def deliver_permit_def state_of_permit_reserved queue_ok_def)
  have "reserved_permits q' = reserved_permits q - {p}" by (simp add: q'(2))
  with ok p True have "queue_ok q'"
    unfolding queue_ok_def by (auto simp: q'(2) set_permit_state_def nth_list_update)
  moreover from True \<open>reserved_permits q' = _\<close> q' have "fifo_deliver p job (fifo_of q) = (r, fifo_of q')"
    by (auto simp: fifo_deliver_def fifo_of_def queue_phase_of_def set_permit_state_def)
  ultimately show ?thesis ..
qed

lemma release_permit_simps [simp]:
  "reserved_permits (release_permit p q) = reserved_permits q" "wq_queue_capacity (release_permit p q) = wq_queue_capacity q"
  "wq_permit_states (release_permit p q) = wq_permit_states q" "wq_stream (release_permit p q) = wq_stream q"
  "wq_send_open (release_permit p q) = wq_send_open q" "wq_started (release_permit p q) = wq_started q"
  "wq_closed (release_permit p q) = wq_closed q" "wq_permits (release_permit p q) = wq_permits q - {p}"
  by (simp_all add: release_permit_def reserved_permits_def)

lemma set_permit_state_simps [simp]:
  "wq_queue_capacity (set_permit_state p s q) = wq_queue_capacity q"
  "wq_permit_states (set_permit_state p s q) = (wq_permit_states q)[p := s]"
  "wq_stream (set_permit_state p s q) = wq_stream q" "wq_send_open (set_permit_state p s q) = wq_send_open q"
  "wq_started (set_permit_state p s q) = wq_started q" "wq_closed (set_permit_state p s q) = wq_closed q"
  "wq_permits (set_permit_state p s q) = wq_permits q" "wq_borrowers (set_permit_state p s q) = wq_borrowers q"
  by (simp_all add: set_permit_state_def)

lemma release_borrowers: "wq_borrowers q = wq_permits q \<Longrightarrow> wq_borrowers (release_permit p q) = wq_permits q - {p}"
  by (auto simp: release_permit_def)

lemma card_permits: "queue_ok q \<Longrightarrow> card (wq_permits q - {p}) \<le> wq_queue_capacity q"
  using card_Diff1_le [of "wq_permits q" p] by (simp add: queue_ok_def)

lemma release_ok:
  assumes "queue_ok q" "p \<in> reserved_permits q"
  shows "queue_ok (release_permit p (set_permit_state p PermitCancelled q))"
proof -
  have p: "p \<notin> fst ` set (wq_stream q)" using assms by (auto simp: queue_ok_def reserved_permits_def)
  then have "\<forall>x \<in> fst ` set (wq_stream q). x < length (wq_permit_states q) \<and>
      (wq_permit_states q)[p := PermitCancelled] ! x = PermitDelivered"
    using assms(1) unfolding queue_ok_def by (metis nth_list_update_neq)
  moreover have "wq_permits q - {p} \<subseteq> {..<length (wq_permit_states q)}" using assms(1) by (auto simp: queue_ok_def)
  moreover have "wq_started q \<or> \<not> wq_closed q \<longrightarrow> wq_permits q - {p} = reserved_permits q - {p} \<union> fst ` set (wq_stream q)"
    using assms(1) p by (auto simp: queue_ok_def)
  ultimately show ?thesis
    using assms(1) card_permits [OF assms(1), of p] unfolding queue_ok_def
    by (simp add: release_borrowers)
qed

lemma cancel_refines:
  assumes "queue_ok q"
  shows "queue_ok (cancel_permit p q) \<and>
    fifo_of (cancel_permit p q) = (fifo_of q)\<lparr>bf_reserved := bf_reserved (fifo_of q) - {p}\<rparr>"
proof (cases "p \<in> reserved_permits q")
  case True
  with release_ok [OF assms True] show ?thesis
    by (simp add: cancel_permit_def state_of_permit_reserved fifo_of_def queue_phase_of_def)
next
  case False
  with assms show ?thesis by (simp add: cancel_permit_def state_of_permit_reserved fifo_of_def)
qed

lemma consume_refines:
  assumes ok: "queue_ok q" and "consume q = (j, q')"
  shows "queue_ok q' \<and> fifo_step Consume (fifo_of q) = (Consumed j, fifo_of q')"
proof (cases "wq_started q \<and> wq_stream q \<noteq> []")
  case False
  with assms show ?thesis by (auto simp: consume_def fifo_of_def queue_ok_def split: if_splits list.splits)
next
  case True
  then obtain p job rest where head: "wq_stream q = (p, job) # rest" by (cases "wq_stream q") auto
  with True assms(2) have q': "j = Some job" "q' = release_permit p (q\<lparr>wq_stream := rest\<rparr>)"
    by (auto simp: consume_def)
  have p: "p \<in> wq_permits q" "p \<notin> fst ` set rest" "p \<notin> reserved_permits q"
    using ok True head by (auto simp: queue_ok_def reserved_permits_def)
  have "reserved_permits q' = reserved_permits q" by (simp add: q'(2))
  have "wq_permits q - {p} = reserved_permits q \<union> fst ` set rest"
    using ok True head p by (auto simp: queue_ok_def)
  moreover have "wq_permits q - {p} \<subseteq> {..<length (wq_permit_states q)}" using ok by (auto simp: queue_ok_def)
  ultimately have "queue_ok q'"
    using ok True head card_permits [OF ok, of p] unfolding queue_ok_def by (simp add: q'(2) release_borrowers)
  moreover from \<open>reserved_permits q' = _\<close> head q' have "fifo_step Consume (fifo_of q) = (Consumed j, fifo_of q')"
    by (simp add: fifo_of_def queue_phase_of_def)
  ultimately show ?thesis ..
qed

lemma submit_refines:
  assumes ok: "queue_ok q" and "submit job q = (r, q')"
  shows "queue_ok q' \<and> fifo_submit job (fifo_of q) = (r, fifo_of q')"
proof -
  obtain x q1 where reserve: "reserve_permit q = (x, q1)" by fastforce
  note step1 = reserve_refines [OF ok reserve]
  show ?thesis
  proof (cases x)
    case (Inl e)
    with step1 reserve assms(2) show ?thesis by (auto simp: submit_def fifo_submit_def)
  next
    case (Inr p)
    obtain y q2 where deliver: "deliver p job q1 = (y, q2)" by fastforce
    note step2 = deliver_refines [OF conjunct1 [OF step1] deliver]
    from reserve Inr have now: "\<not> wq_closed q1" "p \<in> reserved_permits q1"
      by (auto simp: reserve_permit_def acquire_nowait_def Let_def reserved_permits_def nth_append split: if_splits)
    then have "y = Inr ()"
      using deliver step1 by (auto simp: deliver_def deliver_permit_def state_of_permit_reserved queue_ok_def reserved_permits_def
          split: if_splits)
    with Inr reserve deliver step1 step2 assms(2) show ?thesis by (auto simp: submit_def fifo_submit_def)
  qed
qed

lemma lifecycle_refines:
  assumes "queue_ok q"
  shows "queue_ok (snd (queue_step StartWorker q))" "queue_ok (close_sending q)" "queue_ok (close_finished q)"
    and "fifo_step StartWorker (fifo_of q) = (fst (queue_step StartWorker q), fifo_of (snd (queue_step StartWorker q)))"
    and "fifo_step CloseSending (fifo_of q) = (Accepted, fifo_of (close_sending q))"
    and "fifo_step CloseFinished (fifo_of q) = (Accepted, fifo_of (close_finished q))"
  using assms
  by (auto simp: queue_ok_def start_worker_def close_sending_def close_finished_def fifo_of_def queue_phase_of_def)

lemma step_refines:
  assumes "queue_ok q" "queue_step c q = (r, q')"
  shows "queue_ok q' \<and> fifo_step c (fifo_of q) = (r, fifo_of q')"
proof (cases c)
  case ReservePermit
  with assms reserve_refines [OF assms(1)] show ?thesis by (cases "reserve_permit q") (auto split: sum.splits)
next
  case (DeliverTo p job)
  with assms deliver_refines [OF assms(1)] show ?thesis by (cases "deliver p job q") auto
next
  case (Submit job)
  with assms submit_refines [OF assms(1)] show ?thesis by (cases "submit job q") auto
next
  case Consume
  with assms consume_refines [OF assms(1)] show ?thesis by (cases "consume q") auto
qed (use assms lifecycle_refines [OF assms(1)] cancel_refines [OF assms(1)] in auto)

lemma run_refines:
  "queue_ok q \<Longrightarrow> queue_run cs q = (rs, q') \<Longrightarrow> queue_ok q' \<and> fifo_run cs (fifo_of q) = (rs, fifo_of q')"
proof (induction cs arbitrary: q rs q')
  case (Cons c cs)
  obtain r q1 where step: "queue_step c q = (r, q1)" by fastforce
  obtain rs1 q2 where rest: "queue_run cs q1 = (rs1, q2)" by fastforce
  from step_refines [OF Cons.prems(1) step] Cons.IH [OF _ rest] Cons.prems(2) step rest show ?case by auto
qed simp

section \<open>Properties of the queue\<close>

text \<open>
  C11. The delivery queue refines a bounded first-in first-out queue. Under any sequence of starts,
  reservations, deliveries, cancellations, submissions, consumer turns and the two steps of closing,
  the worker's permits, limiter and stream answer exactly as the specification, which knows only the
  jobs in order, the open reservations and the bound.
\<close>

theorem queue_refines_bounded_fifo:
  "fifo_run cs (new_fifo n) = (fst (queue_run cs (new_queue n)), fifo_of (snd (queue_run cs (new_queue n))))"
  using run_refines [OF queue_ok_new(1), of cs n "fst (queue_run cs (new_queue n))" "snd (queue_run cs (new_queue n))"]
  by (simp add: queue_ok_new(2))

text \<open>The jobs that were accepted and consumed, and the permits that delivered, by a run.\<close>

fun accepted_jobs :: "'j queue_command list \<Rightarrow> 'j queue_reply list \<Rightarrow> 'j list" where
  "accepted_jobs (DeliverTo p job # cs) (Accepted # rs) = job # accepted_jobs cs rs"
| "accepted_jobs (Submit job # cs) (Accepted # rs) = job # accepted_jobs cs rs"
| "accepted_jobs (c # cs) (r # rs) = accepted_jobs cs rs"
| "accepted_jobs _ _ = []"

fun consumed_jobs :: "'j queue_reply list \<Rightarrow> 'j list" where
  "consumed_jobs (Consumed (Some job) # rs) = job # consumed_jobs rs"
| "consumed_jobs (_ # rs) = consumed_jobs rs"
| "consumed_jobs [] = []"

fun delivering_permits :: "'j queue_command list \<Rightarrow> 'j queue_reply list \<Rightarrow> nat list" where
  "delivering_permits (DeliverTo p job # cs) (Accepted # rs) = p # delivering_permits cs rs"
| "delivering_permits (c # cs) (r # rs) = delivering_permits cs rs"
| "delivering_permits _ _ = []"

lemma fifo_bound: "fifo_run cs f = (rs, f') \<Longrightarrow> bf_bound f' = bf_bound f"
proof (induction cs arbitrary: f rs)
  case (Cons c cs)
  obtain r f1 where step: "fifo_step c f = (r, f1)" by fastforce
  then have "bf_bound f1 = bf_bound f"
    by (cases c) (auto simp: fifo_reserve_def fifo_deliver_def fifo_submit_def split: if_splits queue_phase.splits list.splits)
  with step Cons show ?case by (auto split: prod.splits)
qed simp

lemma fifo_closed_run:
  "fifo_run cs f = (rs, f') \<Longrightarrow> bf_phase f = Closed \<Longrightarrow> bf_waiting f = [] \<Longrightarrow>
    accepted_jobs cs rs = [] \<and> consumed_jobs rs = [] \<and> bf_phase f' = Closed"
proof (induction cs arbitrary: f rs)
  case (Cons c cs)
  obtain r f1 where step: "fifo_step c f = (r, f1)" by fastforce
  obtain rs1 where rest: "fifo_run cs f1 = (rs1, f')" "rs = r # rs1"
    using Cons.prems(1) step by (auto split: prod.splits)
  have "bf_phase f1 = Closed" "bf_waiting f1 = []"
    using step Cons.prems(2,3) by (cases c; auto simp: fifo_reserve_def fifo_deliver_def fifo_submit_def split: if_splits)+
  with Cons.IH [OF rest(1)] step Cons.prems(2,3) rest(2) show ?case
    by (cases c) (auto simp: fifo_reserve_def fifo_deliver_def fifo_submit_def split: if_splits)
qed auto

lemma fifo_order:
  "fifo_run cs f = (rs, f') \<Longrightarrow>
    prefix (consumed_jobs rs) (bf_waiting f @ accepted_jobs cs rs) \<and>
    (bf_phase f' = Closed \<or> bf_waiting f @ accepted_jobs cs rs = consumed_jobs rs @ bf_waiting f')"
proof (induction cs arbitrary: f rs)
  case (Cons c cs)
  obtain r f1 where step: "fifo_step c f = (r, f1)" by fastforce
  obtain rs1 where rest: "fifo_run cs f1 = (rs1, f')" "rs = r # rs1"
    using Cons.prems step by (auto split: prod.splits)
  show ?case
  proof (cases "c = CloseFinished \<and> bf_phase f \<notin> {Unstarted, Serving}")
    case True
    with step fifo_closed_run [OF rest(1)] rest(2) show ?thesis by auto
  next
    case False
    with Cons.IH [OF rest(1)] step rest(2) show ?thesis
      by (cases c) (auto simp: fifo_reserve_def fifo_deliver_def fifo_submit_def split: if_splits queue_phase.splits list.splits)
  qed
qed auto

lemma fifo_permits_once:
  "fifo_run cs f = (rs, f') \<Longrightarrow> \<forall>p \<in> bf_reserved f. p < bf_granted f \<Longrightarrow>
    distinct (delivering_permits cs rs) \<and> set (delivering_permits cs rs) \<subseteq> bf_reserved f \<union> {bf_granted f..}"
proof (induction cs arbitrary: f rs)
  case (Cons c cs)
  obtain r f1 where step: "fifo_step c f = (r, f1)" by fastforce
  obtain rs1 where rest: "fifo_run cs f1 = (rs1, f')" "rs = r # rs1"
    using Cons.prems(1) step by (auto split: prod.splits)
  have inv: "\<forall>p \<in> bf_reserved f1. p < bf_granted f1" and grown: "bf_granted f \<le> bf_granted f1"
      "bf_reserved f1 \<subseteq> bf_reserved f \<union> {bf_granted f..}"
    using step Cons.prems(2) by (cases c; force simp: fifo_reserve_def fifo_deliver_def fifo_submit_def
        split: if_splits queue_phase.splits list.splits)+
  note IH = Cons.IH [OF rest(1) inv]
  show ?case
  proof (cases "\<exists>p job. c = DeliverTo p job \<and> r = Accepted")
    case True
    then obtain p job where "c = DeliverTo p job" "r = Accepted" by blast
    with step have "p \<in> bf_reserved f" "f1 = f\<lparr>bf_reserved := bf_reserved f - {p}, bf_waiting := bf_waiting f @ [job]\<rparr>"
      by (auto simp: fifo_deliver_def split: if_splits)
    with IH Cons.prems(2) rest(2) \<open>c = _\<close> \<open>r = _\<close> show ?thesis by fastforce
  next
    case False
    then have "delivering_permits (c # cs) (r # rs1) = delivering_permits cs rs1"
      by (cases c; cases r) auto
    with IH grown rest(2) show ?thesis by force
  qed
qed simp

text \<open>
  Nothing that the queue accepts is lost, duplicated or reordered, and the bound holds. The jobs
  consumed are always the first of the jobs accepted, in their order; until the worker is closed the
  rest is waiting. No permit delivers twice, and waiting jobs and unused permits never exceed the
  capacity.
\<close>

theorem queue_delivers_in_order_once:
  "case queue_run cs (new_queue n) of (rs, q) \<Rightarrow>
     prefix (consumed_jobs rs) (accepted_jobs cs rs) \<and>
     (wq_closed q \<or> accepted_jobs cs rs = consumed_jobs rs @ map snd (wq_stream q)) \<and>
     distinct (delivering_permits cs rs) \<and> length (wq_stream q) \<le> card (wq_permits q) \<and> card (wq_permits q) \<le> n"
proof -
  obtain rs q where run: "queue_run cs (new_queue n) = (rs, q)" by fastforce
  from run_refines [OF queue_ok_new(1) run] have ok: "queue_ok q" and spec: "fifo_run cs (new_fifo n) = (rs, fifo_of q)"
    by (simp_all add: queue_ok_new(2))
  have "wq_queue_capacity q = n" using fifo_bound [OF spec] by (simp add: fifo_of_def new_fifo_def)
  moreover have "length (wq_stream q) \<le> card (wq_permits q)"
  proof (cases "wq_started q")
    case True
    with ok queue_load [OF ok True] show ?thesis by (simp add: queue_ok_def fifo_load_def fifo_of_def)
  qed (use ok in \<open>simp add: queue_ok_def\<close>)
  moreover have "bf_phase (fifo_of q) = Closed \<Longrightarrow> wq_closed q"
    by (simp add: fifo_of_def queue_phase_of_def split: if_splits)
  ultimately show ?thesis
    using ok fifo_order [OF spec] fifo_permits_once [OF spec] run
    by (auto simp: queue_ok_def new_fifo_def fifo_of_def)
qed

end
