(* ===== verification/GateErrors.thy ===== *)
theory GateErrors
  imports EnforcerTheorems RunOutcomes
begin

text \<open>
  The rejections of the enforcer against the admission codes of \<open>runs/outcomes.py\<close>: each public
  code that \<open>EgressEnforcer\<close> can raise is one that the worker projects to a blocked run.
\<close>

definition admission_coded :: "egress_error + 'a \<Rightarrow> bool" where
  "admission_coded m \<longleftrightarrow> (\<forall>e c. m = Inl e \<longrightarrow> error_code e = Some c \<longrightarrow> c \<in> set admission_codes)"

lemma gated_simps [simp]:
  "admission_coded (Inr x)" "admission_coded (Inl PyKeyError)" "admission_coded (Inl ContractError)"
  "admission_coded (reject c) \<longleftrightarrow> c \<in> set admission_codes" "admission_coded (Inl (TokenAccountingUnavailable c)) \<longleftrightarrow> c \<in> set admission_codes"
  by (auto simp: admission_coded_def)

lemma gated_check: "c \<in> set admission_codes \<Longrightarrow> admission_coded (check ok c)"
  by (simp add: require_def)

lemma gated_bind: "admission_coded m \<Longrightarrow> (\<And>x. admission_coded (f x)) \<Longrightarrow> admission_coded (bind_result m f)"
  by (cases m) (simp_all add: admission_coded_def)

lemma gated_caps:
  assumes "prefix @ ''_excerpts_exceeded'' \<in> set admission_codes" "prefix @ ''_tokens_exceeded'' \<in> set admission_codes"
    and "prefix @ ''_bytes_exceeded'' \<in> set admission_codes"
  shows "admission_coded (check_unique_cap ids t b cap prefix)"
  using assms by (auto simp: check_unique_cap_def intro!: gated_bind gated_check)

lemma gated_transmitted:
  assumes "prefix @ ''_tokens_exceeded'' \<in> set admission_codes" "prefix @ ''_bytes_exceeded'' \<in> set admission_codes"
  shows "admission_coded (check_transmitted_cap t b cap prefix)"
  using assms by (auto simp: check_transmitted_cap_def intro!: gated_bind gated_check)

lemma gated_count: "admission_coded (count tc text)"
  by (auto simp: count_def admission_codes_def split: count_outcome.split)

lemma gated_guards:
  "admission_coded (validate_version_binding r)" "admission_coded (stored_source_manifest en r)"
  "admission_coded (authorization_time en)" "admission_coded (verify_counter counter r)"
  "admission_coded (check_projected_text tc cs payload)"
  by (auto simp: validate_version_binding_def stored_source_manifest_def authorization_time_def admission_codes_def
      verify_counter_def check_projected_text_def Let_def
      intro!: gated_bind gated_count gated_check split: option.split clock_outcome.split counter_object.split)

lemma gated_derive_excerpts: "admission_coded (derive_excerpts sha tc cap es ds t b)"
  by (induction es arbitrary: ds t b)
    (auto simp: Let_def admission_codes_def intro!: gated_bind gated_count)

lemma gated_derive: "admission_coded (derive en r counter)"
  unfolding derive_def Let_def
  by (intro gated_bind gated_guards gated_derive_excerpts)
    (auto simp: admission_codes_def intro!: gated_bind gated_check split: option.split prod.split)

lemma gated_sizes: "admission_coded (unique_sizes ids facts)"
  by (simp add: unique_sizes_def)

lemma gated_upsert:
  assumes "admission_coded d" "\<And>x. admission_coded (f x)"
  shows "admission_coded (upsert_result p f d xs)"
  by (induction xs) (auto intro!: gated_bind assms)

lemma gated_collect: "admission_coded (collect_request existing seen fs)"
  by (induction fs arbitrary: seen) (auto simp: Let_def admission_codes_def)

lemma gated_cap_prefixes:
  "admission_coded (check_unique_cap ids t b cap ''corpus_document_unique'')" "admission_coded (check_unique_cap ids t b cap ''corpus_unique'')"
  "admission_coded (check_unique_cap ids t b cap ''claim_unique'')" "admission_coded (check_unique_cap ids t b cap ''online_unique'')"
  "admission_coded (check_unique_cap ids t b cap ''judge_unique'')" "admission_coded (check_unique_cap ids t b cap ''root_unique'')"
  "admission_coded (check_transmitted_cap t b cap ''online_transmitted'')" "admission_coded (check_transmitted_cap t b cap ''judge_transmitted'')"
  "admission_coded (check_transmitted_cap t b cap ''root_transmitted'')"
  by ((rule gated_caps | rule gated_transmitted); simp add: admission_codes_def)+

lemma gated_claims: "admission_coded (updated_claim_usage usages claim facts d)"
  by (auto simp: updated_claim_usage_def Let_def admission_codes_def
      intro!: gated_upsert gated_bind gated_sizes gated_cap_prefixes split: option.split)

lemma gated_run: "admission_coded (apply_to_run u d facts)"
  unfolding apply_to_run_def Let_def
  by (auto simp: admission_codes_def
      intro!: gated_bind gated_claims gated_sizes gated_cap_prefixes gated_check split: option.split prod.split)

lemma gated_judge: "admission_coded (judge_update u d requested facts)"
  unfolding judge_update_def Let_def
  by (intro gated_bind gated_sizes) (auto intro!: gated_bind gated_cap_prefixes split: prod.split)

lemma gated_routes: "admission_coded (updated_route_usage usages rr d facts)"
  unfolding updated_route_usage_def Let_def
  by (intro gated_upsert gated_bind gated_sizes) (auto split: prod.split)

lemma gated_runs: "admission_coded (updated_online_run_usage usages rr d facts)"
  unfolding updated_online_run_usage_def by (intro gated_upsert gated_run)

lemma gated_root:
  "''evaluation_root_mismatch'' \<in> set admission_codes" "''task_level_mismatch'' \<in> set admission_codes"
  "''policy_snapshot_mismatch'' \<in> set admission_codes" "''corpus_usage_mismatch'' \<in> set admission_codes"
  "''reservation_primitive_invalid'' \<in> set admission_codes" "''reservation_accounting_mismatch'' \<in> set admission_codes"
  by (simp_all add: admission_codes_def)

lemma gated_case_prod: "(\<And>x y. admission_coded (f x y)) \<Longrightarrow> admission_coded (case z of (x, y) \<Rightarrow> f x y)"
  by (cases z) simp

lemma gated_if: "admission_coded m \<Longrightarrow> admission_coded m' \<Longrightarrow> admission_coded (if b then m else m')"
  by simp

lemma gated_usage: "admission_coded (apply_usage existing rr d ph)"
  unfolding apply_usage_def Let_def
  by (intro gated_bind gated_check gated_root gated_collect gated_sizes gated_case_prod gated_cap_prefixes gated_routes
      gated_if gated_judge gated_runs gated_simps(1))

lemma gated_document: "admission_coded (apply_document_usage existing document d)"
  unfolding apply_document_usage_def Let_def
  by (intro gated_bind gated_case_prod gated_cap_prefixes gated_simps(1))

lemma gated_corpus: "admission_coded (apply_corpus_usage existing rr d ph)"
  unfolding apply_corpus_usage_def Let_def
  by (intro gated_bind gated_check gated_root gated_case_prod gated_cap_prefixes gated_document gated_simps(1))

lemma gated_reservation: "admission_coded (apply_reservation en ex co rr counter)"
  unfolding apply_reservation_def Let_def
  by (intro gated_bind gated_check gated_root gated_derive gated_usage gated_corpus gated_simps(1))

text \<open>
  Every coded rejection of the enforcer is an admission error. Whatever accounts, request and
  counter it is given, a code that the enforcer raises is one of the admission codes, so the worker
  ends the run as blocked with that code and never with a \<open>TypeError\<close>.
\<close>

theorem rejections_block_the_run:
  assumes "apply_reservation en ex co rr counter = Inl e" "error_code e = Some code"
  shows "project_gate_error (PolicyViolation code) = Inr \<lparr>te_status = EgressBlocked, te_reason = Some code\<rparr>"
  using gated_reservation [of en ex co rr counter] assms
  by (simp add: admission_coded_def project_gate_error_def)

theorem rejections_block_the_run_witness:
  "project_gate_error (PolicyViolation ''authorization_clock_invalid'') =
    Inr \<lparr>te_status = EgressBlocked, te_reason = Some ''authorization_clock_invalid''\<rparr>"
  using rejections_block_the_run [OF sample_rejected] by simp

end
