(* ===== verification/Base64Url.thy ===== *)
theory Base64Url
  imports Prelude
begin

text \<open>
  The unpadded URL-safe base64 of \<open>sessions/tokens.py\<close>: \<open>_encode_base64url\<close>, and
  \<open>_decode_base64url\<close> with its bounds and its check that the text is the canonical one. Three bytes
  are four sextets; a rest of one or two bytes is two or three sextets and padding.
\<close>

section \<open>Encoding\<close>

definition base64_alphabet :: string where
  "base64_alphabet = ''ABCDEFGHIJKLMNOPQRSTUVWXYZabcdefghijklmnopqrstuvwxyz0123456789-_''"

definition sextet_char :: "nat \<Rightarrow> char" where
  "sextet_char n = base64_alphabet ! n"

fun sextets :: "nat list \<Rightarrow> nat list" where
  "sextets [] = []"
| "sextets [a] = [a div 4, a mod 4 * 16]"
| "sextets [a, b] = [a div 4, a mod 4 * 16 + b div 16, b mod 16 * 4]"
| "sextets (a # b # c # r) = [a div 4, a mod 4 * 16 + b div 16, b mod 16 * 4 + c div 64, c mod 64] @ sextets r"

definition urlsafe_b64encode :: "string \<Rightarrow> string" where
  "urlsafe_b64encode s = map sextet_char (sextets (map of_char s)) @ replicate ((3 - length s mod 3) mod 3) (CHR ''='')"

definition encode_base64url :: "string \<Rightarrow> string" where
  "encode_base64url s = rev (dropWhile (\<lambda>c. c = CHR ''='') (rev (urlsafe_b64encode s)))"

section \<open>Decoding\<close>

definition char_sextet :: "char \<Rightarrow> nat option" where
  "char_sextet = map_of (zip base64_alphabet [0..<64])"

fun joined :: "nat list \<Rightarrow> nat list" where
  "joined (p # q # r # s # rest) = [p * 4 + q div 16, q mod 16 * 16 + r div 4, r mod 4 * 64 + s] @ joined rest"
| "joined [p, q, r] = [p * 4 + q div 16, q mod 16 * 16 + r div 4]"
| "joined [p, q] = [p * 4 + q div 16]"
| "joined _ = []"

text \<open>\<open>b64decode\<close> of a text of the alphabet that is not one character more than whole groups.\<close>

definition urlsafe_b64decode :: "string \<Rightarrow> string" where
  "urlsafe_b64decode s = map char_of (joined (map (the \<circ> char_sextet) s))"

definition decode_base64url :: "nat option \<Rightarrow> nat option \<Rightarrow> string \<Rightarrow> string option" where
  "decode_base64url expected_bytes max_bytes segment =
     (if segment = [] \<or> \<not> set segment \<subseteq> set base64_alphabet then None
      else if length segment mod 4 = 1 then None
      else if (case expected_bytes of None \<Rightarrow> False | Some n \<Rightarrow> length segment \<noteq> (n * 8 + 5) div 6) then None
      else if (case max_bytes of None \<Rightarrow> False | Some n \<Rightarrow> (n * 8 + 5) div 6 < length segment) then None
      else let decoded = urlsafe_b64decode segment in
        if encode_base64url decoded \<noteq> segment then None
        else if (case expected_bytes of None \<Rightarrow> False | Some n \<Rightarrow> length decoded \<noteq> n) then None
        else if (case max_bytes of None \<Rightarrow> False | Some n \<Rightarrow> n < length decoded) then None
        else Some decoded)"

section \<open>Round trip\<close>

lemma length_alphabet [simp]: "length base64_alphabet = 64"
  by (simp add: base64_alphabet_def)

lemma distinct_alphabet: "distinct base64_alphabet"
  unfolding base64_alphabet_def by code_simp

lemma padding_not_in_alphabet: "CHR ''='' \<notin> set base64_alphabet"
  unfolding base64_alphabet_def by simp

lemma sextet_char_in: "n < 64 \<Longrightarrow> sextet_char n \<in> set base64_alphabet"
  by (simp add: sextet_char_def)

lemma char_sextet_char: "n < 64 \<Longrightarrow> char_sextet (sextet_char n) = Some n"
  using map_of_zip_nth [of base64_alphabet "[0..<64]" n] distinct_alphabet
  by (simp add: char_sextet_def sextet_char_def)

lemma sextets_bounded: "\<forall>b \<in> set bs. b < 256 \<Longrightarrow> \<forall>n \<in> set (sextets bs). n < 64"
  by (induction bs rule: sextets.induct) (auto simp: less_mult_imp_div_less)

lemma rejoined:
  fixes a b c :: nat
  assumes "b < 256" "c < 256"
  shows "a div 4 * 4 + (a mod 4 * 16 + b div 16) div 16 = a"
    and "(a mod 4 * 16 + b div 16) mod 16 * 16 + (b mod 16 * 4 + c div 64) div 4 = b"
    and "(b mod 16 * 4 + c div 64) mod 4 * 64 + c mod 64 = c"
proof -
  have "b div 16 < 16" "c div 64 < 4" using assms by (simp_all add: less_mult_imp_div_less)
  then have "(a mod 4 * 16 + b div 16) div 16 = a mod 4" "(a mod 4 * 16 + b div 16) mod 16 = b div 16"
    "(b mod 16 * 4 + c div 64) div 4 = b mod 16" "(b mod 16 * 4 + c div 64) mod 4 = c div 64"
    by simp_all
  then show "a div 4 * 4 + (a mod 4 * 16 + b div 16) div 16 = a"
    and "(a mod 4 * 16 + b div 16) mod 16 * 16 + (b mod 16 * 4 + c div 64) div 4 = b"
    and "(b mod 16 * 4 + c div 64) mod 4 * 64 + c mod 64 = c"
    by simp_all
qed

lemma joined_sextets: "\<forall>b \<in> set bs. b < 256 \<Longrightarrow> joined (sextets bs) = bs"
proof (induction bs rule: sextets.induct)
  case (2 a)
  then show ?case using rejoined(1) [where a = a and b = 0 and c = 0] by simp
next
  case (3 a b)
  then show ?case using rejoined(1,2) [where a = a and b = b and c = 0] by simp
next
  case (4 a b c r)
  then show ?case using rejoined(1,2) [where a = a and b = b and c = c] rejoined(3) [where b = b and c = c] by simp
qed simp

lemma length_sextets: "length (sextets bs) = (length bs * 8 + 5) div 6"
  by (induction bs rule: sextets.induct) simp_all

lemma bytes_bounded: "\<forall>b \<in> set (map of_char s :: nat list). b < 256"
  by auto

lemma encode_base64url: "encode_base64url s = map sextet_char (sextets (map of_char s))"
proof -
  let ?t = "map sextet_char (sextets (map of_char s))" and ?is_pad = "\<lambda>c. c = CHR ''=''"
  have "set ?t \<subseteq> set base64_alphabet"
    using sextets_bounded [OF bytes_bounded, of s] sextet_char_in by auto
  then have t: "\<forall>c \<in> set (rev ?t). \<not> ?is_pad c" using padding_not_in_alphabet by auto
  have "dropWhile ?is_pad (rev (urlsafe_b64encode s)) = dropWhile ?is_pad (rev ?t)"
    unfolding urlsafe_b64encode_def rev_append rev_replicate by (rule dropWhile_append2) simp
  also have "\<dots> = rev ?t" using t by (cases "rev ?t") auto
  finally show ?thesis by (simp add: encode_base64url_def)
qed

lemma encode_alphabet: "set (encode_base64url s) \<subseteq> set base64_alphabet"
  using sextets_bounded [OF bytes_bounded, of s] sextet_char_in by (auto simp: encode_base64url)

lemma length_encode: "length (encode_base64url s) = (length s * 8 + 5) div 6"
  by (simp add: encode_base64url length_sextets)

lemma decode_encode: "urlsafe_b64decode (encode_base64url s) = s"
proof -
  have "map (the \<circ> char_sextet) (encode_base64url s) = sextets (map of_char s)"
    using sextets_bounded [OF bytes_bounded, of s] by (simp add: encode_base64url char_sextet_char map_idI)
  then show ?thesis
    by (simp add: urlsafe_b64decode_def joined_sextets [OF bytes_bounded] comp_def)
qed

theorem decode_base64url_encode:
  assumes "s \<noteq> []" "expected_bytes = None \<or> expected_bytes = Some (length s)"
    and "max_bytes = None \<or> (\<exists>n. max_bytes = Some n \<and> length s \<le> n)"
  shows "decode_base64url expected_bytes max_bytes (encode_base64url s) = Some s"
proof -
  have "encode_base64url s \<noteq> []" using assms(1) length_encode [of s] by (cases s) auto
  moreover have "length (encode_base64url s) mod 4 \<noteq> 1" unfolding length_encode by presburger
  ultimately show ?thesis
    using assms(2,3) encode_alphabet [of s]
    by (auto simp: decode_base64url_def decode_encode length_encode div_le_mono split: option.split)
qed

theorem decode_base64url_canonical:
  "decode_base64url expected_bytes max_bytes t = Some s \<Longrightarrow> encode_base64url s = t"
  by (auto simp: decode_base64url_def Let_def split: if_splits)

lemma decode_base64url_length:
  "decode_base64url (Some n) max_bytes t = Some s \<Longrightarrow> length s = n"
  by (auto simp: decode_base64url_def Let_def split: if_splits)

end
