(* ===== verification/SessionTokens.thy ===== *)
theory SessionTokens
  imports Base64Url CanonicalJson PyText
begin

text \<open>
  Session credentials, \<open>sessions/tokens.py\<close>: what \<open>SessionIssuer\<close> mints and \<open>SessionVerifier\<close>
  accepts. HMAC-SHA256, the random nonce and \<open>json.loads\<close> are arguments; \<open>loads\<close> gives the pairs of
  an object as they stand in the text, and \<^const>\<open>None\<close> for a text that is no JSON or holds a number
  that is no integer. A clock reads whole seconds. Every exception inside \<open>verify\<close> and \<open>issue\<close>
  becomes \<open>invalid_session\<close>, but for an expired token.
\<close>

section \<open>ASCII JSON\<close>

text \<open>\<open>json.dumps(..., sort_keys=True, ensure_ascii=True)\<close>: a code point beyond ASCII is written as one or two escapes.\<close>

fun code_points :: "nat list \<Rightarrow> nat list" where
  "code_points [] = []"
| "code_points (b # bs) =
     (let low = (\<lambda>k. (bs @ [128, 128, 128]) ! k - 128) in
      if b < 128 then b # code_points bs
      else if b < 224 then ((b - 192) * 64 + low 0) # code_points (drop 1 bs)
      else if b < 240 then ((b - 224) * 4096 + low 0 * 64 + low 1) # code_points (drop 2 bs)
      else ((b - 240) * 262144 + low 0 * 4096 + low 1 * 64 + low 2) # code_points (drop 3 bs))"

definition unicode_escape :: "nat \<Rightarrow> string" where
  "unicode_escape n = [CHR 0x5C, CHR ''u'', hex_char (n div 4096), hex_char (n div 256 mod 16),
     hex_char (n div 16 mod 16), hex_char (n mod 16)]"

definition escape_point :: "nat \<Rightarrow> string" where
  "escape_point p =
     (case (if p < 128 then short_escape (char_of p) else None) of
        Some d \<Rightarrow> [CHR 0x5C, d]
      | None \<Rightarrow>
          if 32 \<le> p \<and> p < 127 then [char_of p]
          else if p < 65536 then unicode_escape p
          else unicode_escape (55296 + (p - 65536) div 1024) @ unicode_escape (56320 + (p - 65536) mod 1024))"

definition ascii_string :: "string \<Rightarrow> string" where
  "ascii_string s = CHR 0x22 # concat (map escape_point (code_points (map of_char s))) @ [CHR 0x22]"

primrec ascii_dumps :: "json \<Rightarrow> string" where
  "ascii_dumps JNull = ''null''"
| "ascii_dumps (JBool b) = (if b then ''true'' else ''false'')"
| "ascii_dumps (JInt i) = show_int i"
| "ascii_dumps (JStr s) = ascii_string s"
| "ascii_dumps (JArr xs) = CHR ''['' # commas (map ascii_dumps xs) @ [CHR '']'']"
| "ascii_dumps (JObj kvs) = CHR ''{'' #
     commas (map (\<lambda>kv. ascii_string (fst kv) @ CHR '':'' # snd kv) (map (map_prod id ascii_dumps) kvs)) @ [CHR ''}'']"

definition ascii_json :: "json \<Rightarrow> string" where
  "ascii_json j = ascii_dumps (sort_keys j)"

section \<open>Claims\<close>

datatype session_error = InvalidSession | ExpiredSession

record session_claims =
  sc_session_id :: string
  sc_profile :: string
  sc_audience :: string
  sc_nonce :: string
  sc_issued_at :: int
  sc_expires_at :: int

datatype clock_value = ClockFails | ClockNaive | ClockReads int

definition max_timestamp :: int where
  "max_timestamp = 253402300799"

definition identifier_chars :: string where
  "identifier_chars = ''ABCDEFGHIJKLMNOPQRSTUVWXYZabcdefghijklmnopqrstuvwxyz0123456789._:/-''"

definition validated_identifier :: "string \<Rightarrow> session_error + string" where
  "validated_identifier value =
     (if value = [] \<or> 128 < char_count value \<or> hd value \<notin> set identifier_chars \<or>
         (\<exists>c \<in> set value. c \<notin> set identifier_chars)
      then Inl InvalidSession else Inr value)"

definition validated_ttl :: "int \<Rightarrow> session_error + int" where
  "validated_ttl value = (if value < 1 \<or> 300 < value then Inl InvalidSession else Inr value)"

definition clock_seconds :: "clock_value \<Rightarrow> session_error + int" where
  "clock_seconds c = (case c of
       ClockReads s \<Rightarrow> if 0 \<le> s \<and> s \<le> max_timestamp then Inr s else Inl InvalidSession
     | _ \<Rightarrow> Inl InvalidSession)"

text \<open>The claims of a token, in the order of their keys.\<close>

definition claim_pairs :: "session_claims \<Rightarrow> (string \<times> json) list" where
  "claim_pairs c =
     [(''alg'', JStr ''HS256''), (''aud'', JStr (sc_audience c)), (''exp'', JInt (sc_expires_at c)),
      (''iat'', JInt (sc_issued_at c)), (''nonce'', JStr (sc_nonce c)), (''profile'', JStr (sc_profile c)),
      (''session_id'', JStr (sc_session_id c)), (''v'', JInt 1)]"

definition claims_json :: "session_claims \<Rightarrow> json" where
  "claims_json c = JObj (claim_pairs c)"

text \<open>What the constructors of \<open>SessionIssuer\<close> and \<open>SessionVerifier\<close> keep, validated. The clock is read per call.\<close>

record session_issuer =
  si_secret :: string
  si_audience :: string

record session_verifier =
  sv_secret :: string
  sv_audience :: string
  sv_profile :: string

definition validated_secret :: "string \<Rightarrow> session_error + string" where
  "validated_secret secret = (if length secret < 32 then Inl InvalidSession else Inr secret)"

definition new_issuer :: "string \<Rightarrow> string \<Rightarrow> session_error + session_issuer" where
  "new_issuer secret audience =
     bind_result (validated_secret secret) (\<lambda>secret.
     bind_result (validated_identifier audience) (\<lambda>audience.
       Inr \<lparr>si_secret = secret, si_audience = audience\<rparr>))"

definition new_verifier :: "string \<Rightarrow> string \<Rightarrow> string \<Rightarrow> session_error + session_verifier" where
  "new_verifier secret audience profile =
     bind_result (validated_secret secret) (\<lambda>secret.
     bind_result (validated_identifier audience) (\<lambda>audience.
     bind_result (validated_identifier profile) (\<lambda>profile.
       Inr \<lparr>sv_secret = secret, sv_audience = audience, sv_profile = profile\<rparr>)))"

section \<open>Issuing\<close>

definition signing_input :: "string \<Rightarrow> string" where
  "signing_input payload_segment = ''v1'' @ CHR ''.'' # payload_segment"

definition signed_token :: "(string \<Rightarrow> string \<Rightarrow> string) \<Rightarrow> string \<Rightarrow> string \<Rightarrow> string" where
  "signed_token hmac secret payload =
     (let signed = signing_input (encode_base64url payload) in
      signed @ CHR ''.'' # encode_base64url (hmac secret signed))"

definition issue :: "(string \<Rightarrow> string \<Rightarrow> string) \<Rightarrow> session_issuer \<Rightarrow> clock_value \<Rightarrow> string \<Rightarrow>
   string \<Rightarrow> string \<Rightarrow> int \<Rightarrow> session_error + string" where
  "issue hmac issuer clock token_bytes session_id profile ttl_seconds =
     bind_result (clock_seconds clock) (\<lambda>issued.
     bind_result (validated_identifier session_id) (\<lambda>session_id.
     bind_result (validated_identifier profile) (\<lambda>profile.
     bind_result (validated_ttl ttl_seconds) (\<lambda>ttl.
     bind_result (require (issued + ttl \<le> max_timestamp) InvalidSession) (\<lambda>_.
       Inr (signed_token hmac (si_secret issuer) (ascii_json (claims_json
         \<lparr>sc_session_id = session_id, sc_profile = profile, sc_audience = si_audience issuer,
          sc_nonce = encode_base64url token_bytes, sc_issued_at = issued, sc_expires_at = issued + ttl\<rparr>))))))))"

section \<open>Verifying\<close>

text \<open>\<open>str.split\<close> at one character.\<close>

fun split_on :: "char \<Rightarrow> string \<Rightarrow> string list" where
  "split_on sep [] = [[]]"
| "split_on sep (c # cs) =
     (if c = sep then [] # split_on sep cs
      else (case split_on sep cs of [] \<Rightarrow> [[c]] | w # ws \<Rightarrow> (c # w) # ws))"

definition split_token :: "string \<Rightarrow> session_error + string \<times> string" where
  "split_token token =
     (if token = [] \<or> 2048 < char_count token then Inl InvalidSession
      else (case split_on (CHR ''.'') token of
          [version, payload, signature] \<Rightarrow> if version = ''v1'' then Inr (payload, signature) else Inl InvalidSession
        | _ \<Rightarrow> Inl InvalidSession))"

definition or_invalid :: "'a option \<Rightarrow> session_error + 'a" where
  "or_invalid x = (case x of None \<Rightarrow> Inl InvalidSession | Some y \<Rightarrow> Inr y)"

text \<open>\<open>_reject_duplicate_claim\<close> is applied to every object of the text.\<close>

fun no_duplicate_claims :: "json \<Rightarrow> bool" where
  "no_duplicate_claims (JArr xs) \<longleftrightarrow> (\<forall>x \<in> set xs. no_duplicate_claims x)"
| "no_duplicate_claims (JObj kvs) \<longleftrightarrow> distinct (map fst kvs) \<and> (\<forall>kv \<in> set kvs. no_duplicate_claims (snd kv))"
| "no_duplicate_claims _ \<longleftrightarrow> True"

definition load_claims :: "(string \<Rightarrow> json option) \<Rightarrow> string \<Rightarrow> session_error + (string \<times> json) list" where
  "load_claims loads payload = (case loads payload of
       Some (JObj claims) \<Rightarrow>
         if no_duplicate_claims (JObj claims) \<and> ascii_json (JObj claims) = payload
         then Inr claims else Inl InvalidSession
     | _ \<Rightarrow> Inl InvalidSession)"

definition claim_keys :: "string list" where
  "claim_keys = [''alg'', ''aud'', ''exp'', ''iat'', ''nonce'', ''profile'', ''session_id'', ''v'']"

definition text_claim :: "(string \<times> json) list \<Rightarrow> string \<Rightarrow> session_error + string" where
  "text_claim claims key = (case map_of claims key of Some (JStr s) \<Rightarrow> Inr s | _ \<Rightarrow> Inl InvalidSession)"

definition int_claim :: "(string \<times> json) list \<Rightarrow> string \<Rightarrow> session_error + int" where
  "int_claim claims key = (case map_of claims key of Some (JInt i) \<Rightarrow> Inr i | _ \<Rightarrow> Inl InvalidSession)"

definition validate_claims_shape :: "(string \<times> json) list \<Rightarrow> session_error + unit" where
  "validate_claims_shape claims =
     (if set (map fst claims) \<noteq> set claim_keys then Inl InvalidSession
      else bind_result (map_result (text_claim claims) [''alg'', ''aud'', ''nonce'', ''profile'', ''session_id'']) (\<lambda>_.
        bind_result (int_claim claims ''v'') (\<lambda>_. Inr ())))"

definition strict_timestamp :: "(string \<times> json) list \<Rightarrow> string \<Rightarrow> session_error + int" where
  "strict_timestamp claims key = bind_result (int_claim claims key) (\<lambda>t.
     if 0 \<le> t \<and> t \<le> max_timestamp then Inr t else Inl InvalidSession)"

definition validated_nonce :: "string \<Rightarrow> session_error + string" where
  "validated_nonce value = (case decode_base64url (Some 16) None value of
       None \<Rightarrow> Inl InvalidSession | Some nonce \<Rightarrow> if nonce = [] then Inl InvalidSession else Inr value)"

text \<open>What remains of \<open>_verify\<close> once the signature stands.\<close>

definition verify_claims :: "session_verifier \<Rightarrow> (string \<times> json) list \<Rightarrow> int \<Rightarrow> session_error + session_claims" where
  "verify_claims verifier raw now =
     bind_result (validate_claims_shape raw) (\<lambda>_.
     bind_result (strict_timestamp raw ''iat'') (\<lambda>issued.
     bind_result (strict_timestamp raw ''exp'') (\<lambda>expires.
     bind_result (require (1 \<le> expires - issued \<and> expires - issued \<le> 300) InvalidSession) (\<lambda>_.
     bind_result (require (int_claim raw ''v'' = Inr 1 \<and> text_claim raw ''alg'' = Inr ''HS256'' \<and>
       text_claim raw ''aud'' = Inr (sv_audience verifier) \<and> text_claim raw ''profile'' = Inr (sv_profile verifier)) InvalidSession) (\<lambda>_.
     bind_result (bind_result (text_claim raw ''session_id'') validated_identifier) (\<lambda>session_id.
     bind_result (bind_result (text_claim raw ''profile'') validated_identifier) (\<lambda>claims_profile.
     bind_result (bind_result (text_claim raw ''aud'') validated_identifier) (\<lambda>claims_audience.
     bind_result (bind_result (text_claim raw ''nonce'') validated_nonce) (\<lambda>nonce.
     bind_result (require (issued \<le> now) InvalidSession) (\<lambda>_.
     bind_result (require (now < expires) ExpiredSession) (\<lambda>_.
       Inr \<lparr>sc_session_id = session_id, sc_profile = claims_profile, sc_audience = claims_audience,
         sc_nonce = nonce, sc_issued_at = issued, sc_expires_at = expires\<rparr>)))))))))))"

definition verify :: "(string \<Rightarrow> string \<Rightarrow> string) \<Rightarrow> (string \<Rightarrow> json option) \<Rightarrow> session_verifier \<Rightarrow>
   clock_value \<Rightarrow> string \<Rightarrow> session_error + session_claims" where
  "verify hmac loads verifier clock token =
     bind_result (clock_seconds clock) (\<lambda>now.
     bind_result (split_token token) (\<lambda>(payload_segment, signature_segment).
     bind_result (or_invalid (decode_base64url None (Some 1024) payload_segment)) (\<lambda>payload.
     bind_result (or_invalid (decode_base64url (Some 32) None signature_segment)) (\<lambda>signature.
     bind_result (require (signature = hmac (sv_secret verifier) (signing_input payload_segment)) InvalidSession) (\<lambda>_.
     bind_result (load_claims loads payload) (\<lambda>raw.
       verify_claims verifier raw now))))))"

end
