(* ===== verification/ApiService.thy ===== *)
theory ApiService
  imports SessionTokens CheckpointStore WorkerQueue
begin

text \<open>
  The HTTP boundary, \<open>api/app.py\<close>: the owner's credential, and the handlers of \<open>/chat\<close>,
  \<open>/runs/{id}/resume\<close> and \<open>/runs/{id}\<close> over the run store, the checkpoint store and the delivery
  queue. At each \<open>await\<close> other requests, the worker and housekeeping may act: \<open>others\<close> is what
  they do there. A request may be cancelled where the code awaits; what the store answers is
  decided by the fault and the clock of each call.
\<close>

section \<open>Requests and replies\<close>

datatype api_reply =
    HttpError nat string
  | ChatAccepted string
  | ResumeAccepted string nat
  | RunRead run_view
  | RequestCancelled

definition service_unavailable :: api_reply where
  "service_unavailable = HttpError 503 ''service_unavailable''"

record api_binding =
  ab_profile :: string
  ab_source_manifest_id :: string
  ab_corpus_manifest_id :: string
  ab_policy_hash :: string
  ab_configuration_hash :: string
  ab_prompt_id :: string
  ab_prompt_hash :: string
  ab_provider_id :: string
  ab_model_id :: string
  ab_compliance_prompt_hash :: string
  ab_verifier_prompt_hash :: string
  ab_resume_lease_owner :: string
  ab_resume_lease_seconds :: int

definition binding_of_checkpoints :: "api_binding \<Rightarrow> checkpoint_binding" where
  "binding_of_checkpoints b = \<lparr>kb_source_manifest_id = ab_source_manifest_id b,
     kb_corpus_manifest_id = ab_corpus_manifest_id b, kb_policy_hash = ab_policy_hash b,
     kb_configuration_hash = ab_configuration_hash b, kb_compliance_prompt_hash = ab_compliance_prompt_hash b,
     kb_verifier_prompt_hash = ab_verifier_prompt_hash b, kb_provider_id = ab_provider_id b, kb_model_id = ab_model_id b\<rparr>"

record chat_request =
  cq_question :: string
  cq_request_id :: string
  cq_evaluation_root_id :: string
  cq_task_level :: task_level
  cq_source_manifest_id :: string
  cq_corpus_manifest_id :: string

record resume_request =
  rq_question :: string
  rq_resume_key :: string

text \<open>A request as its model stores it: text is stripped first. \<^const>\<open>None\<close> is a reply 422.\<close>

definition parsed_question :: "string \<Rightarrow> string option" where
  "parsed_question q = (if strip q \<noteq> [] \<and> char_count (strip q) \<le> 8192 then Some (strip q) else None)"

definition parsed_identifier :: "string \<Rightarrow> string option" where
  "parsed_identifier s = (if trace_identifier (strip s) then Some (strip s) else None)"

definition parsed_chat :: "chat_request \<Rightarrow> chat_request option" where
  "parsed_chat r =
     (if \<not> sha256_text (cq_source_manifest_id r) \<or> \<not> sha256_text (cq_corpus_manifest_id r) then None
      else case (parsed_question (cq_question r), parsed_identifier (cq_evaluation_root_id r)) of
        (Some q, Some er) \<Rightarrow> Some (r\<lparr>cq_question := q, cq_evaluation_root_id := er\<rparr>)
      | _ \<Rightarrow> None)"

definition parsed_resume :: "resume_request \<Rightarrow> resume_request option" where
  "parsed_resume r = (case (parsed_question (rq_question r), parsed_identifier (rq_resume_key r)) of
       (Some q, Some key) \<Rightarrow> Some \<lparr>rq_question = q, rq_resume_key = key\<rparr>
     | _ \<Rightarrow> None)"

section \<open>Credentials\<close>

text \<open>\<open>_credential\<close>: a header, if there is one, must carry a bearer token; else the cookie is the token.\<close>

definition api_credential :: "string option \<Rightarrow> string option \<Rightarrow> api_reply + string" where
  "api_credential authorization cookie =
     (case authorization of
        Some header \<Rightarrow>
          if take 7 header \<noteq> ''Bearer '' \<or> drop 7 header = [] then Inl (HttpError 401 ''invalid_session'')
          else Inr (drop 7 header)
      | None \<Rightarrow> (case cookie of
          Some token \<Rightarrow> Inr token
        | None \<Rightarrow> Inl (HttpError 401 ''invalid_session'')))"

fun session_error_code :: "session_error \<Rightarrow> string" where
  "session_error_code InvalidSession = ''invalid_session''"
| "session_error_code ExpiredSession = ''expired_session''"

text \<open>How a request presents itself: the verifier is that of the runtime.\<close>

record presented =
  pd_authorization :: "string option"
  pd_cookie :: "string option"
  pd_clock :: clock_value

record api_security =
  ay_hmac :: "string \<Rightarrow> string \<Rightarrow> string"
  ay_loads :: "string \<Rightarrow> json option"
  ay_verifier :: session_verifier
  ay_sha256 :: "string \<Rightarrow> string"

definition authenticate :: "api_security \<Rightarrow> presented \<Rightarrow> api_reply + session_claims" where
  "authenticate y p = bind_result (api_credential (pd_authorization p) (pd_cookie p)) (\<lambda>token.
     case verify (ay_hmac y) (ay_loads y) (ay_verifier y) (pd_clock p) token of
       Inl e \<Rightarrow> Inl (HttpError 401 (session_error_code e))
     | Inr claims \<Rightarrow> Inr claims)"

section \<open>Chat\<close>

record 'j api_state =
  as_tables :: run_tables
  as_queue :: "'j worker_queue"

datatype 'j built = Built 'j | BuildFails | BuildCancelled

record 'j chat_env =
  ce_run_id :: string
  ce_now :: int
  ce_queue_lease :: int
  ce_create_fault :: fault
  ce_create_clock :: "int option"
  ce_create_cancelled :: bool
  ce_job :: "'j built"
  ce_fail_fault :: fault
  ce_fail_clock :: "int option"
  ce_fail_cancelled :: bool
  ce_others :: "nat \<Rightarrow> 'j api_state \<Rightarrow> 'j api_state"

definition new_run ::
  "(string \<Rightarrow> string) \<Rightarrow> string \<Rightarrow> int \<Rightarrow> chat_request \<Rightarrow> session_claims \<Rightarrow> api_binding \<Rightarrow> run_record" where
  "new_run sha256 run_id now r session b =
     (let l2 = (cq_task_level r = L2) in
     \<lparr>rn_run_id = run_id, rn_request_id = cq_request_id r, rn_session_id = sc_session_id session,
      rn_task_level = cq_task_level r, rn_evaluation_root_id = (if l2 then Some (cq_evaluation_root_id r) else None),
      rn_profile = ab_profile b, rn_source_manifest_id = ab_source_manifest_id b,
      rn_corpus_manifest_id = ab_corpus_manifest_id b, rn_policy_hash = ab_policy_hash b,
      rn_configuration_hash = ab_configuration_hash b, rn_prompt_id = ab_prompt_id b, rn_prompt_hash = ab_prompt_hash b,
      rn_compliance_prompt_hash = (if l2 then Some (ab_compliance_prompt_hash b) else None),
      rn_verifier_prompt_hash = (if l2 then Some (ab_verifier_prompt_hash b) else None),
      rn_provider_id = ab_provider_id b, rn_model_id = ab_model_id b, rn_query_hash = sha256 (cq_question r),
      rn_status = Queued, rn_terminal_reason = None, rn_created_at = now, rn_started_at = None,
      rn_completed_at = None, rn_lease_owner = Some queue_lease_owner,
      rn_lease_expires_at = Some (now + microseconds 30), rn_last_heartbeat_at = None\<rparr>)"

text \<open>The \<open>try\<close> block: what stopped it is whether the row was known to be created, and whether it was an \<open>Exception\<close>.\<close>

definition chat_body :: "'j chat_env \<Rightarrow> run_record \<Rightarrow> nat \<Rightarrow> 'j api_state \<Rightarrow> (bool \<times> bool + unit) \<times> 'j api_state" where
  "chat_body env run permit st =
     (if \<not> run_record_valid run then (Inl (False, True), st)
      else let st0 = ce_others env 0 st in
        case create_run (ce_create_fault env) (ce_create_clock env) (ce_queue_lease env) run (as_tables st0) of
          (Inl _, db) \<Rightarrow> (Inl (False, True), st0\<lparr>as_tables := db\<rparr>)
        | (Inr _, db) \<Rightarrow>
            let st1 = st0\<lparr>as_tables := db\<rparr> in
            if ce_create_cancelled env then (Inl (True, False), st1)
            else let st2 = ce_others env 1 st1 in
              case ce_job env of
                BuildFails \<Rightarrow> (Inl (True, True), st2)
              | BuildCancelled \<Rightarrow> (Inl (True, False), st2)
              | Built job \<Rightarrow> (case deliver permit job (as_queue st2) of
                  (Inl _, q) \<Rightarrow> (Inl (True, True), st2\<lparr>as_queue := q\<rparr>)
                | (Inr _, q) \<Rightarrow> (Inr (), st2\<lparr>as_queue := q\<rparr>)))"

definition finish_failed_delivery :: "'j chat_env \<Rightarrow> 'j api_state \<Rightarrow> 'j api_state" where
  "finish_failed_delivery env st =
     (let st1 = ce_others env 2 st in
      st1\<lparr>as_tables := snd (fail_delivery (ce_fail_fault env) (ce_fail_clock env) (ce_run_id env)
        \<lparr>re_sequence = 1, re_body = TerminalEvent Interrupted (Some ''queue_delivery_failed'')\<rparr> (as_tables st1))\<rparr>)"

definition chat_cleanup :: "'j chat_env \<Rightarrow> bool \<times> bool \<Rightarrow> nat \<Rightarrow> 'j api_state \<Rightarrow> api_reply \<times> 'j api_state" where
  "chat_cleanup env = (\<lambda>(created, ordinary) permit st.
     let st1 = (if created then finish_failed_delivery env st else st);
         st2 = ce_others env 3 st1 in
     (if \<not> ordinary \<or> created \<and> ce_fail_cancelled env then RequestCancelled else service_unavailable,
      st2\<lparr>as_queue := cancel_permit permit (as_queue st2)\<rparr>))"

definition chat :: "api_security \<Rightarrow> api_binding \<Rightarrow> 'j chat_env \<Rightarrow> presented \<Rightarrow> chat_request \<Rightarrow> 'j api_state \<Rightarrow>
   api_reply \<times> 'j api_state" where
  "chat y b env p request st =
     (case authenticate y p of
        Inl reply \<Rightarrow> (reply, st)
      | Inr session \<Rightarrow> (case parsed_chat request of
          None \<Rightarrow> (HttpError 422 ''invalid_request'', st)
        | Some r \<Rightarrow>
            if cq_source_manifest_id r \<noteq> ab_source_manifest_id b \<or> cq_corpus_manifest_id r \<noteq> ab_corpus_manifest_id b
            then (HttpError 422 ''invalid_run_binding'', st)
            else (case reserve_permit (as_queue st) of
                (Inl _, q) \<Rightarrow> (service_unavailable, st\<lparr>as_queue := q\<rparr>)
              | (Inr permit, q) \<Rightarrow>
                  (case chat_body env (new_run (ay_sha256 y) (ce_run_id env) (ce_now env) r session b) permit
                      (st\<lparr>as_queue := q\<rparr>) of
                    (Inl stop, st1) \<Rightarrow> chat_cleanup env stop permit st1
                  | (Inr _, st1) \<Rightarrow> (ChatAccepted (ce_run_id env), st1)))))"

section \<open>Reading\<close>

definition read_run :: "api_security \<Rightarrow> fault \<Rightarrow> int option \<Rightarrow> presented \<Rightarrow> string \<Rightarrow> 'j api_state \<Rightarrow> api_reply" where
  "read_run y fault clock p run_id st =
     (case authenticate y p of
        Inl reply \<Rightarrow> reply
      | Inr session \<Rightarrow> (case read_owned fault clock run_id (sc_session_id session) (as_tables st) of
          Inl _ \<Rightarrow> service_unavailable
        | Inr None \<Rightarrow> HttpError 404 ''run_not_found''
        | Inr (Some view) \<Rightarrow> RunRead view))"

section \<open>Resuming\<close>

text \<open>A runtime may have no checkpoint store; then nothing is resumed.\<close>

record 'j resume_env =
  rs_checkpoint_store :: bool
  rs_begin_fault :: fault
  rs_begin_clock :: "int option"
  rs_begin_cancelled :: bool
  rs_read_fault :: fault
  rs_read_cancelled :: bool
  rs_job :: "'j built"
  rs_fail_fault :: fault
  rs_fail_clock :: "int option"
  rs_others :: "nat \<Rightarrow> 'j api_state \<Rightarrow> 'j api_state"

text \<open>\<open>_resume_chat_request\<close>: the identities of a resumed run come from its checkpoint.\<close>

definition resume_chat_request :: "resume_request \<Rightarrow> run_checkpoint \<Rightarrow> chat_request option" where
  "resume_chat_request r k = parsed_chat \<lparr>cq_question = rq_question r, cq_request_id = kp_run_id k,
     cq_evaluation_root_id = kp_evaluation_root_id k, cq_task_level = L2,
     cq_source_manifest_id = kb_source_manifest_id (kp_binding k),
     cq_corpus_manifest_id = kb_corpus_manifest_id (kp_binding k)\<rparr>"

text \<open>
  Delivering an acquired run. What stopped it is the permit it held and whether it was an
  \<open>Exception\<close>; no \<open>await\<close> lies between the reservation and the delivery.
\<close>

definition deliver_resumed ::
  "'j resume_env \<Rightarrow> resume_request \<Rightarrow> string \<Rightarrow> nat \<Rightarrow> 'j api_state \<Rightarrow> (nat option \<times> bool + unit) \<times> 'j api_state" where
  "deliver_resumed env request run_id attempt st =
     (let st0 = rs_others env 0 st in
      if rs_read_cancelled env then (Inl (None, False), st0)
      else case read_checkpoint (rs_read_fault env) run_id (as_tables st0) of
        Inr (Some k) \<Rightarrow>
          if kp_attempt k \<noteq> attempt \<or> resume_chat_request request k = None then (Inl (None, True), st0)
          else let st1 = rs_others env 1 st0 in
            (case rs_job env of
               BuildFails \<Rightarrow> (Inl (None, True), st1)
             | BuildCancelled \<Rightarrow> (Inl (None, False), st1)
             | Built job \<Rightarrow> (case reserve_permit (as_queue st1) of
                 (Inl _, q) \<Rightarrow> (Inl (None, True), st1\<lparr>as_queue := q\<rparr>)
               | (Inr permit, q) \<Rightarrow> (case deliver permit job q of
                   (Inl _, q1) \<Rightarrow> (Inl (Some permit, True), st1\<lparr>as_queue := q1\<rparr>)
                 | (Inr _, q1) \<Rightarrow> (Inr (), st1\<lparr>as_queue := q1\<rparr>))))
      | _ \<Rightarrow> (Inl (None, True), st0))"

definition give_up_resume ::
  "'j resume_env \<Rightarrow> api_binding \<Rightarrow> string \<Rightarrow> nat \<Rightarrow> nat option \<times> bool \<Rightarrow> 'j api_state \<Rightarrow> api_reply \<times> 'j api_state" where
  "give_up_resume env b run_id attempt = (\<lambda>(permit, ordinary) st.
     let st1 = (case permit of None \<Rightarrow> st | Some p \<Rightarrow> st\<lparr>as_queue := cancel_permit p (as_queue st)\<rparr>);
         st2 = rs_others env 2 st1 in
     (if ordinary then service_unavailable else RequestCancelled,
      st2\<lparr>as_tables := snd (fail_resume_delivery (rs_fail_fault env) (rs_fail_clock env) run_id attempt
        (ab_resume_lease_owner b) (as_tables st2))\<rparr>))"

fun disposition_reply :: "string \<Rightarrow> resume_disposition \<times> nat option \<Rightarrow> api_reply" where
  "disposition_reply run_id (ResumeNotFound, _) = HttpError 404 ''run_not_found''"
| "disposition_reply run_id (NotOwner, _) = HttpError 404 ''run_not_found''"
| "disposition_reply run_id (ResumeReplay, Some n) = ResumeAccepted run_id n"
| "disposition_reply run_id (ResumeReplay, None) = HttpError 500 ''Internal Server Error''"
| "disposition_reply run_id (Leased, _) = HttpError 409 ''run_already_leased''"
| "disposition_reply run_id (QueryMismatch, _) = HttpError 409 ''resume_query_mismatch''"
| "disposition_reply run_id (BindingMismatch, _) = HttpError 409 ''resume_binding_mismatch''"
| "disposition_reply run_id (NotInterrupted, _) = HttpError 409 ''run_not_resumable''"
| "disposition_reply run_id (CheckpointMissing, _) = HttpError 422 ''resume_checkpoint_missing''"
| "disposition_reply run_id (CheckpointInvalid, _) = HttpError 422 ''resume_checkpoint_invalid''"
| "disposition_reply run_id (ResumeAcquired, _) = service_unavailable"

text \<open>\<open>begin_resume\<close> is not shielded: a request cancelled in it does not learn what was committed.\<close>

definition resume_run :: "api_security \<Rightarrow> api_binding \<Rightarrow> 'j resume_env \<Rightarrow> presented \<Rightarrow> string \<Rightarrow> resume_request \<Rightarrow>
   'j api_state \<Rightarrow> api_reply \<times> 'j api_state" where
  "resume_run y b env p run_id request st =
     (case authenticate y p of
        Inl reply \<Rightarrow> (reply, st)
      | Inr session \<Rightarrow> (case parsed_resume request of
          None \<Rightarrow> (HttpError 422 ''invalid_request'', st)
        | Some r \<Rightarrow> if \<not> rs_checkpoint_store env then (service_unavailable, st) else
            (case begin_resume (ay_sha256 y) (rs_begin_fault env) (rs_begin_clock env) run_id (sc_session_id session)
                (ay_sha256 y (rq_question r)) (rq_resume_key r) (ab_resume_lease_owner b) (ab_resume_lease_seconds b)
                (Some (binding_of_checkpoints b)) (as_tables st) of
              (decision, db) \<Rightarrow>
                let st0 = st\<lparr>as_tables := db\<rparr> in
                if rs_begin_cancelled env then (RequestCancelled, st0)
                else (case decision of
                    Inl _ \<Rightarrow> (service_unavailable, st0)
                  | Inr (ResumeAcquired, Some attempt) \<Rightarrow>
                      (case deliver_resumed env r run_id attempt st0 of
                         (Inl stop, st1) \<Rightarrow> give_up_resume env b run_id attempt stop st1
                       | (Inr _, st1) \<Rightarrow> (ResumeAccepted run_id attempt, st1))
                  | Inr denied \<Rightarrow> (disposition_reply run_id denied, st0)))))"

end
