(* ===== verification/JobFactory.thy ===== *)
theory JobFactory
  imports ApiService ModelStages Deterministic L2State
begin

text \<open>
  How a delivered run gets its job: \<open>runtime/l2_factory.py\<close> and the builders of \<open>api/runtime.py\<close>.
  A job carries identities only: the contexts of the model stages, the checkpoint, how a first
  checkpoint is made, and how the evidence of a checkpoint is restored from the frozen corpus. The
  collaborators of a job are those of the deployment, which the orchestration takes as arguments.
\<close>

section \<open>The deployment\<close>

record deployment =
  dp_profile :: string
  dp_configuration_hash :: string
  dp_prompt_id :: string
  dp_prompt_hash :: string
  dp_source :: source_manifest
  dp_policy_hash :: string
  dp_provider_id :: string
  dp_model_id :: string
  dp_corpus_id :: string
  dp_corpus :: local_corpus

definition deployed_binding :: "deployment \<Rightarrow> api_binding" where
  "deployed_binding dp = \<lparr>ab_profile = dp_profile dp, ab_source_manifest_id = sm_manifest_id (dp_source dp),
     ab_corpus_manifest_id = dp_corpus_id dp, ab_policy_hash = dp_policy_hash dp,
     ab_configuration_hash = dp_configuration_hash dp, ab_prompt_id = dp_prompt_id dp, ab_prompt_hash = dp_prompt_hash dp,
     ab_provider_id = dp_provider_id dp, ab_model_id = dp_model_id dp,
     ab_compliance_prompt_hash = replicate 64 CHR ''f'', ab_verifier_prompt_hash = replicate 64 CHR ''0'',
     ab_resume_lease_owner = ''api-worker'', ab_resume_lease_seconds = 30\<rparr>"

definition ephemeral_delivery_run ::
  "(string \<Rightarrow> string) \<Rightarrow> int \<Rightarrow> deployment \<Rightarrow> string \<Rightarrow> chat_request \<Rightarrow> run_checkpoint option \<Rightarrow> run_record" where
  "ephemeral_delivery_run sha256 now dp run_id request checkpoint =
     (let is_l2 = (cq_task_level request = L2) in
     \<lparr>rn_run_id = run_id, rn_request_id = cq_request_id request, rn_session_id = ''delivery'',
      rn_task_level = cq_task_level request,
      rn_evaluation_root_id = (if is_l2 then Some (cq_evaluation_root_id request) else None),
      rn_profile = dp_profile dp, rn_source_manifest_id = sm_manifest_id (dp_source dp),
      rn_corpus_manifest_id = cq_corpus_manifest_id request, rn_policy_hash = dp_policy_hash dp,
      rn_configuration_hash = dp_configuration_hash dp, rn_prompt_id = dp_prompt_id dp, rn_prompt_hash = dp_prompt_hash dp,
      rn_compliance_prompt_hash = (if is_l2 then Some (case checkpoint of
          Some k \<Rightarrow> kb_compliance_prompt_hash (kp_binding k) | None \<Rightarrow> replicate 64 CHR ''f'') else None),
      rn_verifier_prompt_hash = (if is_l2 then Some (case checkpoint of
          Some k \<Rightarrow> kb_verifier_prompt_hash (kp_binding k) | None \<Rightarrow> replicate 64 CHR ''0'') else None),
      rn_provider_id = dp_provider_id dp, rn_model_id = dp_model_id dp, rn_query_hash = sha256 (cq_question request),
      rn_status = Queued, rn_terminal_reason = None, rn_created_at = now, rn_started_at = None,
      rn_completed_at = None, rn_lease_owner = Some queue_lease_owner,
      rn_lease_expires_at = Some (now + microseconds 30), rn_last_heartbeat_at = None\<rparr>)"

section \<open>Jobs\<close>

datatype job_error = JobValueError string | JobValidationError | JobStoreError run_store_error

text \<open>\<open>answer_context\<close>, without the model's own defaults.\<close>

record answer_binding =
  ax_model_id :: string
  ax_source_manifest :: source_manifest
  ax_corpus_manifest_id :: string
  ax_evaluation_root_id :: "string option"
  ax_run_id :: string
  ax_idempotency_key :: string

record l2_job_context =
  jx_run_id :: string
  jx_question :: string
  jx_planner_context :: stage_context
  jx_compliance_context :: stage_context
  jx_semantic_context :: stage_context
  jx_checkpoint :: "run_checkpoint option"
  jx_checkpoint_factory :: "int option \<Rightarrow> run_store_error + run_checkpoint"
  jx_evidence_restorer :: "evidence_checkpoint_ref list \<Rightarrow> answer_error + evidence list"

record delivered_job =
  dj_run_id :: string
  dj_question :: string
  dj_planner_context :: stage_context
  dj_corpus_manifest_id :: string
  dj_answer_context :: "answer_binding option"
  dj_task_level :: task_level
  dj_l2_context :: "l2_job_context option"
  dj_lease_acquired :: bool
  dj_attempt :: nat

text \<open>A run without an evaluation root gets an identifier that no budget is kept for.\<close>

definition root_or_invalid :: "run_record \<Rightarrow> string" where
  "root_or_invalid run = (case rn_evaluation_root_id run of Some r \<Rightarrow> r | None \<Rightarrow> ''invalid-root'')"

definition planner_context :: "source_manifest \<Rightarrow> run_record \<Rightarrow> string \<Rightarrow> stage_context" where
  "planner_context source run key = \<lparr>sx_source_manifest = source, sx_corpus_manifest_id = rn_corpus_manifest_id run,
     sx_evaluation_root_id = root_or_invalid run, sx_run_id = rn_run_id run, sx_model_id = rn_model_id run,
     sx_idempotency_key = key, sx_task_level = L2, sx_reconstruction_generation = 0\<rparr>"

text \<open>The contexts that the deployment gives the stages of a run; the factory replaces that of the planner.
  Those of the compliance agent and the semantic verifier have no level of their own; both work for L2.\<close>

definition deployed_context :: "deployment \<Rightarrow> run_record \<Rightarrow> task_level \<Rightarrow> string \<Rightarrow> stage_context" where
  "deployed_context dp run level key = \<lparr>sx_source_manifest = dp_source dp, sx_corpus_manifest_id = dp_corpus_id dp,
     sx_evaluation_root_id = root_or_invalid run, sx_run_id = rn_run_id run, sx_model_id = dp_model_id dp,
     sx_idempotency_key = key, sx_task_level = level, sx_reconstruction_generation = 0\<rparr>"

section \<open>Restoring evidence\<close>

definition restores :: "evidence_checkpoint_ref \<Rightarrow> evidence \<Rightarrow> bool" where
  "restores ref e \<longleftrightarrow> ee_content_hash (ev_excerpt e) = kr_content_hash ref \<and> ee_quote_hash (ev_excerpt e) = kr_quote_hash ref \<and>
     dc_document_id (ev_disclosed e) = kr_document_id ref \<and> dc_document_version (ev_disclosed e) = kr_document_version ref \<and>
     paragraph_start (ee_span (ev_excerpt e)) = kr_paragraph_start ref \<and>
     paragraph_end (ee_span (ev_excerpt e)) = kr_paragraph_end ref \<and>
     token_start (ee_span (ev_excerpt e)) = kr_token_start ref \<and> token_end (ee_span (ev_excerpt e)) = kr_token_end ref"

fun restore_loop ::
  "(string \<Rightarrow> string) \<Rightarrow> deployment \<Rightarrow> evidence list \<Rightarrow> evidence_checkpoint_ref list \<Rightarrow> answer_error + evidence list" where
  "restore_loop sha256 dp restored [] = Inr restored"
| "restore_loop sha256 dp restored (ref # refs) =
     (case resolve_unit (dp_corpus dp) (kr_clause_id ref) of
        None \<Rightarrow> Inr []
      | Some u \<Rightarrow> (case build_evidence_from_unit sha256 (dp_corpus_id dp) u of
          Inl e \<Rightarrow> Inl e
        | Inr item \<Rightarrow> if \<not> restores ref item then Inr [] else restore_loop sha256 dp (restored @ [item]) refs))"

definition restore_evidence ::
  "(string \<Rightarrow> string) \<Rightarrow> deployment \<Rightarrow> evidence_checkpoint_ref list \<Rightarrow> answer_error + evidence list" where
  "restore_evidence sha256 dp refs = restore_loop sha256 dp [] refs"

section \<open>Building\<close>

definition l1_job :: "deployment \<Rightarrow> run_record \<Rightarrow> string \<Rightarrow> delivered_job" where
  "l1_job dp run question = \<lparr>dj_run_id = rn_run_id run, dj_question = question,
     dj_planner_context = deployed_context dp run L1 (rn_run_id run @ ''-planning''),
     dj_corpus_manifest_id = dp_corpus_id dp,
     dj_answer_context = Some \<lparr>ax_model_id = dp_model_id dp, ax_source_manifest = dp_source dp,
       ax_corpus_manifest_id = dp_corpus_id dp, ax_evaluation_root_id = rn_evaluation_root_id run,
       ax_run_id = rn_run_id run, ax_idempotency_key = rn_run_id run @ ''-answer''\<rparr>,
     dj_task_level = L1, dj_l2_context = None, dj_lease_acquired = False, dj_attempt = 1\<rparr>"

definition l2_context_of ::
  "(string \<Rightarrow> string) \<Rightarrow> deployment \<Rightarrow> run_record \<Rightarrow> string \<Rightarrow> run_checkpoint option \<Rightarrow> l2_job_context" where
  "l2_context_of sha256 dp run question checkpoint = \<lparr>jx_run_id = rn_run_id run, jx_question = question,
     jx_planner_context = deployed_context dp run L1 (rn_run_id run @ ''-planning-initial-g0''),
     jx_compliance_context = deployed_context dp run L2 ''initial'',
     jx_semantic_context = deployed_context dp run L2 ''initial'',
     jx_checkpoint = checkpoint, jx_checkpoint_factory = (\<lambda>_. Inl RunStoreValidationError),
     jx_evidence_restorer = restore_evidence sha256 dp\<rparr>"

definition require_l2 :: "run_record \<Rightarrow> job_error + unit" where
  "require_l2 run = require (rn_task_level run = L2 \<and> rn_evaluation_root_id run \<noteq> None) (JobValueError ''l2_run_binding_invalid'')"

definition require_bindings :: "run_record \<Rightarrow> run_checkpoint \<Rightarrow> job_error + unit" where
  "require_bindings run k = require
     (kp_run_id k = rn_run_id run \<and> kp_query_hash k = rn_query_hash run \<and>
      Some (kp_evaluation_root_id k) = rn_evaluation_root_id run \<and>
      kb_corpus_manifest_id (kp_binding k) = rn_corpus_manifest_id run \<and> kb_policy_hash (kp_binding k) = rn_policy_hash run \<and>
      kb_configuration_hash (kp_binding k) = rn_configuration_hash run \<and>
      kb_provider_id (kp_binding k) = rn_provider_id run \<and> kb_model_id (kp_binding k) = rn_model_id run)
     (JobValueError ''resume_checkpoint_binding_mismatch'')"

text \<open>\<open>_job\<close>, over the context in which the factory has replaced the planner's and the checkpoints.\<close>

definition factory_job ::
  "(string \<Rightarrow> string) \<Rightarrow> deployment \<Rightarrow> run_record \<Rightarrow> string \<Rightarrow> run_checkpoint option \<Rightarrow> bool \<Rightarrow> nat \<Rightarrow> delivered_job" where
  "factory_job sha256 dp run question checkpoint lease_acquired attempt =
     (let given = l2_context_of sha256 dp run question checkpoint;
          source = sx_source_manifest (jx_planner_context given) in
     \<lparr>dj_run_id = rn_run_id run, dj_question = question,
      dj_planner_context = planner_context source run (rn_run_id run @ ''-planning''),
      dj_corpus_manifest_id = rn_corpus_manifest_id run, dj_answer_context = None, dj_task_level = L2,
      dj_l2_context = Some (given\<lparr>
        jx_planner_context := planner_context source run (rn_run_id run @ ''-planning-initial-g0''),
        jx_checkpoint := checkpoint, jx_checkpoint_factory := (\<lambda>clock. new_checkpoint clock run Planned)\<rparr>),
      dj_lease_acquired = lease_acquired, dj_attempt = attempt\<rparr>)"

definition new_job :: "(string \<Rightarrow> string) \<Rightarrow> deployment \<Rightarrow> run_record \<Rightarrow> string \<Rightarrow> job_error + delivered_job" where
  "new_job sha256 dp run question =
     bind_result (require_l2 run) (\<lambda>_. Inr (factory_job sha256 dp run question None False 1))"

definition resumed_job ::
  "(string \<Rightarrow> string) \<Rightarrow> fault \<Rightarrow> run_tables \<Rightarrow> deployment \<Rightarrow> run_record \<Rightarrow> string \<Rightarrow> nat \<Rightarrow> job_error + delivered_job" where
  "resumed_job sha256 fault db dp run question attempt =
     bind_result (require_l2 run) (\<lambda>_.
     bind_result (require (2 \<le> attempt) (JobValueError ''resume_attempt_invalid'')) (\<lambda>_.
     (case read_checkpoint fault (rn_run_id run) db of
        Inl e \<Rightarrow> Inl (JobStoreError e)
      | Inr None \<Rightarrow> Inl (JobValueError ''resume_checkpoint_unavailable'')
      | Inr (Some k) \<Rightarrow>
          bind_result (require (kp_attempt k = attempt) (JobValueError ''resume_checkpoint_unavailable'')) (\<lambda>_.
          bind_result (require_bindings run k) (\<lambda>_.
            Inr (factory_job sha256 dp run question (Some k) True attempt))))))"

text \<open>\<open>RuntimeJobBuilder.build\<close> and \<open>L2JobFactory.job_for_delivery\<close>.\<close>

definition delivery_build ::
  "(string \<Rightarrow> string) \<Rightarrow> fault \<Rightarrow> run_tables \<Rightarrow> deployment \<Rightarrow> run_record \<Rightarrow> string \<Rightarrow> nat option \<Rightarrow> job_error + delivered_job" where
  "delivery_build sha256 fault db dp run question acquired_attempt =
     (if rn_task_level run = L2 then (case acquired_attempt of
          None \<Rightarrow> new_job sha256 dp run question
        | Some attempt \<Rightarrow> resumed_job sha256 fault db dp run question attempt)
      else if acquired_attempt \<noteq> None then Inl (JobValueError ''l1_resume_delivery_not_supported'')
      else Inr (l1_job dp run question))"

definition build_job ::
  "(string \<Rightarrow> string) \<Rightarrow> int \<Rightarrow> fault \<Rightarrow> run_tables \<Rightarrow> deployment \<Rightarrow> string \<Rightarrow> string \<Rightarrow> chat_request \<Rightarrow>
   run_checkpoint option \<Rightarrow> job_error + delivered_job" where
  "build_job sha256 now fault db dp run_id question request checkpoint =
     (if cq_task_level request = L1
      then Inr \<lparr>dj_run_id = run_id, dj_question = question,
        dj_planner_context = \<lparr>sx_source_manifest = dp_source dp, sx_corpus_manifest_id = dp_corpus_id dp,
          sx_evaluation_root_id = cq_evaluation_root_id request, sx_run_id = run_id, sx_model_id = dp_model_id dp,
          sx_idempotency_key = run_id @ ''-planning'', sx_task_level = L1, sx_reconstruction_generation = 0\<rparr>,
        dj_corpus_manifest_id = dp_corpus_id dp,
        dj_answer_context = Some \<lparr>ax_model_id = dp_model_id dp, ax_source_manifest = dp_source dp,
          ax_corpus_manifest_id = dp_corpus_id dp, ax_evaluation_root_id = Some (cq_evaluation_root_id request),
          ax_run_id = run_id, ax_idempotency_key = run_id @ ''-answer''\<rparr>,
        dj_task_level = L1, dj_l2_context = None, dj_lease_acquired = False, dj_attempt = 1\<rparr>
      else
        let run = ephemeral_delivery_run sha256 now dp run_id request checkpoint in
        if \<not> run_record_valid run then Inl JobValidationError
        else delivery_build sha256 fault db dp run question (map_option kp_attempt checkpoint))"

end
