(* ===== verification/SessionTheorems.thy ===== *)
theory SessionTheorems
  imports SessionTokens
begin

text \<open>
  What a credential of \<open>sessions/tokens.py\<close> proves: a token that verifies is the one token of its
  claims under the secret, and a minted token verifies exactly while it lives.
\<close>

section \<open>Identifiers\<close>

lemma validated_identifier_Inr:
  "validated_identifier s = Inr t \<longleftrightarrow> t = s \<and> s \<noteq> [] \<and> char_count s \<le> 128 \<and> set s \<subseteq> set identifier_chars"
  by (cases s) (auto simp: validated_identifier_def not_less)

text \<open>Characters that JSON writes as they are.\<close>

definition plain :: "string \<Rightarrow> bool" where
  "plain s \<longleftrightarrow> list_all (\<lambda>c. byte c < 127 \<and> 32 \<le> byte c \<and> short_escape c = None) s"

lemma plain_subset: "plain t \<Longrightarrow> set s \<subseteq> set t \<Longrightarrow> plain s"
  by (auto simp: plain_def list_all_iff)

lemma plain_chars: "plain identifier_chars" "plain base64_alphabet"
  by code_simp+

lemmas plain_identifier = plain_subset [OF plain_chars(1)]
lemmas plain_base64 = plain_subset [OF plain_chars(2)]

lemma plain_count: "plain s \<Longrightarrow> char_count s = length s"
proof -
  assume "plain s"
  then have "filter (\<lambda>c. \<not> continuation c) (tl s) = tl s"
    unfolding plain_def by (intro filter_True) (cases s; fastforce simp: list_all_iff continuation_def)
  then show ?thesis by (cases s) simp_all
qed

lemma plain_points: "plain s \<Longrightarrow> code_points (map of_char s) = map of_char s"
  by (induction s) (auto simp: plain_def list_all_iff byte_def Let_def)

lemma ascii_string_plain: "plain s \<Longrightarrow> ascii_string s = CHR 0x22 # s @ [CHR 0x22]"
proof -
  assume s: "plain s"
  have "map escape_point (map of_char s) = map (\<lambda>c. [c]) s"
    using s by (auto simp: plain_def list_all_iff byte_def escape_point_def)
  then have "concat (map escape_point (code_points (map of_char s))) = concat (map (\<lambda>c. [c]) s)"
    by (simp only: plain_points [OF s])
  also have "\<dots> = s" by (induction s) simp_all
  finally have "concat (map escape_point (code_points (map of_char s))) = s" .
  then show ?thesis by (simp add: ascii_string_def)
qed

section \<open>The text of claims\<close>

lemma sorted_claim_keys: "sorted claim_keys" "distinct claim_keys"
  by code_simp+

lemma claim_pairs_keys: "map fst (claim_pairs c) = claim_keys"
  by (simp add: claim_pairs_def claim_keys_def)

lemma plain_values: "map (map_prod id sort_keys) (claim_pairs c) = claim_pairs c"
  by (simp add: claim_pairs_def)

lemma sort_keys_claims: "sort_keys (claims_json c) = claims_json c"
  using sorted_claim_keys(1) sort_key_id_if_sorted [of fst "claim_pairs c"]
  by (simp add: claims_json_def plain_values claim_pairs_keys)

lemma length_show_nat: "n < 10 ^ Suc k \<Longrightarrow> length (show_nat n) \<le> Suc k"
proof (induction k arbitrary: n)
  case 0
  then show ?case by (subst show_nat.simps) simp
next
  case (Suc k)
  then have "n div 10 < 10 ^ Suc k" by (simp add: div_less_iff_less_mult)
  from Suc.IH [OF this] show ?case by (subst show_nat.simps) simp
qed

lemma length_timestamp: "0 \<le> t \<Longrightarrow> t \<le> max_timestamp \<Longrightarrow> length (show_int t) \<le> 12"
  using length_show_nat [of "nat t" 11] by (simp add: show_int_def max_timestamp_def)

lemma plain_keys: "list_all plain claim_keys" "plain ''HS256''"
  by code_simp+

definition claims_ok :: "session_claims \<Rightarrow> bool" where
  "claims_ok c \<longleftrightarrow> set (sc_session_id c @ sc_profile c @ sc_audience c) \<subseteq> set identifier_chars \<and>
     length (sc_session_id c) \<le> 128 \<and> length (sc_profile c) \<le> 128 \<and> length (sc_audience c) \<le> 128 \<and>
     set (sc_nonce c) \<subseteq> set base64_alphabet \<and> length (sc_nonce c) = 22 \<and>
     0 \<le> sc_issued_at c \<and> sc_issued_at c < sc_expires_at c \<and> sc_expires_at c \<le> max_timestamp"

lemma claims_text:
  assumes "claims_ok c"
  shows "ascii_json (claims_json c) = ''{\"alg\":\"HS256\",\"aud\":\"'' @ sc_audience c @ ''\",\"exp\":'' @
    show_int (sc_expires_at c) @ '',\"iat\":'' @ show_int (sc_issued_at c) @ '',\"nonce\":\"'' @ sc_nonce c @
    ''\",\"profile\":\"'' @ sc_profile c @ ''\",\"session_id\":\"'' @ sc_session_id c @ ''\",\"v\":1}''"
proof -
  have "plain (sc_session_id c)" "plain (sc_profile c)" "plain (sc_audience c)" "plain (sc_nonce c)"
    using assms plain_identifier plain_base64 by (simp_all add: claims_ok_def)
  moreover have "show_int 1 = ''1''" by code_simp
  ultimately show ?thesis
    using plain_keys
    by (simp add: ascii_json_def sort_keys_claims) (simp add: claims_json_def claim_pairs_def claim_keys_def ascii_string_plain)
qed

lemma claims_length:
  assumes "claims_ok c"
  shows "0 < length (ascii_json (claims_json c))" "length (ascii_json (claims_json c)) \<le> 1024"
proof -
  have "length (show_int (sc_issued_at c)) \<le> 12" "length (show_int (sc_expires_at c)) \<le> 12"
    using assms length_timestamp by (simp_all add: claims_ok_def)
  with assms show "0 < length (ascii_json (claims_json c))" "length (ascii_json (claims_json c)) \<le> 1024"
    by (simp_all add: claims_text claims_ok_def)
qed

section \<open>The parts of a token\<close>

lemma split_on_fresh: "sep \<notin> set a \<Longrightarrow> split_on sep a = [a]"
  by (induction a) auto

lemma split_on_append: "sep \<notin> set a \<Longrightarrow> split_on sep (a @ sep # b) = a # split_on sep b"
  by (induction a) auto

lemma split_on_join: "split_on sep t = [a, b, c] \<Longrightarrow> t = a @ sep # b @ sep # c"
proof -
  have join: "t = concat (map (\<lambda>w. w @ [sep]) (butlast (split_on sep t))) @ last (split_on sep t) \<and> split_on sep t \<noteq> []" for t
    by (induction t) (auto split: list.splits)
  assume "split_on sep t = [a, b, c]"
  then show ?thesis using join [of t] by simp
qed

lemma dot_not_in_alphabet: "CHR ''.'' \<notin> set base64_alphabet"
  by code_simp

lemma split_signed:
  assumes "0 < length payload" "length payload \<le> 1024" "\<And>m. length (hmac secret m) = 32"
  shows "split_token (signed_token hmac secret payload) =
    Inr (encode_base64url payload, encode_base64url (hmac secret (signing_input (encode_base64url payload))))"
proof -
  let ?p = "encode_base64url payload"
  let ?s = "encode_base64url (hmac secret (signing_input ?p))"
  let ?t = "''v1'' @ CHR ''.'' # ?p @ CHR ''.'' # ?s"
  have token: "signed_token hmac secret payload = ?t"
    by (simp add: signed_token_def signing_input_def Let_def)
  have "length ?t \<le> 2048" using assms(2) by (simp add: length_encode assms(3))
  moreover have "plain ?t"
    using plain_base64 [OF encode_alphabet, of payload] plain_base64 [OF encode_alphabet, of "hmac secret (signing_input ?p)"]
    by (simp add: plain_def byte_def short_escape_def)
  ultimately have "char_count ?t \<le> 2048" by (metis plain_count)
  moreover have no_dot: "CHR ''.'' \<notin> set (encode_base64url b)" for b
    using encode_alphabet [of b] dot_not_in_alphabet by blast
  moreover have "split_on (CHR ''.'') ?t = [''v1'', ?p, ?s]"
    using no_dot [of payload] no_dot [of "hmac secret (signing_input ?p)"]
    by (simp add: split_on_append [of "CHR ''.''" ?p] split_on_fresh)
  ultimately show ?thesis unfolding token split_token_def by simp
qed

lemma split_token_join:
  "split_token token = Inr (p, s) \<Longrightarrow> token = signing_input p @ CHR ''.'' # s"
  by (auto simp: split_token_def signing_input_def dest!: split_on_join split: list.splits if_splits)

section \<open>Minted tokens\<close>

lemma verify_minted_claims:
  assumes "claims_ok c" "sc_audience c = sv_audience v" "sc_profile c = sv_profile v"
    and "sc_session_id c \<noteq> []" "sc_profile c \<noteq> []" "sc_audience c \<noteq> []"
    and "sc_nonce c = encode_base64url nonce" "length nonce = 16"
    and "sc_expires_at c - sc_issued_at c \<le> 300"
  shows "verify_claims v (claim_pairs c) now =
    (if now < sc_issued_at c then Inl InvalidSession else if sc_expires_at c \<le> now then Inl ExpiredSession else Inr c)"
proof -
  have "char_count (sc_session_id c) \<le> 128" "char_count (sc_profile c) \<le> 128" "char_count (sc_audience c) \<le> 128"
    using assms(1) plain_count [OF plain_identifier] by (auto simp: claims_ok_def)
  then have ids: "validated_identifier (sc_session_id c) = Inr (sc_session_id c)"
      "validated_identifier (sv_profile v) = Inr (sv_profile v)" "validated_identifier (sv_audience v) = Inr (sv_audience v)"
    using assms(1-6) by (auto simp: validated_identifier_Inr claims_ok_def)
  have "nonce \<noteq> []" using assms(8) by auto
  moreover from this have "decode_base64url (Some 16) None (sc_nonce c) = Some nonce"
    using assms(7,8) decode_base64url_encode [of nonce "Some 16" None] by simp
  ultimately have nonce: "validated_nonce (sc_nonce c) = Inr (sc_nonce c)" by (simp add: validated_nonce_def)
  show ?thesis
    using assms(1-3,9) ids nonce
    by (simp add: verify_claims_def claim_pairs_def validate_claims_shape_def claim_keys_def text_claim_def int_claim_def
        strict_timestamp_def claims_ok_def require_def)
qed

lemma issued_claims:
  assumes "issue hmac issuer clock nonce session_id profile ttl = Inr token" "length nonce = 16"
    and "new_issuer secret audience = Inr issuer"
  defines "c \<equiv> \<lparr>sc_session_id = session_id, sc_profile = profile, sc_audience = audience, sc_nonce = encode_base64url nonce,
    sc_issued_at = (case clock of ClockReads t \<Rightarrow> t | _ \<Rightarrow> 0), sc_expires_at = (case clock of ClockReads t \<Rightarrow> t | _ \<Rightarrow> 0) + ttl\<rparr>"
  shows "token = signed_token hmac secret (ascii_json (claims_json c))" "claims_ok c"
    and "session_id \<noteq> []" "profile \<noteq> []" "audience \<noteq> []" "1 \<le> ttl" "ttl \<le> 300" "clock = ClockReads (sc_issued_at c)"
proof -
  have good_id: "validated_identifier s = Inr t \<Longrightarrow> t = s \<and> s \<noteq> [] \<and> length s \<le> 128 \<and> set s \<subseteq> set identifier_chars" for s t
    using plain_count [OF plain_identifier] by (auto simp: validated_identifier_Inr)
  from assms(3) have issuer: "issuer = \<lparr>si_secret = secret, si_audience = audience\<rparr>"
      and audience: "audience \<noteq> []" "length audience \<le> 128" "set audience \<subseteq> set identifier_chars"
    by (auto simp: new_issuer_def validated_secret_def result_simps dest!: good_id split: if_splits)
  from assms(1) obtain t where clock: "clock = ClockReads t" "0 \<le> t"
      and ids: "session_id \<noteq> []" "length session_id \<le> 128" "set session_id \<subseteq> set identifier_chars"
        "profile \<noteq> []" "length profile \<le> 128" "set profile \<subseteq> set identifier_chars"
      and ttl: "1 \<le> ttl" "ttl \<le> 300" "t + ttl \<le> max_timestamp"
      and token: "token = signed_token hmac secret (ascii_json (claims_json c))"
    unfolding c_def issue_def issuer
    by (auto simp: result_simps clock_seconds_def validated_ttl_def dest!: good_id split: clock_value.splits if_splits)
  show "token = signed_token hmac secret (ascii_json (claims_json c))" by (rule token)
  show "claims_ok c"
    using clock ids ttl audience encode_alphabet [of nonce] assms(2)
    by (simp add: c_def claims_ok_def length_encode)
  show "session_id \<noteq> []" "profile \<noteq> []" "audience \<noteq> []" "1 \<le> ttl" "ttl \<le> 300" "clock = ClockReads (sc_issued_at c)"
    using ids ttl audience clock by (simp_all add: c_def)
qed

lemma verify_signed:
  assumes "claims_ok c" "\<And>m. length (hmac (sv_secret v) m) = 32"
    and "loads (ascii_json (claims_json c)) = Some (claims_json c)" "0 \<le> now" "now \<le> max_timestamp"
  shows "verify hmac loads v (ClockReads now) (signed_token hmac (sv_secret v) (ascii_json (claims_json c))) =
    verify_claims v (claim_pairs c) now"
proof -
  let ?p = "ascii_json (claims_json c)"
  let ?mac = "hmac (sv_secret v) (signing_input (encode_base64url ?p))"
  have payload: "decode_base64url None (Some 1024) (encode_base64url ?p) = Some ?p"
    using claims_length [OF assms(1)] by (intro decode_base64url_encode) auto
  have "?mac \<noteq> []" using assms(2) by (metis length_0_conv zero_neq_numeral)
  then have mac: "decode_base64url (Some 32) None (encode_base64url ?mac) = Some ?mac"
    by (intro decode_base64url_encode) (simp_all add: assms(2))
  have "no_duplicate_claims (claims_json c)" by (simp add: claims_json_def claim_pairs_def)
  then have "load_claims loads ?p = Inr (claim_pairs c)"
    using assms(3) by (simp add: load_claims_def claims_json_def)
  with payload mac assms(4,5) show ?thesis
    by (simp add: verify_def clock_seconds_def split_signed [where hmac = hmac and secret = "sv_secret v", OF claims_length [OF assms(1)] assms(2)] or_invalid_def)
qed

text \<open>
  C40. A minted token lives exactly as long as it says. A verifier with the secret, the audience and
  the profile of the issuer refuses it before the second it was issued, accepts it with the session,
  profile and times it was issued for while it lives, and reports it as expired from then on; it
  lives between one second and five minutes.
\<close>

theorem issued_token_lives:
  assumes "new_issuer secret audience = Inr issuer" "new_verifier secret audience profile = Inr v"
    and "issue hmac issuer (ClockReads issued) nonce session_id profile ttl = Inr token"
    and "length nonce = 16" "\<And>m. length (hmac secret m) = 32"
    and "c = \<lparr>sc_session_id = session_id, sc_profile = profile, sc_audience = audience,
      sc_nonce = encode_base64url nonce, sc_issued_at = issued, sc_expires_at = issued + ttl\<rparr>"
    and "loads (ascii_json (claims_json c)) = Some (claims_json c)" "0 \<le> now" "now \<le> max_timestamp"
  shows "1 \<le> ttl \<and> ttl \<le> 300 \<and> verify hmac loads v (ClockReads now) token =
    (if now < issued then Inl InvalidSession else if issued + ttl \<le> now then Inl ExpiredSession else Inr c)"
proof -
  from assms(2) have v: "v = \<lparr>sv_secret = secret, sv_audience = audience, sv_profile = profile\<rparr>"
    by (auto simp: new_verifier_def validated_secret_def result_simps validated_identifier_Inr split: if_splits)
  note minted = issued_claims [OF assms(3,4,1), simplified, folded assms(6)]
  have "verify hmac loads v (ClockReads now) token = verify_claims v (claim_pairs c) now"
    using verify_signed [of c hmac v loads now] minted(1,2) assms(5,7-9) by (simp add: v)
  also have "\<dots> = (if now < issued then Inl InvalidSession else if issued + ttl \<le> now then Inl ExpiredSession else Inr c)"
    using verify_minted_claims [OF minted(2), of v nonce now] minted(3-7) assms(4) by (simp add: v assms(6))
  finally show ?thesis using minted(6,7) by simp
qed

section \<open>Accepted tokens\<close>

lemma claim_Inr:
  "text_claim raw k = Inr s \<longleftrightarrow> map_of raw k = Some (JStr s)"
  "int_claim raw k = Inr i \<longleftrightarrow> map_of raw k = Some (JInt i)"
  "strict_timestamp raw k = Inr i \<longleftrightarrow> map_of raw k = Some (JInt i) \<and> 0 \<le> i \<and> i \<le> max_timestamp"
  "validated_nonce n = Inr m \<longleftrightarrow> m = n \<and> (\<exists>b. decode_base64url (Some 16) None n = Some b \<and> b \<noteq> [])"
  by (auto simp: text_claim_def int_claim_def strict_timestamp_def validated_nonce_def result_simps
      split: option.splits json.splits if_splits)

lemma shape_keys: "validate_claims_shape raw = Inr u \<Longrightarrow> set (map fst raw) = set claim_keys"
  by (simp add: validate_claims_shape_def split: if_splits)

lemma verified_claims:
  assumes "verify_claims v raw now = Inr c"
  shows "set (map fst raw) = set claim_keys"
    and "map_of raw ''alg'' = Some (JStr ''HS256'')" "map_of raw ''aud'' = Some (JStr (sc_audience c))"
      "map_of raw ''exp'' = Some (JInt (sc_expires_at c))" "map_of raw ''iat'' = Some (JInt (sc_issued_at c))"
      "map_of raw ''nonce'' = Some (JStr (sc_nonce c))" "map_of raw ''profile'' = Some (JStr (sc_profile c))"
      "map_of raw ''session_id'' = Some (JStr (sc_session_id c))" "map_of raw ''v'' = Some (JInt 1)"
    and "sc_audience c = sv_audience v" "sc_profile c = sv_profile v" "sc_issued_at c \<le> now" "now < sc_expires_at c"
      "sc_expires_at c - sc_issued_at c \<le> 300" "validated_identifier (sc_session_id c) = Inr (sc_session_id c)"
proof -
  from assms obtain issued expires a n where
    p: "set (map fst raw) = set claim_keys" "map_of raw ''iat'' = Some (JInt issued)" "map_of raw ''exp'' = Some (JInt expires)"
      "expires - issued \<le> 300" "map_of raw ''v'' = Some (JInt 1)" "map_of raw ''alg'' = Some (JStr ''HS256'')"
      "map_of raw ''aud'' = Some (JStr (sv_audience v))" "map_of raw ''profile'' = Some (JStr (sv_profile v))"
      "map_of raw ''session_id'' = Some (JStr a)" "map_of raw ''nonce'' = Some (JStr n)"
      "issued \<le> now" "now < expires" "validated_identifier a = Inr a"
      "c = \<lparr>sc_session_id = a, sc_profile = sv_profile v, sc_audience = sv_audience v, sc_nonce = n,
        sc_issued_at = issued, sc_expires_at = expires\<rparr>"
    unfolding verify_claims_def result_simps claim_Inr
    apply (elim exE conjE)
    apply (drule shape_keys)
    apply (rule that, assumption+)
    apply (simp_all add: validated_identifier_Inr)
    done
  then show "set (map fst raw) = set claim_keys"
    and "map_of raw ''alg'' = Some (JStr ''HS256'')" "map_of raw ''aud'' = Some (JStr (sc_audience c))"
      "map_of raw ''exp'' = Some (JInt (sc_expires_at c))" "map_of raw ''iat'' = Some (JInt (sc_issued_at c))"
      "map_of raw ''nonce'' = Some (JStr (sc_nonce c))" "map_of raw ''profile'' = Some (JStr (sc_profile c))"
      "map_of raw ''session_id'' = Some (JStr (sc_session_id c))" "map_of raw ''v'' = Some (JInt 1)"
    and "sc_audience c = sv_audience v" "sc_profile c = sv_profile v" "sc_issued_at c \<le> now" "now < sc_expires_at c"
      "sc_expires_at c - sc_issued_at c \<le> 300" "validated_identifier (sc_session_id c) = Inr (sc_session_id c)"
    by simp_all
qed

lemma loaded_claims_sorted:
  assumes "verify_claims v raw now = Inr c" "distinct (map fst raw)"
  shows "sort_keys (JObj raw) = claims_json c"
proof -
  note claims = verified_claims [OF assms(1)]
  have "map_of raw k = map_of (claim_pairs c) k" for k
  proof (cases "k \<in> set claim_keys")
    case True
    then show ?thesis using claims(2-9) by (auto simp: claim_keys_def claim_pairs_def)
  next
    case False
    then have "k \<notin> fst ` set raw" "k \<notin> fst ` set (claim_pairs c)"
      using claims(1) arg_cong [OF claim_pairs_keys, of set c] by simp_all
    then show ?thesis by (simp add: map_of_eq_None_iff [THEN iffD2])
  qed
  then have "map_of raw = map_of (claim_pairs c)" by (rule ext)
  then have same: "set raw = set (claim_pairs c)"
    using map_of_inject_set [of raw "claim_pairs c"] assms(2) sorted_claim_keys(2) by (simp add: claim_pairs_keys)
  then have "map (map_prod id sort_keys) raw = raw"
    using plain_values [of c] by (auto simp: map_eq_conv [of _ _ id, simplified])
  moreover have "sort_key fst raw = claim_pairs c"
  proof (rule map_sorted_distinct_set_unique)
    show "inj_on fst (set (sort_key fst raw) \<union> set (claim_pairs c))"
      using same assms(2) by (simp add: distinct_map)
    show "distinct (map fst (sort_key fst raw))" using assms(2) by (simp add: distinct_map)
  qed (use same sorted_claim_keys in \<open>simp_all add: claim_pairs_keys\<close>)
  ultimately show ?thesis by (simp add: claims_json_def)
qed

text \<open>
  C12. A token that is accepted is authentic and the only one of its claims. It is the signature,
  under the secret of the verifier, of the canonical text of exactly the claims that are returned,
  both in canonical base64; these name the audience and the profile of the verifier and a
  well-formed session, are valid for at most five minutes, and are valid now.
\<close>

theorem accepted_token_is_authentic:
  assumes "verify hmac loads v clock token = Inr c"
  shows "token = signed_token hmac (sv_secret v) (ascii_json (claims_json c)) \<and>
    sc_audience c = sv_audience v \<and> sc_profile c = sv_profile v \<and>
    validated_identifier (sc_session_id c) = Inr (sc_session_id c) \<and> sc_expires_at c - sc_issued_at c \<le> 300 \<and>
    (\<exists>now. clock = ClockReads now \<and> sc_issued_at c \<le> now \<and> now < sc_expires_at c)"
proof -
  from assms obtain now p s payload raw where clock: "clock_seconds clock = Inr now"
      and token: "split_token token = Inr (p, s)" and payload: "decode_base64url None (Some 1024) p = Some payload"
      and mac: "decode_base64url (Some 32) None s = Some (hmac (sv_secret v) (signing_input p))"
      and raw: "load_claims loads payload = Inr raw" and c: "verify_claims v raw now = Inr c"
    by (auto simp: verify_def result_simps or_invalid_def split: prod.splits option.splits)
  from raw have loaded: "distinct (map fst raw)" "ascii_json (JObj raw) = payload"
    by (auto simp: load_claims_def split: option.splits json.splits if_splits)
  have "sort_keys (JObj raw) = claims_json c" by (rule loaded_claims_sorted [OF c loaded(1)])
  then have body: "payload = ascii_json (claims_json c)"
    using loaded(2) by (simp add: ascii_json_def sort_keys_claims del: sort_keys.simps)
  have "token = signed_token hmac (sv_secret v) payload"
    using split_token_join [OF token] decode_base64url_canonical [OF payload] decode_base64url_canonical [OF mac]
    by (simp add: signed_token_def)
  moreover have "clock = ClockReads now"
    using clock by (auto simp: clock_seconds_def split: clock_value.splits if_splits)
  ultimately show ?thesis using verified_claims(10-15) [OF c] by (simp add: body)
qed

section \<open>A credential\<close>

definition sample_secret :: string where
  "sample_secret = ''test-session-signing-secret-32b!''"

definition sample_hmac :: "string \<Rightarrow> string \<Rightarrow> string" where
  "sample_hmac secret m = take 32 (secret @ m)"

definition sample_claims :: session_claims where
  "sample_claims = \<lparr>sc_session_id = ''session-a'', sc_profile = ''fixture'', sc_audience = ''specpilot-api'',
    sc_nonce = encode_base64url ''0123456789abcdef'', sc_issued_at = 1786521600, sc_expires_at = 1786521900\<rparr>"

definition sample_loads :: "string \<Rightarrow> json option" where
  "sample_loads p = (if p = ascii_json (claims_json sample_claims) then Some (claims_json sample_claims) else None)"

definition sample_issuer :: session_issuer where
  "sample_issuer = \<lparr>si_secret = sample_secret, si_audience = ''specpilot-api''\<rparr>"

definition sample_verifier :: session_verifier where
  "sample_verifier = \<lparr>sv_secret = sample_secret, sv_audience = ''specpilot-api'', sv_profile = ''fixture''\<rparr>"

lemma sample_constructed:
  "new_issuer sample_secret ''specpilot-api'' = Inr sample_issuer"
  "new_verifier sample_secret ''specpilot-api'' ''fixture'' = Inr sample_verifier"
  by code_simp+

lemma length_sample_hmac: "length (sample_hmac sample_secret m) = 32"
  by (simp add: sample_hmac_def sample_secret_def)

lemma sample_minted:
  obtains token where
    "issue sample_hmac sample_issuer (ClockReads 1786521600) ''0123456789abcdef'' ''session-a'' ''fixture'' 300 = Inr token"
proof -
  have "validated_identifier ''session-a'' = Inr ''session-a''" "validated_identifier ''fixture'' = Inr ''fixture''"
    by code_simp+
  then show ?thesis using that by (simp add: issue_def clock_seconds_def validated_ttl_def max_timestamp_def)
qed

theorem issued_token_lives_witness:
  "\<exists>token. verify sample_hmac sample_loads sample_verifier (ClockReads 1786521899) token = Inr sample_claims"
proof (rule sample_minted)
  fix token
  assume "issue sample_hmac sample_issuer (ClockReads 1786521600) ''0123456789abcdef'' ''session-a'' ''fixture'' 300 = Inr token"
  from issued_token_lives [OF sample_constructed this _ length_sample_hmac, of sample_claims sample_loads 1786521899]
  show ?thesis by (auto simp: sample_claims_def sample_loads_def max_timestamp_def)
qed

definition sample_token :: string where
  "sample_token = signed_token sample_hmac (sv_secret sample_verifier) (ascii_json (claims_json sample_claims))"

lemma sample_verified:
  "verify sample_hmac sample_loads sample_verifier (ClockReads 1786521600) sample_token = Inr sample_claims"
proof -
  have ok: "claims_ok sample_claims" by code_simp
  have "verify sample_hmac sample_loads sample_verifier (ClockReads 1786521600) sample_token =
    verify_claims sample_verifier (claim_pairs sample_claims) 1786521600"
    unfolding sample_token_def by (rule verify_signed [OF ok])
      (simp_all add: sample_verifier_def length_sample_hmac sample_loads_def max_timestamp_def)
  then show ?thesis
    using verify_minted_claims [OF ok, of sample_verifier "''0123456789abcdef''" 1786521600]
    by (simp add: sample_claims_def sample_verifier_def)
qed

theorem accepted_token_is_authentic_witness:
  "sc_expires_at sample_claims - sc_issued_at sample_claims \<le> 300 \<and> sc_audience sample_claims = sv_audience sample_verifier"
  using accepted_token_is_authentic [OF sample_verified] by blast

end
