(* ===== verification/ApiTheorems.thy ===== *)
theory ApiTheorems
  imports ApiService RunTheorems SessionTheorems
begin

text \<open>
  What the HTTP boundary of \<open>api/app.py\<close> promises while other requests, the worker and
  housekeeping go on: accepted questions are stored for their owner and delivered, refused ones
  give back the queue capacity they held, and nobody learns of a run of another session.
\<close>

section \<open>What others may do\<close>

text \<open>Commands that do not use the permit of this request.\<close>

definition foreign :: "nat \<Rightarrow> 'j queue_command \<Rightarrow> bool" where
  "foreign p c \<longleftrightarrow> (\<forall>job. c \<noteq> DeliverTo p job) \<and> c \<noteq> CancelPermit p"

definition interferes :: "(string \<Rightarrow> string) \<Rightarrow> nat \<Rightarrow> 'j api_state \<Rightarrow> 'j api_state \<Rightarrow> bool" where
  "interferes sha256 p st st' \<longleftrightarrow> (store_step sha256)\<^sup>*\<^sup>* (as_tables st) (as_tables st') \<and>
     (\<exists>cs. list_all (foreign p) cs \<and> as_queue st' = snd (queue_run cs (as_queue st)))"

definition holds_permit :: "'j worker_queue \<Rightarrow> nat \<Rightarrow> bool" where
  "holds_permit q p \<longleftrightarrow> p < length (wq_permit_states q) \<and> wq_permit_states q ! p = PermitReserved"

lemma holds_permit_state: "holds_permit q p \<longleftrightarrow> state_of_permit q p = PermitReserved"
  by (simp add: holds_permit_def state_of_permit_def)

lemma holds_permit_set [simp]: "p \<noteq> p' \<Longrightarrow> holds_permit (set_permit_state p' s q) p = holds_permit q p"
  by (simp add: holds_permit_def set_permit_state_def)

lemma holds_permit_release [simp]: "holds_permit (release_permit p' q) p = holds_permit q p"
  by (simp add: holds_permit_def)

lemma reserve_holds: "reserve_permit q = (r, q') \<Longrightarrow>
    (case r of Inl _ \<Rightarrow> q' = q | Inr p \<Rightarrow> holds_permit q' p \<and> (\<forall>p'. holds_permit q p' \<longrightarrow> p' \<noteq> p \<and> holds_permit q' p'))"
  by (auto simp: reserve_permit_def acquire_nowait_def Let_def holds_permit_def nth_append split: if_splits option.splits)

lemma deliver_holds: "deliver p' job q = (r, q') \<Longrightarrow> p' \<noteq> p \<Longrightarrow> holds_permit q p \<Longrightarrow> holds_permit q' p"
  by (auto simp: deliver_def deliver_permit_def holds_permit_def set_permit_state_def split: if_splits)

lemma cancel_holds: "p' \<noteq> p \<Longrightarrow> holds_permit q p \<Longrightarrow> holds_permit (cancel_permit p' q) p"
  by (simp add: cancel_permit_def)

lemma submit_holds:
  assumes "submit job q = (r, q')" "holds_permit q p"
  shows "holds_permit q' p"
proof (cases "reserve_permit q")
  case (Pair granted q1)
  note reserved = reserve_holds [OF this]
  show ?thesis
  proof (cases granted)
    case (Inl e)
    with assms Pair reserved show ?thesis by (simp add: submit_def)
  next
    case (Inr p')
    obtain d q2 where d: "deliver p' job q1 = (d, q2)" by fastforce
    have "p' \<noteq> p" "holds_permit q1 p" using reserved assms(2) Inr by auto
    with deliver_holds [OF d] have "holds_permit q2 p" "holds_permit (cancel_permit p' q2) p"
      by (simp_all add: cancel_holds)
    with assms(1) Pair Inr d show ?thesis by (auto simp: submit_def split: sum.splits)
  qed
qed

lemma foreign_step_holds:
  assumes "queue_step c q = (r, q')" "foreign p c" "holds_permit q p"
  shows "holds_permit q' p"
proof (cases c)
  case ReservePermit
  with assms show ?thesis by (auto split: prod.splits sum.splits dest!: reserve_holds)
next
  case (DeliverTo p' job)
  with assms show ?thesis by (auto simp: foreign_def split: prod.splits intro: deliver_holds)
next
  case (CancelPermit p')
  with assms show ?thesis by (auto simp: foreign_def cancel_holds)
next
  case (Submit job)
  with assms show ?thesis by (auto split: prod.splits dest: submit_holds)
qed (use assms in \<open>auto simp: start_worker_def consume_def close_sending_def close_finished_def holds_permit_def
    split: list.splits if_splits prod.splits\<close>)

lemma foreign_run_holds: "list_all (foreign p) cs \<Longrightarrow> holds_permit q p \<Longrightarrow> holds_permit (snd (queue_run cs q)) p"
proof (induction cs arbitrary: q)
  case (Cons c cs)
  obtain r q1 where step: "queue_step c q = (r, q1)" by fastforce
  with Cons.prems have "holds_permit (snd (queue_run cs q1)) p" by (intro Cons.IH foreign_step_holds [OF step]) simp_all
  with step show ?case by (cases "queue_run cs q1") simp
qed simp

lemma interferes_holds: "interferes sha256 p st st' \<Longrightarrow> holds_permit (as_queue st) p \<Longrightarrow> holds_permit (as_queue st') p"
  by (auto simp: interferes_def foreign_run_holds)

lemma cancelled_permit:
  "holds_permit q p \<Longrightarrow> state_of_permit (cancel_permit p q) p = PermitCancelled \<and> p \<notin> wq_permits (cancel_permit p q)"
  by (auto simp: cancel_permit_def holds_permit_state state_of_permit_def set_permit_state_def split: if_splits)

lemma delivered_permit:
  "deliver p job q = (Inr u, q') \<Longrightarrow>
    wq_stream q' = wq_stream q @ [(p, job)] \<and> state_of_permit q' p = PermitDelivered"
  by (auto simp: deliver_def deliver_permit_def state_of_permit_def set_permit_state_def split: if_splits)

lemma undelivered_queue: "deliver p job q = (Inl e, q') \<Longrightarrow> q' = q"
  by (auto simp: deliver_def deliver_permit_def split: if_splits)

section \<open>Creating the run\<close>

lemma interferes_extends:
  assumes "interferes sha256 p st st'" "run_store_ok (as_tables st)"
  shows "run_store_ok (as_tables st') \<and> extends (as_tables st) (as_tables st')"
  using assms store_steps_keep by (auto simp: interferes_def)

lemma queued_run_simps:
  "rn_run_id (queued_run run now lease) = rn_run_id run" "rn_status (queued_run run now lease) = Queued"
  "rn_session_id (queued_run run now lease) = rn_session_id run" "rn_query_hash (queued_run run now lease) = rn_query_hash run"
  "rn_source_manifest_id (queued_run run now lease) = rn_source_manifest_id run"
  "rn_corpus_manifest_id (queued_run run now lease) = rn_corpus_manifest_id run"
  by (simp_all add: queued_run_def)

lemma created_run:
  assumes "create_run fault clock lease run db = (Inr stored, db')" "run_store_ok db"
  obtains now where "clock = Some now" "find_run db' (rn_run_id run) = Some (queued_run run now lease)"
    "run_record_valid (queued_run run now lease)"
    "events_of db' (rn_run_id run) = [\<lparr>re_sequence = 1, re_body = StateTransition None Queued None\<rparr>]"
  using assms(1)
proof (cases rule: create_run_cases)
  case kept
  from assms(1) have "length (tb_runs db') = Suc (length (tb_runs db))"
    by (auto simp: create_run_def run_transact_def Let_def insert_run_def insert_event_def bind_result_Inr
        split: option.splits if_splits fault.splits sum.splits)
  with kept show ?thesis by simp
next
  case (created now)
  from assms(2) have "\<forall>e \<in> set (tb_events db). er_row_run_id e \<in> rn_run_id ` set (tb_runs db)"
    by (simp add: run_store_ok_def)
  with created(3) have none: "filter (\<lambda>e. er_row_run_id e = rn_run_id run) (tb_events db) = []"
    unfolding filter_empty_conv by metis
  have "find (\<lambda>r. rn_run_id r = i) (xs @ [x]) = Some x" if "i \<notin> rn_run_id ` set xs" "rn_run_id x = i" for xs x i
    using that by (induction xs) auto
  from this [OF created(3), of "queued_run run now lease"]
  have "find_run db' (rn_run_id run) = Some (queued_run run now lease)"
    by (simp add: created(5) find_run_def queued_run_simps)
  moreover have "events_of db' (rn_run_id run) = [\<lparr>re_sequence = 1, re_body = StateTransition None Queued None\<rparr>]"
    using none by (simp add: created(5) events_of_def)
  ultimately show ?thesis using that created(1,2) by blast
qed

lemma refused_create:
  "create_run fault clock lease run db = (Inl e, db') \<Longrightarrow> fault \<noteq> CommitDrops True \<Longrightarrow> db' = db"
  by (auto simp: create_run_def run_transact_def Let_def split: option.splits if_splits fault.splits sum.splits)

text \<open>The bindings of a run that nothing changes.\<close>

lemma run_bindings:
  assumes "evolves\<^sup>*\<^sup>* r r'"
  shows "rn_session_id r' = rn_session_id r" "rn_query_hash r' = rn_query_hash r"
    "rn_source_manifest_id r' = rn_source_manifest_id r" "rn_corpus_manifest_id r' = rn_corpus_manifest_id r"
proof -
  have state: "r' = with_state_of r r'" using evolves_star [OF assms] by blast
  show "rn_session_id r' = rn_session_id r" "rn_query_hash r' = rn_query_hash r"
    "rn_source_manifest_id r' = rn_source_manifest_id r" "rn_corpus_manifest_id r' = rn_corpus_manifest_id r"
    by (subst state, simp add: with_state_of_def)+
qed

lemma authenticate_Inl: "authenticate y p = Inl reply \<Longrightarrow> \<exists>code. reply = HttpError 401 code"
  by (auto simp: authenticate_def api_credential_def bind_result_Inl split: option.splits if_splits sum.splits)

section \<open>Accepted questions\<close>

definition fresh_permit :: "'j api_state \<Rightarrow> nat \<Rightarrow> bool" where
  "fresh_permit st p \<longleftrightarrow> (\<exists>q. reserve_permit (as_queue st) = (Inr p, q))"

text \<open>What others may do to a chat request: anything but use its permit, or its new identifier.\<close>

definition chat_rely :: "(string \<Rightarrow> string) \<Rightarrow> 'j chat_env \<Rightarrow> 'j api_state \<Rightarrow> bool" where
  "chat_rely sha256 env st \<longleftrightarrow>
     (\<forall>p n s. fresh_permit st p \<longrightarrow> interferes sha256 p s (ce_others env n s)) \<and>
     (\<forall>n s. find_run (as_tables s) (ce_run_id env) = None \<longrightarrow> find_run (as_tables (ce_others env n s)) (ce_run_id env) = None)"

lemma chat_body_Inr:
  assumes "chat_body env run p st = (Inr u, st')"
    and rely: "\<And>n s. interferes sha256 p s (ce_others env n s)" and ok: "run_store_ok (as_tables st)"
    and run: "rn_run_id run = ce_run_id env" and held: "holds_permit (as_queue st) p"
  obtains job r es now where "ce_job env = Built job"
    "find_run (as_tables st') (ce_run_id env) = Some r" "evolves\<^sup>*\<^sup>* (queued_run run now (ce_queue_lease env)) r"
    "events_of (as_tables st') (ce_run_id env) = \<lparr>re_sequence = 1, re_body = StateTransition None Queued None\<rparr> # es"
    "wq_stream (as_queue st') = butlast (wq_stream (as_queue st')) @ [(p, job)]"
    "state_of_permit (as_queue st') p = PermitDelivered"
proof -
  let ?st0 = "ce_others env 0 st"
  from assms(1) obtain stored db job q u' where create: "create_run (ce_create_fault env) (ce_create_clock env)
      (ce_queue_lease env) run (as_tables ?st0) = (Inr stored, db)" and job: "ce_job env = Built job"
    and deliver: "deliver p job (as_queue (ce_others env 1 (?st0\<lparr>as_tables := db\<rparr>))) = (Inr u', q)"
    and st': "st' = (ce_others env 1 (?st0\<lparr>as_tables := db\<rparr>))\<lparr>as_queue := q\<rparr>"
    by (auto simp: chat_body_def Let_def split: if_splits prod.splits sum.splits built.splits)
  let ?st1 = "?st0\<lparr>as_tables := db\<rparr>"
  have ok0: "run_store_ok (as_tables ?st0)" using interferes_extends [OF rely ok] by blast
  obtain now where created: "find_run db (ce_run_id env) = Some (queued_run run now (ce_queue_lease env))"
      "events_of db (ce_run_id env) = [\<lparr>re_sequence = 1, re_body = StateTransition None Queued None\<rparr>]"
    using created_run [OF create ok0] unfolding run by metis
  have "run_store_ok db" using create_run_ok [OF create ok0] .
  then have "extends db (as_tables (ce_others env 1 ?st1))"
    using interferes_extends [OF rely [of ?st1 1]] by simp
  with created obtain r es where "find_run (as_tables st') (ce_run_id env) = Some r"
      "evolves\<^sup>*\<^sup>* (queued_run run now (ce_queue_lease env)) r"
      "events_of (as_tables st') (ce_run_id env) = \<lparr>re_sequence = 1, re_body = StateTransition None Queued None\<rparr> # es"
    unfolding extends_def st' by fastforce
  moreover from delivered_permit [OF deliver]
  have "wq_stream (as_queue st') = butlast (wq_stream (as_queue st')) @ [(p, job)]"
    "state_of_permit (as_queue st') p = PermitDelivered" by (simp_all add: st')
  ultimately show ?thesis using that job by blast
qed

text \<open>
  C13. An accepted question is stored for its owner and delivered. When \<open>/chat\<close> answers with a run,
  the credential was one the verifier accepts; the store holds that run, bound to the session of the
  credential, to the hash of the question and to the manifests of this service, with a trace that
  begins with its queueing; and its job is the last of the queue, under a permit that was reserved
  before the row was written. Other requests, workers and housekeeping may run all the while.
\<close>

theorem accepted_chat_is_stored_and_delivered:
  assumes "chat_rely (ay_sha256 y) env st" "run_store_ok (as_tables st)"
    and "chat y b env pd request st = (ChatAccepted i, st')"
  shows "\<exists>session r job stored es p. authenticate y pd = Inr session \<and> parsed_chat request = Some r \<and> fresh_permit st p \<and>
    ce_job env = Built job \<and> find_run (as_tables st') i = Some stored \<and> rn_session_id stored = sc_session_id session \<and>
    rn_query_hash stored = ay_sha256 y (cq_question r) \<and> rn_source_manifest_id stored = ab_source_manifest_id b \<and>
    rn_corpus_manifest_id stored = ab_corpus_manifest_id b \<and>
    re_body (hd (events_of (as_tables st') i)) = StateTransition None Queued None \<and>
    wq_stream (as_queue st') = butlast (wq_stream (as_queue st')) @ [(p, job)] \<and>
    state_of_permit (as_queue st') p = PermitDelivered"
proof -
  from assms(3) obtain session r p q u where session: "authenticate y pd = Inr session" and r: "parsed_chat request = Some r"
    and reserve: "reserve_permit (as_queue st) = (Inr p, q)" and i: "i = ce_run_id env"
    and body: "chat_body env (new_run (ay_sha256 y) (ce_run_id env) (ce_now env) r session b) p (st\<lparr>as_queue := q\<rparr>) = (Inr u, st')"
    by (auto simp: chat_def chat_cleanup_def service_unavailable_def Let_def
        split: sum.splits option.splits if_splits prod.splits dest!: authenticate_Inl)
  let ?run = "new_run (ay_sha256 y) (ce_run_id env) (ce_now env) r session b"
  have fresh: "fresh_permit st p" using reserve by (simp add: fresh_permit_def)
  have run: "rn_run_id ?run = ce_run_id env" by (simp add: new_run_def Let_def)
  have rely: "interferes (ay_sha256 y) p s (ce_others env n s)" for n s using assms(1) fresh by (simp add: chat_rely_def)
  have ok: "run_store_ok (as_tables (st\<lparr>as_queue := q\<rparr>))" using assms(2) by simp
  have held: "holds_permit (as_queue (st\<lparr>as_queue := q\<rparr>)) p" using reserve_holds [OF reserve] by simp
  obtain job stored es now where "ce_job env = Built job" "find_run (as_tables st') (ce_run_id env) = Some stored"
      "evolves\<^sup>*\<^sup>* (queued_run ?run now (ce_queue_lease env)) stored"
      "events_of (as_tables st') (ce_run_id env) = \<lparr>re_sequence = 1, re_body = StateTransition None Queued None\<rparr> # es"
      "wq_stream (as_queue st') = butlast (wq_stream (as_queue st')) @ [(p, job)]"
      "state_of_permit (as_queue st') p = PermitDelivered"
    by (rule chat_body_Inr [OF body rely ok run held])
  with run_bindings [OF this(3)] session r fresh show ?thesis
    unfolding i by (auto simp: queued_run_simps new_run_def Let_def)
qed


section \<open>Refused questions\<close>

lemma chat_body_Inl:
  assumes "chat_body env run p st = (Inl stop, st')" and rely: "\<And>n s. interferes sha256 p s (ce_others env n s)"
    and held: "holds_permit (as_queue st) p"
  shows "holds_permit (as_queue st') p"
proof -
  have "holds_permit (as_queue (ce_others env 0 st)) p" using interferes_holds [OF rely held] .
  then have "holds_permit (as_queue (ce_others env 1 ((ce_others env 0 st)\<lparr>as_tables := db\<rparr>))) p" for db
    by (intro interferes_holds [OF rely]) simp
  with \<open>holds_permit (as_queue (ce_others env 0 st)) p\<close> held assms(1) show ?thesis
    by (auto simp: chat_body_def Let_def split: if_splits prod.splits sum.splits built.splits dest!: undelivered_queue)
qed

lemma chat_cleanup_cancels:
  assumes "chat_cleanup env stop p st = (reply, st')" and rely: "\<And>n s. interferes sha256 p s (ce_others env n s)"
    and held: "holds_permit (as_queue st) p"
  shows "state_of_permit (as_queue st') p = PermitCancelled \<and> p \<notin> wq_permits (as_queue st')"
proof -
  have "holds_permit (as_queue (finish_failed_delivery env st)) p"
    using interferes_holds [OF rely held] by (simp add: finish_failed_delivery_def Let_def)
  then have "holds_permit (as_queue (ce_others env 3 (if created then finish_failed_delivery env st else st))) p" for created
    using held by (intro interferes_holds [OF rely]) simp
  from cancelled_permit [OF this [of "fst stop"]] assms(1) show ?thesis
    by (cases stop) (auto simp: chat_cleanup_def Let_def)
qed

text \<open>
  C15. A question that is not accepted keeps no place in the queue. Whatever the reply is, and
  whether the request was refused, failed in the store, in building the job or in delivering it, or
  was cancelled, the queue is as it was or the permit that the request reserved is cancelled and
  the slot it held is free again.
\<close>

theorem refused_chat_gives_back_its_place:
  assumes "chat_rely (ay_sha256 y) env st" "chat y b env pd request st = (reply, st')"
    and "\<And>i. reply \<noteq> ChatAccepted i"
  shows "as_queue st' = as_queue st \<or>
    (\<exists>p. fresh_permit st p \<and> state_of_permit (as_queue st') p = PermitCancelled \<and> p \<notin> wq_permits (as_queue st'))"
proof (cases "as_queue st' = as_queue st")
  case False
  with assms(2,3) obtain run p q stop st1 where reserve: "reserve_permit (as_queue st) = (Inr p, q)"
    and body: "chat_body env run p (st\<lparr>as_queue := q\<rparr>) = (Inl stop, st1)"
    and cleanup: "chat_cleanup env stop p st1 = (reply, st')"
    by (auto simp: chat_def split: sum.splits option.splits if_splits prod.splits dest!: reserve_holds)
  have fresh: "fresh_permit st p" using reserve by (simp add: fresh_permit_def)
  then have rely: "interferes (ay_sha256 y) p s (ce_others env n s)" for n s using assms(1) by (simp add: chat_rely_def)
  have "holds_permit (as_queue st1) p"
    using chat_body_Inl [OF body rely] reserve_holds [OF reserve] by simp
  from chat_cleanup_cancels [OF cleanup rely this] fresh show ?thesis by blast
qed simp

section \<open>Runs of others\<close>

lemma foreign_read:
  assumes "find_run db i = Some r" "rn_session_id r \<noteq> session"
  shows "read_owned fault clock i session db = (if trace_identifier session \<and> fault = NoFault then Inr None
    else Inl (if trace_identifier session then RunStoreUnavailable else RunStoreValidationError))"
  using assms by (simp add: read_owned_def)

lemma missing_read:
  assumes "find_run db i = None"
  shows "read_owned fault clock i session db = (if trace_identifier session \<and> fault = NoFault then Inr None
    else Inl (if trace_identifier session then RunStoreUnavailable else RunStoreValidationError))"
  using assms by (simp add: read_owned_def)

lemma denied_resume:
  assumes "resume_checks db i session query (sha256 key) binding = Inl denied"
  shows "begin_resume sha256 fault clock i session query key owner seconds binding db =
    (if seconds \<le> 0 \<or> key = [] \<or> clock = None then (Inl RunStoreValidationError, db)
     else (if fault = NoFault then Inr denied else Inl RunStoreUnavailable, db))"
  using assms by (auto simp: begin_resume_def run_transact_def split: option.splits fault.splits)

text \<open>
  C14. Runs of another session are hidden. With a credential of one session, reading or resuming a
  run of another gets the very reply that a service in which no such run exists would give, whatever
  the store answers, and changes nothing.
\<close>

theorem foreign_runs_are_hidden:
  assumes "authenticate y pd = Inr session" "find_run (as_tables st) i = Some r" "rn_session_id r \<noteq> sc_session_id session"
    and "find_run (as_tables without) i = None"
  shows "read_run y fault clock pd i st = read_run y fault clock pd i without \<and>
    fst (resume_run y b env pd i request st) = fst (resume_run y b env pd i request without) \<and>
    snd (resume_run y b env pd i request st) = st"
proof -
  let ?session = "sc_session_id session"
  have "resume_checks (as_tables st) i ?session query key binding = Inl (NotOwner, None)" for query key binding
    using assms(2,3) by (simp add: resume_checks_def)
  note foreign = denied_resume [OF this]
  have "resume_checks (as_tables without) i ?session query key binding = Inl (ResumeNotFound, None)" for query key binding
    using assms(4) by (simp add: resume_checks_def)
  note missing = denied_resume [OF this]
  show ?thesis
    using assms(1) by (simp add: read_run_def resume_run_def foreign missing foreign_read [OF assms(2,3)]
        missing_read [OF assms(4)] Let_def split: option.split)
qed


section \<open>Undelivered runs\<close>

lemma evolves_queued:
  assumes "evolves\<^sup>*\<^sup>* r r'" "rn_status r' = Queued"
  shows "r' = r"
  using assms
proof (induction rule: rtranclp_induct)
  case (step x z)
  then have "z = x" unfolding evolves_def by metis
  with step show ?case by simp
qed simp

lemma extends_not_queued:
  assumes "extends db db'" "find_run db i = Some r" "rn_status r \<noteq> Queued"
  shows "\<exists>r'. find_run db' i = Some r' \<and> rn_status r' \<noteq> Queued"
  using assms evolves_star unfolding extends_def by metis

lemma find_run_ended:
  assumes "find_run db i = Some r" "rn_run_id x = i"
  shows "find_run (db\<lparr>tb_runs := map (\<lambda>y. if rn_run_id y = rn_run_id x then x else y) (tb_runs db)\<rparr>) i = Some x"
proof -
  have "find (\<lambda>y. rn_run_id y = i) (map (\<lambda>y. if rn_run_id y = i then x else y) rs) = Some x"
    if "find (\<lambda>y. rn_run_id y = i) rs = Some r" for rs
    using that assms(2) by (induction rs) (auto split: if_splits)
  with assms show ?thesis by (simp add: find_run_def)
qed

lemma failed_delivery_row:
  assumes ok: "run_store_ok db" and found: "find_run db i = Some (queued_run run now lease)"
    and t: "now \<le> t" "t < now + lease" and room: "length (events_of db i) < 10000"
  shows "find_run (snd (fail_delivery NoFault (Some t) i
      \<lparr>re_sequence = 1, re_body = TerminalEvent Interrupted (Some ''queue_delivery_failed'')\<rparr> db)) i =
    Some (ended_run (queued_run run now lease) Interrupted (Some ''queue_delivery_failed'') t)"
proof -
  let ?q = "queued_run run now lease" and ?reason = "Some ''queue_delivery_failed''"
  let ?body = "TerminalEvent Interrupted ?reason" and ?n = "next_sequence db i"
  from ok find_run_Some [OF found] have r: "run_record_valid ?q" "trace_ok (events_of db i)" "rn_run_id ?q = i"
    by (auto simp: run_store_ok_def run_ok_def)
  have lease: "rn_status ?q = Queued" "rn_lease_owner ?q = Some queue_lease_owner" "rn_lease_expires_at ?q = Some (now + lease)"
    by (simp_all add: queued_run_def)
  have words: "terminal_reason ''queue_delivery_failed''" "trace_identifier queue_lease_owner" by code_simp+
  have n: "?n = Suc (length (events_of db i))" using next_sequence_trace [OF r(2)] .
  have "re_sequence ` set (events_of db i) = {1..<Suc (length (events_of db i))}"
    using r(2) unfolding trace_ok_def by (metis list.set_map set_upt)
  with n room words have event: "insert_event i \<lparr>re_sequence = ?n, re_body = ?body\<rparr> t db =
      Inr (db\<lparr>tb_events := tb_events db @ [\<lparr>er_row_run_id = i, er_row_event = \<lparr>re_sequence = ?n, re_body = ?body\<rparr>, er_row_recorded_at = t\<rparr>]\<rparr>)"
    using found by (simp add: insert_event_def event_valid_def optional_def status_is_terminal_def is_nonterminal_def)
  have "run_row_ok (ended_run ?q Interrupted ?reason t)"
    using r(1) t words by (simp add: run_record_valid_def run_row_ok_def run_fields_valid_def state_and_lease_agree_def
        timestamps_agree_def activity_floor_def level_bindings_agree_def is_nonterminal_def optional_def ended_run_def queued_run_def split: if_splits option.splits)
  moreover have "find_run (db\<lparr>tb_events := es\<rparr>) = find_run db" for es by (simp add: find_run_def fun_eq_iff)
  then have "find_run (db\<lparr>tb_events := es, tb_runs := map (\<lambda>y. if rn_run_id y = rn_run_id (ended_run ?q Interrupted ?reason t)
      then ended_run ?q Interrupted ?reason t else y) (tb_runs db)\<rparr>) i = Some (ended_run ?q Interrupted ?reason t)" for es
    using find_run_ended [of "db\<lparr>tb_events := es\<rparr>" i ?q "ended_run ?q Interrupted ?reason t"] found r(3)
    by (simp add: ended_run_def)
  ultimately show ?thesis
    using event found t words
    by (simp add: fail_delivery_def complete_run_def run_transact_def update_run_def event_valid_def optional_def
        status_is_terminal_def lease_expired_def lease is_nonterminal_def)
qed
text \<open>What the cleanup leaves of a created run: it is there, and no longer waits in the queue.\<close>

lemma finish_failed_delivery_keeps:
  assumes "\<And>n s. interferes sha256 p s (ce_others env n s)" and "run_store_ok (as_tables st)"
  shows "run_store_ok (as_tables (finish_failed_delivery env st)) \<and>
    extends (as_tables st) (as_tables (finish_failed_delivery env st))"
proof -
  have grown: "run_store_ok (as_tables (ce_others env 2 st))" "extends (as_tables st) (as_tables (ce_others env 2 st))"
    using interferes_extends [OF assms] by blast+
  show ?thesis
    using store_step_keeps [OF Undelivers [OF prod.collapse [symmetric]] grown(1)] extends_trans [OF grown(2)]
    by (auto simp: finish_failed_delivery_def Let_def)
qed

lemma finish_failed_delivery_ends:
  assumes rely: "\<And>n s. interferes sha256 p s (ce_others env n s)"
    and ok: "run_store_ok (as_tables st)" and found: "find_run (as_tables st) (ce_run_id env) = Some r"
    and r: "evolves\<^sup>*\<^sup>* (queued_run run now (ce_queue_lease env)) r"
    and store: "ce_fail_fault env = NoFault" "ce_fail_clock env = Some t" "now \<le> t" "t < now + ce_queue_lease env"
    and room: "length (events_of (as_tables (finish_failed_delivery env st)) (ce_run_id env)) < 10000"
  shows "run_store_ok (as_tables (finish_failed_delivery env st)) \<and>
    (\<exists>r'. find_run (as_tables (finish_failed_delivery env st)) (ce_run_id env) = Some r' \<and> rn_status r' \<noteq> Queued)"
proof -
  let ?i = "ce_run_id env" and ?e = "\<lparr>re_sequence = 1, re_body = TerminalEvent Interrupted (Some ''queue_delivery_failed'')\<rparr>"
  let ?db = "as_tables (ce_others env 2 st)"
  obtain result db' where failed: "fail_delivery NoFault (Some t) ?i ?e ?db = (result, db')" by fastforce
  have st': "as_tables (finish_failed_delivery env st) = db'" using failed by (simp add: finish_failed_delivery_def Let_def store)
  have grown: "run_store_ok ?db" "extends (as_tables st) ?db" using interferes_extends [OF rely ok] by blast+
  have ended: "run_store_ok db'" "extends ?db db'"
    using store_step_keeps [OF Undelivers [OF failed] grown(1)] by blast+
  from grown(2) found obtain r1 where r1: "find_run ?db ?i = Some r1" "evolves\<^sup>*\<^sup>* r r1" unfolding extends_def by metis
  have "\<exists>r'. find_run db' ?i = Some r' \<and> rn_status r' \<noteq> Queued"
  proof (cases "rn_status r1 = Queued")
    case True
    have "r1 = queued_run run now (ce_queue_lease env)" using evolves_queued [OF rtranclp_trans [OF r r1(2)] True] .
    moreover have "length (events_of ?db ?i) < 10000"
      using ended(2) r1(1) room unfolding extends_def st' by fastforce
    ultimately show ?thesis
      using failed_delivery_row [OF grown(1) _ store(3,4), of ?i run] r1(1) failed by (auto simp: ended_run_def)
  qed (rule extends_not_queued [OF ended(2) r1(1)])
  with ended(1) show ?thesis by (simp add: st')
qed

text \<open>What a failed request has done to the store before its cleanup.\<close>

lemma chat_body_tables:
  assumes "chat_body env run p st = (Inl (created, ordinary), st')" and rely: "\<And>n s. interferes sha256 p s (ce_others env n s)"
    and missing: "\<And>n s. find_run (as_tables s) (ce_run_id env) = None \<Longrightarrow> find_run (as_tables (ce_others env n s)) (ce_run_id env) = None"
    and ok: "run_store_ok (as_tables st)" and fresh: "find_run (as_tables st) (ce_run_id env) = None"
    and run: "rn_run_id run = ce_run_id env" and fault: "ce_create_fault env \<noteq> CommitDrops True"
  shows "if created then run_store_ok (as_tables st') \<and> (\<exists>r now. ce_create_clock env = Some now \<and>
      find_run (as_tables st') (ce_run_id env) = Some r \<and> evolves\<^sup>*\<^sup>* (queued_run run now (ce_queue_lease env)) r)
    else find_run (as_tables st') (ce_run_id env) = None"
proof (cases created)
  case False
  with assms(1) missing [OF fresh] fault fresh show ?thesis
    by (auto simp: chat_body_def Let_def split: if_splits prod.splits sum.splits built.splits dest!: refused_create)
next
  case True
  let ?st0 = "ce_others env 0 st"
  from assms(1) True obtain stored db where create: "create_run (ce_create_fault env) (ce_create_clock env)
      (ce_queue_lease env) run (as_tables ?st0) = (Inr stored, db)"
    and st': "as_tables st' = db \<or> as_tables st' = as_tables (ce_others env 1 (?st0\<lparr>as_tables := db\<rparr>))"
    by (auto simp: chat_body_def Let_def split: if_splits prod.splits sum.splits built.splits)
  have ok0: "run_store_ok (as_tables ?st0)" using interferes_extends [OF rely ok] by blast
  have db: "run_store_ok db" using create_run_ok [OF create ok0] .
  obtain now where created: "ce_create_clock env = Some now"
      "find_run db (ce_run_id env) = Some (queued_run run now (ce_queue_lease env))"
    using created_run [OF create ok0] unfolding run by metis
  from interferes_extends [OF rely [of "?st0\<lparr>as_tables := db\<rparr>" 1]] db st'
  have "run_store_ok (as_tables st')" "extends db (as_tables st')" by auto
  with True created show ?thesis unfolding extends_def by auto
qed

text \<open>
  C16. A question that is not accepted leaves no queued run. If the identifier is new, the store
  reports what it commits, and the cleanup of a created run reaches the store before the delivery
  lease runs out and while its trace has room, then after any reply other than acceptance there is
  no run under the identifier or it no longer waits for a delivery that will not come, whatever
  others did in between.
\<close>

theorem refused_chat_leaves_no_queued_run:
  assumes "chat_rely (ay_sha256 y) env st" "run_store_ok (as_tables st)"
    and "chat y b env pd request st = (reply, st')" "\<And>i. reply \<noteq> ChatAccepted i"
    and "find_run (as_tables st) (ce_run_id env) = None" "ce_create_fault env \<noteq> CommitDrops True"
    and "ce_fail_fault env = NoFault" "ce_fail_clock env = Some t"
    and "\<And>now. ce_create_clock env = Some now \<Longrightarrow> now \<le> t \<and> t < now + ce_queue_lease env"
    and "length (events_of (as_tables st') (ce_run_id env)) < 10000"
  shows "case find_run (as_tables st') (ce_run_id env) of None \<Rightarrow> True | Some r \<Rightarrow> rn_status r \<noteq> Queued"
proof (cases "as_tables st' = as_tables st")
  case False
  with assms(3,4) obtain session r p q created ordinary st1 where reserve: "reserve_permit (as_queue st) = (Inr p, q)"
    and body: "chat_body env (new_run (ay_sha256 y) (ce_run_id env) (ce_now env) r session b) p (st\<lparr>as_queue := q\<rparr>) =
      (Inl (created, ordinary), st1)"
    and cleanup: "chat_cleanup env (created, ordinary) p st1 = (reply, st')"
    by (auto simp: chat_def split: sum.splits option.splits if_splits prod.splits)
  have run: "rn_run_id (new_run (ay_sha256 y) (ce_run_id env) (ce_now env) r session b) = ce_run_id env"
    by (simp add: new_run_def Let_def)
  have fresh: "fresh_permit st p" using reserve by (simp add: fresh_permit_def)
  then have rely: "interferes (ay_sha256 y) p s (ce_others env n s)"
    and missing: "find_run (as_tables s) (ce_run_id env) = None \<Longrightarrow> find_run (as_tables (ce_others env n s)) (ce_run_id env) = None"
    for n s using assms(1) by (auto simp: chat_rely_def)
  let ?st2 = "if created then finish_failed_delivery env st1 else st1"
  have st': "as_tables st' = as_tables (ce_others env 3 ?st2)"
    using cleanup by (auto simp: chat_cleanup_def Let_def)
  note tables = chat_body_tables [OF body rely missing _ _ run assms(6)]
  show ?thesis
  proof (cases created)
    case False
    with tables assms(2,5) st' missing show ?thesis by simp
  next
    case True
    with tables assms(2,5) obtain x now where x: "run_store_ok (as_tables st1)" "ce_create_clock env = Some now"
      "find_run (as_tables st1) (ce_run_id env) = Some x"
      "evolves\<^sup>*\<^sup>* (queued_run (new_run (ay_sha256 y) (ce_run_id env) (ce_now env) r session b) now (ce_queue_lease env)) x"
      by auto
    let ?db = "as_tables (finish_failed_delivery env st1)"
    note keeps = finish_failed_delivery_keeps [OF rely x(1)]
    have later: "extends ?db (as_tables st')"
      using interferes_extends [OF rely [of "finish_failed_delivery env st1" 3]] keeps True by (simp add: st')
    obtain z where "find_run ?db (ce_run_id env) = Some z" using keeps x(3) unfolding extends_def by metis
    with later assms(10) have "length (events_of ?db (ce_run_id env)) < 10000" unfolding extends_def by fastforce
    with finish_failed_delivery_ends [OF rely x(1,3,4) assms(7,8)] assms(9) [OF x(2)]
    obtain w where "find_run ?db (ce_run_id env) = Some w" "rn_status w \<noteq> Queued" by blast
    from extends_not_queued [OF later this] show ?thesis by auto
  qed
qed (simp add: assms(5))

end
