(* ===== verification/JobTheorems.thy ===== *)
theory JobTheorems
  imports JobFactory ApiTheorems
begin

text \<open>
  Why delivery does not lose a run: the job that the deployment builds carries the bindings of the
  stored run, so the store accepts its checkpoints; a granted resumption always gets its job; and
  the evidence of a checkpoint is what comes back from the corpus.
\<close>

section \<open>Identifiers are stripped already\<close>

lemma drop_words_none:
  assumes "s = [] \<or> byte (hd s) \<notin> hd ` set ws"
  shows "drop_words ws s = s"
proof -
  have "\<not> starts s w" if "w \<in> set ws" for w
  proof
    assume "starts s w"
    then obtain b v where w: "w = b # v" "map byte (take (length w) s) = w" by (cases w) (auto simp: starts_def)
    then obtain c cs where "s = c # cs" "byte c = b" by (cases s) auto
    with assms that w(1) show False by force
  qed
  then have "find (starts s) ws = None" by (simp add: find_None_iff)
  then show ?thesis by (simp add: drop_words.simps [of ws s])
qed

lemma strip_none:
  assumes "s \<noteq> []" "byte (hd s) \<notin> hd ` set space_chars" "byte (last s) \<notin> hd ` set (map rev space_chars)"
  shows "strip s = s"
proof -
  have "lstrip s = s" unfolding lstrip_def using assms(2) by (intro drop_words_none) simp
  moreover have "rstrip s = s"
    unfolding rstrip_def using assms(1,3) by (subst drop_words_none) (auto simp: hd_rev)
  ultimately show ?thesis by (simp add: strip_def)
qed

lemma identifier_bytes: "identifier_char c \<Longrightarrow> 45 \<le> byte c \<and> byte c \<le> 122"
  by (auto simp: identifier_char_def is_alnum_def is_lower_def is_upper_def is_decimal_def byte_def)

lemma space_bytes:
  "hd ` set space_chars \<subseteq> {9..32} \<union> {194..227}" "hd ` set (map rev space_chars) \<subseteq> {9..32} \<union> {128..175}"
  by (simp_all add: space_chars_def)

lemma strip_identifier:
  assumes "trace_identifier s" shows "strip s = s"
proof -
  from assms have s: "s \<noteq> []" "list_all identifier_char s"
    by (auto simp: trace_identifier_def identifier_char_def split: list.splits)
  then have "45 \<le> byte (hd s) \<and> byte (hd s) \<le> 122" "45 \<le> byte (last s) \<and> byte (last s) \<le> 122"
    by (auto simp: list_all_iff intro!: identifier_bytes)
  then have "byte (hd s) \<notin> {9..32} \<union> {194..227}" "byte (last s) \<notin> {9..32} \<union> {128..175}" by auto
  with space_bytes show ?thesis by (intro strip_none [OF s(1)]) blast+
qed

section \<open>The run that a job is built from\<close>

lemma delivery_identifier: "trace_identifier ''delivery''" "trace_identifier queue_lease_owner"
  by code_simp+

lemmas ephemeral_rules = run_record_valid_def run_row_ok_def run_fields_valid_def state_and_lease_agree_def
  timestamps_agree_def activity_floor_def level_bindings_agree_def is_nonterminal_def optional_def microseconds_def

lemma ephemeral_valid:
  assumes "run_record_valid (new_run sha256 i t r session (deployed_binding dp))"
    and "cq_corpus_manifest_id r = dp_corpus_id dp"
  shows "run_record_valid (ephemeral_delivery_run sha256 now dp i r None)"
  using assms delivery_identifier
  by (auto simp: ephemeral_delivery_run_def new_run_def deployed_binding_def Let_def ephemeral_rules split: if_splits)

text \<open>
  C17. An accepted question gets the job of its run. For a valid L2 run that \<open>/chat\<close> is about to
  store, the deployment always builds a job: it is a first attempt that has not taken the lease, it
  names the run, and the checkpoint it begins with matches the stored row and the binding that a later
  resumption compares it with.
\<close>

theorem stored_run_gets_its_job:
  assumes "run_record_valid (new_run sha256 i t r session (deployed_binding dp))" "cq_task_level r = L2"
    and "cq_corpus_manifest_id r = dp_corpus_id dp"
  shows "\<exists>job x. build_job sha256 now fault db dp i (cq_question r) r None = Inr job \<and> dj_l2_context job = Some x \<and>
    dj_run_id job = i \<and> jx_run_id x = i \<and> \<not> dj_lease_acquired job \<and> dj_attempt job = 1 \<and> jx_checkpoint x = None \<and>
    sx_task_level (jx_planner_context x) = L2 \<and>
    (\<exists>k. jx_checkpoint_factory x (Some clock) = Inr k \<and> kp_run_id k = i \<and> kp_attempt k = 1 \<and>
      bindings_match (queued_run (new_run sha256 i t r session (deployed_binding dp)) created lease) k \<and>
      checkpoint_matches_binding k (binding_of_checkpoints (deployed_binding dp)))"
  using ephemeral_valid [OF assms(1,3), of now] assms(2,3)
  by (simp add: build_job_def delivery_build_def new_job_def require_l2_def factory_job_def l2_context_of_def
      ephemeral_delivery_run_def planner_context_def new_checkpoint_def bindings_match_def bindings_settled_def
      checkpoint_matches_binding_def binding_of_checkpoints_def deployed_binding_def queued_run_def new_run_def
      require_def Let_def)


section \<open>Resumptions\<close>

lemma resume_checks_denied: "resume_checks db i session query key binding = Inl denied \<Longrightarrow> fst denied \<noteq> ResumeAcquired"
  by (auto simp: resume_checks_def Let_def split: option.splits if_splits)

lemma granted_checkpoint:
  assumes "begin_resume sha256 fault clock i session query key owner seconds (Some b) db = (Inr (ResumeAcquired, Some n), db1)"
    and found: "find_run db i = Some run"
  obtains k where "find_checkpoint db1 i = Some k" "checkpoint_valid k" "kp_attempt k = n" "2 \<le> n" "kp_run_id k = i"
    "bindings_match run k" "kp_binding k = b" "rn_query_hash run = query"
proof -
  from assms(1) obtain now r k latest where checks: "resume_checks db i session query (sha256 key) (Some b) = Inr (r, k, latest)"
    and acquired: "acquire_resume (r, k, latest) (sha256 key) owner seconds now db = Inr ((ResumeAcquired, Some n), db1)"
    by (auto simp: begin_resume_def run_transact_def split: if_splits option.splits sum.splits fault.splits prod.splits
        dest!: resume_checks_denied)
  from resume_checks_Inr [OF checks] found have c: "r = run" "rn_query_hash run = query" "replayed_attempt db i (sha256 key) = None"
    "find_checkpoint db i = Some k" "checkpoint_valid k" "bindings_match run k" "kp_binding k = b"
    "latest_attempt db i = Some latest" "ra_attempt latest = kp_attempt k" by auto
  from acquire_resume_effect [OF acquired [unfolded c(1)] found c(4,8,3)]
  have e: "find_checkpoint db1 i = Some (k\<lparr>kp_attempt := Suc (ra_attempt latest), kp_version := Suc (kp_version k), kp_last_accessed_at := now\<rparr>)"
    "checkpoint_valid (k\<lparr>kp_attempt := Suc (ra_attempt latest), kp_version := Suc (kp_version k), kp_last_accessed_at := now\<rparr>)" by blast+
  have "n = Suc (ra_attempt latest)" using acquired by (rule acquire_resume_Inr) simp
  moreover have "1 \<le> kp_attempt k" using c(5) by (simp add: checkpoint_valid_def checkpoint_fields_valid_def)
  ultimately show ?thesis
    using that [OF e] c find_checkpoint_Some [OF c(4)] by (simp add: bindings_match_def bindings_settled_def)
qed

lemma resumed_request:
  assumes "parsed_resume request = Some r" "checkpoint_valid k"
  shows "resume_chat_request r k = Some \<lparr>cq_question = rq_question r, cq_request_id = kp_run_id k,
    cq_evaluation_root_id = kp_evaluation_root_id k, cq_task_level = L2, cq_source_manifest_id = kb_source_manifest_id (kp_binding k),
    cq_corpus_manifest_id = kb_corpus_manifest_id (kp_binding k)\<rparr>"
proof -
  have "parsed_question (rq_question r) = Some (rq_question r)"
    using assms(1) by (auto simp: parsed_resume_def parsed_question_def split: option.splits if_splits)
  moreover have "parsed_identifier (kp_evaluation_root_id k) = Some (kp_evaluation_root_id k)"
    "sha256_text (kb_source_manifest_id (kp_binding k))" "sha256_text (kb_corpus_manifest_id (kp_binding k))"
    using assms(2) strip_identifier
    by (auto simp: checkpoint_valid_def checkpoint_fields_valid_def parsed_identifier_def)
  ultimately show ?thesis by (simp add: resume_chat_request_def parsed_chat_def)
qed

text \<open>
  C18. A granted resumption gets its job. When the store has granted a resumption of a valid stored
  run to a deployment whose profile and prompt are well-formed, as the runtime's configuration
  demands, the checkpoint that the grant left can be read and the request rebuilt from it is valid.
  If the builder's own read of the checkpoint meets no fault, it returns a job that continues exactly
  this checkpoint, in the attempt that was granted, under the lease that was taken, whichever
  profile and prompt the run was created with; if it meets one, the store's error is what the builder
  raises.
\<close>

theorem granted_resume_gets_its_job:
  assumes granted: "begin_resume sha256 fault clock i session (sha256 (rq_question r)) key owner seconds
      (Some (binding_of_checkpoints (deployed_binding dp))) db = (Inr (ResumeAcquired, Some n), db1)"
    and found: "find_run db i = Some run" "run_record_valid run" and request: "parsed_resume request = Some r"
    and configured: "trace_identifier (dp_profile dp)" "trace_identifier (dp_prompt_id dp)" "sha256_text (dp_prompt_hash dp)"
  shows "\<exists>k q job x. read_checkpoint NoFault i db1 = Inr (Some k) \<and> kp_attempt k = n \<and> resume_chat_request r k = Some q \<and>
    build_job sha256 now NoFault db1 dp i (rq_question r) q (Some k) = Inr job \<and> dj_l2_context job = Some x \<and>
    jx_checkpoint x = Some k \<and> dj_run_id job = i \<and> dj_lease_acquired job \<and> dj_attempt job = n \<and>
    (\<forall>fault. fault \<noteq> NoFault \<longrightarrow>
      build_job sha256 now fault db1 dp i (rq_question r) q (Some k) = Inl (JobStoreError RunStoreUnavailable))"
proof (rule granted_checkpoint [OF granted found(1)])
  fix k
  assume k: "find_checkpoint db1 i = Some k" "checkpoint_valid k" "kp_attempt k = n" "2 \<le> n" "kp_run_id k = i"
    "bindings_match run k" "kp_binding k = binding_of_checkpoints (deployed_binding dp)"
    "rn_query_hash run = sha256 (rq_question r)"
  have read: "read_checkpoint NoFault i db1 = Inr (Some k)" using k(1,2) by (simp add: read_checkpoint_def)
  let ?q = "\<lparr>cq_question = rq_question r, cq_request_id = kp_run_id k, cq_evaluation_root_id = kp_evaluation_root_id k,
    cq_task_level = L2, cq_source_manifest_id = kb_source_manifest_id (kp_binding k),
    cq_corpus_manifest_id = kb_corpus_manifest_id (kp_binding k)\<rparr>"
  have valid: "run_record_valid (ephemeral_delivery_run sha256 now dp i ?q (Some k))"
    using found(2) configured k(2,6,7,8) delivery_identifier
    by (auto simp: ephemeral_delivery_run_def deployed_binding_def binding_of_checkpoints_def Let_def ephemeral_rules
        bindings_match_def bindings_settled_def checkpoint_valid_def checkpoint_fields_valid_def split: if_splits)
  have "require_bindings (ephemeral_delivery_run sha256 now dp i ?q (Some k)) k = Inr ()"
    using k(5,6,7,8) by (simp add: require_bindings_def require_def ephemeral_delivery_run_def binding_of_checkpoints_def
        deployed_binding_def Let_def bindings_match_def)
  with read valid k(3,4) have job: "\<exists>job x. build_job sha256 now NoFault db1 dp i (rq_question r) ?q (Some k) = Inr job \<and>
      dj_l2_context job = Some x \<and> jx_checkpoint x = Some k \<and> dj_run_id job = i \<and> dj_lease_acquired job \<and> dj_attempt job = n"
    by (simp add: build_job_def delivery_build_def resumed_job_def require_l2_def require_def factory_job_def l2_context_of_def
        Let_def ephemeral_delivery_run_def)
  have failed: "build_job sha256 now fault db1 dp i (rq_question r) ?q (Some k) = Inl (JobStoreError RunStoreUnavailable)"
    if "fault \<noteq> NoFault" for fault
    using that valid k(3,4)
    by (simp add: build_job_def delivery_build_def resumed_job_def require_l2_def require_def read_checkpoint_def
        Let_def ephemeral_delivery_run_def)
  from read job failed k(3) resumed_request [OF request k(2)] show ?thesis by blast
qed


section \<open>Evidence\<close>

definition evidence_of_corpus :: "(string \<Rightarrow> string) \<Rightarrow> deployment \<Rightarrow> index_unit \<Rightarrow> evidence \<Rightarrow> bool" where
  "evidence_of_corpus sha256 dp u e \<longleftrightarrow> u \<in> set (lc_units (dp_corpus dp)) \<and>
     build_evidence_from_unit sha256 (dp_corpus_id dp) u = Inr e"

lemma restores_ref: "restores (evidence_ref e) e"
  by (simp add: restores_def evidence_ref_def)

lemma built_clause: "build_evidence_from_unit sha256 c u = Inr e \<Longrightarrow> dc_clause_id (ev_disclosed e) = iu_unit_id u"
  by (auto simp: build_evidence_from_unit_def build_evidence_record_def Let_def split: if_splits)

lemma restore_loop_refs:
  assumes "corpus_ok (dp_corpus dp)" "list_all2 (evidence_of_corpus sha256 dp) us es"
  shows "restore_loop sha256 dp done_before (map evidence_ref es) = Inr (done_before @ es)"
  using assms(2)
proof (induction us es arbitrary: done_before rule: list_all2_induct)
  case (Cons u us e es)
  have "kr_clause_id (evidence_ref e) = iu_unit_id u"
    using Cons.hyps(1) built_clause by (auto simp: evidence_ref_def evidence_of_corpus_def)
  moreover have "resolve_unit (dp_corpus dp) (iu_unit_id u) = Some u"
    using assms(1) Cons.hyps(1) by (auto simp: evidence_of_corpus_def resolve_unit_member)
  ultimately show ?case using Cons by (simp add: evidence_of_corpus_def restores_ref)
qed simp

lemma restore_loop_sound:
  assumes "restore_loop sha256 dp before refs = Inr es" "es \<noteq> []"
  shows "\<exists>more. es = before @ more \<and> list_all2 (\<lambda>ref e. restores ref e \<and>
    (\<exists>u. iu_unit_id u = kr_clause_id ref \<and> evidence_of_corpus sha256 dp u e)) refs more"
  using assms
proof (induction refs arbitrary: before)
  case (Cons ref refs)
  from Cons.prems obtain u item where u: "resolve_unit (dp_corpus dp) (kr_clause_id ref) = Some u"
    and item: "build_evidence_from_unit sha256 (dp_corpus_id dp) u = Inr item" "restores ref item"
    and rest: "restore_loop sha256 dp (before @ [item]) refs = Inr es"
    by (auto split: option.splits sum.splits if_splits)
  from Cons.IH [OF rest Cons.prems(2)] resolve_unit_Some [OF u] item show ?case
    by (auto simp: evidence_of_corpus_def)
qed simp

text \<open>
  C20. The evidence of a checkpoint comes back as it was. Evidence built from units of the frozen
  corpus is restored, in order and in full, from the references that a checkpoint keeps of it; and
  whatever is restored from any references was built from the units they name and agrees with them
  in its hashes, document and span.
\<close>

theorem stored_evidence_is_restored:
  assumes "corpus_ok (dp_corpus dp)"
  shows "(\<forall>us es. list_all2 (evidence_of_corpus sha256 dp) us es \<longrightarrow>
      restore_evidence sha256 dp (map evidence_ref es) = Inr es) \<and>
    (\<forall>refs es. restore_evidence sha256 dp refs = Inr es \<and> es \<noteq> [] \<longrightarrow> list_all2 (\<lambda>ref e. restores ref e \<and>
      (\<exists>u. iu_unit_id u = kr_clause_id ref \<and> evidence_of_corpus sha256 dp u e)) refs es)"
  unfolding restore_evidence_def
proof (intro conjI allI impI, goal_cases)
  case (1 us es)
  from restore_loop_refs [OF assms this, of "[]"] show ?case by simp
next
  case (2 refs es)
  with restore_loop_sound [of sha256 dp "[]" refs es] show ?case by auto
qed

end
