(* ===== verification/ApiWitnesses.thy ===== *)
theory ApiWitnesses
  imports JobTheorems RunWitnesses
begin

text \<open>
  Two requests to \<open>/chat\<close>, one accepted and one whose job cannot be built, and a run of another
  session: the properties of the HTTP boundary and of the job builder are applied to them.
\<close>

definition sample_security :: api_security where
  "sample_security = \<lparr>ay_hmac = sample_hmac, ay_loads = sample_loads, ay_verifier = sample_verifier,
     ay_sha256 = (\<lambda>_. sample_hex CHR ''1'')\<rparr>"

definition sample_presented :: presented where
  "sample_presented = \<lparr>pd_authorization = Some (''Bearer '' @ sample_token), pd_cookie = None,
     pd_clock = ClockReads 1786521600\<rparr>"

definition sample_service :: api_binding where
  "sample_service = \<lparr>ab_profile = ''p'', ab_source_manifest_id = sample_hex CHR ''a'',
     ab_corpus_manifest_id = sample_hex CHR ''b'', ab_policy_hash = sample_hex CHR ''c'',
     ab_configuration_hash = sample_hex CHR ''d'', ab_prompt_id = ''prompt'', ab_prompt_hash = sample_hex CHR ''e'',
     ab_provider_id = ''fake'', ab_model_id = ''model'', ab_compliance_prompt_hash = sample_hex CHR ''f'',
     ab_verifier_prompt_hash = sample_hex CHR ''0'', ab_resume_lease_owner = ''worker'', ab_resume_lease_seconds = 30\<rparr>"

definition sample_question :: chat_request where
  "sample_question = \<lparr>cq_question = ''Is it so?'', cq_request_id = ''request'', cq_evaluation_root_id = ''root'',
     cq_task_level = L2, cq_source_manifest_id = sample_hex CHR ''a'', cq_corpus_manifest_id = sample_hex CHR ''b''\<rparr>"

definition sample_chat_env :: "nat built \<Rightarrow> nat chat_env" where
  "sample_chat_env job = \<lparr>ce_run_id = ''run'', ce_now = 0, ce_queue_lease = 30000000, ce_create_fault = NoFault,
     ce_create_clock = Some 0, ce_create_cancelled = False, ce_job = job, ce_fail_fault = NoFault,
     ce_fail_clock = Some 1, ce_fail_cancelled = False, ce_others = (\<lambda>_ st. st)\<rparr>"

definition sample_api_state :: "nat api_state" where
  "sample_api_state = \<lparr>as_tables = empty_tables sample_run_ledger, as_queue = snd (start_worker (new_queue 1))\<rparr>"

lemma sample_env_fields [simp]:
  "ce_run_id (sample_chat_env job) = ''run''" "ce_now (sample_chat_env job) = 0" "ce_queue_lease (sample_chat_env job) = 30000000"
  "ce_create_fault (sample_chat_env job) = NoFault" "ce_create_clock (sample_chat_env job) = Some 0"
  "ce_create_cancelled (sample_chat_env job) = False" "ce_job (sample_chat_env job) = job"
  "ce_fail_fault (sample_chat_env job) = NoFault" "ce_fail_clock (sample_chat_env job) = Some 1"
  "ce_fail_cancelled (sample_chat_env job) = False" "ce_others (sample_chat_env job) = (\<lambda>_ st. st)"
  by (simp_all add: sample_chat_env_def)

lemma sample_token_not_empty: "sample_token \<noteq> []"
  by (simp add: sample_token_def signed_token_def Let_def)

lemma sample_authenticated: "authenticate sample_security sample_presented = Inr sample_claims"
  using sample_verified sample_token_not_empty
  by (simp add: authenticate_def sample_security_def sample_presented_def api_credential_def)

lemma sample_chat_rely: "chat_rely sha256 (sample_chat_env job) st"
  by (auto simp: chat_rely_def sample_chat_env_def interferes_def intro!: exI [of _ "[]"])

lemma sample_state_tables: "as_tables sample_api_state = empty_tables sample_run_ledger"
  by (simp add: sample_api_state_def)

lemma sample_tables_ok: "run_store_ok (as_tables sample_api_state)"
  by (simp add: sample_api_state_def run_store_ok_def empty_tables_def)

lemma sample_parsed_chat: "parsed_chat sample_question = Some sample_question"
  by code_simp

lemma sample_reserved:
  "reserve_permit (as_queue sample_api_state) = (Inr 0, \<lparr>wq_queue_capacity = 1, wq_permit_states = [PermitReserved],
     wq_permits = {0}, wq_borrowers = {0}, wq_stream = [], wq_send_open = True, wq_started = True, wq_closed = False\<rparr>)"
  by (simp add: sample_api_state_def reserve_permit_def acquire_nowait_def start_worker_def new_queue_def)

definition sample_asked :: run_record where
  "sample_asked = sample_run\<lparr>rn_session_id := ''session-a'', rn_lease_owner := Some queue_lease_owner,
     rn_lease_expires_at := Some 30000000\<rparr>"

lemma sample_new_run:
  "new_run (ay_sha256 sample_security) ''run'' 0 sample_question sample_claims sample_service = sample_asked"
  by (simp add: new_run_def sample_security_def sample_question_def sample_claims_def sample_service_def sample_run_def
      microseconds_def Let_def sample_asked_def)

lemma sample_session_a [simp]: "trace_identifier ''session-a''" "trace_identifier queue_lease_owner"
  by code_simp+

lemma sample_asked_valid: "run_record_valid sample_asked"
  by (simp add: run_record_valid_def row_rules sample_asked_def sample_run_def)

definition sample_asked_tables :: run_tables where
  "sample_asked_tables = \<lparr>tb_runs = [queued_run sample_asked 0 30000000],
     tb_events = [transition_row 1 (StateTransition None Queued None) 0], tb_attempts = [], tb_checkpoints = [],
     tb_ledger = sample_run_ledger\<rparr>"

lemma sample_asked_created: "create_run NoFault (Some 0) 30000000 sample_asked (empty_tables sample_run_ledger) =
    (Inr (queued_run sample_asked 0 30000000), sample_asked_tables)"
  by (simp add: create_run_def empty_tables_def run_record_valid_def row_rules statement_rules queued_run_def
      sample_asked_def sample_run_def sample_run_ledger_def empty_ledger_def sample_asked_tables_def transition_row_def)

lemma sample_undelivered_words [simp]: "terminal_reason ''queue_delivery_failed''"
  by code_simp

lemma sample_asked_undelivered: "length (events_of (snd (fail_delivery NoFault (Some 1) ''run''
    \<lparr>re_sequence = 1, re_body = TerminalEvent Interrupted (Some ''queue_delivery_failed'')\<rparr> sample_asked_tables)) ''run'') = 2"
  by (simp add: fail_delivery_def complete_run_def row_rules statement_rules row_defs lease_expired_def
      status_is_terminal_def sample_asked_tables_def sample_asked_def del: list.set_map set_filter)

lemmas sample_room = sample_asked_undelivered [unfolded One_nat_def]

lemma sample_bound: "cq_source_manifest_id sample_question = ab_source_manifest_id sample_service"
    "cq_corpus_manifest_id sample_question = ab_corpus_manifest_id sample_service"
  by (simp_all add: sample_question_def sample_service_def)

lemma sample_chat:
  "fst (chat sample_security sample_service (sample_chat_env (Built 7)) sample_presented sample_question sample_api_state) =
     ChatAccepted ''run''"
  "fst (chat sample_security sample_service (sample_chat_env BuildFails) sample_presented sample_question sample_api_state) =
     service_unavailable"
  by (simp_all add: chat_def sample_authenticated sample_parsed_chat sample_bound sample_reserved sample_new_run
      chat_body_def sample_asked_valid sample_state_tables sample_asked_created deliver_def deliver_permit_def
      state_of_permit_def chat_cleanup_def Let_def)

definition sample_refused :: "nat api_state" where
  "sample_refused = snd (chat sample_security sample_service (sample_chat_env BuildFails) sample_presented sample_question
     sample_api_state)"

lemma sample_refused_chat: "chat sample_security sample_service (sample_chat_env BuildFails) sample_presented sample_question
    sample_api_state = (service_unavailable, sample_refused)"
  using sample_chat(2) unfolding sample_refused_def by (metis prod.collapse)

lemma sample_refused_tables: "as_tables sample_refused = snd (fail_delivery NoFault (Some 1) ''run''
    \<lparr>re_sequence = 1, re_body = TerminalEvent Interrupted (Some ''queue_delivery_failed'')\<rparr> sample_asked_tables)"
  unfolding sample_refused_def
  by (simp add: chat_def sample_authenticated sample_parsed_chat sample_bound sample_reserved sample_new_run
      chat_body_def sample_asked_valid sample_state_tables sample_asked_created chat_cleanup_def
      finish_failed_delivery_def Let_def)

theorem accepted_chat_is_stored_and_delivered_witness:
  "\<exists>stored. find_run (as_tables (snd (chat sample_security sample_service (sample_chat_env (Built 7)) sample_presented
      sample_question sample_api_state))) ''run'' = Some stored \<and> rn_session_id stored = ''session-a''"
proof -
  obtain st' where "chat sample_security sample_service (sample_chat_env (Built 7)) sample_presented sample_question
      sample_api_state = (ChatAccepted ''run'', st')"
    using sample_chat(1) by (metis prod.collapse)
  from accepted_chat_is_stored_and_delivered [OF sample_chat_rely sample_tables_ok this] this sample_authenticated
  show ?thesis by (auto simp: sample_claims_def)
qed

theorem refused_chat_gives_back_its_place_witness:
  "as_queue sample_refused = as_queue sample_api_state \<or> (\<exists>p. fresh_permit sample_api_state p \<and>
    state_of_permit (as_queue sample_refused) p = PermitCancelled \<and> p \<notin> wq_permits (as_queue sample_refused))"
  by (rule refused_chat_gives_back_its_place [OF sample_chat_rely sample_refused_chat]) (simp add: service_unavailable_def)

theorem refused_chat_leaves_no_queued_run_witness:
  "case find_run (as_tables sample_refused) ''run'' of None \<Rightarrow> True | Some r \<Rightarrow> rn_status r \<noteq> Queued"
  using refused_chat_leaves_no_queued_run [OF sample_chat_rely sample_tables_ok sample_refused_chat, of 1]
  by (simp add: service_unavailable_def sample_state_tables empty_tables_def find_run_def sample_refused_tables
      sample_room)

definition sample_resume_env :: "nat resume_env" where
  "sample_resume_env = \<lparr>rs_checkpoint_store = True, rs_begin_fault = NoFault, rs_begin_clock = Some 1, rs_begin_cancelled = False, rs_read_fault = NoFault,
     rs_read_cancelled = False, rs_job = Built 7, rs_fail_fault = NoFault, rs_fail_clock = Some 2, rs_others = (\<lambda>_ st. st)\<rparr>"

definition sample_resume :: resume_request where
  "sample_resume = \<lparr>rq_question = ''Is it so?'', rq_resume_key = ''2''\<rparr>"

definition sample_foreign :: "nat api_state" where
  "sample_foreign = sample_api_state\<lparr>as_tables := sample_created\<rparr>"

theorem foreign_runs_are_hidden_witness:
  "read_run sample_security NoFault (Some 1) sample_presented ''run'' sample_foreign =
     read_run sample_security NoFault (Some 1) sample_presented ''run'' sample_api_state \<and>
   snd (resume_run sample_security sample_service sample_resume_env sample_presented ''run'' sample_resume sample_foreign) =
     sample_foreign"
proof -
  have "find_run (as_tables sample_foreign) ''run'' = Some (queued_run sample_run 0 30000000)"
    by (simp add: sample_foreign_def sample_created_eq find_run_def queued_run_def sample_run_def)
  moreover have "rn_session_id (queued_run sample_run 0 30000000) \<noteq> sc_session_id sample_claims"
    by (simp add: queued_run_def sample_run_def sample_claims_def)
  moreover have "find_run (as_tables sample_api_state) ''run'' = None"
    by (simp add: sample_state_tables find_run_def empty_tables_def)
  ultimately show ?thesis by (blast dest: foreign_runs_are_hidden [OF sample_authenticated])
qed


section \<open>Jobs\<close>

definition sample_deployment :: deployment where
  "sample_deployment = \<lparr>dp_profile = ''p'', dp_configuration_hash = sample_hex CHR ''d'', dp_prompt_id = ''prompt'',
     dp_prompt_hash = sample_hex CHR ''e'', dp_source = sample_source\<lparr>sm_manifest_id := sample_hex CHR ''a''\<rparr>,
     dp_policy_hash = sample_hex CHR ''c'', dp_provider_id = ''fake'', dp_model_id = ''model'',
     dp_corpus_id = sample_hex CHR ''b'', dp_corpus = sample_corpus\<rparr>"

lemma sample_deployed: "deployed_binding sample_deployment = sample_service\<lparr>ab_resume_lease_owner := ''api-worker''\<rparr>"
  by (simp add: deployed_binding_def sample_deployment_def sample_service_def sample_hex_def)

lemma sample_deployed_run:
  "new_run (ay_sha256 sample_security) ''run'' 0 sample_question sample_claims (deployed_binding sample_deployment) = sample_asked"
  unfolding sample_new_run [symmetric] by (simp add: sample_deployed new_run_def Let_def)

theorem stored_run_gets_its_job_witness:
  "\<exists>job. build_job (ay_sha256 sample_security) 5 NoFault sample_created sample_deployment ''run'' (cq_question sample_question)
    sample_question None = Inr job \<and> dj_attempt job = 1"
proof -
  have "run_record_valid (new_run (ay_sha256 sample_security) ''run'' 0 sample_question sample_claims
      (deployed_binding sample_deployment))"
    unfolding sample_deployed_run by (rule sample_asked_valid)
  moreover have "cq_task_level sample_question = L2" "cq_corpus_manifest_id sample_question = dp_corpus_id sample_deployment"
    by (simp_all add: sample_question_def sample_deployment_def)
  ultimately show ?thesis by (blast dest: stored_run_gets_its_job [of _ _ _ _ _ _ 5 NoFault sample_created])
qed

definition sample_resumption :: resume_request where
  "sample_resumption = \<lparr>rq_question = ''1?'', rq_resume_key = ''2''\<rparr>"

lemma sample_parsed_resume: "parsed_resume sample_resumption = Some sample_resumption"
  by code_simp

lemma sample_granted:
  "fst (begin_resume sample_key_hash NoFault (Some 40000002) ''run'' ''session'' (sample_key_hash (rq_question sample_resumption)) ''2''
    ''worker'' 30 (Some (binding_of_checkpoints (deployed_binding sample_deployment))) sample_checkpointed) =
    Inr (ResumeAcquired, Some 2)"
  unfolding begin_resume_def resume_checks_def acquire_resume_def sample_checkpointed_eq
    sample_expired_eq sample_created_eq sample_checkpoint_eq
  by (simp add: statement_rules row_rules row_defs checkpoint_rules replayed_attempt_def latest_attempt_def
      insert_attempt_def update_checkpoint_def checkpoint_matches_binding_def binding_of_checkpoints_def sample_deployed
      sample_service_def sample_resumption_def
      del: list.set_map set_filter)

theorem granted_resume_gets_its_job_witness:
  "\<exists>k q db job. build_job sample_key_hash 40000003 NoFault db sample_deployment ''run'' (rq_question sample_resumption) q (Some k) =
    Inr job \<and> dj_lease_acquired job \<and> dj_attempt job = 2"
proof -
  let ?granted = "begin_resume sample_key_hash NoFault (Some 40000002) ''run'' ''session''
    (sample_key_hash (rq_question sample_resumption)) ''2'' ''worker'' 30
    (Some (binding_of_checkpoints (deployed_binding sample_deployment))) sample_checkpointed"
  let ?run = "ended_run sample_queued Interrupted (Some ''lease_expired'') 40000000"
  have granted: "?granted = (Inr (ResumeAcquired, Some 2), snd ?granted)" using sample_granted by (metis prod.collapse)
  have found: "find_run sample_checkpointed ''run'' = Some ?run" "run_record_valid ?run"
    by (simp_all add: sample_checkpointed_eq sample_expired_eq sample_created_eq find_run_def row_defs
        run_record_valid_def row_rules)
  have "trace_identifier (dp_profile sample_deployment)" "trace_identifier (dp_prompt_id sample_deployment)"
    "sha256_text (dp_prompt_hash sample_deployment)"
    by (simp_all add: sample_deployment_def)
  from granted_resume_gets_its_job [OF granted found sample_parsed_resume this, of 40000003] show ?thesis by blast
qed

theorem stored_evidence_is_restored_witness:
  "restore_evidence digest (sample_deployment\<lparr>dp_corpus_id := ''44''\<rparr>) (map evidence_ref [sample_unit_evidence]) =
    Inr [sample_unit_evidence]"
proof -
  have "evidence_of_corpus digest (sample_deployment\<lparr>dp_corpus_id := ''44''\<rparr>) sample_unit sample_unit_evidence"
    by (simp add: evidence_of_corpus_def sample_deployment_def sample_corpus_units sample_unit_built)
  then have "list_all2 (evidence_of_corpus digest (sample_deployment\<lparr>dp_corpus_id := ''44''\<rparr>)) [sample_unit]
      [sample_unit_evidence]" by simp
  moreover have "corpus_ok (dp_corpus (sample_deployment\<lparr>dp_corpus_id := ''44''\<rparr>))"
    using load_corpus_ok [OF sample_corpus_loaded] by (simp add: sample_deployment_def)
  ultimately show ?thesis using stored_evidence_is_restored by blast
qed

end
