(* ===== verification/ApiLifecycle.thy ===== *)
theory ApiLifecycle
  imports SessionTheorems
begin

text \<open>
  The life of the service around its requests, \<open>create_app\<close> of \<open>api/app.py\<close>: what is started when the
  first user of the application enters and closed when the last one leaves, the health check and the
  demo session. \<open>lifespan\<close> holds a lock while it starts or closes, so entries and exits are atomic.
  The outcome of a call to a collaborator is an argument that may depend on all calls before it.
\<close>

section \<open>Calls to collaborators\<close>

datatype lifecycle_call = Reconciles | StartsWorker | StartsHook nat | ClosesHook nat | ClosesWorker

text \<open>A call returns, raises an \<open>Exception\<close>, or raises another \<open>BaseException\<close> such as a cancellation.\<close>

datatype outcome = Fine | Fails | Stops

datatype lifecycle_phase = PhaseNew | PhaseActive | PhaseClosing | PhaseClosed

datatype lifecycle_error = LifecycleUnavailable | LifecycleStopped | LifecycleCancelled

record lifecycle_env =
  le_outcome :: "lifecycle_call list \<Rightarrow> lifecycle_call \<Rightarrow> outcome"
  le_close_cancelled :: "lifecycle_call list \<Rightarrow> bool"
  le_hooks :: nat

record lifecycle =
  lf_phase :: lifecycle_phase
  lf_users :: nat
  lf_started_hooks :: nat
  lf_calls :: "lifecycle_call list"

definition new_lifecycle :: lifecycle where
  "new_lifecycle = \<lparr>lf_phase = PhaseNew, lf_users = 0, lf_started_hooks = 0, lf_calls = []\<rparr>"

definition calls :: "lifecycle_env \<Rightarrow> lifecycle_call \<Rightarrow> lifecycle \<Rightarrow> outcome \<times> lifecycle" where
  "calls env c st = (le_outcome env (lf_calls st) c, st\<lparr>lf_calls := lf_calls st @ [c]\<rparr>)"

definition first_error :: "outcome \<Rightarrow> outcome \<Rightarrow> outcome" where
  "first_error e o' = (if e = Fine then o' else e)"

section \<open>Closing\<close>

primrec close_hooks :: "lifecycle_env \<Rightarrow> outcome \<Rightarrow> nat \<Rightarrow> lifecycle \<Rightarrow> outcome \<times> lifecycle" where
  "close_hooks env e 0 st = (e, st)"
| "close_hooks env e (Suc k) st = (case calls env (ClosesHook k) st of
     (o', st1) \<Rightarrow> close_hooks env (first_error e o') k (st1\<lparr>lf_started_hooks := k\<rparr>))"

definition close_owned :: "lifecycle_env \<Rightarrow> lifecycle \<Rightarrow> outcome \<times> lifecycle" where
  "close_owned env st = (case close_hooks env Fine (lf_started_hooks st) st of
     (e, st1) \<Rightarrow> (case calls env ClosesWorker st1 of (o', st2) \<Rightarrow> (first_error e o', st2)))"

text \<open>The task that closes is shielded: a cancellation waits for it and is raised afterwards
  (a second one, while it waits, is left out).\<close>

definition close_worker :: "lifecycle_env \<Rightarrow> lifecycle \<Rightarrow> (lifecycle_error + unit) \<times> lifecycle" where
  "close_worker env st = (case close_owned env st of (e, st1) \<Rightarrow>
     (if le_close_cancelled env (lf_calls st) then Inl LifecycleCancelled
      else (case e of Stops \<Rightarrow> Inl LifecycleStopped | Fails \<Rightarrow> Inl LifecycleUnavailable | Fine \<Rightarrow> Inr ()),
      st1\<lparr>lf_phase := PhaseClosed\<rparr>))"

section \<open>Starting\<close>

fun start_hooks :: "lifecycle_env \<Rightarrow> nat list \<Rightarrow> lifecycle \<Rightarrow> outcome \<times> lifecycle" where
  "start_hooks env [] st = (Fine, st)"
| "start_hooks env (h # hs) st = (case calls env (StartsHook h) st of
     (Fine, st1) \<Rightarrow> start_hooks env hs (st1\<lparr>lf_started_hooks := Suc (lf_started_hooks st1)\<rparr>)
   | (e, st1) \<Rightarrow> (e, st1))"

definition start_parts :: "lifecycle_env \<Rightarrow> lifecycle \<Rightarrow> outcome \<times> lifecycle" where
  "start_parts env st = (case calls env Reconciles st of
     (Fine, st1) \<Rightarrow> (case calls env StartsWorker st1 of
        (Fine, st2) \<Rightarrow> start_hooks env [0..<le_hooks env] st2
      | (e, st2) \<Rightarrow> (e, st2))
   | (e, st1) \<Rightarrow> (e, st1))"

definition start_runtime :: "lifecycle_env \<Rightarrow> lifecycle \<Rightarrow> (lifecycle_error + unit) \<times> lifecycle" where
  "start_runtime env st = (case start_parts env st of
     (Fine, st1) \<Rightarrow> (Inr (), st1\<lparr>lf_phase := PhaseActive\<rparr>)
   | (Stops, st1) \<Rightarrow> (Inl LifecycleStopped, snd (close_worker env st1))
   | (Fails, st1) \<Rightarrow> (Inl LifecycleUnavailable, snd (close_worker env st1)))"

section \<open>Users\<close>

definition enter_lifespan :: "lifecycle_env \<Rightarrow> lifecycle \<Rightarrow> (lifecycle_error + unit) \<times> lifecycle" where
  "enter_lifespan env st =
     (if lf_users st = 0 then
        if lf_phase st = PhaseClosed then (Inl LifecycleUnavailable, st)
        else (case start_runtime env st of
            (Inl e, st1) \<Rightarrow> (Inl e, st1)
          | (Inr _, st1) \<Rightarrow> (Inr (), st1\<lparr>lf_users := Suc (lf_users st1)\<rparr>))
      else (Inr (), st\<lparr>lf_users := Suc (lf_users st)\<rparr>))"

definition leave_lifespan :: "lifecycle_env \<Rightarrow> lifecycle \<Rightarrow> (lifecycle_error + unit) \<times> lifecycle" where
  "leave_lifespan env st =
     (let st1 = st\<lparr>lf_users := lf_users st - 1\<rparr> in
      if lf_users st1 = 0 then close_worker env (st1\<lparr>lf_phase := PhaseClosing\<rparr>) else (Inr (), st1))"

text \<open>Who leaves has entered before.\<close>

inductive lifespan_step :: "lifecycle_env \<Rightarrow> lifecycle \<Rightarrow> lifecycle \<Rightarrow> bool" for env where
  Enters: "enter_lifespan env st = (result, st') \<Longrightarrow> lifespan_step env st st'"
| Leaves: "leave_lifespan env st = (result, st') \<Longrightarrow> 0 < lf_users st \<Longrightarrow> lifespan_step env st st'"

section \<open>Health and the demo session\<close>

datatype probe = ProbeSays bool | ProbeRaises

definition probe_result :: "probe \<Rightarrow> bool" where
  "probe_result p = (case p of ProbeSays b \<Rightarrow> b | ProbeRaises \<Rightarrow> False)"

record health_view =
  hv_status :: string
  hv_postgres :: string
  hv_mcp :: string

definition health :: "probe \<Rightarrow> probe \<Rightarrow> health_view" where
  "health postgres_health mcp_health =
     (let postgres = probe_result postgres_health; mcp = probe_result mcp_health in
      \<lparr>hv_status = (if postgres \<and> mcp then ''ok'' else ''degraded''),
       hv_postgres = (if postgres then ''ok'' else ''down''), hv_mcp = (if mcp then ''ok'' else ''down'')\<rparr>)"

definition loopback_hosts :: "string list" where
  "loopback_hosts = [''127.0.0.1'', ''::1'', ''localhost'']"

text \<open>The route exists only on a loopback fixture service with an issuer; it is then the cookie of a fresh session.\<close>

definition demo_route :: "string \<Rightarrow> string \<Rightarrow> session_issuer option \<Rightarrow> session_issuer option" where
  "demo_route profile bind_host issuer =
     (if profile = ''fixture'' \<and> bind_host \<in> set loopback_hosts then issuer else None)"

definition demo_session :: "(string \<Rightarrow> string \<Rightarrow> string) \<Rightarrow> session_issuer \<Rightarrow> clock_value \<Rightarrow> string \<Rightarrow> string \<Rightarrow> string option" where
  "demo_session hmac issuer clock token_bytes uuid =
     (case issue hmac issuer clock token_bytes (''demo-'' @ uuid) ''fixture'' 300 of
        Inr token \<Rightarrow> Some token
      | Inl _ \<Rightarrow> None)"

section \<open>One life\<close>

definition startup :: "nat \<Rightarrow> lifecycle_call list" where
  "startup n = Reconciles # StartsWorker # map StartsHook [0..<n]"

definition shutdown :: "nat \<Rightarrow> lifecycle_call list" where
  "shutdown k = map ClosesHook (rev [0..<k]) @ [ClosesWorker]"

text \<open>The first so many calls of the startup returned.\<close>

definition returned :: "lifecycle_env \<Rightarrow> nat \<Rightarrow> bool" where
  "returned env m \<longleftrightarrow> (\<forall>j < m. le_outcome env (take j (startup (le_hooks env))) (startup (le_hooks env) ! j) = Fine)"

lemma close_hooks_calls:
  "close_hooks env e k st = (e', st') \<Longrightarrow> lf_calls st' = lf_calls st @ map ClosesHook (rev [0..<k]) \<and>
     lf_users st' = lf_users st"
  by (induction k arbitrary: e st) (auto simp: calls_def)

lemma close_worker_calls:
  "close_worker env st = (r, st') \<Longrightarrow> lf_calls st' = lf_calls st @ shutdown (lf_started_hooks st) \<and>
     lf_users st' = lf_users st \<and> lf_phase st' = PhaseClosed"
  by (auto simp: close_worker_def close_owned_def calls_def shutdown_def split: prod.splits dest!: close_hooks_calls)

lemma startup_nth:
  "startup n ! 0 = Reconciles" "startup n ! Suc 0 = StartsWorker" "h < n \<Longrightarrow> startup n ! (Suc (Suc h)) = StartsHook h"
  "take (Suc (Suc h)) (startup n) = Reconciles # StartsWorker # take h (map StartsHook [0..<n])"
  by (simp_all add: startup_def)

lemma returned_Suc: "returned env (Suc m) \<longleftrightarrow> returned env m \<and>
    le_outcome env (take m (startup (le_hooks env))) (startup (le_hooks env) ! m) = Fine"
  by (auto simp: returned_def less_Suc_eq)

lemma startup_grows: "m < Suc (Suc n) \<Longrightarrow> take m (startup n) @ [startup n ! m] = take (Suc m) (startup n)"
  using take_Suc_conv_app_nth [of m "startup n"] by (simp add: startup_def)

text \<open>What has been started when starting stops: a prefix of the startup, of which all but perhaps the last call returned.\<close>

definition started :: "lifecycle_env \<Rightarrow> outcome \<Rightarrow> lifecycle \<Rightarrow> bool" where
  "started env e st \<longleftrightarrow> (if e = Fine
     then lf_calls st = startup (le_hooks env) \<and> lf_started_hooks st = le_hooks env \<and> returned env (Suc (Suc (le_hooks env)))
     else \<exists>m < Suc (Suc (le_hooks env)). lf_calls st = take (Suc m) (startup (le_hooks env)) \<and> lf_started_hooks st = m - 2 \<and>
       returned env m \<and> \<not> returned env (Suc m))"

lemma start_hooks_started:
  assumes "start_hooks env [h..<le_hooks env] st = (e, st')" "h \<le> le_hooks env" "lf_started_hooks st = h"
    "lf_calls st = take (Suc (Suc h)) (startup (le_hooks env))" "returned env (Suc (Suc h))"
  shows "started env e st' \<and> lf_users st' = lf_users st"
  using assms
proof (induction "le_hooks env - h" arbitrary: h st)
  case 0
  then show ?case by (auto simp: started_def startup_def)
next
  case (Suc d)
  let ?c = "StartsHook h" and ?n = "le_hooks env"
  have h: "h < ?n" "[h..<?n] = h # [Suc h..<?n]" using Suc.hyps(2) by (simp_all add: upt_rec)
  have grown: "lf_calls st @ [?c] = take (Suc (Suc (Suc h))) (startup ?n)"
    using startup_grows [of "Suc (Suc h)" ?n] h(1) Suc.prems(4) by (simp add: startup_nth)
  show ?case
  proof (cases "le_outcome env (lf_calls st) ?c = Fine")
    case True
    then have "returned env (Suc (Suc (Suc h)))"
      using Suc.prems(4,5) h(1) by (simp add: returned_Suc [of env "Suc (Suc h)"] startup_nth(3))
    with Suc.hyps(2) Suc.prems h True grown show ?thesis
      using Suc.hyps(1) [of "Suc h" "st\<lparr>lf_calls := lf_calls st @ [?c], lf_started_hooks := Suc h\<rparr>"]
      by (simp add: calls_def)
  next
    case False
    then have "\<not> returned env (Suc (Suc (Suc h)))"
      using Suc.prems(4) h(1) by (simp add: returned_Suc [of env "Suc (Suc h)"] startup_nth(3))
    moreover have "e = le_outcome env (lf_calls st) ?c" "st' = st\<lparr>lf_calls := lf_calls st @ [?c]\<rparr>"
      using Suc.prems(1) False h by (auto simp: calls_def split: outcome.splits)
    ultimately show ?thesis
      using False grown Suc.prems(3,5) h(1) unfolding started_def by (auto intro!: exI [of _ "Suc (Suc h)"])
  qed
qed

lemma start_parts_started:
  assumes "start_parts env st = (e, st')" "lf_calls st = []" "lf_started_hooks st = 0"
  shows "started env e st' \<and> lf_users st' = lf_users st"
proof (cases "le_outcome env [] Reconciles = Fine \<and> le_outcome env [Reconciles] StartsWorker = Fine")
  case True
  let ?st = "st\<lparr>lf_calls := [Reconciles, StartsWorker]\<rparr>"
  have "returned env 2" using True by (simp add: returned_def startup_def less_2_cases_iff)
  then have "returned env (Suc (Suc 0))" by (simp add: numeral_2_eq_2)
  moreover have "start_hooks env [0..<le_hooks env] ?st = (e, st')"
    using assms True by (simp add: start_parts_def calls_def)
  ultimately show ?thesis using start_hooks_started [of env 0 ?st e st'] assms(3) by (simp add: startup_def)
next
  case False
  show ?thesis
  proof (cases "le_outcome env [] Reconciles = Fine")
    case True
    then have "returned env 1" "\<not> returned env (Suc 1)"
      using False by (auto simp: returned_def startup_def less_Suc_eq)
    with assms False True show ?thesis
      by (auto simp: start_parts_def calls_def started_def startup_def split: outcome.splits intro!: exI [of _ 1])
  next
    case False
    then have "returned env 0" "\<not> returned env (Suc 0)" by (auto simp: returned_def startup_def)
    with assms False show ?thesis
      by (auto simp: start_parts_def calls_def started_def startup_def split: outcome.splits intro!: exI [of _ 0])
  qed
qed

text \<open>Closed: the started hooks, and no others, were closed in reverse order, and the worker last.\<close>

definition closed_once :: "lifecycle_env \<Rightarrow> lifecycle_call list \<Rightarrow> bool" where
  "closed_once env cs \<longleftrightarrow> (\<exists>m k. cs = take m (startup (le_hooks env)) @ shutdown k \<and>
     (\<forall>h. h < k \<longleftrightarrow> h < le_hooks env \<and> returned env (Suc (Suc (Suc h)))))"

definition one_life :: "lifecycle_env \<Rightarrow> lifecycle \<Rightarrow> bool" where
  "one_life env st \<longleftrightarrow> (case lf_phase st of
     PhaseNew \<Rightarrow> lf_calls st = [] \<and> lf_users st = 0 \<and> lf_started_hooks st = 0
   | PhaseActive \<Rightarrow> lf_calls st = startup (le_hooks env) \<and> 0 < lf_users st \<and>
       lf_started_hooks st = le_hooks env \<and> returned env (Suc (Suc (le_hooks env)))
   | PhaseClosing \<Rightarrow> False
   | PhaseClosed \<Rightarrow> lf_users st = 0 \<and> closed_once env (lf_calls st))"

lemma returned_mono: "returned env m \<Longrightarrow> j \<le> m \<Longrightarrow> returned env j"
  by (simp add: returned_def)

lemma closed_after_start: "started env e st \<Longrightarrow> closed_once env (lf_calls st @ shutdown (lf_started_hooks st))"
proof (cases "e = Fine")
  case True
  moreover assume "started env e st"
  ultimately have "lf_calls st = take (Suc (Suc (le_hooks env))) (startup (le_hooks env))" "lf_started_hooks st = le_hooks env"
    "returned env (Suc (Suc (le_hooks env)))" by (simp_all add: started_def startup_def)
  then show ?thesis unfolding closed_once_def
    by (intro exI [of _ "Suc (Suc (le_hooks env))"] exI [of _ "le_hooks env"]) (auto intro: returned_mono)
next
  case False
  moreover assume "started env e st"
  ultimately obtain m where m: "m < Suc (Suc (le_hooks env))" "lf_calls st = take (Suc m) (startup (le_hooks env))"
    "lf_started_hooks st = m - 2" "returned env m" "\<not> returned env (Suc m)" by (auto simp: started_def)
  have "j \<le> m" if "returned env j" for j
    using m(5) returned_mono [OF that, of "Suc m"] by (meson not_less_eq_eq)
  then have exact: "returned env j \<longleftrightarrow> j \<le> m" for j using returned_mono [OF m(4)] by blast
  have "h < m - 2 \<longleftrightarrow> h < le_hooks env \<and> returned env (Suc (Suc (Suc h)))" for h
    unfolding exact using m(1) by linarith
  with m(2,3) show ?thesis unfolding closed_once_def
    by (intro exI [of _ "Suc m"] exI [of _ "m - 2"]) simp
qed

lemma enter_keeps:
  assumes "enter_lifespan env st = (r, st')" "one_life env st"
  shows "one_life env st'"
proof (cases "lf_phase st = PhaseNew")
  case True
  obtain e st1 where parts: "start_parts env st = (e, st1)" by fastforce
  have st: "lf_calls st = []" "lf_users st = 0" "lf_started_hooks st = 0" using True assms(2) by (auto simp: one_life_def)
  have started: "started env e st1" "lf_users st1 = 0" using start_parts_started [OF parts] st by auto
  show ?thesis
  proof (cases "e = Fine")
    case True
    then show ?thesis using assms(1) st parts started \<open>lf_phase st = PhaseNew\<close>
      by (auto simp: enter_lifespan_def start_runtime_def started_def one_life_def)
  next
    case False
    obtain r' st2 where "close_worker env st1 = (r', st2)" by fastforce
    with close_worker_calls [OF this] closed_after_start [OF started(1)] started(2) show ?thesis
      using assms(1) st parts False \<open>lf_phase st = PhaseNew\<close>
      by (cases e) (auto simp: enter_lifespan_def start_runtime_def one_life_def)
  qed
qed (use assms in \<open>auto simp: enter_lifespan_def one_life_def split: lifecycle_phase.splits\<close>)

lemma leave_keeps:
  assumes "leave_lifespan env st = (r, st')" "one_life env st" "0 < lf_users st"
  shows "one_life env st'"
proof -
  have st: "lf_phase st = PhaseActive" "lf_calls st = startup (le_hooks env)" "lf_started_hooks st = le_hooks env"
    "returned env (Suc (Suc (le_hooks env)))"
    using assms(2,3) by (auto simp: one_life_def split: lifecycle_phase.splits)
  then have "started env Fine st" by (simp add: started_def)
  from closed_after_start [OF this] st assms show ?thesis
    by (auto simp: leave_lifespan_def one_life_def Let_def split: if_splits dest!: close_worker_calls)
qed

text \<open>
  C19. The service starts once and is closed once. Whoever enters and leaves in whatever order, and
  whatever the calls to the store, the worker and the hooks raise, what was called is nothing, or one
  startup in its order (while someone uses the service), or a part of it followed by one shutdown, in
  which exactly the hooks that had started are closed, the last first, and then the worker. Nothing
  is called after that, and users remain only while the service is active.
\<close>

theorem service_lives_once:
  assumes "(lifespan_step env)\<^sup>*\<^sup>* new_lifecycle st"
  shows "one_life env st"
  using assms
proof (induction rule: rtranclp_induct)
  case base
  show ?case by (simp add: one_life_def new_lifecycle_def)
next
  case (step st st')
  from step(2,3) show ?case by (cases rule: lifespan_step.cases) (auto intro: enter_keeps leave_keeps)
qed

definition sample_life_env :: lifecycle_env where
  "sample_life_env = \<lparr>le_outcome = (\<lambda>_ c. if c = StartsHook 1 then Fails else Fine), le_close_cancelled = (\<lambda>_. False), le_hooks = 2\<rparr>"

theorem service_lives_once_witness:
  "one_life sample_life_env (snd (enter_lifespan sample_life_env new_lifecycle)) \<and>
   lf_calls (snd (enter_lifespan sample_life_env new_lifecycle)) =
     [Reconciles, StartsWorker, StartsHook 0, StartsHook 1, ClosesHook 0, ClosesWorker]"
proof
  have "(lifespan_step sample_life_env)\<^sup>*\<^sup>* new_lifecycle (snd (enter_lifespan sample_life_env new_lifecycle))"
    by (rule r_into_rtranclp) (rule Enters [OF prod.collapse [symmetric]])
  then show "one_life sample_life_env (snd (enter_lifespan sample_life_env new_lifecycle))" by (rule service_lives_once)
qed code_simp

end
