(* ===== verification/Spec2Isabelle.thy ===== *)
theory Spec2Isabelle
  imports WorkerAudit WorkerQueue GateErrors LedgerHistory ApiWitnesses ApiLifecycle
begin

text \<open>
  A verification library for SpecPilot, the question answering service over frozen standards in
  \<open>src/specpilot\<close>. A question becomes a run. A worker lets a model plan tool calls, collects
  clauses through an MCP server, and lets models answer (level L1) or judge the compliance of
  claims (level L2). Text of the standards leaves the process only through a policy-bound
  transport, which charges each disclosure to budgets in Postgres before it sends, and a citation
  counts only if a deterministic check finds it in the frozen corpus.

  \<^bold>\<open>Egress: what may leave, and what it costs\<close>
  \<^item> \<^theory_text>\<open>CanonicalJson\<close>, \<^theory_text>\<open>PyText\<close>: \<open>json.dumps\<close> of \<open>manifests/canonical.py\<close> as text that can be read
    back, and the string functions the code uses.
  \<^item> \<^theory_text>\<open>SourceManifests\<close>: \<open>contracts/manifests.py\<close>, a record per model, a Boolean function per
    validator, and \<open>authorizes\<close>.
  \<^item> \<^theory_text>\<open>EgressContracts\<close>, \<^theory_text>\<open>EgressPolicy\<close>: \<open>contracts/egress.py\<close> and \<open>egress/policy.py\<close>.
  \<^item> \<^theory_text>\<open>EnforcerDerive\<close>, \<^theory_text>\<open>EnforcerAccounting\<close>: \<open>egress/enforcer.py\<close>, one function per method, each guard a
    branch. \<^theory_text>\<open>UsageInvariants\<close>, \<^theory_text>\<open>CorpusShares\<close> (a locale for accounts that charge a fact once, with the
    corpus and the document account as its interpretations) and \<^theory_text>\<open>EnforcerTheorems\<close> show that accounts
    stay exact and within their caps, and that a prepared request was authorized and priced.
  \<^item> \<^theory_text>\<open>LedgerStore\<close>: \<open>egress/ledger.py\<close> and \<open>egress/postgres.py\<close>, each transaction a function on a
    record of tables, run under an arbitrary connection fault, a lost commit acknowledgement
    included. \<^theory_text>\<open>LedgerInvariants\<close>, \<^theory_text>\<open>LedgerTheorems\<close> and \<^theory_text>\<open>LedgerHistory\<close> prove the invariant of every
    reachable ledger, that a key is charged once, and what seals and policy rebinds keep.
  \<^item> \<^theory_text>\<open>Transport\<close>: \<open>providers/transport.py\<close>, with a log of what reached the wire.
    \<^theory_text>\<open>TransportTheorems\<close> states its contract with a ledger as a locale, interpreted on \<^theory_text>\<open>LedgerStore\<close>: each
    payload sent was reserved and charged, and an attempt that is not recorded seals its run.

  \<^bold>\<open>Answers: what counts as verified\<close>
  \<^item> \<^theory_text>\<open>AnswerContracts\<close>, \<^theory_text>\<open>Answer\<close>: \<open>contracts/answer.py\<close>, \<open>contracts/verdict.py\<close> and \<open>answer/\<close>. \<^theory_text>\<open>AnswerTheorems\<close>
    shows what a reply may become, and the two texts on which the answer path raises.
  \<^item> \<^theory_text>\<open>Deterministic\<close>: \<open>verifier/deterministic.py\<close> over the corpus of \<open>retrieval/local.py\<close>.
  \<^item> \<^theory_text>\<open>ToolPlans\<close>, \<^theory_text>\<open>EvidenceAgent\<close>: \<open>agents/contracts.py\<close> and \<open>agents/evidence.py\<close>; the MCP client is an
    arbitrary function of the calls before, so it may answer differently each time.
  \<^item> \<^theory_text>\<open>Recovery\<close>: \<open>verifier/recovery.py\<close> and its caller in \<open>api/runtime.py\<close>.
  \<^item> \<^theory_text>\<open>ModelStages\<close>: the planner, the compliance agent and the semantic verifier over an arbitrary
    transport, and the idempotency keys of \<open>runtime/l2.py\<close>.

  \<^bold>\<open>Runs: what is durable\<close>
  \<^item> \<^theory_text>\<open>RunContracts\<close>, \<^theory_text>\<open>CheckpointContracts\<close>: \<open>runs/contracts.py\<close> and \<open>checkpoints/contracts.py\<close>.
  \<^item> \<^theory_text>\<open>RunStore\<close>, \<^theory_text>\<open>CheckpointStore\<close>: \<open>runs/postgres.py\<close> and \<open>checkpoints/postgres.py\<close> over one record of
    tables, under connection faults and any clock. \<^theory_text>\<open>RunInvariants\<close> proves one lemma about a change of
    one run, which carries the invariant through every operation; \<^theory_text>\<open>RunTheorems\<close> and \<^theory_text>\<open>RunWitnesses\<close>
    show that traces are gapless and only grow, and that claims and resumptions happen once.

  \<^bold>\<open>Execution\<close>
  \<^item> \<^theory_text>\<open>Actions\<close>: the state and exception monad of the orchestrators, with weakest preconditions.
  \<^item> \<^theory_text>\<open>L2State\<close>, \<^theory_text>\<open>L2Run\<close>: \<open>runtime/l2.py\<close>, stage by stage with every handler, over arbitrary collaborators.
    \<^theory_text>\<open>L2Logic\<close>, \<^theory_text>\<open>L2Steps\<close>, \<^theory_text>\<open>L2Theorems\<close> prove the invariant of an attempt: verified results passed both
    gates, model calls were recorded first, and all of it is bounded.
  \<^item> \<^theory_text>\<open>RunOutcomes\<close>, \<^theory_text>\<open>WorkerEvents\<close>, \<^theory_text>\<open>WorkerRun\<close>: \<open>answer/run.py\<close>, \<open>runs/outcomes.py\<close> and the runs of
    \<open>runtime/worker.py\<close>, with every check of the lease. The state logs what the worker did.
    \<^theory_text>\<open>WorkerLogic\<close> tells an L1 run without the program, as \<open>l1_trace\<close>, and shows in the locale \<open>act_log\<close>
    that the program follows it. \<^theory_text>\<open>WorkerStore\<close> binds the worker to \<^theory_text>\<open>RunStore\<close>, with a heartbeat before
    any call; the interpretation in \<^theory_text>\<open>WorkerTheorems\<close> gives the stored trace as a refinement of the log.
    \<^theory_text>\<open>WorkerProgress\<close> shows that a queued run is claimed and ended when each call comes within a lease
    that the claim or a heartbeat was granted. \<^theory_text>\<open>WorkerAudit\<close> treats L2 runs and their
    audit batches, \<^theory_text>\<open>GateErrors\<close> the codes of the enforcer, \<^theory_text>\<open>WorkerWitnesses\<close> concrete runs.
  \<^item> \<^theory_text>\<open>WorkerQueue\<close>: permits, limiter, stream and consumer of \<open>runtime/worker.py\<close>, refined to a bounded
    first-in first-out queue.

  \<^bold>\<open>Access\<close>
  \<^item> \<^theory_text>\<open>Base64Url\<close>, \<^theory_text>\<open>SessionTokens\<close>: \<open>sessions/tokens.py\<close>. \<^theory_text>\<open>SessionTheorems\<close> shows that an issued token lives
    exactly its time, and that an accepted one is the only text, signed, of its claims.
  \<^item> \<^theory_text>\<open>ApiService\<close>: \<open>api/app.py\<close>, the credential of a request and the handlers of \<open>/chat\<close>,
    \<open>/runs/{id}/resume\<close> and \<open>/runs/{id}\<close> over \<^theory_text>\<open>RunStore\<close>, \<^theory_text>\<open>CheckpointStore\<close> and \<^theory_text>\<open>WorkerQueue\<close>. At each
    \<open>await\<close> an arbitrary \<open>others\<close> acts. \<^theory_text>\<open>ApiTheorems\<close> assumes of it only that it runs operations of the
    stores and commands of the queue and does not use the permit or the identifier of the request:
    accepted questions are stored and delivered, refused ones leave nothing behind, and runs of other
    sessions are hidden. \<^theory_text>\<open>ApiWitnesses\<close> has concrete requests.
  \<^item> \<^theory_text>\<open>JobFactory\<close>: \<open>runtime/l2_factory.py\<close> and the builders of \<open>api/runtime.py\<close>. \<^theory_text>\<open>JobTheorems\<close> closes the
    way from a request to its attempt: a stored run gets a job whose first checkpoint the store
    accepts, a granted resumption gets the job that continues its checkpoint, and the evidence of a
    checkpoint is restored from the corpus as it was.
  \<^item> \<^theory_text>\<open>ApiLifecycle\<close>: the life of the service in \<open>api/app.py\<close>, which starts once and is closed once
    whatever its parts raise, its health check and the demo session.

  \<^bold>\<open>How the code is read\<close>
  A \<open>str\<close> is its UTF-8 bytes (a lone surrogate is the three bytes that surrogatepass writes), an \<open>int\<close> stays unbounded (Python's is), a timestamp is microseconds. An
  exception is the \<open>Inl\<close> of a sum. Code outside the repository and anything random is an argument:
  SHA-256, \<open>json.loads\<close>, the tokenizer, the clock, fresh identifiers, the provider, the MCP server
  and the faults of a connection. The row locks serialize the transactions on a row, so interleavings
  are sequences of transactions; where a statement skips locked rows, which rows others have locked is
  an argument. An L1 run writes at most twenty-two events (one at its claim, four of the planner, three
  and one for each tool call of the evidence agent, whose budget is six calls and for which eight are
  allowed, five of the answer and its terminal event), the room that \<^theory_text>\<open>WorkerProgress\<close> asks for. Every loop is structural recursion or bounded by the attempts, the
  cost or the list it works on, so no definition carries fuel.

  \<^bold>\<open>Not modelled\<close>
  Asynchronous cancellation of a worker's task; pattern bounds on the length of string fields where no
  property rests on them; triggers of the migrations that repeat the Python validators. Where the CHECKs
  of the migrations 009, 012 and 014 are stricter than the validator of a checkpoint (a claim identifier
  on every compliance generation, the pattern of references, 32-bit integers), the model accepts a write
  that Postgres refuses. An enforcer holds one reading of its clock, so that two calls under one value
  share the instant. The citation that the deterministic verifier builds takes the unit's fields as they
  are, unvalidated, and the orchestrators take this verifier and the evidence restorer of an L2 run as
  total functions. A second cancellation while the closing of the service is awaited would leave the
  close task unawaited and is left out. Left out as a
  whole: the command line, the configuration and clients of a deployment, the MCP server, the HTTP
  provider and its fake, ingestion and parsing of documents, the file stores of manifests, retrieval
  routes and their index, embeddings, annotation, pooling and the retrieval evaluation. They move bytes
  between the file system, the network, Qdrant and a parser, or run offline; the models above take what
  they deliver as arguments.
\<close>

end
